(* ===== verification/Prelude.thy ===== *)
theory Prelude
  imports Complex_Main "HOL-Library.Word" "HOL-Library.Sublist" "HOL-Library.Multiset" "HOL-Library.Char_ord"
begin

text \<open>
  Shared vocabulary of the development: the parts of the Rust language and its standard
  library that the gateway's crates use, and the generic list, option and map lemmas the
  component theories share.

  A Rust \<open>String\<close>, \<open>&str\<close> or \<open>Vec<u8>\<close> is a list of bytes (\<open>string\<close>; a Rust string is its
  UTF-8 encoding). The string functions below work on bytes, as Rust's do on the UTF-8
  representation: a substring search, a prefix test or a split at an ASCII separator gives the
  same answer on the encoding as on the code points.
\<close>

named_theorems rust_std \<open>unfolding rules for the modelled Rust standard library\<close>
named_theorems std_simps \<open>rewrite rules about the modelled Rust standard library\<close>

type_synonym bytes = string

section \<open>Strings\<close>

definition starts_with :: "string \<Rightarrow> string \<Rightarrow> bool" where
  "starts_with s p \<longleftrightarrow> take (length p) s = p"

definition ends_with :: "string \<Rightarrow> string \<Rightarrow> bool" where
  "ends_with s p \<longleftrightarrow> length p \<le> length s \<and> drop (length s - length p) s = p"

definition strip_prefix :: "string \<Rightarrow> string \<Rightarrow> string option" where
  "strip_prefix s p = (if starts_with s p then Some (drop (length p) s) else None)"

definition strip_suffix :: "string \<Rightarrow> string \<Rightarrow> string option" where
  "strip_suffix s p = (if ends_with s p then Some (take (length s - length p) s) else None)"

fun find_str :: "string \<Rightarrow> string \<Rightarrow> nat option" where
  "find_str [] p = (if p = [] then Some 0 else None)"
| "find_str (c # cs) p =
     (if starts_with (c # cs) p then Some 0 else map_option Suc (find_str cs p))"

definition contains_str :: "string \<Rightarrow> string \<Rightarrow> bool" where
  "contains_str s p \<longleftrightarrow> find_str s p \<noteq> None"

definition split_once :: "string \<Rightarrow> string \<Rightarrow> (string \<times> string) option" where
  "split_once s p = map_option (\<lambda>i. (take i s, drop (i + length p) s)) (find_str s p)"

text \<open>\<open>str::split\<close> with a set of separator characters.\<close>
fun split_chars :: "(char \<Rightarrow> bool) \<Rightarrow> string \<Rightarrow> string list" where
  "split_chars sep [] = [[]]"
| "split_chars sep (c # cs) =
     (if sep c then [] # split_chars sep cs
      else (case split_chars sep cs of [] \<Rightarrow> [[c]] | w # ws \<Rightarrow> (c # w) # ws))"

text \<open>\<open>[&str]::join\<close>.\<close>
fun join :: "string \<Rightarrow> string list \<Rightarrow> string" where
  "join sep [] = []"
| "join sep [w] = w"
| "join sep (w # v # ws) = w @ sep @ join sep (v # ws)"

definition byte_of :: "char \<Rightarrow> nat" where
  "byte_of c = of_char c"

definition to_ascii_lowercase_char :: "char \<Rightarrow> char" where
  "to_ascii_lowercase_char c =
     (if 65 \<le> byte_of c \<and> byte_of c \<le> 90 then char_of (byte_of c + 32) else c)"

definition to_ascii_lowercase :: "string \<Rightarrow> string" where
  "to_ascii_lowercase s = map to_ascii_lowercase_char s"

definition to_ascii_uppercase :: "string \<Rightarrow> string" where
  "to_ascii_uppercase s =
     map (\<lambda>c. if 97 \<le> byte_of c \<and> byte_of c \<le> 122 then char_of (byte_of c - 32) else c) s"

definition eq_ignore_ascii_case :: "string \<Rightarrow> string \<Rightarrow> bool" where
  "eq_ignore_ascii_case a b \<longleftrightarrow> to_ascii_lowercase a = to_ascii_lowercase b"

text \<open>
  The UTF-8 encodings of the code points with the Unicode property White\_Space, which
  \<open>str::trim\<close> removes: the ASCII ones, U+0085, U+00A0, U+1680, U+2000 to U+200A, U+2028,
  U+2029, U+202F, U+205F and U+3000.
\<close>
definition whitespace_encodings :: "nat list list" where
  "whitespace_encodings =
     map (\<lambda>n. [n]) [9, 10, 11, 12, 13, 32] @
     [[0xC2, 0x85], [0xC2, 0xA0], [0xE1, 0x9A, 0x80]] @
     map (\<lambda>n. [0xE2, 0x80, n]) [0x80, 0x81, 0x82, 0x83, 0x84, 0x85, 0x86, 0x87, 0x88, 0x89, 0x8A,
       0xA8, 0xA9, 0xAF] @
     [[0xE2, 0x81, 0x9F], [0xE3, 0x80, 0x80]]"

definition leading_space :: "string \<Rightarrow> nat option" where
  "leading_space s =
     map_option length (find (\<lambda>w. take (length w) (map byte_of s) = w) whitespace_encodings)"

function trim_start :: "string \<Rightarrow> string" where
  "trim_start s =
     (case leading_space s of
        None \<Rightarrow> s
      | Some n \<Rightarrow> if n = 0 \<or> s = [] then s else trim_start (drop n s))"
  by pat_completeness auto
termination by (relation "measure length") auto

definition trailing_space :: "string \<Rightarrow> nat option" where
  "trailing_space s =
     map_option length
       (find (\<lambda>w. length w \<le> length s \<and> drop (length s - length w) (map byte_of s) = w)
          whitespace_encodings)"

function trim_end :: "string \<Rightarrow> string" where
  "trim_end s =
     (case trailing_space s of
        None \<Rightarrow> s
      | Some n \<Rightarrow> if n = 0 \<or> s = [] then s else trim_end (take (length s - n) s))"
  by pat_completeness auto
termination by (relation "measure length") auto

declare trim_start.simps [simp del] trim_end.simps [simp del]

definition trim :: "string \<Rightarrow> string" where
  "trim s = trim_end (trim_start s)"

text \<open>\<open>str::trim_end_matches\<close> with one ASCII character.\<close>
definition trim_end_char :: "char \<Rightarrow> string \<Rightarrow> string" where
  "trim_end_char c s = rev (dropWhile (\<lambda>x. x = c) (rev s))"

text \<open>Decimal rendering of an unsigned integer (\<open>Display\<close>).\<close>
function show_nat :: "nat \<Rightarrow> string" where
  "show_nat n =
     (if n < 10 then [char_of (48 + n)] else show_nat (n div 10) @ [char_of (48 + n mod 10)])"
  by pat_completeness auto
termination by (relation "measure id") auto

declare show_nat.simps [simp del]

text \<open>\<open>str::parse::<i64>\<close>: an optional sign, at least one digit, and within range.\<close>
definition is_digit :: "char \<Rightarrow> bool" where
  "is_digit c \<longleftrightarrow> 48 \<le> byte_of c \<and> byte_of c \<le> 57"

definition digits_value :: "string \<Rightarrow> int" where
  "digits_value ds = foldl (\<lambda>n c. n * 10 + (int (byte_of c) - 48)) 0 ds"

definition parse_i64 :: "string \<Rightarrow> int option" where
  "parse_i64 s =
     (let (neg, ds) = (case s of
            [] \<Rightarrow> (False, [])
          | c # cs \<Rightarrow> if c = CHR ''-'' then (True, cs) else if c = CHR ''+'' then (False, cs) else (False, s));
          n = (if neg then - digits_value ds else digits_value ds)
      in if ds \<noteq> [] \<and> list_all is_digit ds \<and> - (2 ^ 63) \<le> n \<and> n < 2 ^ 63 then Some n else None)"

text \<open>
  \<open>String::from_utf8_lossy\<close>: a well-formed sequence is kept, the longest prefix of one that is cut
  short or broken is replaced by U+FFFD. \<open>utf8_next\<close> gives the length of the next sequence and
  whether it is well-formed.
\<close>
definition cont_byte :: "nat list \<Rightarrow> nat \<Rightarrow> nat \<Rightarrow> nat \<Rightarrow> bool" where
  "cont_byte bs i lo hi \<longleftrightarrow> i < length bs \<and> lo \<le> bs ! i \<and> bs ! i \<le> hi"

definition utf8_next :: "nat list \<Rightarrow> nat \<times> bool" where
  "utf8_next bs =
     (let b = hd bs;
          cont = (\<lambda>i. cont_byte bs i 0x80 0xBF);
          second = (\<lambda>i. if b = 0xE0 then cont_byte bs i 0xA0 0xBF
                        else if b = 0xED then cont_byte bs i 0x80 0x9F
                        else if b = 0xF0 then cont_byte bs i 0x90 0xBF
                        else if b = 0xF4 then cont_byte bs i 0x80 0x8F
                        else cont_byte bs i 0x80 0xBF)
      in if b < 0x80 then (1, True)
         else if 0xC2 \<le> b \<and> b \<le> 0xDF then (if cont 1 then (2, True) else (1, False))
         else if 0xE0 \<le> b \<and> b \<le> 0xEF then
           (if \<not> second 1 then (1, False) else if \<not> cont 2 then (2, False) else (3, True))
         else if 0xF0 \<le> b \<and> b \<le> 0xF4 then
           (if \<not> second 1 then (1, False) else if \<not> cont 2 then (2, False)
            else if \<not> cont 3 then (3, False) else (4, True))
         else (1, False))"

definition replacement_char :: string where
  "replacement_char = [CHR 0xEF, CHR 0xBF, CHR 0xBD]"

function from_utf8_lossy :: "bytes \<Rightarrow> string" where
  "from_utf8_lossy s =
     (if s = [] then []
      else let (n, ok) = utf8_next (map byte_of s)
           in (if ok then take n s else replacement_char) @ from_utf8_lossy (drop (max n 1) s))"
  by pat_completeness auto
termination by (relation "measure length") auto

declare from_utf8_lossy.simps [simp del]

text \<open>\<open>chars().take(n)\<close> of a well-formed string: up to \<open>n\<close> code points, each with its continuation bytes.\<close>
fun take_chars :: "nat \<Rightarrow> string \<Rightarrow> string" where
  "take_chars n [] = []"
| "take_chars n (c # cs) =
     (if 0x80 \<le> byte_of c \<and> byte_of c < 0xC0 then c # take_chars n cs
      else if n = 0 then [] else c # take_chars (n - 1) cs)"

text \<open>\<open>trim_end_matches\<close> with carriage return and line feed.\<close>
definition trim_line_end :: "string \<Rightarrow> string" where
  "trim_line_end s = rev (dropWhile (\<lambda>c. c = CHR 0x0D \<or> c = CHR 0x0A) (rev s))"

section \<open>Lemmas on the string functions\<close>

text \<open>The white space as characters, which is what the trimming functions compute with.\<close>
definition whitespace_chars :: "string list" where
  "whitespace_chars =
     [[CHR 0x09], [CHR 0x0A], [CHR 0x0B], [CHR 0x0C], [CHR 0x0D], [CHR 0x20],
      [CHR 0xC2, CHR 0x85], [CHR 0xC2, CHR 0xA0], [CHR 0xE1, CHR 0x9A, CHR 0x80],
      [CHR 0xE2, CHR 0x80, CHR 0x80], [CHR 0xE2, CHR 0x80, CHR 0x81], [CHR 0xE2, CHR 0x80, CHR 0x82],
      [CHR 0xE2, CHR 0x80, CHR 0x83], [CHR 0xE2, CHR 0x80, CHR 0x84], [CHR 0xE2, CHR 0x80, CHR 0x85],
      [CHR 0xE2, CHR 0x80, CHR 0x86], [CHR 0xE2, CHR 0x80, CHR 0x87], [CHR 0xE2, CHR 0x80, CHR 0x88],
      [CHR 0xE2, CHR 0x80, CHR 0x89], [CHR 0xE2, CHR 0x80, CHR 0x8A], [CHR 0xE2, CHR 0x80, CHR 0xA8],
      [CHR 0xE2, CHR 0x80, CHR 0xA9], [CHR 0xE2, CHR 0x80, CHR 0xAF], [CHR 0xE2, CHR 0x81, CHR 0x9F],
      [CHR 0xE3, CHR 0x80, CHR 0x80]]"

lemma whitespace_encodings_chars: "whitespace_encodings = map (map byte_of) whitespace_chars"
  by (simp add: whitespace_encodings_def whitespace_chars_def byte_of_def)

lemma byte_of_inj: "map byte_of a = map byte_of b \<longleftrightarrow> a = b"
  by (rule inj_map_eq_map) (simp add: byte_of_def inj_def)

lemma find_map_list: "find P (map f xs) = map_option f (find (P \<circ> f) xs)"
  by (induction xs) auto

lemma leading_space_code [code]:
  "leading_space s = map_option length (find (\<lambda>w. take (length w) s = w) whitespace_chars)"
  by (simp add: leading_space_def whitespace_encodings_chars find_map_list option.map_comp comp_def
      take_map byte_of_inj)

lemma trailing_space_code [code]:
  "trailing_space s = map_option length
     (find (\<lambda>w. length w \<le> length s \<and> drop (length s - length w) s = w) whitespace_chars)"
  by (simp add: trailing_space_def whitespace_encodings_chars find_map_list option.map_comp comp_def
      drop_map byte_of_inj)

text \<open>An ASCII byte is a sequence of its own, so only the others need the table of \<open>utf8_next\<close>.\<close>
definition is_ascii :: "char \<Rightarrow> bool" where
  "is_ascii c = (case c of Char b0 b1 b2 b3 b4 b5 b6 b7 \<Rightarrow> \<not> b7)"

lemma is_ascii_byte: "is_ascii c \<longleftrightarrow> byte_of c < 0x80"
  by (cases c) (auto simp: is_ascii_def byte_of_def of_char_def)

lemma utf8_next_ascii: "is_ascii c \<Longrightarrow> utf8_next (map byte_of (c # cs)) = (1, True)"
  by (simp add: is_ascii_byte utf8_next_def Let_def)

lemma from_utf8_lossy_code [code]:
  "from_utf8_lossy s =
     (case s of
        [] \<Rightarrow> []
      | c # cs \<Rightarrow>
          if is_ascii c then c # from_utf8_lossy cs
          else let (n, ok) = utf8_next (map byte_of s)
               in (if ok then take n s else replacement_char) @ from_utf8_lossy (drop (max n 1) s))"
  using utf8_next_ascii by (subst from_utf8_lossy.simps) (simp split: list.split)

lemma starts_with_iff [std_simps]: "starts_with s p \<longleftrightarrow> (\<exists>t. s = p @ t)"
proof
  assume "starts_with s p"
  then have "s = p @ drop (length p) s"
    unfolding starts_with_def by (metis append_take_drop_id)
  then show "\<exists>t. s = p @ t" ..
qed (auto simp: starts_with_def)

lemma starts_with_append [simp]: "starts_with (p @ t) p"
  by (simp add: starts_with_def)

lemma starts_with_Nil [simp]: "starts_with s []"
  by (simp add: starts_with_def)

lemma ends_with_iff [std_simps]: "ends_with s p \<longleftrightarrow> (\<exists>t. s = t @ p)"
proof
  assume "ends_with s p"
  then have "s = take (length s - length p) s @ p"
    unfolding ends_with_def by (metis append_take_drop_id)
  then show "\<exists>t. s = t @ p" ..
qed (auto simp: ends_with_def)

lemma ends_with_append [simp]: "ends_with (t @ p) p"
  by (simp add: ends_with_def)

lemma strip_prefix_append [simp]: "strip_prefix (p @ t) p = Some t"
  by (simp add: strip_prefix_def)

lemma strip_prefix_Some [std_simps]: "strip_prefix s p = Some t \<longleftrightarrow> s = p @ t"
  by (auto simp: strip_prefix_def starts_with_iff)

lemma strip_suffix_append [simp]: "strip_suffix (t @ p) p = Some t"
  by (simp add: strip_suffix_def)

lemma strip_suffix_Some [std_simps]: "strip_suffix s p = Some t \<longleftrightarrow> s = t @ p"
  by (auto simp: strip_suffix_def ends_with_iff)

lemma find_str_None: "find_str s p = None \<longleftrightarrow> (\<nexists>a b. s = a @ p @ b)"
proof (induction s)
  case Nil
  then show ?case by auto
next
  case (Cons c cs)
  have "(\<exists>a b. c # cs = a @ p @ b) \<longleftrightarrow> (\<exists>b. c # cs = p @ b) \<or> (\<exists>a b. cs = a @ p @ b)"
    by (auto simp: Cons_eq_append_conv)
  with Cons show ?case by (auto simp: starts_with_iff)
qed

lemma contains_str_iff [std_simps]: "contains_str s p \<longleftrightarrow> (\<exists>a b. s = a @ p @ b)"
  by (simp add: contains_str_def find_str_None)

lemma contains_strI [intro]: "contains_str (a @ p @ b) p"
  by (auto simp: contains_str_iff)

lemma find_str_Some:
  "find_str s p = Some i \<Longrightarrow> i + length p \<le> length s \<and> take (length p) (drop i s) = p"
proof (induction s arbitrary: i)
  case Nil
  then show ?case by (auto split: if_splits)
next
  case (Cons c cs)
  show ?case
  proof (cases "starts_with (c # cs) p")
    case True
    then obtain t where "c # cs = p @ t" by (auto simp: starts_with_iff)
    moreover from True Cons.prems have "i = 0" by simp
    ultimately show ?thesis by simp
  next
    case False
    with Cons show ?thesis by auto
  qed
qed

lemma split_once_Some: "split_once s p = Some (a, b) \<Longrightarrow> s = a @ p @ b"
proof -
  assume "split_once s p = Some (a, b)"
  then obtain i where i: "find_str s p = Some i" "a = take i s" "b = drop (i + length p) s"
    by (auto simp: split_once_def)
  have "drop i s = p @ drop (length p) (drop i s)"
    using find_str_Some [OF i(1)] append_take_drop_id [of "length p" "drop i s"] by simp
  then have "s = take i s @ p @ drop (length p) (drop i s)"
    using append_take_drop_id [of i s] by simp
  then show ?thesis by (simp add: i add.commute)
qed

lemma split_chars_not_Nil [simp]: "split_chars sep s \<noteq> []"
  by (induction s) (auto split: list.split)

lemma split_chars_no_sep: "\<forall>c \<in> set s. \<not> sep c \<Longrightarrow> split_chars sep s = [s]"
  by (induction s) auto

lemma split_chars_append_sep:
  "\<forall>c \<in> set s. \<not> sep c \<Longrightarrow> sep x \<Longrightarrow> split_chars sep (s @ x # t) = s # split_chars sep t"
  by (induction s) auto

lemma to_ascii_lowercase_length [simp]: "length (to_ascii_lowercase s) = length s"
  by (simp add: to_ascii_lowercase_def)

lemma eq_ignore_ascii_case_refl [simp]: "eq_ignore_ascii_case a a"
  by (simp add: eq_ignore_ascii_case_def)

lemma eq_ignore_ascii_case_sym: "eq_ignore_ascii_case a b \<Longrightarrow> eq_ignore_ascii_case b a"
  by (simp add: eq_ignore_ascii_case_def)

lemma eq_ignore_ascii_case_trans:
  "eq_ignore_ascii_case a b \<Longrightarrow> eq_ignore_ascii_case b c \<Longrightarrow> eq_ignore_ascii_case a c"
  by (simp add: eq_ignore_ascii_case_def)

lemma trim_end_char_no_suffix: "trim_end_char c s = [] \<or> last (trim_end_char c s) \<noteq> c"
proof (cases "dropWhile (\<lambda>x. x = c) (rev s)")
  case Nil
  then show ?thesis by (simp add: trim_end_char_def)
next
  case (Cons y ys)
  then have "y \<noteq> c" using hd_dropWhile [of "\<lambda>x. x = c" "rev s"] by simp
  with Cons show ?thesis by (simp add: trim_end_char_def)
qed

section \<open>Lists and maps\<close>

text \<open>Keeping the first element of each key, as a \<open>HashSet\<close> of seen keys does.\<close>
fun dedup_key :: "('a \<Rightarrow> 'k) \<Rightarrow> 'k set \<Rightarrow> 'a list \<Rightarrow> 'a list" where
  "dedup_key f S [] = []"
| "dedup_key f S (x # xs) =
     (if f x \<in> S then dedup_key f S xs else x # dedup_key f (insert (f x) S) xs)"

lemma dedup_key_set: "set (dedup_key f S xs) \<subseteq> set xs"
proof (induction xs arbitrary: S)
  case (Cons x xs)
  have "set (dedup_key f S xs) \<subseteq> set xs" "set (dedup_key f (insert (f x) S) xs) \<subseteq> set xs"
    by (rule Cons)+
  then show ?case by auto
qed simp

lemma dedup_key_fresh: "x \<in> set (dedup_key f S xs) \<Longrightarrow> f x \<notin> S"
  by (induction xs arbitrary: S) (auto split: if_splits)

lemma dedup_key_distinct: "distinct (map f (dedup_key f S xs))"
  by (induction xs arbitrary: S) (auto dest: dedup_key_fresh)

lemma dedup_key_covers: "x \<in> set xs \<Longrightarrow> f x \<in> S \<or> f x \<in> f ` set (dedup_key f S xs)"
proof (induction xs arbitrary: S)
  case (Cons y ys)
  from Cons.IH [of S] Cons.IH [of "insert (f y) S"] Cons.prems show ?case by auto
qed simp

lemma dedup_key_image: "f ` set (dedup_key f S xs) = f ` set xs - S"
  using dedup_key_covers [of _ xs f S] dedup_key_set [of f S xs] dedup_key_fresh [of _ f S xs]
  by fast

lemma dedup_key_append:
  "dedup_key f S (xs @ ys) = dedup_key f S xs @ dedup_key f (S \<union> f ` set xs) ys"
  by (induction xs arbitrary: S) (auto simp: insert_absorb)

end
