(* ===== verification/Json_Value.thy ===== *)
theory Json_Value
  imports Prelude
begin

text \<open>
  The JSON values the wire translators walk (\<open>serde_json::Value\<close> with insertion-ordered
  objects) and the helpers of \<open>crates/yb-wire/src/common.rs\<close> and \<open>error.rs\<close>. Reading bytes
  into a value and writing a value as bytes belong to the \<open>serde_json\<close> package and are
  parameters of the definitions that need them.

  An object is an association list: \<open>jinsert\<close> replaces the value of a present key in place and
  appends an absent one, which is the order-preserving map of that package; \<open>jremove\<close> moves the
  last entry into the hole, as its \<open>remove\<close> does.
\<close>

section \<open>Values\<close>

text \<open>A JSON number: a \<open>u64\<close>, a negative \<open>i64\<close>, or a float (a rational, exact).\<close>
datatype number = PosInt "64 word" | NegInt int | Float rat

datatype json =
    JNull
  | JBool bool
  | JNum number
  | JStr string
  | JArr "json list"
  | JObj "(string \<times> json) list"

type_synonym json_object = "(string \<times> json) list"

fun jget_obj :: "json_object \<Rightarrow> string \<Rightarrow> json option" where
  "jget_obj [] k = None"
| "jget_obj ((k', v) # m) k = (if k' = k then Some v else jget_obj m k)"

fun jinsert :: "string \<Rightarrow> json \<Rightarrow> json_object \<Rightarrow> json_object" where
  "jinsert k v [] = [(k, v)]"
| "jinsert k v ((k', v') # m) = (if k' = k then (k, v) # m else (k', v') # jinsert k v m)"

fun jremove :: "string \<Rightarrow> json_object \<Rightarrow> json_object" where
  "jremove k [] = []"
| "jremove k ((k', v') # m) =
     (if k' = k then (if m = [] then [] else last m # butlast m) else (k', v') # jremove k m)"

fun jget :: "json \<Rightarrow> string \<Rightarrow> json option" where
  "jget (JObj m) k = jget_obj m k"
| "jget _ k = None"

fun as_object :: "json \<Rightarrow> json_object option" where
  "as_object (JObj m) = Some m"
| "as_object _ = None"

fun as_str :: "json \<Rightarrow> string option" where
  "as_str (JStr s) = Some s"
| "as_str _ = None"

fun as_array :: "json \<Rightarrow> json list option" where
  "as_array (JArr xs) = Some xs"
| "as_array _ = None"

fun as_bool :: "json \<Rightarrow> bool option" where
  "as_bool (JBool b) = Some b"
| "as_bool _ = None"

fun as_u64 :: "json \<Rightarrow> (64 word) option" where
  "as_u64 (JNum (PosInt n)) = Some n"
| "as_u64 _ = None"

fun as_f64 :: "json \<Rightarrow> rat option" where
  "as_f64 (JNum (PosInt n)) = Some (of_nat (unat n))"
| "as_f64 (JNum (NegInt i)) = Some (of_int i)"
| "as_f64 (JNum (Float q)) = Some q"
| "as_f64 _ = None"

definition is_null :: "json \<Rightarrow> bool" where
  "is_null v \<longleftrightarrow> v = JNull"

text \<open>A \<open>u32\<close> or \<open>usize\<close> as a JSON number.\<close>
definition jnat :: "nat \<Rightarrow> json" where
  "jnat n = JNum (PosInt (of_nat n))"

definition ju32 :: "32 word \<Rightarrow> json" where
  "ju32 w = JNum (PosInt (ucast w))"

section \<open>Errors and helpers of the wire crate\<close>

datatype wire_error =
    Json string
  | MissingField string
  | InvalidField string string
  | InvalidRequest string
  | InvalidResponse string
  | Unsupported string

type_synonym 'a wire_result = "wire_error + 'a"

text \<open>The \<open>Display\<close> text the gateway puts into its own error.\<close>
fun wire_error_text :: "wire_error \<Rightarrow> string" where
  "wire_error_text (Json e) = ''invalid json: '' @ e"
| "wire_error_text (MissingField f) = ''missing field: '' @ f"
| "wire_error_text (InvalidField f r) = ''invalid field '' @ f @ '': '' @ r"
| "wire_error_text (InvalidRequest m) = ''invalid request: '' @ m"
| "wire_error_text (InvalidResponse m) = ''invalid response: '' @ m"
| "wire_error_text (Unsupported m) = ''unsupported: '' @ m"

definition opt_str :: "json \<Rightarrow> string \<Rightarrow> string option" where
  "opt_str obj k = Option.bind (jget obj k) as_str"

definition opt_arr :: "json \<Rightarrow> string \<Rightarrow> json list option" where
  "opt_arr obj k = Option.bind (jget obj k) as_array"

definition req_str :: "json \<Rightarrow> string \<Rightarrow> string wire_result" where
  "req_str obj k = (case opt_str obj k of None \<Rightarrow> Inl (MissingField k) | Some s \<Rightarrow> Inr s)"

text \<open>\<open>n as u32\<close> keeps the low 32 bits.\<close>
definition opt_u32 :: "json \<Rightarrow> string \<Rightarrow> (32 word) option" where
  "opt_u32 obj k = map_option ucast (Option.bind (jget obj k) as_u64)"

definition opt_f32 :: "json \<Rightarrow> string \<Rightarrow> rat option" where
  "opt_f32 obj k = Option.bind (jget obj k) as_f64"

definition opt_bool :: "json \<Rightarrow> string \<Rightarrow> bool" where
  "opt_bool obj k = (case Option.bind (jget obj k) as_bool of None \<Rightarrow> False | Some b \<Rightarrow> b)"

definition str_vec :: "json option \<Rightarrow> string list" where
  "str_vec v = (case Option.bind v as_array of None \<Rightarrow> [] | Some a \<Rightarrow> List.map_filter as_str a)"

definition parse_data_url :: "string \<Rightarrow> (string \<times> string) option" where
  "parse_data_url url =
     Option.bind (strip_prefix url ''data:'') (\<lambda>rest.
     Option.bind (split_once rest '','') (\<lambda>(meta, data).
     Some (case strip_suffix meta '';base64'' of None \<Rightarrow> meta | Some mt \<Rightarrow> mt, data)))"

definition build_data_url :: "string option \<Rightarrow> string \<Rightarrow> string" where
  "build_data_url media_type data =
     (let mt = (case media_type of None \<Rightarrow> ''image/png'' | Some mt \<Rightarrow> mt)
      in ''data:'' @ mt @ '';base64,'' @ data)"

definition insert_opt :: "string \<Rightarrow> json option \<Rightarrow> json_object \<Rightarrow> json_object" where
  "insert_opt k v m = (case v of None \<Rightarrow> m | Some x \<Rightarrow> jinsert k x m)"

section \<open>Lemmas\<close>

lemma jget_obj_jinsert [simp]:
  "jget_obj (jinsert k v m) k' = (if k = k' then Some v else jget_obj m k')"
  by (induction k v m rule: jinsert.induct) auto

lemma jget_obj_None_iff: "jget_obj m k = None \<longleftrightarrow> k \<notin> fst ` set m"
  by (induction m k rule: jget_obj.induct) auto

lemma jget_obj_append:
  "jget_obj (m @ n) k = (case jget_obj m k of None \<Rightarrow> jget_obj n k | Some v \<Rightarrow> Some v)"
  by (induction m k rule: jget_obj.induct) auto

lemma jget_obj_map_of: "jget_obj m k = map_of m k"
  by (induction m k rule: jget_obj.induct) auto

lemma rotate_last: "m \<noteq> [] \<Longrightarrow> set (last m # butlast m) = set m \<and>
    (distinct (map fst (last m # butlast m)) \<longleftrightarrow> distinct (map fst m))"
  by (induction m rule: rev_induct) auto

lemma jremove_set:
  "distinct (map fst m) \<Longrightarrow> set (jremove k m) = {e \<in> set m. fst e \<noteq> k} \<and> distinct (map fst (jremove k m))"
proof (induction k m rule: jremove.induct)
  case (2 k k' v' m)
  show ?case
  proof (cases "k' = k")
    case True
    have "set (jremove k ((k', v') # m)) = set m \<and> distinct (map fst (jremove k ((k', v') # m)))"
      using 2 True rotate_last [of m] by (cases "m = []") auto
    moreover have "{e \<in> set ((k', v') # m). fst e \<noteq> k} = set m" using 2 True by (auto simp: image_iff)
    ultimately show ?thesis by simp
  next
    case False
    with 2 have IH: "set (jremove k m) = {e \<in> set m. fst e \<noteq> k}" "distinct (map fst (jremove k m))" by simp_all
    then have "fst ` set (jremove k m) \<subseteq> fst ` set m" by blast
    with 2 False IH show ?thesis by auto
  qed
qed simp

lemma jremove_distinct: "distinct (map fst m) \<Longrightarrow> distinct (map fst (jremove k m))"
  using jremove_set by blast

lemma option_eqI: "(\<And>v. x = Some v \<longleftrightarrow> y = Some v) \<Longrightarrow> x = y"
  by (metis not_Some_eq)

lemma jget_obj_Some_iff: "distinct (map fst m) \<Longrightarrow> jget_obj m k = Some v \<longleftrightarrow> (k, v) \<in> set m"
  by (simp add: jget_obj_map_of)

lemma jget_obj_jremove:
  assumes d: "distinct (map fst m)"
  shows "jget_obj (jremove k m) k' = (if k = k' then None else jget_obj m k')"
proof -
  have s: "(k', v) \<in> set (jremove k m) \<longleftrightarrow> k \<noteq> k' \<and> (k', v) \<in> set m" for v
    using jremove_set [OF d, of k] by auto
  have "jget_obj (jremove k m) k' = Some v \<longleftrightarrow> k \<noteq> k' \<and> jget_obj m k' = Some v" for v
    unfolding jget_obj_Some_iff [OF d] jget_obj_Some_iff [OF jremove_distinct [OF d]] by (rule s)
  then show ?thesis by (cases "k = k'") (simp add: option_eqI [of _ None], simp add: option_eqI)
qed

lemma jinsert_fresh: "k \<notin> fst ` set m \<Longrightarrow> jinsert k v m = m @ [(k, v)]"
  by (induction k v m rule: jinsert.induct) auto

lemma jinsert_keys: "fst ` set (jinsert k v m) = insert k (fst ` set m)"
  by (induction k v m rule: jinsert.induct) auto

lemma jinsert_distinct: "distinct (map fst m) \<Longrightarrow> distinct (map fst (jinsert k v m))"
proof (induction k v m rule: jinsert.induct)
  case (2 k v k' v' m)
  have "fst ` set (jinsert k v m) = insert k (fst ` set m)" by (rule jinsert_keys)
  with 2 show ?case by (auto simp: image_iff)
qed simp

lemma jget_obj_insert_opt [simp]:
  "jget_obj (insert_opt k v m) k' =
     (if k = k' \<and> v \<noteq> None then v else jget_obj m k')"
  by (auto simp: insert_opt_def split: option.split)

lemma insert_opt_distinct: "distinct (map fst m) \<Longrightarrow> distinct (map fst (insert_opt k v m))"
  by (auto simp: insert_opt_def jinsert_distinct split: option.split)

lemma build_data_url_None [simp]:
  "build_data_url None data = build_data_url (Some ''image/png'') data"
  by (simp add: build_data_url_def)

lemma find_str_single: "c \<notin> set s \<Longrightarrow> find_str (s @ c # t) [c] = Some (length s)"
  by (induction s) (auto simp: starts_with_def)

lemma split_once_char: "c \<notin> set s \<Longrightarrow> split_once (s @ c # t) [c] = Some (s, t)"
  by (simp add: split_once_def find_str_single)

lemma parse_build_data_url:
  assumes "CHR '','' \<notin> set mt"
  shows "parse_data_url (build_data_url (Some mt) data) = Some (mt, data)"
proof -
  have 1: "build_data_url (Some mt) data = ''data:'' @ ((mt @ '';base64'') @ CHR '','' # data)"
    by (simp add: build_data_url_def)
  have 2: "split_once ((mt @ '';base64'') @ CHR '','' # data) [CHR '',''] =
    Some (mt @ '';base64'', data)"
    using assms by (intro split_once_char) auto
  show ?thesis
    unfolding parse_data_url_def 1 strip_prefix_append
    using 2 by simp
qed

end
