(* ===== verification/Core_Domain.thy ===== *)
theory Core_Domain
  imports Json_Value
begin

text \<open>
  The domain types of \<open>crates/yb-core\<close>: the error type with its HTTP mapping (\<open>error.rs\<close>), the
  wire, embeddings and media formats, the health check kinds, the extras, deployments, route
  requests and decisions (\<open>routing.rs\<close>), the price record (\<open>catalog.rs\<close>) and the file-owned
  settings the request path reads (\<open>config.rs\<close>).

  A \<open>Timestamp\<close> is the number of nanoseconds since the Unix epoch, a \<open>Duration\<close> an exact number
  of seconds, an \<open>f64\<close> an exact rational.
\<close>

type_synonym id = string
type_synonym micros = int
type_synonym timestamp = int
type_synonym duration = rat

section \<open>Errors\<close>

datatype error =
    NotFound string
  | BadRequest string
  | Unauthorized string
  | Forbidden string
  | Conflict string
  | BudgetExceeded string
  | RateLimited duration string
  | NoEligibleProvider string
  | Upstream string "16 word" string
  | ConnectionLost string
  | Storage string
  | Crypto string
  | Config string
  | Wire string
  | Internal string

type_synonym 'a result = "error + 'a"

fun http_status :: "error \<Rightarrow> 16 word" where
  "http_status (NotFound _) = 404"
| "http_status (BadRequest _) = 400"
| "http_status (Unauthorized _) = 401"
| "http_status (Forbidden _) = 403"
| "http_status (Conflict _) = 409"
| "http_status (BudgetExceeded _) = 429"
| "http_status (RateLimited _ _) = 429"
| "http_status (NoEligibleProvider _) = 400"
| "http_status (Upstream _ status _) = status"
| "http_status (ConnectionLost _) = 502"
| "http_status (Wire _) = 400"
| "http_status (Storage _) = 500"
| "http_status (Crypto _) = 500"
| "http_status (Config _) = 500"
| "http_status (Internal _) = 500"

fun code :: "error \<Rightarrow> string" where
  "code (NotFound _) = ''not_found''"
| "code (BadRequest _) = ''bad_request''"
| "code (Unauthorized _) = ''unauthorized''"
| "code (Forbidden _) = ''forbidden''"
| "code (Conflict _) = ''conflict''"
| "code (BudgetExceeded _) = ''budget_exceeded''"
| "code (RateLimited _ _) = ''rate_limited''"
| "code (NoEligibleProvider _) = ''no_eligible_provider''"
| "code (Upstream _ _ _) = ''upstream_error''"
| "code (ConnectionLost _) = ''upstream_error''"
| "code (Storage _) = ''storage_error''"
| "code (Crypto _) = ''crypto_error''"
| "code (Config _) = ''config_error''"
| "code (Wire _) = ''wire_error''"
| "code (Internal _) = ''internal_error''"

section \<open>Formats\<close>

datatype wire_format = Anthropic | OpenaiChat | OpenaiResponses | Gemini

fun wire_format_as_str :: "wire_format \<Rightarrow> string" where
  "wire_format_as_str Anthropic = ''anthropic''"
| "wire_format_as_str OpenaiChat = ''openai_chat''"
| "wire_format_as_str OpenaiResponses = ''openai_responses''"
| "wire_format_as_str Gemini = ''gemini''"

datatype embed_format = OpenaiEmbed | GeminiEmbed | CohereEmbed | VoyageEmbed | OllamaEmbed

fun embed_format_as_str :: "embed_format \<Rightarrow> string" where
  "embed_format_as_str OpenaiEmbed = ''openai_embed''"
| "embed_format_as_str GeminiEmbed = ''gemini_embed''"
| "embed_format_as_str CohereEmbed = ''cohere_embed''"
| "embed_format_as_str VoyageEmbed = ''voyage_embed''"
| "embed_format_as_str OllamaEmbed = ''ollama_embed''"

datatype media_format = OpenaiImages | OpenaiSpeech | OpenaiTranscription | OpenaiVideos

fun media_format_as_str :: "media_format \<Rightarrow> string" where
  "media_format_as_str OpenaiImages = ''openai_images''"
| "media_format_as_str OpenaiSpeech = ''openai_speech''"
| "media_format_as_str OpenaiTranscription = ''openai_transcription''"
| "media_format_as_str OpenaiVideos = ''openai_videos''"

fun media_path :: "media_format \<Rightarrow> string" where
  "media_path OpenaiImages = ''images/generations''"
| "media_path OpenaiSpeech = ''audio/speech''"
| "media_path OpenaiTranscription = ''audio/transcriptions''"
| "media_path OpenaiVideos = ''videos''"

datatype upstream_format = Chat wire_format | Embed embed_format | Media media_format

fun upstream_format_as_str :: "upstream_format \<Rightarrow> string" where
  "upstream_format_as_str (Chat f) = wire_format_as_str f"
| "upstream_format_as_str (Embed f) = embed_format_as_str f"
| "upstream_format_as_str (Media f) = media_format_as_str f"

datatype health_check = HealthNone | HttpOk | ModelsList | Probe

fun health_check_as_str :: "health_check \<Rightarrow> string" where
  "health_check_as_str HealthNone = ''none''"
| "health_check_as_str HttpOk = ''http_ok''"
| "health_check_as_str ModelsList = ''models_list''"
| "health_check_as_str Probe = ''probe''"

section \<open>Deployments\<close>

record model_price =
  input_per_1m :: rat
  output_per_1m :: rat
  cache_read_multiplier :: rat
  cache_write_multiplier :: rat

text \<open>\<open>headers\<close> is a \<open>BTreeMap\<close>: an association list in key order.\<close>
record extra =
  cloudflare_access :: bool
  headers :: "(string \<times> string) list"
  vision :: bool
  rest :: json_object

definition extra_is_empty :: "extra \<Rightarrow> bool" where
  "extra_is_empty e \<longleftrightarrow> \<not> cloudflare_access e \<and> headers e = [] \<and> rest e = []"

definition extra_default :: extra where
  "extra_default = \<lparr>cloudflare_access = False, headers = [], vision = False, rest = []\<rparr>"

record deployment =
  model_id :: id
  model_name :: string
  provider_id :: id
  provider :: string
  upstream_model :: string
  api_base :: "string option"
  api_key :: "string option"
  upstream_format :: upstream_format
  weight :: "32 word"
  pricing :: "model_price option"
  health_check :: health_check
  health_path :: "string option"
  extra :: extra

text \<open>A stored row adds its id and lifecycle timestamps to the fields of a deployment.\<close>
record deployment_record = deployment +
  record_id :: id
  created_at :: timestamp
  updated_at :: timestamp
  deleted_at :: "timestamp option"

definition to_deployment :: "deployment_record \<Rightarrow> deployment" where
  "to_deployment r =
     \<lparr>model_id = model_id r, model_name = model_name r, provider_id = provider_id r,
      provider = provider r, upstream_model = upstream_model r, api_base = api_base r,
      api_key = api_key r, upstream_format = upstream_format r, weight = weight r,
      pricing = pricing r, health_check = health_check r, health_path = health_path r,
      extra = extra r\<rparr>"

record route_request =
  requested_model :: string
  estimated_input_tokens :: "32 word"
  has_tools :: bool
  has_images :: bool
  excluded_model_ids :: "string list"
  enabled_provider_ids :: "string list option"
  denied_provider_ids_req :: "string list"
  preferred_models :: "string list"

record decision =
  candidates :: "deployment list"
  reason :: string

section \<open>File-owned settings\<close>

record cloudflare_access_config =
  client_id :: string
  client_secret :: string

definition is_complete :: "cloudflare_access_config \<Rightarrow> bool" where
  "is_complete c \<longleftrightarrow> trim (client_id c) \<noteq> [] \<and> trim (client_secret c) \<noteq> []"

datatype strategy = Simple | RoundRobin | LeastBusy

fun strategy_name :: "strategy \<Rightarrow> string" where
  "strategy_name Simple = ''simple''"
| "strategy_name RoundRobin = ''round_robin''"
| "strategy_name LeastBusy = ''least_busy''"

section \<open>Lemmas\<close>

lemma upstream_format_as_str_inj: "upstream_format_as_str a = upstream_format_as_str b \<Longrightarrow> a = b"
  by (cases a rule: upstream_format_as_str.cases; cases b rule: upstream_format_as_str.cases)
     (auto elim: wire_format_as_str.elims embed_format_as_str.elims media_format_as_str.elims)

end
