(* ===== verification/Access_Control.thy ===== *)
theory Access_Control
  imports Core_Domain "HOL-Library.List_Lexorder"
begin

text \<open>
  Identity and authorization of \<open>crates/yb-core\<close>: access policies and their merge, roles, key
  scopes and keys (\<open>model.rs\<close>), and the role check of the admin surface (\<open>rbac.rs\<close>).

  The model and the provider half of a policy obey the same contract, stated once as the locale
  \<open>scoped_grant\<close> and interpreted on both.
\<close>

section \<open>Access policies\<close>

record access_policy =
  allowed_model_ids :: "string list"
  denied_model_ids :: "string list"
  allowed_provider_ids :: "string list"
  denied_provider_ids :: "string list"

definition is_unrestricted :: "access_policy \<Rightarrow> bool" where
  "is_unrestricted p \<longleftrightarrow>
     allowed_model_ids p = [] \<and> denied_model_ids p = [] \<and>
     allowed_provider_ids p = [] \<and> denied_provider_ids p = []"

definition permits_model :: "access_policy \<Rightarrow> string \<Rightarrow> bool" where
  "permits_model p mid =
     (if mid \<in> set (denied_model_ids p) then False
      else if allowed_model_ids p \<noteq> [] \<and> mid \<notin> set (allowed_model_ids p) then False
      else True)"

definition permits_provider :: "access_policy \<Rightarrow> string \<Rightarrow> bool" where
  "permits_provider p pid =
     (if pid \<in> set (denied_provider_ids p) then False
      else if allowed_provider_ids p \<noteq> [] \<and> pid \<notin> set (allowed_provider_ids p) then False
      else True)"

fun union :: "string list \<Rightarrow> string list \<Rightarrow> string list" where
  "union out [] = out"
| "union out (x # b) = union (if x \<in> set out then out else out @ [x]) b"

definition intersect_allow :: "string list \<Rightarrow> string list \<Rightarrow> string list" where
  "intersect_allow a b =
     (if a = [] then b else if b = [] then a else filter (\<lambda>x. x \<in> set b) a)"

definition merge :: "access_policy \<Rightarrow> access_policy \<Rightarrow> access_policy" where
  "merge p q =
     \<lparr>allowed_model_ids = intersect_allow (allowed_model_ids p) (allowed_model_ids q),
      denied_model_ids = union (denied_model_ids p) (denied_model_ids q),
      allowed_provider_ids = intersect_allow (allowed_provider_ids p) (allowed_provider_ids q),
      denied_provider_ids = union (denied_provider_ids p) (denied_provider_ids q)\<rparr>"

definition policy_default :: access_policy where
  "policy_default =
     \<lparr>allowed_model_ids = [], denied_model_ids = [], allowed_provider_ids = [],
      denied_provider_ids = []\<rparr>"

section \<open>Roles and the admin surface\<close>

datatype role = Member | Admin

instantiation role :: linorder
begin

definition less_eq_role :: "role \<Rightarrow> role \<Rightarrow> bool" where
  "less_eq_role a b \<longleftrightarrow> a = Member \<or> b = Admin"

definition less_role :: "role \<Rightarrow> role \<Rightarrow> bool" where
  "less_role a b \<longleftrightarrow> a = Member \<and> b = Admin"

instance
  by standard (auto simp: less_eq_role_def less_role_def intro: role.exhaust)

end

definition at_least :: "role \<Rightarrow> role \<Rightarrow> bool" where
  "at_least self other \<longleftrightarrow> self \<ge> other"

fun role_as_str :: "role \<Rightarrow> string" where
  "role_as_str Member = ''member''"
| "role_as_str Admin = ''admin''"

definition role_parse :: "string \<Rightarrow> role result" where
  "role_parse s =
     (if s = ''admin'' then Inr Admin
      else if s = ''member'' \<or> s = ''user'' then Inr Member
      else Inl (BadRequest (''unknown role: '' @ s)))"

datatype action = ManageKeys | ViewSpend | EditConfig | ManageMembers | ReadCatalog

fun min_role :: "action \<Rightarrow> role" where
  "min_role ManageKeys = Admin"
| "min_role EditConfig = Admin"
| "min_role ManageMembers = Admin"
| "min_role ViewSpend = Member"
| "min_role ReadCatalog = Member"

fun action_debug :: "action \<Rightarrow> string" where
  "action_debug ManageKeys = ''ManageKeys''"
| "action_debug ViewSpend = ''ViewSpend''"
| "action_debug EditConfig = ''EditConfig''"
| "action_debug ManageMembers = ''ManageMembers''"
| "action_debug ReadCatalog = ''ReadCatalog''"

definition authorize :: "role \<Rightarrow> action \<Rightarrow> unit result" where
  "authorize role action =
     (if at_least role (min_role action) then Inr ()
      else Inl (Forbidden (''role '' @ role_as_str role @ '' cannot perform '' @ action_debug action)))"

section \<open>Key scopes and keys\<close>

datatype key_scope = InferenceScope | AdminScope

fun scope_as_str :: "key_scope \<Rightarrow> string" where
  "scope_as_str InferenceScope = ''inference''"
| "scope_as_str AdminScope = ''admin''"

definition scope_parse :: "string \<Rightarrow> key_scope result" where
  "scope_parse s =
     (if s = ''inference'' then Inr InferenceScope
      else if s = ''admin'' then Inr AdminScope
      else Inl (BadRequest (''unknown key scope: '' @ s)))"

definition scope_separator :: "char \<Rightarrow> bool" where
  "scope_separator c \<longleftrightarrow> c = CHR '' '' \<or> c = CHR '','' \<or> c = CHR 0x09"

fun parse_set_loop :: "key_scope list \<Rightarrow> string list \<Rightarrow> key_scope list result" where
  "parse_set_loop out [] = Inr out"
| "parse_set_loop out (part # parts) =
     (case scope_parse part of
        Inl e \<Rightarrow> Inl e
      | Inr scope \<Rightarrow> parse_set_loop (if scope \<in> set out then out else out @ [scope]) parts)"

definition parse_set :: "string \<Rightarrow> key_scope list result" where
  "parse_set s =
     (case parse_set_loop [] (filter (\<lambda>p. p \<noteq> []) (map trim (split_chars scope_separator s))) of
        Inl e \<Rightarrow> Inl e
      | Inr out \<Rightarrow> Inr (if out = [] then [InferenceScope] else out))"

definition render_set :: "key_scope list \<Rightarrow> string" where
  "render_set scopes = join '' '' (remdups_adj (sort (map scope_as_str scopes)))"

definition default_scopes :: "key_scope list" where
  "default_scopes = [InferenceScope]"

record user =
  user_id :: id
  username :: string
  password_hash :: string
  user_role :: role
  user_rpm_limit :: "int option"
  user_tpm_limit :: "int option"
  user_max_concurrent :: "int option"
  user_created_at :: timestamp
  last_login_at :: "timestamp option"
  user_deleted_at :: "timestamp option"

record api_key =
  key_id :: id
  owner_user_id :: id
  team_id :: "id option"
  hash :: string
  key_prefix :: string
  key_suffix :: string
  key_name :: "string option"
  scopes :: "key_scope list"
  access :: access_policy
  rpm_limit :: "int option"
  tpm_limit :: "int option"
  key_max_concurrent :: "int option"
  key_created_at :: timestamp
  last_used_at :: "timestamp option"
  key_deleted_at :: "timestamp option"

definition has_scope :: "api_key \<Rightarrow> key_scope \<Rightarrow> bool" where
  "has_scope k scope \<longleftrightarrow> scope \<in> set (scopes k)"

text \<open>The three bytes between the parts are the UTF-8 encoding of U+2026.\<close>
definition fingerprint :: "api_key \<Rightarrow> string" where
  "fingerprint k = key_prefix k @ [CHR 0xE2, CHR 0x80, CHR 0xA6] @ key_suffix k"

record key_auth =
  auth_user :: user
  auth_key :: api_key

record principal =
  principal_user_id :: id
  principal_username :: string
  principal_role :: role
  expires_at :: timestamp

definition is_admin :: "principal \<Rightarrow> bool" where
  "is_admin p \<longleftrightarrow> principal_role p = Admin"

section \<open>The contract of a grant\<close>

locale scoped_grant =
  fixes allowed denied :: "access_policy \<Rightarrow> string list"
    and permits :: "access_policy \<Rightarrow> string \<Rightarrow> bool"
    and combine :: "access_policy \<Rightarrow> access_policy \<Rightarrow> access_policy"
  assumes permits_iff:
      "permits p x \<longleftrightarrow> x \<notin> set (denied p) \<and> (allowed p = [] \<or> x \<in> set (allowed p))"
    and denied_combine: "set (denied (combine p q)) = set (denied p) \<union> set (denied q)"
    and allowed_combine: "allowed (combine p q) = intersect_allow (allowed p) (allowed q)"
begin

definition compatible :: "access_policy \<Rightarrow> access_policy \<Rightarrow> bool" where
  "compatible p q \<longleftrightarrow>
     allowed p = [] \<or> allowed q = [] \<or> set (allowed p) \<inter> set (allowed q) \<noteq> {}"

lemma deny_wins: "x \<in> set (denied p) \<union> set (denied q) \<Longrightarrow> \<not> permits (combine p q) x"
  by (auto simp: permits_iff denied_combine)

lemma combine_sound: "permits p x \<Longrightarrow> permits q x \<Longrightarrow> permits (combine p q) x"
  by (auto simp: permits_iff denied_combine allowed_combine intersect_allow_def)

lemma combine_exact:
  assumes "compatible p q"
  shows "permits (combine p q) x \<longleftrightarrow> permits p x \<and> permits q x"
proof -
  have "intersect_allow (allowed p) (allowed q) = [] \<longleftrightarrow> allowed p = [] \<and> allowed q = []"
    using assms unfolding compatible_def intersect_allow_def by (auto simp: filter_empty_conv)
  then show ?thesis
    by (auto simp: permits_iff denied_combine allowed_combine intersect_allow_def)
qed

lemma combine_disjoint:
  assumes "\<not> compatible p q"
  shows "permits (combine p q) x \<longleftrightarrow> x \<notin> set (denied p) \<and> x \<notin> set (denied q)"
proof -
  have "intersect_allow (allowed p) (allowed q) = []"
    using assms unfolding compatible_def intersect_allow_def by (auto simp: filter_empty_conv)
  then show ?thesis by (simp add: permits_iff denied_combine allowed_combine)
qed

lemma combine_commute: "permits (combine p q) x = permits (combine q p) x"
proof (cases "compatible p q")
  case True
  moreover from True have "compatible q p" by (auto simp: compatible_def)
  ultimately show ?thesis using combine_exact by blast
next
  case False
  moreover from False have "\<not> compatible q p" by (auto simp: compatible_def)
  ultimately show ?thesis using combine_disjoint by blast
qed

end

lemma union_set [simp]: "set (union a b) = set a \<union> set b"
  by (induction a b rule: union.induct) auto

interpretation models: scoped_grant allowed_model_ids denied_model_ids permits_model merge
  by unfold_locales (auto simp: permits_model_def merge_def)

interpretation providers: scoped_grant allowed_provider_ids denied_provider_ids permits_provider merge
  by unfold_locales (auto simp: permits_provider_def merge_def)

lemmas compatible_defs = models.compatible_def providers.compatible_def

lemma union_distinct: "distinct a \<Longrightarrow> distinct (union a b)"
  by (induction a b rule: union.induct) auto

lemma permits_default [simp]: "permits_model policy_default m" "permits_provider policy_default m"
  by (simp_all add: policy_default_def permits_model_def permits_provider_def)

lemma merge_default: "merge p policy_default = p"
  by (simp add: merge_def policy_default_def intersect_allow_def)

section \<open>Scope sets\<close>

lemma sorted_distinct_remdups_adj: "sorted xs \<Longrightarrow> distinct (remdups_adj xs)"
  by (induction xs rule: remdups_adj.induct) (auto simp: order_le_less)

lemma render_set_cong: "set xs = set ys \<Longrightarrow> render_set xs = render_set ys"
proof -
  assume "set xs = set ys"
  then have "set (remdups_adj (sort (map scope_as_str xs))) =
      set (remdups_adj (sort (map scope_as_str ys)))" by simp
  moreover have "distinct (remdups_adj (sort zs))" "sorted (remdups_adj (sort zs))"
    for zs :: "string list"
    by (auto simp: sorted_remdups_adj sorted_distinct_remdups_adj)
  ultimately show ?thesis
    unfolding render_set_def by (metis sorted_distinct_set_unique)
qed

lemma scope_set_cases:
  obtains "set (xs :: key_scope list) = {}" | "set xs = {InferenceScope}" | "set xs = {AdminScope}"
  | "set xs = {AdminScope, InferenceScope}"
proof -
  have "set xs = (if AdminScope \<in> set xs then {AdminScope} else {}) \<union>
      (if InferenceScope \<in> set xs then {InferenceScope} else {})"
  proof (rule set_eqI)
    fix x show "x \<in> set xs \<longleftrightarrow> x \<in> (if AdminScope \<in> set xs then {AdminScope} else {}) \<union>
      (if InferenceScope \<in> set xs then {InferenceScope} else {})" by (cases x) auto
  qed
  then show ?thesis using that by (auto split: if_splits)
qed

lemma render_set_values:
  "render_set [] = []"
  "render_set [InferenceScope] = ''inference''"
  "render_set [AdminScope] = ''admin''"
  "render_set [AdminScope, InferenceScope] = ''admin inference''"
  by code_simp+

lemma parse_set_values:
  "parse_set [] = Inr [InferenceScope]"
  "parse_set ''inference'' = Inr [InferenceScope]"
  "parse_set ''admin'' = Inr [AdminScope]"
  "parse_set ''admin inference'' = Inr [AdminScope, InferenceScope]"
  by code_simp+

lemma parse_set_loop_distinct:
  "parse_set_loop out parts = Inr r \<Longrightarrow> distinct out \<Longrightarrow> distinct r \<and> set out \<subseteq> set r"
  by (induction out parts rule: parse_set_loop.induct) (fastforce split: sum.splits if_splits)+

lemma parse_set_loop_error:
  "parse_set_loop out parts = Inl e \<Longrightarrow> \<exists>p. e = BadRequest (''unknown key scope: '' @ p)"
  by (induction out parts rule: parse_set_loop.induct)
     (auto simp: scope_parse_def split: sum.splits if_splits)

section \<open>Properties\<close>

text \<open>A merged grant permits a model exactly when both grants permit it, whenever the two
  non-empty allow-lists have a model in common or one of them is empty.\<close>
theorem merge_permits_model_iff:
  assumes "allowed_model_ids p = [] \<or> allowed_model_ids q = [] \<or>
    set (allowed_model_ids p) \<inter> set (allowed_model_ids q) \<noteq> {}"
  shows "permits_model (merge p q) m \<longleftrightarrow> permits_model p m \<and> permits_model q m"
  using assms by (intro models.combine_exact) (simp add: models.compatible_def)

theorem merge_permits_model_iff_witness:
  "permits_model (merge
     \<lparr>allowed_model_ids = [''b'', ''c''], denied_model_ids = [], allowed_provider_ids = [],
      denied_provider_ids = []\<rparr>
     \<lparr>allowed_model_ids = [''a'', ''b''], denied_model_ids = [''d''], allowed_provider_ids = [],
      denied_provider_ids = []\<rparr>) ''b''"
  by (subst merge_permits_model_iff) (simp_all add: permits_model_def)

text \<open>A deny at either scope wins in the merged grant, for models and for providers.\<close>
theorem merge_deny_wins:
  "(m \<in> set (denied_model_ids p) \<union> set (denied_model_ids q) \<longrightarrow> \<not> permits_model (merge p q) m) \<and>
   (v \<in> set (denied_provider_ids p) \<union> set (denied_provider_ids q) \<longrightarrow>
     \<not> permits_provider (merge p q) v)"
  using models.deny_wins providers.deny_wins by blast

theorem merge_deny_wins_witness:
  "\<not> permits_model (merge policy_default
     (policy_default\<lparr>denied_model_ids := [''x'']\<rparr>)) ''x''"
  using merge_deny_wins [of "''x''" policy_default "policy_default\<lparr>denied_model_ids := [''x'']\<rparr>"]
  by simp

text \<open>C10: Two non-empty allow-lists with nothing in common merge to the grant that permits every
  model no deny list names: the intersection is the empty list, which is read as no ceiling.\<close>
theorem merge_disjoint_allows_everything:
  assumes "allowed_model_ids p \<noteq> []" "allowed_model_ids q \<noteq> []"
    and "set (allowed_model_ids p) \<inter> set (allowed_model_ids q) = {}"
  shows "permits_model (merge p q) m \<longleftrightarrow> m \<notin> set (denied_model_ids p) \<and> m \<notin> set (denied_model_ids q)"
  using assms by (intro models.combine_disjoint) (simp add: models.compatible_def)

theorem merge_disjoint_allows_everything_witness:
  "permits_model (merge (policy_default\<lparr>allowed_model_ids := [''a'']\<rparr>)
     (policy_default\<lparr>allowed_model_ids := [''b'']\<rparr>)) ''secret'' \<and>
   \<not> permits_model (policy_default\<lparr>allowed_model_ids := [''a'']\<rparr>) ''secret''"
  by (subst merge_disjoint_allows_everything)
     (simp_all add: policy_default_def permits_model_def)

text \<open>A rendered scope set parses back to the same set without duplicates; the empty set is
  read as the inference-only default.\<close>
theorem scope_set_roundtrip:
  "\<exists>out. parse_set (render_set ss) = Inr out \<and> distinct out \<and>
     set out = (if ss = [] then {InferenceScope} else set ss)"
proof (cases ss rule: scope_set_cases)
  case 1
  then show ?thesis by (simp add: render_set_values parse_set_values)
next
  case 2
  then have "render_set ss = render_set [InferenceScope]" by (intro render_set_cong) simp
  moreover from 2 have "ss \<noteq> []" by (metis empty_not_insert set_empty)
  ultimately show ?thesis using 2 by (simp add: render_set_values parse_set_values)
next
  case 3
  then have "render_set ss = render_set [AdminScope]" by (intro render_set_cong) simp
  moreover from 3 have "ss \<noteq> []" by (metis empty_not_insert set_empty)
  ultimately show ?thesis using 3 by (simp add: render_set_values parse_set_values)
next
  case 4
  then have "render_set ss = render_set [AdminScope, InferenceScope]" by (intro render_set_cong) simp
  moreover from 4 have "ss \<noteq> []" by (metis empty_not_insert set_empty)
  ultimately show ?thesis using 4 by (simp add: render_set_values parse_set_values)
qed

end
