(* ===== verification/Rate_Limiter.thy ===== *)
theory Rate_Limiter
  imports Core_Domain
begin

text \<open>
  The in-process rate limiter of \<open>crates/yb-core/src/ratelimit.rs\<close>: the lazily refilled token
  bucket, the per-scope state behind the mutex, the preflight \<open>check\<close> with its concurrency guard,
  the token charge in arrears and the preflight on tokens. Every method takes the lock for its
  whole body, so a run of the limiter is a sequence of calls; \<open>limiter_step\<close> is that step
  relation, together with the guards that are alive.

  Token counts and rates are \<open>f64\<close> in the code and exact rationals here.
\<close>

section \<open>Data\<close>

record limits =
  rpm :: int
  tpm :: int
  max_concurrent :: int

definition is_unlimited :: "limits \<Rightarrow> bool" where
  "is_unlimited l \<longleftrightarrow> rpm l = 0 \<and> tpm l = 0 \<and> max_concurrent l = 0"

record rate_decision =
  allowed :: bool
  retry_after :: duration
  rate_reason :: string

definition allow :: rate_decision where
  "allow = \<lparr>allowed = True, retry_after = 0, rate_reason = []\<rparr>"

record bucket =
  tokens :: rat
  capacity :: rat
  refill_per_sec :: rat
  last_refill :: timestamp

definition bucket_new :: "rat \<Rightarrow> duration \<Rightarrow> timestamp \<Rightarrow> bucket" where
  "bucket_new cap window now =
     \<lparr>tokens = cap, capacity = cap, refill_per_sec = cap / max window (1 / 1000),
      last_refill = now\<rparr>"

text \<open>\<open>TimeDelta::num_milliseconds\<close> of a difference in nanoseconds: truncates toward zero.\<close>
definition num_milliseconds :: "int \<Rightarrow> int" where
  "num_milliseconds d = (if d \<ge> 0 then d div 1000000 else - ((- d) div 1000000))"

definition elapsed_secs :: "timestamp \<Rightarrow> timestamp \<Rightarrow> rat" where
  "elapsed_secs since now = of_int (max (num_milliseconds (now - since)) 0) / 1000"

definition refill :: "bucket \<Rightarrow> timestamp \<Rightarrow> bucket" where
  "refill b now =
     b\<lparr>tokens := min (tokens b + elapsed_secs (last_refill b) now * refill_per_sec b) (capacity b),
       last_refill := now\<rparr>"

definition take_tokens :: "bucket \<Rightarrow> rat \<Rightarrow> timestamp \<Rightarrow> (bool \<times> duration) \<times> bucket" where
  "take_tokens b cost now =
     (let b = refill b now in
      if tokens b \<ge> cost then ((True, 0), b\<lparr>tokens := tokens b - cost\<rparr>)
      else ((False, (cost - tokens b) / max (refill_per_sec b) (1 / 10 ^ 9)), b))"

record scope =
  rpm_bucket :: "bucket option"
  tpm_bucket :: "bucket option"
  in_flight :: int

definition scope_default :: scope where
  "scope_default = \<lparr>rpm_bucket = None, tpm_bucket = None, in_flight = 0\<rparr>"

record limiter =
  window :: duration
  limiter_scopes :: "string \<rightharpoonup> scope"

definition limiter_new :: "duration \<Rightarrow> limiter" where
  "limiter_new w = \<lparr>window = w, limiter_scopes = Map.empty\<rparr>"

text \<open>A guard: whether it refers to the limiter's map, and the scope it holds a slot of.\<close>
record concurrency_guard =
  guard_armed :: bool
  guard_scope :: string

definition noop :: concurrency_guard where
  "noop = \<lparr>guard_armed = False, guard_scope = []\<rparr>"

section \<open>Operations\<close>

definition entry_or_default :: "limiter \<Rightarrow> string \<Rightarrow> scope" where
  "entry_or_default l s = (case limiter_scopes l s of None \<Rightarrow> scope_default | Some e \<Rightarrow> e)"

definition put_scope :: "limiter \<Rightarrow> string \<Rightarrow> scope \<Rightarrow> limiter" where
  "put_scope l s e = l\<lparr>limiter_scopes := (limiter_scopes l)(s \<mapsto> e)\<rparr>"

definition get_or_insert_bucket :: "bucket option \<Rightarrow> int \<Rightarrow> duration \<Rightarrow> timestamp \<Rightarrow> bucket" where
  "get_or_insert_bucket b limit w now =
     (case b of None \<Rightarrow> bucket_new (of_int limit) w now | Some b \<Rightarrow> b)"

text \<open>The requests-per-minute part of \<open>check\<close>: create the bucket, set its capacity, take one.\<close>
definition check_rpm ::
  "limits \<Rightarrow> duration \<Rightarrow> scope \<Rightarrow> timestamp \<Rightarrow> bool \<times> duration \<times> scope" where
  "check_rpm lm w entry now =
     (if rpm lm > 0 then
        let b = get_or_insert_bucket (rpm_bucket entry) (rpm lm) w now;
            b = b\<lparr>capacity := of_int (rpm lm)\<rparr>;
            ((ok, retry), b) = take_tokens b 1 now
        in (ok, retry, entry\<lparr>rpm_bucket := Some b\<rparr>)
      else (True, 0, entry))"

definition check ::
  "limiter \<Rightarrow> string \<Rightarrow> limits \<Rightarrow> timestamp \<Rightarrow> (rate_decision \<times> concurrency_guard) \<times> limiter" where
  "check l s lm now =
     (if is_unlimited lm then ((allow, noop), l)
      else
        let entry = entry_or_default l s in
        if max_concurrent lm > 0 \<and> in_flight entry \<ge> max_concurrent lm then
          ((\<lparr>allowed = False, retry_after = 1, rate_reason = ''concurrency''\<rparr>, noop),
           put_scope l s entry)
        else
          let (ok, retry, entry) = check_rpm lm (window l) entry now in
          if \<not> ok then
            ((\<lparr>allowed = False, retry_after = retry, rate_reason = ''rpm''\<rparr>, noop),
             put_scope l s entry)
          else
            ((allow, \<lparr>guard_armed = True, guard_scope = s\<rparr>),
             put_scope l s (entry\<lparr>in_flight := in_flight entry + 1\<rparr>)))"

definition charge_tokens ::
  "limiter \<Rightarrow> string \<Rightarrow> limits \<Rightarrow> int \<Rightarrow> timestamp \<Rightarrow> bool \<times> limiter" where
  "charge_tokens l s lm n now =
     (if tpm lm \<le> 0 then (False, l)
      else
        let entry = entry_or_default l s;
            b = get_or_insert_bucket (tpm_bucket entry) (tpm lm) (window l) now;
            b = b\<lparr>capacity := of_int (tpm lm)\<rparr>;
            b = refill b now;
            b = b\<lparr>tokens := tokens b - of_int n\<rparr>
        in (tokens b < 1, put_scope l s (entry\<lparr>tpm_bucket := Some b\<rparr>)))"

definition tpm_exhausted ::
  "limiter \<Rightarrow> string \<Rightarrow> limits \<Rightarrow> timestamp \<Rightarrow> (bool \<times> duration) \<times> limiter" where
  "tpm_exhausted l s lm now =
     (if tpm lm \<le> 0 then ((False, 0), l)
      else
        let entry = entry_or_default l s;
            b = get_or_insert_bucket (tpm_bucket entry) (tpm lm) (window l) now;
            b = refill b now;
            l' = put_scope l s (entry\<lparr>tpm_bucket := Some b\<rparr>)
        in if tokens b < 1
           then ((True, max (1 / max (refill_per_sec b) (1 / 10 ^ 9)) 1), l')
           else ((False, 0), l'))"

definition guard_drop :: "concurrency_guard \<Rightarrow> limiter \<Rightarrow> limiter" where
  "guard_drop g l =
     (if guard_armed g then
        (case limiter_scopes l (guard_scope g) of
           None \<Rightarrow> l
         | Some e \<Rightarrow> put_scope l (guard_scope g) (e\<lparr>in_flight := max (in_flight e - 1) 0\<rparr>))
      else l)"

text \<open>
  A run of the limiter: calls in any order, each under the lock, and the guards that are alive.
  The limits a call carries are those configured for its scope.
\<close>
inductive limiter_step ::
  "(string \<Rightarrow> limits) \<Rightarrow> limiter \<times> concurrency_guard list \<Rightarrow> limiter \<times> concurrency_guard list \<Rightarrow> bool"
  for lm where
  step_check:
    "check l s (lm s) now = ((d, g), l') \<Longrightarrow> limiter_step lm (l, gs) (l', g # gs)"
| step_charge:
    "charge_tokens l s (lm s) n now = (over, l') \<Longrightarrow> limiter_step lm (l, gs) (l', gs)"
| step_tpm:
    "tpm_exhausted l s (lm s) now = (r, l') \<Longrightarrow> limiter_step lm (l, gs) (l', gs)"
| step_drop:
    "g \<in> set gs \<Longrightarrow> limiter_step lm (l, gs) (guard_drop g l, remove1 g gs)"

inductive limiter_reachable ::
  "(string \<Rightarrow> limits) \<Rightarrow> duration \<Rightarrow> limiter \<times> concurrency_guard list \<Rightarrow> bool"
  for lm w where
  reach_init: "limiter_reachable lm w (limiter_new w, [])"
| reach_step: "limiter_reachable lm w st \<Longrightarrow> limiter_step lm st st' \<Longrightarrow> limiter_reachable lm w st'"

inductive_cases limiter_stepE: "limiter_step lm st st'"

text \<open>The checks of one scope at the given times: what each one answered, and the limiter after.\<close>
fun check_run :: "limiter \<Rightarrow> string \<Rightarrow> limits \<Rightarrow> timestamp list \<Rightarrow> bool list \<times> limiter" where
  "check_run l s lm [] = ([], l)"
| "check_run l s lm (t # ts) =
     (let ((d, g), l) = check l s lm t; (ds, l) = check_run l s lm ts
      in (allowed d # ds, l))"

section \<open>The contract of the concurrency slots\<close>

locale slot_pool =
  fixes held :: "'l \<Rightarrow> string \<Rightarrow> int"
    and acquire :: "'l \<Rightarrow> string \<Rightarrow> 'a \<Rightarrow> concurrency_guard \<times> 'l"
    and release :: "concurrency_guard \<Rightarrow> 'l \<Rightarrow> 'l"
  assumes acquire_held: "acquire l s a = (g, l') \<Longrightarrow>
      held l' k = held l k + (if guard_armed g \<and> guard_scope g = k then 1 else 0)"
    and release_held: "held (release g l) k =
      (if guard_armed g \<and> guard_scope g = k then max (held l k - 1) 0 else held l k)"
begin

definition holders :: "concurrency_guard list \<Rightarrow> string \<Rightarrow> nat" where
  "holders gs k = length (filter (\<lambda>g. guard_armed g \<and> guard_scope g = k) gs)"

definition balanced :: "'l \<Rightarrow> concurrency_guard list \<Rightarrow> bool" where
  "balanced l gs \<longleftrightarrow> (\<forall>k. held l k = int (holders gs k))"

lemma acquire_balanced: "balanced l gs \<Longrightarrow> acquire l s a = (g, l') \<Longrightarrow> balanced l' (g # gs)"
  by (auto simp: balanced_def holders_def acquire_held)

lemma holders_remove1:
  "g \<in> set gs \<Longrightarrow> guard_armed g \<Longrightarrow>
   holders gs k = holders (remove1 g gs) k + (if guard_scope g = k then 1 else 0)"
  by (induction gs) (auto simp: holders_def)

lemma holders_remove1_noop: "\<not> guard_armed g \<Longrightarrow> holders (remove1 g gs) k = holders gs k"
  by (induction gs) (auto simp: holders_def)

lemma release_balanced:
  assumes "balanced l gs" "g \<in> set gs"
  shows "balanced (release g l) (remove1 g gs)"
proof (cases "guard_armed g")
  case True
  with assms show ?thesis
    by (auto simp: balanced_def release_held holders_remove1 [OF assms(2) True])
next
  case False
  with assms show ?thesis by (simp add: balanced_def release_held holders_remove1_noop)
qed

end

definition slots_held :: "limiter \<Rightarrow> string \<Rightarrow> int" where
  "slots_held l s = in_flight (entry_or_default l s)"

definition check_slot :: "limiter \<Rightarrow> string \<Rightarrow> limits \<times> timestamp \<Rightarrow> concurrency_guard \<times> limiter" where
  "check_slot l s a = (let ((d, g), l') = check l s (fst a) (snd a) in (g, l'))"

lemma entry_put [simp]:
  "entry_or_default (put_scope l s e) k = (if k = s then e else entry_or_default l k)"
  by (auto simp: entry_or_default_def put_scope_def)

lemma window_put [simp]: "window (put_scope l s e) = window l"
  by (simp add: put_scope_def)

lemma check_rpm_in_flight: "check_rpm lm w e now = (ok, r, e') \<Longrightarrow> in_flight e' = in_flight e"
  by (auto simp: check_rpm_def Let_def split: if_splits prod.splits)

lemma check_rpm_tpm: "check_rpm lm w e now = (ok, r, e') \<Longrightarrow> tpm_bucket e' = tpm_bucket e"
  by (auto simp: check_rpm_def Let_def split: if_splits prod.splits)

text \<open>Every way a preflight can end.\<close>
lemma check_cases:
  assumes "check l s lm now = ((d, g), l')"
  obtains (unlimited) "is_unlimited lm" "d = allow" "g = noop" "l' = l"
  | (concurrency) "\<not> is_unlimited lm" "max_concurrent lm > 0"
      "in_flight (entry_or_default l s) \<ge> max_concurrent lm"
      "d = \<lparr>allowed = False, retry_after = 1, rate_reason = ''concurrency''\<rparr>" "g = noop"
      "l' = put_scope l s (entry_or_default l s)"
  | (rpm) retry e where "\<not> is_unlimited lm"
      "check_rpm lm (window l) (entry_or_default l s) now = (False, retry, e)"
      "d = \<lparr>allowed = False, retry_after = retry, rate_reason = ''rpm''\<rparr>" "g = noop"
      "l' = put_scope l s e"
  | (admitted) retry e where "\<not> is_unlimited lm"
      "max_concurrent lm \<le> 0 \<or> in_flight (entry_or_default l s) < max_concurrent lm"
      "check_rpm lm (window l) (entry_or_default l s) now = (True, retry, e)"
      "d = allow" "g = \<lparr>guard_armed = True, guard_scope = s\<rparr>"
      "l' = put_scope l s (e\<lparr>in_flight := in_flight (entry_or_default l s) + 1\<rparr>)"
proof -
  obtain ok retry e where r: "check_rpm lm (window l) (entry_or_default l s) now = (ok, retry, e)"
    by (metis prod_cases3)
  have "in_flight e = in_flight (entry_or_default l s)" by (rule check_rpm_in_flight [OF r])
  with r show ?thesis
    using assms that unfolding check_def Let_def by (auto split: if_splits)
qed

interpretation slots: slot_pool slots_held check_slot guard_drop
proof
  fix l s a g l' k
  assume "check_slot l s a = (g, l')"
  then obtain d where "check l s (fst a) (snd a) = ((d, g), l')"
    by (auto simp: check_slot_def split: prod.splits)
  then show "slots_held l' k = slots_held l k + (if guard_armed g \<and> guard_scope g = k then 1 else 0)"
    by (cases rule: check_cases)
       (auto simp: slots_held_def noop_def dest: check_rpm_in_flight)
next
  fix g l k
  show "slots_held (guard_drop g l) k =
    (if guard_armed g \<and> guard_scope g = k then max (slots_held l k - 1) 0 else slots_held l k)"
    by (auto simp: slots_held_def guard_drop_def entry_or_default_def put_scope_def scope_default_def
        split: option.split)
qed

lemma charge_in_flight:
  "charge_tokens l s lm n now = (r, l') \<Longrightarrow> slots_held l' k = slots_held l k"
  by (auto simp: charge_tokens_def slots_held_def Let_def split: if_splits)

lemma tpm_in_flight:
  "tpm_exhausted l s lm now = (r, l') \<Longrightarrow> slots_held l' k = slots_held l k"
  by (auto simp: tpm_exhausted_def slots_held_def Let_def split: if_splits)

lemma reachable_balanced:
  "limiter_reachable lm w st \<Longrightarrow> slots.balanced (fst st) (snd st)"
proof (induction rule: limiter_reachable.induct)
  case reach_init
  show ?case
    unfolding slots.balanced_def slots.holders_def
    by (simp add: slots_held_def limiter_new_def entry_or_default_def scope_default_def)
next
  case (reach_step st st')
  from reach_step(2) reach_step(3) show ?case
  proof cases
    case (step_check l s now d g l' gs)
    then have "check_slot l s (lm s, now) = (g, l')" by (simp add: check_slot_def)
    with step_check reach_step(3) show ?thesis using slots.acquire_balanced by fastforce
  next
    case (step_charge l s n now over l' gs)
    then show ?thesis using reach_step(3) charge_in_flight by (simp add: slots.balanced_def)
  next
    case (step_tpm l s now r l' gs)
    then show ?thesis using reach_step(3) tpm_in_flight by (simp add: slots.balanced_def)
  next
    case (step_drop g gs l)
    then show ?thesis using reach_step(3) slots.release_balanced by simp
  qed
qed

lemma slots_held_bound_step:
  assumes "limiter_step lm (l, gs) (l', gs')" "max_concurrent (lm k) > 0"
    and "slots_held l k \<le> max_concurrent (lm k)"
  shows "slots_held l' k \<le> max_concurrent (lm k)"
  using assms(1)
proof cases
  case (step_check s now d g)
  from step_check(2) show ?thesis
    by (cases rule: check_cases) (use assms in \<open>auto simp: slots_held_def dest: check_rpm_in_flight\<close>)
next
  case (step_charge s n now over)
  then show ?thesis using assms charge_in_flight by simp
next
  case (step_tpm s now r)
  then show ?thesis using assms tpm_in_flight by simp
next
  case (step_drop g)
  then show ?thesis using assms by (auto simp: slots.release_held)
qed

lemma reachable_slots_bound:
  "limiter_reachable lm w st \<Longrightarrow> max_concurrent (lm k) > 0 \<Longrightarrow>
   slots_held (fst st) k \<le> max_concurrent (lm k)"
proof (induction rule: limiter_reachable.induct)
  case reach_init
  then show ?case by (simp add: slots_held_def limiter_new_def entry_or_default_def scope_default_def)
next
  case (reach_step st st')
  then show ?case using slots_held_bound_step by (metis prod.collapse)
qed

section \<open>Buckets\<close>

text \<open>
  A bucket of requests never holds more than its capacity nor less than nothing; a bucket of
  tokens may be in debt.
\<close>
definition debt_ok :: "bucket \<Rightarrow> bool" where
  "debt_ok b \<longleftrightarrow> tokens b \<le> capacity b \<and> 0 \<le> refill_per_sec b"

definition bucket_ok :: "bucket \<Rightarrow> bool" where
  "bucket_ok b \<longleftrightarrow> debt_ok b \<and> 0 \<le> tokens b"

definition scope_ok :: "scope \<Rightarrow> bool" where
  "scope_ok e \<longleftrightarrow> 0 \<le> in_flight e \<and> pred_option bucket_ok (rpm_bucket e) \<and>
     pred_option debt_ok (tpm_bucket e)"

definition limiter_ok :: "limiter \<Rightarrow> bool" where
  "limiter_ok l \<longleftrightarrow> (\<forall>s. scope_ok (entry_or_default l s))"

lemma elapsed_nonneg [simp]: "0 \<le> elapsed_secs s t"
  by (simp add: elapsed_secs_def)

lemma elapsed_le:
  assumes "s \<le> t"
  shows "elapsed_secs s t \<le> of_int (t - s) / 10 ^ 9"
proof -
  have "num_milliseconds (t - s) = (t - s) div 1000000"
    using assms by (simp add: num_milliseconds_def)
  moreover have "0 \<le> (t - s) div 1000000" using assms by (simp add: pos_imp_zdiv_nonneg_iff)
  ultimately have "elapsed_secs s t = of_int ((t - s) div 1000000) / (1000 :: rat)"
    by (simp add: elapsed_secs_def)
  moreover have "(of_int ((t - s) div 1000000) :: rat) * 1000000 \<le> of_int (t - s)"
  proof -
    have "(t - s) div 1000000 * 1000000 \<le> t - s" by simp
    then have "(of_int ((t - s) div 1000000 * 1000000) :: rat) \<le> of_int (t - s)"
      by (simp only: of_int_le_iff)
    then show ?thesis by simp
  qed
  ultimately show ?thesis by (simp add: field_simps)
qed

lemma refill_simps [simp]:
  "capacity (refill b t) = capacity b" "refill_per_sec (refill b t) = refill_per_sec b"
  "last_refill (refill b t) = t"
  "tokens (refill b t) = min (tokens b + elapsed_secs (last_refill b) t * refill_per_sec b) (capacity b)"
  by (simp_all add: refill_def)

lemma bucket_new_simps [simp]:
  "tokens (bucket_new c w t) = c" "capacity (bucket_new c w t) = c"
  "refill_per_sec (bucket_new c w t) = c / max w (1 / 1000)" "last_refill (bucket_new c w t) = t"
  by (simp_all add: bucket_new_def)

lemma rate_nonneg: "0 \<le> c \<Longrightarrow> 0 \<le> c / max w (1 / 1000 :: rat)"
  by (simp add: max_def)

lemma refill_debt_ok: "0 \<le> refill_per_sec b \<Longrightarrow> debt_ok (refill b t)"
  by (simp add: debt_ok_def)

lemma take_tokens_ok:
  assumes "take_tokens (b\<lparr>capacity := c\<rparr>) cost t = (r, b')" "bucket_ok b" "0 \<le> c" "0 \<le> cost"
  shows "bucket_ok b'"
proof -
  have "0 \<le> elapsed_secs (last_refill b) t * refill_per_sec b"
    using assms by (simp add: bucket_ok_def debt_ok_def)
  with assms show ?thesis
    by (auto simp: take_tokens_def Let_def bucket_ok_def debt_ok_def split: if_splits)
qed

lemma get_or_insert_ok:
  "pred_option bucket_ok b \<Longrightarrow> 0 \<le> n \<Longrightarrow> bucket_ok (get_or_insert_bucket b n w t)"
  "pred_option debt_ok b \<Longrightarrow> 0 \<le> n \<Longrightarrow> debt_ok (get_or_insert_bucket b n w t)"
  by (auto simp: get_or_insert_bucket_def bucket_ok_def debt_ok_def rate_nonneg split: option.split)

lemma check_rpm_ok:
  assumes "check_rpm lm w e t = (ok, r, e')" "scope_ok e"
  shows "scope_ok e'"
proof (cases "rpm lm > 0")
  case True
  let ?b = "get_or_insert_bucket (rpm_bucket e) (rpm lm) w t"
  obtain x b' where t: "take_tokens (?b\<lparr>capacity := of_int (rpm lm)\<rparr>) 1 t = (x, b')"
    by (cases "take_tokens (?b\<lparr>capacity := of_int (rpm lm)\<rparr>) 1 t")
  have "bucket_ok ?b" using assms(2) True by (intro get_or_insert_ok) (auto simp: scope_ok_def)
  then have "bucket_ok b'" using take_tokens_ok [OF t] True by simp
  with t show ?thesis
    using assms True by (auto simp: check_rpm_def Let_def scope_ok_def split: prod.splits)
qed (use assms in \<open>auto simp: check_rpm_def\<close>)

lemma scope_default_ok [simp]: "scope_ok scope_default"
  by (simp add: scope_ok_def scope_default_def)

lemma limiter_new_ok: "limiter_ok (limiter_new w)"
  by (simp add: limiter_ok_def limiter_new_def entry_or_default_def)

lemma put_scope_ok: "limiter_ok l \<Longrightarrow> scope_ok e \<Longrightarrow> limiter_ok (put_scope l s e)"
  by (simp add: limiter_ok_def)

lemma limiter_okD: "limiter_ok l \<Longrightarrow> scope_ok (entry_or_default l s)"
  by (simp add: limiter_ok_def)

lemma check_ok: "check l s lm t = ((d, g), l') \<Longrightarrow> limiter_ok l \<Longrightarrow> limiter_ok l'"
proof (erule check_cases, goal_cases)
  case (4 retry e)
  then have "scope_ok e" using check_rpm_ok limiter_okD by blast
  moreover have "0 \<le> in_flight (entry_or_default l s)"
    using limiter_okD [OF 4(1)] by (simp add: scope_ok_def)
  ultimately show ?case using 4 by (auto intro!: put_scope_ok simp: scope_ok_def)
qed (auto intro!: put_scope_ok intro: check_rpm_ok limiter_okD)

lemma charge_tokens_ok:
  assumes "charge_tokens l s lm n t = (r, l')" "limiter_ok l" "0 \<le> n"
  shows "limiter_ok l'"
proof (cases "tpm lm \<le> 0")
  case False
  let ?e = "entry_or_default l s"
  let ?b = "get_or_insert_bucket (tpm_bucket ?e) (tpm lm) (window l) t"
  have "debt_ok ?b" using False assms(2) limiter_okD [of l s]
    by (intro get_or_insert_ok) (auto simp: scope_ok_def)
  then have "debt_ok (refill (?b\<lparr>capacity := of_int (tpm lm)\<rparr>) t)"
    by (intro refill_debt_ok) (simp add: debt_ok_def)
  then show ?thesis
    using assms False limiter_okD [OF assms(2), of s]
    by (auto simp: charge_tokens_def Let_def scope_ok_def debt_ok_def intro!: put_scope_ok)
qed (use assms in \<open>simp add: charge_tokens_def\<close>)

lemma tpm_exhausted_ok:
  assumes "tpm_exhausted l s lm t = (r, l')" "limiter_ok l"
  shows "limiter_ok l'"
proof (cases "tpm lm \<le> 0")
  case False
  let ?e = "entry_or_default l s"
  let ?b = "get_or_insert_bucket (tpm_bucket ?e) (tpm lm) (window l) t"
  have "debt_ok ?b" using False assms(2) limiter_okD [of l s]
    by (intro get_or_insert_ok) (auto simp: scope_ok_def)
  then have "debt_ok (refill ?b t)" by (intro refill_debt_ok) (simp add: debt_ok_def)
  then show ?thesis
    using assms False limiter_okD [OF assms(2), of s]
    by (auto simp: tpm_exhausted_def Let_def scope_ok_def intro!: put_scope_ok split: if_splits)
qed (use assms in \<open>simp add: tpm_exhausted_def\<close>)

lemma guard_drop_ok: "limiter_ok l \<Longrightarrow> limiter_ok (guard_drop g l)"
  by (auto simp: guard_drop_def limiter_ok_def entry_or_default_def put_scope_def scope_ok_def
      split: option.splits)

section \<open>The request rate over a run\<close>

definition rpm_bucket_at :: "limiter \<Rightarrow> string \<Rightarrow> limits \<Rightarrow> timestamp \<Rightarrow> bucket" where
  "rpm_bucket_at l s lm t =
     get_or_insert_bucket (rpm_bucket (entry_or_default l s)) (rpm lm) (window l) t"

definition admitted :: "bool list \<Rightarrow> rat" where
  "admitted ds = of_nat (length (filter id ds))"

definition since :: "timestamp \<Rightarrow> timestamp \<Rightarrow> rat" where
  "since a b = of_int (b - a) / 10 ^ 9"

lemma since_add: "since a b + since b c = since a c"
  by (simp add: since_def field_simps)

lemma admitted_simps [simp]:
  "admitted [] = 0" "admitted (d # ds) = of_bool d + admitted ds"
  by (simp_all add: admitted_def)

text \<open>What one preflight does to the bucket of requests, for a scope with a request limit.\<close>
lemma check_bucket:
  assumes "check l s lm t = ((d, g), l')" "rpm lm > 0"
  shows "window l' = window l \<and>
    (if in_flight (entry_or_default l s) \<ge> max_concurrent lm \<and> max_concurrent lm > 0
     then \<not> allowed d \<and> rpm_bucket (entry_or_default l' s) = rpm_bucket (entry_or_default l s)
     else let b = refill ((rpm_bucket_at l s lm t)\<lparr>capacity := of_int (rpm lm)\<rparr>) t in
       allowed d = (1 \<le> tokens b) \<and> rpm_bucket (entry_or_default l' s) =
         Some (if 1 \<le> tokens b then b\<lparr>tokens := tokens b - 1\<rparr> else b))"
  using assms
  by (auto simp: check_def is_unlimited_def check_rpm_def take_tokens_def rpm_bucket_at_def Let_def
      allow_def split: if_splits)

text \<open>
  The headroom of a scope at time \<open>t\<close> up to a horizon: the tokens in its bucket and what the
  refill can add by then. A preflight that admits uses up one of it.
\<close>
definition headroom :: "limiter \<Rightarrow> string \<Rightarrow> limits \<Rightarrow> rat \<Rightarrow> timestamp \<Rightarrow> timestamp \<Rightarrow> rat" where
  "headroom l s lm r t horizon =
     tokens (rpm_bucket_at l s lm t) + r * since (last_refill (rpm_bucket_at l s lm t)) horizon"

definition rate_state :: "limiter \<Rightarrow> string \<Rightarrow> limits \<Rightarrow> rat \<Rightarrow> timestamp \<Rightarrow> bool" where
  "rate_state l s lm r t \<longleftrightarrow> 0 \<le> r \<and> last_refill (rpm_bucket_at l s lm t) \<le> t \<and>
     0 \<le> tokens (rpm_bucket_at l s lm t) \<and> refill_per_sec (rpm_bucket_at l s lm t) = r"

lemma elapsed_le_since: "s \<le> t \<Longrightarrow> elapsed_secs s t \<le> since s t"
  unfolding since_def by (rule elapsed_le)

lemma since_nonneg: "s \<le> t \<Longrightarrow> 0 \<le> since s t"
  by (simp add: since_def)

lemma since_antimono: "s \<le> t \<Longrightarrow> since t T \<le> since s T"
  unfolding since_def by (rule divide_right_mono) auto

lemma headroom_nonneg:
  assumes "rate_state l s lm r t" "t \<le> T"
  shows "0 \<le> headroom l s lm r t T"
proof -
  have "0 \<le> since (last_refill (rpm_bucket_at l s lm t)) T"
    using assms by (intro since_nonneg) (simp add: rate_state_def)
  with assms(1) show ?thesis by (simp add: headroom_def rate_state_def)
qed

lemma headroom_refused:
  assumes "rate_state l s lm r t" "t \<le> t'" "window l' = window l"
    and same: "rpm_bucket (entry_or_default l' s) = rpm_bucket (entry_or_default l s)"
  shows "rate_state l' s lm r t' \<and> headroom l' s lm r t' T \<le> headroom l s lm r t T"
proof (cases "rpm_bucket (entry_or_default l s)")
  case None
  then have b: "rpm_bucket_at l s lm t = bucket_new (of_int (rpm lm)) (window l) t"
    "rpm_bucket_at l' s lm t' = bucket_new (of_int (rpm lm)) (window l) t'"
    using assms by (simp_all add: rpm_bucket_at_def get_or_insert_bucket_def)
  have "r * since t' T \<le> r * since t T"
    using assms(1) by (intro mult_left_mono since_antimono assms(2)) (simp add: rate_state_def)
  then have "headroom l' s lm r t' T \<le> headroom l s lm r t T"
    by (simp add: headroom_def b)
  moreover have "rate_state l' s lm r t'"
    using assms(1) unfolding rate_state_def b by simp
  ultimately show ?thesis by simp
next
  case (Some b)
  then have "rpm_bucket_at l' s lm t' = rpm_bucket_at l s lm t"
    using same by (simp add: rpm_bucket_at_def get_or_insert_bucket_def)
  with assms Some show ?thesis by (simp add: rate_state_def headroom_def)
qed

lemma headroom_taken:
  assumes st: "rate_state l s lm r t" "t \<le> t'" "rpm lm > 0"
    and b: "b = refill ((rpm_bucket_at l s lm t)\<lparr>capacity := of_int (rpm lm)\<rparr>) t"
    and l': "rpm_bucket (entry_or_default l' s) =
      Some (if 1 \<le> tokens b then b\<lparr>tokens := tokens b - 1\<rparr> else b)"
  shows "rate_state l' s lm r t' \<and>
    of_bool (1 \<le> tokens b) + headroom l' s lm r t' T \<le> headroom l s lm r t T"
proof -
  let ?b = "rpm_bucket_at l s lm t"
  have "r * elapsed_secs (last_refill ?b) t \<le> r * since (last_refill ?b) t"
    using st by (intro mult_left_mono elapsed_le_since) (auto simp: rate_state_def)
  moreover have "0 \<le> r * elapsed_secs (last_refill ?b) t" using st by (simp add: rate_state_def)
  ultimately have tb: "tokens b \<le> tokens ?b + r * since (last_refill ?b) t" "0 \<le> tokens b"
    using st by (auto simp: b rate_state_def mult.commute min_def)
  have sum: "r * since (last_refill ?b) t + r * since t T = r * since (last_refill ?b) T"
    using since_add [of "last_refill ?b" t T] by (simp add: distrib_left [symmetric])
  have b': "rpm_bucket_at l' s lm t' = (if 1 \<le> tokens b then b\<lparr>tokens := tokens b - 1\<rparr> else b)"
    using l' by (simp add: rpm_bucket_at_def get_or_insert_bucket_def)
  have "last_refill b = t" "refill_per_sec b = r" using st by (simp_all add: b rate_state_def)
  with tb sum b' l' st show ?thesis by (auto simp: rate_state_def headroom_def)
qed

lemma check_headroom:
  assumes "check l s lm t = ((d, g), l')" "rate_state l s lm r t" "t \<le> t'" "rpm lm > 0"
  shows "rate_state l' s lm r t' \<and>
    of_bool (allowed d) + headroom l' s lm r t' T \<le> headroom l s lm r t T"
proof (cases "in_flight (entry_or_default l s) \<ge> max_concurrent lm \<and> max_concurrent lm > 0")
  case True
  then have "\<not> allowed d" "rpm_bucket (entry_or_default l' s) = rpm_bucket (entry_or_default l s)"
    "window l' = window l" using check_bucket [OF assms(1,4)] by auto
  then show ?thesis using headroom_refused [OF assms(2,3), of l' T] by simp
next
  case False
  define b where "b = refill ((rpm_bucket_at l s lm t)\<lparr>capacity := of_int (rpm lm)\<rparr>) t"
  have "rpm_bucket (entry_or_default l' s) =
      Some (if 1 \<le> tokens b then b\<lparr>tokens := tokens b - 1\<rparr> else b)" "allowed d = (1 \<le> tokens b)"
    using check_bucket [OF assms(1,4)] False by (auto simp: b_def Let_def)
  then show ?thesis using headroom_taken [OF assms(2,3,4) b_def, of l' T] by simp
qed

lemma check_run_rate:
  "rpm lm > 0 \<Longrightarrow> sorted (t # ts) \<Longrightarrow> rate_state l s lm r t \<Longrightarrow>
   admitted (fst (check_run l s lm (t # ts))) \<le> headroom l s lm r t (last (t # ts))"
proof (induction ts arbitrary: l t)
  case Nil
  obtain d g l' where c: "check l s lm t = ((d, g), l')" by (metis prod_cases3 prod.collapse)
  from check_headroom [OF c Nil(3) order_refl Nil(1), of t]
  have "rate_state l' s lm r t" "of_bool (allowed d) + headroom l' s lm r t t \<le> headroom l s lm r t t"
    by auto
  moreover have "0 \<le> headroom l' s lm r t t" using calculation(1) by (intro headroom_nonneg) auto
  ultimately show ?case by (auto simp: c)
next
  case (Cons u ts)
  obtain d g l' where c: "check l s lm t = ((d, g), l')" by (metis prod_cases3 prod.collapse)
  have "t \<le> u" using Cons.prems(2) by simp
  from check_headroom [OF c Cons.prems(3) this Cons.prems(1), of "last (u # ts)"]
  have st: "rate_state l' s lm r u"
    "of_bool (allowed d) + headroom l' s lm r u (last (u # ts)) \<le> headroom l s lm r t (last (u # ts))"
    by auto
  have "admitted (fst (check_run l' s lm (u # ts))) \<le> headroom l' s lm r u (last (u # ts))"
    using Cons.IH [OF Cons.prems(1) _ st(1)] Cons.prems(2) by simp
  moreover have "admitted (fst (check_run l s lm (t # u # ts))) =
      of_bool (allowed d) + admitted (fst (check_run l' s lm (u # ts)))"
    by (cases "check_run l' s lm (u # ts)") (simp add: c check_run.simps(2) [of l] del: check_run.simps)
  ultimately show ?case using st(2) by simp
qed

lemma rate_state_new:
  assumes "rpm lm > 0"
  shows "rate_state (limiter_new w) s lm (of_int (rpm lm) / max w (1 / 1000)) t"
    and "headroom (limiter_new w) s lm (of_int (rpm lm) / max w (1 / 1000)) t T =
      of_int (rpm lm) + of_int (rpm lm) / max w (1 / 1000) * since t T"
  using assms rate_nonneg [of "of_int (rpm lm)" w]
  by (simp_all add: rate_state_def headroom_def rpm_bucket_at_def get_or_insert_bucket_def
      limiter_new_def entry_or_default_def scope_default_def)

section \<open>Polling faster than the clock is read\<close>

text \<open>Consecutive reads of the bucket, each less than a millisecond after the one before.\<close>
fun rapid :: "timestamp \<Rightarrow> timestamp list \<Rightarrow> bool" where
  "rapid t [] = True"
| "rapid t (u # us) = (t \<le> u \<and> u - t < 1000000 \<and> rapid u us)"

lemma elapsed_rapid: "t \<le> u \<Longrightarrow> u - t < 1000000 \<Longrightarrow> elapsed_secs t u = 0"
  by (simp add: elapsed_secs_def num_milliseconds_def)

lemma check_run_rapid:
  assumes "rpm lm > 0" "max_concurrent lm \<le> 0"
  shows "rpm_bucket (entry_or_default l s) = Some b \<Longrightarrow> tokens b < 1 \<Longrightarrow> rapid (last_refill b) ts \<Longrightarrow>
    True \<notin> set (fst (check_run l s lm ts))"
proof (induction ts arbitrary: l b)
  case (Cons t ts)
  obtain d g l' where c: "check l s lm t = ((d, g), l')" by (metis prod_cases3 prod.collapse)
  define b' where "b' = refill (b\<lparr>capacity := of_int (rpm lm)\<rparr>) t"
  have "elapsed_secs (last_refill b) t = 0" using Cons.prems(3) by (simp add: elapsed_rapid)
  then have b': "tokens b' < 1" "last_refill b' = t" using Cons.prems(2) by (auto simp: b'_def)
  have "rpm_bucket_at l s lm t = b"
    using Cons.prems(1) by (simp add: rpm_bucket_at_def get_or_insert_bucket_def)
  then have "\<not> allowed d" "rpm_bucket (entry_or_default l' s) = Some b'"
    using check_bucket [OF c assms(1)] assms(2) b'(1) by (auto simp: b'_def [symmetric] Let_def)
  then show ?case using Cons.IH [of l' b'] b' Cons.prems(3)
    by (auto simp: c split: prod.splits)
qed simp

section \<open>Properties\<close>

text \<open>C11: In every reachable state of the limiter the slots a scope holds are exactly the guards
  alive for it, and they never exceed the configured concurrency.\<close>
theorem concurrency_bounded:
  assumes "limiter_reachable lm w (l, gs)"
  shows "in_flight (entry_or_default l s) =
      int (length (filter (\<lambda>g. guard_armed g \<and> guard_scope g = s) gs)) \<and>
    (max_concurrent (lm s) > 0 \<longrightarrow> in_flight (entry_or_default l s) \<le> max_concurrent (lm s))"
proof -
  have "slots.balanced l gs" using reachable_balanced [OF assms] by simp
  then have "slots_held l s = int (slots.holders gs s)" unfolding slots.balanced_def by blast
  moreover have "max_concurrent (lm s) > 0 \<Longrightarrow> slots_held l s \<le> max_concurrent (lm s)"
    using reachable_slots_bound [OF assms] by simp
  ultimately show ?thesis by (simp add: slots.holders_def slots_held_def)
qed

theorem concurrency_bounded_witness:
  "in_flight (entry_or_default (snd (check (limiter_new 60) ''k''
      \<lparr>rpm = 0, tpm = 0, max_concurrent = 1\<rparr> 0)) ''k'') \<le> 1"
proof -
  let ?lm = "\<lambda>s. \<lparr>rpm = 0, tpm = 0, max_concurrent = 1\<rparr>"
  have "limiter_reachable ?lm 60 (snd (check (limiter_new 60) ''k'' (?lm ''k'') 0),
      snd (fst (check (limiter_new 60) ''k'' (?lm ''k'') 0)) # [])"
    by (rule reach_step [OF reach_init],
        rule step_check [where s = "''k''" and now = 0 and
          d = "fst (fst (check (limiter_new 60) ''k'' (?lm ''k'') 0))"]) simp
  from concurrency_bounded [OF this, of "''k''"] show ?thesis by simp
qed

text \<open>C12: Over any run of preflights of one scope with times that do not go back, the number
  admitted is at most the limit plus what the refill rate gives over the time that passed.\<close>
theorem requests_admitted_bound:
  assumes "rpm lm > 0" "sorted (t # ts)"
  shows "of_nat (length (filter id (fst (check_run (limiter_new w) s lm (t # ts))))) \<le>
    of_int (rpm lm) + of_int (rpm lm) / max w (1 / 1000) * (of_int (last (t # ts) - t) / 10 ^ 9 :: rat)"
  using check_run_rate [OF assms rate_state_new(1) [OF assms(1), of w s t]]
  by (simp only: rate_state_new(2) [OF assms(1)] admitted_def since_def)

theorem requests_admitted_bound_witness:
  "of_nat (length (filter id (fst (check_run (limiter_new 60) ''k''
     \<lparr>rpm = 2, tpm = 0, max_concurrent = 0\<rparr> [0, 0, 30000000000])))) \<le> (3 :: rat)"
  using requests_admitted_bound [of "\<lparr>rpm = 2, tpm = 0, max_concurrent = 0\<rparr>" 0 "[0, 30000000000]" 60 "''k''"]
  by simp

text \<open>Every operation of the limiter keeps its invariant: no scope holds a negative number of
  slots, a bucket of requests stays between zero and its capacity, and a bucket of tokens never
  exceeds its capacity.\<close>
theorem limiter_invariant:
  assumes "limiter_ok l"
  shows "limiter_ok (snd (check l s lm t)) \<and> (0 \<le> n \<longrightarrow> limiter_ok (snd (charge_tokens l s lm n t))) \<and>
    limiter_ok (snd (tpm_exhausted l s lm t)) \<and> limiter_ok (guard_drop g l)"
  using assms check_ok charge_tokens_ok tpm_exhausted_ok guard_drop_ok
  by (metis prod.collapse)

theorem limiter_invariant_witness:
  "limiter_ok (snd (check (limiter_new 60) ''k'' \<lparr>rpm = 2, tpm = 0, max_concurrent = 0\<rparr> 0))"
  using limiter_invariant [OF limiter_new_ok] by blast

text \<open>Tokens charged in arrears are taken whole: on a fresh scope, after a charge of \<open>n\<close>, the
  preflight at a later time refuses exactly while the limit less \<open>n\<close> plus the refill so far is
  below one token.\<close>
theorem tpm_debt_repaid:
  assumes "tpm lm > 0" "limiter_scopes l s = None"
  shows "fst (fst (tpm_exhausted (snd (charge_tokens l s lm n t)) s lm t')) \<longleftrightarrow>
    of_int (tpm lm - n) + elapsed_secs t t' * (of_int (tpm lm) / max (window l) (1 / 1000)) < 1"
proof -
  have "min x (of_int (tpm lm)) < (1 :: rat) \<longleftrightarrow> x < 1" for x
    using assms(1) by (simp add: min_less_iff_disj)
  moreover
  have "elapsed_secs t t = 0" by (simp add: elapsed_secs_def num_milliseconds_def)
  moreover have "entry_or_default l s = scope_default"
    using assms(2) by (simp add: entry_or_default_def)
  ultimately show ?thesis
    using assms(1)
    by (simp add: tpm_exhausted_def charge_tokens_def get_or_insert_bucket_def scope_default_def Let_def)
qed

theorem tpm_debt_repaid_witness:
  "fst (fst (tpm_exhausted (snd (charge_tokens (limiter_new 60) ''k''
     \<lparr>rpm = 0, tpm = 60, max_concurrent = 0\<rparr> 100 0)) ''k''
     \<lparr>rpm = 0, tpm = 60, max_concurrent = 0\<rparr> 40000000000))"
  by (subst tpm_debt_repaid)
     (simp_all add: limiter_new_def elapsed_secs_def num_milliseconds_def)

text \<open>A scope that is out of requests and polled again each time less than a millisecond after
  the last poll is never admitted again: elapsed time is truncated to milliseconds and the
  remainder is dropped by moving the bucket's clock forward.\<close>
theorem rapid_polling_never_refills:
  assumes "rpm lm > 0" "max_concurrent lm \<le> 0"
    and "rpm_bucket (entry_or_default l s) = Some b" "tokens b < 1" "rapid (last_refill b) ts"
  shows "True \<notin> set (fst (check_run l s lm ts))"
  using check_run_rapid [OF assms] .

theorem rapid_polling_never_refills_witness:
  "let lm = \<lparr>rpm = 60, tpm = 0, max_concurrent = 0\<rparr>;
       b = \<lparr>tokens = 0, capacity = 60, refill_per_sec = 1, last_refill = 0\<rparr>;
       l = put_scope (limiter_new 60) ''k'' (scope_default\<lparr>rpm_bucket := Some b\<rparr>)
   in True \<notin> set (fst (check_run l ''k'' lm [900000, 1800000, 2700000]))"
  unfolding Let_def
  by (rule rapid_polling_never_refills [where b = "\<lparr>tokens = 0, capacity = 60, refill_per_sec = 1,
      last_refill = 0\<rparr>"]) simp_all

text \<open>The wait the token preflight advertises does not account for a debt: after a turn a
  hundred times the limit it tells the caller to retry in one second, and one second later the
  scope is still exhausted.\<close>
theorem tpm_retry_after_ignores_debt:
  "let lm = \<lparr>rpm = 0, tpm = 60, max_concurrent = 0\<rparr>;
       l = snd (charge_tokens (limiter_new 60) ''k'' lm 6000 0);
       ((exhausted, retry), l') = tpm_exhausted l ''k'' lm 0
   in exhausted \<and> retry = 1 \<and> fst (fst (tpm_exhausted l' ''k'' lm 1000000000))"
  by code_simp

end
