(* ===== verification/Billing.thy ===== *)
theory Billing
  imports Core_Domain
begin

text \<open>
  Prices, spend periods and the spend rollup: \<open>crates/yb-core/src/catalog.rs\<close>, \<open>spend.rs\<close> and
  \<open>ids.rs\<close>, and the two rollup queries of \<open>crates/yb-store/src/sqlite.rs\<close>.

  The calendar is the \<open>chrono\<close> package's, so the date functions the code calls are a parameter
  (\<open>calendar\<close>); what the code relies on is the locale \<open>utc_calendar\<close>, interpreted on the
  Gregorian calendar from 1970 on. Amounts computed in \<open>f64\<close> are exact rationals here.
\<close>

section \<open>Cost\<close>

text \<open>\<open>f64::round\<close>: half away from zero.\<close>
definition rust_round :: "rat \<Rightarrow> int" where
  "rust_round q = (if q \<ge> 0 then \<lfloor>q + 1 / 2\<rfloor> else - \<lfloor>- q + 1 / 2\<rfloor>)"

text \<open>\<open>as i64\<close> of a float saturates.\<close>
definition saturate_i64 :: "int \<Rightarrow> int" where
  "saturate_i64 n = max (- (2 ^ 63)) (min (2 ^ 63 - 1) n)"

definition price_new :: "rat \<Rightarrow> rat \<Rightarrow> model_price" where
  "price_new i out =
     \<lparr>input_per_1m = i, output_per_1m = out, cache_read_multiplier = 1, cache_write_multiplier = 1\<rparr>"

definition cost_exact :: "model_price \<Rightarrow> int \<Rightarrow> int \<Rightarrow> int \<Rightarrow> int \<Rightarrow> rat" where
  "cost_exact p input_tokens output_tokens cache_read_tokens cache_write_tokens =
     (let billable_input = max (input_tokens - cache_read_tokens - cache_write_tokens) 0;
          input_cost = of_int billable_input * input_per_1m p;
          cache_read_cost = of_int cache_read_tokens * input_per_1m p * cache_read_multiplier p;
          cache_write_cost = of_int cache_write_tokens * input_per_1m p * cache_write_multiplier p;
          output_cost = of_int output_tokens * output_per_1m p
      in input_cost + cache_read_cost + cache_write_cost + output_cost)"

definition cost_micros :: "model_price \<Rightarrow> int \<Rightarrow> int \<Rightarrow> int \<Rightarrow> int \<Rightarrow> micros" where
  "cost_micros p i out cr cw = saturate_i64 (rust_round (cost_exact p i out cr cw))"

definition builtin_price :: "string \<Rightarrow> model_price option" where
  "builtin_price model =
     (let m = to_ascii_lowercase model in
      if contains_str m ''gpt-4o-mini'' then Some (price_new (15 / 100) (60 / 100))
      else if contains_str m ''gpt-4o'' then Some (price_new (250 / 100) 10)
      else if contains_str m ''gpt-4.1-mini'' then Some (price_new (40 / 100) (160 / 100))
      else if contains_str m ''gpt-4.1'' then Some (price_new 2 8)
      else if contains_str m ''o3-mini'' then Some (price_new (110 / 100) (440 / 100))
      else if contains_str m ''claude-3-5-haiku'' \<or> contains_str m ''claude-haiku''
        then Some (price_new (80 / 100) 4)
      else if contains_str m ''claude-3-5-sonnet'' \<or> contains_str m ''claude-sonnet''
        then Some (price_new 3 15)
      else if contains_str m ''claude-opus'' \<or> contains_str m ''claude-3-opus''
        then Some (price_new 15 75)
      else if contains_str m ''gemini-1.5-flash'' \<or> contains_str m ''gemini-2.0-flash''
        then Some (price_new (75 / 1000) (30 / 100))
      else if contains_str m ''gemini-1.5-pro'' \<or> contains_str m ''gemini-2.5-pro''
        then Some (price_new (125 / 100) 5)
      else None)"

definition usd_to_micros :: "rat \<Rightarrow> micros" where
  "usd_to_micros usd = saturate_i64 (rust_round (usd * 1000000))"

definition micros_to_usd :: "micros \<Rightarrow> rat" where
  "micros_to_usd m = of_int m / 1000000"

section \<open>Periods\<close>

datatype subject_type = KeySubject | UserSubject | TeamSubject

fun subject_type_as_str :: "subject_type \<Rightarrow> string" where
  "subject_type_as_str KeySubject = ''key''"
| "subject_type_as_str UserSubject = ''user''"
| "subject_type_as_str TeamSubject = ''team''"

definition subject_type_parse :: "string \<Rightarrow> subject_type result" where
  "subject_type_parse s =
     (if s = ''key'' then Inr KeySubject
      else if s = ''user'' then Inr UserSubject
      else if s = ''team'' then Inr TeamSubject
      else Inl (BadRequest (''bad subject type: '' @ s)))"

datatype period = Day | Week | Month | Total

fun period_as_str :: "period \<Rightarrow> string" where
  "period_as_str Day = ''day''"
| "period_as_str Week = ''week''"
| "period_as_str Month = ''month''"
| "period_as_str Total = ''total''"

definition period_parse :: "string \<Rightarrow> period result" where
  "period_parse s =
     (if s = ''day'' then Inr Day
      else if s = ''week'' then Inr Week
      else if s = ''month'' then Inr Month
      else if s = ''total'' then Inr Total
      else Inl (BadRequest (''bad period: '' @ s)))"

text \<open>
  The date functions of a UTC timestamp the code calls, and the timestamp of a date at midnight
  (\<open>None\<close> when there is no such date, where the code panics).
\<close>
record calendar =
  year :: "timestamp \<Rightarrow> int"
  month :: "timestamp \<Rightarrow> nat"
  day :: "timestamp \<Rightarrow> nat"
  num_days_from_monday :: "timestamp \<Rightarrow> nat"
  ymd_midnight :: "int \<Rightarrow> nat \<Rightarrow> nat \<Rightarrow> timestamp option"

abbreviation day_nanos :: int where
  "day_nanos \<equiv> 86400000000000"

fun bucket_start :: "calendar \<Rightarrow> period \<Rightarrow> timestamp \<Rightarrow> timestamp option" where
  "bucket_start cal Total t = Some 0"
| "bucket_start cal Day t = ymd_midnight cal (year cal t) (month cal t) (day cal t)"
| "bucket_start cal Month t = ymd_midnight cal (year cal t) (month cal t) 1"
| "bucket_start cal Week t =
     (let weekday = int (num_days_from_monday cal t)
      in map_option (\<lambda>midnight. midnight - weekday * day_nanos)
           (ymd_midnight cal (year cal t) (month cal t) (day cal t)))"

datatype budget_action = Block | Alert

record budget =
  budget_id :: id
  budget_subject_type :: subject_type
  budget_subject_id :: string
  budget_period :: period
  hard_limit_micros :: micros
  soft_limit_micros :: "micros option"
  budget_action :: budget_action
  enabled :: bool
  budget_created_at :: timestamp
  budget_updated_at :: timestamp
  budget_deleted_at :: "timestamp option"

record rollup_delta =
  subject_type :: subject_type
  subject_id :: string
  period :: period
  period_start :: timestamp
  spend_micros :: micros
  request_count :: int
  input_tokens_delta :: int
  output_tokens_delta :: int

section \<open>The rollup table\<close>

text \<open>The row of the table with the key of a delta.\<close>
definition same_key :: "rollup_delta \<Rightarrow> rollup_delta \<Rightarrow> bool" where
  "same_key a b \<longleftrightarrow> subject_type a = subject_type b \<and> subject_id a = subject_id b \<and>
     period a = period b \<and> period_start a = period_start b"

definition add_row :: "rollup_delta \<Rightarrow> rollup_delta \<Rightarrow> rollup_delta" where
  "add_row row d =
     row\<lparr>spend_micros := spend_micros row + spend_micros d,
         request_count := request_count row + request_count d,
         input_tokens_delta := input_tokens_delta row + input_tokens_delta d,
         output_tokens_delta := output_tokens_delta row + output_tokens_delta d\<rparr>"

fun upsert_rollup :: "rollup_delta list \<Rightarrow> rollup_delta \<Rightarrow> rollup_delta list" where
  "upsert_rollup [] d = [d]"
| "upsert_rollup (row # rows) d =
     (if same_key row d then add_row row d # rows else row # upsert_rollup rows d)"

text \<open>
  The spend of a subject: the sum of its day rows from the start of the period on. \<open>None\<close> where
  the period has no start.
\<close>
definition period_spend ::
  "calendar \<Rightarrow> rollup_delta list \<Rightarrow> subject_type \<Rightarrow> string \<Rightarrow> period \<Rightarrow> timestamp \<Rightarrow> micros option" where
  "period_spend cal rows st sid p t =
     map_option (\<lambda>start. sum_list (map spend_micros (filter (\<lambda>r. subject_type r = st \<and>
         subject_id r = sid \<and> period r = Day \<and> period_start r \<ge> start) rows)))
       (bucket_start cal p t)"

section \<open>Lemmas on cost\<close>

lemma rust_round_mono: "a \<le> b \<Longrightarrow> rust_round a \<le> rust_round b"
proof (cases "a \<ge> 0 \<or> b < 0")
  case True
  assume "a \<le> b"
  with True show ?thesis unfolding rust_round_def by (auto intro!: floor_mono)
next
  case False
  assume "a \<le> b"
  from False have "0 \<le> \<lfloor>- a + 1 / 2\<rfloor>" "0 \<le> \<lfloor>b + 1 / 2\<rfloor>"
    by (simp_all only: zero_le_floor) simp_all
  then have "- \<lfloor>- a + 1 / 2\<rfloor> \<le> \<lfloor>b + 1 / 2\<rfloor>" by linarith
  with False show ?thesis unfolding rust_round_def by auto
qed

lemma rust_round_of_int [simp]: "rust_round (of_int n) = n"
proof -
  have "\<lfloor>of_int k + 1 / 2 :: rat\<rfloor> = k" for k by (rule floor_unique) simp_all
  from this [of n] this [of "- n"] show ?thesis by (simp add: rust_round_def)
qed

lemma saturate_mono: "a \<le> b \<Longrightarrow> saturate_i64 a \<le> saturate_i64 b"
  by (auto simp: saturate_i64_def)

lemma saturate_bounds: "- (2 ^ 63) \<le> saturate_i64 n" "saturate_i64 n \<le> 2 ^ 63 - 1"
  by (auto simp: saturate_i64_def)

definition price_ok :: "model_price \<Rightarrow> bool" where
  "price_ok p \<longleftrightarrow> 0 \<le> input_per_1m p \<and> 0 \<le> output_per_1m p \<and>
     0 \<le> cache_read_multiplier p \<and> 0 \<le> cache_write_multiplier p"

lemma builtin_price_ok: "builtin_price m = Some p \<Longrightarrow> price_ok p"
  by (auto simp: builtin_price_def Let_def price_ok_def price_new_def split: if_splits)

lemma cost_exact_nonneg:
  "price_ok p \<Longrightarrow> 0 \<le> out \<Longrightarrow> 0 \<le> cr \<Longrightarrow> 0 \<le> cw \<Longrightarrow> 0 \<le> cost_exact p i out cr cw"
  by (simp add: cost_exact_def price_ok_def)

lemma cost_exact_mono:
  assumes "price_ok p" "i \<le> i'" "out \<le> out'"
  shows "cost_exact p i out cr cw \<le> cost_exact p i' out' cr cw"
proof -
  have "of_int (max (i - cr - cw) 0) * input_per_1m p \<le> of_int (max (i' - cr - cw) 0) * input_per_1m p"
    using assms by (intro mult_right_mono) (auto simp: price_ok_def)
  moreover have "of_int out * output_per_1m p \<le> of_int out' * output_per_1m p"
    using assms by (intro mult_right_mono) (auto simp: price_ok_def)
  ultimately show ?thesis by (simp add: cost_exact_def Let_def)
qed

section \<open>The calendar\<close>

locale utc_calendar =
  fixes cal :: calendar
  assumes midnight: "0 \<le> t \<Longrightarrow>
      ymd_midnight cal (year cal t) (month cal t) (day cal t) = Some (t - t mod day_nanos)"
    and weekday: "0 \<le> t \<Longrightarrow> int (num_days_from_monday cal t) = (t div day_nanos + 3) mod 7"
    and same_day: "0 \<le> t \<Longrightarrow> year cal (t - t mod day_nanos) = year cal t \<and>
      month cal (t - t mod day_nanos) = month cal t \<and> day cal (t - t mod day_nanos) = day cal t"
    and day_positive: "0 \<le> t \<Longrightarrow> 0 < day cal t \<and> int (day cal t - 1) * day_nanos \<le> t"
    and same_month: "0 \<le> t \<Longrightarrow> k < day cal t \<Longrightarrow> year cal (t - int k * day_nanos) = year cal t \<and>
      month cal (t - int k * day_nanos) = month cal t \<and> day cal (t - int k * day_nanos) = day cal t - k"
begin

lemma day_start: "0 \<le> t \<Longrightarrow> bucket_start cal Day t = Some (t - t mod day_nanos)"
  by (simp add: midnight)

lemma week_start: "0 \<le> t \<Longrightarrow>
    bucket_start cal Week t = Some (t - t mod day_nanos - (t div day_nanos + 3) mod 7 * day_nanos)"
  by (simp add: midnight weekday)

lemma month_start:
  assumes "0 \<le> t"
  shows "bucket_start cal Month t = Some (t - t mod day_nanos - int (day cal t - 1) * day_nanos)"
proof -
  let ?k = "day cal t - 1"
  have k: "?k < day cal t" "int ?k * day_nanos \<le> t" using day_positive [OF assms] by auto
  have "bucket_start cal Month t = ymd_midnight cal (year cal (t - int ?k * day_nanos))
      (month cal (t - int ?k * day_nanos)) (day cal (t - int ?k * day_nanos))"
    using same_month [OF assms k(1)] day_positive [OF assms] by simp
  also have "\<dots> = Some (t - int ?k * day_nanos - (t - int ?k * day_nanos) mod day_nanos)"
    using k by (intro midnight) simp
  also have "(t - int ?k * day_nanos) mod day_nanos = t mod day_nanos"
    by (metis add.commute diff_add_cancel mod_mult_self1)
  finally show ?thesis by (simp add: algebra_simps)
qed

lemma month_start_month:
  assumes "0 \<le> t" "bucket_start cal Month t = Some s"
  shows "0 \<le> s \<and> year cal s = year cal t \<and> month cal s = month cal t \<and> day cal s = 1"
proof -
  let ?k = "day cal t - 1" and ?u = "t - t mod day_nanos"
  have s: "s = ?u - int ?k * day_nanos" using month_start [OF assms(1)] assms(2) by simp
  have u: "0 \<le> ?u" using assms(1) by (simp add: minus_mod_eq_div_mult)
  have "day cal ?u = day cal t" using same_day [OF assms(1)] by simp
  then show ?thesis
    using same_month [OF u, of ?k] day_positive [OF u] day_positive [OF assms(1)]
      same_day [OF assms(1)] by (simp add: s)
qed

end

definition leap_year :: "nat \<Rightarrow> bool" where
  "leap_year y \<longleftrightarrow> y mod 4 = 0 \<and> (y mod 100 \<noteq> 0 \<or> y mod 400 = 0)"

text \<open>The length of the \<open>i\<close>-th month after January 1970.\<close>
definition month_len :: "nat \<Rightarrow> nat" where
  "month_len i =
     (let m = i mod 12 in
      if m = 1 then (if leap_year (1970 + i div 12) then 29 else 28)
      else if m \<in> {3, 5, 8, 10} then 30 else 31)"

fun month_days :: "nat \<Rightarrow> nat" where
  "month_days 0 = 0"
| "month_days (Suc i) = month_days i + month_len i"

lemma month_len_pos: "0 < month_len i"
  by (simp add: month_len_def Let_def)

function month_walk :: "nat \<Rightarrow> nat \<Rightarrow> nat \<times> nat" where
  "month_walk i z = (if z < month_len i then (i, z) else month_walk (Suc i) (z - month_len i))"
  by pat_completeness auto
termination
proof (relation "measure snd")
  fix i z :: nat
  assume "\<not> z < month_len i"
  with month_len_pos [of i] show "((Suc i, z - month_len i), i, z) \<in> measure snd" by simp
qed simp

declare month_walk.simps [simp del]

definition civil :: "timestamp \<Rightarrow> nat \<times> nat" where
  "civil t = month_walk 0 (nat (t div day_nanos))"

definition gregorian :: calendar where
  "gregorian =
     \<lparr>year = (\<lambda>t. 1970 + int (fst (civil t) div 12)),
      month = (\<lambda>t. fst (civil t) mod 12 + 1),
      day = (\<lambda>t. snd (civil t) + 1),
      num_days_from_monday = (\<lambda>t. nat ((t div day_nanos + 3) mod 7)),
      ymd_midnight = (\<lambda>y m d.
        let i = nat (y - 1970) * 12 + (m - 1) in
        if 1970 \<le> y \<and> 1 \<le> m \<and> m \<le> 12 \<and> 1 \<le> d \<and> d \<le> month_len i
        then Some (int (month_days i + (d - 1)) * day_nanos) else None)\<rparr>"

lemma month_walk_bounds:
  "month_walk i z = (j, r) \<Longrightarrow> r < month_len j \<and> month_days j + r = month_days i + z \<and> r \<le> z"
proof (induction i z arbitrary: j r rule: month_walk.induct)
  case (1 i z)
  then show ?case by (subst (asm) (2) month_walk.simps) (fastforce split: if_splits)
qed

lemma month_walk_back:
  "month_walk i z = (j, r) \<Longrightarrow> k \<le> r \<Longrightarrow> month_walk i (z - k) = (j, r - k)"
proof (induction i z arbitrary: j r rule: month_walk.induct)
  case (1 i z)
  show ?case
  proof (cases "z < month_len i")
    case True
    with 1 have "i = j" "z = r" by (simp_all add: month_walk.simps [of i z])
    moreover have "month_walk i (z - k) = (i, z - k)"
      using True by (simp add: month_walk.simps [of i "z - k"] less_imp_diff_less)
    ultimately show ?thesis by simp
  next
    case False
    with 1 have w: "month_walk (Suc i) (z - month_len i) = (j, r)" by (simp add: month_walk.simps [of i z])
    then have "r \<le> z - month_len i" using month_walk_bounds by blast
    then have "\<not> z - k < month_len i" "z - month_len i - k = z - k - month_len i"
      using False 1(3) by auto
    then show ?thesis using "1.IH" [OF False w 1(3)] by (simp add: month_walk.simps [of i "z - k"])
  qed
qed

lemma nat_minus_int: "nat (x - int k) = nat x - k"
  by arith

interpretation utc: utc_calendar gregorian
proof
  fix t :: int
  assume t: "0 \<le> t"
  obtain j r where w: "civil t = (j, r)" by fastforce
  then have b: "r < month_len j" "month_days j + r = nat (t div day_nanos)" "r \<le> nat (t div day_nanos)"
    using month_walk_bounds unfolding civil_def by force+
  have q: "0 \<le> t div day_nanos" using t by (simp add: pos_imp_zdiv_nonneg_iff)
  have i: "nat (1970 + int (j div 12) - 1970) * 12 + (j mod 12 + 1 - 1) = j" by simp
  show "ymd_midnight gregorian (year gregorian t) (month gregorian t) (day gregorian t) =
      Some (t - t mod day_nanos)"
    using w b q i by (simp add: gregorian_def Let_def minus_mod_eq_div_mult)
  show "int (num_days_from_monday gregorian t) = (t div day_nanos + 3) mod 7"
    by (simp add: gregorian_def)
  have "(t - t mod day_nanos) div day_nanos = t div day_nanos"
    by (simp add: minus_mod_eq_div_mult)
  then have "civil (t - t mod day_nanos) = civil t" by (simp add: civil_def)
  then show "year gregorian (t - t mod day_nanos) = year gregorian t \<and>
      month gregorian (t - t mod day_nanos) = month gregorian t \<and>
      day gregorian (t - t mod day_nanos) = day gregorian t"
    by (simp add: gregorian_def)
  have le: "int (nat (t div day_nanos)) * day_nanos \<le> t" using q by simp
  have "int r \<le> int (nat (t div day_nanos))" by (simp only: of_nat_le_iff b(3))
  then have "int r * day_nanos \<le> int (nat (t div day_nanos)) * day_nanos"
    by (rule mult_right_mono) simp
  with le have "int r * day_nanos \<le> t" by linarith
  then show "0 < day gregorian t \<and> int (day gregorian t - 1) * day_nanos \<le> t"
    using w by (simp add: gregorian_def)
  fix k
  assume "k < day gregorian t"
  then have k: "k \<le> r" using w by (simp add: gregorian_def)
  have "(t - int k * day_nanos) div day_nanos = t div day_nanos - int k"
    by (metis add.commute add_diff_cancel_right' diff_add_cancel div_mult_self1 zero_neq_numeral)
  moreover have "nat (t div day_nanos - int k) = nat (t div day_nanos) - k"
    by (rule nat_minus_int)
  ultimately have "civil (t - int k * day_nanos) = (j, r - k)"
    using month_walk_back [OF w [unfolded civil_def] k] by (simp add: civil_def nat_diff_distrib)
  then show "year gregorian (t - int k * day_nanos) = year gregorian t \<and>
      month gregorian (t - int k * day_nanos) = month gregorian t \<and>
      day gregorian (t - int k * day_nanos) = day gregorian t - k"
    using w k by (simp add: gregorian_def)
qed

section \<open>The spend store\<close>

text \<open>
  What the budget check and the billing path promise each other: an upsert changes what a query
  answers by exactly the amount of the delta, when the delta is within the query.
\<close>
locale spend_store =
  fixes upsert :: "'db \<Rightarrow> rollup_delta \<Rightarrow> 'db"
    and query :: "'db \<Rightarrow> 'q \<Rightarrow> int"
    and matches :: "'q \<Rightarrow> rollup_delta \<Rightarrow> bool"
    and empty :: 'db
  assumes query_empty: "query empty q = 0"
    and query_upsert: "query (upsert db d) q = query db q + (if matches q d then spend_micros d else 0)"
begin

lemma query_run: "query (foldl upsert db ds) q =
    query db q + sum_list (map spend_micros (filter (matches q) ds))"
  by (induction ds arbitrary: db) (simp_all add: query_upsert)

lemma query_total: "query (foldl upsert empty ds) q = sum_list (map spend_micros (filter (matches q) ds))"
  by (simp add: query_run query_empty)

lemma query_commute: "query (upsert (upsert db d) e) q = query (upsert (upsert db e) d) q"
  by (simp add: query_upsert)

end

definition spend_matches :: "subject_type \<times> string \<times> timestamp \<Rightarrow> rollup_delta \<Rightarrow> bool" where
  "spend_matches q r \<longleftrightarrow> (case q of (st, sid, start) \<Rightarrow>
     subject_type r = st \<and> subject_id r = sid \<and> period r = Day \<and> period_start r \<ge> start)"

definition spend_since :: "rollup_delta list \<Rightarrow> subject_type \<times> string \<times> timestamp \<Rightarrow> micros" where
  "spend_since rows q = sum_list (map spend_micros (filter (spend_matches q) rows))"

lemma spend_matches_key: "same_key a b \<Longrightarrow> spend_matches q a = spend_matches q b"
  by (simp add: same_key_def spend_matches_def split: prod.split)

lemma add_row_simps [simp]:
  "spend_matches q (add_row r d) = spend_matches q r"
  "spend_micros (add_row r d) = spend_micros r + spend_micros d"
  "same_key (add_row r d) e = same_key r e"
  by (simp_all add: add_row_def spend_matches_def same_key_def split: prod.split)

interpretation ledger: spend_store upsert_rollup spend_since spend_matches "[]"
proof
  show "spend_since (upsert_rollup rows d) q =
      spend_since rows q + (if spend_matches q d then spend_micros d else 0)" for rows d q
    by (induction rows d rule: upsert_rollup.induct)
       (auto simp: spend_since_def dest: spend_matches_key [of _ _ q])
qed (simp add: spend_since_def)

lemma period_spend_since:
  "period_spend cal rows st sid p t = map_option (\<lambda>start. spend_since rows (st, sid, start)) (bucket_start cal p t)"
proof -
  have "spend_matches (st, sid, start) = (\<lambda>r. subject_type r = st \<and> subject_id r = sid \<and>
      period r = Day \<and> start \<le> period_start r)" for start
    by (auto simp: spend_matches_def)
  then show ?thesis by (simp add: period_spend_def spend_since_def)
qed

text \<open>The table never holds two rows with one key.\<close>
definition row_key :: "rollup_delta \<Rightarrow> subject_type \<times> string \<times> period \<times> timestamp" where
  "row_key r = (subject_type r, subject_id r, period r, period_start r)"

lemma same_key_row_key: "same_key a b \<longleftrightarrow> row_key a = row_key b"
  by (auto simp: same_key_def row_key_def)

lemma row_key_add_row [simp]: "row_key (add_row r d) = row_key r"
  by (simp add: row_key_def add_row_def)

lemma upsert_keys: "row_key ` set (upsert_rollup rows d) = insert (row_key d) (row_key ` set rows)"
  by (induction rows d rule: upsert_rollup.induct) (auto simp: same_key_row_key)

lemma upsert_distinct: "distinct (map row_key rows) \<Longrightarrow> distinct (map row_key (upsert_rollup rows d))"
proof (induction rows d rule: upsert_rollup.induct)
  case (2 row rows d)
  then show ?case using upsert_keys [of rows d] by (auto simp: same_key_row_key image_iff)
qed simp

lemma rollup_distinct: "distinct (map row_key (foldl upsert_rollup [] ds))"
proof -
  have "distinct (map row_key rows) \<Longrightarrow> distinct (map row_key (foldl upsert_rollup rows ds))" for rows
    by (induction ds arbitrary: rows) (simp_all add: upsert_distinct)
  then show ?thesis by simp
qed

lemma midnight_split:
  fixes t :: int
  shows "t - t mod day_nanos \<le> t" "(t - t mod day_nanos) mod day_nanos = 0"
    "(t - t mod day_nanos) div day_nanos = t div day_nanos" "t < t - t mod day_nanos + day_nanos"
proof -
  show "(t - t mod day_nanos) div day_nanos = t div day_nanos"
    by (simp add: minus_mod_eq_div_mult)
  show "t < t - t mod day_nanos + day_nanos" using pos_mod_bound [of day_nanos t] by linarith
qed simp_all

lemma week_arith:
  fixes t :: int
  defines "s \<equiv> t - t mod day_nanos - (t div day_nanos + 3) mod 7 * day_nanos"
  shows "s \<le> t" "s mod day_nanos = 0" "t < s + 7 * day_nanos" "(s div day_nanos + 3) mod 7 = 0"
proof -
  let ?q = "t div day_nanos" let ?w = "(?q + 3) mod 7"
  have s: "s = (?q - ?w) * day_nanos"
    unfolding s_def minus_mod_eq_div_mult by (simp add: left_diff_distrib)
  have w: "0 \<le> ?w" "?w \<le> 6" using pos_mod_bound [of 7 "?q + 3"] by auto
  have t: "?q * day_nanos \<le> t" "t < ?q * day_nanos + day_nanos"
    using midnight_split [of t] by (simp_all only: minus_mod_eq_div_mult)
  show "s \<le> t" "t < s + 7 * day_nanos" using w t unfolding s left_diff_distrib by linarith+
  show "s mod day_nanos = 0" by (simp add: s)
  have "s div day_nanos = ?q - ?w" by (simp add: s)
  then have "s div day_nanos + 3 = ?q + 3 - ?w" by simp
  then show "(s div day_nanos + 3) mod 7 = 0" by (simp add: minus_mod_eq_mult_div)
qed

section \<open>Properties\<close>

text \<open>The start of a period's bucket is a midnight at or before the instant; a day holds it for
  a day, a week starts on a Monday and holds it for seven days, a month starts on the first of the
  same month; and the start of a bucket is its own start.\<close>
theorem bucket_start_correct:
  assumes "utc_calendar cal" "0 \<le> t"
  shows "\<exists>s. bucket_start cal p t = Some s \<and> s \<le> t \<and> s mod day_nanos = 0 \<and>
    (p = Day \<longrightarrow> t < s + day_nanos) \<and>
    (p = Week \<longrightarrow> t < s + 7 * day_nanos \<and> (s div day_nanos + 3) mod 7 = 0) \<and>
    (p = Month \<longrightarrow> year cal s = year cal t \<and> month cal s = month cal t \<and> day cal s = 1) \<and>
    (0 \<le> s \<longrightarrow> bucket_start cal p s = Some s)"
proof (cases p)
  case Day
  have d: "bucket_start cal Day u = Some (u - u mod day_nanos)" if "0 \<le> u" for u
    using that by (rule utc_calendar.day_start [OF assms(1)])
  show ?thesis using d [OF assms(2)] d midnight_split [of t] Day by auto
next
  case Week
  define s where "s = t - t mod day_nanos - (t div day_nanos + 3) mod 7 * day_nanos"
  note a = week_arith [of t, folded s_def]
  have "bucket_start cal Week t = Some s"
    unfolding s_def by (rule utc_calendar.week_start [OF assms])
  moreover have "bucket_start cal Week s = Some s" if "0 \<le> s"
    using utc_calendar.week_start [OF assms(1) that] a(2,4) by simp
  ultimately show ?thesis unfolding Week using a by (intro exI [of _ s]) simp
next
  case Month
  obtain s where s: "bucket_start cal Month t = Some s"
    "s = t - t mod day_nanos - int (day cal t - 1) * day_nanos"
    using utc_calendar.month_start [OF assms] by auto
  have first: "0 \<le> s" "year cal s = year cal t" "month cal s = month cal t" "day cal s = 1"
    using utc_calendar.month_start_month [OF assms s(1)] by auto
  have "s mod day_nanos = 0"
    unfolding s(2) minus_mod_eq_div_mult left_diff_distrib [symmetric] by simp
  moreover from this have "bucket_start cal Month s = Some s"
    using utc_calendar.month_start [OF assms(1) first(1)] first(4) by simp
  moreover have "s \<le> t"
  proof -
    have "0 \<le> int (day cal t - 1) * day_nanos" by simp
    with midnight_split(1) [of t] show ?thesis unfolding s(2) by linarith
  qed
  ultimately show ?thesis using s first Month by auto
next
  case Total
  then show ?thesis using assms(2) by simp
qed

theorem bucket_start_correct_witness:
  "\<exists>s. bucket_start gregorian Week 1782738000000000000 = Some s \<and>
     1782738000000000000 < s + 7 * day_nanos \<and> (s div day_nanos + 3) mod 7 = 0"
  using bucket_start_correct [OF utc.utc_calendar_axioms, of 1782738000000000000 Week] by auto

text \<open>The spend a budget is checked against is exactly the sum of the day deltas recorded for
  the subject since the period began, whatever order they were recorded in and however rows were
  merged; no key ever has two rows.\<close>
theorem period_spend_sums_deltas:
  "period_spend cal (foldl upsert_rollup [] ds) st sid p t =
     map_option (\<lambda>start. sum_list (map spend_micros (filter (\<lambda>d. subject_type d = st \<and>
        subject_id d = sid \<and> period d = Day \<and> start \<le> period_start d) ds))) (bucket_start cal p t) \<and>
   distinct (map (\<lambda>r. (subject_type r, subject_id r, period r, period_start r))
     (foldl upsert_rollup [] ds))"
proof -
  have "spend_matches (st, sid, start) = (\<lambda>d. subject_type d = st \<and>
        subject_id d = sid \<and> period d = Day \<and> start \<le> period_start d)" for start
    by (auto simp: spend_matches_def)
  moreover have "row_key = (\<lambda>r. (subject_type r, subject_id r, period r, period_start r))"
    by (rule ext) (simp add: row_key_def)
  ultimately show ?thesis
    using rollup_distinct [of ds] by (simp add: period_spend_since ledger.query_total)
qed

text \<open>With a price whose rates are not negative, the cost of a turn is never negative, fits an
  \<open>i64\<close>, and does not fall when more input or output tokens are used.\<close>
theorem cost_micros_bounds_mono:
  assumes "price_ok p" "0 \<le> out" "0 \<le> cr" "0 \<le> cw" "i \<le> i'" "out \<le> out'"
  shows "0 \<le> cost_micros p i out cr cw \<and> cost_micros p i out cr cw < 2 ^ 63 \<and>
    cost_micros p i out cr cw \<le> cost_micros p i' out' cr cw"
proof -
  have "rust_round 0 \<le> rust_round (cost_exact p i out cr cw)"
    using assms by (intro rust_round_mono cost_exact_nonneg)
  then have "0 \<le> rust_round (cost_exact p i out cr cw)" using rust_round_of_int [of 0] by simp
  then have "0 \<le> cost_micros p i out cr cw" by (simp add: cost_micros_def saturate_i64_def)
  moreover have "cost_micros p i out cr cw \<le> cost_micros p i' out' cr cw"
    unfolding cost_micros_def
    by (intro saturate_mono rust_round_mono cost_exact_mono assms(1,5,6))
  moreover have "cost_micros p i out cr cw \<le> 2 ^ 63 - 1"
    unfolding cost_micros_def by (rule saturate_bounds)
  ultimately show ?thesis by linarith
qed

theorem cost_micros_bounds_mono_witness:
  "0 \<le> cost_micros (price_new (5 / 2) 10) 1000000 1000000 0 0 \<and>
   cost_micros (price_new (5 / 2) 10) 1000000 1000000 0 0 = 12500000"
proof -
  have "price_ok (price_new (5 / 2) 10)" by (simp add: price_ok_def price_new_def)
  then have "0 \<le> cost_micros (price_new (5 / 2) 10) 1000000 1000000 0 0"
    using cost_micros_bounds_mono [of "price_new (5 / 2) 10" 1000000 0 0 1000000 1000000 1000000] by simp
  moreover have "cost_micros (price_new (5 / 2) 10) 1000000 1000000 0 0 = 12500000" by code_simp
  ultimately show ?thesis by simp
qed

end
