(* ===== verification/Deployment_Router.thy ===== *)
theory Deployment_Router
  imports Core_Domain
begin

unbundle bit_operations_syntax

text \<open>
  The model-to-deployment resolver of \<open>crates/yb-gateway/src/router.rs\<close>: the snapshot and its
  construction, the alias walk, the ordering strategies, the collection of candidates and the
  \<open>Router\<close> implementation (\<open>resolve\<close>, \<open>serving\<close>), with \<open>reload\<close>.

  The counters of a model entry are atomics read and written by single operations; a call is
  modelled as one step on the router state. A \<open>HashMap\<close> is an association list with one entry
  per key; only the order of \<open>serving\<close> depends on the order of a map, and no theorem uses it.
\<close>

section \<open>State\<close>

record model_entry =
  entry_deployments :: "deployment list"
  rr :: "64 word"
  load :: "64 word list"

record snapshot =
  models :: "(string \<times> model_entry) list"
  fallbacks :: "string \<rightharpoonup> string list"
  aliases :: "string \<rightharpoonup> string"
  snap_strategy :: strategy

record deployment_router =
  snapshot :: snapshot
  rng :: "64 word"

fun put_entry :: "string \<Rightarrow> 'a \<Rightarrow> (string \<times> 'a) list \<Rightarrow> (string \<times> 'a) list" where
  "put_entry k v [] = [(k, v)]"
| "put_entry k v ((k', v') # m) = (if k' = k then (k, v) # m else (k', v') # put_entry k v m)"

section \<open>Construction\<close>

definition entry_new :: model_entry where
  "entry_new = \<lparr>entry_deployments = [], rr = 0, load = []\<rparr>"

definition entry_push :: "model_entry \<Rightarrow> deployment \<Rightarrow> model_entry" where
  "entry_push e d = e\<lparr>entry_deployments := entry_deployments e @ [d], load := load e @ [0]\<rparr>"

fun build_models :: "(string \<times> model_entry) list \<Rightarrow> deployment list \<Rightarrow> (string \<times> model_entry) list" where
  "build_models ms [] = ms"
| "build_models ms (d # ds) =
     (let e = (case map_of ms (model_name d) of None \<Rightarrow> entry_new | Some e \<Rightarrow> e)
      in build_models (put_entry (model_name d) (entry_push e d) ms) ds)"

definition build ::
  "deployment list \<Rightarrow> (string \<rightharpoonup> string list) \<Rightarrow> (string \<rightharpoonup> string) \<Rightarrow> strategy \<Rightarrow> snapshot" where
  "build ds fbs als st =
     \<lparr>models = build_models [] ds, fallbacks = fbs, aliases = als, snap_strategy = st\<rparr>"

text \<open>The alias walk: at most \<open>n\<close> hops.\<close>
fun canonical_walk :: "snapshot \<Rightarrow> nat \<Rightarrow> string \<Rightarrow> string" where
  "canonical_walk snap 0 name = name"
| "canonical_walk snap (Suc n) name =
     (if map_of (models snap) name \<noteq> None then name
      else case aliases snap name of
             Some target \<Rightarrow> canonical_walk snap n target
           | None \<Rightarrow> name)"

definition canonical :: "snapshot \<Rightarrow> string \<Rightarrow> string" where
  "canonical snap requested = canonical_walk snap 8 requested"

definition cfg_model_id :: "string \<Rightarrow> string" where
  "cfg_model_id name = ''cfg-model:'' @ name"

definition cfg_provider_id :: "string \<Rightarrow> string" where
  "cfg_provider_id name = ''cfg-provider:'' @ name"

record deployment_config =
  dc_provider :: string
  dc_upstream_model :: string
  dc_api_base :: "string option"
  dc_api_key :: "string option"
  dc_upstream_format :: upstream_format
  dc_weight :: "32 word"
  dc_pricing :: "model_price option"
  dc_health_check :: health_check
  dc_health_path :: "string option"
  dc_extra :: extra

record model_config =
  mc_model_name :: string
  mc_deployments :: "deployment_config list"
  mc_aliases :: "string list"

definition config_deployments :: "model_config \<Rightarrow> deployment list" where
  "config_deployments mc =
     map (\<lambda>dc. \<lparr>model_id = cfg_model_id (mc_model_name mc), model_name = mc_model_name mc,
        provider_id = cfg_provider_id (dc_provider dc), provider = dc_provider dc,
        upstream_model = dc_upstream_model dc, api_base = dc_api_base dc, api_key = dc_api_key dc,
        upstream_format = dc_upstream_format dc, weight = dc_weight dc, pricing = dc_pricing dc,
        health_check = dc_health_check dc, health_path = dc_health_path dc, extra = dc_extra dc\<rparr>)
       (mc_deployments mc)"

text \<open>
  The generator is seeded from the clock in nanoseconds, which is \<open>None\<close> outside the range of
  an \<open>i64\<close>; the lowest bit is set so that the seed is never zero.
\<close>
definition with_snapshot :: "timestamp \<Rightarrow> snapshot \<Rightarrow> deployment_router" where
  "with_snapshot now snap =
     (let nanos = (if - (2 ^ 63) \<le> now \<and> now < 2 ^ 63 then now else 1)
      in \<lparr>snapshot = snap, rng = word_of_int nanos OR 1\<rparr>)"

definition from_models ::
  "timestamp \<Rightarrow> model_config list \<Rightarrow> (string \<rightharpoonup> string list) \<Rightarrow> (string \<rightharpoonup> string) \<Rightarrow> strategy \<Rightarrow>
   deployment_router" where
  "from_models now ms fbs als st =
     with_snapshot now (build (concat (map config_deployments ms)) fbs als st)"

definition from_deployments ::
  "timestamp \<Rightarrow> deployment_record list \<Rightarrow> strategy \<Rightarrow> (string \<rightharpoonup> string list) \<Rightarrow>
   (string \<rightharpoonup> string) \<Rightarrow> deployment_router" where
  "from_deployments now records st fbs als =
     with_snapshot now (build (map to_deployment records) fbs als st)"

definition reload :: "deployment_router \<Rightarrow> deployment_record list \<Rightarrow> (string \<rightharpoonup> string) \<Rightarrow> deployment_router" where
  "reload r records als =
     (let cur = snapshot r
      in r\<lparr>snapshot := build (map to_deployment records) (fallbacks cur) als (snap_strategy cur)\<rparr>)"

definition model_count :: "deployment_router \<Rightarrow> nat" where
  "model_count r = length (models (snapshot r))"

section \<open>Ordering\<close>

text \<open>One step of xorshift64 and the unit float made of its top 53 bits.\<close>
definition xorshift :: "64 word \<Rightarrow> 64 word" where
  "xorshift x0 =
     (let x = (if x0 = 0 then 0x9E3779B97F4A7C15 else x0);
          x = x XOR push_bit 13 x;
          x = x XOR drop_bit 7 x;
          x = x XOR push_bit 17 x
      in x)"

definition next_unit :: "64 word \<Rightarrow> rat \<times> 64 word" where
  "next_unit x0 = (let x = xorshift x0 in (of_nat (unat (drop_bit 11 x)) / 2 ^ 53, x))"

text \<open>
  The weighted shuffle sorts by the key \<open>u\<close> to the power \<open>1 / w\<close>, descending. Keys are
  irrational, so a key is the pair of the draw and the weight, and two of them are compared
  without the root (lemma \<open>key_greater_root\<close>).
\<close>
definition key_greater :: "rat \<times> nat \<Rightarrow> rat \<times> nat \<Rightarrow> bool" where
  "key_greater a b \<longleftrightarrow> fst a ^ snd b > fst b ^ snd a"

text \<open>A stable sort that puts an element before the first one it does not rank below.\<close>
fun insert_by :: "('a \<Rightarrow> 'a \<Rightarrow> bool) \<Rightarrow> 'a \<Rightarrow> 'a list \<Rightarrow> 'a list" where
  "insert_by before x [] = [x]"
| "insert_by before x (y # ys) = (if before y x then y # insert_by before x ys else x # y # ys)"

fun sort_by :: "('a \<Rightarrow> 'a \<Rightarrow> bool) \<Rightarrow> 'a list \<Rightarrow> 'a list" where
  "sort_by before [] = []"
| "sort_by before (x # xs) = insert_by before x (sort_by before xs)"

definition max_weight :: "deployment \<Rightarrow> nat" where
  "max_weight d = max (unat (weight d)) 1"

fun draw_keys :: "deployment list \<Rightarrow> 64 word \<Rightarrow> nat list \<Rightarrow> ((rat \<times> nat) \<times> nat) list \<times> 64 word" where
  "draw_keys ds x [] = ([], x)"
| "draw_keys ds x (i # is) =
     (let (u, x) = next_unit x; (keyed, x) = draw_keys ds x is
      in (((u, max_weight (ds ! i)), i) # keyed, x))"

definition sort_by_load :: "64 word list \<Rightarrow> nat list \<Rightarrow> nat list" where
  "sort_by_load ld is = sort_by (\<lambda>i j. ld ! i < ld ! j) is"

text \<open>
  The ordered deployments with the generator and the entry after. The caller passes at least one
  survivor, and every survivor is an index of the entry.
\<close>
fun order_by :: "strategy \<Rightarrow> model_entry \<Rightarrow> 64 word \<Rightarrow> nat list \<Rightarrow> deployment list \<times> model_entry \<times> 64 word" where
  "order_by Simple e x survivors =
     (let (keyed, x) = draw_keys (entry_deployments e) x survivors;
          keyed = sort_by (\<lambda>a b. key_greater (fst a) (fst b)) keyed
      in (map (\<lambda>(_, i). entry_deployments e ! i) keyed, e, x))"
| "order_by RoundRobin e x survivors =
     (let n = length survivors; start = unat (rr e) mod n
      in (map (\<lambda>k. entry_deployments e ! (survivors ! ((start + k) mod n))) [0..<n],
          e\<lparr>rr := rr e + 1\<rparr>, x))"
| "order_by LeastBusy e x survivors =
     (let idx = sort_by_load (load e) survivors;
          e' = (case idx of [] \<Rightarrow> e | first # _ \<Rightarrow> e\<lparr>load := (load e)[first := load e ! first + 1]\<rparr>)
      in (map (\<lambda>i. entry_deployments e ! i) idx, e', x))"

section \<open>Resolution\<close>

definition eligible :: "route_request \<Rightarrow> deployment \<Rightarrow> bool" where
  "eligible req d =
     (if model_id d \<in> set (excluded_model_ids req) then False
      else if (case enabled_provider_ids req of
                 None \<Rightarrow> False | Some en \<Rightarrow> provider_id d \<notin> set en) then False
      else if provider_id d \<in> set (denied_provider_ids_req req) then False
      else True)"

definition dedup_of :: "deployment \<Rightarrow> string \<times> string \<times> string" where
  "dedup_of d = (provider_id d, upstream_model d, model_id d)"

text \<open>The survivors of an entry: the indices of its eligible deployments.\<close>
definition survivors_of :: "route_request \<Rightarrow> model_entry \<Rightarrow> nat list" where
  "survivors_of req e =
     filter (\<lambda>i. eligible req (entry_deployments e ! i)) [0..<length (entry_deployments e)]"

definition collect ::
  "deployment_router \<Rightarrow> string \<Rightarrow> route_request \<Rightarrow>
   deployment list \<times> (string \<times> string \<times> string) set \<Rightarrow>
   (deployment list \<times> (string \<times> string \<times> string) set) \<times> deployment_router" where
  "collect r model req acc =
     (let snap = snapshot r in
      case map_of (models snap) model of
        None \<Rightarrow> (acc, r)
      | Some entry \<Rightarrow>
          let survivors = survivors_of req entry in
          if survivors = [] then (acc, r)
          else
            let (ordered, entry', x) = order_by (snap_strategy snap) entry (rng r) survivors;
                (out, seen) = acc
            in ((out @ dedup_key dedup_of seen ordered, seen \<union> dedup_of ` set ordered),
                r\<lparr>snapshot := snap\<lparr>models := put_entry model entry' (models snap)\<rparr>, rng := x\<rparr>))"

fun collect_all ::
  "deployment_router \<Rightarrow> string list \<Rightarrow> route_request \<Rightarrow>
   deployment list \<times> (string \<times> string \<times> string) set \<Rightarrow>
   (deployment list \<times> (string \<times> string \<times> string) set) \<times> deployment_router" where
  "collect_all r [] req acc = (acc, r)"
| "collect_all r (m # ms) req acc =
     (let (acc, r) = collect r m req acc in collect_all r ms req acc)"

definition decision_reason :: "route_request \<Rightarrow> nat \<Rightarrow> strategy \<Rightarrow> string" where
  "decision_reason req n st =
     ''resolved '' @ [CHR 0x27] @ requested_model req @ [CHR 0x27] @ '' to '' @ show_nat n @
     '' candidate(s) via '' @ strategy_name st @ '' strategy''"

definition resolve :: "deployment_router \<Rightarrow> route_request \<Rightarrow> decision result \<times> deployment_router" where
  "resolve r req =
     (let snap = snapshot r;
          model = canonical snap (requested_model req);
          (acc, r) = collect r model req ([], {});
          ((out, seen), r) = (case fallbacks snap model of
            None \<Rightarrow> (acc, r) | Some fbs \<Rightarrow> collect_all r fbs req acc)
      in if out = [] then (Inl (NoEligibleProvider (requested_model req)), r)
         else (Inr \<lparr>candidates = out,
                    reason = decision_reason req (length out) (snap_strategy snap)\<rparr>, r))"

definition serving :: "deployment_router \<Rightarrow> upstream_format \<Rightarrow> string \<Rightarrow> deployment list" where
  "serving r fmt um =
     filter (\<lambda>d. upstream_format d = fmt \<and> upstream_model d = um)
       (concat (map (entry_deployments \<circ> snd) (models (snapshot r))))"

section \<open>Lemmas on the ordering\<close>

lemma insert_by_mset [simp]: "mset (insert_by b x xs) = add_mset x (mset xs)"
  by (induction xs) auto

lemma sort_by_mset [simp]: "mset (sort_by b xs) = mset xs"
  by (induction xs) auto

lemma sort_by_set [simp]: "set (sort_by b xs) = set xs"
  by (metis set_mset_mset sort_by_mset)

lemma sort_by_length [simp]: "length (sort_by b xs) = length xs"
  by (metis size_mset sort_by_mset)

lemma sort_by_Nil_iff [simp]: "sort_by b xs = [] \<longleftrightarrow> xs = []"
  by (metis length_0_conv sort_by_length)

lemma insert_by_set: "set (insert_by b x xs) = insert x (set xs)"
  by (metis insert_by_mset set_mset_add_mset_insert set_mset_mset)

lemma insert_by_sorted:
  assumes asym: "\<And>x y. b x y \<Longrightarrow> \<not> b y x"
    and trans: "\<And>x y z. \<not> b y x \<Longrightarrow> \<not> b z y \<Longrightarrow> \<not> b z x"
  shows "sorted_wrt (\<lambda>x y. \<not> b y x) xs \<Longrightarrow> sorted_wrt (\<lambda>x y. \<not> b y x) (insert_by b x xs)"
proof (induction xs)
  case (Cons y ys)
  show ?case
  proof (cases "b y x")
    case True
    then have "\<not> b x y" by (rule asym)
    with True Cons show ?thesis by (simp add: insert_by_set)
  next
    case False
    then have "\<forall>z \<in> set ys. \<not> b z x" using Cons.prems trans by (metis sorted_wrt.simps(2))
    with False Cons show ?thesis by simp
  qed
qed simp

lemma sort_by_sorted:
  assumes "\<And>x y. b x y \<Longrightarrow> \<not> b y x" "\<And>x y z. \<not> b y x \<Longrightarrow> \<not> b z y \<Longrightarrow> \<not> b z x"
  shows "sorted_wrt (\<lambda>x y. \<not> b y x) (sort_by b xs)"
  by (induction xs) (simp_all add: insert_by_sorted [of b, OF assms])

lemma draw_keys_indices: "map snd (fst (draw_keys ds x is)) = is"
  by (induction ds x "is" rule: draw_keys.induct) (auto simp: Let_def split: prod.splits)

lemma round_robin_rotate:
  assumes "sv \<noteq> []"
  shows "map (\<lambda>k. f (sv ! ((start + k) mod length sv))) [0..<length sv] = map f (rotate start sv)"
  using assms by (intro nth_equalityI) (auto simp: nth_rotate)

lemma mset_rotate: "mset (rotate n xs) = mset xs"
  by (metis append_take_drop_id mset_append rotate_drop_take union_commute)

text \<open>Every strategy orders the survivors: it neither loses nor invents a deployment.\<close>
lemma order_by_mset:
  assumes "sv \<noteq> []"
  shows "mset (fst (order_by st e x sv)) = mset (map ((!) (entry_deployments e)) sv)"
proof (cases st)
  case Simple
  obtain keyed y where k: "draw_keys (entry_deployments e) x sv = (keyed, y)" by fastforce
  let ?s = "sort_by (\<lambda>a b. key_greater (fst a) (fst b)) keyed"
  have "mset (map (\<lambda>(_, i). entry_deployments e ! i) ?s) =
      image_mset ((!) (entry_deployments e)) (mset (map snd keyed))"
    by (simp add: case_prod_unfold multiset.map_comp comp_def)
  moreover have "map snd keyed = sv" using draw_keys_indices [of "entry_deployments e" x sv] k by simp
  ultimately show ?thesis using Simple k by simp
next
  case RoundRobin
  have "fst (order_by RoundRobin e x sv) =
      map ((!) (entry_deployments e)) (rotate (unat (rr e) mod length sv) sv)"
    using round_robin_rotate [OF assms, of "(!) (entry_deployments e)"] by (simp add: Let_def)
  then show ?thesis unfolding RoundRobin by (simp only: mset_map mset_rotate)
next
  case LeastBusy
  then show ?thesis by (simp add: sort_by_load_def Let_def)
qed

lemma order_by_deployments [simp]:
  "entry_deployments (fst (snd (order_by st e x sv))) = entry_deployments e"
  by (cases st) (auto simp: Let_def split: prod.split list.split)

lemma order_by_load_length [simp]:
  "length (load (fst (snd (order_by st e x sv)))) = length (load e)"
  by (cases st) (auto simp: Let_def split: prod.split list.split)

section \<open>Lemmas on the table\<close>

lemma map_of_put_entry [simp]: "map_of (put_entry k v m) = (map_of m)(k \<mapsto> v)"
  by (induction k v m rule: put_entry.induct) auto

lemma put_entry_keys: "fst ` set (put_entry k v m) = insert k (fst ` set m)"
  by (induction k v m rule: put_entry.induct) auto

lemma put_entry_distinct: "distinct (map fst m) \<Longrightarrow> distinct (map fst (put_entry k v m))"
proof (induction k v m rule: put_entry.induct)
  case (2 k v k' v' m)
  then show ?case using put_entry_keys [of k v m] by (auto simp: image_iff)
qed simp

definition deployments_of :: "snapshot \<Rightarrow> string \<Rightarrow> deployment list" where
  "deployments_of snap m = (case map_of (models snap) m of None \<Rightarrow> [] | Some e \<Rightarrow> entry_deployments e)"

definition eligible_of :: "snapshot \<Rightarrow> route_request \<Rightarrow> string \<Rightarrow> deployment list" where
  "eligible_of snap req m = filter (eligible req) (deployments_of snap m)"

lemma build_models_lookup:
  "(case map_of (build_models ms ds) m of None \<Rightarrow> [] | Some e \<Rightarrow> entry_deployments e) =
     (case map_of ms m of None \<Rightarrow> [] | Some e \<Rightarrow> entry_deployments e) @ filter (\<lambda>d. model_name d = m) ds"
proof (induction ms ds rule: build_models.induct)
  case (2 ms d ds)
  then show ?case by (cases "map_of ms (model_name d)") (auto simp: Let_def entry_push_def entry_new_def)
qed simp

lemma build_deployments_of [simp]:
  "deployments_of (build ds fbs als st) m = filter (\<lambda>d. model_name d = m) ds"
  using build_models_lookup [of "[]" ds m] by (simp add: deployments_of_def build_def)

lemma build_simps [simp]:
  "fallbacks (build ds fbs als st) = fbs" "aliases (build ds fbs als st) = als"
  "snap_strategy (build ds fbs als st) = st"
  by (simp_all add: build_def)

lemma build_models_keys: "fst ` set (build_models ms ds) = fst ` set ms \<union> model_name ` set ds"
  by (induction ms ds rule: build_models.induct) (auto simp: Let_def put_entry_keys)

lemma build_models_distinct: "distinct (map fst ms) \<Longrightarrow> distinct (map fst (build_models ms ds))"
  by (induction ms ds rule: build_models.induct) (simp_all add: Let_def put_entry_distinct)

text \<open>The table a router serves from: the deployments of each name, whatever the counters.\<close>
definition same_table :: "snapshot \<Rightarrow> snapshot \<Rightarrow> bool" where
  "same_table a b \<longleftrightarrow> (\<forall>m. map_option entry_deployments (map_of (models a) m) =
     map_option entry_deployments (map_of (models b) m)) \<and>
     fallbacks a = fallbacks b \<and> aliases a = aliases b \<and> snap_strategy a = snap_strategy b"

lemma same_table_refl [simp]: "same_table a a"
  by (simp add: same_table_def)

lemma same_table_trans: "same_table a b \<Longrightarrow> same_table b c \<Longrightarrow> same_table a c"
  by (simp add: same_table_def)

lemma same_table_deployments:
  assumes "same_table a b"
  shows "deployments_of a m = deployments_of b m"
proof -
  have "map_option entry_deployments (map_of (models a) m) = map_option entry_deployments (map_of (models b) m)"
    using assms by (simp add: same_table_def)
  then show ?thesis by (auto simp: deployments_of_def split: option.splits)
qed

lemma same_table_eligible: "same_table a b \<Longrightarrow> eligible_of a req m = eligible_of b req m"
  by (simp add: eligible_of_def same_table_deployments)

lemma map_filter_indices: "map ((!) xs) (filter (\<lambda>i. P (xs ! i)) [0..<length xs]) = filter P xs"
proof -
  have "filter P xs = filter P (map ((!) xs) [0..<length xs])" by (simp add: map_nth)
  also have "\<dots> = map ((!) xs) (filter (\<lambda>i. P (xs ! i)) [0..<length xs])"
    by (simp add: filter_map comp_def)
  finally show ?thesis ..
qed

lemma survivors_deployments:
  "map ((!) (entry_deployments e)) (survivors_of req e) = filter (eligible req) (entry_deployments e)"
  unfolding survivors_of_def by (rule map_filter_indices)

text \<open>What one collection step adds.\<close>
lemma collect_spec:
  assumes "collect r m req (out, seen) = (acc, r')"
  obtains ordered where "mset ordered = mset (eligible_of (snapshot r) req m)"
    "acc = (out @ dedup_key dedup_of seen ordered, seen \<union> dedup_of ` set ordered)"
    "same_table (snapshot r) (snapshot r')"
proof (cases "map_of (models (snapshot r)) m")
  case None
  then show ?thesis using assms that [of "[]"]
    by (simp add: collect_def eligible_of_def deployments_of_def)
next
  case (Some e)
  have el: "eligible_of (snapshot r) req m = map ((!) (entry_deployments e)) (survivors_of req e)"
    using Some by (simp add: eligible_of_def deployments_of_def survivors_deployments)
  show ?thesis
  proof (cases "survivors_of req e = []")
    case True
    then show ?thesis using assms Some that [of "[]"] el by (simp add: collect_def)
  next
    case False
    obtain ordered e' x where o: "order_by (snap_strategy (snapshot r)) e (rng r) (survivors_of req e) =
        (ordered, e', x)" by (metis prod_cases3)
    have "mset ordered = mset (eligible_of (snapshot r) req m)"
      using order_by_mset [OF False, of "snap_strategy (snapshot r)" e "rng r"] o el by simp
    moreover have "entry_deployments e' = entry_deployments e"
      using order_by_deployments [of "snap_strategy (snapshot r)" e "rng r" "survivors_of req e"] o by simp
    ultimately show ?thesis
      using assms Some False o that [of ordered] by (auto simp: collect_def Let_def same_table_def)
  qed
qed

lemma collect_all_spec:
  assumes "collect_all r ms req (out, seen) = (acc, r')"
  shows "\<exists>ords. list_all2 (\<lambda>m ordered. mset ordered = mset (eligible_of (snapshot r) req m)) ms ords \<and>
    acc = (out @ dedup_key dedup_of seen (concat ords), seen \<union> dedup_of ` set (concat ords)) \<and>
    same_table (snapshot r) (snapshot r')"
  using assms
proof (induction ms arbitrary: r out seen)
  case (Cons m ms)
  obtain acc1 r1 where c: "collect r m req (out, seen) = (acc1, r1)" by fastforce
  obtain ordered where o: "mset ordered = mset (eligible_of (snapshot r) req m)"
    "acc1 = (out @ dedup_key dedup_of seen ordered, seen \<union> dedup_of ` set ordered)"
    "same_table (snapshot r) (snapshot r1)" using collect_spec [OF c] .
  have "collect_all r1 ms req (out @ dedup_key dedup_of seen ordered, seen \<union> dedup_of ` set ordered) = (acc, r')"
    using Cons.prems c o(2) by simp
  from Cons.IH [OF this] obtain ords where
    "list_all2 (\<lambda>m ordered. mset ordered = mset (eligible_of (snapshot r1) req m)) ms ords"
    "acc = ((out @ dedup_key dedup_of seen ordered) @ dedup_key dedup_of (seen \<union> dedup_of ` set ordered) (concat ords),
      (seen \<union> dedup_of ` set ordered) \<union> dedup_of ` set (concat ords))"
    "same_table (snapshot r1) (snapshot r')" by blast
  then show ?case
    using o same_table_eligible [OF o(3)] same_table_trans
    by (intro exI [of _ "ordered # ords"]) (auto simp: dedup_key_append image_Un Un_assoc)
qed auto

definition fallbacks_of :: "snapshot \<Rightarrow> string \<Rightarrow> string list" where
  "fallbacks_of snap m = (case fallbacks snap m of None \<Rightarrow> [] | Some fbs \<Rightarrow> fbs)"

text \<open>
  The candidates of a request: the eligible deployments of the canonical model in some order, then
  those of its fallbacks in turn, each key kept once.
\<close>
lemma resolve_spec:
  assumes "resolve r req = (res, r')"
  obtains prim ords where
    "mset prim = mset (eligible_of (snapshot r) req (canonical (snapshot r) (requested_model req)))"
    "list_all2 (\<lambda>m ordered. mset ordered = mset (eligible_of (snapshot r) req m))
       (fallbacks_of (snapshot r) (canonical (snapshot r) (requested_model req))) ords"
    "dedup_key dedup_of {} (prim @ concat ords) = [] \<and> res = Inl (NoEligibleProvider (requested_model req)) \<or>
     dedup_key dedup_of {} (prim @ concat ords) \<noteq> [] \<and>
       (\<exists>d. res = Inr d \<and> candidates d = dedup_key dedup_of {} (prim @ concat ords))"
    "same_table (snapshot r) (snapshot r')"
proof -
  let ?m = "canonical (snapshot r) (requested_model req)"
  obtain acc1 r1 where c: "collect r ?m req ([], {}) = (acc1, r1)" by fastforce
  obtain prim where p: "mset prim = mset (eligible_of (snapshot r) req ?m)"
    "acc1 = ([] @ dedup_key dedup_of {} prim, {} \<union> dedup_of ` set prim)"
    "same_table (snapshot r) (snapshot r1)" using collect_spec [OF c] .
  define fbs where "fbs = fallbacks_of (snapshot r) ?m"
  obtain acc2 r2 where f: "collect_all r1 fbs req acc1 = (acc2, r2)" by fastforce
  then obtain ords where ords:
    "list_all2 (\<lambda>m ordered. mset ordered = mset (eligible_of (snapshot r1) req m)) fbs ords"
    "acc2 = (dedup_key dedup_of {} prim @ dedup_key dedup_of (dedup_of ` set prim) (concat ords),
       dedup_of ` set prim \<union> dedup_of ` set (concat ords))"
    "same_table (snapshot r1) (snapshot r2)"
    using collect_all_spec [of r1 fbs req "dedup_key dedup_of {} prim" "dedup_of ` set prim" acc2 r2] p(2)
    by auto
  have two: "(case fallbacks (snapshot r) ?m of None \<Rightarrow> (acc1, r1) | Some fbs \<Rightarrow> collect_all r1 fbs req acc1)
      = (acc2, r2)"
    using f by (auto simp: fbs_def fallbacks_of_def split: option.splits)
  have acc2: "fst acc2 = dedup_key dedup_of {} (prim @ concat ords)"
    using ords(2) by (simp add: dedup_key_append)
  have res: "(res, r') = (if fst acc2 = [] then (Inl (NoEligibleProvider (requested_model req)), r2)
      else (Inr \<lparr>candidates = fst acc2, reason = decision_reason req (length (fst acc2)) (snap_strategy (snapshot r))\<rparr>, r2))"
    using assms two c by (cases acc2) (auto simp: resolve_def Let_def split: if_splits)
  show ?thesis
  proof (rule that [of prim ords])
    show "list_all2 (\<lambda>m ordered. mset ordered = mset (eligible_of (snapshot r) req m))
       (fallbacks_of (snapshot r) ?m) ords"
      using ords(1) same_table_eligible [OF p(3)] by (simp add: fbs_def)
  qed (use p(1,3) ords(3) res acc2 same_table_trans in \<open>auto split: if_splits\<close>)
qed

section \<open>The routing contract\<close>

text \<open>
  What the request handlers rely on: a decision is never empty, every candidate passes the filters
  of the request, no binding is offered twice, and a refusal names the requested model.
\<close>
locale routing_contract =
  fixes route :: "'r \<Rightarrow> route_request \<Rightarrow> decision result \<times> 'r"
  assumes route_nonempty: "route r req = (Inr d, r') \<Longrightarrow> candidates d \<noteq> []"
    and route_eligible: "route r req = (Inr d, r') \<Longrightarrow> c \<in> set (candidates d) \<Longrightarrow> eligible req c"
    and route_distinct: "route r req = (Inr d, r') \<Longrightarrow> distinct (map dedup_of (candidates d))"
    and route_error: "route r req = (Inl e, r') \<Longrightarrow> e = NoEligibleProvider (requested_model req)"
begin

lemma route_provider_allowed:
  assumes "route r req = (Inr d, r')" "c \<in> set (candidates d)"
  shows "provider_id c \<notin> set (denied_provider_ids_req req)"
    and "enabled_provider_ids req = Some en \<Longrightarrow> provider_id c \<in> set en"
    and "model_id c \<notin> set (excluded_model_ids req)"
  using route_eligible [OF assms] by (auto simp: eligible_def split: if_splits)

lemma route_candidates_distinct: "route r req = (Inr d, r') \<Longrightarrow> distinct (candidates d)"
  by (drule route_distinct) (simp add: distinct_map)

lemma route_error_status: "route r req = (Inl e, r') \<Longrightarrow> http_status e = 400"
  by (drule route_error) simp

end

lemma list_all2_concat_set:
  "list_all2 (\<lambda>m os. mset os = mset (f m)) ms ords \<Longrightarrow> set (concat ords) = (\<Union>m \<in> set ms. set (f m))"
  by (induction ms ords rule: list_all2_induct) (auto dest: mset_eq_setD)

text \<open>Every deployment a request may be sent to: of the canonical model and of its fallbacks.\<close>
definition reachable_deployments :: "snapshot \<Rightarrow> route_request \<Rightarrow> deployment set" where
  "reachable_deployments snap req =
     (\<Union>m \<in> set (canonical snap (requested_model req) #
         fallbacks_of snap (canonical snap (requested_model req))). set (eligible_of snap req m))"

lemma resolve_candidates:
  assumes "resolve r req = (Inr d, r')"
  shows "candidates d \<noteq> []" "distinct (map dedup_of (candidates d))"
    "set (candidates d) \<subseteq> reachable_deployments (snapshot r) req"
    "dedup_of ` set (candidates d) = dedup_of ` reachable_deployments (snapshot r) req"
proof -
  obtain prim ords where
    p: "mset prim = mset (eligible_of (snapshot r) req (canonical (snapshot r) (requested_model req)))"
    and o: "list_all2 (\<lambda>m ordered. mset ordered = mset (eligible_of (snapshot r) req m))
       (fallbacks_of (snapshot r) (canonical (snapshot r) (requested_model req))) ords"
    and d: "candidates d = dedup_key dedup_of {} (prim @ concat ords)" "candidates d \<noteq> []"
    by (rule resolve_spec [OF assms]) auto
  have set: "set (prim @ concat ords) = reachable_deployments (snapshot r) req"
    using mset_eq_setD [OF p] list_all2_concat_set [OF o] by (simp add: reachable_deployments_def)
  show "candidates d \<noteq> []" by (rule d(2))
  show "distinct (map dedup_of (candidates d))" unfolding d(1) by (rule dedup_key_distinct)
  show "set (candidates d) \<subseteq> reachable_deployments (snapshot r) req"
    unfolding d(1) set [symmetric] by (rule dedup_key_set)
  show "dedup_of ` set (candidates d) = dedup_of ` reachable_deployments (snapshot r) req"
    unfolding d(1) dedup_key_image set by simp
qed

lemma resolve_error:
  assumes "resolve r req = (Inl e, r')"
  shows "e = NoEligibleProvider (requested_model req)" "reachable_deployments (snapshot r) req = {}"
proof -
  obtain prim ords where
    p: "mset prim = mset (eligible_of (snapshot r) req (canonical (snapshot r) (requested_model req)))"
    and o: "list_all2 (\<lambda>m ordered. mset ordered = mset (eligible_of (snapshot r) req m))
       (fallbacks_of (snapshot r) (canonical (snapshot r) (requested_model req))) ords"
    and d: "dedup_key dedup_of {} (prim @ concat ords) = []" "e = NoEligibleProvider (requested_model req)"
    by (rule resolve_spec [OF assms]) auto
  have "dedup_of ` set (prim @ concat ords) = {}"
    using dedup_key_image [of dedup_of "{}" "prim @ concat ords"] d(1) by simp
  then have "set (prim @ concat ords) = {}" by blast
  moreover have "set (prim @ concat ords) = reachable_deployments (snapshot r) req"
    using mset_eq_setD [OF p] list_all2_concat_set [OF o] by (simp add: reachable_deployments_def)
  ultimately show "reachable_deployments (snapshot r) req = {}" by (simp only:)
  show "e = NoEligibleProvider (requested_model req)" by (rule d(2))
qed

lemma reachable_eligible: "c \<in> reachable_deployments snap req \<Longrightarrow> eligible req c"
  by (auto simp: reachable_deployments_def eligible_of_def)

interpretation router: routing_contract resolve
proof
  fix r req d r' c
  assume "resolve r req = (Inr d, r')" "c \<in> set (candidates d)"
  then show "eligible req c" using resolve_candidates(3) reachable_eligible by blast
qed (simp_all add: resolve_candidates(1,2) resolve_error(1))

lemma resolve_same_table: "same_table (snapshot r) (snapshot (snd (resolve r req)))"
  by (rule resolve_spec [of r req "fst (resolve r req)" "snd (resolve r req)"]) simp_all

section \<open>The alias walk\<close>

lemma canonical_walk_model: "map_of (models snap) name \<noteq> None \<Longrightarrow> canonical_walk snap n name = name"
  by (cases n) auto

text \<open>The names the walk visits.\<close>
inductive alias_path :: "snapshot \<Rightarrow> nat \<Rightarrow> string \<Rightarrow> string \<Rightarrow> bool" for snap where
  alias_refl: "alias_path snap 0 name name"
| alias_hop: "map_of (models snap) name = None \<Longrightarrow> aliases snap name = Some target \<Longrightarrow>
    alias_path snap n target final \<Longrightarrow> alias_path snap (Suc n) name final"

lemma canonical_walk_path:
  "\<exists>k \<le> n. alias_path snap k name (canonical_walk snap n name) \<and>
     (k = n \<or> map_of (models snap) (canonical_walk snap n name) \<noteq> None \<or>
      aliases snap (canonical_walk snap n name) = None)"
proof (induction snap n name rule: canonical_walk.induct)
  case (1 snap name)
  then show ?case by (auto intro: alias_refl)
next
  case (2 snap n name)
  show ?case
  proof (cases "map_of (models snap) name = None \<and> aliases snap name \<noteq> None")
    case True
    then obtain target where t: "map_of (models snap) name = None" "aliases snap name = Some target" by auto
    with 2 obtain k where k: "k \<le> n" "alias_path snap k target (canonical_walk snap n target)"
      "k = n \<or> map_of (models snap) (canonical_walk snap n target) \<noteq> None \<or>
       aliases snap (canonical_walk snap n target) = None" by blast
    with t show ?thesis by (intro exI [of _ "Suc k"]) (auto intro: alias_hop)
  next
    case False
    then have "canonical_walk snap (Suc n) name = name" by auto
    with False show ?thesis by (intro exI [of _ 0]) (auto intro: alias_refl)
  qed
qed

section \<open>Round robin\<close>

text \<open>The first choices of \<open>n\<close> successive round-robin orderings of the same survivors.\<close>
fun first_choices :: "strategy \<Rightarrow> model_entry \<Rightarrow> 64 word \<Rightarrow> nat list \<Rightarrow> nat \<Rightarrow> deployment list" where
  "first_choices st e x sv 0 = []"
| "first_choices st e x sv (Suc n) =
     (let (ds, e, x) = order_by st e x sv in hd ds # first_choices st e x sv n)"

lemma round_robin_hd:
  assumes "sv \<noteq> []"
  shows "hd (fst (order_by RoundRobin e x sv)) =
    entry_deployments e ! (sv ! (unat (rr e) mod length sv))"
  using assms by (simp add: Let_def upt_rec [of 0])

lemma first_choices_round_robin:
  assumes "sv \<noteq> []"
  shows "unat (rr e) + n \<le> 2 ^ 64 \<Longrightarrow> first_choices RoundRobin e x sv n =
    map (\<lambda>j. entry_deployments e ! (sv ! ((unat (rr e) + j) mod length sv))) [0..<n]"
proof (induction n arbitrary: e)
  case (Suc n)
  let ?e = "e\<lparr>rr := rr e + 1\<rparr>"
  have step: "first_choices RoundRobin e x sv (Suc n) =
      hd (fst (order_by RoundRobin e x sv)) # first_choices RoundRobin ?e x sv n"
    by (simp add: Let_def)
  show ?case
  proof (cases n)
    case 0
    then show ?thesis using step round_robin_hd [OF assms, of e x] by (simp del: order_by.simps)
  next
    case (Suc m)
    have "unat (rr e + 1) = unat (rr e) + 1"
      using Suc.prems Suc by (simp add: unat_word_ariths(1))
    then have "first_choices RoundRobin ?e x sv n =
        map (\<lambda>j. entry_deployments e ! (sv ! ((unat (rr e) + Suc j) mod length sv))) [0..<n]"
      using Suc.IH [of ?e] Suc.prems by simp
    then show ?thesis
      using step round_robin_hd [OF assms, of e x]
      by (simp add: upt_conv_Cons map_Suc_upt [symmetric] comp_def del: order_by.simps upt_Suc)
  qed
qed simp

section \<open>The weighted shuffle\<close>

lemma next_unit_range: "0 \<le> fst (next_unit x)" "fst (next_unit x) < 1"
proof -
  have "unat (drop_bit 11 (xorshift x)) = unat (xorshift x) div 2 ^ 11"
    unfolding unat_drop_bit_eq by (rule drop_bit_eq_div)
  moreover have "unat (xorshift x) < 2 ^ 64" using unsigned_less [of "xorshift x"] by simp
  ultimately have "unat (drop_bit 11 (xorshift x)) < 2 ^ 53" by simp
  then have "(of_nat (unat (drop_bit 11 (xorshift x))) :: rat) < of_nat (2 ^ 53)"
    by (simp only: of_nat_less_iff)
  then show "fst (next_unit x) < 1" by (simp add: next_unit_def Let_def)
  show "0 \<le> fst (next_unit x)"
    unfolding next_unit_def Let_def fst_conv by (intro divide_nonneg_nonneg of_nat_0_le_iff) simp
qed

text \<open>The comparison of keys is the comparison of the roots the code computes.\<close>
lemma key_greater_root:
  assumes "0 \<le> u" "0 \<le> v" "0 < w" "0 < x"
  shows "key_greater (u, w) (v, x) \<longleftrightarrow> root w (of_rat u) > root x (of_rat v)"
proof -
  let ?a = "root w (of_rat u)" and ?b = "root x (of_rat v)"
  have nn: "0 \<le> ?a" "0 \<le> ?b" using assms by simp_all
  have "?a ^ w = of_rat u" "?b ^ x = of_rat v" using assms by (simp_all add: real_root_pow_pos2)
  then have "?a ^ (w * x) = of_rat u ^ x" "?b ^ (w * x) = of_rat v ^ w"
    by (simp add: power_mult, metis mult.commute power_mult)
  moreover have "?a ^ (w * x) \<le> ?b ^ (w * x) \<longleftrightarrow> ?a \<le> ?b"
    using nn assms by (intro power_mono_iff) simp_all
  ultimately have "?a \<le> ?b \<longleftrightarrow> of_rat (u ^ x) \<le> (of_rat (v ^ w) :: real)"
    by (simp add: of_rat_power)
  then show ?thesis by (auto simp: key_greater_def of_rat_less_eq not_le [symmetric])
qed

section \<open>Properties\<close>

text \<open>C4: A decision is never empty and holds only deployments of the canonical model or of its
  fallbacks that the request permits (model not excluded, provider enabled and not denied); no
  binding appears twice, and every permitted binding appears.\<close>
theorem resolve_sound_complete:
  assumes "resolve r req = (Inr d, r')"
  shows "candidates d \<noteq> [] \<and> distinct (map dedup_of (candidates d)) \<and>
    (\<forall>c \<in> set (candidates d). c \<in> reachable_deployments (snapshot r) req \<and>
       model_id c \<notin> set (excluded_model_ids req) \<and>
       provider_id c \<notin> set (denied_provider_ids_req req) \<and>
       (\<forall>en. enabled_provider_ids req = Some en \<longrightarrow> provider_id c \<in> set en)) \<and>
    dedup_of ` set (candidates d) = dedup_of ` reachable_deployments (snapshot r) req"
  using resolve_candidates [OF assms] router.route_provider_allowed [OF assms] by blast

definition sample_deployment :: "string \<Rightarrow> string \<Rightarrow> deployment" where
  "sample_deployment m p =
     \<lparr>model_id = ''id-'' @ m, model_name = m, provider_id = ''id-'' @ p, provider = p,
      upstream_model = m, api_base = None, api_key = None, upstream_format = Chat OpenaiChat,
      weight = 1, pricing = None, health_check = HealthNone, health_path = None,
      extra = extra_default\<rparr>"

definition sample_router :: "strategy \<Rightarrow> deployment_router" where
  "sample_router st = with_snapshot 0 (build
     [sample_deployment ''m'' ''p'', sample_deployment ''m'' ''q'', sample_deployment ''f'' ''p'']
     [''m'' \<mapsto> [''f'']] [''a'' \<mapsto> ''m''] st)"

definition sample_request :: "string \<Rightarrow> string list \<Rightarrow> route_request" where
  "sample_request m denied =
     \<lparr>requested_model = m, estimated_input_tokens = 0, has_tools = False, has_images = False,
      excluded_model_ids = [], enabled_provider_ids = None, denied_provider_ids_req = denied,
      preferred_models = []\<rparr>"

lemma sample_resolves:
  "\<exists>d r'. resolve (sample_router RoundRobin) (sample_request ''a'' [''id-q'']) = (Inr d, r') \<and>
     candidates d = [sample_deployment ''m'' ''p'', sample_deployment ''f'' ''p'']"
proof -
  have "fst (resolve (sample_router RoundRobin) (sample_request ''a'' [''id-q''])) =
    Inr \<lparr>candidates = [sample_deployment ''m'' ''p'', sample_deployment ''f'' ''p''],
      reason = decision_reason (sample_request ''a'' [''id-q'']) 2 RoundRobin\<rparr>"
    by code_simp
  then show ?thesis by (metis prod.collapse decision.select_convs(1))
qed

theorem resolve_sound_complete_witness:
  "\<exists>d r'. resolve (sample_router RoundRobin) (sample_request ''a'' [''id-q'']) = (Inr d, r') \<and>
     distinct (map dedup_of (candidates d)) \<and> length (candidates d) = 2"
  using sample_resolves resolve_sound_complete by fastforce

text \<open>Resolution fails exactly when no deployment of the model or of its fallbacks is permitted,
  and then with the error that names the requested model, never with an empty success.\<close>
theorem resolve_refuses_iff:
  "fst (resolve r req) = Inl (NoEligibleProvider (requested_model req)) \<longleftrightarrow>
     reachable_deployments (snapshot r) req = {}"
proof (cases "resolve r req")
  case (Pair res r')
  show ?thesis
  proof (cases res)
    case (Inl e)
    with Pair have "resolve r req = (Inl e, r')" by simp
    from resolve_error [OF this] Pair Inl show ?thesis by simp
  next
    case (Inr d)
    with Pair have "resolve r req = (Inr d, r')" by simp
    from resolve_candidates(1,3) [OF this] Pair Inr show ?thesis by auto
  qed
qed

text \<open>The candidates of the requested model come before every candidate a fallback adds, and
  the primary part is the model's permitted deployments in some order with each binding kept
  once.\<close>
theorem resolve_primary_first:
  assumes "resolve r req = (Inr d, r')"
  shows "\<exists>prim rest. candidates d = dedup_key dedup_of {} prim @ rest \<and>
    mset prim = mset (filter (eligible req)
      (deployments_of (snapshot r) (canonical (snapshot r) (requested_model req)))) \<and>
    set rest \<subseteq> (\<Union>m \<in> set (fallbacks_of (snapshot r) (canonical (snapshot r) (requested_model req))).
      set (filter (eligible req) (deployments_of (snapshot r) m)))"
proof -
  obtain prim ords where
    p: "mset prim = mset (eligible_of (snapshot r) req (canonical (snapshot r) (requested_model req)))"
    and o: "list_all2 (\<lambda>m ordered. mset ordered = mset (eligible_of (snapshot r) req m))
       (fallbacks_of (snapshot r) (canonical (snapshot r) (requested_model req))) ords"
    and d: "candidates d = dedup_key dedup_of {} (prim @ concat ords)"
    by (rule resolve_spec [OF assms]) auto
  have "set (dedup_key dedup_of (dedup_of ` set prim) (concat ords)) \<subseteq> set (concat ords)"
    by (rule dedup_key_set)
  with p d list_all2_concat_set [OF o] show ?thesis
    by (intro exI [of _ prim] exI [of _ "dedup_key dedup_of (dedup_of ` set prim) (concat ords)"])
       (simp add: dedup_key_append eligible_of_def)
qed

theorem resolve_primary_first_witness:
  "\<exists>d r' prim rest. resolve (sample_router RoundRobin) (sample_request ''a'' [''id-q'']) = (Inr d, r') \<and>
     candidates d = dedup_key dedup_of {} prim @ rest"
  using sample_resolves resolve_primary_first by blast

text \<open>Whatever the strategy, the ordering is a permutation of the survivors; round robin is the
  rotation by its counter, and least busy is sorted by load and charges the one it puts first.\<close>
theorem order_by_permutes:
  assumes "sv \<noteq> []"
  shows "mset (fst (order_by st e x sv)) = mset (map ((!) (entry_deployments e)) sv) \<and>
    fst (order_by RoundRobin e x sv) =
      map ((!) (entry_deployments e)) (rotate (unat (rr e) mod length sv) sv) \<and>
    (\<exists>idx. fst (order_by LeastBusy e x sv) = map ((!) (entry_deployments e)) idx \<and>
       sorted_wrt (\<lambda>i j. load e ! i \<le> load e ! j) idx \<and>
       load (fst (snd (order_by LeastBusy e x sv))) = (load e)[hd idx := load e ! hd idx + 1])"
proof (intro conjI)
  show "fst (order_by RoundRobin e x sv) =
      map ((!) (entry_deployments e)) (rotate (unat (rr e) mod length sv) sv)"
    using round_robin_rotate [OF assms, of "(!) (entry_deployments e)"] by (simp add: Let_def)
  let ?idx = "sort_by_load (load e) sv"
  have "sorted_wrt (\<lambda>i j. \<not> load e ! j < load e ! i) ?idx"
    unfolding sort_by_load_def by (rule sort_by_sorted) auto
  then have "sorted_wrt (\<lambda>i j. load e ! i \<le> load e ! j) ?idx" by (simp add: not_less)
  moreover have "?idx \<noteq> []" using assms by (simp add: sort_by_load_def)
  ultimately show "\<exists>idx. fst (order_by LeastBusy e x sv) = map ((!) (entry_deployments e)) idx \<and>
       sorted_wrt (\<lambda>i j. load e ! i \<le> load e ! j) idx \<and>
       load (fst (snd (order_by LeastBusy e x sv))) = (load e)[hd idx := load e ! hd idx + 1]"
    by (intro exI [of _ ?idx]) (auto simp: Let_def split: list.split)
qed (rule order_by_mset [OF assms])

theorem order_by_permutes_witness:
  "mset (fst (order_by Simple (snd (hd (models (snapshot (sample_router Simple))))) 7 [0, 1])) =
     {#sample_deployment ''m'' ''p'', sample_deployment ''m'' ''q''#}"
proof -
  have "map ((!) (entry_deployments (snd (hd (models (snapshot (sample_router Simple))))))) [0, 1] =
      [sample_deployment ''m'' ''p'', sample_deployment ''m'' ''q'']" by code_simp
  then show ?thesis
    using order_by_permutes [of "[0, 1]" Simple "snd (hd (models (snapshot (sample_router Simple))))" 7]
    by simp
qed

text \<open>Round robin is fair: over as many calls as there are survivors, each survivor is the first
  choice exactly once, as long as the 64-bit counter does not wrap in between.\<close>
theorem round_robin_fair:
  assumes "sv \<noteq> []" "unat (rr e) + length sv \<le> 2 ^ 64"
  shows "mset (first_choices RoundRobin e x sv (length sv)) = mset (map ((!) (entry_deployments e)) sv)"
proof -
  have "first_choices RoundRobin e x sv (length sv) =
      map ((!) (entry_deployments e)) (rotate (unat (rr e)) sv)"
    using first_choices_round_robin [OF assms] round_robin_rotate [OF assms(1), of "(!) (entry_deployments e)"]
    by simp
  then show ?thesis by (simp only: mset_map mset_rotate)
qed

theorem round_robin_fair_witness:
  "mset (first_choices RoundRobin \<lparr>entry_deployments = [sample_deployment ''m'' ''p'',
     sample_deployment ''m'' ''q''], rr = 5, load = [0, 0]\<rparr> 0 [0, 1] (Suc (Suc 0))) =
   {#sample_deployment ''m'' ''p'', sample_deployment ''m'' ''q''#}"
  using round_robin_fair [of "[0, 1]" "\<lparr>entry_deployments = [sample_deployment ''m'' ''p'',
     sample_deployment ''m'' ''q''], rr = 5, load = [0, 0]\<rparr>" 0]
  by (simp del: first_choices.simps)

text \<open>C13: A model's own name is never taken over by an alias; otherwise the walk follows at most
  eight aliases and stops at a model, at a name with no alias, or at the bound, so a cycle of
  aliases ends.\<close>
theorem canonical_bounded:
  "(map_of (models snap) name \<noteq> None \<longrightarrow> canonical snap name = name) \<and>
   (\<exists>k \<le> 8. alias_path snap k name (canonical snap name) \<and>
      (k = 8 \<or> map_of (models snap) (canonical snap name) \<noteq> None \<or> aliases snap (canonical snap name) = None))"
  unfolding canonical_def using canonical_walk_model canonical_walk_path by blast

theorem canonical_bounded_witness:
  "canonical (build [] Map.empty [''a'' \<mapsto> ''b'', ''b'' \<mapsto> ''a''] Simple) ''a'' = ''a'' \<and>
   canonical (snapshot (sample_router Simple)) ''m'' = ''m''"
proof -
  have "map_of (models (snapshot (sample_router Simple))) ''m'' \<noteq> None" by code_simp
  then have "canonical (snapshot (sample_router Simple)) ''m'' = ''m''" using canonical_bounded by blast
  moreover have "canonical (build [] Map.empty [''a'' \<mapsto> ''b'', ''b'' \<mapsto> ''a''] Simple) ''a'' = ''a''"
    by code_simp
  ultimately show ?thesis by simp
qed

text \<open>A reload replaces the table by the records given and nothing else: the deployments of a
  name are the records with that name in their order, the strategy and the fallbacks stay, and a
  resolution leaves the table of every name as it was.\<close>
theorem reload_table:
  "deployments_of (snapshot (reload r records als)) m =
     filter (\<lambda>d. model_name d = m) (map to_deployment records) \<and>
   snap_strategy (snapshot (reload r records als)) = snap_strategy (snapshot r) \<and>
   fallbacks (snapshot (reload r records als)) = fallbacks (snapshot r) \<and>
   aliases (snapshot (reload r records als)) = als \<and>
   deployments_of (snapshot (snd (resolve r req))) m = deployments_of (snapshot r) m"
  using same_table_deployments [OF resolve_same_table [of r req], of m]
  by (simp add: reload_def Let_def)

end
