(* ===== verification/Upstream_Route.thy ===== *)
theory Upstream_Route
  imports Core_Domain
begin

text \<open>
  URL and header construction per format and the status classifiers that drive failover, from
  \<open>crates/yb-providers/src/route.rs\<close>, and the extra headers of a deployment
  (\<open>Gateway::extra_headers\<close> of \<open>crates/yb-gateway/src/service.rs\<close>). The process environment is a
  parameter: the value of a variable, or \<open>None\<close> when it is unset.
\<close>

type_synonym header_list = "(string \<times> string) list"
type_synonym environment = "string \<Rightarrow> string option"

section \<open>URLs\<close>

definition anthropic_base :: string where "anthropic_base = ''https://api.anthropic.com''"
definition openai_base :: string where "openai_base = ''https://api.openai.com''"
definition gemini_base :: string where "gemini_base = ''https://generativelanguage.googleapis.com''"
definition cohere_base :: string where "cohere_base = ''https://api.cohere.com''"
definition voyage_base :: string where "voyage_base = ''https://api.voyageai.com''"
definition ollama_base :: string where "ollama_base = ''http://localhost:11434''"
definition anthropic_version :: string where "anthropic_version = ''2023-06-01''"

definition trim_base :: "string \<Rightarrow> string" where
  "trim_base base = (case strip_suffix base ''/'' of None \<Rightarrow> base | Some b \<Rightarrow> b)"

text \<open>The common tail of the builders: add the version segment unless the base ends in it.\<close>
definition join_version :: "string \<Rightarrow> string \<Rightarrow> string \<Rightarrow> string" where
  "join_version base version endpoint =
     (if base = version \<or> ends_with base (''/'' @ version)
      then base @ ''/'' @ endpoint
      else base @ ''/'' @ version @ ''/'' @ endpoint)"

fun chat_endpoint :: "wire_format \<Rightarrow> string \<Rightarrow> bool \<Rightarrow> string \<times> string \<times> string" where
  "chat_endpoint Anthropic m stream = (anthropic_base, ''v1'', ''messages'')"
| "chat_endpoint OpenaiChat m stream = (openai_base, ''v1'', ''chat/completions'')"
| "chat_endpoint OpenaiResponses m stream = (openai_base, ''v1'', ''responses'')"
| "chat_endpoint Gemini m stream =
     (gemini_base, ''v1beta'', ''models/'' @ m @
        (if stream then '':streamGenerateContent?alt=sse'' else '':generateContent''))"

definition build_url :: "wire_format \<Rightarrow> string option \<Rightarrow> string \<Rightarrow> bool \<Rightarrow> string" where
  "build_url fmt base m stream =
     (let (default_base, version, endpoint) = chat_endpoint fmt m stream;
          base = trim_base (case base of None \<Rightarrow> default_base | Some b \<Rightarrow> b)
      in join_version base version endpoint)"

fun embed_endpoint :: "embed_format \<Rightarrow> string \<Rightarrow> string \<times> string \<times> string" where
  "embed_endpoint OpenaiEmbed m = (openai_base, ''v1'', ''embeddings'')"
| "embed_endpoint GeminiEmbed m = (gemini_base, ''v1beta'', ''models/'' @ m @ '':batchEmbedContents'')"
| "embed_endpoint CohereEmbed m = (cohere_base, ''v2'', ''embed'')"
| "embed_endpoint VoyageEmbed m = (voyage_base, ''v1'', ''multimodalembeddings'')"
| "embed_endpoint OllamaEmbed m = (ollama_base, ''api'', ''embed'')"

definition build_embed_url :: "embed_format \<Rightarrow> string option \<Rightarrow> string \<Rightarrow> string" where
  "build_embed_url fmt base m =
     (let (default_base, version, endpoint) = embed_endpoint fmt m;
          base = trim_base (case base of None \<Rightarrow> default_base | Some b \<Rightarrow> b)
      in join_version base version endpoint)"

definition build_media_url :: "media_format \<Rightarrow> string option \<Rightarrow> string" where
  "build_media_url fmt base =
     (let base = trim_base (case base of None \<Rightarrow> openai_base | Some b \<Rightarrow> b)
      in if base = ''v1'' \<or> ends_with base ''/v1''
         then base @ ''/'' @ media_path fmt else base @ ''/v1/'' @ media_path fmt)"

section \<open>Headers\<close>

definition upstream_secret :: "environment \<Rightarrow> string \<Rightarrow> string" where
  "upstream_secret env key =
     (case strip_prefix key ''env:'' of
        Some name \<Rightarrow> (case env name of None \<Rightarrow> [] | Some v \<Rightarrow> v)
      | None \<Rightarrow> key)"

fun auth_headers :: "environment \<Rightarrow> wire_format \<Rightarrow> string \<Rightarrow> header_list" where
  "auth_headers env Anthropic key =
     [(''x-api-key'', upstream_secret env key), (''anthropic-version'', anthropic_version)]"
| "auth_headers env OpenaiChat key = [(''authorization'', ''Bearer '' @ upstream_secret env key)]"
| "auth_headers env OpenaiResponses key = [(''authorization'', ''Bearer '' @ upstream_secret env key)]"
| "auth_headers env Gemini key = [(''x-goog-api-key'', upstream_secret env key)]"

definition embed_auth_headers :: "environment \<Rightarrow> embed_format \<Rightarrow> string \<Rightarrow> header_list" where
  "embed_auth_headers env fmt key =
     (let secret = upstream_secret env key in
      if fmt = GeminiEmbed then [(''x-goog-api-key'', secret)]
      else if fmt = OllamaEmbed \<and> secret = [] then []
      else [(''authorization'', ''Bearer '' @ secret)])"

definition media_auth_headers :: "environment \<Rightarrow> string \<Rightarrow> header_list" where
  "media_auth_headers env key = [(''authorization'', ''Bearer '' @ upstream_secret env key)]"

definition cloudflare_access_headers :: "string \<Rightarrow> string \<Rightarrow> header_list" where
  "cloudflare_access_headers cid secret =
     [(''cf-access-client-id'', cid), (''cf-access-client-secret'', secret)]"

fun append_headers :: "header_list \<Rightarrow> header_list \<Rightarrow> header_list" where
  "append_headers hs [] = hs"
| "append_headers hs ((name, v) # rs) =
     (let dup = list_ex (\<lambda>(existing, _). eq_ignore_ascii_case existing name) hs
      in append_headers (if dup then hs else hs @ [(name, v)]) rs)"

text \<open>The token of the gateway file, present only when both halves are.\<close>
definition with_cloudflare_access :: "cloudflare_access_config option \<Rightarrow> cloudflare_access_config option" where
  "with_cloudflare_access cfg =
     (case cfg of None \<Rightarrow> None | Some c \<Rightarrow> if is_complete c then Some c else None)"

definition extra_headers :: "cloudflare_access_config option \<Rightarrow> extra \<Rightarrow> header_list" where
  "extra_headers cf e =
     (if cloudflare_access e then
        (case cf of Some c \<Rightarrow> cloudflare_access_headers (client_id c) (client_secret c) | None \<Rightarrow> [])
      else []) @
     map (\<lambda>(k, v). (to_ascii_lowercase k, v)) (headers e)"

definition is_retryable :: "16 word \<Rightarrow> bool" where
  "is_retryable status \<longleftrightarrow> status \<ge> 500 \<or> status = 408 \<or> status = 429"

definition is_model_not_found :: "16 word \<Rightarrow> bool" where
  "is_model_not_found status \<longleftrightarrow> status = 404"

section \<open>Lemmas\<close>

definition header_named :: "string \<Rightarrow> string \<times> string \<Rightarrow> bool" where
  "header_named name h \<longleftrightarrow> eq_ignore_ascii_case (fst h) name"

text \<open>The value a receiver that takes the first header of a name sees.\<close>
definition header_value :: "header_list \<Rightarrow> string \<Rightarrow> string option" where
  "header_value hs name = map_option snd (find (header_named name) hs)"

definition unique_names :: "header_list \<Rightarrow> bool" where
  "unique_names hs \<longleftrightarrow> distinct (map (to_ascii_lowercase \<circ> fst) hs)"

lemma append_dup: "list_ex (\<lambda>(existing, _). eq_ignore_ascii_case existing name) hs \<longleftrightarrow>
    to_ascii_lowercase name \<in> set (map (to_ascii_lowercase \<circ> fst) hs)"
  by (induction hs) (auto simp: eq_ignore_ascii_case_def)

lemma append_headers_prefix: "\<exists>added. append_headers hs ex = hs @ added \<and> set added \<subseteq> set ex"
proof (induction hs ex rule: append_headers.induct)
  case (2 hs name v rs)
  show ?case
  proof (cases "list_ex (\<lambda>(existing, _). eq_ignore_ascii_case existing name) hs")
    case True
    with 2 show ?thesis by (fastforce simp: Let_def)
  next
    case False
    with 2 obtain added where "append_headers (hs @ [(name, v)]) rs = (hs @ [(name, v)]) @ added"
      "set added \<subseteq> set rs" by (auto simp: Let_def)
    with False show ?thesis by (intro exI [of _ "(name, v) # added"]) (auto simp: Let_def)
  qed
qed simp

lemma append_headers_unique: "unique_names hs \<Longrightarrow> unique_names (append_headers hs ex)"
proof (induction hs ex rule: append_headers.induct)
  case (2 hs name v rs)
  then show ?case unfolding append_headers.simps Let_def append_dup
    by (auto simp: unique_names_def)
qed simp

lemma find_append_prefix: "find P xs \<noteq> None \<Longrightarrow> find P (xs @ ys) = find P xs"
  by (induction xs) auto

lemma append_headers_value:
  assumes "header_value hs name = Some v"
  shows "header_value (append_headers hs ex) name = Some v"
proof -
  obtain added where "append_headers hs ex = hs @ added" using append_headers_prefix by blast
  with assms show ?thesis by (auto simp: header_value_def find_append_prefix)
qed

lemma append_headers_covers:
  "(n, v) \<in> set ex \<Longrightarrow>
   to_ascii_lowercase n \<in> set (map (to_ascii_lowercase \<circ> fst) (append_headers hs ex))"
proof (induction hs ex rule: append_headers.induct)
  case (2 hs name w rs)
  let ?hs = "if list_ex (\<lambda>(existing, _). eq_ignore_ascii_case existing name) hs then hs else hs @ [(name, w)]"
  obtain added where a: "append_headers ?hs rs = ?hs @ added" using append_headers_prefix by blast
  have "to_ascii_lowercase name \<in> set (map (to_ascii_lowercase \<circ> fst) ?hs)"
    using append_dup [of name hs] by auto
  then have "to_ascii_lowercase name \<in> set (map (to_ascii_lowercase \<circ> fst) (append_headers ?hs rs))"
    unfolding a by auto
  with 2 show ?case by (auto simp: Let_def)
qed simp

lemma trim_base_slash [simp]: "trim_base (b @ ''/'') = b"
  by (simp add: trim_base_def)

lemma trim_base_id: "\<not> ends_with b ''/'' \<Longrightarrow> trim_base b = b"
  by (simp add: trim_base_def strip_suffix_def)

lemma join_version_styles:
  assumes "b \<noteq> version" "\<not> ends_with b (''/'' @ version)"
  shows "join_version (b @ ''/'' @ version) version endpoint = join_version b version endpoint"
  using assms by (simp add: join_version_def ends_with_iff)

lemma ends_with_slash_version:
  assumes "version \<noteq> []" "last version \<noteq> CHR ''/''"
  shows "\<not> ends_with (b @ ''/'' @ version) ''/''"
proof
  assume "ends_with (b @ ''/'' @ version) ''/''"
  then obtain t where "b @ ''/'' @ version = t @ ''/''" by (auto simp: ends_with_iff)
  then have "last (b @ ''/'' @ version) = CHR ''/''" by simp
  with assms show False by simp
qed

lemma ascii_lower_names:
  "to_ascii_lowercase ''authorization'' = ''authorization''"
  "to_ascii_lowercase ''x-api-key'' = ''x-api-key''"
  "to_ascii_lowercase ''anthropic-version'' = ''anthropic-version''"
  "to_ascii_lowercase ''x-goog-api-key'' = ''x-goog-api-key''"
  "to_ascii_lowercase ''cf-access-client-id'' = ''cf-access-client-id''"
  "to_ascii_lowercase ''cf-access-client-secret'' = ''cf-access-client-secret''"
  "to_ascii_lowercase ''CF-Access-Client-Id'' = ''cf-access-client-id''"
  "to_ascii_lowercase ''CF-Access-Client-Secret'' = ''cf-access-client-secret''"
  by code_simp+

lemma chat_version: "fst (snd (chat_endpoint fmt m st)) \<in> {''v1'', ''v1beta''}"
  by (cases fmt) auto

section \<open>Properties\<close>

text \<open>A base URL may carry the version segment, a trailing slash, both or neither: all four
  spellings of a base give the same request URL, and the version appears once.\<close>
theorem build_url_base_styles:
  assumes "ver = fst (snd (chat_endpoint fmt m st))"
    and "b \<noteq> ver" "\<not> ends_with b (''/'' @ ver)" "\<not> ends_with b ''/''"
  shows "build_url fmt (Some b) m st = b @ ''/'' @ ver @ ''/'' @ snd (snd (chat_endpoint fmt m st)) \<and>
    build_url fmt (Some (b @ ''/'')) m st = build_url fmt (Some b) m st \<and>
    build_url fmt (Some (b @ ''/'' @ ver)) m st = build_url fmt (Some b) m st \<and>
    build_url fmt (Some ((b @ ''/'' @ ver) @ ''/'')) m st = build_url fmt (Some b) m st"
proof -
  have v: "ver \<noteq> []" "last ver \<noteq> CHR ''/''"
    using chat_version [of fmt m st] assms(1) by auto
  have url: "build_url fmt (Some c) m st = join_version (trim_base c) ver (snd (snd (chat_endpoint fmt m st)))"
    for c using assms(1) by (simp add: build_url_def split: prod.split)
  have j: "join_version b ver e = b @ ''/'' @ ver @ ''/'' @ e" for e
    using assms(2,3) by (simp add: join_version_def)
  show ?thesis
    unfolding url trim_base_slash trim_base_id [OF assms(4)]
      trim_base_id [OF ends_with_slash_version [OF v]] join_version_styles [OF assms(2,3)] j
    by simp
qed

theorem build_url_base_styles_witness:
  "build_url OpenaiResponses (Some ''https://host/v1'') ''m'' True = ''https://host/v1/responses''"
  using build_url_base_styles [of "''v1''" OpenaiResponses "''m''" True "''https://host''"]
  by (simp add: ends_with_def)

text \<open>Headers a deployment's row adds never displace one already there: every earlier header
  keeps its place and value, a name that was unique stays unique under any spelling of case, and
  an added header is one the row asked for.\<close>
theorem append_headers_first_writer_wins:
  "(\<exists>added. append_headers hs ex = hs @ added \<and> set added \<subseteq> set ex) \<and>
   (unique_names hs \<longrightarrow> unique_names (append_headers hs ex)) \<and>
   (\<forall>name v. header_value hs name = Some v \<longrightarrow> header_value (append_headers hs ex) name = Some v)"
  using append_headers_prefix append_headers_unique append_headers_value by blast

theorem append_headers_first_writer_wins_witness:
  "header_value (append_headers [(''authorization'', ''Bearer k'')]
     [(''Authorization'', ''forged''), (''x-tenant'', ''acme'')]) ''AUTHORIZATION'' = Some ''Bearer k''"
proof -
  have "header_value [(''authorization'', ''Bearer k'')] ''AUTHORIZATION'' = Some ''Bearer k''"
    by code_simp
  then show ?thesis using append_headers_first_writer_wins by blast
qed

text \<open>The request headers of a chat deployment carry the format's credential and, when the row
  asks for it and the file has a token, the file's Cloudflare pair; no literal header of the row
  can change any of them.\<close>
theorem edge_credentials_not_forgeable:
  assumes "cloudflare_access e" "cf = Some c" "(n, v) \<in> set (auth_headers env fmt key)"
  shows "header_value (append_headers (auth_headers env fmt key) (extra_headers cf e)) n = Some v \<and>
    header_value (append_headers (auth_headers env fmt key) (extra_headers cf e)) ''CF-Access-Client-Id'' =
      Some (client_id c) \<and>
    header_value (append_headers (auth_headers env fmt key) (extra_headers cf e)) ''CF-Access-Client-Secret'' =
      Some (client_secret c)"
proof -
  let ?hs = "auth_headers env fmt key"
  have v: "header_value ?hs n = Some v"
    using assms(3) by (cases fmt) (auto simp: header_value_def header_named_def eq_ignore_ascii_case_def
        ascii_lower_names)
  have step: "append_headers ?hs (extra_headers cf e) = append_headers
      (?hs @ cloudflare_access_headers (client_id c) (client_secret c))
      (map (\<lambda>(k, v). (to_ascii_lowercase k, v)) (headers e))"
    using assms(1,2) by (cases fmt) (simp_all add: extra_headers_def cloudflare_access_headers_def
        eq_ignore_ascii_case_def Let_def ascii_lower_names)
  have "header_value (?hs @ cloudflare_access_headers (client_id c) (client_secret c)) ''CF-Access-Client-Id'' =
      Some (client_id c)"
    "header_value (?hs @ cloudflare_access_headers (client_id c) (client_secret c)) ''CF-Access-Client-Secret'' =
      Some (client_secret c)"
    by (cases fmt; simp add: header_value_def header_named_def eq_ignore_ascii_case_def
        cloudflare_access_headers_def ascii_lower_names)+
  with v show ?thesis unfolding step
    using append_headers_value append_headers_value [OF v, of "extra_headers cf e"] step by simp
qed

theorem edge_credentials_not_forgeable_witness:
  "header_value (append_headers (auth_headers (\<lambda>_. None) OpenaiChat ''k'')
     (extra_headers (Some \<lparr>client_id = ''id'', client_secret = ''s''\<rparr>)
       (extra_default\<lparr>cloudflare_access := True, headers := [(''cf-access-client-id'', ''forged'')]\<rparr>)))
     ''CF-Access-Client-Id'' = Some ''id''"
  using edge_credentials_not_forgeable [of "extra_default\<lparr>cloudflare_access := True,
      headers := [(''cf-access-client-id'', ''forged'')]\<rparr>" "Some \<lparr>client_id = ''id'', client_secret = ''s''\<rparr>"
      "\<lparr>client_id = ''id'', client_secret = ''s''\<rparr>" "''authorization''" "''Bearer k''" "\<lambda>_. None" OpenaiChat "''k''"]
  by (simp add: upstream_secret_def strip_prefix_def starts_with_def)

end
