(* ===== verification/Chat_IR.thy ===== *)
theory Chat_IR
  imports Json_Value
begin

text \<open>
  The provider-agnostic representation of a chat turn (\<open>crates/yb-wire/src/ir.rs\<close>), the emit
  options (\<open>lib.rs\<close>), and the aggregation between a stream of events and one buffered response
  in both directions (\<open>aggregate.rs\<close>).

  Token counts are \<open>u32\<close> words. Reading the text of a tool's arguments as JSON and writing a value
  as text are parameters (\<open>from_str\<close>, \<open>to_str\<close>): they are the \<open>serde_json\<close> package's.
\<close>

named_theorems ir_simps \<open>rewrite rules for the aggregation of events\<close>

section \<open>Requests\<close>

datatype msg_role = SystemRole | DeveloperRole | UserRole | AssistantRole | ToolRole

datatype content_block =
    Text string
  | CachedText string "string option"
  | Image "string option" "string option" "string option"
  | ToolUse string string json
  | ToolResult string "content_block list" bool
  | Thinking string "string option"
  | Native string json

record message =
  msg_role :: msg_role
  content :: "content_block list"

text \<open>The text of a message: its text blocks, one after the other.\<close>
fun block_text :: "content_block \<Rightarrow> string" where
  "block_text (Text t) = t"
| "block_text (CachedText t _) = t"
| "block_text _ = []"

definition message_text :: "message \<Rightarrow> string" where
  "message_text m = concat (map block_text (content m))"

record tool =
  tool_name :: string
  description :: "string option"
  input_schema :: json
  strict :: "bool option"
  anthropic_cache_control :: "json option"

datatype tool_choice = ChoiceAuto | ChoiceNone | ChoiceRequired | ChoiceTool string

record reasoning =
  effort :: "string option"
  budget_tokens :: "(32 word) option"

record chat_request =
  model :: string
  messages :: "message list"
  system :: "content_block list option"
  tools :: "tool list"
  tool_choice :: "tool_choice option"
  max_tokens :: "(32 word) option"
  temperature :: "rat option"
  top_p :: "rat option"
  stop :: "string list"
  stream :: bool
  native_input :: "json list option"
  native_request :: "json_object option"
  include_usage :: bool
  reasoning :: "reasoning option"
  metadata :: json_object
  context_management :: "json option"
  output_config :: "json option"
  prompt_cache_key :: "string option"
  prompt_cache_retention :: "string option"
  prompt_cache_options :: "json option"

definition chat_request_default :: chat_request where
  "chat_request_default =
     \<lparr>model = [], messages = [], system = None, tools = [], tool_choice = None, max_tokens = None,
      temperature = None, top_p = None, stop = [], stream = False, native_input = None,
      native_request = None, include_usage = False, reasoning = None, metadata = [],
      context_management = None, output_config = None, prompt_cache_key = None,
      prompt_cache_retention = None, prompt_cache_options = None\<rparr>"

definition effective_system :: "chat_request \<Rightarrow> content_block list" where
  "effective_system req =
     (case system req of None \<Rightarrow> [] | Some bs \<Rightarrow> bs) @
     concat (map content (filter (\<lambda>m. msg_role m = SystemRole \<or> msg_role m = DeveloperRole) (messages req)))"

record emit_options =
  target_model :: string
  force_reasoning_effort :: "string option"
  emit_stream :: bool

type_synonym emitted_request = "bytes \<times> (string \<times> string) list"

section \<open>Responses and events\<close>

datatype stop_reason = EndTurn | MaxTokens | StopSequence | StopToolUse | StopOther string

fun stop_reason_as_str :: "stop_reason \<Rightarrow> string" where
  "stop_reason_as_str EndTurn = ''end_turn''"
| "stop_reason_as_str MaxTokens = ''max_tokens''"
| "stop_reason_as_str StopSequence = ''stop_sequence''"
| "stop_reason_as_str StopToolUse = ''tool_use''"
| "stop_reason_as_str (StopOther s) = s"

definition from_canonical :: "string \<Rightarrow> stop_reason" where
  "from_canonical s =
     (if s = ''end_turn'' then EndTurn
      else if s = ''max_tokens'' then MaxTokens
      else if s = ''stop_sequence'' then StopSequence
      else if s = ''tool_use'' then StopToolUse
      else StopOther s)"

record usage =
  input_tokens :: "32 word"
  output_tokens :: "32 word"
  cache_read_tokens :: "32 word"
  cache_write_tokens :: "32 word"
  reasoning_tokens :: "32 word"
  prompt_ms :: "32 word"
  generation_ms :: "32 word"

definition usage_default :: usage where
  "usage_default =
     \<lparr>input_tokens = 0, output_tokens = 0, cache_read_tokens = 0, cache_write_tokens = 0,
      reasoning_tokens = 0, prompt_ms = 0, generation_ms = 0\<rparr>"

definition usage_merge :: "usage \<Rightarrow> usage \<Rightarrow> usage" where
  "usage_merge a b =
     \<lparr>input_tokens = max (input_tokens a) (input_tokens b),
      output_tokens = max (output_tokens a) (output_tokens b),
      cache_read_tokens = max (cache_read_tokens a) (cache_read_tokens b),
      cache_write_tokens = max (cache_write_tokens a) (cache_write_tokens b),
      reasoning_tokens = max (reasoning_tokens a) (reasoning_tokens b),
      prompt_ms = max (prompt_ms a) (prompt_ms b),
      generation_ms = max (generation_ms a) (generation_ms b)\<rparr>"

definition usage_is_empty :: "usage \<Rightarrow> bool" where
  "usage_is_empty u \<longleftrightarrow> input_tokens u = 0 \<and> output_tokens u = 0 \<and> cache_read_tokens u = 0 \<and>
     cache_write_tokens u = 0 \<and> reasoning_tokens u = 0"

record chat_response =
  response_id :: string
  response_model :: string
  response_content :: "content_block list"
  response_stop :: stop_reason
  response_usage :: usage
  response_cache_key :: "string option"
  response_cache_retention :: "string option"

datatype stream_event =
    MessageStart string
  | TextDelta string
  | ThinkingDelta string
  | ToolUseStart string string
  | ToolUseDelta string
  | UsageDelta usage
  | Done stop_reason

section \<open>Aggregation\<close>

record partial_tool =
  pt_id :: string
  pt_name :: string
  pt_json :: string

record aggregator =
  agg_model :: string
  agg_text :: string
  agg_thinking :: string
  agg_tools :: "partial_tool list"
  agg_usage :: usage
  agg_stop :: "stop_reason option"

definition aggregator_new :: aggregator where
  "aggregator_new =
     \<lparr>agg_model = [], agg_text = [], agg_thinking = [], agg_tools = [], agg_usage = usage_default,
      agg_stop = None\<rparr>"

text \<open>Appending to the arguments of the last tool, if there is one.\<close>
definition push_json :: "string \<Rightarrow> partial_tool list \<Rightarrow> partial_tool list" where
  "push_json j ts =
     (if ts = [] then [] else butlast ts @ [(last ts)\<lparr>pt_json := pt_json (last ts) @ j\<rparr>])"

fun push :: "aggregator \<Rightarrow> stream_event \<Rightarrow> aggregator" where
  "push a (MessageStart m) = (if agg_model a = [] then a\<lparr>agg_model := m\<rparr> else a)"
| "push a (TextDelta t) = a\<lparr>agg_text := agg_text a @ t\<rparr>"
| "push a (ThinkingDelta t) = a\<lparr>agg_thinking := agg_thinking a @ t\<rparr>"
| "push a (ToolUseStart i n) = a\<lparr>agg_tools := agg_tools a @ [\<lparr>pt_id = i, pt_name = n, pt_json = []\<rparr>]\<rparr>"
| "push a (ToolUseDelta j) = a\<lparr>agg_tools := push_json j (agg_tools a)\<rparr>"
| "push a (UsageDelta u) = a\<lparr>agg_usage := usage_merge (agg_usage a) u\<rparr>"
| "push a (Done s) = a\<lparr>agg_stop := Some s\<rparr>"

definition push_all :: "aggregator \<Rightarrow> stream_event list \<Rightarrow> aggregator" where
  "push_all a evs = foldl push a evs"

definition tool_input :: "(string \<Rightarrow> json option) \<Rightarrow> string \<Rightarrow> json" where
  "tool_input from_str j =
     (if trim j = [] then JObj []
      else case from_str j of None \<Rightarrow> JObj [] | Some v \<Rightarrow> v)"

definition into_response :: "(string \<Rightarrow> json option) \<Rightarrow> aggregator \<Rightarrow> string \<Rightarrow> chat_response" where
  "into_response from_str a rid =
     (let had_tools = agg_tools a \<noteq> [];
          content =
            (if agg_thinking a = [] then [] else [Thinking (agg_thinking a) None]) @
            (if agg_text a = [] then [] else [Text (agg_text a)]) @
            map (\<lambda>t. ToolUse (pt_id t) (pt_name t) (tool_input from_str (pt_json t))) (agg_tools a);
          sr = (if had_tools \<and> (agg_stop a = Some EndTurn \<or> agg_stop a = None) then StopToolUse
                else case agg_stop a of Some s \<Rightarrow> s | None \<Rightarrow> EndTurn)
      in \<lparr>response_id = rid, response_model = agg_model a, response_content = content,
          response_stop = sr, response_usage = agg_usage a, response_cache_key = None,
          response_cache_retention = None\<rparr>)"

fun block_events :: "(json \<Rightarrow> string) \<Rightarrow> content_block \<Rightarrow> stream_event list" where
  "block_events to_str (Thinking t _) = [ThinkingDelta t]"
| "block_events to_str (Text t) = [TextDelta t]"
| "block_events to_str (ToolUse i n input) = [ToolUseStart i n, ToolUseDelta (to_str input)]"
| "block_events to_str _ = []"

definition events_from_response :: "(json \<Rightarrow> string) \<Rightarrow> chat_response \<Rightarrow> stream_event list" where
  "events_from_response to_str resp =
     [MessageStart (response_model resp)] @
     concat (map (block_events to_str) (response_content resp)) @
     [UsageDelta (response_usage resp), Done (response_stop resp)]"

section \<open>The usage report\<close>

text \<open>
  Upstreams report usage in different rhythms; a report folded in any order and any number of
  times gives the same total. The laws are those of a join, stated once.
\<close>
locale join_fold =
  fixes join :: "'a \<Rightarrow> 'a \<Rightarrow> 'a" and bot :: 'a
  assumes join_assoc: "join (join a b) c = join a (join b c)"
    and join_commute: "join a b = join b a"
    and join_idem: "join a a = a"
    and join_bot: "join bot a = a"
begin

lemma join_bot_right: "join a bot = a"
  using join_bot join_commute by metis

lemma join_left_commute: "join a (join b c) = join b (join a c)"
  by (metis join_assoc join_commute)

lemma foldl_join: "foldl join a xs = join a (foldl join bot xs)"
proof (induction xs arbitrary: a)
  case (Cons x xs)
  have "foldl join (join a x) xs = join (join a x) (foldl join bot xs)" by (rule Cons)
  moreover have "foldl join (join bot x) xs = join (join bot x) (foldl join bot xs)" by (rule Cons)
  ultimately show ?case by (simp add: join_assoc join_bot)
qed (simp add: join_commute [of _ bot] join_bot)

lemma foldl_join_Cons: "foldl join bot (x # xs) = join x (foldl join bot xs)"
  using foldl_join [of x xs] by (simp add: join_bot)

lemma foldl_join_member: "x \<in> set xs \<Longrightarrow> join x (foldl join bot xs) = foldl join bot xs"
  by (induction xs) (simp, metis foldl_join_Cons join_assoc join_idem join_left_commute set_ConsD)

lemma foldl_join_insert: "foldl join bot (x # xs) = (if x \<in> set xs then foldl join bot xs else join x (foldl join bot xs))"
  using foldl_join_member by (simp add: foldl_join_Cons del: foldl.simps)

lemma foldl_join_remdups: "foldl join bot (remdups xs) = foldl join bot xs"
  by (induction xs) (simp_all add: foldl_join_insert del: foldl_Cons)

lemma foldl_join_mset: "mset xs = mset ys \<Longrightarrow> foldl join bot xs = foldl join bot ys"
proof (induction xs arbitrary: ys)
  case (Cons x xs)
  then have "x \<in> set ys" by (metis list.set_intros(1) mset_eq_setD)
  then obtain as bs where ys: "ys = as @ x # bs" by (metis split_list)
  have eq: "foldl join bot xs = foldl join bot (as @ bs)"
    using Cons.prems ys by (intro Cons.IH) simp
  have "foldl join bot (as @ x # bs) = join x (foldl join bot (as @ bs))"
    using foldl_join [of "foldl join bot as" "x # bs"] foldl_join [of "foldl join bot as" bs]
    by (metis foldl_append foldl_join_Cons join_left_commute)
  with eq ys show ?case by (simp add: foldl_join_Cons del: foldl.simps)
qed simp

lemma foldl_join_set: "set xs = set ys \<Longrightarrow> foldl join bot xs = foldl join bot ys"
  by (metis foldl_join_remdups foldl_join_mset set_eq_iff_mset_remdups_eq)

end

lemma usage_eqI:
  "input_tokens a = input_tokens (b :: usage) \<Longrightarrow> output_tokens a = output_tokens b \<Longrightarrow>
   cache_read_tokens a = cache_read_tokens b \<Longrightarrow> cache_write_tokens a = cache_write_tokens b \<Longrightarrow>
   reasoning_tokens a = reasoning_tokens b \<Longrightarrow> prompt_ms a = prompt_ms b \<Longrightarrow>
   generation_ms a = generation_ms b \<Longrightarrow> a = b"
  by (cases a, cases b) simp

interpretation usage_join: join_fold usage_merge usage_default
  by unfold_locales (auto intro!: usage_eqI simp: usage_merge_def usage_default_def ac_simps)

section \<open>What a run of events aggregates to\<close>

fun text_of :: "stream_event \<Rightarrow> string" where
  "text_of (TextDelta t) = t"
| "text_of _ = []"

fun thinking_of :: "stream_event \<Rightarrow> string" where
  "thinking_of (ThinkingDelta t) = t"
| "thinking_of _ = []"

fun usage_of :: "stream_event \<Rightarrow> usage option" where
  "usage_of (UsageDelta u) = Some u"
| "usage_of _ = None"

definition texts :: "stream_event list \<Rightarrow> string" where
  "texts evs = concat (map text_of evs)"

definition thinkings :: "stream_event list \<Rightarrow> string" where
  "thinkings evs = concat (map thinking_of evs)"

definition usages :: "stream_event list \<Rightarrow> usage list" where
  "usages evs = List.map_filter usage_of evs"

lemma push_all_Nil [simp]: "push_all a [] = a"
  by (simp add: push_all_def)

lemma push_all_Cons [simp]: "push_all a (e # es) = push_all (push a e) es"
  by (simp add: push_all_def)

lemma push_all_append: "push_all a (es @ fs) = push_all (push_all a es) fs"
  by (simp add: push_all_def)

lemma events_simps [simp]:
  "texts [] = []" "texts (e # es) = text_of e @ texts es"
  "thinkings [] = []" "thinkings (e # es) = thinking_of e @ thinkings es"
  "usages [] = []" "usages (e # es) = (case usage_of e of None \<Rightarrow> usages es | Some u \<Rightarrow> u # usages es)"
  by (simp_all add: texts_def thinkings_def usages_def List.map_filter_simps split: option.split)

lemma usages_append: "usages (es @ fs) = usages es @ usages fs"
  by (induction es) (auto split: option.split)

lemma push_all_text: "agg_text (push_all a es) = agg_text a @ texts es"
proof (induction es arbitrary: a)
  case (Cons e es)
  then show ?case by (cases e) auto
qed simp

lemma push_all_thinking: "agg_thinking (push_all a es) = agg_thinking a @ thinkings es"
proof (induction es arbitrary: a)
  case (Cons e es)
  then show ?case by (cases e) auto
qed simp

lemma push_all_usage: "agg_usage (push_all a es) = foldl usage_merge (agg_usage a) (usages es)"
proof (induction es arbitrary: a)
  case (Cons e es)
  then show ?case by (cases e) auto
qed simp

lemma aggregate_usage:
  "response_usage (into_response fs (push_all aggregator_new es) rid) = foldl usage_merge usage_default (usages es)"
  by (simp add: into_response_def Let_def push_all_usage) (simp add: aggregator_new_def)

definition usage_le :: "usage \<Rightarrow> usage \<Rightarrow> bool" where
  "usage_le a b \<longleftrightarrow> input_tokens a \<le> input_tokens b \<and> output_tokens a \<le> output_tokens b \<and>
     cache_read_tokens a \<le> cache_read_tokens b \<and> cache_write_tokens a \<le> cache_write_tokens b \<and>
     reasoning_tokens a \<le> reasoning_tokens b \<and> prompt_ms a \<le> prompt_ms b \<and>
     generation_ms a \<le> generation_ms b"

lemma usage_le_merge: "usage_merge a b = b \<Longrightarrow> usage_le a b"
  by (cases b) (auto simp: usage_merge_def usage_le_def max_def split: if_splits)

section \<open>Expanding and aggregating a response\<close>

definition tool_block :: "string \<times> string \<times> json \<Rightarrow> content_block" where
  "tool_block t = (case t of (i, n, v) \<Rightarrow> ToolUse i n v)"

text \<open>A response in the shape the aggregator builds.\<close>
definition aggregated_content :: "string \<Rightarrow> string \<Rightarrow> (string \<times> string \<times> json) list \<Rightarrow> content_block list" where
  "aggregated_content th tx calls =
     (if th = [] then [] else [Thinking th None]) @ (if tx = [] then [] else [Text tx]) @
     map tool_block calls"

lemma push_tool_events:
  "push_all a (concat (map (block_events ts \<circ> tool_block) calls)) =
     a\<lparr>agg_tools := agg_tools a @ map (\<lambda>(i, n, v). \<lparr>pt_id = i, pt_name = n, pt_json = ts v\<rparr>) calls\<rparr>"
proof (induction calls arbitrary: a)
  case (Cons c cs)
  obtain i n v where "c = (i, n, v)" by (cases c)
  with Cons show ?case by (simp add: tool_block_def push_json_def)
qed simp

lemma push_response_events:
  assumes "response_content r = aggregated_content th tx calls"
  shows "push_all aggregator_new (events_from_response ts r) =
    \<lparr>agg_model = response_model r, agg_text = tx, agg_thinking = th,
     agg_tools = map (\<lambda>(i, n, v). \<lparr>pt_id = i, pt_name = n, pt_json = ts v\<rparr>) calls,
     agg_usage = response_usage r, agg_stop = Some (response_stop r)\<rparr>"
  using assms
  by (simp add: events_from_response_def aggregated_content_def push_all_append push_tool_events)
     (simp add: aggregator_new_def usage_join.join_bot push_tool_events)

section \<open>Properties\<close>

text \<open>The usage of an aggregated turn does not depend on the order or the repetition of the
  reports, is at least every report field by field, and a zeroed report never erases a count.\<close>
theorem aggregate_usage_converges:
  "(set (usages es) = set (usages es') \<longrightarrow>
     response_usage (into_response fs (push_all aggregator_new es) rid) =
     response_usage (into_response fs (push_all aggregator_new es') rid')) \<and>
   (\<forall>u \<in> set (usages es). usage_le u (response_usage (into_response fs (push_all aggregator_new es) rid))) \<and>
   response_usage (into_response fs (push_all aggregator_new (es @ [UsageDelta usage_default])) rid) =
     response_usage (into_response fs (push_all aggregator_new es) rid)"
proof (intro conjI impI ballI)
  show "response_usage (into_response fs (push_all aggregator_new es) rid) =
      response_usage (into_response fs (push_all aggregator_new es') rid')"
    if "set (usages es) = set (usages es')"
    unfolding aggregate_usage using that by (rule usage_join.foldl_join_set)
  show "usage_le u (response_usage (into_response fs (push_all aggregator_new es) rid))"
    if "u \<in> set (usages es)" for u
    unfolding aggregate_usage using that by (intro usage_le_merge usage_join.foldl_join_member)
qed (simp add: aggregate_usage usages_append usage_join.join_bot_right)

theorem aggregate_usage_converges_witness:
  "let u = usage_default\<lparr>input_tokens := 41\<rparr>; v = usage_default\<lparr>output_tokens := 30\<rparr>
   in response_usage (into_response (\<lambda>_. None) (push_all aggregator_new [UsageDelta u, UsageDelta v]) []) =
      response_usage (into_response (\<lambda>_. None) (push_all aggregator_new
        [UsageDelta v, TextDelta ''x'', UsageDelta u, UsageDelta u]) [])"
  unfolding Let_def
  using aggregate_usage_converges [of
    "[UsageDelta (usage_default\<lparr>input_tokens := 41\<rparr>), UsageDelta (usage_default\<lparr>output_tokens := 30\<rparr>)]"
    "[UsageDelta (usage_default\<lparr>output_tokens := 30\<rparr>), TextDelta ''x'',
      UsageDelta (usage_default\<lparr>input_tokens := 41\<rparr>), UsageDelta (usage_default\<lparr>input_tokens := 41\<rparr>)]"
    "\<lambda>_. None" "[]" "[]"]
  by (simp add: insert_commute)



end
