(* ===== verification/Gateway_Core.thy ===== *)
theory Gateway_Core
  imports Access_Control Billing Deployment_Router Upstream_Route Chat_IR
begin

text \<open>
  The parts of \<open>crates/yb-gateway/src/service.rs\<close> every surface shares: the request context, the
  guard that records a turn no upstream answered, the record context that prices and records a
  turn, the timing of a turn, and the upstream request and response types of
  \<open>crates/yb-providers/src/lib.rs\<close>.

  The collaborators of the gateway are trait objects. The upstream client is a parameter: a
  function of a state of its own that answers a request, or gives \<open>None\<close> when the caller hung up
  while the request was under way. The wire translators are a parameter (\<open>wire_ops\<close>), with the
  state of a decoder and of an encoder abstract. Calls on the store, the observer, the logger and
  the token meter are recorded in order as \<open>effect\<close>s; the code ignores their failures. Clocks and
  fresh ids are functions of a counter of readings.
\<close>

section \<open>Upstream calls\<close>

datatype http_method = Post | Get | Delete

record upstream_request =
  url :: string
  http_method :: http_method
  req_headers :: header_list
  req_body :: bytes
  req_stream :: bool

text \<open>An item of an upstream byte stream: a chunk, a transport error, or a silence past the limit.\<close>
datatype stream_item = Chunk bytes | Broken error | Stalled

type_synonym byte_stream = "stream_item list"

datatype response_body = FullBody bytes | StreamBody byte_stream

record upstream_response =
  resp_status :: "16 word"
  resp_headers :: header_list
  resp_body :: response_body

definition response_header :: "upstream_response \<Rightarrow> string \<Rightarrow> string option" where
  "response_header r name =
     map_option snd (find (\<lambda>(k, _). eq_ignore_ascii_case k name) (resp_headers r))"

definition is_success :: "16 word \<Rightarrow> bool" where
  "is_success status \<longleftrightarrow> 200 \<le> status \<and> status < 300"

section \<open>Records of a turn\<close>

record telemetry_record =
  t_id :: id
  t_request_id :: string
  t_trace_id :: "string option"
  t_parent_span_id :: "string option"
  t_api_key_id :: "id option"
  t_user_id :: "id option"
  t_team_id :: "id option"
  t_surface :: string
  t_requested_model :: string
  t_decision_model :: string
  t_decision_provider :: string
  t_input_tokens :: int
  t_output_tokens :: int
  t_cache_read_tokens :: int
  t_cache_write_tokens :: int
  t_cost_micros :: micros
  t_status :: int
  t_is_error :: bool
  t_latency_ms :: int
  t_first_token_ms :: "int option"
  t_generation_ms :: "int option"
  t_queue_ms :: "int option"
  t_created_at :: timestamp

record request_log_record =
  log_ts :: timestamp
  log_request_id :: string
  log_trace_id :: "string option"
  log_installation_id :: string
  log_surface :: string
  log_requested_model :: string
  log_decision_model :: string
  log_decision_provider :: string
  log_upstream_status :: int
  log_is_error :: bool
  log_request_bytes :: int
  log_response_bytes :: int
  log_response_truncated :: bool
  log_request_body :: bytes
  log_response_body :: bytes
  log_api_key_id :: "string option"
  log_user_id :: "string option"
  log_tags :: "string option"
  log_redaction :: string

datatype effect =
    SendUpstream deployment upstream_request
  | ObserverTurn telemetry_record
  | InsertTelemetry telemetry_record
  | UpsertRollup rollup_delta
  | LogRequest request_log_record
  | ChargeTokens int

section \<open>The gateway and its world\<close>

record ('d, 'e) wire_ops =
  parse_request :: "wire_format \<Rightarrow> bytes \<Rightarrow> chat_request wire_result"
  emit_request :: "wire_format \<Rightarrow> chat_request \<Rightarrow> emit_options \<Rightarrow> emitted_request wire_result"
  parse_response :: "wire_format \<Rightarrow> bytes \<Rightarrow> chat_response wire_result"
  emit_response :: "wire_format \<Rightarrow> chat_response \<Rightarrow> bytes wire_result"
  decoder_new :: "wire_format \<Rightarrow> 'd"
  decode_line :: "'d \<Rightarrow> string \<Rightarrow> stream_event list \<times> 'd"
  encoder_new :: "wire_format \<Rightarrow> 'e"
  encode :: "'e \<Rightarrow> stream_event list \<Rightarrow> bytes \<times> 'e"
  encoder_finish :: "'e \<Rightarrow> bytes \<times> 'e"
  set_include_usage :: "bool \<Rightarrow> 'e \<Rightarrow> 'e"
  set_prompt_cache :: "string option \<Rightarrow> string option \<Rightarrow> 'e \<Rightarrow> 'e"
  json_from_str :: "string \<Rightarrow> json option"
  json_to_string :: "json \<Rightarrow> string"
  ir_to_vec :: "chat_response \<Rightarrow> bytes"

record ('c, 'd, 'e) gateway =
  send :: "'c \<Rightarrow> upstream_request \<Rightarrow> upstream_response result option \<times> 'c"
  wire :: "('d, 'e) wire_ops"
  cf_access :: "cloudflare_access_config option"
  environ :: environment
  calendar :: calendar
  wall_clock :: "nat \<Rightarrow> timestamp"
  instant :: "nat \<Rightarrow> int"
  fresh_id :: "nat \<Rightarrow> id"

record 'c world =
  client :: 'c
  router :: deployment_router
  effects :: "effect list"
  tick :: nat

definition wire_err :: "wire_error \<Rightarrow> error" where
  "wire_err e = Wire (wire_error_text e)"

definition lift_wire :: "'a wire_result \<Rightarrow> 'a result" where
  "lift_wire r = (case r of Inl e \<Rightarrow> Inl (wire_err e) | Inr v \<Rightarrow> Inr v)"

text \<open>\<open>now()\<close>, \<open>Instant::now()\<close> and \<open>new_id()\<close>: one reading of the counter each.\<close>
definition read_now :: "('c, 'd, 'e) gateway \<Rightarrow> 'c world \<Rightarrow> timestamp \<times> 'c world" where
  "read_now g w = (wall_clock g (tick w), w\<lparr>tick := tick w + 1\<rparr>)"

definition read_instant :: "('c, 'd, 'e) gateway \<Rightarrow> 'c world \<Rightarrow> int \<times> 'c world" where
  "read_instant g w = (instant g (tick w), w\<lparr>tick := tick w + 1\<rparr>)"

definition new_id :: "('c, 'd, 'e) gateway \<Rightarrow> 'c world \<Rightarrow> id \<times> 'c world" where
  "new_id g w = (fresh_id g (tick w), w\<lparr>tick := tick w + 1\<rparr>)"

text \<open>Milliseconds between two instants in nanoseconds; a duration is never negative.\<close>
definition millis_between :: "int \<Rightarrow> int \<Rightarrow> int" where
  "millis_between from until = max (until - from) 0 div 1000000"

definition emit :: "effect \<Rightarrow> 'c world \<Rightarrow> 'c world" where
  "emit e w = w\<lparr>effects := effects w @ [e]\<rparr>"

section \<open>The request context\<close>

record request_ctx =
  ctx_api_key :: "api_key option"
  ctx_user_id :: "string option"
  ctx_team_id :: "string option"
  ctx_request_id :: string
  ctx_trace_id :: "string option"
  ctx_parent_span_id :: "string option"
  ctx_tags :: "string option"
  ctx_excluded_model_ids :: "string list"
  ctx_excluded_provider_ids :: "string list"
  ctx_access :: access_policy
  ctx_token_meter :: bool

section \<open>The guard of an attempted turn\<close>

record turn_guard =
  tg_api_key_id :: "string option"
  tg_user_id :: "string option"
  tg_team_id :: "string option"
  tg_trace_id :: "string option"
  tg_parent_span_id :: "string option"
  tg_request_id :: string
  tg_surface :: string
  tg_requested_model :: string
  tg_started :: int
  tg_created_at :: timestamp
  armed :: bool

definition turn_guard_new :: "request_ctx \<Rightarrow> string \<Rightarrow> string \<Rightarrow> int \<Rightarrow> timestamp \<Rightarrow> turn_guard" where
  "turn_guard_new ctx surface requested started created =
     \<lparr>tg_api_key_id = map_option key_id (ctx_api_key ctx), tg_user_id = ctx_user_id ctx,
      tg_team_id = ctx_team_id ctx, tg_trace_id = ctx_trace_id ctx,
      tg_parent_span_id = ctx_parent_span_id ctx, tg_request_id = ctx_request_id ctx,
      tg_surface = surface, tg_requested_model = requested, tg_started = started,
      tg_created_at = created, armed = True\<rparr>"

definition guard_record ::
  "('c, 'd, 'e) gateway \<Rightarrow> turn_guard \<Rightarrow> 16 word \<Rightarrow> 'c world \<Rightarrow> telemetry_record \<times> 'c world" where
  "guard_record g tg status w =
     (let (rid, w) = new_id g w;
          (t, w) = read_instant g w
      in (\<lparr>t_id = rid, t_request_id = tg_request_id tg, t_trace_id = tg_trace_id tg,
           t_parent_span_id = tg_parent_span_id tg, t_api_key_id = tg_api_key_id tg,
           t_user_id = tg_user_id tg, t_team_id = tg_team_id tg, t_surface = tg_surface tg,
           t_requested_model = tg_requested_model tg, t_decision_model = tg_requested_model tg,
           t_decision_provider = ''none'', t_input_tokens = 0, t_output_tokens = 0,
           t_cache_read_tokens = 0, t_cache_write_tokens = 0, t_cost_micros = 0,
           t_status = uint status, t_is_error = True,
           t_latency_ms = millis_between (tg_started tg) t, t_first_token_ms = None,
           t_generation_ms = None, t_queue_ms = None, t_created_at = tg_created_at tg\<rparr>, w))"

definition disarm :: "turn_guard \<Rightarrow> turn_guard" where
  "disarm tg = tg\<lparr>armed := False\<rparr>"

definition guard_fail :: "('c, 'd, 'e) gateway \<Rightarrow> turn_guard \<Rightarrow> 16 word \<Rightarrow> 'c world \<Rightarrow> 'c world" where
  "guard_fail g tg status w =
     (let (rec, w) = guard_record g tg status w
      in emit (InsertTelemetry rec) (emit (ObserverTurn rec) w))"

text \<open>Dropping the guard while it is armed: the caller hung up during dispatch.\<close>
definition turn_guard_drop :: "('c, 'd, 'e) gateway \<Rightarrow> turn_guard \<Rightarrow> 'c world \<Rightarrow> 'c world" where
  "turn_guard_drop g tg w =
     (if \<not> armed tg then w
      else let (rec, w) = guard_record g tg 499 w
           in emit (InsertTelemetry rec) (emit (ObserverTurn rec) w))"

section \<open>Timing\<close>

definition waited_ms_of :: "header_list \<Rightarrow> int option" where
  "waited_ms_of hs =
     (case find (\<lambda>(name, _). eq_ignore_ascii_case name ''x-queue-ms'') hs of
        None \<Rightarrow> None
      | Some (_, v) \<Rightarrow>
          (case parse_i64 (trim v) of None \<Rightarrow> None | Some ms \<Rightarrow> if ms \<ge> 0 then Some ms else None))"

record speed =
  first_token_ms :: "int option"
  generation_time_ms :: "int option"
  queue_ms :: "int option"

fun is_output :: "stream_event \<Rightarrow> bool" where
  "is_output (TextDelta t) = (t \<noteq> [])"
| "is_output (ThinkingDelta t) = (t \<noteq> [])"
| "is_output (ToolUseStart _ _) = True"
| "is_output (ToolUseDelta _) = True"
| "is_output _ = False"

definition or_else :: "'a option \<Rightarrow> 'a option \<Rightarrow> 'a option" where
  "or_else a b = (case a of None \<Rightarrow> b | Some x \<Rightarrow> Some x)"

text \<open>Integer division of the code truncates; both operands are positive where it is used.\<close>
definition speed_of :: "usage \<Rightarrow> int \<Rightarrow> int option \<Rightarrow> int \<Rightarrow> int option \<Rightarrow> speed" where
  "speed_of u latency first outs waited =
     (let engine = (if generation_ms u > 0 then Some (uint (generation_ms u)) else None);
          first = or_else first (map_option (\<lambda>ms. max (latency - ms) 0) engine);
          gen = or_else engine (case first of None \<Rightarrow> None | Some f \<Rightarrow>
             let streamed = latency - f
             in if outs > 1 \<and> streamed > 0 then Some (streamed * outs div (outs - 1)) else None);
          queue = or_else waited (if prompt_ms u > 0
             then map_option (\<lambda>f. max (f - uint (prompt_ms u)) 0) first else None)
      in \<lparr>first_token_ms = first, generation_time_ms = gen, queue_ms = queue\<rparr>)"

section \<open>Recording a served turn\<close>

record record_ctx =
  rc_api_key_id :: "string option"
  rc_user_id :: "string option"
  rc_team_id :: "string option"
  rc_trace_id :: "string option"
  rc_parent_span_id :: "string option"
  rc_request_id :: string
  rc_surface :: string
  rc_requested_model :: string
  rc_deployment :: deployment
  rc_request_body :: bytes
  rc_start :: int
  rc_first_token :: "int option"
  rc_created_at :: timestamp
  rc_token_meter :: bool
  rc_tags :: "string option"
  reports_usage :: bool
  waited_ms :: "int option"

definition record_ctx_new ::
  "request_ctx \<Rightarrow> string \<Rightarrow> string \<Rightarrow> deployment \<Rightarrow> bytes \<Rightarrow> int \<Rightarrow> timestamp \<Rightarrow> record_ctx" where
  "record_ctx_new ctx surface requested d body started created =
     \<lparr>rc_api_key_id = map_option key_id (ctx_api_key ctx), rc_user_id = ctx_user_id ctx,
      rc_team_id = ctx_team_id ctx, rc_trace_id = ctx_trace_id ctx,
      rc_parent_span_id = ctx_parent_span_id ctx, rc_request_id = ctx_request_id ctx,
      rc_surface = surface, rc_requested_model = requested, rc_deployment = d,
      rc_request_body = body, rc_start = started, rc_first_token = None, rc_created_at = created,
      rc_token_meter = ctx_token_meter ctx, rc_tags = ctx_tags ctx, reports_usage = True,
      waited_ms = None\<rparr>"

definition saw :: "('c, 'd, 'e) gateway \<Rightarrow> record_ctx \<Rightarrow> stream_event list \<Rightarrow> 'c world \<Rightarrow> record_ctx \<times> 'c world" where
  "saw g rc evs w =
     (if list_ex is_output evs \<and> rc_first_token rc = None
      then let (t, w) = read_instant g w in (rc\<lparr>rc_first_token := Some t\<rparr>, w)
      else (rc, w))"

definition turn_price :: "deployment \<Rightarrow> model_price" where
  "turn_price d =
     (case or_else (pricing d) (or_else (builtin_price (upstream_model d)) (builtin_price (model_name d))) of
        None \<Rightarrow> price_new 0 0
      | Some p \<Rightarrow> p)"

definition rollup_subjects :: "record_ctx \<Rightarrow> (subject_type \<times> string) list" where
  "rollup_subjects rc =
     (case rc_api_key_id rc of None \<Rightarrow> [] | Some i \<Rightarrow> [(KeySubject, i)]) @
     (case rc_user_id rc of None \<Rightarrow> [] | Some i \<Rightarrow> [(UserSubject, i)]) @
     (case rc_team_id rc of None \<Rightarrow> [] | Some i \<Rightarrow> [(TeamSubject, i)])"

definition finish_telemetry ::
  "record_ctx \<Rightarrow> id \<Rightarrow> usage \<Rightarrow> 16 word \<Rightarrow> bool \<Rightarrow> int \<Rightarrow> telemetry_record" where
  "finish_telemetry rc rid u status err latency =
     (let inp = uint (input_tokens u); outp = uint (output_tokens u);
          cr = uint (cache_read_tokens u); cw = uint (cache_write_tokens u);
          sp = speed_of u latency (map_option (millis_between (rc_start rc)) (rc_first_token rc)) outp
                 (waited_ms rc)
      in \<lparr>t_id = rid, t_request_id = rc_request_id rc, t_trace_id = rc_trace_id rc,
          t_parent_span_id = rc_parent_span_id rc, t_api_key_id = rc_api_key_id rc,
          t_user_id = rc_user_id rc, t_team_id = rc_team_id rc, t_surface = rc_surface rc,
          t_requested_model = rc_requested_model rc,
          t_decision_model = model_name (rc_deployment rc),
          t_decision_provider = provider (rc_deployment rc),
          t_input_tokens = inp, t_output_tokens = outp, t_cache_read_tokens = cr,
          t_cache_write_tokens = cw,
          t_cost_micros = cost_micros (turn_price (rc_deployment rc)) inp outp cr cw,
          t_status = uint status, t_is_error = err, t_latency_ms = latency,
          t_first_token_ms = first_token_ms sp, t_generation_ms = generation_time_ms sp,
          t_queue_ms = queue_ms sp, t_created_at = rc_created_at rc\<rparr>)"

definition finish_delta :: "telemetry_record \<Rightarrow> timestamp \<Rightarrow> subject_type \<times> string \<Rightarrow> rollup_delta" where
  "finish_delta t start s =
     \<lparr>subject_type = fst s, subject_id = snd s, period = Day, period_start = start,
      spend_micros = t_cost_micros t, request_count = 1,
      input_tokens_delta = t_input_tokens t, output_tokens_delta = t_output_tokens t\<rparr>"

definition finish_log :: "record_ctx \<Rightarrow> 16 word \<Rightarrow> bool \<Rightarrow> bytes \<Rightarrow> int \<Rightarrow> request_log_record" where
  "finish_log rc status err body n =
     \<lparr>log_ts = rc_created_at rc, log_request_id = rc_request_id rc, log_trace_id = rc_trace_id rc,
      log_installation_id = [], log_surface = rc_surface rc,
      log_requested_model = rc_requested_model rc,
      log_decision_model = model_name (rc_deployment rc),
      log_decision_provider = provider (rc_deployment rc), log_upstream_status = uint status,
      log_is_error = err, log_request_bytes = int (length (rc_request_body rc)),
      log_response_bytes = n, log_response_truncated = False,
      log_request_body = rc_request_body rc, log_response_body = body,
      log_api_key_id = rc_api_key_id rc, log_user_id = rc_user_id rc, log_tags = rc_tags rc,
      log_redaction = []\<rparr>"

text \<open>
  Price the turn, charge the meter, observe, store, roll up and log. The start of the day exists
  for every timestamp the code can hold; where the calendar has none the code would panic, and no
  rollup is written here.
\<close>
definition finish ::
  "('c, 'd, 'e) gateway \<Rightarrow> record_ctx \<Rightarrow> usage \<Rightarrow> 16 word \<Rightarrow> bool \<Rightarrow> bytes \<Rightarrow> int \<Rightarrow> 'c world \<Rightarrow> 'c world" where
  "finish g rc u status err body n w =
     (let (t, w) = read_instant g w;
          (rid, w) = new_id g w;
          tel = finish_telemetry rc rid u status err (millis_between (rc_start rc) t);
          total = t_input_tokens tel + t_output_tokens tel;
          w = (if rc_token_meter rc \<and> total > 0 then emit (ChargeTokens total) w else w);
          w = emit (InsertTelemetry tel) (emit (ObserverTurn tel) w);
          w = (case bucket_start (calendar g) Day (rc_created_at rc) of
                 None \<Rightarrow> w
               | Some start \<Rightarrow>
                   foldl (\<lambda>w s. emit (UpsertRollup (finish_delta tel start s)) w) w (rollup_subjects rc))
      in emit (LogRequest (finish_log rc status err body n)) w)"

section \<open>Policy\<close>

definition estimate_tokens :: "chat_request \<Rightarrow> 32 word" where
  "estimate_tokens chat =
     (let blocks = (case system chat of None \<Rightarrow> [] | Some bs \<Rightarrow> bs) @ concat (map content (messages chat));
          chars = sum_list (map (\<lambda>b. case b of Text t \<Rightarrow> length t | _ \<Rightarrow> 0) blocks)
      in word_of_int (min (int chars div 4) (2 ^ 32 - 1)))"

definition policy_route_request :: "request_ctx \<Rightarrow> route_request \<Rightarrow> route_request" where
  "policy_route_request ctx req =
     req\<lparr>excluded_model_ids := ctx_excluded_model_ids ctx @ denied_model_ids (ctx_access ctx),
         enabled_provider_ids := (if allowed_provider_ids (ctx_access ctx) = [] then None
           else Some (allowed_provider_ids (ctx_access ctx))),
         denied_provider_ids_req := ctx_excluded_provider_ids ctx @ denied_provider_ids (ctx_access ctx)\<rparr>"

fun is_image :: "content_block \<Rightarrow> bool" where
  "is_image (Image _ _ _) = True"
| "is_image _ = False"

definition build_route_request :: "chat_request \<Rightarrow> request_ctx \<Rightarrow> route_request" where
  "build_route_request chat ctx =
     policy_route_request ctx
       \<lparr>requested_model = model chat, estimated_input_tokens = estimate_tokens chat,
        has_tools = tools chat \<noteq> [],
        has_images = list_ex is_image (concat (map content (messages chat))),
        excluded_model_ids = [], enabled_provider_ids = None, denied_provider_ids_req = [],
        preferred_models = []\<rparr>"

definition access_permits :: "request_ctx \<Rightarrow> deployment \<Rightarrow> bool" where
  "access_permits ctx d =
     (if \<not> permits_model (ctx_access ctx) (model_id d) \<or>
         \<not> permits_provider (ctx_access ctx) (provider_id d) then False
      else model_id d \<notin> set (ctx_excluded_model_ids ctx) \<and>
           provider_id d \<notin> set (ctx_excluded_provider_ids ctx))"

definition filter_access :: "deployment list \<Rightarrow> request_ctx \<Rightarrow> deployment list" where
  "filter_access ds ctx = filter (access_permits ctx) ds"

section \<open>Error bodies\<close>

text \<open>Draining a streamed error body: stop at an error item or once 64 KiB are held.\<close>
fun drain_stream :: "bytes \<Rightarrow> byte_stream \<Rightarrow> bytes" where
  "drain_stream buf [] = buf"
| "drain_stream buf (Chunk b # items) =
     (let buf = buf @ b in if int (length buf) \<ge> 64 * 1024 then buf else drain_stream buf items)"
| "drain_stream buf (Broken e # items) = buf"
| "drain_stream buf (Stalled # items) = drain_stream buf items"

definition read_body_message :: "response_body \<Rightarrow> string" where
  "read_body_message b =
     (let raw = (case b of FullBody bs \<Rightarrow> bs | StreamBody items \<Rightarrow> drain_stream [] items);
          trimmed = trim (from_utf8_lossy raw)
      in if trimmed = [] then ''upstream error (no body)'' else take_chars 2000 trimmed)"

section \<open>What a world has seen\<close>

named_theorems world_simps \<open>how an operation changes the turns, the sends and the rollups of a world\<close>

fun turn_of :: "effect \<Rightarrow> telemetry_record list" where
  "turn_of (ObserverTurn t) = [t]"
| "turn_of _ = []"

fun send_of :: "effect \<Rightarrow> (deployment \<times> upstream_request) list" where
  "send_of (SendUpstream d u) = [(d, u)]"
| "send_of _ = []"

fun rollup_of :: "effect \<Rightarrow> rollup_delta list" where
  "rollup_of (UpsertRollup r) = [r]"
| "rollup_of _ = []"

text \<open>The turns the observer was told of, the calls sent upstream and the rollups, in order.\<close>
definition turns :: "'c world \<Rightarrow> telemetry_record list" where
  "turns w = concat (map turn_of (effects w))"

definition sends :: "'c world \<Rightarrow> (deployment \<times> upstream_request) list" where
  "sends w = concat (map send_of (effects w))"

definition rollups :: "'c world \<Rightarrow> rollup_delta list" where
  "rollups w = concat (map rollup_of (effects w))"

lemma emit_world [simp]:
  "turns (emit e w) = turns w @ turn_of e" "sends (emit e w) = sends w @ send_of e"
  "rollups (emit e w) = rollups w @ rollup_of e"
  "client (emit e w) = client w" "router (emit e w) = router w" "tick (emit e w) = tick w"
  by (simp_all add: turns_def sends_def rollups_def emit_def)

lemma world_update [simp]:
  "turns (w\<lparr>tick := n\<rparr>) = turns w" "turns (w\<lparr>client := c\<rparr>) = turns w" "turns (w\<lparr>router := r\<rparr>) = turns w"
  "sends (w\<lparr>tick := n\<rparr>) = sends w" "sends (w\<lparr>client := c\<rparr>) = sends w" "sends (w\<lparr>router := r\<rparr>) = sends w"
  "rollups (w\<lparr>tick := n\<rparr>) = rollups w" "rollups (w\<lparr>client := c\<rparr>) = rollups w"
  "rollups (w\<lparr>router := r\<rparr>) = rollups w"
  by (simp_all add: turns_def sends_def rollups_def)

lemma readings [simp]:
  "turns (snd (read_now g w)) = turns w" "turns (snd (read_instant g w)) = turns w" "turns (snd (new_id g w)) = turns w"
  "sends (snd (read_now g w)) = sends w" "sends (snd (read_instant g w)) = sends w" "sends (snd (new_id g w)) = sends w"
  "rollups (snd (read_now g w)) = rollups w" "rollups (snd (read_instant g w)) = rollups w"
  "rollups (snd (new_id g w)) = rollups w"
  "client (snd (read_now g w)) = client w" "client (snd (read_instant g w)) = client w"
  "client (snd (new_id g w)) = client w"
  "router (snd (read_now g w)) = router w" "router (snd (read_instant g w)) = router w"
  "router (snd (new_id g w)) = router w"
  by (simp_all add: read_now_def read_instant_def new_id_def)

lemma guard_record_world [simp]:
  "turns (snd (guard_record g tg s w)) = turns w" "sends (snd (guard_record g tg s w)) = sends w"
  "rollups (snd (guard_record g tg s w)) = rollups w"
  "client (snd (guard_record g tg s w)) = client w" "router (snd (guard_record g tg s w)) = router w"
  by (simp_all add: guard_record_def case_prod_unfold Let_def)

lemma guard_fail_world [simp]:
  "turns (guard_fail g tg s w) = turns w @ [fst (guard_record g tg s w)]"
  "sends (guard_fail g tg s w) = sends w" "rollups (guard_fail g tg s w) = rollups w"
  by (simp_all add: guard_fail_def case_prod_unfold Let_def)

lemma guard_drop_world [simp]:
  "turns (turn_guard_drop g tg w) = turns w @ (if armed tg then [fst (guard_record g tg 499 w)] else [])"
  "sends (turn_guard_drop g tg w) = sends w" "rollups (turn_guard_drop g tg w) = rollups w"
  by (simp_all add: turn_guard_drop_def case_prod_unfold Let_def)

lemma guard_record_status: "t_status (fst (guard_record g tg s w)) = uint s"
  "t_is_error (fst (guard_record g tg s w))" "t_cost_micros (fst (guard_record g tg s w)) = 0"
  by (simp_all add: guard_record_def case_prod_unfold Let_def)

lemma saw_world [simp]:
  "turns (snd (saw g rc evs w)) = turns w" "sends (snd (saw g rc evs w)) = sends w"
  "rollups (snd (saw g rc evs w)) = rollups w" "client (snd (saw g rc evs w)) = client w"
  "router (snd (saw g rc evs w)) = router w"
  by (simp_all add: saw_def case_prod_unfold Let_def)

text \<open>The telemetry row \<open>finish\<close> writes.\<close>
definition finished ::
  "('c, 'd, 'e) gateway \<Rightarrow> record_ctx \<Rightarrow> usage \<Rightarrow> 16 word \<Rightarrow> bool \<Rightarrow> 'c world \<Rightarrow> telemetry_record" where
  "finished g rc u status err w =
     finish_telemetry rc (fst (new_id g (snd (read_instant g w)))) u status err
       (millis_between (rc_start rc) (fst (read_instant g w)))"

lemma foldl_emit_rollups:
  "turns (foldl (\<lambda>w s. emit (UpsertRollup (f s)) w) w ss) = turns w"
  "sends (foldl (\<lambda>w s. emit (UpsertRollup (f s)) w) w ss) = sends w"
  "rollups (foldl (\<lambda>w s. emit (UpsertRollup (f s)) w) w ss) = rollups w @ map f ss"
  "client (foldl (\<lambda>w s. emit (UpsertRollup (f s)) w) w ss) = client w"
  "router (foldl (\<lambda>w s. emit (UpsertRollup (f s)) w) w ss) = router w"
  by (induction ss arbitrary: w) simp_all

lemma finish_world [simp]:
  "turns (finish g rc u status err body n w) = turns w @ [finished g rc u status err w]"
  "sends (finish g rc u status err body n w) = sends w"
  "client (finish g rc u status err body n w) = client w"
  "router (finish g rc u status err body n w) = router w"
  by (simp_all add: finish_def finished_def case_prod_unfold Let_def foldl_emit_rollups split: option.split)

lemma finish_rollups:
  "rollups (finish g rc u status err body n w) = rollups w @
     (case bucket_start (calendar g) Day (rc_created_at rc) of
        None \<Rightarrow> []
      | Some start \<Rightarrow> map (finish_delta (finished g rc u status err w) start) (rollup_subjects rc))"
  by (simp add: finish_def finished_def case_prod_unfold Let_def foldl_emit_rollups split: option.split)

lemma finished_simps:
  "t_status (finished g rc u status err w) = uint status"
  "t_is_error (finished g rc u status err w) = err"
  "t_input_tokens (finished g rc u status err w) = uint (input_tokens u)"
  "t_output_tokens (finished g rc u status err w) = uint (output_tokens u)"
  "t_cost_micros (finished g rc u status err w) = cost_micros (turn_price (rc_deployment rc))
     (uint (input_tokens u)) (uint (output_tokens u)) (uint (cache_read_tokens u)) (uint (cache_write_tokens u))"
  by (simp_all add: finished_def finish_telemetry_def Let_def)

section \<open>Timing and policy\<close>

lemma speed_first_bound:
  assumes "0 \<le> latency" "\<forall>f. first = Some f \<longrightarrow> 0 \<le> f \<and> f \<le> latency"
  shows "\<forall>f. first_token_ms (speed_of u latency first outs waited) = Some f \<longrightarrow> 0 \<le> f \<and> f \<le> latency"
  using assms by (auto simp: speed_of_def Let_def or_else_def split: option.splits if_splits)

lemma policy_route_eligible:
  assumes "eligible (policy_route_request ctx req) d"
  shows "model_id d \<notin> set (denied_model_ids (ctx_access ctx))"
    "provider_id d \<notin> set (denied_provider_ids (ctx_access ctx))"
    "permits_provider (ctx_access ctx) (provider_id d)"
  using assms
  by (auto simp: eligible_def policy_route_request_def permits_provider_def split: if_splits option.splits)

section \<open>Spend\<close>

lemma period_within_day:
  assumes "utc_calendar cal" "0 \<le> t" "bucket_start cal p t = Some s" "bucket_start cal Day t = Some d"
  shows "s \<le> d"
proof (cases p)
  case Week
  have "0 \<le> (t div day_nanos + 3) mod 7 * day_nanos" by simp
  with assms Week utc_calendar.week_start [OF assms(1,2)] utc_calendar.day_start [OF assms(1,2)]
  show ?thesis by simp
next
  case Month
  have "0 \<le> int (day cal t - 1) * day_nanos" by simp
  with assms Month utc_calendar.month_start [OF assms(1,2)] utc_calendar.day_start [OF assms(1,2)]
  show ?thesis by simp
next
  case Total
  have "0 \<le> t - t mod day_nanos" using assms(2) by (simp add: minus_mod_eq_div_mult)
  with assms Total utc_calendar.day_start [OF assms(1,2)] show ?thesis by simp
qed (use assms in simp)

lemma rollup_subjects_matches:
  assumes "(st, sid) \<in> set (rollup_subjects rc)" "s \<le> d"
  shows "sum_list (map spend_micros (filter (spend_matches (st, sid, s))
    (map (finish_delta t d) (rollup_subjects rc)))) = t_cost_micros t"
  using assms
  by (cases "rc_api_key_id rc"; cases "rc_user_id rc"; cases "rc_team_id rc")
     (auto simp: rollup_subjects_def finish_delta_def spend_matches_def)

text \<open>C14: Recording a turn charges it to every budget it counts against: for the key, the user and the
  team the turn carries, the spend of each period that holds the turn rises by exactly the turn's
  cost.\<close>
theorem finish_charges_budgets:
  assumes "utc_calendar (calendar g)" "0 \<le> rc_created_at rc" "(st, sid) \<in> set (rollup_subjects rc)"
    and "period_spend (calendar g) (foldl upsert_rollup [] (rollups w)) st sid p (rc_created_at rc) = Some before"
  shows "period_spend (calendar g) (foldl upsert_rollup [] (rollups (finish g rc u status err body n w)))
      st sid p (rc_created_at rc) =
    Some (before + cost_micros (turn_price (rc_deployment rc)) (uint (input_tokens u)) (uint (output_tokens u))
      (uint (cache_read_tokens u)) (uint (cache_write_tokens u)))"
proof -
  obtain s where s: "bucket_start (calendar g) p (rc_created_at rc) = Some s"
    and b: "before = spend_since (foldl upsert_rollup [] (rollups w)) (st, sid, s)"
    using assms(4) by (auto simp: period_spend_since)
  obtain d where d: "bucket_start (calendar g) Day (rc_created_at rc) = Some d"
    using utc_calendar.day_start [OF assms(1,2)] by blast
  have "s \<le> d" by (rule period_within_day [OF assms(1,2) s d])
  note cost = rollup_subjects_matches [OF assms(3) this, of "finished g rc u status err w"]
  show ?thesis
    by (simp only: period_spend_since s option.map finish_rollups d option.case foldl_append
        ledger.query_run cost b finished_simps)
qed

definition sample_price_ctx :: record_ctx where
  "sample_price_ctx =
     record_ctx_new \<lparr>ctx_api_key = None, ctx_user_id = Some ''u'', ctx_team_id = None, ctx_request_id = [],
        ctx_trace_id = None, ctx_parent_span_id = None, ctx_tags = None, ctx_excluded_model_ids = [],
        ctx_excluded_provider_ids = [], ctx_access = policy_default, ctx_token_meter = False\<rparr> [] []
       ((sample_deployment ''m'' ''p'')\<lparr>pricing := Some (price_new 1000000 0)\<rparr>) [] 0 0"

definition sample_price_gateway :: "(unit, unit, unit) gateway" where
  "sample_price_gateway =
     \<lparr>send = (\<lambda>c u. (None, c)),
      wire = \<lparr>parse_request = (\<lambda>f b. Inl (Json [])), emit_request = (\<lambda>f c e. Inl (Json [])),
        parse_response = (\<lambda>f b. Inl (Json [])), emit_response = (\<lambda>f r. Inl (Json [])),
        decoder_new = (\<lambda>f. ()), decode_line = (\<lambda>d l. ([], ())), encoder_new = (\<lambda>f. ()),
        encode = (\<lambda>e evs. ([], ())), encoder_finish = (\<lambda>e. ([], ())), set_include_usage = (\<lambda>b e. e),
        set_prompt_cache = (\<lambda>k r e. e), json_from_str = (\<lambda>s. None), json_to_string = (\<lambda>j. []),
        ir_to_vec = (\<lambda>r. [])\<rparr>,
      cf_access = None, environ = (\<lambda>_. None), calendar = gregorian,
      wall_clock = int, instant = int, fresh_id = (\<lambda>n. [])\<rparr>"

theorem finish_charges_budgets_witness:
  "period_spend gregorian (foldl upsert_rollup [] (rollups (finish sample_price_gateway sample_price_ctx
      (usage_default\<lparr>input_tokens := 3\<rparr>) 200 False [] 0
      \<lparr>client = (), router = sample_router RoundRobin, effects = [], tick = 0\<rparr>))) UserSubject ''u'' Total 0 =
   Some (cost_micros (price_new 1000000 0) 3 0 0 0)"
proof -
  let ?w = "\<lparr>client = (), router = sample_router RoundRobin, effects = [], tick = 0\<rparr>"
  have c: "utc_calendar (calendar sample_price_gateway)"
    using utc.utc_calendar_axioms by (simp add: sample_price_gateway_def)
  have s: "(UserSubject, ''u'') \<in> set (rollup_subjects sample_price_ctx)" "0 \<le> rc_created_at sample_price_ctx"
    by (simp_all add: rollup_subjects_def sample_price_ctx_def record_ctx_new_def)
  have "period_spend (calendar sample_price_gateway) (foldl upsert_rollup [] (rollups ?w)) UserSubject ''u'' Total
      (rc_created_at sample_price_ctx) = Some 0"
    by (simp add: period_spend_def rollups_def)
  from finish_charges_budgets [OF c s(2,1) this, of "usage_default\<lparr>input_tokens := 3\<rparr>" 200 False "[]" 0]
  show ?thesis
    by (simp add: sample_price_gateway_def sample_price_ctx_def record_ctx_new_def turn_price_def or_else_def
        usage_default_def)
qed

end
