(* ===== verification/Gateway_Turn.thy ===== *)
theory Gateway_Turn
  imports Gateway_Core
begin

text \<open>
  The chat turn of \<open>crates/yb-gateway/src/service.rs\<close>: \<open>Gateway::handle\<close> with its dispatch loop,
  the buffered and streamed response paths, and the streamed translation as a state machine
  (\<open>poll\<close> of the unfolded stream, and the drop of its state).
\<close>

section \<open>Responses\<close>

text \<open>The state of a translated stream (\<open>StreamState\<close>).\<close>
record ('d, 'e) stream_state =
  upstream :: byte_stream
  buf :: bytes
  decoder :: 'd
  encoder :: 'e
  st_usage :: usage
  agg :: aggregator
  response_bytes :: int
  st_status :: "16 word"
  rctx :: record_ctx
  ended :: bool
  recorded :: bool
  st_surface :: wire_format

text \<open>
  What a handler returns: a buffered body, a translated stream still to be polled, or a stream of
  one chunk already encoded.
\<close>
datatype ('d, 'e) gateway_response =
    FullResponse "16 word" header_list bytes
  | StreamResponse "16 word" header_list "('d, 'e) stream_state"
  | OnceResponse "16 word" header_list bytes

text \<open>A handler returns, or its caller hangs up while it waits.\<close>
datatype 'a outcome = Returned 'a | Cancelled

definition json_headers :: header_list where
  "json_headers = [(''content-type'', ''application/json'')]"

definition sse_headers :: header_list where
  "sse_headers = [(''content-type'', ''text/event-stream''), (''cache-control'', ''no-cache'')]"

definition apply_cache_echo :: "string option \<times> string option \<Rightarrow> chat_response \<Rightarrow> chat_response" where
  "apply_cache_echo echo r =
     r\<lparr>response_cache_key := or_else (response_cache_key r) (fst echo),
       response_cache_retention := or_else (response_cache_retention r) (snd echo)\<rparr>"

definition stall_error :: error where
  "stall_error = Upstream ''upstream'' 504 ''stream stalled: no data for 300s''"

definition emit_full ::
  "('c, 'd, 'e) gateway \<Rightarrow> wire_format \<Rightarrow> chat_response \<Rightarrow> record_ctx \<Rightarrow> 16 word \<Rightarrow> 'c world \<Rightarrow>
   ('d, 'e) gateway_response result \<times> 'c world" where
  "emit_full g surface resp rc status w =
     (case lift_wire (emit_response (wire g) surface resp) of
        Inl e \<Rightarrow> (Inl e, w)
      | Inr out \<Rightarrow>
          (Inr (FullResponse status json_headers out),
           finish g rc (response_usage resp) status False (ir_to_vec (wire g) resp) (int (length out)) w))"

text \<open>The complete lines of a buffer, each with its line feed, and what is left.\<close>
function split_lines :: "bytes \<Rightarrow> bytes list \<times> bytes" where
  "split_lines bs =
     (case find_str bs [CHR 0x0A] of
        None \<Rightarrow> ([], bs)
      | Some pos \<Rightarrow> (let (ls, r) = split_lines (drop (pos + 1) bs) in (take (pos + 1) bs # ls, r)))"
  by pat_completeness auto
termination
  by (relation "measure length") (auto dest: find_str_Some)

declare split_lines.simps [simp del]

text \<open>One line through the decoder: lossy text, line end trimmed.\<close>
definition decode_bytes :: "('d, 'e) wire_ops \<Rightarrow> 'd \<Rightarrow> bytes \<Rightarrow> stream_event list \<times> 'd" where
  "decode_bytes wo d line = decode_line wo d (trim_line_end (from_utf8_lossy line))"

fun aggregate_lines ::
  "('c, 'd, 'e) gateway \<Rightarrow> bytes list \<Rightarrow> 'd \<times> aggregator \<times> record_ctx \<times> 'c world \<Rightarrow>
   'd \<times> aggregator \<times> record_ctx \<times> 'c world" where
  "aggregate_lines g [] st = st"
| "aggregate_lines g (l # ls) (d, a, rc, w) =
     (let (evs, d) = decode_bytes (wire g) d l;
          (rc, w) = saw g rc evs w
      in aggregate_lines g ls (d, push_all a evs, rc, w))"

fun aggregate_loop ::
  "('c, 'd, 'e) gateway \<Rightarrow> byte_stream \<Rightarrow> bytes \<Rightarrow> 16 word \<Rightarrow> 'd \<times> aggregator \<times> record_ctx \<times> 'c world \<Rightarrow>
   (error + bytes \<times> 'd \<times> aggregator \<times> record_ctx) \<times> 'c world" where
  "aggregate_loop g [] bf status (d, a, rc, w) = (Inr (bf, d, a, rc), w)"
| "aggregate_loop g (Chunk c # items) bf status st =
     (let (ls, bf) = split_lines (bf @ c)
      in aggregate_loop g items bf status (aggregate_lines g ls st))"
| "aggregate_loop g (Broken e # items) bf status (d, a, rc, w) =
     (Inl e, finish g rc usage_default status True [] 0 w)"
| "aggregate_loop g (Stalled # items) bf status (d, a, rc, w) =
     (Inl stall_error, finish g rc usage_default status True [] 0 w)"

definition aggregate_stream ::
  "('c, 'd, 'e) gateway \<Rightarrow> byte_stream \<Rightarrow> wire_format \<Rightarrow> wire_format \<Rightarrow> record_ctx \<Rightarrow> 16 word \<Rightarrow>
   string option \<times> string option \<Rightarrow> 'c world \<Rightarrow> ('d, 'e) gateway_response result \<times> 'c world" where
  "aggregate_stream g up upfmt surface rc status echo w =
     (case aggregate_loop g up [] status (decoder_new (wire g) upfmt, aggregator_new, rc, w) of
        (Inl e, w) \<Rightarrow> (Inl e, w)
      | (Inr (bf, d, a, rc), w) \<Rightarrow>
          (let a = (if bf = [] then a else push_all a (fst (decode_bytes (wire g) d bf)));
               resp = apply_cache_echo echo (into_response (json_from_str (wire g)) a (rc_request_id rc))
           in emit_full g surface resp rc status w))"

definition full_to_stream ::
  "('c, 'd, 'e) gateway \<Rightarrow> chat_response \<Rightarrow> wire_format \<Rightarrow> record_ctx \<Rightarrow> 16 word \<Rightarrow> 'c world \<Rightarrow>
   ('d, 'e) gateway_response result \<times> 'c world" where
  "full_to_stream g resp surface rc status w =
     (let evs = events_from_response (json_to_string (wire g)) resp;
          out = fst (encode (wire g) (encoder_new (wire g) surface) evs)
      in (Inr (OnceResponse status sse_headers out),
          finish g rc (response_usage resp) status False (ir_to_vec (wire g) resp) (int (length out)) w))"

section \<open>The translated stream\<close>

definition translate_stream ::
  "('c, 'd, 'e) gateway \<Rightarrow> byte_stream \<Rightarrow> wire_format \<Rightarrow> wire_format \<Rightarrow> record_ctx \<Rightarrow> 16 word \<Rightarrow>
   string option \<times> string option \<Rightarrow> bool \<Rightarrow> ('d, 'e) stream_state" where
  "translate_stream g up upfmt surface rc status echo incl =
     \<lparr>upstream = up, buf = [], decoder = decoder_new (wire g) upfmt,
      encoder = set_include_usage (wire g) incl
        (set_prompt_cache (wire g) (fst echo) (snd echo) (encoder_new (wire g) surface)),
      st_usage = usage_default, agg = aggregator_new, response_bytes = 0, st_status = status,
      rctx = rc, ended = False, recorded = False, st_surface = surface\<rparr>"

text \<open>The captured turn so far; taking it leaves an empty aggregator behind.\<close>
definition ir_json :: "('c, 'd, 'e) gateway \<Rightarrow> ('d, 'e) stream_state \<Rightarrow> bytes \<times> ('d, 'e) stream_state" where
  "ir_json g st =
     (ir_to_vec (wire g) (into_response (json_from_str (wire g)) (agg st) (rc_request_id (rctx st))),
      st\<lparr>agg := aggregator_new\<rparr>)"

definition merge_usages :: "usage \<Rightarrow> stream_event list \<Rightarrow> usage" where
  "merge_usages u evs = foldl usage_merge u (usages evs)"

fun decode_lines ::
  "('c, 'd, 'e) gateway \<Rightarrow> bytes list \<Rightarrow> ('d, 'e) stream_state \<Rightarrow> 'c world \<Rightarrow>
   stream_event list \<times> ('d, 'e) stream_state \<times> 'c world" where
  "decode_lines g [] st w = ([], st, w)"
| "decode_lines g (l # ls) st w =
     (let (evs, d) = decode_bytes (wire g) (decoder st) l;
          (rc, w) = saw g (rctx st) evs w;
          st = st\<lparr>decoder := d, rctx := rc, st_usage := merge_usages (st_usage st) evs,
                  agg := push_all (agg st) evs\<rparr>;
          (more_evs, st, w) = decode_lines g ls st w
      in (evs @ more_evs, st, w))"

definition is_done :: "stream_event \<Rightarrow> bool" where
  "is_done ev = (case ev of Done _ \<Rightarrow> True | _ \<Rightarrow> False)"

fun ends_stream :: "wire_format \<Rightarrow> bytes \<Rightarrow> stream_event list \<Rightarrow> bool" where
  "ends_stream OpenaiChat bs evs = contains_str (from_utf8_lossy bs) ''data: [DONE]''"
| "ends_stream Anthropic bs evs = contains_str (from_utf8_lossy bs) ''message_stop''"
| "ends_stream OpenaiResponses bs evs = contains_str (from_utf8_lossy bs) ''response.completed''"
| "ends_stream Gemini bs evs = list_ex is_done evs"

text \<open>Recording the turn from the stream's own state.\<close>
definition record_turn ::
  "('c, 'd, 'e) gateway \<Rightarrow> bool \<Rightarrow> ('d, 'e) stream_state \<Rightarrow> 'c world \<Rightarrow> ('d, 'e) stream_state \<times> 'c world" where
  "record_turn g err st w =
     (let (ir, st) = ir_json g st;
          w = finish g (rctx st) (st_usage st) (st_status st) err ir (response_bytes st) w
      in (st\<lparr>recorded := True\<rparr>, w))"

text \<open>The end of the upstream: flush the last line, close the encoder, record.\<close>
definition poll_end ::
  "('c, 'd, 'e) gateway \<Rightarrow> ('d, 'e) stream_state \<Rightarrow> 'c world \<Rightarrow> bytes \<times> ('d, 'e) stream_state \<times> 'c world" where
  "poll_end g st w =
     (let (evs, st) =
            (if buf st = [] then ([], st)
             else let (evs, d) = decode_bytes (wire g) (decoder st) (buf st)
                  in (evs, st\<lparr>buf := [], decoder := d, st_usage := merge_usages (st_usage st) evs,
                              agg := push_all (agg st) evs\<rparr>));
          st = st\<lparr>ended := True\<rparr>;
          (b1, en) = (if evs = [] then ([], encoder st) else encode (wire g) (encoder st) evs);
          (b2, en) = encoder_finish (wire g) en;
          out = b1 @ b2;
          st = st\<lparr>encoder := en, response_bytes := response_bytes st + int (length out)\<rparr>;
          (st, w) = record_turn g False st w
      in (out, st, w))"

text \<open>
  One item of the upstream: either the poll goes on with the state after it, or it yields.
\<close>
definition poll_chunk ::
  "('c, 'd, 'e) gateway \<Rightarrow> bytes \<Rightarrow> ('d, 'e) stream_state \<Rightarrow> 'c world \<Rightarrow>
   bytes option \<times> ('d, 'e) stream_state \<times> 'c world" where
  "poll_chunk g c st w =
     (let (ls, bf) = split_lines (buf st @ c);
          (evs, st, w) = decode_lines g ls (st\<lparr>buf := bf\<rparr>) w
      in if evs = [] then (None, st, w)
         else let (out, en) = encode (wire g) (encoder st) evs; st = st\<lparr>encoder := en\<rparr> in
           if out = [] then (None, st, w)
           else let st = st\<lparr>response_bytes := response_bytes st + int (length out)\<rparr> in
             if \<not> recorded st \<and> ends_stream (st_surface st) out evs
             then let (st, w) = record_turn g False st w in (Some out, st\<lparr>ended := True\<rparr>, w)
             else (Some out, st, w))"

definition poll_error ::
  "('c, 'd, 'e) gateway \<Rightarrow> ('d, 'e) stream_state \<Rightarrow> 'c world \<Rightarrow> ('d, 'e) stream_state \<times> 'c world" where
  "poll_error g st w = record_turn g True (st\<lparr>ended := True\<rparr>) w"

text \<open>
  Polling the stream: \<open>None\<close> when it has ended, otherwise the next item. The loop goes on while
  an item of the upstream gives no output, so it is a recursion on what the upstream still has.
\<close>
fun poll_items ::
  "('c, 'd, 'e) gateway \<Rightarrow> byte_stream \<Rightarrow> ('d, 'e) stream_state \<Rightarrow> 'c world \<Rightarrow>
   bytes result option \<times> ('d, 'e) stream_state \<times> 'c world" where
  "poll_items g [] st w =
     (let (out, st, w) = poll_end g (st\<lparr>upstream := []\<rparr>) w in (Some (Inr out), st, w))"
| "poll_items g (Chunk c # items) st w =
     (case poll_chunk g c (st\<lparr>upstream := items\<rparr>) w of
        (None, st, w) \<Rightarrow> poll_items g items st w
      | (Some out, st, w) \<Rightarrow> (Some (Inr out), st, w))"
| "poll_items g (Broken e # items) st w =
     (let (st, w) = poll_error g (st\<lparr>upstream := items\<rparr>) w in (Some (Inl e), st, w))"
| "poll_items g (Stalled # items) st w =
     (let (st, w) = poll_error g (st\<lparr>upstream := items\<rparr>) w in (Some (Inl stall_error), st, w))"

definition poll ::
  "('c, 'd, 'e) gateway \<Rightarrow> ('d, 'e) stream_state \<Rightarrow> 'c world \<Rightarrow>
   bytes result option \<times> ('d, 'e) stream_state \<times> 'c world" where
  "poll g st w =
     (if ended st then
        (if recorded st then (None, st, w)
         else let (st, w) = record_turn g False st w in (None, st, w))
      else poll_items g (upstream st) st w)"

text \<open>Dropping the state before the turn was recorded: the client closed the request.\<close>
definition stream_drop :: "('c, 'd, 'e) gateway \<Rightarrow> ('d, 'e) stream_state \<Rightarrow> 'c world \<Rightarrow> 'c world" where
  "stream_drop g st w =
     (if recorded st then w
      else let (ir, st) = ir_json g st
           in finish g (rctx st) (st_usage st) 499 True ir (response_bytes st) w)"

text \<open>A client that polls \<open>n\<close> times and then lets go of the stream: what it read, and the world.\<close>
fun run_stream ::
  "('c, 'd, 'e) gateway \<Rightarrow> nat \<Rightarrow> ('d, 'e) stream_state \<Rightarrow> 'c world \<Rightarrow> bytes result list \<times> 'c world" where
  "run_stream g 0 st w = ([], stream_drop g st w)"
| "run_stream g (Suc n) st w =
     (case poll g st w of
        (None, st, w) \<Rightarrow> ([], stream_drop g st w)
      | (Some item, st, w) \<Rightarrow> (let (items, w) = run_stream g n st w in (item # items, w)))"

section \<open>Dispatch\<close>

definition upstream_call ::
  "('c, 'd, 'e) gateway \<Rightarrow> wire_format \<Rightarrow> chat_request \<Rightarrow> deployment \<Rightarrow> upstream_request result" where
  "upstream_call g fmt chat d =
     (case lift_wire (emit_request (wire g) fmt chat
        \<lparr>target_model = upstream_model d, force_reasoning_effort = None, emit_stream = True\<rparr>) of
        Inl e \<Rightarrow> Inl e
      | Inr (up_body, hs) \<Rightarrow>
          let key = (case api_key d of None \<Rightarrow> [] | Some k \<Rightarrow> k);
              hs = hs @ auth_headers (environ g) fmt key;
              hs = append_headers hs (extra_headers (cf_access g) (extra d))
          in Inr \<lparr>url = build_url fmt (api_base d) (upstream_model d) True, http_method = Post,
                  req_headers = hs, req_body = up_body, req_stream = True\<rparr>)"

text \<open>A committed success, adapted to what the client asked for.\<close>
definition commit_success ::
  "('c, 'd, 'e) gateway \<Rightarrow> wire_format \<Rightarrow> wire_format \<Rightarrow> chat_request \<Rightarrow> record_ctx \<Rightarrow>
   upstream_response \<Rightarrow> 'c world \<Rightarrow> ('d, 'e) gateway_response result \<times> 'c world" where
  "commit_success g surface upfmt chat rc resp w =
     (let rc = rc\<lparr>waited_ms := waited_ms_of (resp_headers resp)\<rparr>;
          status = resp_status resp;
          echo = (prompt_cache_key chat, prompt_cache_retention chat)
      in case (stream chat, resp_body resp) of
           (False, StreamBody up) \<Rightarrow> aggregate_stream g up upfmt surface rc status echo w
         | (False, FullBody bs) \<Rightarrow>
             (case lift_wire (parse_response (wire g) upfmt bs) of
                Inl e \<Rightarrow> (Inl e, w)
              | Inr r \<Rightarrow> emit_full g surface (apply_cache_echo echo r) rc status w)
         | (True, StreamBody up) \<Rightarrow>
             (Inr (StreamResponse status sse_headers
                (translate_stream g up upfmt surface rc status echo (include_usage chat))), w)
         | (True, FullBody bs) \<Rightarrow>
             (case lift_wire (parse_response (wire g) upfmt bs) of
                Inl e \<Rightarrow> (Inl e, w)
              | Inr r \<Rightarrow> full_to_stream g (apply_cache_echo echo r) surface rc status w))"

definition exhausted_error :: "chat_request \<Rightarrow> error option \<Rightarrow> bool \<Rightarrow> error" where
  "exhausted_error chat last_err saw_embed_only =
     (if saw_embed_only then
        BadRequest (''model '' @ model chat @ '' is an embeddings model; use an embeddings endpoint'')
      else case last_err of None \<Rightarrow> NoEligibleProvider (model chat) | Some e \<Rightarrow> e)"

fun dispatch ::
  "('c, 'd, 'e) gateway \<Rightarrow> wire_format \<Rightarrow> bytes \<Rightarrow> request_ctx \<Rightarrow> chat_request \<Rightarrow> turn_guard \<Rightarrow>
   deployment list \<Rightarrow> error option \<Rightarrow> bool \<Rightarrow> 'c world \<Rightarrow>
   ('d, 'e) gateway_response result outcome \<times> 'c world" where
  "dispatch g surface body ctx chat tg [] last_err saw_embed_only w =
     (let e = exhausted_error chat last_err saw_embed_only
      in (Returned (Inl e), guard_fail g tg (http_status e) w))"
| "dispatch g surface body ctx chat tg (d # ds) last_err saw_embed_only w =
     (case upstream_format d of
        Embed _ \<Rightarrow> dispatch g surface body ctx chat tg ds last_err saw_embed_only w
      | Media _ \<Rightarrow> dispatch g surface body ctx chat tg ds last_err saw_embed_only w
      | Chat fmt \<Rightarrow>
          (case upstream_call g fmt chat d of
             Inl e \<Rightarrow> (Returned (Inl e), guard_fail g tg (http_status e) w)
           | Inr ureq \<Rightarrow>
               let w = emit (SendUpstream d ureq) w;
                   (res, c) = send g (client w) ureq;
                   w = w\<lparr>client := c\<rparr>
               in case res of
                    None \<Rightarrow> (Cancelled, turn_guard_drop g tg w)
                  | Some (Inl e) \<Rightarrow> dispatch g surface body ctx chat tg ds (Some e) False w
                  | Some (Inr resp) \<Rightarrow>
                      let status = resp_status resp;
                          rc = record_ctx_new ctx (wire_format_as_str surface) (model chat) d body
                                 (tg_started tg) (tg_created_at tg)
                      in if \<not> is_success status then
                           let message = read_body_message (resp_body resp);
                               e = Upstream (provider d) status message
                           in if is_retryable status \<or> is_model_not_found status
                              then dispatch g surface body ctx chat tg ds (Some e) False w
                              else (Returned (Inl e), finish g rc usage_default status True [] 0 w)
                         else let (r, w) = commit_success g surface fmt chat rc resp w
                              in (Returned r, w)))"

definition handle ::
  "('c, 'd, 'e) gateway \<Rightarrow> wire_format \<Rightarrow> bytes \<Rightarrow> request_ctx \<Rightarrow> 'c world \<Rightarrow>
   ('d, 'e) gateway_response result outcome \<times> 'c world" where
  "handle g surface body ctx w =
     (let (started, w) = read_instant g w;
          (created, w) = read_now g w
      in case lift_wire (parse_request (wire g) surface body) of
           Inl e \<Rightarrow> (Returned (Inl e), w)
         | Inr chat \<Rightarrow>
             let tg = turn_guard_new ctx (wire_format_as_str surface) (model chat) started created;
                 (dec, r) = resolve (router w) (build_route_request chat ctx);
                 w = w\<lparr>router := r\<rparr>
             in case dec of
                  Inl e \<Rightarrow> (Returned (Inl e), guard_fail g tg (http_status e) w)
                | Inr d \<Rightarrow>
                    let cands = filter_access (candidates d) ctx
                    in if cands = [] then
                         let e = NoEligibleProvider (model chat)
                         in (Returned (Inl e), guard_fail g tg (http_status e) w)
                       else dispatch g surface body ctx chat tg cands None True w)"

section \<open>How an attempted turn ends\<close>

text \<open>
  The ways a handler can leave the world: cancelled and recorded as a closed request; failed with
  the failure recorded, or with a wire error and no record; answered with a stream that has yet to
  record itself; or answered and recorded as served.
\<close>
definition turn_ends ::
  "('d, 'e) gateway_response result outcome \<Rightarrow> 'c world \<Rightarrow> 'c world \<Rightarrow> bool" where
  "turn_ends r w w' \<longleftrightarrow>
     (case r of
        Cancelled \<Rightarrow> \<exists>t. turns w' = turns w @ [t] \<and> t_status t = 499 \<and> t_is_error t
      | Returned (Inl e) \<Rightarrow>
          (turns w' = turns w \<and> (\<exists>m. e = Wire m)) \<or> (\<exists>t. turns w' = turns w @ [t] \<and> t_is_error t)
      | Returned (Inr (StreamResponse s h st)) \<Rightarrow> turns w' = turns w \<and> \<not> recorded st \<and> \<not> ended st
      | Returned (Inr (FullResponse s h b)) \<Rightarrow>
          \<exists>t. turns w' = turns w @ [t] \<and> t_status t = uint s \<and> \<not> t_is_error t
      | Returned (Inr (OnceResponse s h b)) \<Rightarrow>
          \<exists>t. turns w' = turns w @ [t] \<and> t_status t = uint s \<and> \<not> t_is_error t)"

lemma turn_ends_cong:
  assumes "turns v = turns w"
  shows "turn_ends r v w' = turn_ends r w w'"
  unfolding turn_ends_def assms by (rule refl)

lemma lift_wire_Inl: "lift_wire x = Inl e \<Longrightarrow> \<exists>m. e = Wire m"
  by (auto simp: lift_wire_def wire_err_def split: sum.splits)

lemma emit_full_ends:
  assumes "emit_full g surface resp rc status w = (r, w')"
  shows "turn_ends (Returned r) w w' \<and> sends w' = sends w"
  using assms
  by (auto simp: emit_full_def turn_ends_def finished_simps dest: lift_wire_Inl split: sum.splits)

lemma aggregate_lines_world:
  assumes "aggregate_lines g ls (d, a, rc, w) = (d', a', rc', w')"
  shows "turns w' = turns w \<and> sends w' = sends w"
  using assms
proof (induction ls arbitrary: d a rc w)
  case (Cons l ls)
  obtain evs d1 where d: "decode_bytes (wire g) d l = (evs, d1)" by fastforce
  obtain rc1 w1 where s: "saw g rc evs w = (rc1, w1)" by fastforce
  have "turns w1 = turns w" "sends w1 = sends w" using s saw_world(1,2) [of g rc evs w] by auto
  with Cons d s show ?case by simp
qed simp

lemma aggregate_loop_world:
  assumes "aggregate_loop g items bf status (d, a, rc, w) = (res, w')"
  shows "sends w' = sends w \<and> (case res of
      Inl e \<Rightarrow> \<exists>t. turns w' = turns w @ [t] \<and> t_is_error t \<and> t_status t = uint status
    | Inr _ \<Rightarrow> turns w' = turns w)"
  using assms
proof (induction items arbitrary: bf d a rc w)
  case (Cons i items)
  show ?case
  proof (cases i)
    case (Chunk c)
    obtain ls b where l: "split_lines (bf @ c) = (ls, b)" by fastforce
    obtain d1 a1 rc1 w1 where s: "aggregate_lines g ls (d, a, rc, w) = (d1, a1, rc1, w1)"
      by (metis prod_cases4)
    from Cons.prems Chunk l s have "aggregate_loop g items b status (d1, a1, rc1, w1) = (res, w')" by simp
    from Cons.IH [OF this] aggregate_lines_world [OF s] show ?thesis by (cases res) auto
  qed (use Cons.prems in \<open>auto simp: finished_simps\<close>)
qed auto

lemma aggregate_stream_ends:
  assumes "aggregate_stream g up upfmt surface rc status echo w = (r, w')"
  shows "turn_ends (Returned r) w w' \<and> sends w' = sends w"
proof -
  obtain res w1 where l: "aggregate_loop g up [] status (decoder_new (wire g) upfmt, aggregator_new, rc, w) =
      (res, w1)" by fastforce
  note lw = aggregate_loop_world [OF l]
  show ?thesis
  proof (cases res)
    case (Inl e)
    with assms l lw show ?thesis by (auto simp: aggregate_stream_def turn_ends_def)
  next
    case (Inr v)
    obtain bf d a rc1 where v: "v = (bf, d, a, rc1)" by (cases v)
    have same: "turns w1 = turns w" "sends w1 = sends w" using lw Inr by auto
    obtain resp where "emit_full g surface resp rc1 status w1 = (r, w')"
      using assms l Inr v by (auto simp: aggregate_stream_def Let_def)
    from emit_full_ends [OF this] show ?thesis by (simp add: same turn_ends_cong [OF same(1)])
  qed
qed

lemma full_to_stream_ends:
  assumes "full_to_stream g resp surface rc status w = (r, w')"
  shows "turn_ends (Returned r) w w' \<and> sends w' = sends w"
  using assms by (auto simp: full_to_stream_def Let_def turn_ends_def finished_simps)

lemma commit_success_ends:
  assumes "commit_success g surface upfmt chat rc resp w = (r, w')"
  shows "turn_ends (Returned r) w w' \<and> sends w' = sends w"
proof (cases "resp_body resp")
  case (FullBody bs)
  show ?thesis
  proof (cases "lift_wire (parse_response (wire g) upfmt bs)")
    case (Inl e)
    with assms FullBody have "r = Inl e" "w' = w"
      by (auto simp: commit_success_def Let_def split: bool.splits)
    with lift_wire_Inl [OF Inl] show ?thesis by (auto simp: turn_ends_def)
  next
    case (Inr x)
    with assms FullBody show ?thesis
      by (cases "stream chat") (auto simp: commit_success_def Let_def dest: emit_full_ends full_to_stream_ends)
  qed
next
  case (StreamBody up)
  show ?thesis
  proof (cases "stream chat")
    case True
    with assms StreamBody show ?thesis
      by (auto simp: commit_success_def Let_def turn_ends_def translate_stream_def)
  next
    case False
    with assms StreamBody show ?thesis
      by (auto simp: commit_success_def Let_def dest: aggregate_stream_ends)
  qed
qed

section \<open>The dispatch loop\<close>

definition is_chat :: "deployment \<Rightarrow> bool" where
  "is_chat d = (case upstream_format d of Chat _ \<Rightarrow> True | _ \<Rightarrow> False)"

text \<open>Whether an answer lets the loop try the next candidate.\<close>
definition fails_over :: "upstream_response result \<Rightarrow> bool" where
  "fails_over res = (case res of
     Inl _ \<Rightarrow> True
   | Inr r \<Rightarrow> \<not> is_success (resp_status r) \<and>
       (is_retryable (resp_status r) \<or> is_model_not_found (resp_status r)))"

definition call_of :: "('c, 'd, 'e) gateway \<Rightarrow> chat_request \<Rightarrow> deployment \<times> upstream_request \<Rightarrow> bool" where
  "call_of g chat s \<longleftrightarrow> (\<exists>fmt. upstream_format (fst s) = Chat fmt \<and> upstream_call g fmt chat (fst s) = Inr (snd s))"

text \<open>
  One step of the loop on a chat candidate whose request could be built: what was answered decides
  whether the loop goes on.
\<close>
lemma dispatch_step:
  assumes "upstream_format d = Chat fmt" "upstream_call g fmt chat d = Inr u"
    and "send g (client w) u = (res, c)"
  shows "dispatch g surface body ctx chat tg (d # ds) le se w =
    (let w1 = (emit (SendUpstream d u) w)\<lparr>client := c\<rparr>;
         rc = record_ctx_new ctx (wire_format_as_str surface) (model chat) d body (tg_started tg) (tg_created_at tg)
     in case res of
          None \<Rightarrow> (Cancelled, turn_guard_drop g tg w1)
        | Some (Inl e) \<Rightarrow> dispatch g surface body ctx chat tg ds (Some e) False w1
        | Some (Inr resp) \<Rightarrow>
            if fails_over (Inr resp)
            then dispatch g surface body ctx chat tg ds
              (Some (Upstream (provider d) (resp_status resp) (read_body_message (resp_body resp)))) False w1
            else if is_success (resp_status resp)
            then (let (r, w') = commit_success g surface fmt chat rc resp w1 in (Returned r, w'))
            else (Returned (Inl (Upstream (provider d) (resp_status resp) (read_body_message (resp_body resp)))),
                  finish g rc usage_default (resp_status resp) True [] 0 w1))"
  using assms by (auto simp: fails_over_def Let_def split: option.split sum.split)

lemma dispatch_skip:
  "\<not> is_chat d \<Longrightarrow> dispatch g surface body ctx chat tg (d # ds) le se w =
     dispatch g surface body ctx chat tg ds le se w"
  by (auto simp: is_chat_def split: upstream_format.splits)

lemma dispatch_emit_error:
  "upstream_format d = Chat fmt \<Longrightarrow> upstream_call g fmt chat d = Inl e \<Longrightarrow>
   dispatch g surface body ctx chat tg (d # ds) le se w = (Returned (Inl e), guard_fail g tg (http_status e) w)"
  by simp

declare dispatch.simps(2) [simp del]

definition sent_world :: "deployment \<Rightarrow> upstream_request \<Rightarrow> 'c \<Rightarrow> 'c world \<Rightarrow> 'c world" where
  "sent_world d u c w = (emit (SendUpstream d u) w)\<lparr>client := c\<rparr>"

lemma sent_world_simps [simp]:
  "turns (sent_world d u c w) = turns w" "sends (sent_world d u c w) = sends w @ [(d, u)]"
  "client (sent_world d u c w) = c"
  by (simp_all add: sent_world_def)

lemma dispatch_continues:
  assumes "upstream_format d = Chat fmt" "upstream_call g fmt chat d = Inr u"
    and "send g (client w) u = (Some a, c)" "fails_over a"
  obtains le' where "dispatch g surface body ctx chat tg (d # ds) le se w =
    dispatch g surface body ctx chat tg ds le' False (sent_world d u c w)"
  using assms(4) that unfolding dispatch_step [OF assms(1-3)] sent_world_def
  by (cases a) (auto simp: Let_def)

lemma dispatch_stops:
  assumes step: "upstream_format d = Chat fmt" "upstream_call g fmt chat d = Inr u" "send g (client w) u = (res, c)"
    and "res = None \<or> (\<exists>a. res = Some a \<and> \<not> fails_over a)" "armed tg"
    and "dispatch g surface body ctx chat tg (d # ds) le se w = (r, w')"
  shows "turn_ends r w w' \<and> sends w' = sends w @ [(d, u)]"
proof -
  let ?w = "sent_world d u c w"
  note run = assms(6) [unfolded dispatch_step [OF step], folded sent_world_def]
  have "turn_ends r ?w w' \<and> sends w' = sends ?w"
  proof (cases res)
    case None
    with run assms(5) show ?thesis
      by (auto simp: Let_def turn_ends_def guard_record_status)
  next
    case (Some a)
    with assms(4) have nf: "\<not> fails_over a" by simp
    then obtain resp where a: "a = Inr resp" by (cases a) (auto simp: fails_over_def)
    show ?thesis
    proof (cases "is_success (resp_status resp)")
      case True
      with run Some a nf show ?thesis
        by (auto simp: Let_def split: prod.splits dest: commit_success_ends)
    next
      case False
      with run Some a nf show ?thesis by (auto simp: Let_def turn_ends_def finished_simps)
    qed
  qed
  then show ?thesis by (simp add: turn_ends_cong [of ?w w])
qed

lemma dispatch_ends:
  assumes "dispatch g surface body ctx chat tg ds le se w = (r, w')" "armed tg"
  shows "turn_ends r w w' \<and> (\<exists>k new. sends w' = sends w @ new \<and> list_all (call_of g chat) new \<and>
    map fst new = take k (filter is_chat ds))"
  using assms(1)
proof (induction ds arbitrary: le se w)
  case Nil
  then show ?case by (auto simp: Let_def turn_ends_def guard_record_status)
next
  case (Cons d ds)
  show ?case
  proof (cases "upstream_format d")
    case (Chat fmt)
    then have chat: "is_chat d" by (simp add: is_chat_def)
    show ?thesis
    proof (cases "upstream_call g fmt chat d")
      case (Inl e)
      with Cons.prems Chat have "r = Returned (Inl e)" "w' = guard_fail g tg (http_status e) w"
        by (simp_all add: dispatch_emit_error)
      then show ?thesis
        by (auto simp: turn_ends_def guard_record_status intro!: exI [of _ 0])
    next
      case (Inr u)
      have call: "call_of g chat (d, u)" using Chat Inr by (auto simp: call_of_def)
      obtain res c where s: "send g (client w) u = (res, c)" by fastforce
      show ?thesis
      proof (cases "res = None \<or> (\<exists>a. res = Some a \<and> \<not> fails_over a)")
        case True
        from dispatch_stops [OF Chat Inr s True assms(2) Cons.prems] chat call show ?thesis
          by (intro conjI exI [of _ 1] exI [of _ "[(d, u)]"]) auto
      next
        case False
        then obtain a where a: "res = Some a" "fails_over a" by auto
        obtain le' where "dispatch g surface body ctx chat tg (d # ds) le se w =
            dispatch g surface body ctx chat tg ds le' False (sent_world d u c w)"
          by (rule dispatch_continues [OF Chat Inr s [unfolded a(1)] a(2)])
        with Cons.prems have "dispatch g surface body ctx chat tg ds le' False (sent_world d u c w) = (r, w')"
          by simp
        from Cons.IH [OF this] obtain k new where "sends w' = (sends w @ [(d, u)]) @ new"
          "list_all (call_of g chat) new" "map fst new = take k (filter is_chat ds)" "turn_ends r w w'"
          by (auto simp: turn_ends_cong [of "sent_world d u c w" w])
        with chat call show ?thesis
          by (intro conjI exI [of _ "Suc k"] exI [of _ "(d, u) # new"]) simp_all
      qed
    qed
  next
    case (Embed f)
    then have "\<not> is_chat d" by (simp add: is_chat_def)
    with Cons show ?thesis by (simp add: dispatch_skip)
  next
    case (Media f)
    then have "\<not> is_chat d" by (simp add: is_chat_def)
    with Cons show ?thesis by (simp add: dispatch_skip)
  qed
qed

section \<open>The stream as a state machine\<close>

text \<open>A stream has ended exactly when its turn is recorded.\<close>
definition stream_ok :: "('d, 'e) stream_state \<Rightarrow> bool" where
  "stream_ok st \<longleftrightarrow> ended st = recorded st"

text \<open>The fields of a stream that decoding does not touch.\<close>
definition same_frame :: "('d, 'e) stream_state \<Rightarrow> ('d, 'e) stream_state \<Rightarrow> bool" where
  "same_frame a b \<longleftrightarrow> ended a = ended b \<and> recorded a = recorded b \<and> st_status a = st_status b \<and>
     st_surface a = st_surface b \<and> upstream a = upstream b"

lemma decode_lines_frame:
  assumes "decode_lines g ls st w = (evs, st', w')"
  shows "same_frame st st' \<and> turns w' = turns w \<and> sends w' = sends w"
  using assms
proof (induction ls arbitrary: st w evs)
  case (Cons l ls)
  obtain ev d where d: "decode_bytes (wire g) (decoder st) l = (ev, d)" by fastforce
  obtain rc w1 where s: "saw g (rctx st) ev w = (rc, w1)" by fastforce
  have w1: "turns w1 = turns w" "sends w1 = sends w" using s saw_world(1,2) [of g "rctx st" ev w] by auto
  let ?st = "st\<lparr>decoder := d, rctx := rc, st_usage := merge_usages (st_usage st) ev, agg := push_all (agg st) ev\<rparr>"
  obtain evs2 where "decode_lines g ls ?st w1 = (evs2, st', w')"
    using Cons.prems d s by (auto simp: Let_def split: prod.splits)
  from Cons.IH [OF this] w1 show ?case by (simp add: same_frame_def)
qed (simp add: same_frame_def)

lemma decode_lines_usage:
  assumes "decode_lines g ls st w = (evs, st', w')"
  shows "st_usage st' = merge_usages (st_usage st) evs"
  using assms
proof (induction ls arbitrary: st w evs)
  case (Cons l ls)
  obtain ev d where d: "decode_bytes (wire g) (decoder st) l = (ev, d)" by fastforce
  obtain rc w1 where s: "saw g (rctx st) ev w = (rc, w1)" by fastforce
  let ?st = "st\<lparr>decoder := d, rctx := rc, st_usage := merge_usages (st_usage st) ev, agg := push_all (agg st) ev\<rparr>"
  obtain evs2 where e: "decode_lines g ls ?st w1 = (evs2, st', w')" "evs = ev @ evs2"
    using Cons.prems d s by (auto simp: Let_def split: prod.splits)
  from Cons.IH [OF e(1)] e(2) show ?case by (simp add: merge_usages_def usages_append)
qed (simp add: merge_usages_def)

lemma record_turn_world:
  assumes "record_turn g err st w = (st', w')"
  shows "recorded st' \<and> ended st' = ended st \<and> upstream st' = upstream st \<and> st_status st' = st_status st \<and>
    turns w' = turns w @ [finished g (rctx st) (st_usage st) (st_status st) err w] \<and> sends w' = sends w"
  using assms by (auto simp: record_turn_def ir_json_def Let_def)

text \<open>What a poll of a stream that is still open does.\<close>
definition poll_effect ::
  "('d, 'e) stream_state \<Rightarrow> 'c world \<Rightarrow> ('d, 'e) stream_state \<Rightarrow> 'c world \<Rightarrow> bool" where
  "poll_effect st w st' w' \<longleftrightarrow> stream_ok st' \<and> st_status st' = st_status st \<and> sends w' = sends w \<and>
     (if recorded st' then \<exists>t. turns w' = turns w @ [t] \<and> t_status t = uint (st_status st)
      else turns w' = turns w \<and> length (upstream st') < length (upstream st))"

lemma poll_chunk_frame:
  assumes "poll_chunk g c st w = (out, st', w')" "\<not> recorded st" "\<not> ended st"
  shows "stream_ok st' \<and> st_status st' = st_status st \<and> sends w' = sends w \<and> upstream st' = upstream st \<and>
    (if recorded st' then out \<noteq> None \<and> (\<exists>t. turns w' = turns w @ [t] \<and> t_status t = uint (st_status st))
     else turns w' = turns w)"
proof -
  obtain ls bf where l: "split_lines (buf st @ c) = (ls, bf)" by fastforce
  obtain evs st1 w1 where d: "decode_lines g ls (st\<lparr>buf := bf\<rparr>) w = (evs, st1, w1)" by (metis prod_cases3)
  from decode_lines_frame [OF d] have f: "\<not> recorded st1" "\<not> ended st1" "st_status st1 = st_status st"
    "upstream st1 = upstream st" "turns w1 = turns w" "sends w1 = sends w"
    using assms(2,3) by (auto simp: same_frame_def)
  show ?thesis using assms(1) l d f
    by (auto simp: poll_chunk_def Let_def stream_ok_def finished_simps split: if_splits prod.splits
        dest!: record_turn_world)
qed

lemma poll_end_frame:
  assumes "poll_end g st w = (out, st', w')"
  shows "recorded st' \<and> ended st' \<and> st_status st' = st_status st \<and> sends w' = sends w \<and>
    (\<exists>t. turns w' = turns w @ [t] \<and> t_status t = uint (st_status st) \<and> \<not> t_is_error t)"
  using assms
  by (auto simp: poll_end_def Let_def finished_simps split: if_splits prod.splits
        dest!: record_turn_world)

lemma poll_items_effect:
  assumes "poll_items g items st w = (item, st', w')" "\<not> recorded st" "\<not> ended st" "upstream st = items"
  shows "item \<noteq> None \<and> poll_effect st w st' w'"
  using assms
proof (induction items arbitrary: st w)
  case Nil
  obtain out st1 w1 where e: "poll_end g (st\<lparr>upstream := []\<rparr>) w = (out, st1, w1)" by (metis prod_cases3)
  from poll_end_frame [OF e] Nil e show ?case by (auto simp: poll_effect_def stream_ok_def)
next
  case (Cons i items)
  show ?case
  proof (cases i)
    case (Chunk c)
    obtain out st1 w1 where p: "poll_chunk g c (st\<lparr>upstream := items\<rparr>) w = (out, st1, w1)" by (metis prod_cases3)
    note f = poll_chunk_frame [OF p]
    show ?thesis
    proof (cases out)
      case None
      with f Cons.prems have n: "\<not> recorded st1" "\<not> ended st1" "upstream st1 = items"
        "turns w1 = turns w" "sends w1 = sends w" "st_status st1 = st_status st"
        by (auto simp: stream_ok_def split: if_splits)
      have "poll_items g items st1 w1 = (item, st', w')" using Cons.prems(1) Chunk p None by simp
      from Cons.IH [OF this n(1,2,3)] n Cons.prems(4) show ?thesis
        by (auto simp: poll_effect_def split: if_splits)
    next
      case (Some b)
      with Cons.prems Chunk p f show ?thesis
        by (auto simp: poll_effect_def stream_ok_def split: if_splits)
    qed
  qed (use Cons.prems in \<open>auto simp: poll_effect_def stream_ok_def poll_error_def Let_def finished_simps
        split: prod.splits dest!: record_turn_world\<close>)
qed

lemma poll_spec:
  assumes "poll g st w = (item, st', w')" "stream_ok st"
  shows "if recorded st then item = None \<and> st' = st \<and> w' = w
    else item \<noteq> None \<and> poll_effect st w st' w'"
  using assms poll_items_effect [of g "upstream st" st w item st' w']
  by (auto simp: poll_def stream_ok_def)

lemma stream_drop_world:
  "sends (stream_drop g st w) = sends w"
  "recorded st \<Longrightarrow> stream_drop g st w = w"
  "\<not> recorded st \<Longrightarrow> \<exists>t. turns (stream_drop g st w) = turns w @ [t] \<and> t_status t = 499 \<and> t_is_error t"
  by (auto simp: stream_drop_def ir_json_def Let_def finished_simps)

lemma run_stream_recorded:
  assumes "stream_ok st" "recorded st"
  shows "run_stream g n st w = ([], w)"
proof (cases n)
  case 0
  with assms show ?thesis by (simp add: stream_drop_world)
next
  case (Suc m)
  obtain item st' w' where p: "poll g st w = (item, st', w')" by (metis prod_cases3)
  from poll_spec [OF p assms(1)] assms p Suc show ?thesis by (simp add: stream_drop_world)
qed

lemma run_stream_once:
  assumes "stream_ok st" "\<not> recorded st" "run_stream g n st w = (items, w')"
  shows "sends w' = sends w \<and> (\<exists>t. turns w' = turns w @ [t] \<and>
    (t_status t = uint (st_status st) \<or> t_status t = 499 \<and> t_is_error t) \<and>
    (length (upstream st) < n \<longrightarrow> t_status t = uint (st_status st)))"
  using assms
proof (induction n arbitrary: st w items)
  case 0
  then show ?case using stream_drop_world(3) [of st g w] by (auto simp: stream_drop_world(1))
next
  case (Suc n)
  obtain item st1 w1 where p: "poll g st w = (item, st1, w1)" by (metis prod_cases3)
  from poll_spec [OF p Suc.prems(1)] Suc.prems(2) have e: "item \<noteq> None" "poll_effect st w st1 w1" by auto
  then obtain i where i: "item = Some i" by auto
  obtain items2 where r: "run_stream g n st1 w1 = (items2, w')"
    using Suc.prems(3) p i by (auto simp: Let_def split: prod.splits)
  show ?case
  proof (cases "recorded st1")
    case True
    with e(2) r show ?thesis by (auto simp: poll_effect_def run_stream_recorded)
  next
    case False
    with e(2) have "stream_ok st1" "turns w1 = turns w" "sends w1 = sends w" "st_status st1 = st_status st"
      "length (upstream st1) < length (upstream st)" by (auto simp: poll_effect_def)
    with Suc.IH [OF _ False r] show ?thesis by auto
  qed
qed

section \<open>Failover\<close>

text \<open>What the upstream client answers to a sequence of requests; \<open>None\<close> when the caller hung up.\<close>
fun answers :: "('c, 'd, 'e) gateway \<Rightarrow> 'c \<Rightarrow> upstream_request list \<Rightarrow> upstream_response result option list" where
  "answers g c [] = []"
| "answers g c (u # us) = (let (a, c') = send g c u in a # answers g c' us)"

definition failed_over :: "upstream_response result option \<Rightarrow> bool" where
  "failed_over a = (case a of None \<Rightarrow> False | Some res \<Rightarrow> fails_over res)"

definition unbuildable :: "('c, 'd, 'e) gateway \<Rightarrow> chat_request \<Rightarrow> deployment \<Rightarrow> bool" where
  "unbuildable g chat d = (case upstream_format d of
     Chat fmt \<Rightarrow> (case upstream_call g fmt chat d of Inl _ \<Rightarrow> True | Inr _ \<Rightarrow> False)
   | _ \<Rightarrow> False)"

text \<open>
  How the calls of a turn relate to the candidates: every answer but the last failed over, and if
  the last did too then no candidate is left, or the next one's request could not be built.
\<close>
definition failover_ok ::
  "('c, 'd, 'e) gateway \<Rightarrow> chat_request \<Rightarrow> deployment list \<Rightarrow> 'c \<Rightarrow> (deployment \<times> upstream_request) list \<Rightarrow>
   ('d, 'e) gateway_response result outcome \<Rightarrow> bool" where
  "failover_ok g chat cands c new r \<longleftrightarrow>
     map fst new = take (length new) cands \<and>
     list_all failed_over (butlast (answers g c (map snd new))) \<and>
     (list_all failed_over (answers g c (map snd new)) \<longrightarrow>
        (\<exists>e. r = Returned (Inl e)) \<and>
        (length new = length cands \<or> unbuildable g chat (cands ! length new)))"

lemma answers_length [simp]: "length (answers g c us) = length us"
  by (induction us arbitrary: c) (auto simp: split: prod.split)

lemma answers_Nil [simp]: "answers g c us = [] \<longleftrightarrow> us = []"
  by (cases us) (auto split: prod.split)

lemma failover_ok_stop:
  assumes "send g c u = (a, c')" "\<not> failed_over a"
  shows "failover_ok g chat (d # cands) c [(d, u)] r"
  using assms by (simp add: failover_ok_def)

lemma failover_ok_Cons:
  assumes "send g c u = (a, c')" "failed_over a" "failover_ok g chat cands c' new r"
  shows "failover_ok g chat (d # cands) c ((d, u) # new) r"
  using assms by (cases new) (auto simp: failover_ok_def)

lemma dispatch_failover:
  assumes "dispatch g surface body ctx chat tg ds le se w = (r, w')" "armed tg"
  shows "\<exists>new. sends w' = sends w @ new \<and> failover_ok g chat (filter is_chat ds) (client w) new r"
  using assms(1)
proof (induction ds arbitrary: le se w)
  case Nil
  then show ?case by (auto simp: Let_def failover_ok_def)
next
  case (Cons d ds)
  show ?case
  proof (cases "is_chat d")
    case False
    with Cons show ?thesis by (simp add: dispatch_skip)
  next
    case True
    then obtain fmt where fmt: "upstream_format d = Chat fmt"
      by (auto simp: is_chat_def split: upstream_format.splits)
    show ?thesis
    proof (cases "upstream_call g fmt chat d")
      case (Inl e)
      with Cons.prems fmt True show ?thesis
        by (intro exI [of _ "[]"]) (auto simp: dispatch_emit_error failover_ok_def unbuildable_def)
    next
      case (Inr u)
      obtain a c where s: "send g (client w) u = (a, c)" by fastforce
      show ?thesis
      proof (cases "failed_over a")
        case False
        then have stop: "a = None \<or> (\<exists>b. a = Some b \<and> \<not> fails_over b)"
          by (auto simp: failed_over_def split: option.splits)
        from dispatch_stops [OF fmt Inr s stop assms(2) Cons.prems] failover_ok_stop [OF s False] True
        show ?thesis by (intro exI [of _ "[(d, u)]"]) simp
      next
        case over: True
        then obtain b where b: "a = Some b" "fails_over b"
          by (auto simp: failed_over_def split: option.splits)
        obtain le' where "dispatch g surface body ctx chat tg (d # ds) le se w =
            dispatch g surface body ctx chat tg ds le' False (sent_world d u c w)"
          by (rule dispatch_continues [OF fmt Inr s [unfolded b(1)] b(2)])
        with Cons.prems have "dispatch g surface body ctx chat tg ds le' False (sent_world d u c w) = (r, w')"
          by simp
        from Cons.IH [OF this] obtain new where "sends w' = sends w @ (d, u) # new"
          "failover_ok g chat (filter is_chat ds) c new r" by auto
        with failover_ok_Cons [OF s over] True show ?thesis by auto
      qed
    qed
  qed
qed

section \<open>The whole handler\<close>

text \<open>The candidates of a turn: what resolution offers, less what the caller may not use.\<close>
definition turn_candidates :: "chat_request \<Rightarrow> request_ctx \<Rightarrow> 'c world \<Rightarrow> deployment list" where
  "turn_candidates chat ctx w =
     (case fst (resolve (router w) (build_route_request chat ctx)) of
        Inl _ \<Rightarrow> []
      | Inr d \<Rightarrow> filter_access (candidates d) ctx)"

lemma handle_cases:
  assumes "handle g surface body ctx w = (r, w')" "parse_request (wire g) surface body = Inr chat"
  obtains (refused) e tg w1 where "turn_candidates chat ctx w = []" "r = Returned (Inl e)"
      "w' = guard_fail g tg (http_status e) w1" "turns w1 = turns w" "sends w1 = sends w"
      "e = NoEligibleProvider (model chat)"
    | (tried) tg w1 where "armed tg" "turns w1 = turns w" "sends w1 = sends w" "client w1 = client w"
      "dispatch g surface body ctx chat tg (turn_candidates chat ctx w) None True w1 = (r, w')"
proof -
  obtain started wa where i: "read_instant g w = (started, wa)" by fastforce
  obtain created wb where n: "read_now g wa = (created, wb)" by fastforce
  define tg where "tg = turn_guard_new ctx (wire_format_as_str surface) (model chat) started created"
  obtain res rt where r: "resolve (router w) (build_route_request chat ctx) = (res, rt)" by fastforce
  define w1 where "w1 = wb\<lparr>router := rt\<rparr>"
  have wb: "turns wb = turns w" "sends wb = sends w" "client wb = client w" "router wb = router w"
    using readings [of g w] readings [of g wa] i n by simp_all
  then have w1: "turns w1 = turns w" "sends w1 = sends w" "client w1 = client w" by (simp_all add: w1_def)
  have tg: "armed tg" by (simp add: tg_def turn_guard_new_def)
  have req: "requested_model (build_route_request chat ctx) = model chat"
    by (simp add: build_route_request_def policy_route_request_def)
  have run: "handle g surface body ctx w =
    (case res of
       Inl e \<Rightarrow> (Returned (Inl e), guard_fail g tg (http_status e) w1)
     | Inr d \<Rightarrow> if filter_access (candidates d) ctx = []
         then (Returned (Inl (NoEligibleProvider (model chat))),
               guard_fail g tg (http_status (NoEligibleProvider (model chat))) w1)
         else dispatch g surface body ctx chat tg (filter_access (candidates d) ctx) None True w1)"
    using assms(2) r
    by (cases res) (simp_all add: handle_def lift_wire_def i n wb(4) Let_def tg_def w1_def)
  show ?thesis
  proof (cases res)
    case (Inl e)
    with r router.route_error [of "router w" "build_route_request chat ctx" e rt] req
    have "e = NoEligibleProvider (model chat)" by simp
    with Inl run assms(1) w1 show ?thesis
      by (intro refused [of e tg w1]) (auto simp: turn_candidates_def r)
  next
    case (Inr d)
    have tc: "turn_candidates chat ctx w = filter_access (candidates d) ctx"
      by (simp add: turn_candidates_def r Inr)
    show ?thesis
    proof (cases "filter_access (candidates d) ctx = []")
      case True
      with Inr run assms(1) w1 tc show ?thesis
        by (intro refused [of "NoEligibleProvider (model chat)" tg w1]) auto
    next
      case False
      with Inr run assms(1) w1 tg tc show ?thesis by (intro tried [of tg w1]) auto
    qed
  qed
qed

lemma turn_candidates_permitted:
  assumes "d \<in> set (turn_candidates chat ctx w)"
  shows "access_permits ctx d \<and> d \<in> reachable_deployments (snapshot (router w)) (build_route_request chat ctx)"
proof -
  obtain res rt where r: "resolve (router w) (build_route_request chat ctx) = (res, rt)" by fastforce
  with assms obtain dec where "res = Inr dec" "d \<in> set (filter_access (candidates dec) ctx)"
    by (auto simp: turn_candidates_def split: sum.splits)
  with r resolve_candidates(3) show ?thesis by (fastforce simp: filter_access_def)
qed

lemma turn_candidates_distinct: "distinct (map dedup_of (turn_candidates chat ctx w))"
proof -
  obtain res rt where r: "resolve (router w) (build_route_request chat ctx) = (res, rt)" by fastforce
  show ?thesis
  proof (cases res)
    case (Inr dec)
    from router.route_distinct [OF r [unfolded Inr]] show ?thesis
      by (simp add: turn_candidates_def r Inr filter_access_def distinct_map_filter)
  qed (simp add: turn_candidates_def r)
qed

text \<open>Reading a response: a stream is polled \<open>n\<close> times and let go, any other answer is just taken.\<close>
fun consume :: "('c, 'd, 'e) gateway \<Rightarrow> nat \<Rightarrow> ('d, 'e) gateway_response \<Rightarrow> 'c world \<Rightarrow> 'c world" where
  "consume g n (StreamResponse s h st) w = snd (run_stream g n st w)"
| "consume g n (FullResponse s h b) w = w"
| "consume g n (OnceResponse s h b) w = w"

lemma handle_Inr_parsed:
  assumes "handle g surface body ctx w = (Returned (Inr resp), w')"
  obtains chat where "parse_request (wire g) surface body = Inr chat"
  using assms by (cases "parse_request (wire g) surface body")
    (auto simp: handle_def lift_wire_def case_prod_unfold Let_def)

lemma handle_ends:
  assumes "handle g surface body ctx w = (r, w')" "parse_request (wire g) surface body = Inr chat"
  shows "turn_ends r w w'"
  using assms
proof (cases rule: handle_cases)
  case (refused e tg w1)
  then show ?thesis by (auto simp: turn_ends_def guard_record_status)
next
  case (tried tg w1)
  with dispatch_ends [OF tried(5,1)] show ?thesis by (simp add: turn_ends_cong [OF tried(2)])
qed

lemma upstream_call_own:
  assumes "upstream_call g fmt chat d = Inr u"
  shows "url u = build_url fmt (api_base d) (upstream_model d) True \<and> http_method u = Post \<and> req_stream u \<and>
    set (auth_headers (environ g) fmt (case api_key d of None \<Rightarrow> [] | Some k \<Rightarrow> k)) \<subseteq> set (req_headers u)"
proof -
  obtain hs where "req_headers u =
      append_headers (hs @ auth_headers (environ g) fmt (case api_key d of None \<Rightarrow> [] | Some k \<Rightarrow> k))
        (extra_headers (cf_access g) (extra d))"
    using assms by (auto simp: upstream_call_def Let_def split: sum.splits)
  then have "set (auth_headers (environ g) fmt (case api_key d of None \<Rightarrow> [] | Some k \<Rightarrow> k)) \<subseteq> set (req_headers u)"
    using append_headers_prefix [of "hs @ auth_headers (environ g) fmt (case api_key d of None \<Rightarrow> [] | Some k \<Rightarrow> k)"
        "extra_headers (cf_access g) (extra d)"] by auto
  with assms show ?thesis by (auto simp: upstream_call_def Let_def split: sum.splits)
qed

lemma handle_sends:
  assumes "handle g surface body ctx w = (r, w')" "parse_request (wire g) surface body = Inr chat"
  obtains new k where "sends w' = sends w @ new" "list_all (call_of g chat) new"
    "map fst new = take k (filter is_chat (turn_candidates chat ctx w))"
  using assms
proof (cases rule: handle_cases)
  case (refused e tg w1)
  then show ?thesis by (intro that [of "[]" 0]) auto
next
  case (tried tg w1)
  with dispatch_ends [OF tried(5,1)] show ?thesis by (auto intro: that)
qed

section \<open>A sample gateway\<close>

text \<open>A client that plays back a script of answers.\<close>
type_synonym script = "upstream_response result option list"

definition sample_wire :: "(unit, unit) wire_ops" where
  "sample_wire =
     \<lparr>parse_request = (\<lambda>fmt b. Inr (chat_request_default\<lparr>model := b, stream := True\<rparr>)),
      emit_request = (\<lambda>fmt c opts. Inr (''{}'', [])),
      parse_response = (\<lambda>fmt b. Inl (InvalidResponse b)),
      emit_response = (\<lambda>fmt r. Inr ''{}''),
      decoder_new = (\<lambda>fmt. ()),
      decode_line = (\<lambda>d l. (if l = [] then [] else [TextDelta l], ())),
      encoder_new = (\<lambda>fmt. ()),
      encode = (\<lambda>e evs. (concat (map (\<lambda>ev. case ev of TextDelta t \<Rightarrow> t | _ \<Rightarrow> []) evs), ())),
      encoder_finish = (\<lambda>e. ([], ())),
      set_include_usage = (\<lambda>b e. e), set_prompt_cache = (\<lambda>k r e. e),
      json_from_str = (\<lambda>s. None), json_to_string = (\<lambda>j. []), ir_to_vec = (\<lambda>r. [])\<rparr>"

definition sample_gateway :: "(script, unit, unit) gateway" where
  "sample_gateway =
     \<lparr>send = (\<lambda>c u. case c of [] \<Rightarrow> (None, []) | a # as \<Rightarrow> (a, as)),
      wire = sample_wire, cf_access = None, environ = (\<lambda>_. None), calendar = gregorian,
      wall_clock = int, instant = (\<lambda>n. int n * 1000000), fresh_id = (\<lambda>n. [])\<rparr>"

definition sample_world :: "script \<Rightarrow> script world" where
  "sample_world as = \<lparr>client = as, router = sample_router RoundRobin, effects = [], tick = 0\<rparr>"

definition sample_ctx :: request_ctx where
  "sample_ctx =
     \<lparr>ctx_api_key = None, ctx_user_id = Some ''u'', ctx_team_id = None, ctx_request_id = ''r'',
      ctx_trace_id = None, ctx_parent_span_id = None, ctx_tags = None, ctx_excluded_model_ids = [],
      ctx_excluded_provider_ids = [], ctx_access = policy_default, ctx_token_meter = False\<rparr>"

definition sample_answer :: "16 word \<Rightarrow> byte_stream \<Rightarrow> upstream_response result option" where
  "sample_answer status items =
     Some (Inr \<lparr>resp_status = status, resp_headers = [], resp_body = StreamBody items\<rparr>)"

definition sample_script :: script where
  "sample_script = [sample_answer 503 [], sample_answer 200 [Chunk [CHR ''h'', CHR ''i'', CHR 0x0A]]]"

lemma sample_handle:
  obtains resp w' where "handle sample_gateway OpenaiChat ''a'' sample_ctx (sample_world sample_script) =
      (Returned (Inr resp), w')" "length (sends w') = 2"
proof -
  let ?h = "handle sample_gateway OpenaiChat ''a'' sample_ctx (sample_world sample_script)"
  have "(case fst ?h of Returned (Inr resp) \<Rightarrow> True | _ \<Rightarrow> False) \<and> length (sends (snd ?h)) = 2"
    by code_simp
  then show ?thesis using that by (cases ?h) (auto split: outcome.splits sum.splits)
qed

lemma sample_start:
  "sends (sample_world as) = []" "turns (sample_world as) = []" "client (sample_world as) = as"
  "parse_request (wire sample_gateway) fmt b = Inr (chat_request_default\<lparr>model := b, stream := True\<rparr>)"
  by (simp_all add: sample_world_def sends_def turns_def sample_gateway_def sample_wire_def)

section \<open>Properties\<close>

text \<open>C1: A turn calls only deployments its caller may use: each is permitted by the merged policy and
  by the caller's exclusions and was reachable from the requested model through the routing table,
  no two calls share a model and a provider, and each goes to the deployment's own address with the
  deployment's own credential among its headers.\<close>
theorem handle_reaches_only_permitted:
  assumes "handle g surface body ctx w = (r, w')" "parse_request (wire g) surface body = Inr chat"
  shows "\<exists>new. sends w' = sends w @ new \<and> distinct (map (dedup_of \<circ> fst) new) \<and>
    (\<forall>(d, u) \<in> set new.
       d \<in> reachable_deployments (snapshot (router w)) (build_route_request chat ctx) \<and>
       permits_model (ctx_access ctx) (model_id d) \<and> permits_provider (ctx_access ctx) (provider_id d) \<and>
       model_id d \<notin> set (ctx_excluded_model_ids ctx) \<and> provider_id d \<notin> set (ctx_excluded_provider_ids ctx) \<and>
       (\<exists>fmt. upstream_format d = Chat fmt \<and> url u = build_url fmt (api_base d) (upstream_model d) True \<and>
          set (auth_headers (environ g) fmt (case api_key d of None \<Rightarrow> [] | Some k \<Rightarrow> k)) \<subseteq> set (req_headers u)))"
proof -
  obtain new k where n: "sends w' = sends w @ new" "list_all (call_of g chat) new"
    "map fst new = take k (filter is_chat (turn_candidates chat ctx w))" by (rule handle_sends [OF assms])
  have "distinct (map dedup_of (map fst new))"
    unfolding n(3) by (simp add: take_map [symmetric] distinct_map_filter turn_candidates_distinct)
  moreover have "access_permits ctx d \<and>
      d \<in> reachable_deployments (snapshot (router w)) (build_route_request chat ctx)"
    if "(d, u) \<in> set new" for d u
  proof -
    have "d \<in> set (map fst new)" using that by force
    then have "d \<in> set (turn_candidates chat ctx w)" unfolding n(3) by (auto dest: in_set_takeD)
    then show ?thesis by (rule turn_candidates_permitted)
  qed
  ultimately show ?thesis using n(1,2)
    by (intro exI [of _ new])
       (fastforce simp: list_all_iff call_of_def access_permits_def split: if_splits dest: upstream_call_own)
qed

theorem handle_reaches_only_permitted_witness:
  "\<exists>r w' new. handle sample_gateway OpenaiChat ''a'' sample_ctx (sample_world sample_script) = (r, w') \<and>
     sends w' = new \<and> length new = 2 \<and> distinct (map (dedup_of \<circ> fst) new)"
proof (rule sample_handle)
  fix resp w'
  assume h: "handle sample_gateway OpenaiChat ''a'' sample_ctx (sample_world sample_script) =
      (Returned (Inr resp), w')" "length (sends w') = 2"
  from handle_reaches_only_permitted [OF h(1) sample_start(4)] h show ?thesis by (auto simp: sample_start)
qed

text \<open>C3: Failover is ordered and committed answers are final: the calls of a turn are a prefix of its
  chat candidates, every answer but the last was one that lets the turn move on, and if the last one
  was too then the turn fails only because no candidate is left or the next one's request could not
  be built.\<close>
theorem handle_failover:
  assumes "handle g surface body ctx w = (r, w')" "parse_request (wire g) surface body = Inr chat"
  shows "\<exists>new. sends w' = sends w @ new \<and>
    (let cands = filter is_chat (turn_candidates chat ctx w);
         as = answers g (client w) (map snd new)
     in map fst new = take (length new) cands \<and>
        list_all failed_over (butlast as) \<and>
        (list_all failed_over as \<longrightarrow> (\<exists>e. r = Returned (Inl e)) \<and>
           (length new = length cands \<or> unbuildable g chat (cands ! length new))))"
  using assms
proof (cases rule: handle_cases)
  case (refused e tg w1)
  then show ?thesis by (intro exI [of _ "[]"]) simp
next
  case (tried tg w1)
  from dispatch_failover [OF tried(5,1)] show ?thesis by (simp add: failover_ok_def Let_def tried(3,4))
qed

theorem handle_failover_witness:
  "\<exists>r w' new. handle sample_gateway OpenaiChat ''a'' sample_ctx (sample_world sample_script) = (r, w') \<and>
     sends w' = new \<and> length new = 2 \<and>
     list_all failed_over (butlast (answers sample_gateway sample_script (map snd new)))"
proof (rule sample_handle)
  fix resp w'
  assume h: "handle sample_gateway OpenaiChat ''a'' sample_ctx (sample_world sample_script) =
      (Returned (Inr resp), w')" "length (sends w') = 2"
  from handle_failover [OF h(1) sample_start(4)] h show ?thesis by (auto simp: sample_start Let_def)
qed



text \<open>An upstream that answers with success but a whole body that does not parse ends the turn with a
  wire error that nothing records: no telemetry row, no rollup, no log, although the call was made.\<close>
theorem unparsable_answer_unrecorded:
  assumes "upstream_format d = Chat fmt" "upstream_call g fmt chat d = Inr u"
    and "send g (client w) u = (Some (Inr resp), c)" "is_success (resp_status resp)"
    and "resp_body resp = FullBody bs" "parse_response (wire g) fmt bs = Inl we"
  shows "dispatch g surface body ctx chat tg (d # ds) le se w =
      (Returned (Inl (wire_err we)), (emit (SendUpstream d u) w)\<lparr>client := c\<rparr>) \<and>
    turns ((emit (SendUpstream d u) w)\<lparr>client := c\<rparr>) = turns w"
proof -
  have "commit_success g surface fmt chat rc resp w1 = (Inl (wire_err we), w1)" for rc w1
    using assms(5,6) by (cases "stream chat") (simp_all add: commit_success_def Let_def lift_wire_def)
  with assms(4) show ?thesis unfolding dispatch_step [OF assms(1-3)] by (simp add: Let_def fails_over_def)
qed

definition sample_full :: upstream_response where
  "sample_full = \<lparr>resp_status = 200, resp_headers = [], resp_body = FullBody ''<html>''\<rparr>"

theorem unparsable_answer_unrecorded_witness:
  "\<exists>u. turns (snd (dispatch sample_gateway OpenaiChat [] sample_ctx chat_request_default
     (turn_guard_new sample_ctx [] [] 0 0) [sample_deployment ''m'' ''p''] None True
     (sample_world [Some (Inr sample_full)]))) = [] \<and>
   upstream_call sample_gateway OpenaiChat chat_request_default (sample_deployment ''m'' ''p'') = Inr u"
proof -
  obtain u where u: "upstream_call sample_gateway OpenaiChat chat_request_default
      (sample_deployment ''m'' ''p'') = Inr u"
    by (simp add: upstream_call_def sample_gateway_def sample_wire_def lift_wire_def Let_def)
  have f: "upstream_format (sample_deployment ''m'' ''p'') = Chat OpenaiChat"
    by (simp add: sample_deployment_def)
  have "send sample_gateway (client (sample_world [Some (Inr sample_full)])) u = (Some (Inr sample_full), [])"
    by (simp add: sample_gateway_def sample_world_def)
  moreover have "is_success (resp_status sample_full)" "resp_body sample_full = FullBody ''<html>''"
    by (simp_all add: is_success_def sample_full_def)
  moreover have "parse_response (wire sample_gateway) OpenaiChat ''<html>'' = Inl (InvalidResponse ''<html>'')"
    by (simp add: sample_gateway_def sample_wire_def)
  ultimately show ?thesis
    using unparsable_answer_unrecorded [OF f u, of "sample_world [Some (Inr sample_full)]"]
    by (simp add: sample_start u)
qed

text \<open>The end of an answer is recognised by searching the encoded bytes, so an answer whose own text
  carries the marker is cut there: the chunk that carries it goes out, the turn is recorded as
  complete, and the next poll ends the stream although the upstream has more to say.\<close>
theorem marker_in_text_ends_stream:
  assumes "\<not> ended st" "\<not> recorded st" "upstream st = Chunk c # items"
    and "split_lines (buf st @ c) = (ls, bf)"
    and "decode_lines g ls (st\<lparr>upstream := items, buf := bf\<rparr>) w = (evs, st1, w1)" "evs \<noteq> []"
    and "encode (wire g) (encoder st1) evs = (out, en)" "out \<noteq> []"
    and "contains_str (from_utf8_lossy out) ''message_stop''" "st_surface st = Anthropic"
  shows "\<exists>st' w'. poll g st w = (Some (Inr out), st', w') \<and> upstream st' = items \<and>
    turns w' = turns w @ [finished g (rctx st1) (st_usage st1) (st_status st) False w1] \<and>
    poll g st' w' = (None, st', w')"
proof -
  have f: "\<not> recorded st1" "st_surface st1 = Anthropic" "st_status st1 = st_status st"
    "upstream st1 = items" "turns w1 = turns w"
    using decode_lines_frame [OF assms(5)] assms(2,10) by (auto simp: same_frame_def)
  let ?st = "st1\<lparr>encoder := en, response_bytes := response_bytes st1 + int (length out)\<rparr>"
  obtain st2 w2 where r: "record_turn g False ?st w1 = (st2, w2)" by fastforce
  have "poll g st w = (Some (Inr out), st2\<lparr>ended := True\<rparr>, w2)"
    using assms f r by (simp add: poll_def poll_chunk_def Let_def)
  with record_turn_world [OF r] f show ?thesis by (auto simp: poll_def)
qed

definition sample_stream :: "byte_stream \<Rightarrow> (unit, unit) stream_state" where
  "sample_stream items = translate_stream sample_gateway items Anthropic Anthropic
     (record_ctx_new sample_ctx ''anthropic'' ''m'' (sample_deployment ''m'' ''p'') [] 0 0) 200 (None, None) False"

theorem marker_in_text_ends_stream_witness:
  "\<exists>st' w'. poll sample_gateway (sample_stream [Chunk (''say message_stop'' @ [CHR 0x0A]), Chunk ''rest''])
     (sample_world []) = (Some (Inr ''say message_stop''), st', w') \<and> upstream st' = [Chunk ''rest''] \<and>
     poll sample_gateway st' w' = (None, st', w')"
proof -
  let ?c = "''say message_stop'' @ [CHR 0x0A]" and ?i = "[Chunk ''rest'']"
  let ?st = "sample_stream (Chunk ?c # ?i)" and ?w = "sample_world []"
  let ?d = "decode_lines sample_gateway [?c] (?st\<lparr>upstream := ?i, buf := []\<rparr>) ?w"
  have st: "\<not> ended ?st" "\<not> recorded ?st" "upstream ?st = Chunk ?c # ?i" "st_surface ?st = Anthropic"
    by (simp_all add: sample_stream_def translate_stream_def)
  have l: "split_lines (buf ?st @ ?c) = ([?c], [])" by code_simp
  obtain st1 w1 where d: "?d = ([TextDelta ''say message_stop''], st1, w1)"
  proof -
    have "fst ?d = [TextDelta ''say message_stop'']" by code_simp
    then show ?thesis using that by (cases ?d) auto
  qed
  have e: "encode (wire sample_gateway) (encoder st1) [TextDelta ''say message_stop''] =
      (''say message_stop'', ())" by (simp add: sample_gateway_def sample_wire_def)
  have m: "contains_str (from_utf8_lossy ''say message_stop'') ''message_stop''" by code_simp
  from marker_in_text_ends_stream [OF st(1-3) l d _ e _ m st(4)] show ?thesis by auto
qed

end
