(* ===== verification/Media_Wire.thy ===== *)
theory Media_Wire
  imports Chat_IR
begin

text \<open>
  The media requests of \<open>crates/yb-wire/src/media.rs\<close>, which are forwarded and not translated: the
  model is read from a JSON body or a multipart form and replaced there by the deployment's own;
  and the embeddings IR of \<open>crates/yb-wire/src/embed/mod.rs\<close>.

  Parsing and printing JSON text and decoding base64 are other packages: \<open>from_slice\<close>, \<open>to_vec\<close> and
  \<open>b64_decode\<close> are arguments of the definitions that use them. A vector of an embedding holds exact
  rationals.
\<close>

section \<open>Strings\<close>

text \<open>Whether a byte string is well-formed UTF-8 (\<open>String::from_utf8\<close> succeeds).\<close>
function utf8_valid :: "bytes \<Rightarrow> bool" where
  "utf8_valid s =
     (if s = [] then True
      else let (n, ok) = utf8_next (map byte_of s) in if ok then utf8_valid (drop (max n 1) s) else False)"
  by pat_completeness auto
termination by (relation "measure length") auto

declare utf8_valid.simps [simp del]

lemma utf8_valid_code [code]:
  "utf8_valid s =
     (case s of
        [] \<Rightarrow> True
      | c # cs \<Rightarrow>
          if is_ascii c then utf8_valid cs
          else let (n, ok) = utf8_next (map byte_of s) in if ok then utf8_valid (drop (max n 1) s) else False)"
  using utf8_next_ascii by (subst utf8_valid.simps) (auto split: list.split prod.split)

definition from_utf8 :: "bytes \<Rightarrow> string option" where
  "from_utf8 s = (if utf8_valid s then Some s else None)"

definition rsplit_once :: "char \<Rightarrow> string \<Rightarrow> (string \<times> string) option" where
  "rsplit_once c s =
     (if c \<in> set s
      then Some (rev (tl (dropWhile (\<lambda>x. x \<noteq> c) (rev s))), rev (takeWhile (\<lambda>x. x \<noteq> c) (rev s)))
      else None)"

definition trim_matches_char :: "char \<Rightarrow> string \<Rightarrow> string" where
  "trim_matches_char c s = trim_end_char c (dropWhile (\<lambda>x. x = c) s)"

definition find_map :: "('a \<Rightarrow> 'b option) \<Rightarrow> 'a list \<Rightarrow> 'b option" where
  "find_map f xs = (case List.map_filter f xs of [] \<Rightarrow> None | y # _ \<Rightarrow> Some y)"

text \<open>\<open>str::lines\<close>: split at line feeds, a final empty piece dropped, one carriage return stripped.\<close>
definition str_lines :: "string \<Rightarrow> string list" where
  "str_lines s =
     (let ls = split_chars (\<lambda>c. c = CHR 0x0A) s
      in map (\<lambda>l. case strip_suffix l [CHR 0x0D] of None \<Rightarrow> l | Some l' \<Rightarrow> l')
           (if last ls = [] then butlast ls else ls))"

section \<open>Multipart forms\<close>

definition is_multipart :: "string \<Rightarrow> bool" where
  "is_multipart content_type =
     starts_with (to_ascii_lowercase (trim_start content_type)) ''multipart/form-data''"

definition multipart_boundary :: "string \<Rightarrow> string option" where
  "multipart_boundary content_type =
     find_map (\<lambda>parameter.
         case split_once (trim parameter) ''='' of
           None \<Rightarrow> None
         | Some (name, value) \<Rightarrow>
             if eq_ignore_ascii_case name ''boundary''
             then let b = trim_matches_char CHR 0x22 (trim value) in if b = [] then None else Some b
             else None)
       (drop 1 (split_chars (\<lambda>c. c = CHR '';'') content_type))"

text \<open>The first place of a needle at or after a position (\<open>find\<close>).\<close>
definition find_from :: "bytes \<Rightarrow> bytes \<Rightarrow> nat \<Rightarrow> nat option" where
  "find_from haystack needle from =
     (if from > length haystack then None
      else map_option (\<lambda>i. i + from) (find_str (drop from haystack) needle))"

definition crlf2 :: bytes where
  "crlf2 = [CHR 0x0D, CHR 0x0A, CHR 0x0D, CHR 0x0A]"

text \<open>Whether the headers of a part name the wanted field.\<close>
definition names_field :: "string \<Rightarrow> string \<Rightarrow> bool" where
  "names_field hdrs name =
     (let disposition =
            (case find (\<lambda>line. starts_with (to_ascii_lowercase line) ''content-disposition'') (str_lines hdrs) of
               None \<Rightarrow> [] | Some line \<Rightarrow> line)
      in list_ex (\<lambda>part. trim part = ''name='' @ [CHR 0x22] @ name @ [CHR 0x22] \<or> trim part = ''name='' @ name)
           (split_chars (\<lambda>c. c = CHR '';'') disposition))"

lemma find_from_Some:
  assumes "find_from hay needle from = Some i"
  shows "from \<le> i \<and> i + length needle \<le> length hay \<and> take (length needle) (drop i hay) = needle"
  using assms find_str_Some [of "drop from hay" needle "i - from"]
  by (auto simp: find_from_def add.commute split: if_splits)

text \<open>The walk over the parts, from the delimiter at a position.\<close>
function multipart_loop :: "bytes \<Rightarrow> string \<Rightarrow> string \<Rightarrow> nat \<Rightarrow> (nat \<times> nat) option" where
  "multipart_loop body boundary name pos =
     (let headers_start = pos + length (''--'' @ boundary) in
      case find_from body (''--'' @ boundary) headers_start of
        None \<Rightarrow> None
      | Some nxt \<Rightarrow>
          (case find_from body crlf2 headers_start of
             None \<Rightarrow> None
           | Some headers_end \<Rightarrow>
               if \<not> headers_end < nxt then None
               else if names_field (from_utf8_lossy (drop headers_start (take headers_end body))) name
               then let value_start = headers_end + 4 in Some (value_start, max (nxt - 2) value_start)
               else multipart_loop body boundary name nxt))"
  by pat_completeness auto
termination
  by (relation "measure (\<lambda>(body, boundary, name, pos). length body - pos)")
     (auto dest!: find_from_Some)

declare multipart_loop.simps [simp del]

text \<open>Where the value of a field sits in the body (\<open>multipart_span\<close>).\<close>
definition multipart_span :: "bytes \<Rightarrow> string \<Rightarrow> string \<Rightarrow> (nat \<times> nat) option" where
  "multipart_span body boundary name =
     (case find_from body (''--'' @ boundary) 0 of
        None \<Rightarrow> None
      | Some pos \<Rightarrow> multipart_loop body boundary name pos)"

definition multipart_field :: "bytes \<Rightarrow> string \<Rightarrow> string \<Rightarrow> string option" where
  "multipart_field body boundary name =
     (case multipart_span body boundary name of
        None \<Rightarrow> None
      | Some (s, e) \<Rightarrow>
          (case from_utf8 (drop s (take e body)) of
             None \<Rightarrow> None
           | Some v \<Rightarrow> let v = trim v in if v = [] then None else Some v))"

definition replace_multipart_field :: "bytes \<Rightarrow> string \<Rightarrow> string \<Rightarrow> string \<Rightarrow> bytes" where
  "replace_multipart_field body boundary name v =
     (case multipart_span body boundary name of
        None \<Rightarrow> body
      | Some (s, e) \<Rightarrow> take s body @ v @ drop e body)"

section \<open>Media requests\<close>

record media_request =
  media_model :: string
  media_boundary :: "string option"

definition route_media_request ::
  "(bytes \<Rightarrow> json wire_result) \<Rightarrow> bytes \<Rightarrow> string \<Rightarrow> media_request wire_result" where
  "route_media_request from_slice body content_type =
     (if is_multipart content_type then
        (case multipart_boundary content_type of
           None \<Rightarrow> Inl (InvalidRequest ''multipart body without a boundary'')
         | Some boundary \<Rightarrow>
             (case multipart_field body boundary ''model'' of
                None \<Rightarrow> Inl (MissingField ''model'')
              | Some m \<Rightarrow> Inr \<lparr>media_model = m, media_boundary = Some boundary\<rparr>))
      else
        (case from_slice body of
           Inl e \<Rightarrow> Inl e
         | Inr v \<Rightarrow>
             (case opt_str v ''model'' of
                None \<Rightarrow> Inl (MissingField ''model'')
              | Some m \<Rightarrow> Inr \<lparr>media_model = m, media_boundary = None\<rparr>)))"

definition upstream_body ::
  "(bytes \<Rightarrow> json wire_result) \<Rightarrow> (json \<Rightarrow> bytes) \<Rightarrow> media_request \<Rightarrow> bytes \<Rightarrow> string \<Rightarrow> bytes wire_result" where
  "upstream_body from_slice to_vec req body um =
     (case media_boundary req of
        Some boundary \<Rightarrow> Inr (replace_multipart_field body boundary ''model'' um)
      | None \<Rightarrow>
          (case from_slice body of
             Inl e \<Rightarrow> Inl e
           | Inr v \<Rightarrow>
               Inr (to_vec (case as_object v of
                  Some m \<Rightarrow> JObj (jinsert ''model'' (JStr um) m) | None \<Rightarrow> v))))"

text \<open>The upstream model a video id names.\<close>
definition video_model :: "(string \<Rightarrow> bytes option) \<Rightarrow> string \<Rightarrow> string wire_result" where
  "video_model b64_decode vid =
     (let invalid = Inl (InvalidField ''video'' ''not a video this gateway routes'') in
      case strip_prefix vid ''video_'' of
        None \<Rightarrow> invalid
      | Some encoded \<Rightarrow>
          (case Option.bind (b64_decode encoded) from_utf8 of
             None \<Rightarrow> invalid
           | Some raw \<Rightarrow>
               (case rsplit_once CHR ''/'' raw of
                  None \<Rightarrow> invalid
                | Some (rest, signature) \<Rightarrow>
                    (case rsplit_once CHR ''/'' rest of
                       None \<Rightarrow> invalid
                     | Some (m, job) \<Rightarrow>
                         if m = [] \<or> job = [] \<or> signature = [] then invalid else Inr m))))"

section \<open>The embeddings IR\<close>

datatype embed_part =
    EmbedText string
  | EmbedImage "string option" "string option" "string option"
  | EmbedAudio "string option" string

record embed_input =
  parts :: "embed_part list"

definition embed_input_text :: "string \<Rightarrow> embed_input" where
  "embed_input_text s = \<lparr>parts = [EmbedText s]\<rparr>"

definition as_single_text :: "embed_input \<Rightarrow> string option" where
  "as_single_text i = (case parts i of [EmbedText t] \<Rightarrow> Some t | _ \<Rightarrow> None)"

definition has_image :: "embed_input \<Rightarrow> bool" where
  "has_image i = list_ex (\<lambda>p. case p of EmbedImage _ _ _ \<Rightarrow> True | _ \<Rightarrow> False) (parts i)"

definition has_audio :: "embed_input \<Rightarrow> bool" where
  "has_audio i = list_ex (\<lambda>p. case p of EmbedAudio _ _ \<Rightarrow> True | _ \<Rightarrow> False) (parts i)"

datatype encoding_format = FloatEncoding | Base64Encoding

record embed_request =
  embed_model :: string
  inputs :: "embed_input list"
  input_type :: "string option"
  output_dimensions :: "(32 word) option"
  truncate_input :: "bool option"
  embed_encoding :: "encoding_format option"
  cohere_embedding_types :: "string list option"
  gemini_batch :: bool
  openai_content :: bool

record embed_usage =
  embed_input_tokens :: "32 word"
  image_units :: "32 word"

record embed_response =
  embed_response_model :: string
  embeddings :: "rat list list"
  embed_response_usage :: embed_usage

text \<open>A part of the dialect tables: the normalized task hints.\<close>
definition image_to_data_uri :: "string option \<Rightarrow> string option \<Rightarrow> string wire_result" where
  "image_to_data_uri media_type data =
     (case data of
        Some d \<Rightarrow> Inr (build_data_url media_type d)
      | None \<Rightarrow> Inl (InvalidRequest
          ''this upstream requires inline base64 images; URL images are not fetched by the gateway''))"

definition input_type_to_gemini :: "string \<Rightarrow> string option" where
  "input_type_to_gemini t =
     (if t = ''query'' then Some ''RETRIEVAL_QUERY''
      else if t = ''document'' then Some ''RETRIEVAL_DOCUMENT''
      else if t = ''classification'' then Some ''CLASSIFICATION''
      else if t = ''clustering'' then Some ''CLUSTERING'' else None)"

definition gemini_to_input_type :: "string \<Rightarrow> string option" where
  "gemini_to_input_type t =
     (let u = to_ascii_uppercase t in
      if u = ''RETRIEVAL_QUERY'' \<or> u = ''QUESTION_ANSWERING'' then Some ''query''
      else if u = ''RETRIEVAL_DOCUMENT'' \<or> u = ''FACT_VERIFICATION'' then Some ''document''
      else if u = ''CLASSIFICATION'' then Some ''classification''
      else if u = ''CLUSTERING'' then Some ''clustering'' else None)"

definition input_type_to_cohere :: "string option \<Rightarrow> string" where
  "input_type_to_cohere t =
     (if t = Some ''query'' then ''search_query''
      else if t = Some ''classification'' then ''classification''
      else if t = Some ''clustering'' then ''clustering'' else ''search_document'')"

definition cohere_to_input_type :: "string \<Rightarrow> string option" where
  "cohere_to_input_type t =
     (if t = ''search_query'' then Some ''query''
      else if t = ''search_document'' then Some ''document''
      else if t = ''classification'' then Some ''classification''
      else if t = ''clustering'' then Some ''clustering'' else None)"

section \<open>Where a needle occurs\<close>

definition occurs_at :: "bytes \<Rightarrow> bytes \<Rightarrow> nat \<Rightarrow> bool" where
  "occurs_at hay nd i \<longleftrightarrow> i + length nd \<le> length hay \<and> (\<forall>k < length nd. hay ! (i + k) = nd ! k)"

lemma occurs_at_take: "occurs_at hay nd i \<longleftrightarrow> i + length nd \<le> length hay \<and> take (length nd) (drop i hay) = nd"
  by (auto simp: occurs_at_def list_eq_iff_nth_eq)

lemma occurs_at_0: "occurs_at s p 0 \<longleftrightarrow> starts_with s p"
  by (auto simp: occurs_at_take starts_with_def) (metis length_take min.cobounded1)

lemma occurs_at_Suc [simp]: "occurs_at (c # cs) p (Suc i) \<longleftrightarrow> occurs_at cs p i"
  by (simp add: occurs_at_def)

lemma find_str_iff: "find_str s p = Some i \<longleftrightarrow> occurs_at s p i \<and> (\<forall>j < i. \<not> occurs_at s p j)"
proof (induction s arbitrary: i)
  case Nil
  then show ?case by (cases i) (auto simp: occurs_at_def)
next
  case (Cons c cs)
  show ?case
    by (cases i) (auto simp: occurs_at_0 Cons less_Suc_eq_0_disj)
qed

lemma occurs_at_drop: "from \<le> length hay \<Longrightarrow> occurs_at (drop from hay) p i \<longleftrightarrow> occurs_at hay p (from + i)"
  by (auto simp: occurs_at_def add.assoc)

lemma find_from_iff:
  "find_from hay nd from = Some i \<longleftrightarrow>
     from \<le> i \<and> occurs_at hay nd i \<and> (\<forall>j. from \<le> j \<and> j < i \<longrightarrow> \<not> occurs_at hay nd j)"
proof (cases "from \<le> length hay")
  case False
  then show ?thesis by (auto simp: find_from_def occurs_at_def)
next
  case True
  have "find_from hay nd from = Some i \<longleftrightarrow> from \<le> i \<and> find_str (drop from hay) nd = Some (i - from)"
    using True by (auto simp: find_from_def)
  also have "\<dots> \<longleftrightarrow> from \<le> i \<and> occurs_at hay nd i \<and> (\<forall>j < i - from. \<not> occurs_at hay nd (from + j))"
    by (auto simp: find_str_iff occurs_at_drop [OF True])
  also have "\<dots> \<longleftrightarrow> from \<le> i \<and> occurs_at hay nd i \<and> (\<forall>j. from \<le> j \<and> j < i \<longrightarrow> \<not> occurs_at hay nd j)"
    by (metis add_diff_inverse_nat le_add1 less_diff_conv2 less_diff_conv add.commute linorder_not_le)
  finally show ?thesis .
qed

lemma occurs_at_prefix: "i + length nd \<le> length p \<Longrightarrow> occurs_at (p @ x) nd i \<longleftrightarrow> occurs_at p nd i"
  by (auto simp: occurs_at_def nth_append)

lemma find_from_prefix:
  assumes "find_from (p @ x) nd from = Some i" "i + length nd \<le> length p"
  shows "find_from (p @ y) nd from = Some i"
  using assms by (auto simp: find_from_iff occurs_at_prefix)

section \<open>The walk over a form\<close>

lemma crlf2_before_dash:
  assumes "occurs_at body crlf2 h" "occurs_at body (''--'' @ bd) n" "h < n"
  shows "h + 4 \<le> n"
proof (rule ccontr)
  assume "\<not> h + 4 \<le> n"
  with assms(3) have k: "n - h < length crlf2" "h + (n - h) = n" by (auto simp: crlf2_def)
  with assms(1) have "body ! n = crlf2 ! (n - h)" unfolding occurs_at_def by metis
  moreover have "body ! n = CHR ''-''" using assms(2) by (force simp: occurs_at_def)
  moreover have "CHR ''-'' \<notin> set crlf2" by (simp add: crlf2_def)
  ultimately show False using nth_mem [OF k(1)] by simp
qed

lemma multipart_loop_cases:
  assumes "multipart_loop body bd name pos = Some (s, e)"
  obtains n h where "find_from body (''--'' @ bd) (pos + length (''--'' @ bd)) = Some n"
    "find_from body crlf2 (pos + length (''--'' @ bd)) = Some h" "h < n" "h + 4 \<le> n"
    "if names_field (from_utf8_lossy (drop (pos + length (''--'' @ bd)) (take h body))) name
     then s = h + 4 \<and> e = max (n - 2) s else multipart_loop body bd name n = Some (s, e)"
proof -
  let ?hs = "pos + length (''--'' @ bd)"
  obtain n h where f: "find_from body (''--'' @ bd) ?hs = Some n" "find_from body crlf2 ?hs = Some h" "h < n"
    using assms by (subst (asm) multipart_loop.simps) (auto simp: Let_def split: option.splits if_splits)
  moreover have "h + 4 \<le> n" using f crlf2_before_dash by (auto simp: find_from_iff)
  moreover have "if names_field (from_utf8_lossy (drop ?hs (take h body))) name
     then s = h + 4 \<and> e = max (n - 2) s else multipart_loop body bd name n = Some (s, e)"
    using assms f by (subst (asm) multipart_loop.simps) (auto simp: Let_def)
  ultimately show ?thesis by (rule that)
qed

lemma multipart_loop_step:
  assumes "find_from body (''--'' @ bd) (pos + length (''--'' @ bd)) = Some n"
    "find_from body crlf2 (pos + length (''--'' @ bd)) = Some h" "h < n"
  shows "multipart_loop body bd name pos =
    (if names_field (from_utf8_lossy (drop (pos + length (''--'' @ bd)) (take h body))) name
     then Some (h + 4, max (n - 2) (h + 4)) else multipart_loop body bd name n)"
  using assms by (subst multipart_loop.simps) (simp add: Let_def)

lemma multipart_loop_range:
  assumes "multipart_loop body bd name pos = Some (s, e)"
  shows "pos + length (''--'' @ bd) + 4 \<le> s \<and> s \<le> e \<and> e \<le> length body"
  using assms
proof (induction body bd name pos rule: multipart_loop.induct)
  case (1 body bd name pos)
  obtain n h where f: "find_from body (''--'' @ bd) (pos + length (''--'' @ bd)) = Some n"
    "find_from body crlf2 (pos + length (''--'' @ bd)) = Some h" "h < n" "h + 4 \<le> n"
    "if names_field (from_utf8_lossy (drop (pos + length (''--'' @ bd)) (take h body))) name
     then s = h + 4 \<and> e = max (n - 2) s else multipart_loop body bd name n = Some (s, e)"
    by (rule multipart_loop_cases [OF 1(2)])
  note r = find_from_Some [OF f(1)] find_from_Some [OF f(2)]
  show ?case
  proof (cases "names_field (from_utf8_lossy (drop (pos + length (''--'' @ bd)) (take h body))) name")
    case True
    with f r show ?thesis by auto
  next
    case False
    with 1(1) [OF refl f(1,2)] f r show ?thesis by auto
  qed
qed

section \<open>Replacing a value\<close>

text \<open>The value of a field ends at a line end and the next delimiter, as in a well-formed form.\<close>
definition value_closed :: "bytes \<Rightarrow> string \<Rightarrow> nat \<Rightarrow> bool" where
  "value_closed body bd e \<longleftrightarrow>
     starts_with (drop e body) ([CHR 0x0D, CHR 0x0A] @ ''--'' @ bd) \<and> CHR 0x0D \<notin> set bd \<and> CHR 0x0A \<notin> set bd"

lemma occurs_covers:
  assumes "occurs_at hay nd j" "j \<le> i" "i < j + length nd"
  shows "hay ! i \<in> set nd"
proof -
  have "i - j < length nd" "j + (i - j) = i" using assms(2,3) by auto
  with assms(1) show ?thesis unfolding occurs_at_def by (metis nth_mem)
qed

lemma occurs_at_shift:
  "occurs_at (p @ x) nd (length p + i) \<longleftrightarrow> occurs_at x nd i"
  by (auto simp: occurs_at_def nth_append)

text \<open>
  The first delimiter after the headers of the part, once its value is replaced: the walk does not
  stop inside the headers, nor in the new value, nor across either border.
\<close>
lemma replaced_delimiter:
  assumes old: "find_from (p @ x) dl hs = Some n" "length p \<le> n" "hs \<le> length p"
    and p: "p \<noteq> []" "last p = CHR 0x0A" and dl: "CHR 0x0D \<notin> set dl" "CHR 0x0A \<notin> set dl"
    and v: "\<not> contains_str v dl" "dl \<noteq> []" and suf: "suf = [CHR 0x0D, CHR 0x0A] @ dl @ rest"
  shows "find_from (p @ v @ suf) dl hs = Some (length p + length v + 2)"
  unfolding find_from_iff
proof (intro conjI allI impI)
  show "hs \<le> length p + length v + 2" using assms(3) by simp
  show "occurs_at (p @ v @ suf) dl (length p + length v + 2)"
    unfolding suf by (auto simp: occurs_at_def nth_append)
next
  fix j assume j: "hs \<le> j \<and> j < length p + length v + 2"
  show "\<not> occurs_at (p @ v @ suf) dl j"
  proof
    assume o: "occurs_at (p @ v @ suf) dl j"
    have ends: "(p @ v @ suf) ! (length p - 1) = CHR 0x0A" "(p @ v @ suf) ! (length p + length v) = CHR 0x0D"
      "(p @ v @ suf) ! (length p + length v + 1) = CHR 0x0A"
      using p by (auto simp: nth_append suf last_conv_nth)
    have len: "0 < length dl" using v(2) by simp
    consider "j + length dl \<le> length p" | "j < length p" "length p < j + length dl"
      | "length p \<le> j" "j + length dl \<le> length p + length v"
      | "j \<le> length p + length v" "length p + length v < j + length dl" | "j = length p + length v + 1"
      using j by linarith
    then show False
    proof cases
      case 1
      then have "occurs_at (p @ x) dl j" using o by (simp add: occurs_at_prefix)
      moreover have "j < n" using 1 len assms(2) by linarith
      ultimately show False using old(1) j by (auto simp: find_from_iff)
    next
      case 2
      then have "(p @ v @ suf) ! (length p - 1) \<in> set dl" by (intro occurs_covers [OF o]) auto
      with ends dl show False by simp
    next
      case 3
      then have "occurs_at (v @ suf) dl (j - length p)" using o occurs_at_shift [of p _ dl "j - length p"] by simp
      with 3 have "occurs_at v dl (j - length p)" by (simp add: occurs_at_prefix)
      then have "v = take (j - length p) v @ dl @ drop (length dl) (drop (j - length p) v)"
        by (metis append_take_drop_id occurs_at_take)
      with v(1) show False unfolding contains_str_iff by metis
    next
      case 4
      then have "(p @ v @ suf) ! (length p + length v) \<in> set dl" by (intro occurs_covers [OF o]) auto
      with ends dl show False by simp
    next
      case 5
      then have "(p @ v @ suf) ! (length p + length v + 1) \<in> set dl" using len by (intro occurs_covers [OF o]) auto
      with ends dl show False by simp
    qed
  qed
qed

lemma multipart_loop_replaced:
  assumes "multipart_loop body bd name pos = Some (s, e)" "value_closed body bd e"
    and "\<not> contains_str v (''--'' @ bd)"
  shows "multipart_loop (take s body @ v @ drop e body) bd name pos = Some (s, s + length v)"
  using assms
proof (induction body bd name pos rule: multipart_loop.induct)
  case (1 body bd name pos)
  let ?dl = "''--'' @ bd" and ?new = "take s body @ v @ drop e body"
  let ?hs = "pos + length ?dl"
  let ?named = "\<lambda>h. names_field (from_utf8_lossy (drop ?hs (take h body))) name"
  obtain n h where f: "find_from body ?dl ?hs = Some n" "find_from body crlf2 ?hs = Some h" "h < n" "h + 4 \<le> n"
    "if ?named h then s = h + 4 \<and> e = max (n - 2) s else multipart_loop body bd name n = Some (s, e)"
    by (rule multipart_loop_cases [OF 1(2)])
  have range: "s \<le> e" "e \<le> length body" using multipart_loop_range [OF 1(2)] by auto
  have split: "body = take s body @ drop s body" by simp
  have len: "length (take s body) = s" using range by simp
  have hs: "h + 4 \<le> s"
    using f multipart_loop_range [of body bd name n s e] by (auto split: if_splits)
  have "h + length crlf2 \<le> length (take s body)" using hs len by (simp add: crlf2_def)
  with f(2) have h': "find_from ?new crlf2 ?hs = Some h"
    using find_from_prefix [of "take s body" "drop s body" crlf2 ?hs h "v @ drop e body"] by simp
  have th: "take h ?new = take h body" using hs range by simp
  show ?case
  proof (cases "?named h")
    case True
    with f have s: "s = h + 4" "s \<le> n" "?hs \<le> s" using find_from_Some [OF f(2)] by auto
    have o: "occurs_at body crlf2 h" using f(2) by (simp add: find_from_iff)
    then have "body ! (h + 3) = crlf2 ! 3" unfolding occurs_at_def by (simp add: crlf2_def)
    moreover have ne: "take s body \<noteq> []" using s range by auto
    moreover have "last (take s body) = body ! (h + 3)"
      using s unfolding last_conv_nth [OF ne] len by (simp add: numeral_eq_Suc)
    ultimately have l: "take s body \<noteq> []" "last (take s body) = CHR 0x0A" by (simp_all add: crlf2_def)
    obtain rest where suf: "drop e body = [CHR 0x0D, CHR 0x0A] @ ?dl @ rest"
      using 1(3) by (auto simp: value_closed_def starts_with_iff)
    have nl: "CHR 0x0D \<notin> set ?dl" "CHR 0x0A \<notin> set ?dl" using 1(3) by (auto simp: value_closed_def)
    have "find_from (take s body @ drop s body) ?dl ?hs = Some n" using f(1) by simp
    from replaced_delimiter [OF this _ _ l nl "1.prems"(3) _ suf]
    have "find_from ?new ?dl ?hs = Some (s + length v + 2)" unfolding len using s(2,3) by simp
    from multipart_loop_step [OF this h', of name] True s show ?thesis unfolding th by simp
  next
    case False
    with f have rec: "multipart_loop body bd name n = Some (s, e)" by simp
    then have "n + length ?dl \<le> s" using multipart_loop_range by fastforce
    with f(1) have "find_from ?new ?dl ?hs = Some n"
      using find_from_prefix [of "take s body" "drop s body" ?dl ?hs n "v @ drop e body"] range by simp
    from multipart_loop_step [OF this h' f(3), of name] False 1(1) [OF refl f(1,2) _ _ rec "1.prems"(2,3)] f(3)
    show ?thesis unfolding th by simp
  qed
qed

lemma multipart_span_replaced:
  assumes "multipart_span body bd name = Some (s, e)" "value_closed body bd e" "\<not> contains_str v (''--'' @ bd)"
  shows "multipart_span (take s body @ v @ drop e body) bd name = Some (s, s + length v)"
proof -
  obtain pos where p: "find_from body (''--'' @ bd) 0 = Some pos" "multipart_loop body bd name pos = Some (s, e)"
    using assms(1) by (auto simp: multipart_span_def split: option.splits)
  note r = multipart_loop_range [OF p(2)]
  have "find_from (take s body @ v @ drop e body) (''--'' @ bd) 0 = Some pos"
    using p(1) r find_from_prefix [of "take s body" "drop s body" "''--'' @ bd" 0 pos "v @ drop e body"] by simp
  with multipart_loop_replaced [OF p(2) assms(2,3)] show ?thesis by (simp add: multipart_span_def)
qed

section \<open>Properties\<close>

text \<open>A multipart form is forwarded with only the value of its model field changed: the span found
  lies within the body, so no slice is out of range; every byte before and after it is kept; and the
  form that goes upstream names the new model and nothing else, so replacing it again replaces the
  replacement.\<close>
theorem multipart_replace_roundtrip:
  assumes "multipart_span body bd name = Some (s, e)" "value_closed body bd e"
    and "\<not> contains_str v (''--'' @ bd)" "utf8_valid v" "trim v \<noteq> []"
  shows "s \<le> e \<and> e \<le> length body \<and>
    replace_multipart_field body bd name v = take s body @ v @ drop e body \<and>
    multipart_field (replace_multipart_field body bd name v) bd name = Some (trim v) \<and>
    replace_multipart_field (replace_multipart_field body bd name v) bd name u =
      replace_multipart_field body bd name u"
proof -
  have r: "s \<le> e" "e \<le> length body"
    using assms(1) multipart_loop_range by (fastforce simp: multipart_span_def split: option.splits)+
  have new: "replace_multipart_field body bd name w = take s body @ w @ drop e body" for w
    by (simp add: replace_multipart_field_def assms(1))
  note span = multipart_span_replaced [OF assms(1-3)]
  have "multipart_field (take s body @ v @ drop e body) bd name = Some (trim v)"
    using r assms(4,5) by (simp add: multipart_field_def span from_utf8_def Let_def)
  moreover have "replace_multipart_field (take s body @ v @ drop e body) bd name u = take s body @ u @ drop e body"
    using r by (simp add: replace_multipart_field_def span)
  ultimately show ?thesis using r by (simp add: new)
qed

definition sample_form :: "string \<Rightarrow> bytes" where
  "sample_form m = ''--b'' @ [CHR 0x0D, CHR 0x0A] @ ''Content-Disposition;name=model'' @ crlf2 @ m @
     [CHR 0x0D, CHR 0x0A] @ ''--b--''"

theorem multipart_replace_roundtrip_witness:
  "multipart_field (replace_multipart_field (sample_form ''a'') ''b'' ''model'' ''whisper'') ''b'' ''model'' =
     Some ''whisper''"
proof -
  have span: "multipart_span (sample_form ''a'') ''b'' ''model'' = Some (39, 40)" by code_simp
  have closed: "value_closed (sample_form ''a'') ''b'' 40" by code_simp
  have v: "\<not> contains_str ''whisper'' (''--'' @ ''b'')" "utf8_valid ''whisper''" by code_simp+
  have t: "trim ''whisper'' = ''whisper''" by code_simp
  have "trim ''whisper'' \<noteq> []" unfolding t by simp
  from multipart_replace_roundtrip [OF span closed v this]
  have "multipart_field (replace_multipart_field (sample_form ''a'') ''b'' ''model'' ''whisper'') ''b'' ''model'' =
      Some (trim ''whisper'')" by blast
  then show ?thesis unfolding t .
qed

end
