(* ===== verification/Gateway_Media.thy ===== *)
theory Gateway_Media
  imports Gateway_Turn Media_Wire
begin

text \<open>
  The buffered turns of \<open>crates/yb-gateway/src/embed.rs\<close> and \<open>media.rs\<close>: \<open>Gateway::handle_embed\<close>,
  \<open>Gateway::handle_media\<close> and \<open>Gateway::handle_video\<close>. They share the routing, the policy and the
  recording of the chat turn and dispatch in a loop of their own. The embedding dialects, JSON
  text and base64 are arguments (\<open>media_ops\<close>).
\<close>

section \<open>Operations\<close>

record media_ops =
  parse_embed_request :: "embed_format \<Rightarrow> bytes \<Rightarrow> embed_request wire_result"
  emit_embed_request :: "embed_format \<Rightarrow> embed_request \<Rightarrow> string \<Rightarrow> emitted_request wire_result"
  parse_embed_response :: "embed_format \<Rightarrow> bytes \<Rightarrow> embed_response wire_result"
  emit_embed_response :: "embed_format \<Rightarrow> embed_response \<Rightarrow> embed_request \<Rightarrow> bytes wire_result"
  embed_to_vec :: "embed_response \<Rightarrow> bytes"
  media_from_slice :: "bytes \<Rightarrow> json wire_result"
  media_to_vec :: "json \<Rightarrow> bytes"
  b64_decode :: "string \<Rightarrow> bytes option"

text \<open>One call of the upstream client for a deployment; \<open>None\<close> when the caller hung up.\<close>
definition call_upstream ::
  "('c, 'd, 'e) gateway \<Rightarrow> deployment \<Rightarrow> upstream_request \<Rightarrow> 'c world \<Rightarrow>
   upstream_response result option \<times> 'c world" where
  "call_upstream g d u w =
     (let w = emit (SendUpstream d u) w;
          (res, c) = send g (client w) u
      in (res, w\<lparr>client := c\<rparr>))"

definition own_key :: "deployment \<Rightarrow> string" where
  "own_key d = (case api_key d of None \<Rightarrow> [] | Some k \<Rightarrow> k)"

text \<open>A buffered body; a streamed one is drained as text.\<close>
definition full_bytes :: "response_body \<Rightarrow> bytes" where
  "full_bytes b = (case b of FullBody bs \<Rightarrow> bs | StreamBody _ \<Rightarrow> read_body_message b)"

section \<open>Embeddings\<close>

fun embed_part_chars :: "embed_part \<Rightarrow> nat" where
  "embed_part_chars (EmbedText t) = length t"
| "embed_part_chars _ = 0"

definition build_embed_route_request :: "embed_request \<Rightarrow> request_ctx \<Rightarrow> route_request" where
  "build_embed_route_request req ctx =
     policy_route_request ctx
       \<lparr>requested_model = embed_model req,
        estimated_input_tokens =
          word_of_int (min (int (sum_list (map embed_part_chars (concat (map parts (inputs req))))) div 4) (2 ^ 32 - 1)),
        has_tools = False, has_images = list_ex has_image (inputs req),
        excluded_model_ids = [], enabled_provider_ids = None, denied_provider_ids_req = [],
        preferred_models = []\<rparr>"

definition embed_call ::
  "('c, 'd, 'e) gateway \<Rightarrow> media_ops \<Rightarrow> embed_format \<Rightarrow> embed_request \<Rightarrow> deployment \<Rightarrow> upstream_request result" where
  "embed_call g x fmt req d =
     (case lift_wire (emit_embed_request x fmt req (upstream_model d)) of
        Inl e \<Rightarrow> Inl e
      | Inr (up_body, hs) \<Rightarrow>
          let hs = hs @ embed_auth_headers (environ g) fmt (own_key d);
              hs = append_headers hs (extra_headers (cf_access g) (extra d))
          in Inr \<lparr>url = build_embed_url fmt (api_base d) (upstream_model d), http_method = Post,
                  req_headers = hs, req_body = up_body, req_stream = False\<rparr>)"

text \<open>A connection lost while the request was sent is tried once more on the same deployment.\<close>
definition embed_send ::
  "('c, 'd, 'e) gateway \<Rightarrow> deployment \<Rightarrow> upstream_request \<Rightarrow> 'c world \<Rightarrow>
   upstream_response result option \<times> 'c world" where
  "embed_send g d u w =
     (case call_upstream g d u w of
        (Some (Inl (ConnectionLost _)), w) \<Rightarrow> call_upstream g d u w
      | r \<Rightarrow> r)"

definition embed_exhausted :: "embed_request \<Rightarrow> error option \<Rightarrow> bool \<Rightarrow> error" where
  "embed_exhausted req last_err saw_chat_only =
     (if saw_chat_only then
        BadRequest (''model '' @ embed_model req @ '' resolves only to chat deployments; use a chat endpoint'')
      else case last_err of None \<Rightarrow> NoEligibleProvider (embed_model req) | Some e \<Rightarrow> e)"

text \<open>
  A success: parse, re-emit, record. A body that does not translate leaves the function with the
  guard still armed, and dropping it records a closed request.
\<close>
definition embed_success ::
  "('c, 'd, 'e) gateway \<Rightarrow> media_ops \<Rightarrow> embed_format \<Rightarrow> embed_format \<Rightarrow> embed_request \<Rightarrow> turn_guard \<Rightarrow>
   record_ctx \<Rightarrow> upstream_response \<Rightarrow> 'c world \<Rightarrow> ('d, 'e) gateway_response result \<times> 'c world" where
  "embed_success g x surface fmt req tg rc resp w =
     (case lift_wire (parse_embed_response x fmt (full_bytes (resp_body resp))) of
        Inl e \<Rightarrow> (Inl e, turn_guard_drop g tg w)
      | Inr parsed \<Rightarrow>
          (case lift_wire (emit_embed_response x surface parsed req) of
             Inl e \<Rightarrow> (Inl e, turn_guard_drop g tg w)
           | Inr out \<Rightarrow>
               (Inr (FullResponse (resp_status resp) json_headers out),
                finish g rc (usage_default\<lparr>input_tokens := embed_input_tokens (embed_response_usage parsed)\<rparr>)
                  (resp_status resp) False (embed_to_vec x parsed) (int (length out)) w)))"

fun embed_dispatch ::
  "('c, 'd, 'e) gateway \<Rightarrow> media_ops \<Rightarrow> embed_format \<Rightarrow> bytes \<Rightarrow> request_ctx \<Rightarrow> embed_request \<Rightarrow> turn_guard \<Rightarrow>
   deployment list \<Rightarrow> error option \<Rightarrow> bool \<Rightarrow> 'c world \<Rightarrow>
   ('d, 'e) gateway_response result outcome \<times> 'c world" where
  "embed_dispatch g x surface body ctx req tg [] last_err saw_chat_only w =
     (let e = embed_exhausted req last_err saw_chat_only
      in (Returned (Inl e), guard_fail g tg (http_status e) w))"
| "embed_dispatch g x surface body ctx req tg (d # ds) last_err saw_chat_only w =
     (case upstream_format d of
        Chat _ \<Rightarrow> embed_dispatch g x surface body ctx req tg ds last_err saw_chat_only w
      | Media _ \<Rightarrow> embed_dispatch g x surface body ctx req tg ds last_err saw_chat_only w
      | Embed fmt \<Rightarrow>
          (case embed_call g x fmt req d of
             Inl e \<Rightarrow> (Returned (Inl e), guard_fail g tg (http_status e) w)
           | Inr u \<Rightarrow>
               (case embed_send g d u w of
                  (None, w) \<Rightarrow> (Cancelled, turn_guard_drop g tg w)
                | (Some (Inl e), w) \<Rightarrow> embed_dispatch g x surface body ctx req tg ds (Some e) False w
                | (Some (Inr resp), w) \<Rightarrow>
                    let status = resp_status resp;
                        rc = record_ctx_new ctx (embed_format_as_str surface) (embed_model req) d body
                               (tg_started tg) (tg_created_at tg);
                        e = Upstream (provider d) status (read_body_message (resp_body resp))
                    in if \<not> is_success status then
                         if is_retryable status \<or> is_model_not_found status
                         then embed_dispatch g x surface body ctx req tg ds (Some e) False w
                         else (Returned (Inl e), finish g rc usage_default status True [] 0 w)
                       else let (r, w) = embed_success g x surface fmt req tg rc resp w
                            in (Returned r, w))))"

text \<open>Routing with the caller's policy, shared by the handlers: the candidates or a refusal.\<close>
definition route_turn ::
  "request_ctx \<Rightarrow> route_request \<Rightarrow> 'c world \<Rightarrow> deployment list result \<times> 'c world" where
  "route_turn ctx req w =
     (let (dec, r) = resolve (router w) req; w = w\<lparr>router := r\<rparr>
      in case dec of
           Inl e \<Rightarrow> (Inl e, w)
         | Inr d \<Rightarrow>
             let cands = filter_access (candidates d) ctx
             in (if cands = [] then Inl (NoEligibleProvider (requested_model req)) else Inr cands, w))"

definition handle_embed ::
  "('c, 'd, 'e) gateway \<Rightarrow> media_ops \<Rightarrow> embed_format \<Rightarrow> bytes \<Rightarrow> request_ctx \<Rightarrow> 'c world \<Rightarrow>
   ('d, 'e) gateway_response result outcome \<times> 'c world" where
  "handle_embed g x surface body ctx w =
     (let (started, w) = read_instant g w;
          (created, w) = read_now g w
      in case lift_wire (parse_embed_request x surface body) of
           Inl e \<Rightarrow> (Returned (Inl e), w)
         | Inr req \<Rightarrow>
             let tg = turn_guard_new ctx (embed_format_as_str surface) (embed_model req) started created
             in case route_turn ctx (build_embed_route_request req ctx) w of
                  (Inl e, w) \<Rightarrow> (Returned (Inl e), guard_fail g tg (http_status e) w)
                | (Inr cands, w) \<Rightarrow> embed_dispatch g x surface body ctx req tg cands None True w)"

section \<open>Images, speech, transcriptions and videos\<close>

definition build_media_route_request :: "string \<Rightarrow> request_ctx \<Rightarrow> route_request" where
  "build_media_route_request m ctx =
     policy_route_request ctx
       \<lparr>requested_model = m, estimated_input_tokens = 0, has_tools = False, has_images = False,
        excluded_model_ids = [], enabled_provider_ids = None, denied_provider_ids_req = [],
        preferred_models = []\<rparr>"

definition media_call ::
  "('c, 'd, 'e) gateway \<Rightarrow> media_ops \<Rightarrow> media_format \<Rightarrow> bytes \<Rightarrow> string \<Rightarrow> media_request \<Rightarrow> deployment \<Rightarrow>
   upstream_request result" where
  "media_call g x surface body content_type req d =
     (case lift_wire (upstream_body (media_from_slice x) (media_to_vec x) req body (upstream_model d)) of
        Inl e \<Rightarrow> Inl e
      | Inr up_body \<Rightarrow>
          let hs = (''content-type'', content_type) # media_auth_headers (environ g) (own_key d);
              hs = append_headers hs (extra_headers (cf_access g) (extra d))
          in Inr \<lparr>url = build_media_url surface (api_base d), http_method = Post,
                  req_headers = hs, req_body = up_body, req_stream = False\<rparr>)"

definition content_type_of :: "upstream_response \<Rightarrow> string" where
  "content_type_of resp =
     (case response_header resp ''content-type'' of None \<Rightarrow> ''application/octet-stream'' | Some t \<Rightarrow> t)"

definition media_exhausted :: "media_format \<Rightarrow> media_request \<Rightarrow> error option \<Rightarrow> bool \<Rightarrow> error" where
  "media_exhausted surface req last_err other_only =
     (if other_only then
        BadRequest (''model '' @ media_model req @ '' does not serve '' @ media_path surface)
      else case last_err of None \<Rightarrow> NoEligibleProvider (media_model req) | Some e \<Rightarrow> e)"

text \<open>Only JSON answers are kept in the request log.\<close>
definition media_success ::
  "('c, 'd, 'e) gateway \<Rightarrow> record_ctx \<Rightarrow> upstream_response \<Rightarrow> 'c world \<Rightarrow>
   ('d, 'e) gateway_response result \<times> 'c world" where
  "media_success g rc resp w =
     (let bs = full_bytes (resp_body resp);
          ct = content_type_of resp;
          logged = (if starts_with ct ''application/json'' then bs else [])
      in (Inr (FullResponse (resp_status resp) [(''content-type'', ct)] bs),
          finish g rc usage_default (resp_status resp) False logged (int (length bs)) w))"

fun media_dispatch ::
  "('c, 'd, 'e) gateway \<Rightarrow> media_ops \<Rightarrow> media_format \<Rightarrow> bytes \<Rightarrow> string \<Rightarrow> request_ctx \<Rightarrow> media_request \<Rightarrow>
   turn_guard \<Rightarrow> deployment list \<Rightarrow> error option \<Rightarrow> bool \<Rightarrow> 'c world \<Rightarrow>
   ('d, 'e) gateway_response result outcome \<times> 'c world" where
  "media_dispatch g x surface body ct ctx req tg [] last_err other_only w =
     (let e = media_exhausted surface req last_err other_only
      in (Returned (Inl e), guard_fail g tg (http_status e) w))"
| "media_dispatch g x surface body ct ctx req tg (d # ds) last_err other_only w =
     (if upstream_format d \<noteq> Media surface
      then media_dispatch g x surface body ct ctx req tg ds last_err other_only w
      else
        (case media_call g x surface body ct req d of
           Inl e \<Rightarrow> (Returned (Inl e), guard_fail g tg (http_status e) w)
         | Inr u \<Rightarrow>
             (case call_upstream g d u w of
                (None, w) \<Rightarrow> (Cancelled, turn_guard_drop g tg w)
              | (Some (Inl e), w) \<Rightarrow> media_dispatch g x surface body ct ctx req tg ds (Some e) False w
              | (Some (Inr resp), w) \<Rightarrow>
                  let status = resp_status resp;
                      rc = (record_ctx_new ctx (media_format_as_str surface) (media_model req) d body
                             (tg_started tg) (tg_created_at tg))\<lparr>reports_usage := False\<rparr>;
                      e = Upstream (provider d) status (read_body_message (resp_body resp))
                  in if \<not> is_success status then
                       if is_retryable status \<or> is_model_not_found status
                       then media_dispatch g x surface body ct ctx req tg ds (Some e) False w
                       else (Returned (Inl e), finish g rc usage_default status True [] 0 w)
                     else let (r, w) = media_success g rc resp w in (Returned r, w))))"

definition handle_media ::
  "('c, 'd, 'e) gateway \<Rightarrow> media_ops \<Rightarrow> media_format \<Rightarrow> bytes \<Rightarrow> string \<Rightarrow> request_ctx \<Rightarrow> 'c world \<Rightarrow>
   ('d, 'e) gateway_response result outcome \<times> 'c world" where
  "handle_media g x surface body ct ctx w =
     (let (started, w) = read_instant g w;
          (created, w) = read_now g w
      in case lift_wire (route_media_request (media_from_slice x) body ct) of
           Inl e \<Rightarrow> (Returned (Inl e), w)
         | Inr req \<Rightarrow>
             let tg = turn_guard_new ctx (media_format_as_str surface) (media_model req) started created
             in case route_turn ctx (build_media_route_request (media_model req) ctx) w of
                  (Inl e, w) \<Rightarrow> (Returned (Inl e), guard_fail g tg (http_status e) w)
                | (Inr cands, w) \<Rightarrow> media_dispatch g x surface body ct ctx req tg cands None True w)"

datatype video_lookup = Status | Content | Delete_video

definition video_call :: "('c, 'd, 'e) gateway \<Rightarrow> deployment \<Rightarrow> string \<Rightarrow> video_lookup \<Rightarrow> upstream_request" where
  "video_call g d vid lookup =
     \<lparr>url = build_media_url OpenaiVideos (api_base d) @ ''/'' @ vid @
        (if lookup = Content then ''/content'' else []),
      http_method = (if lookup = Delete_video then Delete else Get),
      req_headers = append_headers (media_auth_headers (environ g) (own_key d))
        (extra_headers (cf_access g) (extra d)),
      req_body = [], req_stream = False\<rparr>"

definition ask_about_video ::
  "('c, 'd, 'e) gateway \<Rightarrow> deployment \<Rightarrow> string \<Rightarrow> video_lookup \<Rightarrow> 'c world \<Rightarrow>
   ('d, 'e) gateway_response result option \<times> 'c world" where
  "ask_about_video g d vid lookup w =
     (case call_upstream g d (video_call g d vid lookup) w of
        (None, w) \<Rightarrow> (None, w)
      | (Some (Inl e), w) \<Rightarrow> (Some (Inl e), w)
      | (Some (Inr resp), w) \<Rightarrow>
          (Some (case resp_body resp of
              StreamBody _ \<Rightarrow> Inl (Upstream (provider d) 502 ''the engine streamed a video lookup'')
            | FullBody bs \<Rightarrow>
                Inr (FullResponse (resp_status resp) [(''content-type'', content_type_of resp)] bs)), w))"

definition no_such_video :: error where
  "no_such_video = NotFound ''no such video''"

fun video_loop ::
  "('c, 'd, 'e) gateway \<Rightarrow> string \<Rightarrow> video_lookup \<Rightarrow> deployment list \<Rightarrow>
   ('d, 'e) gateway_response option \<Rightarrow> error option \<Rightarrow> 'c world \<Rightarrow>
   ('d, 'e) gateway_response result outcome \<times> 'c world" where
  "video_loop g vid lookup [] ans unreachable w =
     (Returned (case (unreachable, ans) of
        (Some e, _) \<Rightarrow> Inl e | (None, Some r) \<Rightarrow> Inr r | (None, None) \<Rightarrow> Inl no_such_video), w)"
| "video_loop g vid lookup (d # ds) ans unreachable w =
     (case ask_about_video g d vid lookup w of
        (None, w) \<Rightarrow> (Cancelled, w)
      | (Some (Inl e), w) \<Rightarrow> video_loop g vid lookup ds ans (Some e) w
      | (Some (Inr resp), w) \<Rightarrow>
          (case resp of
             FullResponse status _ _ \<Rightarrow>
               if status \<noteq> 404 then (Returned (Inr resp), w)
               else video_loop g vid lookup ds (Some resp) unreachable w
           | _ \<Rightarrow> (Returned (Inr resp), w)))"

definition handle_video ::
  "('c, 'd, 'e) gateway \<Rightarrow> media_ops \<Rightarrow> string \<Rightarrow> video_lookup \<Rightarrow> request_ctx \<Rightarrow> 'c world \<Rightarrow>
   ('d, 'e) gateway_response result outcome \<times> 'c world" where
  "handle_video g x vid lookup ctx w =
     (case video_model (b64_decode x) vid of
        Inl _ \<Rightarrow> (Returned (Inl no_such_video), w)
      | Inr m \<Rightarrow>
          video_loop g vid lookup (filter_access (serving (router w) (Media OpenaiVideos) m) ctx) None None w)"

section \<open>Loops over candidates\<close>

text \<open>
  What the dispatch loops of the gateway share: a candidate of another kind is skipped; one that is
  served gets calls of its own, and then either the turn ends or the loop goes on with nothing
  recorded; and an empty list ends the turn.
\<close>
locale attempt_loop =
  fixes run :: "deployment list \<Rightarrow> error option \<Rightarrow> bool \<Rightarrow> 'c world \<Rightarrow> 'r \<times> 'c world"
    and serves :: "deployment \<Rightarrow> bool"
    and own_call :: "deployment \<Rightarrow> upstream_request \<Rightarrow> bool"
    and ends :: "'r \<Rightarrow> 'c world \<Rightarrow> 'c world \<Rightarrow> bool"
  assumes run_nil: "run [] le se w = (r, w') \<Longrightarrow> ends r w w' \<and> sends w' = sends w"
    and run_skip: "\<not> serves d \<Longrightarrow> run (d # ds) le se w = run ds le se w"
    and run_step: "serves d \<Longrightarrow> run (d # ds) le se w = (r, w') \<Longrightarrow>
      \<exists>us. list_all (own_call d) us \<and>
        ((ends r w w' \<and> sends w' = sends w @ map (Pair d) us) \<or>
         (\<exists>le' w1. run ds le' False w1 = (r, w') \<and> turns w1 = turns w \<and> sends w1 = sends w @ map (Pair d) us))"
    and ends_cong: "turns v = turns w \<Longrightarrow> ends r v w' = ends r w w'"
begin

lemma run_ends:
  assumes "run ds le se w = (r, w')"
  shows "ends r w w' \<and> (\<exists>new. sends w' = sends w @ new \<and>
    (\<forall>(d, u) \<in> set new. d \<in> set ds \<and> serves d \<and> own_call d u))"
  using assms
proof (induction ds arbitrary: le se w)
  case Nil
  then show ?case using run_nil by fastforce
next
  case (Cons d ds)
  show ?case
  proof (cases "serves d")
    case False
    with Cons run_skip show ?thesis by fastforce
  next
    case True
    obtain us where us: "list_all (own_call d) us"
      "(ends r w w' \<and> sends w' = sends w @ map (Pair d) us) \<or>
       (\<exists>le' w1. run ds le' False w1 = (r, w') \<and> turns w1 = turns w \<and> sends w1 = sends w @ map (Pair d) us)"
      using run_step [OF True Cons.prems] by blast
    have mine: "\<forall>(d', u) \<in> set (map (Pair d) us). d' \<in> set (d # ds) \<and> serves d' \<and> own_call d' u"
      using us(1) True by (auto simp: list_all_iff)
    show ?thesis
    proof (cases "ends r w w' \<and> sends w' = sends w @ map (Pair d) us")
      case True
      with mine show ?thesis by blast
    next
      case False
      then obtain le' w1 where n: "run ds le' False w1 = (r, w')" "turns w1 = turns w"
        "sends w1 = sends w @ map (Pair d) us" using us(2) by blast
      from Cons.IH [OF n(1)] obtain new where "ends r w1 w'" "sends w' = sends w1 @ new"
        "\<forall>(d, u) \<in> set new. d \<in> set ds \<and> serves d \<and> own_call d u" by blast
      with n mine show ?thesis
        by (intro conjI exI [of _ "map (Pair d) us @ new"]) (auto simp: ends_cong [OF n(2)])
    qed
  qed
qed

end

text \<open>A buffered turn adds exactly one record, of a success exactly when it was answered.\<close>
definition one_turn :: "('d, 'e) gateway_response result outcome \<Rightarrow> 'c world \<Rightarrow> 'c world \<Rightarrow> bool" where
  "one_turn r w w' \<longleftrightarrow> (\<exists>t. turns w' = turns w @ [t] \<and>
     (case r of
        Returned (Inr (FullResponse s h b)) \<Rightarrow> t_status t = uint s \<and> \<not> t_is_error t
      | Returned (Inr _) \<Rightarrow> False
      | Returned (Inl e) \<Rightarrow> t_is_error t
      | Cancelled \<Rightarrow> t_is_error t \<and> t_status t = 499))"

text \<open>The guard of a turn is armed while the loop runs.\<close>
definition turn_ok ::
  "turn_guard \<Rightarrow> ('d, 'e) gateway_response result outcome \<Rightarrow> 'c world \<Rightarrow> 'c world \<Rightarrow> bool" where
  "turn_ok tg r w w' \<longleftrightarrow> (armed tg \<longrightarrow> one_turn r w w')"

lemma turn_ok_cong: "turns v = turns w \<Longrightarrow> turn_ok tg r v w' = turn_ok tg r w w'"
  by (simp add: turn_ok_def one_turn_def)

lemma turn_ok_intros:
  "turn_ok tg (Returned (Inl e)) w (guard_fail g tg s w)"
  "turn_ok tg Cancelled w (turn_guard_drop g tg w)"
  "turn_ok tg (Returned (Inl e)) w (turn_guard_drop g tg w)"
  "turn_ok tg (Returned (Inl e)) w (finish g rc u s True b n w)"
  "turn_ok tg (Returned (Inr (FullResponse s h b))) w (finish g rc u s False l n w)"
  by (simp_all add: turn_ok_def one_turn_def guard_record_status finished_simps)

lemma call_upstream_world:
  assumes "call_upstream g d u w = (res, w1)"
  shows "turns w1 = turns w" "sends w1 = sends w @ [(d, u)]"
  using assms by (auto simp: call_upstream_def Let_def split: prod.splits)

lemma embed_send_world:
  assumes "embed_send g d u w = (res, w1)"
  shows "turns w1 = turns w \<and> (sends w1 = sends w @ map (Pair d) [u] \<or> sends w1 = sends w @ map (Pair d) [u, u])"
proof -
  obtain a w2 where c: "call_upstream g d u w = (a, w2)" by fastforce
  show ?thesis
  proof (cases "\<exists>m. a = Some (Inl (ConnectionLost m))")
    case True
    with assms c have "call_upstream g d u w2 = (res, w1)" by (auto simp: embed_send_def)
    with call_upstream_world [OF c] show ?thesis by (simp add: call_upstream_world)
  next
    case False
    with assms c have "(res, w1) = (a, w2)"
      by (auto simp: embed_send_def split: option.splits sum.splits error.splits)
    with call_upstream_world [OF c] show ?thesis by simp
  qed
qed

lemma embed_success_ends:
  assumes "embed_success g x surface fmt req tg rc resp w = (r, w')"
  shows "turn_ok tg (Returned r) w w' \<and> sends w' = sends w"
  using assms by (auto simp: embed_success_def intro: turn_ok_intros split: sum.splits)

lemma media_success_ends:
  assumes "media_success g rc resp w = (r, w')"
  shows "turn_ok tg (Returned r) w w' \<and> sends w' = sends w"
  using assms by (auto simp: media_success_def Let_def intro: turn_ok_intros)

definition is_embed :: "deployment \<Rightarrow> bool" where
  "is_embed d = (case upstream_format d of Embed _ \<Rightarrow> True | _ \<Rightarrow> False)"

definition own_embed_call :: "('c, 'd, 'e) gateway \<Rightarrow> media_ops \<Rightarrow> embed_request \<Rightarrow> deployment \<Rightarrow> upstream_request \<Rightarrow> bool" where
  "own_embed_call g x req d u \<longleftrightarrow> (\<exists>fmt. upstream_format d = Embed fmt \<and> embed_call g x fmt req d = Inr u)"

text \<open>What one answer of the upstream does to a buffered turn.\<close>
lemma embed_dispatch_step:
  assumes "upstream_format d = Embed fmt" "embed_call g x fmt req d = Inr u" "embed_send g d u w = (res, w1)"
    and "embed_dispatch g x surface body ctx req tg (d # ds) le se w = (r, w')"
  shows "(turn_ok tg r w1 w' \<and> sends w' = sends w1) \<or>
    (\<exists>le'. embed_dispatch g x surface body ctx req tg ds le' False w1 = (r, w'))"
proof (cases res)
  case None
  with assms show ?thesis by (auto intro: turn_ok_intros)
next
  case (Some a)
  show ?thesis
  proof (cases a)
    case (Inl e)
    with assms Some show ?thesis by auto
  next
    case (Inr resp)
    show ?thesis
    proof (cases "is_success (resp_status resp)")
      case True
      with assms Some Inr show ?thesis by (auto simp: Let_def split: prod.splits dest: embed_success_ends)
    next
      case False
      with assms Some Inr show ?thesis by (auto simp: Let_def intro: turn_ok_intros split: if_splits)
    qed
  qed
qed

lemma media_dispatch_step:
  assumes "upstream_format d = Media surface" "media_call g x surface body ct req d = Inr u"
    and "call_upstream g d u w = (res, w1)"
    and "media_dispatch g x surface body ct ctx req tg (d # ds) le se w = (r, w')"
  shows "(turn_ok tg r w1 w' \<and> sends w' = sends w1) \<or>
    (\<exists>le'. media_dispatch g x surface body ct ctx req tg ds le' False w1 = (r, w'))"
proof (cases res)
  case None
  with assms show ?thesis by (auto intro: turn_ok_intros)
next
  case (Some a)
  show ?thesis
  proof (cases a)
    case (Inl e)
    with assms Some show ?thesis by auto
  next
    case (Inr resp)
    show ?thesis
    proof (cases "is_success (resp_status resp)")
      case True
      with assms Some Inr show ?thesis by (auto simp: Let_def split: prod.splits dest: media_success_ends)
    next
      case False
      with assms Some Inr show ?thesis by (auto simp: Let_def intro: turn_ok_intros split: if_splits)
    qed
  qed
qed

interpretation embed_loop: attempt_loop "embed_dispatch g x surface body ctx req tg" is_embed
    "own_embed_call g x req" "turn_ok tg"
  for g :: "('c, 'd, 'e) gateway" and x surface body ctx req tg
proof
  fix le se w and r :: "('d, 'e) gateway_response result outcome" and w'
  assume "embed_dispatch g x surface body ctx req tg [] le se w = (r, w')"
  then show "turn_ok tg r w w' \<and> sends w' = sends w"
    by (auto simp: Let_def intro: turn_ok_intros)
next
  fix d ds le se and w :: "'c world"
  assume "\<not> is_embed d"
  then show "embed_dispatch g x surface body ctx req tg (d # ds) le se w =
      embed_dispatch g x surface body ctx req tg ds le se w"
    by (auto simp: is_embed_def split: upstream_format.splits)
next
  fix d ds le se w and r :: "('d, 'e) gateway_response result outcome" and w'
  assume d: "is_embed d" and run: "embed_dispatch g x surface body ctx req tg (d # ds) le se w = (r, w')"
  then obtain fmt where fmt: "upstream_format d = Embed fmt" by (auto simp: is_embed_def split: upstream_format.splits)
  show "\<exists>us. list_all (own_embed_call g x req d) us \<and>
      ((turn_ok tg r w w' \<and> sends w' = sends w @ map (Pair d) us) \<or>
       (\<exists>le' w1. embed_dispatch g x surface body ctx req tg ds le' False w1 = (r, w') \<and> turns w1 = turns w \<and>
          sends w1 = sends w @ map (Pair d) us))"
  proof (cases "embed_call g x fmt req d")
    case (Inl e)
    with run fmt show ?thesis by (intro exI [of _ "[]"]) (auto intro: turn_ok_intros)
  next
    case (Inr u)
    then have own: "own_embed_call g x req d u" using fmt by (auto simp: own_embed_call_def)
    obtain res w1 where s: "embed_send g d u w = (res, w1)" by fastforce
    have t: "turns w1 = turns w" using embed_send_world [OF s] by simp
    obtain us where us: "sends w1 = sends w @ map (Pair d) us" "list_all (own_embed_call g x req d) us"
    proof (cases "sends w1 = sends w @ map (Pair d) [u]")
      case False
      with embed_send_world [OF s] own show ?thesis by (intro that [of "[u, u]"]) simp_all
    qed (use own in \<open>auto intro: that [of "[u]"]\<close>)
    from embed_dispatch_step [OF fmt Inr s run] us t show ?thesis
      by (intro exI [of _ us]) (auto simp: turn_ok_cong [OF t])
  qed
qed (rule turn_ok_cong)

definition own_media_call ::
  "('c, 'd, 'e) gateway \<Rightarrow> media_ops \<Rightarrow> media_format \<Rightarrow> bytes \<Rightarrow> string \<Rightarrow> media_request \<Rightarrow> deployment \<Rightarrow>
   upstream_request \<Rightarrow> bool" where
  "own_media_call g x surface body ct req d u \<longleftrightarrow> media_call g x surface body ct req d = Inr u"

interpretation media_loop: attempt_loop "media_dispatch g x surface body ct ctx req tg"
    "\<lambda>d. upstream_format d = Media surface" "own_media_call g x surface body ct req" "turn_ok tg"
  for g :: "('c, 'd, 'e) gateway" and x surface body ct ctx req tg
proof
  fix le se w and r :: "('d, 'e) gateway_response result outcome" and w'
  assume "media_dispatch g x surface body ct ctx req tg [] le se w = (r, w')"
  then show "turn_ok tg r w w' \<and> sends w' = sends w"
    by (auto simp: Let_def intro: turn_ok_intros)
next
  fix d ds le se w and r :: "('d, 'e) gateway_response result outcome" and w'
  assume fmt: "upstream_format d = Media surface"
    and run: "media_dispatch g x surface body ct ctx req tg (d # ds) le se w = (r, w')"
  show "\<exists>us. list_all (own_media_call g x surface body ct req d) us \<and>
      ((turn_ok tg r w w' \<and> sends w' = sends w @ map (Pair d) us) \<or>
       (\<exists>le' w1. media_dispatch g x surface body ct ctx req tg ds le' False w1 = (r, w') \<and> turns w1 = turns w \<and>
          sends w1 = sends w @ map (Pair d) us))"
  proof (cases "media_call g x surface body ct req d")
    case (Inl e)
    with run fmt show ?thesis by (intro exI [of _ "[]"]) (auto intro: turn_ok_intros)
  next
    case (Inr u)
    obtain res w1 where s: "call_upstream g d u w = (res, w1)" by fastforce
    note t = call_upstream_world [OF s]
    from media_dispatch_step [OF fmt Inr s run] t Inr show ?thesis
      by (intro exI [of _ "[u]"]) (auto simp: turn_ok_cong [OF t(1)] own_media_call_def)
  qed
next
  fix d :: deployment and ds le se and w :: "'c world"
  assume "upstream_format d \<noteq> Media surface"
  then show "media_dispatch g x surface body ct ctx req tg (d # ds) le se w =
      media_dispatch g x surface body ct ctx req tg ds le se w" by simp
qed (rule turn_ok_cong)

section \<open>The handlers\<close>

lemma route_turn_world:
  assumes "route_turn ctx req w = (res, w1)"
  shows "turns w1 = turns w \<and> sends w1 = sends w \<and>
    (\<forall>cands. res = Inr cands \<longrightarrow> (\<forall>d \<in> set cands. access_permits ctx d \<and>
       d \<in> reachable_deployments (snapshot (router w)) req))"
proof -
  obtain dec r where d: "resolve (router w) req = (dec, r)" by fastforce
  show ?thesis
  proof (cases dec)
    case (Inl e)
    with assms d show ?thesis by (auto simp: route_turn_def Let_def)
  next
    case (Inr dc)
    have sub: "set (candidates dc) \<subseteq> reachable_deployments (snapshot (router w)) req"
      using resolve_candidates(3) d Inr by blast
    from assms d Inr have "res = (if filter_access (candidates dc) ctx = []
          then Inl (NoEligibleProvider (requested_model req)) else Inr (filter_access (candidates dc) ctx))"
      "w1 = w\<lparr>router := r\<rparr>" by (auto simp: route_turn_def Let_def)
    with sub show ?thesis by (auto simp: filter_access_def split: if_splits)
  qed
qed

text \<open>A handler that routes and then runs a loop with a fresh guard.\<close>
lemma routed_turn:
  assumes "route_turn ctx req w = (Inr cands, w1)" "turns w = turns w0" "sends w = sends w0" "router w = router w0"
    and "turn_ok tg r w1 w'" "armed tg" "sends w' = sends w1 @ new"
    and "\<forall>(d, u) \<in> set new. d \<in> set cands \<and> P d u"
  shows "one_turn r w0 w' \<and> (\<exists>new. sends w' = sends w0 @ new \<and>
    (\<forall>(d, u) \<in> set new. access_permits ctx d \<and> d \<in> reachable_deployments (snapshot (router w0)) req \<and> P d u))"
proof -
  note r = route_turn_world [OF assms(1)]
  have t: "turns w1 = turns w0" using r assms(2) by simp
  have "one_turn r w0 w'" using assms(5,6) turn_ok_cong [OF t, of tg r w'] by (simp add: turn_ok_def)
  moreover have "sends w' = sends w0 @ new" using r assms(3,7) by simp
  ultimately show ?thesis using r assms(4,8) by fastforce
qed

lemma handle_embed_turn:
  assumes "handle_embed g x surface body ctx w = (r, w')" "parse_embed_request x surface body = Inr req"
  shows "one_turn r w w' \<and> (\<exists>new. sends w' = sends w @ new \<and>
    (\<forall>(d, u) \<in> set new. access_permits ctx d \<and>
       d \<in> reachable_deployments (snapshot (router w)) (build_embed_route_request req ctx) \<and>
       is_embed d \<and> own_embed_call g x req d u))"
proof -
  obtain started wa where i: "read_instant g w = (started, wa)" by fastforce
  obtain created wb where n: "read_now g wa = (created, wb)" by fastforce
  define tg where "tg = turn_guard_new ctx (embed_format_as_str surface) (embed_model req) started created"
  have tg: "armed tg" by (simp add: tg_def turn_guard_new_def)
  have wb: "turns wb = turns w" "sends wb = sends w" "router wb = router w"
    using readings [of g w] readings [of g wa] i n by simp_all
  obtain res w1 where rt: "route_turn ctx (build_embed_route_request req ctx) wb = (res, w1)" by fastforce
  note rw = route_turn_world [OF rt]
  show ?thesis
  proof (cases res)
    case (Inl e)
    with assms i n rt have "r = Returned (Inl e)" "w' = guard_fail g tg (http_status e) w1"
      by (simp_all add: handle_embed_def lift_wire_def tg_def)
    moreover have "turns w1 = turns w" "sends w1 = sends w" using rw wb by simp_all
    ultimately show ?thesis by (simp add: one_turn_def guard_record_status)
  next
    case (Inr cands)
    with assms i n rt have run: "embed_dispatch g x surface body ctx req tg cands None True w1 = (r, w')"
      by (simp add: handle_embed_def lift_wire_def tg_def)
    from embed_loop.run_ends [OF run] obtain new where
      "turn_ok tg r w1 w'" "sends w' = sends w1 @ new"
      "\<forall>(d, u) \<in> set new. d \<in> set cands \<and> is_embed d \<and> own_embed_call g x req d u" by blast
    from routed_turn [OF rt [unfolded Inr] wb this(1) tg this(2,3)] show ?thesis .
  qed
qed

lemma handle_media_turn:
  assumes "handle_media g x surface body ct ctx w = (r, w')"
    and "route_media_request (media_from_slice x) body ct = Inr req"
  shows "one_turn r w w' \<and> (\<exists>new. sends w' = sends w @ new \<and>
    (\<forall>(d, u) \<in> set new. access_permits ctx d \<and>
       d \<in> reachable_deployments (snapshot (router w)) (build_media_route_request (media_model req) ctx) \<and>
       upstream_format d = Media surface \<and> own_media_call g x surface body ct req d u))"
proof -
  obtain started wa where i: "read_instant g w = (started, wa)" by fastforce
  obtain created wb where n: "read_now g wa = (created, wb)" by fastforce
  define tg where "tg = turn_guard_new ctx (media_format_as_str surface) (media_model req) started created"
  have tg: "armed tg" by (simp add: tg_def turn_guard_new_def)
  have wb: "turns wb = turns w" "sends wb = sends w" "router wb = router w"
    using readings [of g w] readings [of g wa] i n by simp_all
  obtain res w1 where rt: "route_turn ctx (build_media_route_request (media_model req) ctx) wb = (res, w1)"
    by fastforce
  note rw = route_turn_world [OF rt]
  show ?thesis
  proof (cases res)
    case (Inl e)
    with assms i n rt have "r = Returned (Inl e)" "w' = guard_fail g tg (http_status e) w1"
      by (simp_all add: handle_media_def lift_wire_def tg_def)
    moreover have "turns w1 = turns w" "sends w1 = sends w" using rw wb by simp_all
    ultimately show ?thesis by (simp add: one_turn_def guard_record_status)
  next
    case (Inr cands)
    with assms i n rt have run: "media_dispatch g x surface body ct ctx req tg cands None True w1 = (r, w')"
      by (simp add: handle_media_def lift_wire_def tg_def)
    from media_loop.run_ends [OF run] obtain new where
      "turn_ok tg r w1 w'" "sends w' = sends w1 @ new"
      "\<forall>(d, u) \<in> set new. d \<in> set cands \<and> upstream_format d = Media surface \<and>
         own_media_call g x surface body ct req d u" by blast
    from routed_turn [OF rt [unfolded Inr] wb this(1) tg this(2,3)] show ?thesis .
  qed
qed

section \<open>Video lookups\<close>

lemma ask_about_video_world:
  assumes "ask_about_video g d vid lookup w = (res, w1)"
  shows "turns w1 = turns w \<and> sends w1 = sends w @ [(d, video_call g d vid lookup)]"
proof -
  obtain a w2 where c: "call_upstream g d (video_call g d vid lookup) w = (a, w2)" by fastforce
  with assms have "w1 = w2" by (auto simp: ask_about_video_def split: option.splits sum.splits)
  with call_upstream_world [OF c] show ?thesis by simp
qed

text \<open>The answer a lookup settles on: the first that is not \<open>404\<close>.\<close>
definition settles :: "('d, 'e) gateway_response result option \<Rightarrow> bool" where
  "settles a = (case a of
     Some (Inr (FullResponse s h b)) \<Rightarrow> s \<noteq> 404 | Some (Inr _) \<Rightarrow> True | Some (Inl _) \<Rightarrow> False | None \<Rightarrow> True)"

lemma video_loop_step:
  assumes "ask_about_video g d vid lookup w = (a, w1)"
  shows "settles a \<Longrightarrow> video_loop g vid lookup (d # ds) ans un w =
      ((case a of Some r \<Rightarrow> Returned r | None \<Rightarrow> Cancelled), w1)"
    "\<not> settles a \<Longrightarrow> \<exists>ans' un'. video_loop g vid lookup (d # ds) ans un w = video_loop g vid lookup ds ans' un' w1"
  using assms by (auto simp: settles_def split: option.splits sum.splits gateway_response.splits)

lemma video_loop_world:
  assumes "video_loop g vid lookup ds ans un w = (r, w')"
  shows "turns w' = turns w \<and> (\<exists>k. sends w' = sends w @ map (\<lambda>d. (d, video_call g d vid lookup)) (take k ds) \<and>
    (\<forall>e. r = Returned (Inl e) \<longrightarrow> k = length ds))"
  using assms
proof (induction ds arbitrary: ans un w)
  case Nil
  then show ?case by simp
next
  case (Cons d ds)
  obtain a w1 where q: "ask_about_video g d vid lookup w = (a, w1)" by fastforce
  note w1 = ask_about_video_world [OF q]
  show ?case
  proof (cases "settles a")
    case True
    then have "\<nexists>e. a = Some (Inl e)" by (auto simp: settles_def)
    with True video_loop_step(1) [OF q] Cons.prems w1 show ?thesis
      by (intro conjI exI [of _ 1]) (auto split: option.splits)
  next
    case False
    from video_loop_step(2) [OF q this, of ds ans un] Cons.prems
    obtain ans' un' where "video_loop g vid lookup ds ans' un' w1 = (r, w')" by auto
    from Cons.IH [OF this] w1 obtain k where "turns w' = turns w"
      "sends w' = sends w @ map (\<lambda>d. (d, video_call g d vid lookup)) (take (Suc k) (d # ds))"
      "\<forall>e. r = Returned (Inl e) \<longrightarrow> Suc k = length (d # ds)" by auto
    then show ?thesis by blast
  qed
qed

section \<open>Properties\<close>

text \<open>C16: A buffered turn (embeddings, images, speech, transcriptions, videos) whose request parses is
  recorded exactly once whatever happens: as a success with the upstream's status when it is
  answered, as an error otherwise, as a closed request when the caller hangs up. It calls only
  deployments of its own kind that the caller may use and routing reaches.\<close>
theorem buffered_turn_recorded_once:
  assumes "handle_embed g x ef body ctx w = (r, w') \<and> parse_embed_request x ef body = Inr er \<and>
      rq = build_embed_route_request er ctx \<and> kind = is_embed \<or>
    handle_media g x mf body ct ctx w = (r, w') \<and> route_media_request (media_from_slice x) body ct = Inr mr \<and>
      rq = build_media_route_request (media_model mr) ctx \<and> kind = (\<lambda>d. upstream_format d = Media mf)"
  shows "(\<exists>t. turns w' = turns w @ [t] \<and>
     (case r of
        Returned (Inr (FullResponse s h b)) \<Rightarrow> t_status t = uint s \<and> \<not> t_is_error t
      | Returned (Inr _) \<Rightarrow> False
      | Returned (Inl e) \<Rightarrow> t_is_error t
      | Cancelled \<Rightarrow> t_is_error t \<and> t_status t = 499)) \<and>
   (\<exists>new. sends w' = sends w @ new \<and>
     (\<forall>(d, u) \<in> set new. kind d \<and> permits_model (ctx_access ctx) (model_id d) \<and>
        permits_provider (ctx_access ctx) (provider_id d) \<and>
        d \<in> reachable_deployments (snapshot (router w)) rq))"
proof -
  have "one_turn r w w' \<and> (\<exists>new. sends w' = sends w @ new \<and>
     (\<forall>(d, u) \<in> set new. kind d \<and> access_permits ctx d \<and>
        d \<in> reachable_deployments (snapshot (router w)) rq))"
    using assms
  proof
    assume "handle_embed g x ef body ctx w = (r, w') \<and> parse_embed_request x ef body = Inr er \<and>
      rq = build_embed_route_request er ctx \<and> kind = is_embed"
    with handle_embed_turn [of g x ef body ctx w r w' er] show ?thesis by fast
  next
    assume "handle_media g x mf body ct ctx w = (r, w') \<and> route_media_request (media_from_slice x) body ct = Inr mr \<and>
      rq = build_media_route_request (media_model mr) ctx \<and> kind = (\<lambda>d. upstream_format d = Media mf)"
    with handle_media_turn [of g x mf body ct ctx w r w' mr] show ?thesis by fast
  qed
  then show ?thesis unfolding one_turn_def access_permits_def by (fastforce split: if_splits)
qed

definition sample_media_ops :: media_ops where
  "sample_media_ops =
     \<lparr>parse_embed_request = (\<lambda>f b. Inr \<lparr>embed_model = b, inputs = [embed_input_text b], input_type = None,
        output_dimensions = None, truncate_input = None, embed_encoding = None, cohere_embedding_types = None,
        gemini_batch = False, openai_content = False\<rparr>),
      emit_embed_request = (\<lambda>f r m. Inr ([], [])),
      parse_embed_response = (\<lambda>f b. Inl (Json [])), emit_embed_response = (\<lambda>f p r. Inr []),
      embed_to_vec = (\<lambda>r. []), media_from_slice = (\<lambda>b. Inl (Json [])), media_to_vec = (\<lambda>j. []),
      b64_decode = (\<lambda>s. Some s)\<rparr>"

theorem buffered_turn_recorded_once_witness:
  "\<exists>r w' t. handle_embed sample_gateway sample_media_ops OpenaiEmbed ''a'' sample_ctx (sample_world []) = (r, w') \<and>
     turns w' = [t]"
proof -
  obtain r w' where h: "handle_embed sample_gateway sample_media_ops OpenaiEmbed ''a'' sample_ctx (sample_world []) =
      (r, w')" by fastforce
  obtain er where "parse_embed_request sample_media_ops OpenaiEmbed ''a'' = Inr er"
    by (simp add: sample_media_ops_def)
  with h buffered_turn_recorded_once [of sample_gateway sample_media_ops OpenaiEmbed "''a''" sample_ctx
      "sample_world []" r w' er "build_embed_route_request er sample_ctx" is_embed] show ?thesis
    by (auto simp: sample_start)
qed

text \<open>C17: A lookup of a video asks only deployments the caller may use that serve the model the id names,
  in order and at most once each; it records no turn; and it fails only after every one of them was
  asked and none knew the video.\<close>
theorem video_lookup_complete:
  assumes "handle_video g x vid lookup ctx w = (r, w')" "video_model (b64_decode x) vid = Inr m"
  shows "turns w' = turns w \<and> (\<exists>k. let ds = filter (access_permits ctx) (serving (router w) (Media OpenaiVideos) m) in
    sends w' = sends w @ map (\<lambda>d. (d, video_call g d vid lookup)) (take k ds) \<and>
    (\<forall>d \<in> set ds. upstream_format d = Media OpenaiVideos \<and> upstream_model d = m) \<and>
    (\<forall>e. r = Returned (Inl e) \<longrightarrow> k = length ds))"
proof -
  have "video_loop g vid lookup (filter (access_permits ctx) (serving (router w) (Media OpenaiVideos) m)) None None w =
      (r, w')" using assms by (simp add: handle_video_def filter_access_def)
  from video_loop_world [OF this] show ?thesis by (auto simp: Let_def serving_def)
qed

theorem video_lookup_complete_witness:
  "turns (snd (handle_video sample_gateway sample_media_ops ''video_m/j/s'' Status sample_ctx (sample_world []))) = []"
proof -
  have "video_model (b64_decode sample_media_ops) ''video_m/j/s'' = Inr ''m''" by code_simp
  from video_lookup_complete [OF surjective_pairing this, of sample_gateway Status sample_ctx "sample_world []"]
  show ?thesis by (simp add: sample_start)
qed

end
