(* ===== verification/Sqlite_Store.thy ===== *)
theory Sqlite_Store
  imports Gateway_Core "HOL-Library.Option_ord" "HOL-Library.Product_Lexorder"
begin

text \<open>
  The SQLite store (\<open>crates/yb-store/src/sqlite.rs\<close>), the row types it keeps (\<open>yb-core/src/model.rs\<close>,
  \<open>routing.rs\<close>, \<open>spend.rs\<close>, \<open>capture.rs\<close>, \<open>logging.rs\<close>) and the issue of keys (\<open>yb-store/src/keys.rs\<close>).

  A table is the list of its rows in the order they were inserted, and a statement is the function
  its SQL describes: a query filters and sorts, an update maps, and an insert appends unless a
  primary key or a unique index of the schema (\<open>migrations/sqlite\<close>) refuses it. Rows hold the
  decoded values: columns are written and read back by inverse encodings, but for the scope set of
  a key, whose text form is kept. Times order as their RFC 3339 texts do. The clock and fresh ids
  are arguments. Failures of the database itself are not modelled; the text of a refused insert is
  SQLite's and stands here for any such text.
\<close>

section \<open>Rows\<close>

record session =
  session_token :: string
  session_user_id :: id
  session_created_at :: timestamp
  session_expires_at :: timestamp

record external_key =
  ext_id :: id
  ext_user_id :: id
  ext_provider :: string
  ciphertext :: bytes
  ext_prefix :: string
  ext_suffix :: string
  ext_created_at :: timestamp
  ext_last_used_at :: "timestamp option"

record team =
  tm_id :: id
  tm_name :: string
  tm_access :: access_policy
  tm_created_at :: timestamp
  tm_updated_at :: timestamp
  tm_deleted_at :: "timestamp option"
  tm_created_by :: "string option"

record team_membership =
  mb_id :: id
  mb_team_id :: id
  mb_user_id :: id
  mb_created_at :: timestamp

record model_record =
  md_id :: id
  md_name :: string
  md_created_at :: timestamp
  md_updated_at :: timestamp

record provider_record =
  pv_id :: id
  pv_name :: string
  pv_api_base :: "string option"
  pv_api_key :: "string option"
  pv_extra :: extra
  pv_created_at :: timestamp
  pv_updated_at :: timestamp

record new_deployment =
  nd_model_name :: string
  nd_provider_name :: string
  nd_upstream_model :: string
  nd_upstream_format :: upstream_format
  nd_weight :: "32 word"
  nd_pricing :: "model_price option"
  nd_health_check :: health_check
  nd_health_path :: "string option"

text \<open>A row of \<open>deployments\<close>; names, base, key and extras are joined from its model and provider.\<close>
record deployment_row =
  dp_id :: id
  dp_model_id :: id
  dp_provider_id :: id
  dp_upstream_model :: string
  dp_upstream_format :: upstream_format
  dp_weight :: "32 word"
  dp_pricing :: "model_price option"
  dp_health_check :: health_check
  dp_health_path :: "string option"
  dp_created_at :: timestamp
  dp_updated_at :: timestamp
  dp_deleted_at :: "timestamp option"

record health_record =
  hr_deployment_id :: id
  healthy :: bool
  check_kind :: string
  hr_status :: "16 word option"
  hr_latency_ms :: int
  hr_detail :: "string option"
  checked_at :: timestamp

record alias_row =
  al_alias :: string
  al_model_id :: id
  al_created_at :: timestamp

record model_alias =
  alias_name :: string
  alias_model_id :: id
  alias_target :: string
  alias_created_at :: timestamp

datatype redaction = Patterns | MetadataOnly | NoRedaction

fun redaction_as_str :: "redaction \<Rightarrow> string" where
  "redaction_as_str Patterns = ''patterns''"
| "redaction_as_str MetadataOnly = ''metadata_only''"
| "redaction_as_str NoRedaction = ''none''"

definition redaction_parse :: "string \<Rightarrow> redaction option" where
  "redaction_parse s =
     (if s = ''patterns'' then Some Patterns
      else if s = ''metadata_only'' then Some MetadataOnly
      else if s = ''none'' then Some NoRedaction else None)"

record capture_policy =
  cap_enabled :: bool
  cap_redaction :: redaction
  retention_days :: "32 word"

definition capture_default :: capture_policy where
  "capture_default = \<lparr>cap_enabled = False, cap_redaction = Patterns, retention_days = 30\<rparr>"

datatype log_level = LogError | LogWarn | LogInfo | LogDebug

fun log_level_as_str :: "log_level \<Rightarrow> string" where
  "log_level_as_str LogError = ''error''"
| "log_level_as_str LogWarn = ''warn''"
| "log_level_as_str LogInfo = ''info''"
| "log_level_as_str LogDebug = ''debug''"

definition log_level_parse :: "string \<Rightarrow> log_level option" where
  "log_level_parse s =
     (if s = ''error'' then Some LogError else if s = ''warn'' then Some LogWarn
      else if s = ''info'' then Some LogInfo else if s = ''debug'' then Some LogDebug else None)"

record limit_columns =
  lc_rpm :: "int option"
  lc_tpm :: "int option"
  lc_max_concurrent :: "int option"

record usage_row =
  us_day :: string
  us_api_key_id :: "string option"
  us_user_id :: "string option"
  us_model :: string
  us_surface :: string
  us_requests :: int
  us_errors :: int
  us_input_tokens :: int
  us_output_tokens :: int
  us_cost_micros :: micros
  us_cache_read_tokens :: int
  us_first_token_turns :: int
  us_first_token_ms :: int
  us_generated_tokens :: int
  us_generation_ms :: int
  us_queued_turns :: int
  us_queue_ms :: int

section \<open>The tables\<close>

record sqlite_store =
  users :: "user list"
  sessions :: "session list"
  api_keys :: "api_key list"
  external_keys :: "external_key list"
  teams :: "team list"
  team_memberships :: "team_membership list"
  request_telemetry :: "telemetry_record list"
  spend_rollup :: "rollup_delta list"
  budgets :: "budget list"
  rate_counters :: "((string \<times> string \<times> timestamp) \<times> int) list"
  model_rows :: "model_record list"
  provider_rows :: "provider_record list"
  deployment_rows :: "deployment_row list"
  health_rows :: "health_record list"
  alias_rows :: "alias_row list"
  capture_row :: "capture_policy option"
  level_row :: "log_level option"

definition empty_store :: sqlite_store where
  "empty_store =
     \<lparr>users = [], sessions = [], api_keys = [], external_keys = [], teams = [], team_memberships = [],
      request_telemetry = [], spend_rollup = [], budgets = [], rate_counters = [], model_rows = [],
      provider_rows = [], deployment_rows = [], health_rows = [], alias_rows = [],
      capture_row = None, level_row = None\<rparr>"

text \<open>\<open>UPDATE \<dots> SET \<dots> WHERE \<dots>\<close> on the rows of a table.\<close>
definition update_where :: "('r \<Rightarrow> bool) \<Rightarrow> ('r \<Rightarrow> 'r) \<Rightarrow> 'r list \<Rightarrow> 'r list" where
  "update_where p f rows = map (\<lambda>r. if p r then f r else r) rows"

text \<open>\<open>INSERT \<dots> ON CONFLICT \<dots> DO UPDATE\<close>: \<open>merge_row\<close> where a row has the key, a new row where none has.\<close>
definition upsert_by :: "('r \<Rightarrow> 'k) \<Rightarrow> ('r \<Rightarrow> 'r \<Rightarrow> 'r) \<Rightarrow> 'r \<Rightarrow> 'r list \<Rightarrow> 'r list" where
  "upsert_by key merge_row row rows =
     (if key row \<in> key ` set rows then update_where (\<lambda>r. key r = key row) (\<lambda>r. merge_row r row) rows
      else rows @ [row])"

definition constraint_failed :: error where
  "constraint_failed = Storage ''UNIQUE constraint failed''"

definition foreign_key_failed :: error where
  "foreign_key_failed = Storage ''FOREIGN KEY constraint failed''"

section \<open>Users\<close>

definition create_user :: "user \<Rightarrow> sqlite_store \<Rightarrow> sqlite_store result" where
  "create_user u s =
     (if user_id u \<in> user_id ` set (users s) \<or>
         (user_deleted_at u = None \<and>
          list_ex (\<lambda>r. username r = username u \<and> user_deleted_at r = None) (users s))
      then Inl constraint_failed else Inr (s\<lparr>users := users s @ [u]\<rparr>))"

definition get_user :: "id \<Rightarrow> sqlite_store \<Rightarrow> user option" where
  "get_user i s = find (\<lambda>u. user_id u = i \<and> user_deleted_at u = None) (users s)"

definition get_user_by_username :: "string \<Rightarrow> sqlite_store \<Rightarrow> user option" where
  "get_user_by_username n s = find (\<lambda>u. username u = n \<and> user_deleted_at u = None) (users s)"

definition list_users :: "sqlite_store \<Rightarrow> user list" where
  "list_users s = sort_key username (filter (\<lambda>u. user_deleted_at u = None) (users s))"

definition live_user :: "id \<Rightarrow> user \<Rightarrow> bool" where
  "live_user i u \<longleftrightarrow> user_id u = i \<and> user_deleted_at u = None"

definition set_user_password :: "id \<Rightarrow> string \<Rightarrow> sqlite_store \<Rightarrow> sqlite_store" where
  "set_user_password i h s = s\<lparr>users := update_where (live_user i) (\<lambda>u. u\<lparr>password_hash := h\<rparr>) (users s)\<rparr>"

definition set_user_role :: "id \<Rightarrow> role \<Rightarrow> sqlite_store \<Rightarrow> sqlite_store" where
  "set_user_role i r s = s\<lparr>users := update_where (live_user i) (\<lambda>u. u\<lparr>user_role := r\<rparr>) (users s)\<rparr>"

definition set_user_limits :: "id \<Rightarrow> limit_columns \<Rightarrow> sqlite_store \<Rightarrow> sqlite_store" where
  "set_user_limits i l s =
     s\<lparr>users := update_where (live_user i) (\<lambda>u. u\<lparr>user_rpm_limit := lc_rpm l, user_tpm_limit := lc_tpm l,
         user_max_concurrent := lc_max_concurrent l\<rparr>) (users s)\<rparr>"

definition mark_user_login :: "timestamp \<Rightarrow> id \<Rightarrow> sqlite_store \<Rightarrow> sqlite_store" where
  "mark_user_login now i s =
     s\<lparr>users := update_where (\<lambda>u. user_id u = i) (\<lambda>u. u\<lparr>last_login_at := Some now\<rparr>) (users s)\<rparr>"

definition delete_user :: "timestamp \<Rightarrow> id \<Rightarrow> sqlite_store \<Rightarrow> sqlite_store" where
  "delete_user now i s =
     s\<lparr>users := update_where (live_user i) (\<lambda>u. u\<lparr>user_deleted_at := Some now\<rparr>) (users s)\<rparr>"

definition count_users :: "sqlite_store \<Rightarrow> int" where
  "count_users s = int (length (filter (\<lambda>u. user_deleted_at u = None) (users s)))"

definition count_admins :: "sqlite_store \<Rightarrow> int" where
  "count_admins s = int (length (filter (\<lambda>u. user_role u = Admin \<and> user_deleted_at u = None) (users s)))"

section \<open>Sessions\<close>

definition create_session :: "session \<Rightarrow> sqlite_store \<Rightarrow> sqlite_store result" where
  "create_session x s =
     (if session_token x \<in> session_token ` set (sessions s) then Inl constraint_failed
      else Inr (s\<lparr>sessions := sessions s @ [x]\<rparr>))"

definition get_session :: "timestamp \<Rightarrow> string \<Rightarrow> sqlite_store \<Rightarrow> session option" where
  "get_session now tk s = find (\<lambda>x. session_token x = tk \<and> session_expires_at x > now) (sessions s)"

definition delete_session :: "string \<Rightarrow> sqlite_store \<Rightarrow> sqlite_store" where
  "delete_session tk s = s\<lparr>sessions := filter (\<lambda>x. session_token x \<noteq> tk) (sessions s)\<rparr>"

section \<open>Keys\<close>

text \<open>A key as its row reads back: the scope column is the rendered set.\<close>
definition stored_key :: "api_key \<Rightarrow> api_key" where
  "stored_key k = k\<lparr>scopes := (case parse_set (render_set (scopes k)) of Inl _ \<Rightarrow> [] | Inr ss \<Rightarrow> ss)\<rparr>"

definition create_api_key :: "api_key \<Rightarrow> sqlite_store \<Rightarrow> sqlite_store result" where
  "create_api_key k s =
     (if key_id k \<in> key_id ` set (api_keys s) \<or> hash k \<in> hash ` set (api_keys s)
      then Inl constraint_failed else Inr (s\<lparr>api_keys := api_keys s @ [stored_key k]\<rparr>))"

definition verify_api_key :: "string \<Rightarrow> sqlite_store \<Rightarrow> key_auth option" where
  "verify_api_key h s =
     (case find (\<lambda>k. hash k = h \<and> key_deleted_at k = None) (api_keys s) of
        None \<Rightarrow> None
      | Some k \<Rightarrow>
          (case get_user (owner_user_id k) s of
             Some u \<Rightarrow> Some \<lparr>auth_user = u, auth_key = k\<rparr>
           | None \<Rightarrow> None))"

definition get_api_key :: "id \<Rightarrow> sqlite_store \<Rightarrow> api_key option" where
  "get_api_key i s = find (\<lambda>k. key_id k = i) (api_keys s)"

definition list_api_keys :: "sqlite_store \<Rightarrow> api_key list" where
  "list_api_keys s = sort_key key_created_at (filter (\<lambda>k. key_deleted_at k = None) (api_keys s))"

definition list_api_keys_for_user :: "id \<Rightarrow> sqlite_store \<Rightarrow> api_key list" where
  "list_api_keys_for_user u s =
     sort_key key_created_at (filter (\<lambda>k. owner_user_id k = u \<and> key_deleted_at k = None) (api_keys s))"

definition mark_api_key_used :: "timestamp \<Rightarrow> id \<Rightarrow> sqlite_store \<Rightarrow> sqlite_store" where
  "mark_api_key_used now i s =
     s\<lparr>api_keys := update_where (\<lambda>k. key_id k = i) (\<lambda>k. k\<lparr>last_used_at := Some now\<rparr>) (api_keys s)\<rparr>"

definition delete_api_key :: "timestamp \<Rightarrow> id \<Rightarrow> sqlite_store \<Rightarrow> sqlite_store" where
  "delete_api_key now i s =
     s\<lparr>api_keys := update_where (\<lambda>k. key_id k = i \<and> key_deleted_at k = None)
         (\<lambda>k. k\<lparr>key_deleted_at := Some now\<rparr>) (api_keys s)\<rparr>"

definition update_api_key_access :: "id \<Rightarrow> access_policy \<Rightarrow> sqlite_store \<Rightarrow> sqlite_store" where
  "update_api_key_access i p s =
     s\<lparr>api_keys := update_where (\<lambda>k. key_id k = i) (\<lambda>k. k\<lparr>access := p\<rparr>) (api_keys s)\<rparr>"

definition update_api_key_limits :: "id \<Rightarrow> limit_columns \<Rightarrow> sqlite_store \<Rightarrow> sqlite_store" where
  "update_api_key_limits i l s =
     s\<lparr>api_keys := update_where (\<lambda>k. key_id k = i) (\<lambda>k. k\<lparr>rpm_limit := lc_rpm l, tpm_limit := lc_tpm l,
         key_max_concurrent := lc_max_concurrent l\<rparr>) (api_keys s)\<rparr>"

definition rename_api_key :: "id \<Rightarrow> string option \<Rightarrow> sqlite_store \<Rightarrow> sqlite_store" where
  "rename_api_key i n s =
     s\<lparr>api_keys := update_where (\<lambda>k. key_id k = i) (\<lambda>k. k\<lparr>key_name := n\<rparr>) (api_keys s)\<rparr>"

definition upsert_external_key :: "external_key \<Rightarrow> sqlite_store \<Rightarrow> sqlite_store result" where
  "upsert_external_key k s =
     (if (ext_user_id k, ext_provider k) \<notin> (\<lambda>r. (ext_user_id r, ext_provider r)) ` set (external_keys s) \<and>
         ext_id k \<in> ext_id ` set (external_keys s)
      then Inl constraint_failed
      else Inr (s\<lparr>external_keys := upsert_by (\<lambda>r. (ext_user_id r, ext_provider r))
         (\<lambda>r n. r\<lparr>ciphertext := ciphertext n, ext_prefix := ext_prefix n, ext_suffix := ext_suffix n\<rparr>)
         k (external_keys s)\<rparr>))"

definition list_external_keys :: "id \<Rightarrow> sqlite_store \<Rightarrow> external_key list" where
  "list_external_keys u s = sort_key ext_provider (filter (\<lambda>k. ext_user_id k = u) (external_keys s))"

definition delete_external_key :: "id \<Rightarrow> string \<Rightarrow> sqlite_store \<Rightarrow> sqlite_store" where
  "delete_external_key u p s =
     s\<lparr>external_keys := filter (\<lambda>k. \<not> (ext_user_id k = u \<and> ext_provider k = p)) (external_keys s)\<rparr>"

section \<open>Teams and memberships\<close>

definition create_team :: "team \<Rightarrow> sqlite_store \<Rightarrow> sqlite_store result" where
  "create_team t s =
     (if tm_id t \<in> tm_id ` set (teams s) then Inl constraint_failed
      else Inr (s\<lparr>teams := teams s @ [t]\<rparr>))"

definition get_team :: "id \<Rightarrow> sqlite_store \<Rightarrow> team option" where
  "get_team i s = find (\<lambda>t. tm_id t = i) (teams s)"

definition list_teams :: "sqlite_store \<Rightarrow> team list" where
  "list_teams s = sort_key tm_created_at (filter (\<lambda>t. tm_deleted_at t = None) (teams s))"

definition delete_team :: "timestamp \<Rightarrow> id \<Rightarrow> sqlite_store \<Rightarrow> sqlite_store" where
  "delete_team now i s =
     s\<lparr>teams := update_where (\<lambda>t. tm_id t = i \<and> tm_deleted_at t = None)
         (\<lambda>t. t\<lparr>tm_deleted_at := Some now\<rparr>) (teams s)\<rparr>"

definition update_team_access :: "timestamp \<Rightarrow> id \<Rightarrow> access_policy \<Rightarrow> sqlite_store \<Rightarrow> sqlite_store" where
  "update_team_access now i p s =
     s\<lparr>teams := update_where (\<lambda>t. tm_id t = i) (\<lambda>t. t\<lparr>tm_access := p, tm_updated_at := now\<rparr>) (teams s)\<rparr>"

text \<open>A second membership of a user in a team is ignored; a second use of an id is refused.\<close>
definition upsert_membership :: "team_membership \<Rightarrow> sqlite_store \<Rightarrow> sqlite_store result" where
  "upsert_membership x s =
     (if (mb_team_id x, mb_user_id x) \<in> (\<lambda>r. (mb_team_id r, mb_user_id r)) ` set (team_memberships s)
      then Inr s
      else if mb_id x \<in> mb_id ` set (team_memberships s) then Inl constraint_failed
      else Inr (s\<lparr>team_memberships := team_memberships s @ [x]\<rparr>))"

definition list_memberships_for_user :: "id \<Rightarrow> sqlite_store \<Rightarrow> team_membership list" where
  "list_memberships_for_user u s =
     sort_key mb_created_at (filter (\<lambda>r. mb_user_id r = u) (team_memberships s))"

definition list_team_members :: "id \<Rightarrow> sqlite_store \<Rightarrow> team_membership list" where
  "list_team_members t s =
     sort_key mb_created_at (filter (\<lambda>r. mb_team_id r = t) (team_memberships s))"

definition delete_membership :: "id \<Rightarrow> id \<Rightarrow> sqlite_store \<Rightarrow> sqlite_store" where
  "delete_membership t u s =
     s\<lparr>team_memberships := filter (\<lambda>r. \<not> (mb_team_id r = t \<and> mb_user_id r = u)) (team_memberships s)\<rparr>"

section \<open>Telemetry, spend and budgets\<close>

text \<open>The table has no column for the parent span.\<close>
definition insert_telemetry :: "telemetry_record \<Rightarrow> sqlite_store \<Rightarrow> sqlite_store result" where
  "insert_telemetry r s =
     (if t_id r \<in> t_id ` set (request_telemetry s) then Inl constraint_failed
      else Inr (s\<lparr>request_telemetry := request_telemetry s @ [r\<lparr>t_parent_span_id := None\<rparr>]\<rparr>))"

definition store_upsert_rollup :: "rollup_delta \<Rightarrow> sqlite_store \<Rightarrow> sqlite_store" where
  "store_upsert_rollup d s = s\<lparr>spend_rollup := upsert_rollup (spend_rollup s) d\<rparr>"

definition store_period_spend ::
  "calendar \<Rightarrow> subject_type \<Rightarrow> string \<Rightarrow> period \<Rightarrow> timestamp \<Rightarrow> sqlite_store \<Rightarrow> micros option" where
  "store_period_spend cal st sid p t s = period_spend cal (spend_rollup s) st sid p t"

definition list_budgets :: "subject_type \<Rightarrow> string \<Rightarrow> sqlite_store \<Rightarrow> budget list" where
  "list_budgets st sid s =
     sort_key budget_created_at (filter (\<lambda>b. budget_subject_type b = st \<and> budget_subject_id b = sid \<and>
         budget_deleted_at b = None) (budgets s))"

definition list_all_budgets :: "sqlite_store \<Rightarrow> budget list" where
  "list_all_budgets s =
     sort_key (\<lambda>b. (subject_type_as_str (budget_subject_type b), budget_subject_id b, budget_created_at b))
       (filter (\<lambda>b. budget_deleted_at b = None) (budgets s))"

text \<open>The conflict update writes every column but the creation time.\<close>
definition upsert_budget :: "budget \<Rightarrow> sqlite_store \<Rightarrow> sqlite_store" where
  "upsert_budget b s =
     s\<lparr>budgets := upsert_by budget_id (\<lambda>r n. n\<lparr>budget_created_at := budget_created_at r\<rparr>) b (budgets s)\<rparr>"

definition delete_budget :: "timestamp \<Rightarrow> id \<Rightarrow> sqlite_store \<Rightarrow> sqlite_store" where
  "delete_budget now i s =
     s\<lparr>budgets := update_where (\<lambda>b. budget_id b = i \<and> budget_deleted_at b = None)
         (\<lambda>b. b\<lparr>budget_deleted_at := Some now\<rparr>) (budgets s)\<rparr>"

definition spend_rows :: "sqlite_store \<Rightarrow> rollup_delta list" where
  "spend_rows s =
     sort_key (\<lambda>r. (- period_start r, subject_type_as_str (subject_type r), subject_id r)) (spend_rollup s)"

text \<open>
  The usage report groups the turns of a time range by day, key, user, model and surface.
  \<open>day_of\<close> is the date text of a timestamp, the first ten characters of its RFC 3339 form.
\<close>
type_synonym usage_key = "string \<times> id option \<times> id option \<times> string \<times> string"

definition usage_key :: "(timestamp \<Rightarrow> string) \<Rightarrow> telemetry_record \<Rightarrow> usage_key" where
  "usage_key day_of r = (day_of (t_created_at r), t_api_key_id r, t_user_id r, t_requested_model r, t_surface r)"

definition sum_some :: "int option list \<Rightarrow> int" where
  "sum_some xs = sum_list (map (\<lambda>x. case x of Some n \<Rightarrow> n | None \<Rightarrow> 0) xs)"

definition count_some :: "int option list \<Rightarrow> int" where
  "count_some xs = int (length (filter (\<lambda>x. x \<noteq> None) xs))"

definition usage_group :: "usage_key \<Rightarrow> telemetry_record list \<Rightarrow> usage_row" where
  "usage_group g rs =
     (case g of (d, k, u, m, srf) \<Rightarrow>
        \<lparr>us_day = d, us_api_key_id = k, us_user_id = u, us_model = m, us_surface = srf,
         us_requests = int (length rs), us_errors = int (length (filter t_is_error rs)),
         us_input_tokens = sum_list (map t_input_tokens rs),
         us_output_tokens = sum_list (map t_output_tokens rs),
         us_cost_micros = sum_list (map t_cost_micros rs),
         us_cache_read_tokens = sum_list (map t_cache_read_tokens rs),
         us_first_token_turns = count_some (map t_first_token_ms rs),
         us_first_token_ms = sum_some (map t_first_token_ms rs),
         us_generated_tokens =
           sum_list (map t_output_tokens (filter (\<lambda>r. t_generation_ms r \<noteq> None) rs)),
         us_generation_ms = sum_some (map t_generation_ms rs),
         us_queued_turns = count_some (map t_queue_ms rs),
         us_queue_ms = sum_some (map t_queue_ms rs)\<rparr>)"

definition usage_report ::
  "(timestamp \<Rightarrow> string) \<Rightarrow> timestamp \<Rightarrow> timestamp \<Rightarrow> sqlite_store \<Rightarrow> usage_row list" where
  "usage_report day_of from to s =
     (let rs = filter (\<lambda>r. from \<le> t_created_at r \<and> t_created_at r < to) (request_telemetry s);
          groups = sort (remdups (map (usage_key day_of) rs))
      in map (\<lambda>g. usage_group g (filter (\<lambda>r. usage_key day_of r = g) rs))
           (sort_key (\<lambda>(d, k, u, m, srf). (d, k, m)) groups))"

section \<open>Settings and counters\<close>

text \<open>The days are bound as an \<open>i32\<close> and read back with negative values as 0.\<close>
definition set_capture_policy :: "capture_policy \<Rightarrow> sqlite_store \<Rightarrow> sqlite_store" where
  "set_capture_policy p s =
     s\<lparr>capture_row := Some (p\<lparr>retention_days :=
         if sint (retention_days p) < 0 then 0 else retention_days p\<rparr>)\<rparr>"

definition get_capture_policy :: "sqlite_store \<Rightarrow> capture_policy option" where
  "get_capture_policy s = capture_row s"

definition set_log_level :: "log_level \<Rightarrow> sqlite_store \<Rightarrow> sqlite_store" where
  "set_log_level l s = s\<lparr>level_row := Some l\<rparr>"

definition get_log_level :: "sqlite_store \<Rightarrow> log_level option" where
  "get_log_level s = level_row s"

definition incr_rate_counter ::
  "string \<Rightarrow> string \<Rightarrow> timestamp \<Rightarrow> int \<Rightarrow> sqlite_store \<Rightarrow> sqlite_store \<times> int" where
  "incr_rate_counter sc dimn w n s =
     (let rows = upsert_by fst (\<lambda>r new. (fst r, snd r + snd new)) ((sc, dimn, w), n) (rate_counters s)
      in (s\<lparr>rate_counters := rows\<rparr>,
          case map_of rows (sc, dimn, w) of Some c \<Rightarrow> c | None \<Rightarrow> n))"

section \<open>Models\<close>

text \<open>
  An operation of several statements keeps what the earlier ones did when a later one fails, unless
  it runs in a transaction: it returns the store beside its result, and \<open>then_run\<close> is \<open>?\<close>.
\<close>
definition then_run ::
  "sqlite_store \<times> 'a result \<Rightarrow> ('a \<Rightarrow> sqlite_store \<Rightarrow> sqlite_store \<times> 'b result) \<Rightarrow> sqlite_store \<times> 'b result" where
  "then_run r k = (case r of (s, Inl e) \<Rightarrow> (s, Inl e) | (s, Inr x) \<Rightarrow> k x s)"

definition keep_on_error :: "sqlite_store \<Rightarrow> sqlite_store result \<Rightarrow> sqlite_store \<times> unit result" where
  "keep_on_error s r = (case r of Inl e \<Rightarrow> (s, Inl e) | Inr s' \<Rightarrow> (s', Inr ()))"

definition ok_or :: "'a option \<Rightarrow> error \<Rightarrow> 'a result" where
  "ok_or x e = (case x of Some a \<Rightarrow> Inr a | None \<Rightarrow> Inl e)"

definition list_models :: "sqlite_store \<Rightarrow> model_record list" where
  "list_models s = sort_key md_name (model_rows s)"

definition get_model :: "id \<Rightarrow> sqlite_store \<Rightarrow> model_record option" where
  "get_model i s = find (\<lambda>r. md_id r = i) (model_rows s)"

definition get_model_by_name :: "string \<Rightarrow> sqlite_store \<Rightarrow> model_record option" where
  "get_model_by_name n s = find (\<lambda>r. md_name r = n) (model_rows s)"

definition alias_owner :: "string \<Rightarrow> sqlite_store \<Rightarrow> id option" where
  "alias_owner n s = map_option al_model_id (find (\<lambda>a. al_alias a = n) (alias_rows s))"

definition ensure_model ::
  "timestamp \<Rightarrow> id \<Rightarrow> string \<Rightarrow> sqlite_store \<Rightarrow> sqlite_store \<times> model_record result" where
  "ensure_model now fresh name s =
     (case alias_owner name s of
        Some owner \<Rightarrow>
          (let target = (case get_model owner s of Some r \<Rightarrow> md_name r | None \<Rightarrow> owner)
           in (s, Inl (Conflict (''\"'' @ name @ ''\" is an alias of model \"'' @ target @
                ''\"; rename it there or drop the alias''))))
      | None \<Rightarrow>
          (case get_model_by_name name s of
             Some r \<Rightarrow> (s, Inr r)
           | None \<Rightarrow>
               if fresh \<in> md_id ` set (model_rows s) then (s, Inl constraint_failed)
               else (let r = \<lparr>md_id = fresh, md_name = name, md_created_at = now, md_updated_at = now\<rparr>
                     in (s\<lparr>model_rows := model_rows s @ [r]\<rparr>, Inr r))))"

definition put_alias :: "timestamp \<Rightarrow> string \<Rightarrow> id \<Rightarrow> alias_row list \<Rightarrow> alias_row list" where
  "put_alias now n i rows =
     upsert_by al_alias (\<lambda>r new. r\<lparr>al_model_id := al_model_id new\<rparr>)
       \<lparr>al_alias = n, al_model_id = i, al_created_at = now\<rparr> rows"

definition delete_alias :: "string \<Rightarrow> sqlite_store \<Rightarrow> sqlite_store" where
  "delete_alias n s = s\<lparr>alias_rows := filter (\<lambda>a. al_alias a \<noteq> n) (alias_rows s)\<rparr>"

text \<open>One transaction: an error leaves the store as it was.\<close>
definition rename_model ::
  "timestamp \<Rightarrow> id \<Rightarrow> string \<Rightarrow> sqlite_store \<Rightarrow> sqlite_store \<times> model_record result" where
  "rename_model now i new_name s =
     (case get_model i s of
        None \<Rightarrow> (s, Inl (NotFound ''model''))
      | Some current \<Rightarrow>
          if md_name current = new_name then (s, Inr current)
          else if list_ex (\<lambda>r. md_name r = new_name \<and> md_id r \<noteq> i) (model_rows s)
          then (s, Inl (Conflict (''model \"'' @ new_name @ ''\" already exists'')))
          else
            (let commit = (\<lambda>s1.
                   let s2 = s1\<lparr>model_rows := update_where (\<lambda>r. md_id r = i)
                              (\<lambda>r. r\<lparr>md_name := new_name, md_updated_at := now\<rparr>) (model_rows s1)\<rparr>;
                       s3 = s2\<lparr>alias_rows := put_alias now (md_name current) i (alias_rows s2)\<rparr>
                   in (s3, ok_or (get_model i s3) (NotFound ''model'')))
             in (case alias_owner new_name s of
                   Some owner \<Rightarrow>
                     if owner \<noteq> i
                     then (s, Inl (Conflict (''\"'' @ new_name @ ''\" is already an alias of another model'')))
                     else commit (delete_alias new_name s)
                 | None \<Rightarrow> commit s)))"

section \<open>Providers\<close>

definition list_providers :: "sqlite_store \<Rightarrow> provider_record list" where
  "list_providers s = sort_key pv_name (provider_rows s)"

definition get_provider :: "id \<Rightarrow> sqlite_store \<Rightarrow> provider_record option" where
  "get_provider i s = find (\<lambda>r. pv_id r = i) (provider_rows s)"

definition get_provider_by_name :: "string \<Rightarrow> sqlite_store \<Rightarrow> provider_record option" where
  "get_provider_by_name n s = find (\<lambda>r. pv_name r = n) (provider_rows s)"

definition ensure_provider ::
  "timestamp \<Rightarrow> id \<Rightarrow> string \<Rightarrow> sqlite_store \<Rightarrow> sqlite_store \<times> provider_record result" where
  "ensure_provider now fresh name s =
     (case get_provider_by_name name s of
        Some r \<Rightarrow> (s, Inr r)
      | None \<Rightarrow>
          if fresh \<in> pv_id ` set (provider_rows s) then (s, Inl constraint_failed)
          else (let r = \<lparr>pv_id = fresh, pv_name = name, pv_api_base = None, pv_api_key = None,
                         pv_extra = extra_default, pv_created_at = now, pv_updated_at = now\<rparr>
                in (s\<lparr>provider_rows := provider_rows s @ [r]\<rparr>, Inr r)))"

text \<open>A missing key leaves the stored one alone.\<close>
definition update_provider ::
  "timestamp \<Rightarrow> id \<Rightarrow> string \<Rightarrow> string option \<Rightarrow> string option \<Rightarrow> extra \<Rightarrow> sqlite_store \<Rightarrow>
    sqlite_store \<times> provider_record result" where
  "update_provider now i name base key ex s =
     (if list_ex (\<lambda>r. pv_name r = name \<and> pv_id r \<noteq> i) (provider_rows s)
      then (s, Inl (Conflict (''provider \"'' @ name @ ''\" already exists'')))
      else
        (let s' = s\<lparr>provider_rows := update_where (\<lambda>r. pv_id r = i)
               (\<lambda>r. r\<lparr>pv_name := name, pv_api_base := base,
                  pv_api_key := (case key of Some k \<Rightarrow> Some k | None \<Rightarrow> pv_api_key r),
                  pv_extra := ex, pv_updated_at := now\<rparr>) (provider_rows s)\<rparr>
         in (s', ok_or (get_provider i s') (NotFound ''provider''))))"

text \<open>The schema cascades the deletion to the provider's deployments and to their health.\<close>
definition delete_provider :: "id \<Rightarrow> sqlite_store \<Rightarrow> sqlite_store result" where
  "delete_provider i s =
     (if list_ex (\<lambda>d. dp_provider_id d = i \<and> dp_deleted_at d = None) (deployment_rows s)
      then Inl (Conflict ''provider still has deployments; delete them first'')
      else
        (let gone = filter (\<lambda>d. dp_provider_id d = i) (deployment_rows s)
         in Inr (s\<lparr>provider_rows := filter (\<lambda>r. pv_id r \<noteq> i) (provider_rows s),
               deployment_rows := filter (\<lambda>d. dp_provider_id d \<noteq> i) (deployment_rows s),
               health_rows := filter (\<lambda>h. hr_deployment_id h \<notin> dp_id ` set gone) (health_rows s)\<rparr>)))"

section \<open>Deployments\<close>

text \<open>The join every read of a deployment goes through.\<close>
definition join_deployment :: "sqlite_store \<Rightarrow> deployment_row \<Rightarrow> deployment_record option" where
  "join_deployment s d =
     (case (get_model (dp_model_id d) s, get_provider (dp_provider_id d) s) of
        (Some mo, Some pr) \<Rightarrow>
          Some \<lparr>model_id = dp_model_id d, model_name = md_name mo, provider_id = dp_provider_id d,
                provider = pv_name pr, upstream_model = dp_upstream_model d, api_base = pv_api_base pr,
                api_key = pv_api_key pr, upstream_format = dp_upstream_format d, weight = dp_weight d,
                pricing = dp_pricing d, health_check = dp_health_check d, health_path = dp_health_path d,
                extra = pv_extra pr, record_id = dp_id d, created_at = dp_created_at d,
                updated_at = dp_updated_at d, deleted_at = dp_deleted_at d\<rparr>
      | _ \<Rightarrow> None)"

definition list_deployments :: "sqlite_store \<Rightarrow> deployment_record list" where
  "list_deployments s =
     sort_key (\<lambda>r. (model_name r, provider r, upstream_model r))
       (List.map_filter (join_deployment s) (filter (\<lambda>d. dp_deleted_at d = None) (deployment_rows s)))"

definition get_deployment :: "id \<Rightarrow> sqlite_store \<Rightarrow> deployment_record option" where
  "get_deployment i s =
     (case find (\<lambda>d. dp_id d = i \<and> dp_deleted_at d = None) (deployment_rows s) of
        None \<Rightarrow> None | Some d \<Rightarrow> join_deployment s d)"

definition deployment_identity :: "deployment_row \<Rightarrow> id \<times> id \<times> string" where
  "deployment_identity d = (dp_model_id d, dp_provider_id d, dp_upstream_model d)"

text \<open>The ids minted for the model, the provider and the deployment.\<close>
type_synonym fresh_ids = "id \<times> id \<times> id"

definition insert_deployment ::
  "timestamp \<Rightarrow> id \<Rightarrow> new_deployment \<Rightarrow> model_record \<Rightarrow> provider_record \<Rightarrow> sqlite_store \<Rightarrow> sqlite_store result" where
  "insert_deployment now i nd mo pr s =
     (let d = \<lparr>dp_id = i, dp_model_id = md_id mo, dp_provider_id = pv_id pr,
               dp_upstream_model = nd_upstream_model nd, dp_upstream_format = nd_upstream_format nd,
               dp_weight = nd_weight nd, dp_pricing = nd_pricing nd, dp_health_check = nd_health_check nd,
               dp_health_path = nd_health_path nd, dp_created_at = now, dp_updated_at = now,
               dp_deleted_at = None\<rparr>
      in if i \<in> dp_id ` set (deployment_rows s) \<or>
            list_ex (\<lambda>r. deployment_identity r = deployment_identity d \<and> dp_deleted_at r = None)
              (deployment_rows s)
         then Inl constraint_failed
         else if md_id mo \<notin> md_id ` set (model_rows s) \<or> pv_id pr \<notin> pv_id ` set (provider_rows s)
         then Inl foreign_key_failed
         else Inr (s\<lparr>deployment_rows := deployment_rows s @ [d]\<rparr>))"

definition create_deployment ::
  "timestamp \<Rightarrow> fresh_ids \<Rightarrow> new_deployment \<Rightarrow> sqlite_store \<Rightarrow> sqlite_store \<times> deployment_record result" where
  "create_deployment now ids nd s =
     (case ids of (im, ip, i) \<Rightarrow>
        then_run (ensure_model now im (nd_model_name nd) s) (\<lambda>mo s1.
        then_run (ensure_provider now ip (nd_provider_name nd) s1) (\<lambda>pr s2.
        then_run (keep_on_error s2 (insert_deployment now i nd mo pr s2)) (\<lambda>_ s3.
          (s3, ok_or (get_deployment i s3) (NotFound ''deployment''))))))"

definition delete_deployment :: "timestamp \<Rightarrow> id \<Rightarrow> sqlite_store \<Rightarrow> sqlite_store" where
  "delete_deployment now i s =
     s\<lparr>deployment_rows := update_where (\<lambda>d. dp_id d = i \<and> dp_deleted_at d = None)
         (\<lambda>d. d\<lparr>dp_deleted_at := Some now\<rparr>) (deployment_rows s)\<rparr>"

text \<open>The two rows are ensured again by the creation, with ids of its own.\<close>
definition seed_deployment ::
  "timestamp \<Rightarrow> id \<times> id \<Rightarrow> fresh_ids \<Rightarrow> new_deployment \<Rightarrow> sqlite_store \<Rightarrow> sqlite_store \<times> bool result" where
  "seed_deployment now ids ids' nd s =
     then_run (ensure_model now (fst ids) (nd_model_name nd) s) (\<lambda>mo s1.
     then_run (ensure_provider now (snd ids) (nd_provider_name nd) s1) (\<lambda>pr s2.
       if list_ex (\<lambda>d. deployment_identity d = (md_id mo, pv_id pr, nd_upstream_model nd) \<and>
            dp_deleted_at d = None) (deployment_rows s2)
       then (s2, Inr False)
       else then_run (create_deployment now ids' nd s2) (\<lambda>_ s3. (s3, Inr True))))"

section \<open>Health\<close>

definition list_health :: "sqlite_store \<Rightarrow> health_record list" where
  "list_health s = health_rows s"

text \<open>A latency that does not fit the \<open>i64\<close> column is read back as 0.\<close>
definition record_health :: "health_record \<Rightarrow> sqlite_store \<Rightarrow> sqlite_store result" where
  "record_health h s =
     (if hr_deployment_id h \<notin> dp_id ` set (deployment_rows s) then Inl foreign_key_failed
      else Inr (s\<lparr>health_rows := upsert_by hr_deployment_id (\<lambda>r n. n)
              (h\<lparr>hr_latency_ms := if hr_latency_ms h < 2 ^ 63 then hr_latency_ms h else 0\<rparr>)
              (health_rows s)\<rparr>))"

section \<open>Aliases\<close>

definition join_alias :: "sqlite_store \<Rightarrow> alias_row \<Rightarrow> model_alias option" where
  "join_alias s a =
     map_option (\<lambda>r. \<lparr>alias_name = al_alias a, alias_model_id = al_model_id a, alias_target = md_name r,
         alias_created_at = al_created_at a\<rparr>) (get_model (al_model_id a) s)"

definition list_aliases :: "sqlite_store \<Rightarrow> model_alias list" where
  "list_aliases s = sort_key alias_name (List.map_filter (join_alias s) (alias_rows s))"

definition upsert_alias ::
  "timestamp \<Rightarrow> string \<Rightarrow> id \<Rightarrow> sqlite_store \<Rightarrow> sqlite_store \<times> model_alias result" where
  "upsert_alias now n i s =
     (if i \<notin> md_id ` set (model_rows s) then (s, Inl foreign_key_failed)
      else
        (let s' = s\<lparr>alias_rows := put_alias now n i (alias_rows s)\<rparr>
         in (s', ok_or (Option.bind (find (\<lambda>a. al_alias a = n) (alias_rows s')) (join_alias s'))
                (Storage ''no rows returned by a query that expected to return at least one row''))))"

section \<open>Issuing keys\<close>

definition KEY_PREFIX :: string where
  "KEY_PREFIX = ''yb_''"

text \<open>\<open>to_hex\<close> of \<open>keys.rs\<close>, two nibbles a byte.\<close>
definition hex_digit :: "nat \<Rightarrow> char" where
  "hex_digit n = ''0123456789abcdef'' ! n"

definition to_hex :: "bytes \<Rightarrow> string" where
  "to_hex bs = concat (map (\<lambda>b. [hex_digit (of_char b div 16), hex_digit (of_char b mod 16)]) bs)"

definition hash_token :: "(bytes \<Rightarrow> bytes) \<Rightarrow> string \<Rightarrow> string" where
  "hash_token sha256 token = to_hex (sha256 token)"

text \<open>\<open>body\<close> is the base64 text of the 24 random bytes.\<close>
definition generate_api_key :: "string \<Rightarrow> string \<times> string \<times> string" where
  "generate_api_key body = (KEY_PREFIX @ body, KEY_PREFIX @ take 8 body, drop (length body - 4) body)"

record issued_key =
  issued :: api_key
  token :: string

definition issue_api_key ::
  "(bytes \<Rightarrow> bytes) \<Rightarrow> timestamp \<Rightarrow> id \<Rightarrow> string \<Rightarrow> id \<Rightarrow> string option \<Rightarrow> id option \<Rightarrow> key_scope list \<Rightarrow>
    access_policy \<Rightarrow> limit_columns \<Rightarrow> sqlite_store \<Rightarrow> sqlite_store \<times> issued_key result" where
  "issue_api_key sha256 now fresh body owner name team scs acc lims s =
     (let (tk, pre, suf) = generate_api_key body;
          key = \<lparr>key_id = fresh, owner_user_id = owner, team_id = team, hash = hash_token sha256 tk,
                 key_prefix = pre, key_suffix = suf, key_name = name, scopes = scs, access = acc,
                 rpm_limit = lc_rpm lims, tpm_limit = lc_tpm lims,
                 key_max_concurrent = lc_max_concurrent lims, key_created_at = now,
                 last_used_at = None, key_deleted_at = None\<rparr>
      in then_run (keep_on_error s (create_api_key key s)) (\<lambda>_ s'. (s', Inr \<lparr>issued = key, token = tk\<rparr>)))"

definition CONTROL_USERNAME :: string where
  "CONTROL_USERNAME = ''control''"

definition control_user :: "timestamp \<Rightarrow> id \<Rightarrow> user" where
  "control_user now fresh =
     \<lparr>user_id = fresh, username = CONTROL_USERNAME, password_hash = ''!'', user_role = Admin,
      user_rpm_limit = None, user_tpm_limit = None, user_max_concurrent = None,
      user_created_at = now, last_login_at = None, user_deleted_at = None\<rparr>"

definition control_owner :: "timestamp \<Rightarrow> id \<Rightarrow> sqlite_store \<Rightarrow> sqlite_store \<times> user result" where
  "control_owner now fresh s =
     (case get_user_by_username CONTROL_USERNAME s of
        Some u \<Rightarrow> ((if user_role u \<noteq> Admin then set_user_role (user_id u) Admin s else s), Inr u)
      | None \<Rightarrow> then_run (keep_on_error s (create_user (control_user now fresh) s))
                 (\<lambda>_ s'. (s', Inr (control_user now fresh))))"

text \<open>The loop over the owner's keys: earlier control keys are revoked, the one with the hash is kept.\<close>
fun sweep_control_keys ::
  "timestamp \<Rightarrow> string \<Rightarrow> api_key list \<Rightarrow> api_key option \<Rightarrow> sqlite_store \<Rightarrow> sqlite_store \<times> api_key option" where
  "sweep_control_keys now h [] current s = (s, current)"
| "sweep_control_keys now h (k # ks) current s =
     (if key_deleted_at k \<noteq> None \<or> key_name k \<noteq> Some CONTROL_USERNAME
      then sweep_control_keys now h ks current s
      else if hash k = h then sweep_control_keys now h ks (Some k) s
      else sweep_control_keys now h ks current (delete_api_key now (key_id k) s))"

text \<open>
  \<open>str::get\<close> gives no text where a bound is inside a character, and the code an empty one; a byte
  starts a character unless it is a UTF-8 continuation byte.
\<close>
definition is_char_boundary :: "string \<Rightarrow> nat \<Rightarrow> bool" where
  "is_char_boundary s i \<longleftrightarrow> i = 0 \<or> i = length s \<or> (i < length s \<and> (of_char (s ! i) :: nat) div 64 \<noteq> 2)"

definition visible_part :: "string \<Rightarrow> nat \<Rightarrow> nat \<Rightarrow> string" where
  "visible_part s a b =
     (if a \<le> b \<and> is_char_boundary s a \<and> is_char_boundary s b then take (b - a) (drop a s) else [])"

definition control_key :: "(bytes \<Rightarrow> bytes) \<Rightarrow> timestamp \<Rightarrow> id \<Rightarrow> id \<Rightarrow> string \<Rightarrow> api_key" where
  "control_key sha256 now fresh owner tk =
     \<lparr>key_id = fresh, owner_user_id = owner, team_id = None, hash = hash_token sha256 tk,
      key_prefix = visible_part tk 0 (min (length tk) 8),
      key_suffix = visible_part tk (length tk - 4) (length tk),
      key_name = Some CONTROL_USERNAME, scopes = [InferenceScope, AdminScope], access = policy_default,
      rpm_limit = None, tpm_limit = None, key_max_concurrent = None, key_created_at = now,
      last_used_at = None, key_deleted_at = None\<rparr>"

definition ensure_control_key ::
  "(bytes \<Rightarrow> bytes) \<Rightarrow> timestamp \<Rightarrow> id \<times> id \<Rightarrow> string \<Rightarrow> sqlite_store \<Rightarrow> sqlite_store \<times> api_key result" where
  "ensure_control_key sha256 now fresh tk s =
     then_run (control_owner now (fst fresh) s) (\<lambda>owner s1.
       case sweep_control_keys now (hash_token sha256 tk) (list_api_keys_for_user (user_id owner) s1) None s1 of
         (s2, Some k) \<Rightarrow> (s2, Inr k)
       | (s2, None) \<Rightarrow>
           (let k = control_key sha256 now (snd fresh) (user_id owner) tk
            in then_run (keep_on_error s2 (create_api_key k s2)) (\<lambda>_ s3. (s3, Inr k))))"

end
