(* ===== verification/Store_Laws.thy ===== *)
theory Store_Laws
  imports Sqlite_Store
begin

text \<open>
  What the SQLite store promises: every table keeps its keys under every statement, a revoked key
  or user no longer authenticates, the names of models form a directory in which a rename never
  loses a name, seeding a deployment twice does nothing, the control key rotates, and the usage
  report accounts for every turn.
\<close>

section \<open>Tables\<close>

named_theorems table_laws \<open>how statements act on the keys of a table\<close>

lemma set_update_where: "set (update_where p f rows) = (\<lambda>r. if p r then f r else r) ` set rows"
  by (simp add: update_where_def)

lemma set_update_where_split:
  "set (update_where p f rows) = f ` {r \<in> set rows. p r} \<union> {r \<in> set rows. \<not> p r}"
  by (auto simp: set_update_where)

lemma map_update_where [table_laws]:
  "(\<And>r. p r \<Longrightarrow> key (f r) = key r) \<Longrightarrow> map key (update_where p f rows) = map key rows"
  by (simp add: update_where_def)

lemma image_update_where [table_laws]:
  "(\<And>r. p r \<Longrightarrow> key (f r) = key r) \<Longrightarrow> key ` set (update_where p f rows) = key ` set rows"
  using map_update_where [of p key f rows] by (metis list.set_map)

lemma ball_update_where [table_laws]:
  "(\<And>r. p r \<Longrightarrow> Q (f r) \<longleftrightarrow> Q r) \<Longrightarrow> (\<forall>r \<in> set (update_where p f rows). Q r) \<longleftrightarrow> (\<forall>r \<in> set rows. Q r)"
  by (induction rows) (auto simp: update_where_def)

text \<open>A column that is unique among the rows that satisfy \<open>live\<close>, as a partial index makes it.\<close>
definition unique_among :: "('r \<Rightarrow> bool) \<Rightarrow> ('r \<Rightarrow> 'k) \<Rightarrow> 'r list \<Rightarrow> bool" where
  "unique_among live key rows \<longleftrightarrow> distinct (map key (filter live rows))"

lemma unique_among_update [table_laws]:
  assumes "unique_among live key rows" "\<And>r. p r \<Longrightarrow> live (f r) \<Longrightarrow> live r \<and> key (f r) = key r"
  shows "unique_among live key (update_where p f rows)"
  using assms(1) unfolding unique_among_def
proof (induction rows)
  case (Cons r rows)
  have "key x \<in> key ` {x \<in> set rows. live x}" if "x \<in> set (update_where p f rows)" "live x" for x
    using that assms(2) by (force simp: set_update_where split: if_splits)
  then have "key ` {x \<in> set (update_where p f rows). live x} \<subseteq> key ` {x \<in> set rows. live x}" by blast
  with Cons assms(2) [of r] show ?case
    by (auto simp: update_where_def split: if_splits)
qed (simp add: update_where_def)

lemma unique_among_append [table_laws]:
  "unique_among live key (rows @ [r]) \<longleftrightarrow>
     unique_among live key rows \<and> (live r \<longrightarrow> \<not> list_ex (\<lambda>x. key x = key r \<and> live x) rows)"
  by (auto simp: unique_among_def list_ex_iff image_iff)

lemma unique_among_filter [table_laws]:
  "unique_among live key rows \<Longrightarrow> unique_among live key (filter q rows)"
proof (induction rows)
  case (Cons r rows)
  then show ?case by (auto simp: unique_among_def)
qed (simp add: unique_among_def)

lemma set_upsert_by:
  "set (upsert_by key mrg row rows) =
     (if key row \<in> key ` set rows then (\<lambda>r. if key r = key row then mrg r row else r) ` set rows
      else insert row (set rows))"
  by (auto simp: upsert_by_def set_update_where)

lemma distinct_upsert_by [table_laws]:
  assumes "distinct (map key rows)" "\<And>r n. key r = key n \<Longrightarrow> key (mrg r n) = key r"
  shows "distinct (map key (upsert_by key mrg row rows))"
proof (cases "key row \<in> key ` set rows")
  case True
  then show ?thesis using assms map_update_where [of "\<lambda>r. key r = key row" key "\<lambda>r. mrg r row" rows]
    by (simp add: upsert_by_def)
next
  case False
  then show ?thesis using assms(1) by (simp add: upsert_by_def)
qed

lemma image_upsert_by [table_laws]:
  assumes "\<And>r n. key r = key n \<Longrightarrow> key (mrg r n) = key r"
  shows "key ` set (upsert_by key mrg row rows) = insert (key row) (key ` set rows)"
proof (cases "key row \<in> key ` set rows")
  case True
  then show ?thesis using assms image_update_where [of "\<lambda>r. key r = key row" key "\<lambda>r. mrg r row" rows]
    by (simp add: upsert_by_def insert_absorb)
qed (simp add: upsert_by_def)

lemma distinct_map_filter_rows [table_laws]: "distinct (map key rows) \<Longrightarrow> distinct (map key (filter q rows))"
  by (rule distinct_map_filter)

lemma find_key_iff:
  "distinct (map key rows) \<Longrightarrow> find (\<lambda>r. key r = k) rows = Some r \<longleftrightarrow> r \<in> set rows \<and> key r = k"
  by (induction rows) (auto simp: rev_image_eqI)

lemma find_key_None: "find (\<lambda>r. key r = k) rows = None \<longleftrightarrow> k \<notin> key ` set rows"
  by (auto simp: find_None_iff)

lemma find_live_iff:
  "unique_among live key rows \<Longrightarrow>
     find (\<lambda>r. key r = k \<and> live r) rows = Some r \<longleftrightarrow> r \<in> set rows \<and> key r = k \<and> live r"
  unfolding unique_among_def by (induction rows) (auto simp: image_iff split: if_splits)

lemma find_snoc:
  "find q (xs @ [x]) = (case find q xs of Some y \<Rightarrow> Some y | None \<Rightarrow> if q x then Some x else None)"
  by (induction xs) auto

lemma option_eq_by: "(\<And>x. a = Some x \<longleftrightarrow> b = Some x) \<Longrightarrow> a = b"
  by (cases a; cases b) auto

section \<open>The invariant of the tables\<close>

text \<open>The primary keys, unique indexes and references of the schema, table by table.\<close>

definition users_ok :: "user list \<Rightarrow> bool" where
  "users_ok us \<longleftrightarrow> distinct (map user_id us) \<and> unique_among (\<lambda>u. user_deleted_at u = None) username us"

definition keys_ok :: "api_key list \<Rightarrow> bool" where
  "keys_ok ks \<longleftrightarrow> distinct (map key_id ks) \<and> distinct (map hash ks)"

definition external_ok :: "external_key list \<Rightarrow> bool" where
  "external_ok ks \<longleftrightarrow> distinct (map (\<lambda>r. (ext_user_id r, ext_provider r)) ks) \<and> distinct (map ext_id ks)"

definition memberships_ok :: "team_membership list \<Rightarrow> bool" where
  "memberships_ok ms \<longleftrightarrow> distinct (map (\<lambda>r. (mb_team_id r, mb_user_id r)) ms) \<and> distinct (map mb_id ms)"

definition models_ok :: "model_record list \<Rightarrow> bool" where
  "models_ok ms \<longleftrightarrow> distinct (map md_id ms) \<and> distinct (map md_name ms)"

definition providers_ok :: "provider_record list \<Rightarrow> bool" where
  "providers_ok ps \<longleftrightarrow> distinct (map pv_id ps) \<and> distinct (map pv_name ps)"

definition deployments_ok :: "deployment_row list \<Rightarrow> bool" where
  "deployments_ok ds \<longleftrightarrow> distinct (map dp_id ds) \<and>
     unique_among (\<lambda>d. dp_deleted_at d = None) deployment_identity ds"

definition references_ok :: "sqlite_store \<Rightarrow> bool" where
  "references_ok s \<longleftrightarrow>
     (\<forall>a \<in> set (alias_rows s). al_model_id a \<in> md_id ` set (model_rows s)) \<and>
     (\<forall>d \<in> set (deployment_rows s). dp_model_id d \<in> md_id ` set (model_rows s) \<and>
        dp_provider_id d \<in> pv_id ` set (provider_rows s)) \<and>
     (\<forall>h \<in> set (health_rows s). hr_deployment_id h \<in> dp_id ` set (deployment_rows s))"

definition store_ok :: "sqlite_store \<Rightarrow> bool" where
  "store_ok s \<longleftrightarrow>
     users_ok (users s) \<and> distinct (map session_token (sessions s)) \<and> keys_ok (api_keys s) \<and>
     external_ok (external_keys s) \<and> distinct (map tm_id (teams s)) \<and>
     memberships_ok (team_memberships s) \<and> distinct (map t_id (request_telemetry s)) \<and>
     distinct (map row_key (spend_rollup s)) \<and> distinct (map budget_id (budgets s)) \<and>
     distinct (map fst (rate_counters s)) \<and> models_ok (model_rows s) \<and>
     distinct (map al_alias (alias_rows s)) \<and> providers_ok (provider_rows s) \<and>
     deployments_ok (deployment_rows s) \<and> distinct (map hr_deployment_id (health_rows s)) \<and>
     references_ok s"

lemma store_ok_empty: "store_ok empty_store"
  by (simp add: store_ok_def users_ok_def keys_ok_def external_ok_def memberships_ok_def models_ok_def
      providers_ok_def deployments_ok_def references_ok_def empty_store_def unique_among_def)

text \<open>A statement on a table that nothing refers to leaves the references alone.\<close>
lemma references_ok_frame [simp]:
  "references_ok (s\<lparr>users := us\<rparr>) = references_ok s" "references_ok (s\<lparr>sessions := xs\<rparr>) = references_ok s"
  "references_ok (s\<lparr>api_keys := ks\<rparr>) = references_ok s"
  "references_ok (s\<lparr>external_keys := es\<rparr>) = references_ok s"
  "references_ok (s\<lparr>teams := ts\<rparr>) = references_ok s"
  "references_ok (s\<lparr>team_memberships := ms\<rparr>) = references_ok s"
  "references_ok (s\<lparr>request_telemetry := rs\<rparr>) = references_ok s"
  "references_ok (s\<lparr>spend_rollup := ds\<rparr>) = references_ok s"
  "references_ok (s\<lparr>budgets := bs\<rparr>) = references_ok s"
  "references_ok (s\<lparr>rate_counters := cs\<rparr>) = references_ok s"
  "references_ok (s\<lparr>capture_row := c\<rparr>) = references_ok s" "references_ok (s\<lparr>level_row := l\<rparr>) = references_ok s"
  by (simp_all add: references_ok_def)

named_theorems keeps_ok \<open>statements keep the invariant of the tables\<close>

lemma users_ok_update:
  assumes "users_ok us" "\<And>u. p u \<Longrightarrow> user_id (f u) = user_id u \<and> username (f u) = username u \<and>
    (user_deleted_at (f u) = None \<longrightarrow> user_deleted_at u = None)"
  shows "users_ok (update_where p f us)"
  using assms by (auto simp: users_ok_def map_update_where intro!: unique_among_update)

lemma user_statements_ok [keeps_ok]:
  "store_ok s \<Longrightarrow> create_user u s = Inr s' \<Longrightarrow> store_ok s'"
  "store_ok s \<Longrightarrow> store_ok (set_user_password i h s)"
  "store_ok s \<Longrightarrow> store_ok (set_user_role i r s)"
  "store_ok s \<Longrightarrow> store_ok (set_user_limits i l s)"
  "store_ok s \<Longrightarrow> store_ok (mark_user_login now i s)"
  "store_ok s \<Longrightarrow> store_ok (delete_user now i s)"
proof -
  have "users_ok (users s) \<Longrightarrow> user_id u \<notin> user_id ` set (users s) \<Longrightarrow>
      \<not> (user_deleted_at u = None \<and>
         list_ex (\<lambda>r. username r = username u \<and> user_deleted_at r = None) (users s)) \<Longrightarrow>
      users_ok (users s @ [u])"
    by (auto simp: users_ok_def unique_among_append)
  then show "store_ok s \<Longrightarrow> create_user u s = Inr s' \<Longrightarrow> store_ok s'"
    by (clarsimp simp: store_ok_def create_user_def split: if_splits)
qed (simp_all add: store_ok_def set_user_password_def set_user_role_def set_user_limits_def
      mark_user_login_def delete_user_def users_ok_update live_user_def)

lemma session_statements_ok [keeps_ok]:
  "store_ok s \<Longrightarrow> create_session x s = Inr s' \<Longrightarrow> store_ok s'"
  "store_ok s \<Longrightarrow> store_ok (delete_session tk s)"
  by (clarsimp simp: store_ok_def create_session_def split: if_splits)
     (simp add: store_ok_def delete_session_def table_laws)

lemma stored_key_columns [simp]: "key_id (stored_key k) = key_id k" "hash (stored_key k) = hash k"
  "key_deleted_at (stored_key k) = key_deleted_at k" "owner_user_id (stored_key k) = owner_user_id k"
  "key_name (stored_key k) = key_name k"
  by (simp_all add: stored_key_def)

lemma key_statements_ok [keeps_ok]:
  "store_ok s \<Longrightarrow> create_api_key k s = Inr s' \<Longrightarrow> store_ok s'"
  "store_ok s \<Longrightarrow> store_ok (mark_api_key_used now i s)"
  "store_ok s \<Longrightarrow> store_ok (delete_api_key now i s)"
  "store_ok s \<Longrightarrow> store_ok (update_api_key_access i pol s)"
  "store_ok s \<Longrightarrow> store_ok (update_api_key_limits i l s)"
  "store_ok s \<Longrightarrow> store_ok (rename_api_key i n s)"
  by (clarsimp simp: store_ok_def create_api_key_def keys_ok_def split: if_splits)
     (simp_all add: store_ok_def keys_ok_def mark_api_key_used_def delete_api_key_def
       update_api_key_access_def update_api_key_limits_def rename_api_key_def map_update_where)

lemma external_ok_upsert:
  assumes "external_ok ks" "(ext_user_id e, ext_provider e) \<in> (\<lambda>r. (ext_user_id r, ext_provider r)) ` set ks \<or>
    ext_id e \<notin> ext_id ` set ks"
  shows "external_ok (upsert_by (\<lambda>r. (ext_user_id r, ext_provider r))
    (\<lambda>r n. r\<lparr>ciphertext := ciphertext n, ext_prefix := ext_prefix n, ext_suffix := ext_suffix n\<rparr>) e ks)"
  using assms
  by (simp add: external_ok_def distinct_upsert_by) (auto simp: upsert_by_def map_update_where)

lemma external_key_statements_ok [keeps_ok]:
  "store_ok s \<Longrightarrow> upsert_external_key e s = Inr s' \<Longrightarrow> store_ok s'"
  "store_ok s \<Longrightarrow> store_ok (delete_external_key u pr s)"
  by (clarsimp simp: store_ok_def upsert_external_key_def split: if_splits, rule external_ok_upsert, simp, blast)
     (simp add: store_ok_def external_ok_def delete_external_key_def distinct_map_filter)

lemma team_statements_ok [keeps_ok]:
  "store_ok s \<Longrightarrow> create_team t s = Inr s' \<Longrightarrow> store_ok s'"
  "store_ok s \<Longrightarrow> store_ok (delete_team now i s)"
  "store_ok s \<Longrightarrow> store_ok (update_team_access now i pol s)"
  "store_ok s \<Longrightarrow> upsert_membership x s = Inr s' \<Longrightarrow> store_ok s'"
  "store_ok s \<Longrightarrow> store_ok (delete_membership i j s)"
  by (clarsimp simp: store_ok_def create_team_def split: if_splits,
      simp add: store_ok_def delete_team_def map_update_where,
      simp add: store_ok_def update_team_access_def map_update_where,
      clarsimp simp: store_ok_def upsert_membership_def memberships_ok_def split: if_splits,
      simp add: store_ok_def delete_membership_def memberships_ok_def distinct_map_filter)

lemma ledger_statements_ok [keeps_ok]:
  "store_ok s \<Longrightarrow> insert_telemetry r s = Inr s' \<Longrightarrow> store_ok s'"
  "store_ok s \<Longrightarrow> store_ok (store_upsert_rollup d s)"
  "store_ok s \<Longrightarrow> store_ok (upsert_budget b s)"
  "store_ok s \<Longrightarrow> store_ok (delete_budget now i s)"
  "store_ok s \<Longrightarrow> store_ok (fst (incr_rate_counter sc dm w n s))"
  by (clarsimp simp: store_ok_def insert_telemetry_def split: if_splits)
     (simp_all add: store_ok_def store_upsert_rollup_def upsert_budget_def
      delete_budget_def incr_rate_counter_def Let_def upsert_distinct distinct_upsert_by map_update_where)

lemma setting_statements_ok [keeps_ok]:
  "store_ok s \<Longrightarrow> store_ok (set_capture_policy cp s)"
  "store_ok s \<Longrightarrow> store_ok (set_log_level lv s)"
  by (simp_all add: store_ok_def set_capture_policy_def set_log_level_def)

lemma models_ok_add: "models_ok (ms @ [r]) \<longleftrightarrow> models_ok ms \<and> md_id r \<notin> md_id ` set ms \<and> md_name r \<notin> md_name ` set ms"
  by (auto simp: models_ok_def)

lemma get_model_by_name_None: "get_model_by_name n s = None \<longleftrightarrow> n \<notin> md_name ` set (model_rows s)"
  by (simp add: get_model_by_name_def find_key_None)

lemma get_model_None: "get_model i s = None \<longleftrightarrow> i \<notin> md_id ` set (model_rows s)"
  by (simp add: get_model_def find_key_None)

lemma get_model_Some: "get_model i s = Some r \<Longrightarrow> r \<in> set (model_rows s) \<and> md_id r = i"
  by (auto simp: get_model_def find_Some_iff)

lemma ensure_model_ok [keeps_ok]:
  assumes "store_ok s" shows "store_ok (fst (ensure_model now fresh n s))"
proof -
  have "store_ok (s\<lparr>model_rows := model_rows s @ [r]\<rparr>)"
    if "md_id r \<notin> md_id ` set (model_rows s)" "md_name r \<notin> md_name ` set (model_rows s)" for r
    using assms that by (simp add: store_ok_def models_ok_add references_ok_def)
  with assms show ?thesis
    by (auto simp: ensure_model_def Let_def get_model_by_name_None split: option.split)
qed

lemma distinct_put_alias: "distinct (map al_alias rows) \<Longrightarrow> distinct (map al_alias (put_alias now n i rows))"
  by (simp add: put_alias_def distinct_upsert_by)

lemma put_alias_targets:
  "a \<in> set (put_alias now n i rows) \<Longrightarrow> al_model_id a = i \<or> a \<in> set rows"
  by (auto simp: put_alias_def set_upsert_by split: if_splits)

lemma store_ok_put_alias:
  assumes "store_ok s" "i \<in> md_id ` set (model_rows s)"
  shows "store_ok (s\<lparr>alias_rows := put_alias now n i (alias_rows s)\<rparr>)"
proof -
  have "references_ok (s\<lparr>alias_rows := put_alias now n i (alias_rows s)\<rparr>)"
    using assms put_alias_targets [of _ now n i "alias_rows s"]
    by (fastforce simp: store_ok_def references_ok_def)
  with assms(1) show ?thesis by (simp add: store_ok_def distinct_put_alias)
qed

lemma alias_statements_ok [keeps_ok]:
  "store_ok s \<Longrightarrow> store_ok (delete_alias n s)"
  "store_ok s \<Longrightarrow> store_ok (fst (upsert_alias now n i s))"
proof -
  assume ok: "store_ok s"
  have "references_ok (s\<lparr>alias_rows := filter (\<lambda>a. al_alias a \<noteq> n) (alias_rows s)\<rparr>)"
    using ok by (auto simp: store_ok_def references_ok_def)
  with ok show "store_ok (delete_alias n s)" by (simp add: store_ok_def delete_alias_def distinct_map_filter)
  from ok show "store_ok (fst (upsert_alias now n i s))"
    by (simp add: upsert_alias_def Let_def store_ok_put_alias)
qed

lemma distinct_rename_one:
  assumes "distinct (map key rows)" "distinct (map name rows)"
    "\<And>r. r \<in> set rows \<Longrightarrow> name r = n \<Longrightarrow> key r = i" "\<And>r. name (f r) = n"
  shows "distinct (map name (update_where (\<lambda>r. key r = i) f rows))"
proof -
  let ?g = "\<lambda>r. if key r = i then f r else r"
  have "a = b" if "a \<in> set rows" "b \<in> set rows" "name (?g a) = name (?g b)" for a b
    using assms(1,2) that assms(3) [OF that(1)] assms(3) [OF that(2)] assms(4)
    by (auto simp: distinct_map inj_on_def split: if_splits)
  then have "inj_on (\<lambda>r. name (?g r)) (set rows)" by (rule inj_onI)
  moreover have "distinct rows" using assms(1) by (simp add: distinct_map)
  ultimately show ?thesis by (simp add: update_where_def comp_def distinct_map)
qed

text \<open>The writes of a rename that passed its checks.\<close>
definition renamed_rows :: "timestamp \<Rightarrow> id \<Rightarrow> string \<Rightarrow> model_record list \<Rightarrow> model_record list" where
  "renamed_rows now i n = update_where (\<lambda>r. md_id r = i) (\<lambda>r. r\<lparr>md_name := n, md_updated_at := now\<rparr>)"

lemma models_ok_renamed:
  "models_ok ms \<Longrightarrow> n \<notin> md_name ` set ms \<Longrightarrow> models_ok (renamed_rows now i n ms)"
  unfolding models_ok_def renamed_rows_def
  by (auto simp: map_update_where intro!: distinct_rename_one)

lemma renamed_ids [simp]: "md_id ` set (renamed_rows now i n ms) = md_id ` set ms"
  by (simp add: renamed_rows_def image_update_where)

text \<open>What a rename does, by case: refused, a no-op, or the new name with the old one as an alias.\<close>
lemma rename_model_cases:
  assumes "rename_model now i n s = (s', res)"
  obtains (refused) e where "s' = s" "res = Inl e"
  | (same) cur where "s' = s" "res = Inr cur" "get_model i s = Some cur" "md_name cur = n"
  | (renamed) cur where "get_model i s = Some cur" "md_name cur \<noteq> n"
      "n \<notin> md_name ` {r \<in> set (model_rows s). md_id r \<noteq> i}"
      "alias_owner n s \<in> {None, Some i}"
      "s' = s\<lparr>model_rows := renamed_rows now i n (model_rows s),
         alias_rows := put_alias now (md_name cur) i (filter (\<lambda>a. al_alias a \<noteq> n) (alias_rows s))\<rparr>"
      "res = ok_or (get_model i s') (NotFound ''model'')"
proof -
  have none: "filter (\<lambda>a. al_alias a \<noteq> n) (alias_rows s) = alias_rows s" if "alias_owner n s = None"
    using that by (auto simp: alias_owner_def find_None_iff intro!: filter_True)
  show thesis
  proof (cases "get_model i s")
    case None
    then show thesis using assms refused by (auto simp: rename_model_def)
  next
    case (Some cur)
    show thesis
    proof (cases "md_name cur = n")
      case True
      then show thesis using assms Some same [of cur] by (auto simp: rename_model_def)
    next
      case False
      have "thesis" if free: "\<not> list_ex (\<lambda>r. md_name r = n \<and> md_id r \<noteq> i) (model_rows s)"
        and owner: "alias_owner n s = None \<or> alias_owner n s = Some i"
      proof (rule renamed [OF Some False])
        show "n \<notin> md_name ` {r \<in> set (model_rows s). md_id r \<noteq> i}" using free by (auto simp: list_ex_iff)
        show "alias_owner n s \<in> {None, Some i}" using owner by auto
        show eq: "s' = s\<lparr>model_rows := renamed_rows now i n (model_rows s),
         alias_rows := put_alias now (md_name cur) i (filter (\<lambda>a. al_alias a \<noteq> n) (alias_rows s))\<rparr>"
          using owner assms Some False free none
          by (elim disjE) (simp_all add: rename_model_def renamed_rows_def delete_alias_def Let_def)
        show "res = ok_or (get_model i s') (NotFound ''model'')"
          using owner assms Some False free
          by (elim disjE) (auto simp add: rename_model_def Let_def)
      qed
      then show thesis using assms Some False refused
        by (auto simp: rename_model_def Let_def split: if_splits option.splits)
    qed
  qed
qed

lemma rename_model_ok [keeps_ok]:
  assumes ok: "store_ok s" shows "store_ok (fst (rename_model now i n s))"
proof -
  obtain s' res where "rename_model now i n s = (s', res)" by force
  then show ?thesis
  proof (cases rule: rename_model_cases)
    case (renamed cur)
    let ?s1 = "delete_alias n s"
    let ?s2 = "?s1\<lparr>model_rows := renamed_rows now i n (model_rows s)\<rparr>"
    have "store_ok ?s1" by (rule alias_statements_ok(1) [OF ok])
    moreover have "models_ok (renamed_rows now i n (model_rows s))"
    proof (rule models_ok_renamed)
      show "models_ok (model_rows s)" using ok by (simp add: store_ok_def)
      have "md_name r \<noteq> n" if "r \<in> set (model_rows s)" "md_id r = i" for r
        using that get_model_Some [OF renamed(1)] renamed(2) ok
        by (auto simp: store_ok_def models_ok_def distinct_map inj_on_def)
      with renamed(3) show "n \<notin> md_name ` set (model_rows s)" by auto
    qed
    ultimately have "store_ok ?s2"
      by (simp add: store_ok_def references_ok_def delete_alias_def)
    moreover have "i \<in> md_id ` set (model_rows ?s2)" using get_model_Some [OF renamed(1)] by auto
    ultimately have "store_ok (?s2\<lparr>alias_rows := put_alias now (md_name cur) i (alias_rows ?s2)\<rparr>)"
      by (rule store_ok_put_alias)
    then show ?thesis
      using \<open>rename_model now i n s = (s', res)\<close> renamed(5) by (simp add: delete_alias_def)
  qed (use ok \<open>rename_model now i n s = (s', res)\<close> in simp_all)
qed

lemma get_provider_Some: "get_provider i s = Some r \<Longrightarrow> r \<in> set (provider_rows s) \<and> pv_id r = i"
  by (auto simp: get_provider_def find_Some_iff)

lemma ensure_provider_ok [keeps_ok]:
  assumes "store_ok s" shows "store_ok (fst (ensure_provider now fresh n s))"
proof -
  have "store_ok (s\<lparr>provider_rows := provider_rows s @ [r]\<rparr>)"
    if "pv_id r \<notin> pv_id ` set (provider_rows s)" "pv_name r \<notin> pv_name ` set (provider_rows s)" for r
    using assms that by (simp add: store_ok_def providers_ok_def references_ok_def)
  with assms show ?thesis
    by (auto simp: ensure_provider_def Let_def get_provider_by_name_def find_key_None split: option.split)
qed

lemma provider_statements_ok [keeps_ok]:
  "store_ok s \<Longrightarrow> store_ok (fst (update_provider now i n b k x s))"
  "store_ok s \<Longrightarrow> delete_provider i s = Inr s' \<Longrightarrow> store_ok s'"
proof -
  assume ok: "store_ok s"
  let ?rows = "update_where (\<lambda>r. pv_id r = i) (\<lambda>r. r\<lparr>pv_name := n, pv_api_base := b,
     pv_api_key := (case k of Some k \<Rightarrow> Some k | None \<Rightarrow> pv_api_key r), pv_extra := x, pv_updated_at := now\<rparr>)
     (provider_rows s)"
  have "providers_ok ?rows" if free: "\<not> list_ex (\<lambda>r. pv_name r = n \<and> pv_id r \<noteq> i) (provider_rows s)"
  proof -
    have "distinct (map pv_name ?rows)"
      using ok free by (intro distinct_rename_one) (auto simp: providers_ok_def store_ok_def list_ex_iff)
    then show ?thesis using ok by (simp add: providers_ok_def store_ok_def map_update_where)
  qed
  then show "store_ok (fst (update_provider now i n b k x s))"
    using ok by (simp add: update_provider_def Let_def store_ok_def references_ok_def image_update_where)
next
  assume ok: "store_ok s" and del: "delete_provider i s = Inr s'"
  let ?gone = "filter (\<lambda>d. dp_provider_id d = i) (deployment_rows s)"
  have same: "d \<in> set ?gone" if "d' \<in> set ?gone" "d \<in> set (deployment_rows s)" "dp_id d = dp_id d'" for d d'
    using ok that by (auto simp: store_ok_def deployments_ok_def distinct_map inj_on_def)
  have "hr_deployment_id h \<in> dp_id ` {d \<in> set (deployment_rows s). dp_provider_id d \<noteq> i}"
    if "h \<in> set (health_rows s)" "hr_deployment_id h \<notin> dp_id ` set ?gone" for h
    using ok that by (force simp: store_ok_def references_ok_def)
  moreover have "dp_provider_id d \<in> pv_id ` {r \<in> set (provider_rows s). pv_id r \<noteq> i}"
    if "d \<in> set (deployment_rows s)" "dp_provider_id d \<noteq> i" for d
    using ok that by (fastforce simp: store_ok_def references_ok_def)
  ultimately have refs: "references_ok s'"
    using ok del by (auto simp: delete_provider_def Let_def store_ok_def references_ok_def split: if_splits)
  from ok del have "users_ok (users s') \<and> distinct (map session_token (sessions s')) \<and>
      keys_ok (api_keys s') \<and> external_ok (external_keys s') \<and> distinct (map tm_id (teams s')) \<and>
      memberships_ok (team_memberships s') \<and> distinct (map t_id (request_telemetry s')) \<and>
      distinct (map row_key (spend_rollup s')) \<and> distinct (map budget_id (budgets s')) \<and>
      distinct (map fst (rate_counters s')) \<and> models_ok (model_rows s') \<and>
      distinct (map al_alias (alias_rows s'))"
    by (clarsimp simp: delete_provider_def Let_def store_ok_def split: if_splits)
  moreover from ok del have "providers_ok (provider_rows s') \<and> deployments_ok (deployment_rows s') \<and>
      distinct (map hr_deployment_id (health_rows s'))"
    by (clarsimp simp: delete_provider_def Let_def store_ok_def providers_ok_def deployments_ok_def
        distinct_map_filter unique_among_filter split: if_splits)
  ultimately show "store_ok s'" using refs by (simp add: store_ok_def)
qed

lemma insert_deployment_ok:
  "store_ok s \<Longrightarrow> insert_deployment now i nd mo pr s = Inr s' \<Longrightarrow> store_ok s'"
  by (clarsimp simp: insert_deployment_def Let_def store_ok_def deployments_ok_def references_ok_def
      unique_among_append split: if_splits)

lemma store_ok_then_run:
  "store_ok (fst r) \<Longrightarrow> (\<And>x s. store_ok s \<Longrightarrow> store_ok (fst (k x s))) \<Longrightarrow> store_ok (fst (then_run r k))"
  by (auto simp: then_run_def split: prod.split sum.split)

lemma store_ok_keep_on_error:
  "store_ok s \<Longrightarrow> (\<And>s'. r = Inr s' \<Longrightarrow> store_ok s') \<Longrightarrow> store_ok (fst (keep_on_error s r))"
  by (auto simp: keep_on_error_def split: sum.split)

lemma create_deployment_ok [keeps_ok]:
  "store_ok s \<Longrightarrow> store_ok (fst (create_deployment now ids nd s))"
  unfolding create_deployment_def
  by (cases ids, simp only: prod.case, intro store_ok_then_run store_ok_keep_on_error ensure_model_ok
      ensure_provider_ok) (simp_all add: insert_deployment_ok)

lemma deployment_statements_ok [keeps_ok]:
  "store_ok s \<Longrightarrow> store_ok (delete_deployment now i s)"
  "store_ok s \<Longrightarrow> store_ok (fst (seed_deployment now ids2 ids nd s))"
  "store_ok s \<Longrightarrow> record_health h s = Inr s' \<Longrightarrow> store_ok s'"
proof -
  assume ok: "store_ok s"
  have "unique_among (\<lambda>d. dp_deleted_at d = None) deployment_identity
     (update_where (\<lambda>d. dp_id d = i \<and> dp_deleted_at d = None) (\<lambda>d. d\<lparr>dp_deleted_at := Some now\<rparr>)
       (deployment_rows s))"
    using ok by (auto simp: store_ok_def deployments_ok_def intro: unique_among_update)
  moreover have "references_ok (delete_deployment now i s)"
    using ok by (simp add: delete_deployment_def store_ok_def references_ok_def image_update_where
        ball_update_where)
  ultimately show "store_ok (delete_deployment now i s)"
    using ok by (simp add: delete_deployment_def store_ok_def deployments_ok_def map_update_where)
  from ok show "store_ok (fst (seed_deployment now ids2 ids nd s))"
    by (auto simp: seed_deployment_def
        intro!: store_ok_then_run ensure_model_ok ensure_provider_ok create_deployment_ok)
next
  assume ok: "store_ok s" and rec: "record_health h s = Inr s'"
  let ?h = "h\<lparr>hr_latency_ms := if hr_latency_ms h < 2 ^ 63 then hr_latency_ms h else 0\<rparr>"
  let ?rows = "upsert_by hr_deployment_id (\<lambda>r n. n) ?h (health_rows s)"
  have known: "hr_deployment_id h \<in> dp_id ` set (deployment_rows s)" and s': "s' = s\<lparr>health_rows := ?rows\<rparr>"
    using rec by (simp_all add: record_health_def split: if_splits)
  have "hr_deployment_id x = hr_deployment_id h \<or> x \<in> set (health_rows s)" if "x \<in> set ?rows" for x
    using that by (auto simp: set_upsert_by split: if_splits)
  then have "hr_deployment_id x \<in> dp_id ` set (deployment_rows s)" if "x \<in> set ?rows" for x
    using that known ok unfolding store_ok_def references_ok_def by metis
  then show "store_ok s'"
    using ok by (simp add: s' store_ok_def references_ok_def distinct_upsert_by)
qed

section \<open>The states a store reaches\<close>

text \<open>One call of the store, whatever it returns; a refused statement leaves no step.\<close>
inductive store_step :: "sqlite_store \<Rightarrow> sqlite_store \<Rightarrow> bool" where
  "create_user u s = Inr s' \<Longrightarrow> store_step s s'"
| "store_step s (set_user_password i h s)"
| "store_step s (set_user_role i r s)"
| "store_step s (set_user_limits i l s)"
| "store_step s (mark_user_login now i s)"
| "store_step s (delete_user now i s)"
| "create_session x s = Inr s' \<Longrightarrow> store_step s s'"
| "store_step s (delete_session tk s)"
| "create_api_key k s = Inr s' \<Longrightarrow> store_step s s'"
| "store_step s (mark_api_key_used now i s)"
| "store_step s (delete_api_key now i s)"
| "store_step s (update_api_key_access i pol s)"
| "store_step s (update_api_key_limits i l s)"
| "store_step s (rename_api_key i n s)"
| "upsert_external_key e s = Inr s' \<Longrightarrow> store_step s s'"
| "store_step s (delete_external_key u pr s)"
| "create_team t s = Inr s' \<Longrightarrow> store_step s s'"
| "store_step s (delete_team now i s)"
| "store_step s (update_team_access now i pol s)"
| "upsert_membership x s = Inr s' \<Longrightarrow> store_step s s'"
| "store_step s (delete_membership i j s)"
| "insert_telemetry r s = Inr s' \<Longrightarrow> store_step s s'"
| "store_step s (store_upsert_rollup d s)"
| "store_step s (upsert_budget b s)"
| "store_step s (delete_budget now i s)"
| "store_step s (set_capture_policy cp s)"
| "store_step s (set_log_level lv s)"
| "store_step s (fst (incr_rate_counter sc dm w c s))"
| "store_step s (fst (ensure_model now fresh n s))"
| "store_step s (fst (rename_model now i n s))"
| "store_step s (fst (ensure_provider now fresh n s))"
| "store_step s (fst (update_provider now i n b k x s))"
| "delete_provider i s = Inr s' \<Longrightarrow> store_step s s'"
| "store_step s (fst (create_deployment now ids nd s))"
| "store_step s (delete_deployment now i s)"
| "store_step s (fst (seed_deployment now ids2 ids nd s))"
| "record_health h s = Inr s' \<Longrightarrow> store_step s s'"
| "store_step s (fst (upsert_alias now n i s))"
| "store_step s (delete_alias n s)"

lemma store_step_ok: "store_step s s' \<Longrightarrow> store_ok s \<Longrightarrow> store_ok s'"
  by (induction rule: store_step.induct) (auto intro: keeps_ok)

lemma reachable_ok: "store_step\<^sup>*\<^sup>* empty_store s \<Longrightarrow> store_ok s"
  by (induction rule: rtranclp_induct) (auto intro: store_ok_empty store_step_ok)

text \<open>A store with the control account and its key, for the concrete instances below.\<close>
definition sample_store :: sqlite_store where
  "sample_store = empty_store\<lparr>users := [control_user 0 ''u1''],
     api_keys := [stored_key (control_key id 0 ''k1'' ''u1'' ''a'')]\<rparr>"

definition sample_new_deployment :: new_deployment where
  "sample_new_deployment = \<lparr>nd_model_name = ''gpt'', nd_provider_name = ''acme'', nd_upstream_model = ''g'',
     nd_upstream_format = Chat OpenaiChat, nd_weight = 1, nd_pricing = None, nd_health_check = HealthNone,
     nd_health_path = None\<rparr>"

lemma sample_store_reachable: "store_step\<^sup>*\<^sup>* empty_store sample_store"
proof -
  let ?s1 = "empty_store\<lparr>users := [control_user 0 ''u1'']\<rparr>"
  have "store_step empty_store ?s1"
    by (rule store_step.intros(1) [of "control_user 0 ''u1''"]) (simp add: create_user_def empty_store_def)
  moreover have "store_step ?s1 sample_store"
    by (rule store_step.intros(9) [of "control_key id 0 ''k1'' ''u1'' ''a''"])
       (simp add: create_api_key_def sample_store_def empty_store_def)
  ultimately show ?thesis by auto
qed

text \<open>C20: The tables keep the keys, unique columns and references of the schema whatever calls are made:
  in every state reached from the empty database no two users, keys, teams, models, providers,
  deployments or budgets share an id, no two live users a name, no two keys a hash, no two live
  deployments the same model, provider and upstream model, and every alias, deployment and health
  row refers to rows that exist, so no read that joins drops a deployment.\<close>
theorem reachable_store_ok:
  assumes "store_step\<^sup>*\<^sup>* empty_store s"
  shows "store_ok s \<and>
    (\<forall>d \<in> set (deployment_rows s). join_deployment s d \<noteq> None)"
proof
  show ok: "store_ok s" using assms by (rule reachable_ok)
  show "\<forall>d \<in> set (deployment_rows s). join_deployment s d \<noteq> None"
  proof
    fix d assume "d \<in> set (deployment_rows s)"
    then have "dp_model_id d \<in> md_id ` set (model_rows s)" "dp_provider_id d \<in> pv_id ` set (provider_rows s)"
      using ok by (simp_all add: store_ok_def references_ok_def)
    then have "get_model (dp_model_id d) s \<noteq> None" "get_provider (dp_provider_id d) s \<noteq> None"
      by (simp_all add: get_model_None get_provider_def find_key_None)
    then show "join_deployment s d \<noteq> None" by (auto simp: join_deployment_def)
  qed
qed

theorem reachable_store_ok_witness:
  "store_ok (fst (create_deployment 1 (''m'', ''p'', ''d'') sample_new_deployment sample_store))"
  by (rule reachable_store_ok [THEN conjunct1])
     (rule rtranclp.rtrancl_into_rtrancl [OF sample_store_reachable store_step.intros(34)])

section \<open>Authentication\<close>

lemma verify_api_key_iff:
  assumes "store_ok s"
  shows "verify_api_key h s = Some a \<longleftrightarrow>
    auth_key a \<in> set (api_keys s) \<and> hash (auth_key a) = h \<and> key_deleted_at (auth_key a) = None \<and>
    auth_user a \<in> set (users s) \<and> user_id (auth_user a) = owner_user_id (auth_key a) \<and>
    user_deleted_at (auth_user a) = None"
proof -
  have "unique_among (\<lambda>k. key_deleted_at k = None) hash (api_keys s)"
    "unique_among (\<lambda>u. user_deleted_at u = None) user_id (users s)"
    using assms by (simp_all add: store_ok_def keys_ok_def users_ok_def unique_among_def distinct_map_filter)
  note find = this [THEN find_live_iff]
  have "verify_api_key h s = Some a \<longleftrightarrow>
    find (\<lambda>k. hash k = h \<and> key_deleted_at k = None) (api_keys s) = Some (auth_key a) \<and>
    find (\<lambda>u. user_id u = owner_user_id (auth_key a) \<and> user_deleted_at u = None) (users s) = Some (auth_user a)"
    by (cases a) (auto simp: verify_api_key_def get_user_def split: option.splits)
  then show ?thesis by (simp add: find conj_assoc)
qed

lemma revoke_frames [simp]: "users (delete_api_key now i s) = users s" "api_keys (delete_user now i s) = api_keys s"
  by (simp_all add: delete_api_key_def delete_user_def)

lemma live_after_delete_key:
  "k \<in> set (api_keys (delete_api_key now i s)) \<and> key_deleted_at k = None \<longleftrightarrow>
     k \<in> set (api_keys s) \<and> key_deleted_at k = None \<and> key_id k \<noteq> i"
  by (auto simp: delete_api_key_def set_update_where)

lemma live_after_delete_user:
  "u \<in> set (users (delete_user now i s)) \<and> user_deleted_at u = None \<longleftrightarrow>
     u \<in> set (users s) \<and> user_deleted_at u = None \<and> user_id u \<noteq> i"
  by (auto simp: delete_user_def live_user_def set_update_where)

lemma verify_after_delete_key:
  assumes "store_ok s"
  shows "verify_api_key h (delete_api_key now i s) =
    (case verify_api_key h s of
       Some a \<Rightarrow> if key_id (auth_key a) = i then None else Some a | None \<Rightarrow> None)"
proof (rule option_eq_by)
  fix a
  have "verify_api_key h (delete_api_key now i s) = Some a \<longleftrightarrow>
      verify_api_key h s = Some a \<and> key_id (auth_key a) \<noteq> i"
    using live_after_delete_key [of "auth_key a" now i s]
    unfolding verify_api_key_iff [OF assms] verify_api_key_iff [OF key_statements_ok(3) [OF assms]]
      revoke_frames by blast
  then show "verify_api_key h (delete_api_key now i s) = Some a \<longleftrightarrow>
     (case verify_api_key h s of
       Some a \<Rightarrow> if key_id (auth_key a) = i then None else Some a | None \<Rightarrow> None) = Some a"
    by (auto split: option.split)
qed

lemma verify_after_delete_user:
  assumes "store_ok s"
  shows "verify_api_key h (delete_user now i s) =
    (case verify_api_key h s of
       Some a \<Rightarrow> if owner_user_id (auth_key a) = i then None else Some a | None \<Rightarrow> None)"
proof (rule option_eq_by)
  fix a
  have "verify_api_key h (delete_user now i s) = Some a \<longleftrightarrow>
      verify_api_key h s = Some a \<and> owner_user_id (auth_key a) \<noteq> i"
    using live_after_delete_user [of "auth_user a" now i s]
    unfolding verify_api_key_iff [OF assms] verify_api_key_iff [OF user_statements_ok(6) [OF assms]]
      revoke_frames by metis
  then show "verify_api_key h (delete_user now i s) = Some a \<longleftrightarrow>
     (case verify_api_key h s of
       Some a \<Rightarrow> if owner_user_id (auth_key a) = i then None else Some a | None \<Rightarrow> None) = Some a"
    by (auto split: option.split)
qed

text \<open>C19: Revocation is immediate and exact. In every reachable state a token authenticates only as a
  live key with its hash whose owner is a live user; after a key is deleted no token authenticates
  as it, after a user is deleted no token authenticates as a key of theirs, and every other
  authentication is as before.\<close>
theorem revocation_exact:
  assumes "store_step\<^sup>*\<^sup>* empty_store s"
  shows "(\<forall>a. verify_api_key h s = Some a \<longrightarrow> hash (auth_key a) = h \<and> key_deleted_at (auth_key a) = None \<and>
      user_id (auth_user a) = owner_user_id (auth_key a) \<and> user_deleted_at (auth_user a) = None) \<and>
    verify_api_key h (delete_api_key now i s) =
      (case verify_api_key h s of
         Some a \<Rightarrow> if key_id (auth_key a) = i then None else Some a | None \<Rightarrow> None) \<and>
    verify_api_key h (delete_user now i s) =
      (case verify_api_key h s of
         Some a \<Rightarrow> if owner_user_id (auth_key a) = i then None else Some a | None \<Rightarrow> None)"
  using reachable_ok [OF assms]
  by (simp add: verify_api_key_iff verify_after_delete_key verify_after_delete_user)

theorem revocation_exact_witness:
  "(\<exists>a. verify_api_key (to_hex ''a'') sample_store = Some a) \<and>
   verify_api_key (to_hex ''a'') (delete_api_key 5 ''k1'' sample_store) = None \<and>
   verify_api_key (to_hex ''a'') (delete_user 5 ''u1'' sample_store) = None"
proof -
  have "verify_api_key (to_hex ''a'') sample_store = Some \<lparr>auth_user = control_user 0 ''u1'',
     auth_key = stored_key (control_key id 0 ''k1'' ''u1'' ''a'')\<rparr>"
    by (simp add: sample_store_def empty_store_def verify_api_key_def control_key_def hash_token_def stored_key_def get_user_def
        control_user_def)
  then show ?thesis
    using revocation_exact [OF sample_store_reachable, of "to_hex ''a''" 5 "''k1''"]
      revocation_exact [OF sample_store_reachable, of "to_hex ''a''" 5 "''u1''"]
    by (simp add: control_key_def stored_key_def)
qed

section \<open>The directory of model names\<close>

text \<open>
  What a client's model name means: the model of that name, else the model an alias of that name
  refers to. The abstract directory is the map from names to model ids.
\<close>
definition directory :: "sqlite_store \<Rightarrow> string \<Rightarrow> id option" where
  "directory s n =
     (case get_model_by_name n s of Some r \<Rightarrow> Some (md_id r) | None \<Rightarrow> alias_owner n s)"

text \<open>A public name is a model's or an alias's, never both.\<close>
definition names_disjoint :: "sqlite_store \<Rightarrow> bool" where
  "names_disjoint s \<longleftrightarrow> md_name ` set (model_rows s) \<inter> al_alias ` set (alias_rows s) = {}"

definition names_ok :: "sqlite_store \<Rightarrow> bool" where
  "names_ok s \<longleftrightarrow> store_ok s \<and> names_disjoint s"

lemma alias_owner_iff:
  "store_ok s \<Longrightarrow> alias_owner n s = Some i \<longleftrightarrow> (\<exists>a \<in> set (alias_rows s). al_alias a = n \<and> al_model_id a = i)"
  unfolding alias_owner_def by (auto simp: store_ok_def find_key_iff)

lemma alias_owner_None: "alias_owner n s = None \<longleftrightarrow> n \<notin> al_alias ` set (alias_rows s)"
  by (auto simp: alias_owner_def find_None_iff)

lemma get_model_by_name_iff:
  "store_ok s \<Longrightarrow> get_model_by_name n s = Some r \<longleftrightarrow> r \<in> set (model_rows s) \<and> md_name r = n"
  unfolding get_model_by_name_def by (auto simp: store_ok_def models_ok_def find_key_iff)

lemma get_model_iff:
  "store_ok s \<Longrightarrow> get_model i s = Some r \<longleftrightarrow> r \<in> set (model_rows s) \<and> md_id r = i"
  unfolding get_model_def by (auto simp: store_ok_def models_ok_def find_key_iff)

lemma directory_iff:
  assumes "names_ok s"
  shows "directory s n = Some i \<longleftrightarrow>
    (\<exists>r \<in> set (model_rows s). md_name r = n \<and> md_id r = i) \<or>
    (\<exists>a \<in> set (alias_rows s). al_alias a = n \<and> al_model_id a = i)"
proof (cases "get_model_by_name n s")
  case None
  then have "n \<notin> md_name ` set (model_rows s)" by (simp add: get_model_by_name_None)
  with None show ?thesis using assms by (auto simp: directory_def names_ok_def alias_owner_iff)
next
  case (Some r)
  then have "r \<in> set (model_rows s)" "md_name r = n" "n \<notin> al_alias ` set (alias_rows s)"
    using assms by (auto simp: names_ok_def names_disjoint_def get_model_by_name_iff)
  moreover have "r' = r" if "r' \<in> set (model_rows s)" "md_name r' = n" for r'
    using that Some assms get_model_by_name_iff [of s n r'] by (simp add: names_ok_def)
  moreover have "directory s n = Some (md_id r)" using Some by (simp add: directory_def)
  ultimately show ?thesis by (metis image_eqI option.inject)
qed

text \<open>
  The interface of a directory of names: creating a model adds a name, renaming adds another name
  of the same model, and no name is ever taken from the model it means.
\<close>
locale name_directory =
  fixes ok :: "'s \<Rightarrow> bool"
    and look :: "'s \<Rightarrow> string \<Rightarrow> id option"
    and create :: "timestamp \<Rightarrow> id \<Rightarrow> string \<Rightarrow> 's \<Rightarrow> 's \<times> model_record result"
    and rename :: "timestamp \<Rightarrow> id \<Rightarrow> string \<Rightarrow> 's \<Rightarrow> 's \<times> model_record result"
  assumes create_ok: "ok s \<Longrightarrow> create now i n s = (s', res) \<Longrightarrow>
      ok s' \<and> (case res of Inl e \<Rightarrow> look s' = look s | Inr r \<Rightarrow> look s' = (look s)(n \<mapsto> md_id r))"
    and create_grows: "ok s \<Longrightarrow> create now i n s = (s', Inr r) \<Longrightarrow> look s n \<in> {None, Some (md_id r)}"
    and rename_ok: "ok s \<Longrightarrow> rename now i n s = (s', res) \<Longrightarrow>
      ok s' \<and> (case res of Inl e \<Rightarrow> look s' = look s | Inr r \<Rightarrow> md_id r = i \<and> look s' = (look s)(n \<mapsto> i))"
    and rename_grows: "ok s \<Longrightarrow> rename now i n s = (s', Inr r) \<Longrightarrow> look s n \<in> {None, Some i}"
begin

lemma create_extends: "ok s \<Longrightarrow> look s \<subseteq>\<^sub>m look (fst (create now i n s))"
proof (cases "create now i n s")
  case (Pair s' res)
  assume "ok s"
  with Pair show ?thesis using create_ok [OF \<open>ok s\<close> Pair] create_grows [OF \<open>ok s\<close>, of now i n]
    by (cases res) (auto simp: map_le_def)
qed

lemma rename_extends: "ok s \<Longrightarrow> look s \<subseteq>\<^sub>m look (fst (rename now i n s))"
proof (cases "rename now i n s")
  case (Pair s' res)
  assume "ok s"
  with Pair show ?thesis using rename_ok [OF \<open>ok s\<close> Pair] rename_grows [OF \<open>ok s\<close>, of now i n]
    by (cases res) (auto simp: map_le_def)
qed

text \<open>The calls of a directory in sequence: \<open>Inl\<close> creates, \<open>Inr\<close> renames.\<close>
fun run :: "(timestamp \<times> id \<times> string) + (timestamp \<times> id \<times> string) \<Rightarrow> 's \<Rightarrow> 's" where
  "run (Inl (now, i, n)) s = fst (create now i n s)"
| "run (Inr (now, i, n)) s = fst (rename now i n s)"

lemma run_keeps: "ok s \<Longrightarrow> ok (run c s) \<and> look s \<subseteq>\<^sub>m look (run c s)"
proof (induction c s rule: run.induct)
  case (1 now i n s)
  then show ?case using create_extends create_ok [of s now i n] by (metis eq_fst_iff run.simps(1))
next
  case (2 now i n s)
  then show ?case using rename_extends rename_ok [of s now i n] by (metis eq_fst_iff run.simps(2))
qed

lemma runs_extend: "ok s \<Longrightarrow> ok (fold run cs s) \<and> look s \<subseteq>\<^sub>m look (fold run cs s)"
proof (induction cs arbitrary: s)
  case (Cons c cs)
  then show ?case using run_keeps [of s c] by (auto intro: map_le_trans)
qed simp

end

lemma ensure_model_cases:
  assumes "ensure_model now i n s = (s', res)"
  obtains (refused) e where "s' = s" "res = Inl e"
  | (known) r where "s' = s" "res = Inr r" "get_model_by_name n s = Some r"
  | (fresh) r where "n \<notin> al_alias ` set (alias_rows s)" "n \<notin> md_name ` set (model_rows s)"
      "md_id r = i" "md_name r = n" "s' = s\<lparr>model_rows := model_rows s @ [r]\<rparr>" "res = Inr r"
proof (cases "alias_owner n s")
  case (Some owner)
  then show thesis using assms refused by (auto simp: ensure_model_def Let_def)
next
  case None
  show thesis
  proof (cases "get_model_by_name n s")
    case (Some r)
    then show thesis using assms \<open>alias_owner n s = None\<close> known [of r] by (auto simp: ensure_model_def)
  next
    case no_model: None
    let ?r = "\<lparr>md_id = i, md_name = n, md_created_at = now, md_updated_at = now\<rparr>"
    show thesis
    proof (cases "i \<in> md_id ` set (model_rows s)")
      case True
      then show thesis using assms None no_model refused by (auto simp: ensure_model_def)
    next
      case False
      then show thesis using assms None no_model fresh [of ?r]
        by (auto simp: ensure_model_def Let_def alias_owner_None get_model_by_name_None)
    qed
  qed
qed

lemma ensure_model_refused: "ensure_model now i n s = (s', Inl e) \<Longrightarrow> s' = s"
  by (erule ensure_model_cases) auto

lemma ensure_model_directory:
  assumes ok: "names_ok s" and run: "ensure_model now i n s = (s', res)"
  shows "names_ok s' \<and> (case res of Inl e \<Rightarrow> directory s' = directory s
    | Inr r \<Rightarrow> directory s' = (directory s)(n \<mapsto> md_id r) \<and> directory s n \<in> {None, Some (md_id r)})"
  using run
proof (cases rule: ensure_model_cases)
  case (known r)
  then show ?thesis using ok by (auto simp: directory_def)
next
  case (fresh r)
  have s': "names_ok s'"
    using ok ensure_model_ok [of s now i n] run fresh by (auto simp: names_ok_def names_disjoint_def)
  have "directory s' = (directory s)(n \<mapsto> i)"
  proof (rule ext, rule option_eq_by)
    fix m j
    have rows: "set (model_rows s') = insert r (set (model_rows s))" "alias_rows s' = alias_rows s"
      by (simp_all add: fresh(5))
    show "directory s' m = Some j \<longleftrightarrow> ((directory s)(n \<mapsto> i)) m = Some j"
      using fresh(1-4) by (auto simp: directory_iff [OF s'] directory_iff [OF ok] rows image_iff)
  qed
  moreover have "directory s n = None"
  proof -
    have "get_model_by_name n s = None" "alias_owner n s = None"
      using fresh(1,2) by (simp_all add: get_model_by_name_None alias_owner_None)
    then show ?thesis by (simp add: directory_def)
  qed
  ultimately show ?thesis using s' fresh by simp
qed (use ok in simp)

lemma renamed_directory:
  assumes ok: "names_ok s" and run: "rename_model now i n s = (s', res)"
    and cur: "get_model i s = Some cur" "md_name cur \<noteq> n"
    and free: "n \<notin> md_name ` {r \<in> set (model_rows s). md_id r \<noteq> i}" "alias_owner n s \<in> {None, Some i}"
    and s': "s' = s\<lparr>model_rows := renamed_rows now i n (model_rows s),
         alias_rows := put_alias now (md_name cur) i (filter (\<lambda>a. al_alias a \<noteq> n) (alias_rows s))\<rparr>"
  shows "names_ok s' \<and> directory s' = (directory s)(n \<mapsto> i) \<and> directory s n \<in> {None, Some i}"
proof -
  have store: "store_ok s" "store_ok s'"
    using ok rename_model_ok [of s now i n] run by (auto simp: names_ok_def)
  have c: "cur \<in> set (model_rows s)" "md_id cur = i" using get_model_Some [OF cur(1)] by auto
  have only: "r = cur" if "r \<in> set (model_rows s)" "md_id r = i" for r
    using that c store(1) by (auto simp: store_ok_def models_ok_def distinct_map inj_on_def)
  have other: "md_name r \<noteq> md_name cur" if "r \<in> set (model_rows s)" "md_id r \<noteq> i" for r
    using that c store(1) by (auto simp: store_ok_def models_ok_def distinct_map inj_on_def)
  have old: "md_name cur \<notin> al_alias ` set (alias_rows s)"
    using ok c(1) by (auto simp: names_ok_def names_disjoint_def)
  have models: "set (model_rows s') =
      insert (cur\<lparr>md_name := n, md_updated_at := now\<rparr>) {r \<in> set (model_rows s). md_id r \<noteq> i}"
  proof -
    have "{r \<in> set (model_rows s). md_id r = i} = {cur}" using only c by blast
    then show ?thesis by (simp add: s' renamed_rows_def set_update_where_split)
  qed
  have aliases: "set (alias_rows s') =
      insert \<lparr>al_alias = md_name cur, al_model_id = i, al_created_at = now\<rparr>
        {a \<in> set (alias_rows s). al_alias a \<noteq> n}"
    using old by (auto simp: s' put_alias_def set_upsert_by)
  have "names_disjoint s'"
    unfolding names_disjoint_def
  proof (intro equalityI subsetI)
    fix m assume "m \<in> md_name ` set (model_rows s') \<inter> al_alias ` set (alias_rows s')"
    then show "m \<in> {}"
      using ok other cur(2) free(1) by (fastforce simp: models aliases names_ok_def names_disjoint_def)
  qed simp
  then have ok': "names_ok s'" using store by (simp add: names_ok_def)
  have owned: "al_model_id a = i" if "a \<in> set (alias_rows s)" "al_alias a = n" for a
  proof -
    have "alias_owner n s = Some (al_model_id a)" using that alias_owner_iff [OF store(1)] by blast
    then show ?thesis using free(2) by simp
  qed
  have unnamed: "md_name r \<noteq> n" if "r \<in> set (model_rows s)" for r
    using that only [OF that] cur(2) free(1) by (cases "md_id r = i") auto
  have "directory s' = (directory s)(n \<mapsto> i)"
  proof (rule ext, rule option_eq_by)
    fix m j
    show "directory s' m = Some j \<longleftrightarrow> ((directory s)(n \<mapsto> i)) m = Some j"
    proof (cases "m = n")
      case True
      then show ?thesis using unnamed cur(2) c
        by (auto simp: directory_iff [OF ok'] models aliases)
    next
      case False
      then show ?thesis using c unfolding directory_iff [OF ok'] fun_upd_other [OF False] directory_iff [OF ok]
        by (auto simp: models aliases dest: only)
    qed
  qed
  moreover have "directory s n \<in> {None, Some i}"
  proof (cases "directory s n")
    case (Some j)
    then have "j = i" using directory_iff [OF ok, of n j] unnamed owned by blast
    with Some show ?thesis by simp
  qed simp
  ultimately show ?thesis using ok' by simp
qed

lemma rename_model_directory:
  assumes ok: "names_ok s" and run: "rename_model now i n s = (s', res)"
  shows "names_ok s' \<and> (case res of Inl e \<Rightarrow> directory s' = directory s
    | Inr r \<Rightarrow> md_id r = i \<and> directory s' = (directory s)(n \<mapsto> i) \<and> directory s n \<in> {None, Some i})"
  using run
proof (cases rule: rename_model_cases)
  case (same cur)
  then have "cur \<in> set (model_rows s)" "md_id cur = i" using get_model_Some by auto
  then have "directory s n = Some i" using ok same(4) directory_iff by blast
  then show ?thesis using ok same \<open>md_id cur = i\<close> by (auto simp: fun_upd_idem)
next
  case (renamed cur)
  have "get_model i s' \<noteq> None"
    using get_model_Some [OF renamed(1)] by (auto simp: get_model_None renamed(5))
  then obtain r where "res = Inr r" "md_id r = i"
    using renamed(6) get_model_Some by (auto simp: ok_or_def)
  with renamed_directory [OF ok run renamed(1-5)] show ?thesis by simp
qed (use ok in simp)

interpretation sqlite_names: name_directory names_ok directory ensure_model rename_model
proof
  fix s s' :: sqlite_store and now i n res r
  assume ok: "names_ok s"
  show "names_ok s' \<and> (case res of Inl e \<Rightarrow> directory s' = directory s
      | Inr r \<Rightarrow> directory s' = (directory s)(n \<mapsto> md_id r))" if "ensure_model now i n s = (s', res)"
    using ensure_model_directory [OF ok that] by (auto split: sum.splits)
  show "directory s n \<in> {None, Some (md_id r)}" if "ensure_model now i n s = (s', Inr r)"
    using ensure_model_directory [OF ok that] by simp
  show "names_ok s' \<and> (case res of Inl e \<Rightarrow> directory s' = directory s
      | Inr r \<Rightarrow> md_id r = i \<and> directory s' = (directory s)(n \<mapsto> i))" if "rename_model now i n s = (s', res)"
    using rename_model_directory [OF ok that] by (auto split: sum.splits)
  show "directory s n \<in> {None, Some i}" if "rename_model now i n s = (s', Inr r)"
    using rename_model_directory [OF ok that] by simp
qed

text \<open>One call on the names of the store: the creation of a model or a rename.\<close>
datatype name_call = EnsureModel timestamp id string | RenameModel timestamp id string

fun call_names :: "name_call \<Rightarrow> sqlite_store \<Rightarrow> sqlite_store" where
  "call_names (EnsureModel now i n) s = fst (ensure_model now i n s)"
| "call_names (RenameModel now i n) s = fst (rename_model now i n s)"

lemma call_names_run:
  "fold call_names cs s = fold sqlite_names.run (map (\<lambda>c. case c of EnsureModel now i n \<Rightarrow> Inl (now, i, n)
     | RenameModel now i n \<Rightarrow> Inr (now, i, n)) cs) s"
  by (induction cs arbitrary: s) (auto split: name_call.split)

text \<open>C18: The model and alias tables implement a directory of names. A call that succeeds acts on the
  map from names to models as one update: ensuring a model maps its name to it, a rename maps the
  new name to the renamed model, keeping the old one, and a refused call changes nothing. Whatever
  sequence of creations and renames runs, a public name stays a model's or an alias's and never
  both, and a name that ever meant a model goes on meaning the same one.\<close>
theorem names_refine_directory:
  assumes "names_ok s"
  shows "(case ensure_model now i n s of (s', Inr r) \<Rightarrow> directory s' = (directory s)(n \<mapsto> md_id r)
         | (s', Inl e) \<Rightarrow> s' = s) \<and>
    (case rename_model now i n s of (s', Inr r) \<Rightarrow> md_id r = i \<and> directory s' = (directory s)(n \<mapsto> i)
         | (s', Inl e) \<Rightarrow> directory s' = directory s) \<and>
    names_ok (fold call_names cs s) \<and> directory s \<subseteq>\<^sub>m directory (fold call_names cs s)"
proof (intro conjI)
  obtain s1 r1 where 1: "ensure_model now i n s = (s1, r1)" by force
  show "case ensure_model now i n s of (s', Inr r) \<Rightarrow> directory s' = (directory s)(n \<mapsto> md_id r)
         | (s', Inl e) \<Rightarrow> s' = s"
    using ensure_model_directory [OF assms 1] 1 ensure_model_refused by (auto split: sum.splits)
  obtain s2 r2 where 2: "rename_model now i n s = (s2, r2)" by force
  show "case rename_model now i n s of (s', Inr r) \<Rightarrow> md_id r = i \<and> directory s' = (directory s)(n \<mapsto> i)
         | (s', Inl e) \<Rightarrow> directory s' = directory s"
    using rename_model_directory [OF assms 2] 2 by (auto split: sum.splits)
qed (use sqlite_names.runs_extend [OF assms] in \<open>simp_all add: call_names_run\<close>)

lemma names_ok_empty: "names_ok empty_store"
  using store_ok_empty by (simp add: names_ok_def names_disjoint_def) (simp add: empty_store_def)

theorem names_refine_directory_witness:
  "directory (fold call_names [RenameModel 2 ''m1'' ''large'']
     (fold call_names [EnsureModel 1 ''m1'' ''gpt''] empty_store)) ''gpt'' = Some ''m1''"
proof -
  let ?s = "fold call_names [EnsureModel 1 ''m1'' ''gpt''] empty_store"
  have "names_ok ?s"
    using names_refine_directory [OF names_ok_empty, of _ _ _ "[EnsureModel 1 ''m1'' ''gpt'']"] by blast
  then have "directory ?s \<subseteq>\<^sub>m directory (fold call_names [RenameModel 2 ''m1'' ''large''] ?s)"
    using names_refine_directory [of ?s _ _ _ "[RenameModel 2 ''m1'' ''large'']"] by blast
  then have "directory ?s ''gpt'' = Some j \<Longrightarrow>
      directory (fold call_names [RenameModel 2 ''m1'' ''large''] ?s) ''gpt'' = Some j" for j
    unfolding map_le_def by (metis domI)
  moreover have "directory ?s ''gpt'' = Some ''m1''" by code_simp
  ultimately show ?thesis .
qed

section \<open>The control key\<close>

definition stale_control :: "string \<Rightarrow> api_key \<Rightarrow> bool" where
  "stale_control h k \<longleftrightarrow> key_deleted_at k = None \<and> key_name k = Some CONTROL_USERNAME \<and> hash k \<noteq> h"

definition current_control :: "string \<Rightarrow> api_key \<Rightarrow> bool" where
  "current_control h k \<longleftrightarrow> key_deleted_at k = None \<and> key_name k = Some CONTROL_USERNAME \<and> hash k = h"

lemma sweep_control_keys_eq:
  "sweep_control_keys now h ks cur s =
     (fold (\<lambda>k. delete_api_key now (key_id k)) (filter (stale_control h) ks) s,
      case filter (current_control h) ks of [] \<Rightarrow> cur | xs \<Rightarrow> Some (last xs))"
  by (induction now h ks cur s rule: sweep_control_keys.induct)
     (auto simp: stale_control_def current_control_def split: list.split)

lemma fold_delete_keys:
  "k \<in> set (api_keys (fold (\<lambda>k. delete_api_key now (key_id k)) ks s)) \<and> key_deleted_at k = None \<longleftrightarrow>
     k \<in> set (api_keys s) \<and> key_deleted_at k = None \<and> key_id k \<notin> key_id ` set ks"
proof (induction ks arbitrary: s)
  case (Cons x ks)
  show ?case
    using Cons [of "delete_api_key now (key_id x) s"] live_after_delete_key [of k now "key_id x" s] by auto
qed simp

lemma fold_delete_frames [simp]:
  "users (fold (\<lambda>k. delete_api_key now (key_id k)) ks s) = users s"
  "map hash (api_keys (fold (\<lambda>k. delete_api_key now (key_id k)) ks s)) = map hash (api_keys s)"
  by (induction ks arbitrary: s) (simp_all add: delete_api_key_def map_update_where)

lemma fold_delete_ok: "store_ok s \<Longrightarrow> store_ok (fold (\<lambda>k. delete_api_key now (key_id k)) ks s)"
  by (induction ks arbitrary: s) (simp_all add: key_statements_ok(3))

lemma set_list_api_keys_for_user:
  "set (list_api_keys_for_user u s) = {k \<in> set (api_keys s). owner_user_id k = u \<and> key_deleted_at k = None}"
  by (simp add: list_api_keys_for_user_def)

text \<open>The owner the control key ends with: a live administrator of that name.\<close>
lemma control_owner_spec:
  assumes ok: "store_ok s" and run: "control_owner now f s = (s1, Inr u)"
  shows "store_ok s1 \<and> api_keys s1 = api_keys s \<and>
    (\<exists>v \<in> set (users s1). user_id v = user_id u \<and> username v = CONTROL_USERNAME \<and> user_role v = Admin \<and>
       user_deleted_at v = None)"
proof (cases "get_user_by_username CONTROL_USERNAME s")
  case None
  then have c: "create_user (control_user now f) s = Inr s1" and u: "u = control_user now f"
    using run by (auto simp: control_owner_def then_run_def keep_on_error_def split: sum.splits)
  have "s1 = s\<lparr>users := users s @ [u]\<rparr>" using c u by (auto simp: create_user_def split: if_splits)
  then show ?thesis using user_statements_ok(1) [OF ok c] u by (simp add: control_user_def)
next
  case (Some v)
  then have v: "v \<in> set (users s)" "username v = CONTROL_USERNAME" "user_deleted_at v = None"
    by (auto simp: get_user_by_username_def find_Some_iff)
  have s1: "u = v" "s1 = (if user_role v \<noteq> Admin then set_user_role (user_id v) Admin s else s)"
    using Some run by (auto simp: control_owner_def)
  have "v\<lparr>user_role := Admin\<rparr> \<in> set (users s1)" if "user_role v \<noteq> Admin"
    using v that by (auto simp: s1 set_user_role_def live_user_def set_update_where)
  then have "\<exists>w \<in> set (users s1). user_id w = user_id u \<and> username w = CONTROL_USERNAME \<and>
      user_role w = Admin \<and> user_deleted_at w = None"
    using v s1
    by (cases "user_role v = Admin") (auto intro: bexI [of _ v] bexI [of _ "v\<lparr>user_role := Admin\<rparr>"])
  moreover have "store_ok s1" using user_statements_ok(3) [OF ok] ok by (simp add: s1)
  moreover have "api_keys s1 = api_keys s" by (simp add: s1 set_user_role_def)
  ultimately show ?thesis by simp
qed

lemma ensure_control_key_cases:
  assumes "ensure_control_key sha now f tk s = (s', Inr k)"
  obtains u s1 s2 where "control_owner now (fst f) s = (s1, Inr u)"
    "s2 = fold (\<lambda>k. delete_api_key now (key_id k))
       (filter (stale_control (hash_token sha tk)) (list_api_keys_for_user (user_id u) s1)) s1"
    "(s' = s2 \<and> k \<in> set (list_api_keys_for_user (user_id u) s1) \<and> current_control (hash_token sha tk) k) \<or>
     (k = control_key sha now (snd f) (user_id u) tk \<and> create_api_key k s2 = Inr s')"
proof -
  let ?h = "hash_token sha tk"
  obtain u s1 where 1: "control_owner now (fst f) s = (s1, Inr u)"
    using assms by (auto simp: ensure_control_key_def then_run_def split: prod.splits sum.splits)
  let ?ks = "list_api_keys_for_user (user_id u) s1"
  define s2 where s2: "s2 = fold (\<lambda>k. delete_api_key now (key_id k)) (filter (stale_control ?h) ?ks) s1"
  show thesis
  proof (rule that [OF 1 s2])
    show "(s' = s2 \<and> k \<in> set ?ks \<and> current_control ?h k) \<or>
       (k = control_key sha now (snd f) (user_id u) tk \<and> create_api_key k s2 = Inr s')"
    proof (cases "filter (current_control ?h) ?ks")
      case Nil
      then show ?thesis using assms 1
        by (auto simp: ensure_control_key_def then_run_def sweep_control_keys_eq s2 Let_def keep_on_error_def
            split: sum.splits)
    next
      case (Cons x xs)
      then have "s' = s2" "k = last (filter (current_control ?h) ?ks)"
        using assms 1 by (simp_all add: ensure_control_key_def then_run_def sweep_control_keys_eq s2)
      moreover have "last (filter (current_control ?h) ?ks) \<in> set (filter (current_control ?h) ?ks)"
        using Cons by (intro last_in_set) simp
      ultimately show ?thesis by simp
    qed
  qed
qed

lemma control_key_columns [simp]:
  "hash (control_key sha now i u tk) = hash_token sha tk" "owner_user_id (control_key sha now i u tk) = u"
  "key_deleted_at (control_key sha now i u tk) = None"
  "key_name (control_key sha now i u tk) = Some CONTROL_USERNAME"
  by (simp_all add: control_key_def)

lemma create_api_key_rows: "create_api_key k s = Inr s' \<Longrightarrow> s' = s\<lparr>api_keys := api_keys s @ [stored_key k]\<rparr>"
  by (auto simp: create_api_key_def split: if_splits)

lemma create_api_key_changes [simp]: "create_api_key k s \<noteq> Inr s"
proof
  assume "create_api_key k s = Inr s"
  then have "api_keys s = api_keys s @ [stored_key k]"
    using arg_cong [OF create_api_key_rows, of k s s api_keys] by simp
  then show False by simp
qed

text \<open>The sweep revokes exactly the live control keys of the owner under other tokens.\<close>
lemma swept_keys:
  assumes ok: "store_ok s" and s2: "s2 = fold (\<lambda>k. delete_api_key now (key_id k))
       (filter (stale_control h) (list_api_keys_for_user u s)) s"
  shows "x \<in> set (api_keys s2) \<and> key_deleted_at x = None \<longleftrightarrow>
    x \<in> set (api_keys s) \<and> key_deleted_at x = None \<and>
    \<not> (owner_user_id x = u \<and> key_name x = Some CONTROL_USERNAME \<and> hash x \<noteq> h)"
proof -
  have "x = y" if "x \<in> set (api_keys s)" "y \<in> set (api_keys s)" "key_id x = key_id y" for y
    using that ok by (auto simp: store_ok_def keys_ok_def distinct_map inj_on_def)
  then have "key_id x \<in> key_id ` set (filter (stale_control h) (list_api_keys_for_user u s)) \<longleftrightarrow>
      owner_user_id x = u \<and> key_name x = Some CONTROL_USERNAME \<and> hash x \<noteq> h"
    if "x \<in> set (api_keys s)" "key_deleted_at x = None"
    using that by (auto simp: set_list_api_keys_for_user stale_control_def image_iff)
  then show ?thesis unfolding s2 fold_delete_keys by blast
qed

text \<open>Making a token the control key works and rotates: when it succeeds, the token authenticates as
  a live key of a live administrator called \<open>control\<close>, and no other control key of that account,
  issued under an earlier token, authenticates any more.\<close>
theorem ensure_control_key_rotates:
  assumes "store_step\<^sup>*\<^sup>* empty_store s" "ensure_control_key sha now f tk s = (s', Inr k)"
  shows "\<exists>a. verify_api_key (hash_token sha tk) s' = Some a \<and> key_name (auth_key a) = Some CONTROL_USERNAME \<and>
      username (auth_user a) = CONTROL_USERNAME \<and> user_role (auth_user a) = Admin \<and>
      (\<forall>h b. verify_api_key h s' = Some b \<and> key_name (auth_key b) = Some CONTROL_USERNAME \<and>
         owner_user_id (auth_key b) = user_id (auth_user a) \<longrightarrow> h = hash_token sha tk)"
proof -
  let ?h = "hash_token sha tk"
  have ok: "store_ok s" by (rule reachable_ok [OF assms(1)])
  from assms(2) obtain u s1 s2 where 1: "control_owner now (fst f) s = (s1, Inr u)"
    and s2: "s2 = fold (\<lambda>k. delete_api_key now (key_id k))
       (filter (stale_control ?h) (list_api_keys_for_user (user_id u) s1)) s1"
    and c: "(s' = s2 \<and> k \<in> set (list_api_keys_for_user (user_id u) s1) \<and> current_control ?h k) \<or>
     (k = control_key sha now (snd f) (user_id u) tk \<and> create_api_key k s2 = Inr s')"
    by (rule ensure_control_key_cases)
  obtain v where ok1: "store_ok s1" and v: "v \<in> set (users s1)" "user_id v = user_id u"
    "username v = CONTROL_USERNAME" "user_role v = Admin" "user_deleted_at v = None"
    using control_owner_spec [OF ok 1] by blast
  have "store_ok s2" unfolding s2 by (rule fold_delete_ok [OF ok1])
  then have ok': "store_ok s'" using c key_statements_ok(1) by blast
  have users: "users s' = users s1" using c by (auto simp: s2 dest: create_api_key_rows)
  have key: "(if s' = s2 then k else stored_key k) \<in> set (api_keys s') \<and> key_deleted_at k = None \<and> hash k = ?h \<and>
      key_name k = Some CONTROL_USERNAME \<and> owner_user_id k = user_id u"
    using c swept_keys [OF ok1 s2, of k]
    by (auto simp: set_list_api_keys_for_user current_control_def dest: create_api_key_rows)
  have swept: "hash x = ?h" if "x \<in> set (api_keys s')" "key_deleted_at x = None"
    "key_name x = Some CONTROL_USERNAME" "owner_user_id x = user_id u" for x
    using that c swept_keys [OF ok1 s2, of x] by (auto dest!: create_api_key_rows)
  let ?a = "\<lparr>auth_user = v, auth_key = if s' = s2 then k else stored_key k\<rparr>"
  show ?thesis
  proof (intro exI [of _ ?a] conjI allI impI)
    show "verify_api_key ?h s' = Some ?a"
      using key v users by (simp add: verify_api_key_iff [OF ok'])
    show "h = ?h" if "verify_api_key h s' = Some b \<and> key_name (auth_key b) = Some CONTROL_USERNAME \<and>
       owner_user_id (auth_key b) = user_id (auth_user ?a)" for h b
      using that swept [of "auth_key b"] v(2) by (simp add: verify_api_key_iff [OF ok'])
  qed (use key v in simp_all)
qed

theorem ensure_control_key_rotates_witness:
  "\<exists>s'. (\<exists>k. ensure_control_key id 9 (''u2'', ''k2'') ''b'' sample_store = (s', Inr k)) \<and>
     (\<exists>a. verify_api_key (to_hex ''b'') s' = Some a \<and> username (auth_user a) = ''control'' \<and>
        user_role (auth_user a) = Admin)"
proof -
  have "case ensure_control_key id 9 (''u2'', ''k2'') ''b'' sample_store of (s', r) \<Rightarrow> \<not> isl r"
    by code_simp
  then obtain s' k where run: "ensure_control_key id 9 (''u2'', ''k2'') ''b'' sample_store = (s', Inr k)"
    by (auto split: prod.splits) (metis sum.collapse(2))
  from ensure_control_key_rotates [OF sample_store_reachable run] run show ?thesis
    by (auto simp: hash_token_def CONTROL_USERNAME_def)
qed

lemma create_api_key_taken: "hash k \<in> hash ` set (api_keys s) \<Longrightarrow> create_api_key k s = Inl constraint_failed"
  by (simp add: create_api_key_def)

text \<open>A token that was rotated away cannot become the control key again: while the row of a
  revoked key holds its hash, making it the control key fails with the database's refusal, after
  the keys issued since were revoked.\<close>
theorem control_key_cannot_return:
  assumes "store_step\<^sup>*\<^sup>* empty_store s"
    and "k \<in> set (api_keys s)" "hash k = hash_token sha tk" "key_deleted_at k \<noteq> None"
  shows "\<exists>e. snd (ensure_control_key sha now f tk s) = Inl e"
proof -
  let ?h = "hash_token sha tk"
  have ok: "store_ok s" by (rule reachable_ok [OF assms(1)])
  show ?thesis
  proof (cases "control_owner now (fst f) s")
    case (Pair s1 r)
    show ?thesis
    proof (cases r)
      case (Inl e)
      then show ?thesis using Pair by (simp add: ensure_control_key_def then_run_def)
    next
      case (Inr u)
      let ?ks = "list_api_keys_for_user (user_id u) s1"
      have keys: "api_keys s1 = api_keys s" using control_owner_spec [OF ok, of now "fst f" s1 u] Pair Inr by blast
      have "x = k" if "x \<in> set (api_keys s)" "hash x = ?h" for x
        using that assms(2,3) ok by (auto simp: store_ok_def keys_ok_def distinct_map inj_on_def)
      then have none: "filter (current_control ?h) ?ks = []"
        using assms(4) by (auto simp: filter_empty_conv set_list_api_keys_for_user current_control_def keys)
      let ?s2 = "fold (\<lambda>k. delete_api_key now (key_id k)) (filter (stale_control ?h) ?ks) s1"
      have "hash ` set (api_keys ?s2) = hash ` set (api_keys s)"
        using fold_delete_frames(2) [of now "filter (stale_control ?h) ?ks" s1] keys by (metis list.set_map)
      then have "create_api_key (control_key sha now (snd f) (user_id u) tk) ?s2 = Inl constraint_failed"
        using assms(2,3) by (intro create_api_key_taken) (metis control_key_columns(1) imageI)
      then show ?thesis using Pair Inr none
        by (simp add: ensure_control_key_def then_run_def sweep_control_keys_eq keep_on_error_def Let_def)
    qed
  qed
qed

theorem control_key_cannot_return_witness:
  "\<exists>e. snd (ensure_control_key id 9 (''u2'', ''k2'') ''a'' (delete_api_key 5 ''k1'' sample_store)) = Inl e"
proof (rule control_key_cannot_return)
  show "store_step\<^sup>*\<^sup>* empty_store (delete_api_key 5 ''k1'' sample_store)"
    using sample_store_reachable store_step.intros(11) by (rule rtranclp.rtrancl_into_rtrancl)
  show "hd (api_keys (delete_api_key 5 ''k1'' sample_store)) \<in> set (api_keys (delete_api_key 5 ''k1'' sample_store))"
    by (simp add: sample_store_def delete_api_key_def update_where_def)
  show "hash (hd (api_keys (delete_api_key 5 ''k1'' sample_store))) = hash_token id ''a''"
    by (simp add: sample_store_def delete_api_key_def update_where_def)
  show "key_deleted_at (hd (api_keys (delete_api_key 5 ''k1'' sample_store))) \<noteq> None"
    by (simp add: sample_store_def delete_api_key_def update_where_def control_key_def stored_key_def)
qed

section \<open>Seeding\<close>

lemma ensure_model_after:
  assumes "ensure_model now i n s = (s', Inr r)"
  shows "alias_owner n s' = None" "get_model_by_name n s' = Some r"
    "provider_rows s' = provider_rows s" "deployment_rows s' = deployment_rows s"
proof -
  have "alias_owner n s' = None \<and> get_model_by_name n s' = Some r \<and>
    provider_rows s' = provider_rows s \<and> deployment_rows s' = deployment_rows s"
    using assms
  proof (cases rule: ensure_model_cases)
    case (known r')
    then show ?thesis using assms by (cases "alias_owner n s") (auto simp: ensure_model_def Let_def)
  next
    case (fresh r')
    have "find (\<lambda>r. md_name r = n) (model_rows s) = None" using fresh(2) by (simp add: find_key_None)
    then have "find (\<lambda>r. md_name r = n) (model_rows s @ [r']) = Some r'"
      using fresh(4) by (simp add: find_snoc)
    moreover have "alias_owner n s = None" using fresh(1) by (simp add: alias_owner_None)
    ultimately show ?thesis using fresh by (simp add: get_model_by_name_def alias_owner_def)
  qed simp
  then show "alias_owner n s' = None" "get_model_by_name n s' = Some r"
    "provider_rows s' = provider_rows s" "deployment_rows s' = deployment_rows s" by auto
qed

lemma ensure_model_known: "alias_owner n s = None \<Longrightarrow> get_model_by_name n s = Some r \<Longrightarrow> ensure_model now i n s = (s, Inr r)"
  by (simp add: ensure_model_def)

lemma ensure_provider_after:
  assumes "ensure_provider now i n s = (s', Inr r)"
  shows "get_provider_by_name n s' = Some r" "model_rows s' = model_rows s" "alias_rows s' = alias_rows s"
    "deployment_rows s' = deployment_rows s"
proof -
  have "get_provider_by_name n s' = Some r \<and> model_rows s' = model_rows s \<and> alias_rows s' = alias_rows s \<and>
    deployment_rows s' = deployment_rows s"
    using assms by (auto simp: ensure_provider_def get_provider_by_name_def Let_def find_snoc
        split: option.splits if_splits)
  then show "get_provider_by_name n s' = Some r" "model_rows s' = model_rows s" "alias_rows s' = alias_rows s"
    "deployment_rows s' = deployment_rows s" by auto
qed

lemma ensure_provider_known: "get_provider_by_name n s = Some r \<Longrightarrow> ensure_provider now i n s = (s, Inr r)"
  by (simp add: ensure_provider_def)

lemma then_run_Inr:
  assumes "then_run r k = (s', Inr y)"
  obtains s x where "r = (s, Inr x)" "k x s = (s', Inr y)"
  using assms by (cases r; cases "snd r") (auto simp: then_run_def)

text \<open>The rows a deployment belongs to, and a live deployment of that identity.\<close>
definition seeded :: "new_deployment \<Rightarrow> sqlite_store \<Rightarrow> bool" where
  "seeded nd s \<longleftrightarrow> alias_owner (nd_model_name nd) s = None \<and>
     (\<exists>mo pr. get_model_by_name (nd_model_name nd) s = Some mo \<and>
        get_provider_by_name (nd_provider_name nd) s = Some pr \<and>
        list_ex (\<lambda>d. deployment_identity d = (md_id mo, pv_id pr, nd_upstream_model nd) \<and> dp_deleted_at d = None)
          (deployment_rows s))"

lemma seed_seeded: "seeded nd s \<Longrightarrow> seed_deployment now ids ids' nd s = (s, Inr False)"
  by (auto simp: seeded_def seed_deployment_def then_run_def ensure_model_known ensure_provider_known)

lemma create_deployment_seeded:
  assumes "create_deployment now ids nd s = (s', Inr r)"
  shows "seeded nd s' \<and> get_deployment (snd (snd ids)) s' = Some r"
proof -
  obtain im ip i where ids: "ids = (im, ip, i)" by (cases ids) auto
  from assms obtain s1 mo s2 pr s3 where
    1: "ensure_model now im (nd_model_name nd) s = (s1, Inr mo)" and
    2: "ensure_provider now ip (nd_provider_name nd) s1 = (s2, Inr pr)" and
    3: "insert_deployment now i nd mo pr s2 = Inr s3" and
    4: "s' = s3" "get_deployment i s3 = Some r"
    unfolding create_deployment_def ids prod.case
    by (auto elim!: then_run_Inr simp: keep_on_error_def ok_or_def split: sum.splits option.splits)
  have s3: "model_rows s3 = model_rows s2" "provider_rows s3 = provider_rows s2" "alias_rows s3 = alias_rows s2"
    "list_ex (\<lambda>d. deployment_identity d = (md_id mo, pv_id pr, nd_upstream_model nd) \<and> dp_deleted_at d = None)
       (deployment_rows s3)"
    using 3 by (auto simp: insert_deployment_def Let_def deployment_identity_def split: if_splits)
  then show ?thesis
    using ensure_model_after [OF 1] ensure_provider_after [OF 2] 4
    by (auto simp: seeded_def ids alias_owner_def get_model_by_name_def get_provider_by_name_def)
qed

text \<open>Seeding is idempotent: once a deployment was seeded, seeding it again finds it and leaves the
  store exactly as it is, and the first seeding creates a deployment that reads back live.\<close>
theorem seed_deployment_idempotent:
  assumes "seed_deployment now ids ids' nd s = (s', Inr b)"
  shows "seed_deployment now2 jds jds' nd s' = (s', Inr False) \<and>
    (b \<longrightarrow> (\<exists>r. get_deployment (snd (snd ids')) s' = Some r))"
proof -
  from assms obtain s1 mo s2 pr where
    1: "ensure_model now (fst ids) (nd_model_name nd) s = (s1, Inr mo)" and
    2: "ensure_provider now (snd ids) (nd_provider_name nd) s1 = (s2, Inr pr)" and
    3: "(if list_ex (\<lambda>d. deployment_identity d = (md_id mo, pv_id pr, nd_upstream_model nd) \<and>
            dp_deleted_at d = None) (deployment_rows s2)
       then (s2, Inr False)
       else then_run (create_deployment now ids' nd s2) (\<lambda>_ s3. (s3, Inr True))) = (s', Inr b)"
    unfolding seed_deployment_def by (elim then_run_Inr) blast
  have rows: "alias_owner (nd_model_name nd) s2 = None" "get_model_by_name (nd_model_name nd) s2 = Some mo"
    "get_provider_by_name (nd_provider_name nd) s2 = Some pr"
    using ensure_model_after [OF 1] ensure_provider_after [OF 2]
    by (simp_all add: alias_owner_def get_model_by_name_def)
  have "seeded nd s' \<and> (b \<longrightarrow> (\<exists>r. get_deployment (snd (snd ids')) s' = Some r))"
  proof (cases "list_ex (\<lambda>d. deployment_identity d = (md_id mo, pv_id pr, nd_upstream_model nd) \<and>
            dp_deleted_at d = None) (deployment_rows s2)")
    case True
    then show ?thesis using 3 rows by (auto simp: seeded_def)
  next
    case False
    then obtain r where "create_deployment now ids' nd s2 = (s', Inr r)"
      using 3 by (auto elim!: then_run_Inr)
    then show ?thesis using create_deployment_seeded by blast
  qed
  then show ?thesis by (simp add: seed_seeded)
qed

theorem seed_deployment_idempotent_witness:
  "\<exists>s'. seed_deployment 1 (''m'', ''p'') (''n'', ''q'', ''d'') sample_new_deployment empty_store = (s', Inr True) \<and>
     seed_deployment 2 (''x'', ''y'') (''n'', ''q'', ''e'') sample_new_deployment s' = (s', Inr False)"
proof -
  have "snd (seed_deployment 1 (''m'', ''p'') (''n'', ''q'', ''d'') sample_new_deployment empty_store) = Inr True"
    by code_simp
  then obtain s' where
    "seed_deployment 1 (''m'', ''p'') (''n'', ''q'', ''d'') sample_new_deployment empty_store = (s', Inr True)"
    by (metis prod.collapse)
  then show ?thesis using seed_deployment_idempotent by blast
qed

section \<open>The usage report\<close>

lemma sum_list_pick:
  "distinct gs \<Longrightarrow> x \<in> set gs \<Longrightarrow>
     sum_list (map (\<lambda>g. (if x = g then c else 0) + h g) gs) = (c :: int) + sum_list (map h gs)"
proof (induction gs)
  case (Cons g gs)
  have "sum_list (map (\<lambda>g. (if x = g then c else 0) + h g) gs) = sum_list (map h gs)" if "x \<notin> set gs"
    using that by (intro arg_cong [of _ _ sum_list] map_cong) auto
  with Cons show ?case by auto
qed simp

lemma sum_over_groups:
  "distinct gs \<Longrightarrow> key ` set rs \<subseteq> set gs \<Longrightarrow>
     sum_list (map (\<lambda>g. sum_list (map f (filter (\<lambda>r. key r = g) rs))) gs) = (sum_list (map f rs) :: int)"
proof (induction rs)
  case (Cons r rs)
  have "(\<lambda>g. sum_list (map f (filter (\<lambda>r. key r = g) (r # rs)))) =
      (\<lambda>g. (if key r = g then f r else 0) + sum_list (map f (filter (\<lambda>r. key r = g) rs)))"
    by auto
  with Cons show ?case by (simp only: sum_list_pick) (simp add: sum_list_pick)
qed (simp add: sum_list_0)

text \<open>The usage report accounts for every turn once: over the rows of a report, the requests are the
  turns recorded in the time range, and the errors, tokens and cost are theirs; no two rows are for
  the same day, key, user, model and surface.\<close>
theorem usage_report_accounts:
  "(let rs = filter (\<lambda>r. from \<le> t_created_at r \<and> t_created_at r < to) (request_telemetry s);
        report = usage_report day_of from to s
    in sum_list (map us_requests report) = int (length rs) \<and>
       sum_list (map us_errors report) = int (length (filter t_is_error rs)) \<and>
       sum_list (map us_input_tokens report) = sum_list (map t_input_tokens rs) \<and>
       sum_list (map us_output_tokens report) = sum_list (map t_output_tokens rs) \<and>
       sum_list (map us_cost_micros report) = sum_list (map t_cost_micros rs) \<and>
       distinct (map (\<lambda>u. (us_day u, us_api_key_id u, us_user_id u, us_model u, us_surface u)) report))"
proof -
  define rs where "rs = filter (\<lambda>r. from \<le> t_created_at r \<and> t_created_at r < to) (request_telemetry s)"
  define gs where "gs = sort_key (\<lambda>(d, k, u, m, srf). (d, k, m)) (sort (remdups (map (usage_key day_of) rs)))"
  define part where "part g = filter (\<lambda>r. usage_key day_of r = g) rs" for g
  have report: "usage_report day_of from to s = map (\<lambda>g. usage_group g (part g)) gs"
    by (simp add: usage_report_def Let_def rs_def gs_def part_def)
  have gs: "distinct gs" "usage_key day_of ` set rs \<subseteq> set gs" by (simp_all add: gs_def)
  have total: "sum_list (map (\<lambda>g. sum_list (map f (part g))) gs) = sum_list (map f rs)" for f :: "_ \<Rightarrow> int"
    unfolding part_def by (rule sum_over_groups [OF gs])
  have count: "int (length (filter q xs)) = sum_list (map (\<lambda>x. if q x then 1 else 0) xs)"
    for q and xs :: "telemetry_record list" by (induction xs) auto
  have len: "int (length xs) = sum_list (map (\<lambda>_. 1) xs)" for xs :: "telemetry_record list"
    by (induction xs) auto
  have fields: "us_requests (usage_group g xs) = sum_list (map (\<lambda>_. 1) xs)"
    "us_errors (usage_group g xs) = sum_list (map (\<lambda>x. if t_is_error x then 1 else 0) xs)"
    "us_input_tokens (usage_group g xs) = sum_list (map t_input_tokens xs)"
    "us_output_tokens (usage_group g xs) = sum_list (map t_output_tokens xs)"
    "us_cost_micros (usage_group g xs) = sum_list (map t_cost_micros xs)"
    "(us_day (usage_group g xs), us_api_key_id (usage_group g xs), us_user_id (usage_group g xs),
      us_model (usage_group g xs), us_surface (usage_group g xs)) = g" for g xs
    by (simp_all only: usage_group_def len [symmetric] count [symmetric]) (simp_all split: prod.split)
  show ?thesis
    unfolding Let_def rs_def [symmetric] report map_map comp_def fields total
    using gs(1) by (simp add: count flip: len)
qed

end
