(* ===== verification/Admission.thy ===== *)
theory Admission
  imports Rate_Limiter Gateway_Media Store_Laws
begin

text \<open>
  The HTTP surface of inference and discovery: \<open>crates/yb-server/src/lib.rs\<close> and \<open>state.rs\<close>.

  A request is a list of headers and a body; routing a path to its handler is the \<open>axum\<close>
  package's. The server's state is the store, the limiter and the world of the gateway; SHA-256,
  JSON text and the debug form of a duration are arguments (\<open>app_config\<close>). What the gateway
  writes to the store and the token meter while it serves a turn are effects of its world, which
  \<open>settle\<close> carries out. A panic (a period without a start, which no valid date gives) ends a
  handler without an answer, as a hang-up does.
\<close>

section \<open>Responses\<close>

datatype ('d, 'e) server_response =
    JsonResponse "16 word" header_list json
  | GatewayAnswer "('d, 'e) gateway_response"

record ('c, 'd, 'e) app_config =
  app_gateway :: "('c, 'd, 'e) gateway"
  app_media :: media_ops
  sha256 :: "bytes \<Rightarrow> bytes"
  json_from_slice :: "bytes \<Rightarrow> string + json"
  json_to_vec :: "json \<Rightarrow> bytes"
  duration_debug :: "duration \<Rightarrow> string"
  budgets_enabled :: bool
  ratelimit_enabled :: bool

text \<open>The \<open>Display\<close> form of an error.\<close>
fun error_display :: "(duration \<Rightarrow> string) \<Rightarrow> error \<Rightarrow> string" where
  "error_display dd (NotFound m) = ''not found: '' @ m"
| "error_display dd (BadRequest m) = ''bad request: '' @ m"
| "error_display dd (Unauthorized m) = ''unauthorized: '' @ m"
| "error_display dd (Forbidden m) = ''forbidden: '' @ m"
| "error_display dd (Conflict m) = ''conflict: '' @ m"
| "error_display dd (BudgetExceeded m) = ''budget exceeded: '' @ m"
| "error_display dd (RateLimited r _) = ''rate limited: retry after '' @ dd r"
| "error_display dd (NoEligibleProvider m) = ''no eligible provider for model '' @ m"
| "error_display dd (Upstream p st m) = ''upstream '' @ p @ '' returned '' @ show_nat (unat st) @ '': '' @ m"
| "error_display dd (ConnectionLost m) = ''upstream connection lost: '' @ m"
| "error_display dd (Storage m) = ''storage error: '' @ m"
| "error_display dd (Crypto m) = ''crypto error: '' @ m"
| "error_display dd (Config m) = ''config error: '' @ m"
| "error_display dd (Wire m) = ''wire translation error: '' @ m"
| "error_display dd (Internal m) = ''internal error: '' @ m"

text \<open>\<open>StatusCode::from_u16\<close> takes three digits; the code falls back to 500.\<close>
definition status_code :: "16 word \<Rightarrow> 16 word" where
  "status_code s = (if 100 \<le> s \<and> s < 1000 then s else 500)"

definition error_response :: "('c, 'd, 'e) app_config \<Rightarrow> error \<Rightarrow> ('d, 'e) server_response" where
  "error_response cfg e =
     JsonResponse (status_code (http_status e))
       (case e of RateLimited retry _ \<Rightarrow> [(''retry-after'', show_nat (nat (max \<lfloor>retry\<rfloor> 1)))] | _ \<Rightarrow> [])
       (JObj [(''error'', JObj [(''code'', JStr (code e)), (''message'', JStr (error_display (duration_debug cfg) e))])])"

definition ok_json :: "json \<Rightarrow> ('d, 'e) server_response" where
  "ok_json j = JsonResponse 200 [] j"

fun build_response :: "('d, 'e) gateway_response \<Rightarrow> ('d, 'e) gateway_response" where
  "build_response (FullResponse s h b) = FullResponse (status_code s) h b"
| "build_response (StreamResponse s h b) = StreamResponse (status_code s) h b"
| "build_response (OnceResponse s h b) = OnceResponse (status_code s) h b"

section \<open>Credentials and headers\<close>

text \<open>A header as text: its first value, when that is visible ASCII. Names are in lower case.\<close>
definition visible_ascii :: "char \<Rightarrow> bool" where
  "visible_ascii c \<longleftrightarrow> (32 \<le> byte_of c \<and> byte_of c < 127) \<or> byte_of c = 9"

definition header_str :: "header_list \<Rightarrow> string \<Rightarrow> string option" where
  "header_str hs name =
     (case find (\<lambda>(n, _). n = name) hs of
        None \<Rightarrow> None | Some (_, v) \<Rightarrow> if list_all visible_ascii v then Some v else None)"

definition bearer_token :: "header_list \<Rightarrow> string option" where
  "bearer_token hs =
     (case Option.bind (header_str hs ''authorization'')
         (\<lambda>v. map_option (\<lambda>stripped. trim (drop (length v - length stripped) v))
            (strip_prefix (to_ascii_lowercase v) ''bearer '')) of
        Some t \<Rightarrow> Some t
      | None \<Rightarrow>
          (case header_str hs ''x-api-key'' of
             Some v \<Rightarrow> Some (trim v)
           | None \<Rightarrow>
               (case header_str hs ''x-goog-api-key'' of
                  Some v \<Rightarrow> Some (trim v)
                | None \<Rightarrow> map_option trim (header_str hs ''x-gateway-key''))))"

definition hex_sha256 :: "('c, 'd, 'e) app_config \<Rightarrow> string \<Rightarrow> string" where
  "hex_sha256 cfg tk = to_hex (sha256 cfg tk)"

definition is_ascii_hexdigit :: "char \<Rightarrow> bool" where
  "is_ascii_hexdigit c \<longleftrightarrow>
     (let b = byte_of c in (48 \<le> b \<and> b \<le> 57) \<or> (65 \<le> b \<and> b \<le> 70) \<or> (97 \<le> b \<and> b \<le> 102))"

definition is_ascii_alphanumeric :: "char \<Rightarrow> bool" where
  "is_ascii_alphanumeric c \<longleftrightarrow>
     (let b = byte_of c in (48 \<le> b \<and> b \<le> 57) \<or> (65 \<le> b \<and> b \<le> 90) \<or> (97 \<le> b \<and> b \<le> 122))"

definition hex_of_length :: "string \<Rightarrow> nat \<Rightarrow> bool" where
  "hex_of_length s n \<longleftrightarrow> length s = n \<and> list_all is_ascii_hexdigit s"

definition parse_traceparent :: "string \<Rightarrow> (string \<times> string) option" where
  "parse_traceparent v =
     (case split_chars (\<lambda>c. c = CHR ''-'') (trim v) of
        version # trace # parent # flags # _ \<Rightarrow>
          if hex_of_length version 2 \<and> version \<noteq> ''ff'' \<and>
             hex_of_length trace 32 \<and> list_ex (\<lambda>c. c \<noteq> CHR ''0'') trace \<and>
             hex_of_length parent 16 \<and> list_ex (\<lambda>c. c \<noteq> CHR ''0'') parent \<and> hex_of_length flags 2
          then Some (to_ascii_lowercase trace, to_ascii_lowercase parent) else None
      | _ \<Rightarrow> None)"

definition plain_word :: "string \<Rightarrow> string \<Rightarrow> bool" where
  "plain_word s also \<longleftrightarrow> s \<noteq> [] \<and> length s \<le> 128 \<and>
     list_all (\<lambda>c. is_ascii_alphanumeric c \<or> c \<in> set ''-_.'' \<or> c \<in> set also) s"

fun tag_pairs :: "string list \<Rightarrow> json_object \<Rightarrow> json_object option" where
  "tag_pairs [] tags = Some tags"
| "tag_pairs (pair # pairs) tags =
     (case split_once pair ''='' of
        None \<Rightarrow> None
      | Some (k, v) \<Rightarrow>
          (let k = trim k; v = trim v
           in if \<not> plain_word k '''' \<or> \<not> plain_word v '':'' then None
              else tag_pairs pairs (jinsert k (JStr v) tags)))"

definition parse_tags :: "(json \<Rightarrow> string) \<Rightarrow> string \<Rightarrow> string option" where
  "parse_tags to_string value =
     (case tag_pairs (filter (\<lambda>pair. trim pair \<noteq> []) (split_chars (\<lambda>c. c = CHR '','') value)) [] of
        None \<Rightarrow> None
      | Some tags \<Rightarrow> if tags = [] then None else Some (to_string (JObj tags)))"

section \<open>Access\<close>

definition authenticate :: "('c, 'd, 'e) app_config \<Rightarrow> header_list \<Rightarrow> sqlite_store \<Rightarrow> key_auth result" where
  "authenticate cfg hs s =
     (case bearer_token hs of
        None \<Rightarrow> Inl (Unauthorized ''missing bearer credential'')
      | Some tk \<Rightarrow>
          (case verify_api_key (hex_sha256 cfg tk) s of
             None \<Rightarrow> Inl (Unauthorized ''invalid api key'')
           | Some a \<Rightarrow>
               if has_scope (auth_key a) InferenceScope then Inr a
               else Inl (Forbidden ''this key lacks the inference scope'')))"

definition effective_access :: "sqlite_store \<Rightarrow> key_auth \<Rightarrow> access_policy" where
  "effective_access s a =
     (case Option.bind (team_id (auth_key a)) (\<lambda>i. get_team i s) of
        Some t \<Rightarrow> merge (access (auth_key a)) (tm_access t)
      | None \<Rightarrow> access (auth_key a))"

definition discovery_access ::
  "('c, 'd, 'e) app_config \<Rightarrow> header_list \<Rightarrow> sqlite_store \<Rightarrow> access_policy result" where
  "discovery_access cfg hs s =
     (case authenticate cfg hs s of Inl e \<Rightarrow> Inl e | Inr a \<Rightarrow> Inr (effective_access s a))"

definition resolve_limits :: "key_auth \<Rightarrow> limits" where
  "resolve_limits a =
     (let k = auth_key a; u = auth_user a;
          pick = (\<lambda>x y. case x of Some n \<Rightarrow> n | None \<Rightarrow> (case y of Some n \<Rightarrow> n | None \<Rightarrow> 0))
      in \<lparr>rpm = pick (rpm_limit k) (user_rpm_limit u), tpm = pick (tpm_limit k) (user_tpm_limit u),
          max_concurrent = pick (key_max_concurrent k) (user_max_concurrent u)\<rparr>)"

section \<open>Discovery\<close>

record listed_model =
  lm_name :: string
  lm_mode :: string
  lm_vision :: bool

fun mode_of :: "upstream_format \<Rightarrow> string" where
  "mode_of (Chat _) = ''chat''"
| "mode_of (Embed _) = ''embedding''"
| "mode_of (Media OpenaiImages) = ''image_generation''"
| "mode_of (Media OpenaiSpeech) = ''audio_speech''"
| "mode_of (Media OpenaiTranscription) = ''audio_transcription''"
| "mode_of (Media OpenaiVideos) = ''video_generation''"

text \<open>The first listed model of the name takes the vision of a further deployment.\<close>
fun add_vision :: "string \<Rightarrow> bool \<Rightarrow> listed_model list \<Rightarrow> listed_model list" where
  "add_vision n v [] = []"
| "add_vision n v (x # xs) =
     (if lm_name x = n then x\<lparr>lm_vision := lm_vision x \<or> v\<rparr> # xs else x # add_vision n v xs)"

fun list_loop :: "access_policy \<Rightarrow> deployment_record list \<Rightarrow> listed_model list \<Rightarrow> listed_model list" where
  "list_loop p [] out = out"
| "list_loop p (d # ds) out =
     (if \<not> permits_model p (model_id d) \<or> \<not> permits_provider p (provider_id d) then list_loop p ds out
      else if list_ex (\<lambda>x. lm_name x = model_name d) out
      then list_loop p ds (add_vision (model_name d) (vision (extra d)) out)
      else list_loop p ds (out @ [\<lparr>lm_name = model_name d, lm_mode = mode_of (upstream_format d),
             lm_vision = vision (extra d)\<rparr>]))"

definition listed_models :: "sqlite_store \<Rightarrow> access_policy \<Rightarrow> listed_model list" where
  "listed_models s p = list_loop p (list_deployments s) []"

definition model_names :: "sqlite_store \<Rightarrow> access_policy \<Rightarrow> string list" where
  "model_names s p = map lm_name (listed_models s p)"

definition models_openai :: "('c, 'd, 'e) app_config \<Rightarrow> header_list \<Rightarrow> sqlite_store \<Rightarrow> ('d, 'e) server_response" where
  "models_openai cfg hs s =
     (case discovery_access cfg hs s of
        Inl e \<Rightarrow> error_response cfg e
      | Inr p \<Rightarrow>
          ok_json (JObj [(''object'', JStr ''list''),
            (''data'', JArr (map (\<lambda>x. JObj [(''id'', JStr (lm_name x)), (''object'', JStr ''model''),
               (''created'', jnat 0), (''owned_by'', JStr ''gateway''), (''mode'', JStr (lm_mode x)),
               (''supports_vision'', JBool (lm_vision x))]) (listed_models s p)))]))"

definition json_opt_str :: "string option \<Rightarrow> json" where
  "json_opt_str x = (case x of Some v \<Rightarrow> JStr v | None \<Rightarrow> JNull)"

definition models_anthropic ::
  "('c, 'd, 'e) app_config \<Rightarrow> header_list \<Rightarrow> sqlite_store \<Rightarrow> ('d, 'e) server_response" where
  "models_anthropic cfg hs s =
     (case discovery_access cfg hs s of
        Inl e \<Rightarrow> error_response cfg e
      | Inr p \<Rightarrow>
          (let ids = model_names s p
           in ok_json (JObj [(''data'', JArr (map (\<lambda>i. JObj [(''type'', JStr ''model''), (''id'', JStr i),
                  (''display_name'', JStr i), (''created_at'', JStr ''1970-01-01T00:00:00Z'')]) ids)),
                (''has_more'', JBool False),
                (''first_id'', json_opt_str (if ids = [] then None else Some (hd ids))),
                (''last_id'', json_opt_str (if ids = [] then None else Some (last ids)))])))"

definition gemini_model :: "string \<Rightarrow> json" where
  "gemini_model i = JObj [(''name'', JStr (''models/'' @ i)), (''baseModelId'', JStr i),
     (''supportedGenerationMethods'', JArr [JStr ''generateContent'', JStr ''streamGenerateContent''])]"

definition models_gemini :: "sqlite_store \<Rightarrow> access_policy \<Rightarrow> json" where
  "models_gemini s p = JObj [(''models'', JArr (map gemini_model (model_names s p)))]"

definition gemini_models ::
  "('c, 'd, 'e) app_config \<Rightarrow> string \<Rightarrow> header_list \<Rightarrow> sqlite_store \<Rightarrow> ('d, 'e) server_response" where
  "gemini_models cfg path hs s =
     (let p = trim_end_char (CHR ''/'') path;
          is_list = (p = ''models'' \<or> p = ''v1beta/models'');
          single = (case strip_prefix p ''models/'' of
             Some i \<Rightarrow> if CHR '':'' \<in> set i then None else Some i | None \<Rightarrow> None);
          missing = error_response cfg (NotFound (''Gemini discovery path /v1beta/'' @ path))
      in if \<not> is_list \<and> single = None then missing
         else
           (case discovery_access cfg hs s of
              Inl e \<Rightarrow> error_response cfg e
            | Inr acc \<Rightarrow>
                if is_list then ok_json (models_gemini s acc)
                else
                  (let i = (case single of Some i \<Rightarrow> i | None \<Rightarrow> [])
                   in if i \<in> set (model_names s acc) then ok_json (gemini_model i) else missing)))"

section \<open>Admission\<close>

record 'c server =
  store :: sqlite_store
  limiter :: limiter
  gw_world :: "'c world"

datatype call = Turn upstream_format bytes | Video string video_lookup

definition server_now :: "('c, 'd, 'e) app_config \<Rightarrow> 'c server \<Rightarrow> timestamp \<times> 'c server" where
  "server_now cfg sv =
     (let (t, w) = read_now (app_gateway cfg) (gw_world sv) in (t, sv\<lparr>gw_world := w\<rparr>))"

text \<open>The preflight of the limiter: the guard of the slot taken, or the refusal.\<close>
definition rate_admit ::
  "('c, 'd, 'e) app_config \<Rightarrow> key_auth \<Rightarrow> 'c server \<Rightarrow> concurrency_guard result \<times> 'c server" where
  "rate_admit cfg a sv =
     (if \<not> ratelimit_enabled cfg then (Inr noop, sv)
      else
        (let (t, sv) = server_now cfg sv;
             lim = resolve_limits a; sc = key_id (auth_key a);
             ((dec, guard), l) = check (limiter sv) sc lim t;
             sv = sv\<lparr>limiter := l\<rparr>
         in if \<not> allowed dec
            then (Inl (RateLimited (retry_after dec) (rate_reason dec)), sv\<lparr>limiter := guard_drop guard (limiter sv)\<rparr>)
            else
              (let ((exhausted, retry), l) = tpm_exhausted (limiter sv) sc lim t;
                   sv = sv\<lparr>limiter := l\<rparr>
               in if exhausted
                  then (Inl (RateLimited retry ''tpm''), sv\<lparr>limiter := guard_drop guard (limiter sv)\<rparr>)
                  else (Inr guard, sv))))"

definition show_int :: "int \<Rightarrow> string" where
  "show_int n = (if n < 0 then CHR ''-'' # show_nat (nat (- n)) else show_nat (nat n))"

text \<open>Every budget of the subjects a turn's spend is attributed to.\<close>
definition budgets_of :: "sqlite_store \<Rightarrow> key_auth \<Rightarrow> budget list" where
  "budgets_of s a =
     list_budgets KeySubject (key_id (auth_key a)) s @
     list_budgets UserSubject (owner_user_id (auth_key a)) s @
     (case team_id (auth_key a) of Some t \<Rightarrow> list_budgets TeamSubject t s | None \<Rightarrow> [])"

text \<open>\<open>None\<close> is the panic of a period without a start.\<close>
fun check_budgets :: "calendar \<Rightarrow> sqlite_store \<Rightarrow> timestamp \<Rightarrow> budget list \<Rightarrow> unit result option" where
  "check_budgets cal s t [] = Some (Inr ())"
| "check_budgets cal s t (b # bs) =
     (if \<not> enabled b \<or> budget_action b \<noteq> Block then check_budgets cal s t bs
      else
        (case bucket_start cal (budget_period b) t of
           None \<Rightarrow> None
         | Some start \<Rightarrow>
             (case store_period_spend cal (budget_subject_type b) (budget_subject_id b) (budget_period b) start s of
                None \<Rightarrow> None
              | Some spent \<Rightarrow>
                  if spent \<ge> hard_limit_micros b
                  then Some (Inl (BudgetExceeded (period_as_str (budget_period b) @ '' budget for '' @
                    subject_type_as_str (budget_subject_type b) @ '' exhausted ('' @ show_int spent @
                    '' / '' @ show_int (hard_limit_micros b) @ '' micros)'')))
                  else check_budgets cal s t bs)))"

definition enforce_budgets ::
  "('c, 'd, 'e) app_config \<Rightarrow> key_auth \<Rightarrow> 'c server \<Rightarrow> unit result option \<times> 'c server" where
  "enforce_budgets cfg a sv =
     (let bs = budgets_of (store sv) a; (t, sv) = server_now cfg sv
      in (check_budgets (calendar (app_gateway cfg)) (store sv) t bs, sv))"

definition trace_of :: "header_list \<Rightarrow> string option \<times> string option" where
  "trace_of hs =
     (case Option.bind (header_str hs ''traceparent'') parse_traceparent of
        Some (trace, parent) \<Rightarrow> (Some trace, Some parent)
      | None \<Rightarrow> (header_str hs ''x-trace-id'', None))"

definition build_ctx ::
  "('c, 'd, 'e) app_config \<Rightarrow> header_list \<Rightarrow> key_auth \<Rightarrow> string \<Rightarrow> sqlite_store \<Rightarrow> request_ctx" where
  "build_ctx cfg hs a request_id s =
     \<lparr>ctx_api_key = Some (auth_key a), ctx_user_id = Some (owner_user_id (auth_key a)),
      ctx_team_id = team_id (auth_key a), ctx_request_id = request_id,
      ctx_trace_id = fst (trace_of hs), ctx_parent_span_id = snd (trace_of hs),
      ctx_tags = Option.bind (header_str hs ''x-gateway-tags'')
        (parse_tags (json_to_string (wire (app_gateway cfg)))),
      ctx_excluded_model_ids = [], ctx_excluded_provider_ids = [],
      ctx_access = effective_access s a,
      ctx_token_meter = (ratelimit_enabled cfg \<and> tpm (resolve_limits a) > 0)\<rparr>"

text \<open>What the gateway wrote while it served: telemetry, spend, and the tokens of the meter.\<close>
fun settle_effect :: "('c, 'd, 'e) app_config \<Rightarrow> key_auth \<Rightarrow> effect \<Rightarrow> 'c server \<Rightarrow> 'c server" where
  "settle_effect cfg a (InsertTelemetry r) sv =
     (case insert_telemetry r (store sv) of Inl _ \<Rightarrow> sv | Inr s \<Rightarrow> sv\<lparr>store := s\<rparr>)"
| "settle_effect cfg a (UpsertRollup d) sv = sv\<lparr>store := store_upsert_rollup d (store sv)\<rparr>"
| "settle_effect cfg a (ChargeTokens n) sv =
     (let (t, sv) = server_now cfg sv
      in sv\<lparr>limiter := snd (charge_tokens (limiter sv) (key_id (auth_key a)) (resolve_limits a) n t)\<rparr>)"
| "settle_effect cfg a _ sv = sv"

definition settle :: "('c, 'd, 'e) app_config \<Rightarrow> key_auth \<Rightarrow> effect list \<Rightarrow> 'c server \<Rightarrow> 'c server" where
  "settle cfg a es sv = fold (settle_effect cfg a) es sv"

definition run_gateway ::
  "('c, 'd, 'e) app_config \<Rightarrow> header_list \<Rightarrow> call \<Rightarrow> request_ctx \<Rightarrow> 'c world \<Rightarrow>
   ('d, 'e) gateway_response result outcome \<times> 'c world" where
  "run_gateway cfg hs c ctx w =
     (case c of
        Turn (Chat f) body \<Rightarrow> handle (app_gateway cfg) f body ctx w
      | Turn (Embed f) body \<Rightarrow> handle_embed (app_gateway cfg) (app_media cfg) f body ctx w
      | Turn (Media f) body \<Rightarrow>
          handle_media (app_gateway cfg) (app_media cfg) f body
            (case header_str hs ''content-type'' of Some t \<Rightarrow> t | None \<Rightarrow> ''application/json'') ctx w
      | Video i lookup \<Rightarrow> handle_video (app_gateway cfg) (app_media cfg) i lookup ctx w)"

text \<open>The turn of an admitted caller: the context, the bookkeeping, the gateway and its effects.\<close>
definition serve_call ::
  "('c, 'd, 'e) app_config \<Rightarrow> header_list \<Rightarrow> call \<Rightarrow> key_auth \<Rightarrow> 'c server \<Rightarrow>
   ('d, 'e) server_response outcome \<times> 'c server" where
  "serve_call cfg hs c a sv =
     (let (request_id, w) = (case header_str hs ''x-request-id'' of
            Some r \<Rightarrow> (r, gw_world sv) | None \<Rightarrow> new_id (app_gateway cfg) (gw_world sv));
          sv = sv\<lparr>gw_world := w\<rparr>;
          ctx = build_ctx cfg hs a request_id (store sv);
          (t, sv) = server_now cfg sv;
          sv = sv\<lparr>store := mark_api_key_used t (key_id (auth_key a)) (store sv)\<rparr>;
          (r, w) = run_gateway cfg hs c ctx (gw_world sv);
          es = drop (length (effects (gw_world sv))) (effects w);
          sv = settle cfg a es (sv\<lparr>gw_world := w\<rparr>)
      in (case r of
            Cancelled \<Rightarrow> Cancelled
          | Returned (Inr resp) \<Rightarrow> Returned (GatewayAnswer (build_response resp))
          | Returned (Inl e) \<Rightarrow> Returned (error_response cfg e), sv))"

text \<open>The slot is held until the handler returns, on whatever path.\<close>
definition run_call ::
  "('c, 'd, 'e) app_config \<Rightarrow> header_list \<Rightarrow> call \<Rightarrow> 'c server \<Rightarrow>
   ('d, 'e) server_response outcome \<times> 'c server" where
  "run_call cfg hs c sv =
     (case authenticate cfg hs (store sv) of
        Inl e \<Rightarrow> (Returned (error_response cfg e), sv)
      | Inr a \<Rightarrow>
          (case rate_admit cfg a sv of
             (Inl e, sv) \<Rightarrow> (Returned (error_response cfg e), sv)
           | (Inr guard, sv) \<Rightarrow>
               (let (r, sv) =
                  (if budgets_enabled cfg \<and> (case c of Turn _ _ \<Rightarrow> True | Video _ _ \<Rightarrow> False)
                   then (case enforce_budgets cfg a sv of
                           (None, sv) \<Rightarrow> (Cancelled, sv)
                         | (Some (Inl e), sv) \<Rightarrow> (Returned (error_response cfg e), sv)
                         | (Some (Inr _), sv) \<Rightarrow> serve_call cfg hs c a sv)
                   else serve_call cfg hs c a sv)
                in (r, sv\<lparr>limiter := guard_drop guard (limiter sv)\<rparr>))))"

definition run_inference ::
  "('c, 'd, 'e) app_config \<Rightarrow> upstream_format \<Rightarrow> header_list \<Rightarrow> bytes \<Rightarrow> 'c server \<Rightarrow>
   ('d, 'e) server_response outcome \<times> 'c server" where
  "run_inference cfg surface hs body sv = run_call cfg hs (Turn surface body) sv"

definition parse_gemini_path :: "string \<Rightarrow> (string \<times> string) option" where
  "parse_gemini_path path =
     (let rest = (case strip_prefix path ''models/'' of Some r \<Rightarrow> r | None \<Rightarrow> path)
      in case split_once rest '':'' of
           None \<Rightarrow> None
         | Some (m, action) \<Rightarrow> if m = [] \<or> action = [] then None else Some (m, action))"

definition gemini ::
  "('c, 'd, 'e) app_config \<Rightarrow> header_list \<Rightarrow> string \<Rightarrow> bytes \<Rightarrow> 'c server \<Rightarrow>
   ('d, 'e) server_response outcome \<times> 'c server" where
  "gemini cfg hs path body sv =
     (let refuse = (\<lambda>m. (Returned (error_response cfg (BadRequest m)), sv))
      in case parse_gemini_path path of
           None \<Rightarrow> refuse (''unrecognized Gemini path: /v1beta/'' @ path)
         | Some (m, action) \<Rightarrow>
             (case json_from_slice cfg body of
                Inl e \<Rightarrow> refuse (''invalid JSON body: '' @ e)
              | Inr v \<Rightarrow>
                  (case as_object v of
                     None \<Rightarrow> refuse ''body is not a JSON object''
                   | Some obj \<Rightarrow>
                       (let obj = jinsert ''model'' (JStr m) obj;
                            (surface, obj) =
                              (if action = ''embedContent'' \<or> action = ''batchEmbedContents''
                               then (Embed GeminiEmbed, jinsert ''batch'' (JBool (action = ''batchEmbedContents'')) obj)
                               else (Chat Gemini,
                                 jinsert ''stream'' (JBool (action = ''streamGenerateContent'')) obj))
                        in run_inference cfg surface hs (json_to_vec cfg (JObj obj)) sv))))"

section \<open>Paths\<close>

datatype handler =
    Health | Metrics | Infer upstream_format | AskVideo video_lookup | GeminiPost | GeminiModels
  | ModelsOpenai | ModelsAnthropic

text \<open>The routes every deployment mode serves, in the order they are registered.\<close>
definition inference_routes :: "(string \<times> http_method \<times> handler) list" where
  "inference_routes =
     [(''/health'', Get, Health), (''/metrics'', Get, Metrics),
      (''/v1/messages'', Post, Infer (Chat Anthropic)),
      (''/v1/chat/completions'', Post, Infer (Chat OpenaiChat)),
      (''/v1/responses'', Post, Infer (Chat OpenaiResponses)),
      (''/v1/embeddings'', Post, Infer (Embed OpenaiEmbed)),
      (''/v1/multimodalembeddings'', Post, Infer (Embed VoyageEmbed)),
      (''/v2/embed'', Post, Infer (Embed CohereEmbed)),
      (''/v1/images/generations'', Post, Infer (Media OpenaiImages)),
      (''/v1/audio/speech'', Post, Infer (Media OpenaiSpeech)),
      (''/v1/audio/transcriptions'', Post, Infer (Media OpenaiTranscription)),
      (''/v1/videos'', Post, Infer (Media OpenaiVideos)),
      (''/v1/videos/:id'', Get, AskVideo Status), (''/v1/videos/:id'', Delete, AskVideo Delete_video),
      (''/v1/videos/:id/content'', Get, AskVideo Content),
      (''/v1beta/*path'', Get, GeminiModels), (''/v1beta/*path'', Post, GeminiPost),
      (''/v1/models'', Get, ModelsOpenai),
      (''/anthropic/v1/messages'', Post, Infer (Chat Anthropic)),
      (''/anthropic/v1/models'', Get, ModelsAnthropic),
      (''/openai/v1/chat/completions'', Post, Infer (Chat OpenaiChat)),
      (''/openai/v1/responses'', Post, Infer (Chat OpenaiResponses)),
      (''/openai/v1/embeddings'', Post, Infer (Embed OpenaiEmbed)),
      (''/openai/v1/images/generations'', Post, Infer (Media OpenaiImages)),
      (''/openai/v1/audio/speech'', Post, Infer (Media OpenaiSpeech)),
      (''/openai/v1/audio/transcriptions'', Post, Infer (Media OpenaiTranscription)),
      (''/openai/v1/videos'', Post, Infer (Media OpenaiVideos)),
      (''/openai/v1/videos/:id'', Get, AskVideo Status), (''/openai/v1/videos/:id'', Delete, AskVideo Delete_video),
      (''/openai/v1/videos/:id/content'', Get, AskVideo Content),
      (''/voyage/v1/multimodalembeddings'', Post, Infer (Embed VoyageEmbed)),
      (''/cohere/v2/embed'', Post, Infer (Embed CohereEmbed)),
      (''/openai/v1/models'', Get, ModelsOpenai),
      (''/gemini/v1beta/*path'', Get, GeminiModels), (''/gemini/v1beta/*path'', Post, GeminiPost)]"

text \<open>What a handler answers; \<open>arg\<close> is the \<open>:id\<close> or the \<open>*path\<close> of its route.\<close>
definition run_handler ::
  "('c, 'd, 'e) app_config \<Rightarrow> string option \<Rightarrow> handler \<Rightarrow> string \<Rightarrow> header_list \<Rightarrow> bytes \<Rightarrow> 'c server \<Rightarrow>
   ('d, 'e) server_response outcome \<times> 'c server" where
  "run_handler cfg prometheus h arg hs body sv =
     (case h of
        Health \<Rightarrow> (Returned (ok_json (JObj [(''status'', JStr ''ok'')])), sv)
      | Metrics \<Rightarrow>
          (Returned (case prometheus of
             Some t \<Rightarrow> GatewayAnswer (FullResponse 200 [(''content-type'', ''text/plain; version=0.0.4; charset=utf-8'')] t)
           | None \<Rightarrow> GatewayAnswer (FullResponse 404 [] [])), sv)
      | Infer surface \<Rightarrow> run_inference cfg surface hs body sv
      | AskVideo lookup \<Rightarrow> run_call cfg hs (Video arg lookup) sv
      | GeminiPost \<Rightarrow> gemini cfg hs arg body sv
      | GeminiModels \<Rightarrow> (Returned (gemini_models cfg arg hs (store sv)), sv)
      | ModelsOpenai \<Rightarrow> (Returned (models_openai cfg hs (store sv)), sv)
      | ModelsAnthropic \<Rightarrow> (Returned (models_anthropic cfg hs (store sv)), sv))"

section \<open>The routing table\<close>

text \<open>\<open>aliases\<close> is collected into a map, a later row of the same alias winning.\<close>
definition reload_models :: "'c server \<Rightarrow> 'c server" where
  "reload_models sv =
     (let ds = list_deployments (store sv);
          als = map_of (rev (map (\<lambda>a. (alias_name a, alias_target a)) (list_aliases (store sv))))
      in sv\<lparr>gw_world := (gw_world sv)\<lparr>router := reload (router (gw_world sv)) ds als\<rparr>\<rparr>)"

section \<open>What every handler of the gateway promises\<close>

text \<open>The interface the server relies on: a handler calls only deployments its context permits.\<close>
locale permitted_handler =
  fixes serve :: "request_ctx \<Rightarrow> 'c world \<Rightarrow> 'r \<times> 'c world"
  assumes calls_permitted: "serve ctx w = (r, w') \<Longrightarrow>
    \<exists>new. sends w' = sends w @ new \<and> (\<forall>p \<in> set new. access_permits ctx (fst p))"
begin

lemma new_calls_permitted:
  "serve ctx w = (r, w') \<Longrightarrow> p \<in> set (drop (length (sends w)) (sends w')) \<Longrightarrow> access_permits ctx (fst p)"
  using calls_permitted by fastforce

lemma calls_kept: "serve ctx w = (r, w') \<Longrightarrow> take (length (sends w)) (sends w') = sends w"
  using calls_permitted by fastforce

end

lemma started_sends:
  "read_instant g w = (a, w1) \<Longrightarrow> read_now g w1 = (b, w2) \<Longrightarrow>
     \<exists>new. sends w2 = sends w @ new \<and> (\<forall>p \<in> set new. q p)"
  by (intro exI [of _ "[]"]) (auto simp: read_instant_def read_now_def sends_def)

interpretation chat_handler: permitted_handler "handle g surface body"
proof
  fix ctx w r w'
  assume h: "handle g surface body ctx w = (r, w')"
  show "\<exists>new. sends w' = sends w @ new \<and> (\<forall>p \<in> set new. access_permits ctx (fst p))"
  proof (cases "parse_request (wire g) surface body")
    case (Inl e)
    then show ?thesis using h by (auto intro!: started_sends simp: handle_def lift_wire_def split: prod.splits)
  next
    case (Inr chat)
    obtain new k where n: "sends w' = sends w @ new"
      "map fst new = take k (filter is_chat (turn_candidates chat ctx w))"
      using handle_sends [OF h Inr] by metis
    have "access_permits ctx (fst p)" if "p \<in> set new" for p
    proof -
      have "fst p \<in> set (take k (filter is_chat (turn_candidates chat ctx w)))"
        using that by (simp flip: n(2))
      then have "fst p \<in> set (turn_candidates chat ctx w)" by (auto dest: in_set_takeD)
      then show ?thesis using turn_candidates_permitted by blast
    qed
    with n(1) show ?thesis by blast
  qed
qed

interpretation embed_handler: permitted_handler "handle_embed g x surface body"
proof
  fix ctx w r w'
  assume h: "handle_embed g x surface body ctx w = (r, w')"
  show "\<exists>new. sends w' = sends w @ new \<and> (\<forall>p \<in> set new. access_permits ctx (fst p))"
  proof (cases "parse_embed_request x surface body")
    case (Inl e)
    then show ?thesis using h by (auto intro!: started_sends simp: handle_embed_def lift_wire_def split: prod.splits)
  next
    case (Inr req)
    with handle_embed_turn [OF h] show ?thesis by fastforce
  qed
qed

interpretation media_handler: permitted_handler "handle_media g x surface body ct"
proof
  fix ctx w r w'
  assume h: "handle_media g x surface body ct ctx w = (r, w')"
  show "\<exists>new. sends w' = sends w @ new \<and> (\<forall>p \<in> set new. access_permits ctx (fst p))"
  proof (cases "route_media_request (media_from_slice x) body ct")
    case (Inl e)
    then show ?thesis using h by (auto intro!: started_sends simp: handle_media_def lift_wire_def split: prod.splits)
  next
    case (Inr req)
    with handle_media_turn [OF h] show ?thesis by fastforce
  qed
qed

interpretation video_handler: permitted_handler "handle_video g x vid lookup"
proof
  fix ctx w r w'
  assume h: "handle_video g x vid lookup ctx w = (r, w')"
  show "\<exists>new. sends w' = sends w @ new \<and> (\<forall>p \<in> set new. access_permits ctx (fst p))"
  proof (cases "video_model (b64_decode x) vid")
    case (Inl e)
    then show ?thesis using h by (simp add: handle_video_def)
  next
    case (Inr m)
    with h have "video_loop g vid lookup (filter_access (serving (router w) (Media OpenaiVideos) m) ctx) None None w =
        (r, w')" by (simp add: handle_video_def)
    from video_loop_world [OF this] obtain k where
      "sends w' = sends w @ map (\<lambda>d. (d, video_call g d vid lookup))
         (take k (filter_access (serving (router w) (Media OpenaiVideos) m) ctx))" by blast
    then show ?thesis by (auto simp: filter_access_def dest: in_set_takeD)
  qed
qed

interpretation server_handler: permitted_handler "run_gateway cfg hs c"
proof
  fix ctx w r w'
  assume "run_gateway cfg hs c ctx w = (r, w')"
  then show "\<exists>new. sends w' = sends w @ new \<and> (\<forall>p \<in> set new. access_permits ctx (fst p))"
    unfolding run_gateway_def
    by (auto split: call.splits upstream_format.splits
        dest: chat_handler.calls_permitted embed_handler.calls_permitted media_handler.calls_permitted
          video_handler.calls_permitted)
qed

section \<open>Lemmas on admission\<close>

lemma server_now_frame:
  assumes "server_now cfg sv = (t, sv')"
  shows "store sv' = store sv" "limiter sv' = limiter sv" "sends (gw_world sv') = sends (gw_world sv)"
    "t \<in> range (wall_clock (app_gateway cfg))"
  using assms by (auto simp: server_now_def read_now_def sends_def)

lemma settle_frame:
  "sends (gw_world (settle cfg a es sv)) = sends (gw_world sv)"
  "slots_held (limiter (settle cfg a es sv)) k = slots_held (limiter sv) k"
proof -
  have "sends (gw_world (settle_effect cfg a e sv)) = sends (gw_world sv) \<and>
      slots_held (limiter (settle_effect cfg a e sv)) k = slots_held (limiter sv) k" for e sv
    by (cases e) (auto simp: server_now_def read_now_def sends_def charge_in_flight [OF surjective_pairing] split: sum.split)
  then show "sends (gw_world (settle cfg a es sv)) = sends (gw_world sv)"
    "slots_held (limiter (settle cfg a es sv)) k = slots_held (limiter sv) k"
    unfolding settle_def by (induction es arbitrary: sv) auto
qed

text \<open>What the limiter asks of a request, at a reading of the clock.\<close>
definition rate_permits :: "('c, 'd, 'e) app_config \<Rightarrow> limiter \<Rightarrow> key_auth \<Rightarrow> timestamp \<Rightarrow> bool" where
  "rate_permits cfg l a t \<longleftrightarrow>
     (let ((dec, guard), l') = check l (key_id (auth_key a)) (resolve_limits a) t
      in allowed dec \<and> \<not> fst (fst (tpm_exhausted l' (key_id (auth_key a)) (resolve_limits a) t)))"

text \<open>The preflight took the slot of its guard, or it left the slots as they were.\<close>
definition rate_result ::
  "('c, 'd, 'e) app_config \<Rightarrow> key_auth \<Rightarrow> limiter \<Rightarrow> concurrency_guard result \<Rightarrow> limiter \<Rightarrow> bool" where
  "rate_result cfg a l res l' \<longleftrightarrow>
     (case res of
       Inl e \<Rightarrow> (\<forall>k. 0 \<le> slots_held l k \<longrightarrow> slots_held l' k = slots_held l k)
     | Inr guard \<Rightarrow>
         (\<forall>k. slots_held l' k = slots_held l k + (if guard_armed guard \<and> guard_scope guard = k then 1 else 0)) \<and>
         (ratelimit_enabled cfg \<longrightarrow> (\<exists>n. rate_permits cfg l a (wall_clock (app_gateway cfg) n))))"

lemma rate_admit_enabled:
  assumes "ratelimit_enabled cfg" "rate_admit cfg a sv = (res, sv')"
  shows "store sv' = store sv \<and> sends (gw_world sv') = sends (gw_world sv) \<and>
    rate_result cfg a (limiter sv) res (limiter sv')"
proof -
  let ?sc = "key_id (auth_key a)" and ?lim = "resolve_limits a"
  obtain t sv1 where 1: "server_now cfg sv = (t, sv1)" by force
  note now = server_now_frame [OF 1]
  obtain dec guard l1 where 2: "check (limiter sv) ?sc ?lim t = ((dec, guard), l1)" by (metis prod.collapse)
  have taken: "slots_held l1 k = slots_held (limiter sv) k +
      (if guard_armed guard \<and> guard_scope guard = k then 1 else 0)" for k
    using slots.acquire_held [of "limiter sv" ?sc "(?lim, t)" guard l1 k] 2 by (simp add: check_slot_def)
  obtain ex retry l2 where 3: "tpm_exhausted l1 ?sc ?lim t = ((ex, retry), l2)" by (metis prod.collapse)
  have released: "slots_held (guard_drop guard l) k = slots_held (limiter sv) k"
    if "0 \<le> slots_held (limiter sv) k" "slots_held l k = slots_held l1 k" for l k
    using that taken [of k] by (simp add: slots.release_held)
  have res: "(res, sv') =
      (if \<not> allowed dec then (Inl (RateLimited (retry_after dec) (rate_reason dec)), sv1\<lparr>limiter := guard_drop guard l1\<rparr>)
       else if ex then (Inl (RateLimited retry ''tpm''), sv1\<lparr>limiter := guard_drop guard l2\<rparr>)
       else (Inr guard, sv1\<lparr>limiter := l2\<rparr>))"
    using assms 1 2 3 now(2) by (cases "allowed dec"; cases ex) (auto simp: rate_admit_def Let_def)
  consider "\<not> allowed dec" | "allowed dec" ex | "allowed dec" "\<not> ex" by blast
  then show ?thesis
  proof cases
    case 3
    obtain n where "t = wall_clock (app_gateway cfg) n" using now(4) by blast
    then have "\<exists>n. rate_permits cfg (limiter sv) a (wall_clock (app_gateway cfg) n)"
      using 2 3 \<open>tpm_exhausted l1 ?sc ?lim t = ((ex, retry), l2)\<close> by (auto simp: rate_permits_def intro!: exI [of _ n])
    with 3 show ?thesis using res now taken tpm_in_flight [OF \<open>tpm_exhausted l1 ?sc ?lim t = ((ex, retry), l2)\<close>]
      by (simp add: rate_result_def)
  qed (use res now released tpm_in_flight [OF 3] in \<open>simp_all add: rate_result_def\<close>)
qed

lemma rate_admit_result:
  assumes "rate_admit cfg a sv = (res, sv')"
  shows "store sv' = store sv" "sends (gw_world sv') = sends (gw_world sv)"
    "rate_result cfg a (limiter sv) res (limiter sv')"
proof -
  have "store sv' = store sv \<and> sends (gw_world sv') = sends (gw_world sv) \<and>
    rate_result cfg a (limiter sv) res (limiter sv')"
  proof (cases "ratelimit_enabled cfg")
    case False
    then show ?thesis using assms by (auto simp: rate_admit_def noop_def rate_result_def)
  qed (use assms rate_admit_enabled in blast)
  then show "store sv' = store sv" "sends (gw_world sv') = sends (gw_world sv)"
    "rate_result cfg a (limiter sv) res (limiter sv')" by auto
qed

lemma build_ctx_permits:
  "access_permits (build_ctx cfg hs a i s) d \<Longrightarrow>
     permits_model (effective_access s a) (model_id d) \<and> permits_provider (effective_access s a) (provider_id d)"
  by (simp add: access_permits_def build_ctx_def split: if_splits)

lemma serve_call_frame:
  assumes "serve_call cfg hs c a sv = (r, sv')"
  shows "\<forall>k. slots_held (limiter sv') k = slots_held (limiter sv) k"
    "\<exists>new. sends (gw_world sv') = sends (gw_world sv) @ new \<and>
       (\<forall>p \<in> set new. permits_model (effective_access (store sv) a) (model_id (fst p)) \<and>
          permits_provider (effective_access (store sv) a) (provider_id (fst p)))"
proof -
  obtain rid w where 1: "(case header_str hs ''x-request-id'' of
            Some r \<Rightarrow> (r, gw_world sv) | None \<Rightarrow> new_id (app_gateway cfg) (gw_world sv)) = (rid, w)" by force
  have w: "sends w = sends (gw_world sv)"
    using 1 by (auto simp: new_id_def sends_def split: option.splits)
  let ?ctx = "build_ctx cfg hs a rid (store sv)"
  obtain t sv1 where 2: "server_now cfg (sv\<lparr>gw_world := w\<rparr>) = (t, sv1)" by force
  note now = server_now_frame [OF 2]
  obtain res w2 where 3: "run_gateway cfg hs c ?ctx (gw_world sv1) = (res, w2)" by force
  let ?sv2 = "settle cfg a (drop (length (effects (gw_world sv1))) (effects w2))
    (sv1\<lparr>store := mark_api_key_used t (key_id (auth_key a)) (store sv1), gw_world := w2\<rparr>)"
  have sv': "sv' = ?sv2"
    using assms 1 2 3 now(1) by (simp add: serve_call_def Let_def)
  show "\<forall>k. slots_held (limiter sv') k = slots_held (limiter sv) k"
    using now(2) by (simp add: sv' settle_frame)
  from server_handler.calls_permitted [OF 3] obtain new where
    "sends w2 = sends (gw_world sv) @ new" "\<forall>p \<in> set new. access_permits ?ctx (fst p)"
    using now(3) w by auto
  then show "\<exists>new. sends (gw_world sv') = sends (gw_world sv) @ new \<and>
       (\<forall>p \<in> set new. permits_model (effective_access (store sv) a) (model_id (fst p)) \<and>
          permits_provider (effective_access (store sv) a) (provider_id (fst p)))"
    by (intro exI [of _ new]) (simp add: sv' settle_frame, blast dest: build_ctx_permits)
qed

lemma check_budgets_spent:
  assumes "check_budgets cal s t bs = Some (Inr ())" "b \<in> set bs" "enabled b" "budget_action b = Block"
  shows "\<exists>start spent. bucket_start cal (budget_period b) t = Some start \<and>
    store_period_spend cal (budget_subject_type b) (budget_subject_id b) (budget_period b) start s = Some spent \<and>
    spent < hard_limit_micros b"
  using assms
  by (induction cal s t bs rule: check_budgets.induct) (auto split: if_splits option.splits)

text \<open>The calls of a request that was admitted, and what admitted it.\<close>
lemma run_call_cases:
  assumes "run_call cfg hs c sv = (r, sv')"
  obtains (refused) "sends (gw_world sv') = sends (gw_world sv)"
      "\<And>k. 0 \<le> slots_held (limiter sv) k \<Longrightarrow> slots_held (limiter sv') k = slots_held (limiter sv) k"
  | (served) a guard sv1 sv2 sv3 where "authenticate cfg hs (store sv) = Inr a"
      "rate_admit cfg a sv = (Inr guard, sv1)"
      "budgets_enabled cfg \<and> (\<exists>f b. c = Turn f b) \<longrightarrow> enforce_budgets cfg a sv1 = (Some (Inr ()), sv2)"
      "\<not> (budgets_enabled cfg \<and> (\<exists>f b. c = Turn f b)) \<longrightarrow> sv2 = sv1"
      "serve_call cfg hs c a sv2 = (r, sv3)" "sv' = sv3\<lparr>limiter := guard_drop guard (limiter sv3)\<rparr>"
proof (cases "authenticate cfg hs (store sv)")
  case (Inl e)
  then show thesis using assms by (intro refused) (auto simp: run_call_def)
next
  case (Inr a)
  obtain ra sv1 where ra: "rate_admit cfg a sv = (ra, sv1)" by force
  note rate = rate_admit_result [OF ra]
  show thesis
  proof (cases ra)
    case (Inl e)
    then show thesis using assms Inr ra rate by (intro refused) (auto simp: run_call_def rate_result_def)
  next
    case admitted: (Inr guard)
    have restored: "slots_held (guard_drop guard (limiter sv1)) k = slots_held (limiter sv) k"
      if "0 \<le> slots_held (limiter sv) k" for k
      using rate(3) admitted that by (simp add: slots.release_held rate_result_def)
    show thesis
    proof (cases "budgets_enabled cfg \<and> (\<exists>f b. c = Turn f b)")
      case False
      then have "(let (r, sv) = serve_call cfg hs c a sv1 in (r, sv\<lparr>limiter := guard_drop guard (limiter sv)\<rparr>)) = (r, sv')"
        using assms Inr ra admitted by (auto simp: run_call_def split: call.splits)
      then show thesis using served [OF Inr, of guard sv1 sv1] False ra admitted
        by (cases "serve_call cfg hs c a sv1") auto
    next
      case True
      obtain eb sv2 where eb: "enforce_budgets cfg a sv1 = (eb, sv2)" by force
      have sv2: "limiter sv2 = limiter sv1" "sends (gw_world sv2) = sends (gw_world sv1)"
        using eb by (auto simp: enforce_budgets_def Let_def server_now_def read_now_def sends_def)
      show thesis
      proof (cases "eb = Some (Inr ())")
        case passed: True
        then have "(let (r, sv) = serve_call cfg hs c a sv2 in (r, sv\<lparr>limiter := guard_drop guard (limiter sv)\<rparr>)) = (r, sv')"
          using assms Inr ra admitted True eb by (auto simp: run_call_def)
        then show thesis using served [OF Inr, of guard sv1 sv2] True ra admitted eb passed
          by (cases "serve_call cfg hs c a sv2") auto
      next
        case stopped: False
        then have "sv' = sv2\<lparr>limiter := guard_drop guard (limiter sv2)\<rparr>"
          using assms Inr ra admitted True eb
          by (auto simp: run_call_def split: option.splits sum.splits)
        then show thesis using restored rate(2) sv2 by (intro refused) auto
      qed
    qed
  qed
qed

section \<open>Lemmas on discovery\<close>

lemma add_vision_names [simp]: "map lm_name (add_vision n v xs) = map lm_name xs"
  by (induction n v xs rule: add_vision.induct) auto

lemma list_loop_names:
  assumes "distinct (map lm_name out)"
  shows "distinct (map lm_name (list_loop p ds out))"
    "set (map lm_name (list_loop p ds out)) = set (map lm_name out) \<union>
       {model_name d |d. d \<in> set ds \<and> permits_model p (model_id d) \<and> permits_provider p (provider_id d)}"
proof -
  have "distinct (map lm_name (list_loop p ds out)) \<and>
    set (map lm_name (list_loop p ds out)) = set (map lm_name out) \<union>
       {model_name d |d. d \<in> set ds \<and> permits_model p (model_id d) \<and> permits_provider p (provider_id d)}"
    using assms
  proof (induction p ds out rule: list_loop.induct)
    case (2 p d ds out)
    define name where "name = model_name d"
    consider (denied) "\<not> permits_model p (model_id d) \<or> \<not> permits_provider p (provider_id d)"
      | (seen) "permits_model p (model_id d)" "permits_provider p (provider_id d)" "name \<in> set (map lm_name out)"
      | (fresh) "permits_model p (model_id d)" "permits_provider p (provider_id d)" "name \<notin> set (map lm_name out)"
      by blast
    then show ?case
    proof cases
      case denied
      then show ?thesis using 2 by auto
    next
      case seen
      have ex: "list_ex (\<lambda>x. lm_name x = model_name d) out"
        using seen(3) by (auto simp: list_ex_iff name_def)
      have "map lm_name (add_vision (model_name d) (vision (extra d)) out) = map lm_name out" by simp
      then have "distinct (map lm_name (add_vision (model_name d) (vision (extra d)) out))"
        using 2(4) by (simp only:)
      from 2(2) [OF _ ex this] seen ex show ?thesis
        using arg_cong [OF add_vision_names, of set "model_name d" "vision (extra d)" out]
        by (auto simp: name_def)
    next
      case fresh
      have ex: "\<not> list_ex (\<lambda>x. lm_name x = model_name d) out"
        using fresh(3) by (auto simp: list_ex_iff name_def image_iff)
      from 2(3) [OF _ ex] fresh ex 2(4) show ?thesis by (auto simp: name_def)
    qed
  qed auto
  then show "distinct (map lm_name (list_loop p ds out))"
    "set (map lm_name (list_loop p ds out)) = set (map lm_name out) \<union>
       {model_name d |d. d \<in> set ds \<and> permits_model p (model_id d) \<and> permits_provider p (provider_id d)}"
    by blast+
qed

lemma to_deployment_columns [simp]:
  "model_id (to_deployment r) = model_id r" "provider_id (to_deployment r) = provider_id r"
  "model_name (to_deployment r) = model_name r"
  by (simp_all add: to_deployment_def)

text \<open>Routing offers something the policy permits whenever the table has it under the name.\<close>
lemma resolve_permitted:
  assumes "d \<in> set (map to_deployment records)" "model_name d = requested_model req"
    "permits_model (ctx_access ctx) (model_id d)" "permits_provider (ctx_access ctx) (provider_id d)"
    "ctx_excluded_model_ids ctx = []" "ctx_excluded_provider_ids ctx = []"
    "snapshot r = build (map to_deployment records) fbs als st"
  shows "\<exists>dec r'. resolve r (policy_route_request ctx req) = (Inr dec, r') \<and> filter_access (candidates dec) ctx \<noteq> []"
proof -
  let ?req = "policy_route_request ctx req" and ?snap = "build (map to_deployment records) fbs als st"
  have "deployments_of ?snap (requested_model req) \<noteq> []"
    using assms(1,2) unfolding build_deployments_of filter_empty_conv by blast
  then have "map_of (models ?snap) (requested_model req) \<noteq> None"
    unfolding deployments_of_def by (auto split: option.splits)
  then have canon: "canonical ?snap (requested_model ?req) = requested_model req"
    by (simp add: canonical_def canonical_walk_model policy_route_request_def)
  have "eligible ?req d"
    using assms(3-6) by (auto simp: eligible_def policy_route_request_def permits_model_def permits_provider_def
        split: if_splits)
  then have reach: "d \<in> reachable_deployments ?snap ?req"
    unfolding reachable_deployments_def canon using assms(1,2) by (auto simp: eligible_of_def)
  obtain res r' where res: "resolve r ?req = (res, r')" by force
  then obtain dec where dec: "res = Inr dec"
    using resolve_error(2) [of r ?req _ r'] reach assms(7) by (cases res) auto
  have "dedup_of d \<in> dedup_of ` set (candidates dec)"
    using resolve_candidates(4) [of r ?req dec r'] res dec reach assms(7) by auto
  then obtain c where "c \<in> set (candidates dec)" "model_id c = model_id d" "provider_id c = provider_id d"
    by (auto simp: dedup_of_def)
  with assms(3-6) have "c \<in> set (filter_access (candidates dec) ctx)"
    by (simp add: filter_access_def access_permits_def)
  then show ?thesis using res dec by fastforce
qed

section \<open>A sample server\<close>

definition sample_config :: "(script, unit, unit) app_config" where
  "sample_config =
     \<lparr>app_gateway = sample_gateway, app_media = sample_media_ops, sha256 = id,
      json_from_slice = (\<lambda>b. Inl []), json_to_vec = (\<lambda>j. []), duration_debug = (\<lambda>d. []),
      budgets_enabled = True, ratelimit_enabled = True\<rparr>"

definition sample_server :: "script server" where
  "sample_server = \<lparr>store = sample_store, limiter = limiter_new 60, gw_world = sample_world sample_script\<rparr>"

definition sample_headers :: header_list where
  "sample_headers = [(''authorization'', ''Bearer a'')]"

lemma sample_run_call:
  obtains r sv' where "run_call sample_config sample_headers (Turn (Chat OpenaiChat) ''a'') sample_server = (r, sv')"
    "length (sends (gw_world sv')) = 2"
proof -
  have "length (sends (gw_world (snd (run_call sample_config sample_headers (Turn (Chat OpenaiChat) ''a'') sample_server)))) = 2"
    by code_simp
  then show thesis using that by (metis prod.collapse)
qed

section \<open>Properties\<close>



text \<open>A request gives its concurrency slot back on every path: refused by the limiter, by a budget, by
  routing or by the upstream, answered, or abandoned, the slots of every scope are as they were.\<close>
theorem run_call_releases_slot:
  assumes "run_call cfg hs c sv = (r, sv')" "0 \<le> slots_held (limiter sv) k"
  shows "slots_held (limiter sv') k = slots_held (limiter sv) k"
  using assms(1)
proof (cases rule: run_call_cases)
  case refused
  with assms(2) show ?thesis by simp
next
  case (served a guard sv1 sv2 sv3)
  have "limiter sv2 = limiter sv1"
    using served(3,4) by (auto simp: enforce_budgets_def Let_def server_now_def read_now_def)
  then have "slots_held (limiter sv3) k =
      slots_held (limiter sv) k + (if guard_armed guard \<and> guard_scope guard = k then 1 else 0)"
    using serve_call_frame(1) [OF served(5)] rate_admit_result(3) [OF served(2)] by (simp add: rate_result_def)
  with assms(2) served(6) show ?thesis by (simp add: slots.release_held)
qed

theorem run_call_releases_slot_witness:
  "slots_held (limiter (snd (run_call sample_config sample_headers (Turn (Chat OpenaiChat) ''a'') sample_server))) ''k1'' = 0"
  using run_call_releases_slot [of sample_config sample_headers "Turn (Chat OpenaiChat) ''a''" sample_server _ _ "''k1''", OF surjective_pairing]
  by (simp add: sample_server_def limiter_new_def slots_held_def entry_or_default_def scope_default_def)

text \<open>C23: Discovery lists exactly what a caller can reach: a name is listed, once, when some live deployment
  of it has a model and a provider the caller's grant permits; and once the routing table is loaded
  from the store, a request for a listed name is offered at least one deployment the grant permits,
  so it is never refused for want of an eligible provider.\<close>
theorem discovery_lists_what_is_served:
  "distinct (model_names (store sv) p) \<and>
   (n \<in> set (model_names (store sv) p) \<longleftrightarrow>
     (\<exists>d \<in> set (list_deployments (store sv)). model_name d = n \<and> permits_model p (model_id d) \<and>
        permits_provider p (provider_id d))) \<and>
   (n \<in> set (model_names (store sv) p) \<and> ctx_access ctx = p \<and> ctx_excluded_model_ids ctx = [] \<and>
      ctx_excluded_provider_ids ctx = [] \<and> requested_model req = n \<longrightarrow>
    (\<exists>dec r'. resolve (router (gw_world (reload_models sv))) (policy_route_request ctx req) = (Inr dec, r') \<and>
       filter_access (candidates dec) ctx \<noteq> []))"
proof -
  have names: "distinct (model_names (store sv) p)"
    "set (model_names (store sv) p) = {model_name d |d. d \<in> set (list_deployments (store sv)) \<and>
       permits_model p (model_id d) \<and> permits_provider p (provider_id d)}"
    using list_loop_names [of "[]" p "list_deployments (store sv)"]
    by (simp_all add: model_names_def listed_models_def)
  have "\<exists>dec r'. resolve (router (gw_world (reload_models sv))) (policy_route_request ctx req) = (Inr dec, r') \<and>
       filter_access (candidates dec) ctx \<noteq> []"
    if listed: "n \<in> set (model_names (store sv) p)" and ctx: "ctx_access ctx = p" "ctx_excluded_model_ids ctx = []"
      "ctx_excluded_provider_ids ctx = []" "requested_model req = n"
  proof -
    obtain d where d: "d \<in> set (list_deployments (store sv))" "model_name d = n" "permits_model p (model_id d)"
      "permits_provider p (provider_id d)" using listed names(2) by auto
    show ?thesis
    proof (rule resolve_permitted)
      show "to_deployment d \<in> set (map to_deployment (list_deployments (store sv)))" using d(1) by simp
      show "snapshot (router (gw_world (reload_models sv))) = build (map to_deployment (list_deployments (store sv)))
          (fallbacks (snapshot (router (gw_world sv))))
          (map_of (rev (map (\<lambda>a. (alias_name a, alias_target a)) (list_aliases (store sv)))))
          (snap_strategy (snapshot (router (gw_world sv))))"
        by (simp add: reload_models_def reload_def Let_def)
    qed (use d ctx in simp_all)
  qed
  then show ?thesis using names by auto
qed

lemma seeded_store_listed:
  "''gpt'' \<in> set (model_names (fst (create_deployment 1 (''m'', ''p'', ''d'') sample_new_deployment sample_store)) policy_default)"
  by code_simp

theorem discovery_lists_what_is_served_witness:
  "\<exists>dec r'. resolve (router (gw_world (reload_models (sample_server\<lparr>store :=
      fst (create_deployment 1 (''m'', ''p'', ''d'') sample_new_deployment sample_store)\<rparr>))))
     (policy_route_request (sample_ctx\<lparr>ctx_access := policy_default, ctx_excluded_model_ids := [], ctx_excluded_provider_ids := []\<rparr>)
       \<lparr>requested_model = ''gpt'', estimated_input_tokens = 0, has_tools = False, has_images = False,
        excluded_model_ids = [], enabled_provider_ids = None, denied_provider_ids_req = [],
        preferred_models = []\<rparr>) = (Inr dec, r')"
  using discovery_lists_what_is_served [of "sample_server\<lparr>store :=
      fst (create_deployment 1 (''m'', ''p'', ''d'') sample_new_deployment sample_store)\<rparr>" policy_default "''gpt''"
      "sample_ctx\<lparr>ctx_access := policy_default, ctx_excluded_model_ids := [], ctx_excluded_provider_ids := []\<rparr>"
      "\<lparr>requested_model = ''gpt'', estimated_input_tokens = 0, has_tools = False, has_images = False,
        excluded_model_ids = [], enabled_provider_ids = None, denied_provider_ids_req = [],
        preferred_models = []\<rparr>"] seeded_store_listed
  by auto

end
