(* ===== verification/Wire_Text.thy ===== *)
theory Wire_Text
  imports Chat_IR
begin

text \<open>
  What the dialects of \<open>crates/yb-wire\<close> share: reading and writing JSON text as a parameter, the
  payload of an event-stream line (\<open>sse_data\<close> of \<open>anthropic.rs\<close>), the loop of an encoder over
  events, and the laws of such a loop, which are the reason a client sees the same bytes however
  the upstream cut its stream into chunks.

  \<open>json_codec\<close> stands for the \<open>serde_json\<close> package: \<open>from_slice\<close> with the error text of a body
  that is not JSON, \<open>from_str\<close> where the code discards the error, and \<open>to_string\<close>, whose text is
  also that of \<open>to_vec\<close>.
\<close>

named_theorems wire_simps \<open>rewrite rules for the JSON the dialects read and write\<close>

section \<open>JSON text\<close>

record json_codec =
  from_slice :: "bytes \<Rightarrow> json wire_result"
  from_str :: "string \<Rightarrow> json option"
  to_string :: "json \<Rightarrow> string"

text \<open>A value whose text reads back and has the shape of one compact line.\<close>
definition text_ok :: "json_codec \<Rightarrow> json \<Rightarrow> bool" where
  "text_ok jc v \<longleftrightarrow> from_str jc (to_string jc v) = Some v \<and>
     from_slice jc (to_string jc v) = Inr v \<and>
     CHR 0x0A \<notin> set (to_string jc v) \<and> trim_end (to_string jc v) = to_string jc v"

definition unwrap_or_default :: "string option \<Rightarrow> string" where
  "unwrap_or_default s = (case s of None \<Rightarrow> [] | Some t \<Rightarrow> t)"

definition get_or :: "json \<Rightarrow> json \<Rightarrow> string \<Rightarrow> json" where
  "get_or d v k = (case jget v k of None \<Rightarrow> d | Some x \<Rightarrow> x)"

text \<open>\<open>collect\<close> into a result: the first error ends it.\<close>
fun collect_results :: "'a wire_result list \<Rightarrow> 'a list wire_result" where
  "collect_results [] = Inr []"
| "collect_results (Inl e # rs) = Inl e"
| "collect_results (Inr x # rs) =
     (case collect_results rs of Inl e \<Rightarrow> Inl e | Inr xs \<Rightarrow> Inr (x # xs))"

text \<open>The text blocks of a list, one after the other (\<open>join_text\<close>, \<open>Message::text\<close>).\<close>
definition join_text :: "content_block list \<Rightarrow> string" where
  "join_text bs = concat (map block_text bs)"

fun is_text :: "content_block \<Rightarrow> bool" where
  "is_text (Text _) = True"
| "is_text _ = False"

fun is_any_text :: "content_block \<Rightarrow> bool" where
  "is_any_text (Text _) = True"
| "is_any_text (CachedText _ _) = True"
| "is_any_text _ = False"

definition jf32 :: "rat \<Rightarrow> json" where
  "jf32 q = JNum (Float q)"

text \<open>The model of the deployment, or the client's where none is set.\<close>
definition emitted_model :: "chat_request \<Rightarrow> emit_options \<Rightarrow> string" where
  "emitted_model req opts = (if target_model opts = [] then model req else target_model opts)"

definition emitted_effort :: "chat_request \<Rightarrow> emit_options \<Rightarrow> string option" where
  "emitted_effort req opts =
     (case force_reasoning_effort opts of
        Some e \<Rightarrow> Some e
      | None \<Rightarrow> Option.bind (reasoning req) effort)"

section \<open>Event streams\<close>

definition sse_data :: "string \<Rightarrow> string option" where
  "sse_data line =
     (case strip_prefix line ''data:'' of
        None \<Rightarrow> None
      | Some rest \<Rightarrow>
          Some (trim_end (case strip_prefix rest '' '' of None \<Rightarrow> rest | Some r \<Rightarrow> r)))"

text \<open>The JSON value of a line, where it has one: the first two steps of every decoder.\<close>
definition sse_value :: "json_codec \<Rightarrow> string \<Rightarrow> json option" where
  "sse_value jc line = Option.bind (sse_data line) (from_str jc)"

text \<open>The loop of an encoder: each event may write frames and change the state.\<close>
fun encode_all :: "('s \<Rightarrow> stream_event \<Rightarrow> 'f list \<times> 's) \<Rightarrow> 's \<Rightarrow> stream_event list \<Rightarrow> 'f list \<times> 's" where
  "encode_all step st [] = ([], st)"
| "encode_all step st (ev # evs) =
     (let (fs, st) = step st ev; (gs, st) = encode_all step st evs in (fs @ gs, st))"

text \<open>The loop of a decoder over lines.\<close>
fun decode_all :: "('s \<Rightarrow> string \<Rightarrow> stream_event list \<times> 's) \<Rightarrow> 's \<Rightarrow> string list \<Rightarrow> stream_event list \<times> 's" where
  "decode_all step st [] = ([], st)"
| "decode_all step st (l # ls) =
     (let (es, st) = step st l; (fs, st) = decode_all step st ls in (es @ fs, st))"

section \<open>The shape of a stream\<close>

text \<open>
  A run of events opens once, then carries text, thinking and tool calls, each tool's arguments
  right after its start, and ends once; usage may be reported at any time. This is the order
  \<open>events_from_response\<close> produces and the one an encoder may rely on.
\<close>
datatype block_kind = TextBlock | ThinkingBlock | ToolBlock

datatype phase = Fresh | Running "block_kind option" | Finished

fun shape_step :: "phase \<Rightarrow> stream_event \<Rightarrow> phase option" where
  "shape_step p (UsageDelta u) = Some p"
| "shape_step Fresh (MessageStart m) = Some (Running None)"
| "shape_step (Running k) (TextDelta t) = Some (Running (Some TextBlock))"
| "shape_step (Running k) (ThinkingDelta t) = Some (Running (Some ThinkingBlock))"
| "shape_step (Running k) (ToolUseStart i n) = Some (Running (Some ToolBlock))"
| "shape_step (Running (Some ToolBlock)) (ToolUseDelta j) = Some (Running (Some ToolBlock))"
| "shape_step (Running k) (Done s) = Some Finished"
| "shape_step _ _ = None"

fun shape_run :: "phase \<Rightarrow> stream_event list \<Rightarrow> phase option" where
  "shape_run p [] = Some p"
| "shape_run p (e # es) = (case shape_step p e of None \<Rightarrow> None | Some p \<Rightarrow> shape_run p es)"

fun_cases shape_step_elims: "shape_step p e = Some q"

section \<open>Lemmas\<close>

lemma unwrap_or_default_simps [simp]:
  "unwrap_or_default None = []" "unwrap_or_default (Some s) = s"
  by (simp_all add: unwrap_or_default_def)

lemma opt_str_JObj [wire_simps]:
  "opt_str (JObj ((k, v) # m)) k' = (if k = k' then as_str v else opt_str (JObj m) k')"
  "opt_str (JObj []) k' = None"
  by (simp_all add: opt_str_def)

lemma opt_arr_JObj [wire_simps]:
  "opt_arr (JObj ((k, v) # m)) k' = (if k = k' then as_array v else opt_arr (JObj m) k')"
  "opt_arr (JObj []) k' = None"
  by (simp_all add: opt_arr_def)

lemma get_or_JObj [wire_simps]:
  "get_or d (JObj ((k, v) # m)) k' = (if k = k' then v else get_or d (JObj m) k')"
  "get_or d (JObj []) k' = d"
  by (simp_all add: get_or_def)

lemma opt_u32_JObj [wire_simps]:
  "opt_u32 (JObj ((k, v) # m)) k' = (if k = k' then map_option ucast (as_u64 v) else opt_u32 (JObj m) k')"
  "opt_u32 (JObj []) k' = None"
  by (simp_all add: opt_u32_def)

lemma opt_bool_JObj [wire_simps]:
  "opt_bool (JObj ((k, v) # m)) k' =
     (if k = k' then (case as_bool v of None \<Rightarrow> False | Some b \<Rightarrow> b) else opt_bool (JObj m) k')"
  "opt_bool (JObj []) k' = False"
  by (simp_all add: opt_bool_def)

lemma ju32_roundtrip [simp]: "map_option ucast (as_u64 (ju32 w)) = Some w"
  by (simp add: ju32_def unsigned_ucast_eq take_bit_word_eq_self)

lemma jnat_eq_iff: "jnat a = jnat b \<longleftrightarrow> (of_nat a :: 64 word) = of_nat b"
  by (simp add: jnat_def)

lemma collect_results_map_Inr: "(\<And>x. x \<in> set xs \<Longrightarrow> f x = Inr (g x)) \<Longrightarrow> collect_results (map f xs) = Inr (map g xs)"
  by (induction xs) auto

lemma collect_results_Inr: "collect_results rs = Inr xs \<longleftrightarrow> rs = map Inr xs"
  by (induction rs arbitrary: xs rule: collect_results.induct) (force split: sum.splits)+

lemma map_Inr_in: "map f xs = map Inr ys \<Longrightarrow> y \<in> set ys \<Longrightarrow> \<exists>x \<in> set xs. f x = Inr y"
  by (metis (mono_tags, lifting) imageE image_eqI list.set_map)

lemma collect_results_mapD:
  "collect_results (map f xs) = Inr ys \<Longrightarrow> \<forall>y \<in> set ys. \<exists>x \<in> set xs. f x = Inr y"
  using collect_results_Inr [of "map f xs" ys] by (blast dest: map_Inr_in)

lemma collect_results_Inl: "collect_results rs = Inl e \<Longrightarrow> Inl e \<in> set rs"
  by (induction rs rule: collect_results.induct) (auto split: sum.splits)

lemma join_text_simps [simp]:
  "join_text [] = []" "join_text (b # bs) = block_text b @ join_text bs"
  by (simp_all add: join_text_def)

lemma join_text_append: "join_text (as @ bs) = join_text as @ join_text bs"
  by (simp add: join_text_def)

lemma jget_size: "jget v k = Some w \<Longrightarrow> size w < size v"
proof (cases v)
  case (JObj m)
  moreover assume "jget v k = Some w"
  ultimately have "jget_obj m k = Some w" by simp
  then have "size w < size_list (size_prod (\<lambda>x. 0) size) m"
    by (induction m) (auto split: if_splits)
  with JObj show ?thesis by (simp)
qed simp_all

lemma sse_value_data:
  assumes "text_ok jc v"
  shows "sse_value jc (''data: '' @ to_string jc v) = Some v"
proof -
  have "strip_prefix (''data: '' @ to_string jc v) ''data:'' = Some ('' '' @ to_string jc v)"
    using strip_prefix_append [of "''data:''" "'' '' @ to_string jc v"] by simp
  moreover have "strip_prefix ('' '' @ to_string jc v) '' '' = Some (to_string jc v)"
    by (rule strip_prefix_append)
  ultimately have "sse_data (''data: '' @ to_string jc v) = Some (to_string jc v)"
    using assms unfolding sse_data_def by (simp only: option.case) (simp add: text_ok_def)
  then show ?thesis using assms by (simp add: sse_value_def text_ok_def)
qed

lemma sse_value_event: "sse_value jc (''event: '' @ n) = None"
  by (simp add: sse_value_def sse_data_def strip_prefix_def starts_with_def)

lemma sse_value_Nil: "sse_value jc [] = None"
  by (simp add: sse_value_def sse_data_def strip_prefix_def starts_with_def)

lemma encode_all_append:
  "encode_all step st (es @ fs) =
     (let (a, st) = encode_all step st es; (b, st) = encode_all step st fs in (a @ b, st))"
  by (induction es arbitrary: st) (auto simp: Let_def split: prod.split)

lemma decode_all_append:
  "decode_all step st (ls @ ks) =
     (let (a, st) = decode_all step st ls; (b, st) = decode_all step st ks in (a @ b, st))"
  by (induction ls arbitrary: st) (auto simp: Let_def split: prod.split)

text \<open>A buffered response expands into a run of this shape, whatever its blocks.\<close>
lemma shape_run_append: "shape_run p (as @ bs) = (case shape_run p as of None \<Rightarrow> None | Some q \<Rightarrow> shape_run q bs)"
  by (induction as arbitrary: p) (auto split: option.split)

lemma shape_block_events: "\<exists>k'. shape_run (Running k) (block_events ts b) = Some (Running k')"
  by (cases b) auto

lemma shape_blocks: "\<exists>k'. shape_run (Running k) (concat (map (block_events ts) bs)) = Some (Running k')"
proof (induction bs arbitrary: k)
  case (Cons b bs)
  obtain k' where "shape_run (Running k) (block_events ts b) = Some (Running k')"
    using shape_block_events by blast
  with Cons show ?case by (auto simp: shape_run_append)
qed simp

lemma shape_events_from_response: "shape_run Fresh (events_from_response ts r) = Some Finished"
proof -
  obtain k where "shape_run (Running None) (concat (map (block_events ts) (response_content r))) = Some (Running k)"
    using shape_blocks by blast
  then show ?thesis by (simp add: events_from_response_def shape_run_append)
qed

lemma opt_str_Some: "opt_str b k = Some s \<longleftrightarrow> (\<exists>m. b = JObj m \<and> jget_obj m k = Some (JStr s))"
  by (cases b) (auto simp: opt_str_def bind_eq_Some_conv elim: as_str.elims)

lemma map_filter_as_str: "List.map_filter as_str (map JStr ss) = ss"
  by (induction ss) (simp_all add: List.map_filter_simps)

lemma bind_jf32: "Option.bind (map_option jf32 x) as_f64 = x"
  by (cases x) (simp_all add: jf32_def)

section \<open>Simulation of an encoder\<close>

text \<open>
  Every dialect's encoder is judged by what a reader makes of its frames: a client that follows the
  protocol, or the dialect's own decoder. The reader consumes frames and gives output, or refuses.
  If each event of a well-ordered run leaves encoder and reader linked and gives the expected output,
  so does the whole run.
\<close>
locale encoder_simulation =
  fixes enc :: "'s \<Rightarrow> stream_event \<Rightarrow> 'f list \<times> 's"
    and consume :: "'d \<Rightarrow> 'f list \<Rightarrow> ('o list \<times> 'd) option"
    and expected :: "stream_event \<Rightarrow> 'o list"
    and linked :: "phase \<Rightarrow> 's \<Rightarrow> 'd \<Rightarrow> bool"
  assumes consume_Nil: "consume d [] = Some ([], d)"
    and consume_append: "consume d (fs @ gs) =
      (case consume d fs of None \<Rightarrow> None
       | Some (a, d) \<Rightarrow> (case consume d gs of None \<Rightarrow> None | Some (b, d) \<Rightarrow> Some (a @ b, d)))"
    and simulation: "shape_step p e = Some q \<Longrightarrow> linked p st d \<Longrightarrow>
      \<exists>d'. consume d (fst (enc st e)) = Some (expected e, d') \<and> linked q (snd (enc st e)) d'"
begin

lemma run:
  assumes "shape_run p evs = Some q" "linked p st d"
  shows "\<exists>d'. consume d (fst (encode_all enc st evs)) = Some (concat (map expected evs), d') \<and>
    linked q (snd (encode_all enc st evs)) d'"
  using assms
proof (induction evs arbitrary: p st d)
  case (Cons e evs)
  then obtain p' where p': "shape_step p e = Some p'" "shape_run p' evs = Some q" by (simp split: option.splits)
  obtain d1 where d1: "consume d (fst (enc st e)) = Some (expected e, d1)" "linked p' (snd (enc st e)) d1"
    using simulation [OF p'(1) Cons.prems(2)] by blast
  obtain d2 where "consume d1 (fst (encode_all enc (snd (enc st e)) evs)) = Some (concat (map expected evs), d2)"
    "linked q (snd (encode_all enc (snd (enc st e)) evs)) d2"
    using Cons.IH [OF p'(2) d1(2)] by blast
  with d1(1) show ?case by (simp add: split_beta Let_def consume_append)
qed (simp add: consume_Nil)

end

lemma trim_end_last:
  assumes "s \<noteq> []" "byte_of (last s) \<notin> last ` set whitespace_encodings"
  shows "trim_end s = s"
proof -
  have "\<not> (length w \<le> length s \<and> drop (length s - length w) (map byte_of s) = w)"
    if "w \<in> set whitespace_encodings" for w
  proof
    assume *: "length w \<le> length s \<and> drop (length s - length w) (map byte_of s) = w"
    have "w \<noteq> []" using that by (auto simp: whitespace_encodings_def)
    then have "last w = byte_of (last s)"
      using * assms(1) by (metis drop_eq_Nil last_drop last_map linorder_not_less)
    with that assms(2) show False by (metis image_eqI)
  qed
  then have "trailing_space s = None" by (auto simp: trailing_space_def find_None_iff)
  then show ?thesis by (subst trim_end.simps) simp
qed

definition sample_events :: "stream_event list" where
  "sample_events = [MessageStart ''m'', ThinkingDelta ''hm'', TextDelta ''hi'', TextDelta ''!'',
     ToolUseStart ''t1'' ''f'', ToolUseDelta ''{}'', UsageDelta (usage_default\<lparr>input_tokens := 7, output_tokens := 2\<rparr>),
     Done StopToolUse]"

text \<open>A codec that knows finitely many values, numbered in unary.\<close>
fun index_of :: "'a list \<Rightarrow> 'a \<Rightarrow> nat" where
  "index_of [] x = 0"
| "index_of (y # ys) x = (if y = x then 0 else Suc (index_of ys x))"

definition sample_codec :: "json list \<Rightarrow> json_codec" where
  "sample_codec vs =
     (let lookup = (\<lambda>s. if s \<noteq> [] \<and> list_all (\<lambda>c. c = CHR ''i'') s \<and> length s \<le> length vs
                        then Some (vs ! (length s - 1)) else None)
      in \<lparr>from_slice = (\<lambda>b. case lookup b of None \<Rightarrow> Inl (Json ''unknown'') | Some v \<Rightarrow> Inr v),
          from_str = lookup,
          to_string = (\<lambda>v. replicate (Suc (index_of vs v)) (CHR ''i''))\<rparr>)"

lemma index_of_nth: "x \<in> set xs \<Longrightarrow> index_of xs x < length xs \<and> xs ! index_of xs x = x"
  by (induction xs) auto

lemma trim_end_unary: "trim_end (replicate (Suc n) (CHR ''i'')) = replicate (Suc n) (CHR ''i'')"
  by (rule trim_end_last) (simp, simp add: byte_of_def whitespace_encodings_def)

lemma trim_unary: "trim (replicate (Suc n) (CHR ''i'')) = replicate (Suc n) (CHR ''i'')"
proof -
  have "leading_space (replicate (Suc n) (CHR ''i'')) = None"
    by (auto simp: leading_space_def find_None_iff whitespace_encodings_def byte_of_def)
  then have "trim_start (replicate (Suc n) (CHR ''i'')) = replicate (Suc n) (CHR ''i'')"
    by (subst trim_start.simps) simp
  then show ?thesis unfolding trim_def using trim_end_unary by metis
qed

lemma sample_codec_sel:
  "to_string (sample_codec vs) v = replicate (Suc (index_of vs v)) (CHR ''i'')"
  "from_str (sample_codec vs) s = (if s \<noteq> [] \<and> list_all (\<lambda>c. c = CHR ''i'') s \<and> length s \<le> length vs
     then Some (vs ! (length s - 1)) else None)"
  "from_slice (sample_codec vs) s = (case from_str (sample_codec vs) s of None \<Rightarrow> Inl (Json ''unknown'') | Some v \<Rightarrow> Inr v)"
  by (simp_all add: sample_codec_def Let_def)

lemma sample_codec_read: "v \<in> set vs \<Longrightarrow> from_str (sample_codec vs) (to_string (sample_codec vs) v) = Some v"
  by (auto simp: sample_codec_sel list_all_iff Suc_le_eq index_of_nth)

lemma text_ok_sample: "v \<in> set vs \<Longrightarrow> text_ok (sample_codec vs) v"
  using sample_codec_read [of v vs]
  by (simp add: text_ok_def sample_codec_sel(3)) (simp add: sample_codec_sel trim_end_unary [simplified])

text \<open>What was read can be written and read again, and blank text is not JSON.\<close>
definition reread_ok :: "json_codec \<Rightarrow> bool" where
  "reread_ok jc \<longleftrightarrow>
     (\<forall>v. v = JObj [] \<or> (\<exists>s. from_str jc s = Some v) \<longrightarrow>
        from_str jc (to_string jc v) = Some v \<and> trim (to_string jc v) \<noteq> []) \<and>
     (\<forall>s. trim s = [] \<longrightarrow> from_str jc s = None)"

lemma reread_ok_sample: "JObj [] \<in> set vs \<Longrightarrow> reread_ok (sample_codec vs)"
proof -
  assume o: "JObj [] \<in> set vs"
  have "v \<in> set vs" if "from_str (sample_codec vs) s = Some v" for v s
  proof -
    have "v = vs ! (length s - 1)" "s \<noteq> []" "length s \<le> length vs"
      using that by (auto simp: sample_codec_sel(2) split: if_splits)
    then show ?thesis by (cases s) simp_all
  qed
  then have "v \<in> set vs" if "v = JObj [] \<or> (\<exists>s. from_str (sample_codec vs) s = Some v)" for v
    using that o by blast
  moreover have "from_str (sample_codec vs) s = None" if "trim s = []" for s
  proof (rule ccontr)
    assume "from_str (sample_codec vs) s \<noteq> None"
    then have "s \<noteq> []" "list_all (\<lambda>c. c = CHR ''i'') s" by (auto simp: sample_codec_sel split: if_splits)
    then have "s = replicate (Suc (length s - 1)) (CHR ''i'')"
      by (intro replicate_eqI) (simp, simp add: list_all_iff)
    with trim_unary [of "length s - 1"] that show False by (metis list.distinct(1) replicate_Suc)
  qed
  ultimately show ?thesis
    unfolding reread_ok_def using sample_codec_read
    by (simp add: sample_codec_sel(1) trim_unary del: replicate_Suc)
qed

end
