(* ===== verification/Anthropic_Wire.thy ===== *)
theory Anthropic_Wire
  imports Wire_Text
begin

text \<open>
  The Anthropic Messages dialect (\<open>crates/yb-wire/src/anthropic.rs\<close>): requests and responses in
  both directions, the decoder of an upstream event stream and the encoder of a client's.

  The encoder is written over frames (event name and JSON value); \<open>write_event\<close> renders a frame.
  The code appends to one output string, which is the concatenation of the rendered frames.
\<close>

section \<open>Content blocks\<close>

function anthropic_parse_content :: "json \<Rightarrow> content_block list wire_result"
  and anthropic_parse_block :: "json \<Rightarrow> content_block wire_result" where
  "anthropic_parse_content v =
     (case v of
        JStr s \<Rightarrow> Inr [Text s]
      | JArr items \<Rightarrow> collect_results (map anthropic_parse_block items)
      | JNull \<Rightarrow> Inr []
      | _ \<Rightarrow> Inl (InvalidField ''content'' ''expected string or array''))"
| "anthropic_parse_block b =
     (if jget b ''cache_control'' \<noteq> None \<and> opt_str b ''type'' \<noteq> Some ''text'' then
        Inr (Native ''anthropic'' b)
      else case opt_str b ''type'' of
        None \<Rightarrow> Inl (MissingField ''content[].type'')
      | Some ty \<Rightarrow>
          (if ty = ''text'' then
             (let text = unwrap_or_default (opt_str b ''text'') in
              case jget b ''cache_control'' of
                Some control \<Rightarrow>
                  (if opt_str control ''type'' = Some ''ephemeral''
                   then Inr (CachedText text (opt_str control ''ttl''))
                   else Inr (Native ''anthropic'' b))
              | None \<Rightarrow> Inr (Text text))
           else if ty = ''image'' then
             (let src = get_or JNull b ''source'' in
              if opt_str src ''type'' = Some ''url''
              then Inr (Image None None (opt_str src ''url''))
              else Inr (Image (opt_str src ''media_type'') (opt_str src ''data'') None))
           else if ty = ''tool_use'' then
             Inr (ToolUse (unwrap_or_default (opt_str b ''id'')) (unwrap_or_default (opt_str b ''name''))
                    (get_or (JObj []) b ''input''))
           else if ty = ''tool_result'' then
             (case (case jget b ''content'' of None \<Rightarrow> Inr [] | Some c \<Rightarrow> anthropic_parse_content c) of
                Inl e \<Rightarrow> Inl e
              | Inr cs \<Rightarrow>
                  Inr (ToolResult (unwrap_or_default (opt_str b ''tool_use_id'')) cs
                         (opt_bool b ''is_error'')))
           else if ty = ''thinking'' then
             Inr (Thinking (unwrap_or_default (opt_str b ''thinking'')) (opt_str b ''signature''))
           else
             Inr (Native ''anthropic''
                    (case b of JObj m \<Rightarrow> JObj (jinsert ''type'' (JStr ty) m) | _ \<Rightarrow> b))))"
  by pat_completeness auto
termination
proof (relation "measure (\<lambda>x. case x of Inl v \<Rightarrow> 2 * size v + 1 | Inr b \<Rightarrow> 2 * size b)", goal_cases)
  case (2 v items x)
  then have "size x < size v" by (simp add: less_Suc_eq_le size_list_estimation')
  then show ?case by simp
next
  case (3 b ty c)
  then have "size c < size b" using jget_size by blast
  then show ?case by simp
qed simp

declare anthropic_parse_content.simps [simp del] anthropic_parse_block.simps [simp del]

fun anthropic_emit_block :: "content_block \<Rightarrow> json" where
  "anthropic_emit_block (Text text) = JObj [(''type'', JStr ''text''), (''text'', JStr text)]"
| "anthropic_emit_block (CachedText text ttl) =
     (let control = JObj (insert_opt ''ttl'' (map_option JStr ttl) [(''type'', JStr ''ephemeral'')])
      in JObj [(''type'', JStr ''text''), (''text'', JStr text), (''cache_control'', control)])"
| "anthropic_emit_block (Image media_type data url) =
     (case url of
        Some url \<Rightarrow> JObj [(''type'', JStr ''image''),
           (''source'', JObj [(''type'', JStr ''url''), (''url'', JStr url)])]
      | None \<Rightarrow> JObj [(''type'', JStr ''image''),
           (''source'', JObj [(''type'', JStr ''base64''),
              (''media_type'', JStr (case media_type of None \<Rightarrow> ''image/png'' | Some mt \<Rightarrow> mt)),
              (''data'', JStr (unwrap_or_default data))])])"
| "anthropic_emit_block (ToolUse tid name input) =
     JObj [(''type'', JStr ''tool_use''), (''id'', JStr tid), (''name'', JStr name), (''input'', input)]"
| "anthropic_emit_block (ToolResult tid cs is_error) =
     JObj ([(''type'', JStr ''tool_result''), (''tool_use_id'', JStr tid),
            (''content'', if list_all is_text cs then JStr (join_text cs)
                        else JArr (map anthropic_emit_block cs))] @
           (if is_error then [(''is_error'', JBool True)] else []))"
| "anthropic_emit_block (Thinking text signature) =
     JObj (insert_opt ''signature'' (map_option JStr signature)
             [(''type'', JStr ''thinking''), (''thinking'', JStr text)])"
| "anthropic_emit_block (Native format raw) =
     (if format = ''anthropic'' then raw else JObj [(''type'', JStr ''text''), (''text'', JStr [])])"

text \<open>The content of a tool result and the system prompt take one form: a string where every block
  is text, an array otherwise.\<close>
definition anthropic_emit_system :: "content_block list \<Rightarrow> json" where
  "anthropic_emit_system blocks =
     (if list_all is_text blocks then JStr (join_text blocks)
      else JArr (map anthropic_emit_block blocks))"

definition anthropic_message_content :: "content_block list \<Rightarrow> json" where
  "anthropic_message_content cs =
     (if length cs = 1
      then (case cs ! 0 of Text text \<Rightarrow> JStr text | b \<Rightarrow> JArr [anthropic_emit_block b])
      else JArr (map anthropic_emit_block cs))"

definition anthropic_emit_message :: "message \<Rightarrow> json option" where
  "anthropic_emit_message m =
     (let emit = (\<lambda>role. Some (JObj [(''role'', JStr role), (''content'', anthropic_message_content (content m))]))
      in case msg_role m of
           AssistantRole \<Rightarrow> emit ''assistant''
         | UserRole \<Rightarrow> emit ''user''
         | ToolRole \<Rightarrow> emit ''user''
         | SystemRole \<Rightarrow> None
         | DeveloperRole \<Rightarrow> None)"

definition anthropic_parse_tool_choice :: "json \<Rightarrow> tool_choice wire_result" where
  "anthropic_parse_tool_choice v =
     (let ty = opt_str v ''type'' in
      if ty = Some ''auto'' then Inr ChoiceAuto
      else if ty = Some ''any'' then Inr ChoiceRequired
      else if ty = Some ''none'' then Inr ChoiceNone
      else if ty = Some ''tool'' then Inr (ChoiceTool (unwrap_or_default (opt_str v ''name'')))
      else Inl (InvalidField ''tool_choice.type'' ''unknown''))"

fun anthropic_emit_tool_choice :: "tool_choice \<Rightarrow> json" where
  "anthropic_emit_tool_choice ChoiceAuto = JObj [(''type'', JStr ''auto'')]"
| "anthropic_emit_tool_choice ChoiceNone = JObj [(''type'', JStr ''none'')]"
| "anthropic_emit_tool_choice ChoiceRequired = JObj [(''type'', JStr ''any'')]"
| "anthropic_emit_tool_choice (ChoiceTool name) = JObj [(''type'', JStr ''tool''), (''name'', JStr name)]"

definition anthropic_parse_stop_reason :: "string option \<Rightarrow> stop_reason" where
  "anthropic_parse_stop_reason s =
     (case s of
        None \<Rightarrow> EndTurn
      | Some r \<Rightarrow>
          if r = ''end_turn'' then EndTurn
          else if r = ''max_tokens'' then MaxTokens
          else if r = ''stop_sequence'' then StopSequence
          else if r = ''tool_use'' then StopToolUse
          else StopOther r)"

fun anthropic_stop_reason_str :: "stop_reason \<Rightarrow> string" where
  "anthropic_stop_reason_str EndTurn = ''end_turn''"
| "anthropic_stop_reason_str MaxTokens = ''max_tokens''"
| "anthropic_stop_reason_str StopSequence = ''stop_sequence''"
| "anthropic_stop_reason_str StopToolUse = ''tool_use''"
| "anthropic_stop_reason_str (StopOther s) = s"

section \<open>Requests\<close>

text \<open>The messages in order, with a system turn folded into the system prompt.\<close>
fun anthropic_parse_messages ::
  "json list \<Rightarrow> content_block list option \<Rightarrow> message list \<Rightarrow>
   (content_block list option \<times> message list) wire_result" where
  "anthropic_parse_messages [] sys msgs = Inr (sys, msgs)"
| "anthropic_parse_messages (m # ms) sys msgs =
     (case (case jget m ''content'' of None \<Rightarrow> Inr [] | Some c \<Rightarrow> anthropic_parse_content c) of
        Inl e \<Rightarrow> Inl e
      | Inr cs \<Rightarrow>
          (case opt_str m ''role'' of
             None \<Rightarrow> Inl (MissingField ''messages[].role'')
           | Some role \<Rightarrow>
               (if role = ''user''
                then anthropic_parse_messages ms sys (msgs @ [\<lparr>msg_role = UserRole, content = cs\<rparr>])
                else if role = ''assistant''
                then anthropic_parse_messages ms sys (msgs @ [\<lparr>msg_role = AssistantRole, content = cs\<rparr>])
                else if role = ''system''
                then anthropic_parse_messages ms
                       (Some ((case sys of None \<Rightarrow> [] | Some bs \<Rightarrow> bs) @ cs)) msgs
                else Inl (InvalidField ''messages[].role'' (''unknown '' @ role)))))"

definition anthropic_parse_tool :: "json \<Rightarrow> tool wire_result" where
  "anthropic_parse_tool t =
     (case req_str t ''name'' of
        Inl e \<Rightarrow> Inl e
      | Inr n \<Rightarrow> Inr \<lparr>tool_name = n, description = opt_str t ''description'',
                   input_schema = get_or JNull t ''input_schema'', strict = None,
                   anthropic_cache_control = jget t ''cache_control''\<rparr>)"

definition anthropic_thinking :: "json \<Rightarrow> reasoning option" where
  "anthropic_thinking v =
     (case jget v ''thinking'' of
        None \<Rightarrow> None
      | Some th \<Rightarrow>
          (if opt_str th ''type'' \<noteq> Some ''disabled''
           then Some \<lparr>effort = None, budget_tokens = opt_u32 th ''budget_tokens''\<rparr>
           else None))"

definition anthropic_parse_value :: "json \<Rightarrow> chat_request wire_result" where
  "anthropic_parse_value v =
     (case as_object v of None \<Rightarrow> Inl (InvalidRequest ''body is not a JSON object'') | Some _ \<Rightarrow>
      (case (case jget v ''system'' of
               None \<Rightarrow> Inr None
             | Some sys \<Rightarrow> map_sum id Some (anthropic_parse_content sys)) of
         Inl e \<Rightarrow> Inl e | Inr sys \<Rightarrow>
      (case (case opt_arr v ''messages'' of
               None \<Rightarrow> Inr (sys, [])
             | Some ms \<Rightarrow> anthropic_parse_messages ms sys []) of
         Inl e \<Rightarrow> Inl e | Inr (sys, msgs) \<Rightarrow>
      (case (case opt_arr v ''tools'' of
               None \<Rightarrow> Inr []
             | Some ts \<Rightarrow> collect_results (map anthropic_parse_tool ts)) of
         Inl e \<Rightarrow> Inl e | Inr ts \<Rightarrow>
      (case (case jget v ''tool_choice'' of
               None \<Rightarrow> Inr None
             | Some tc \<Rightarrow> map_sum id Some (anthropic_parse_tool_choice tc)) of
         Inl e \<Rightarrow> Inl e | Inr tc \<Rightarrow>
      Inr (chat_request_default
        \<lparr>model := unwrap_or_default (opt_str v ''model''), stream := opt_bool v ''stream'',
         max_tokens := opt_u32 v ''max_tokens'', temperature := opt_f32 v ''temperature'',
         top_p := opt_f32 v ''top_p'', stop := str_vec (jget v ''stop_sequences''),
         system := sys, messages := msgs, tools := ts, tool_choice := tc,
         reasoning := anthropic_thinking v,
         metadata := (case Option.bind (jget v ''metadata'') as_object of None \<Rightarrow> [] | Some md \<Rightarrow> md),
         context_management := jget v ''context_management'',
         output_config := jget v ''output_config''\<rparr>))))))"

definition anthropic_parse_request :: "json_codec \<Rightarrow> bytes \<Rightarrow> chat_request wire_result" where
  "anthropic_parse_request jc body =
     (case from_slice jc body of Inl e \<Rightarrow> Inl e | Inr v \<Rightarrow> anthropic_parse_value v)"

definition effort_to_budget :: "string \<Rightarrow> 32 word" where
  "effort_to_budget e = (if e = ''low'' then 1024 else if e = ''high'' then 8192 else 4096)"

definition anthropic_emit_tool :: "tool \<Rightarrow> json" where
  "anthropic_emit_tool t =
     (let m = insert_opt ''description'' (map_option JStr (description t)) [(''name'', JStr (tool_name t))];
          m = jinsert ''input_schema'' (input_schema t) m
      in JObj (insert_opt ''cache_control'' (anthropic_cache_control t) m))"

definition anthropic_budget :: "chat_request \<Rightarrow> emit_options \<Rightarrow> (32 word) option" where
  "anthropic_budget req opts =
     (case Option.bind (reasoning req) budget_tokens of
        Some b \<Rightarrow> Some b
      | None \<Rightarrow> map_option effort_to_budget (emitted_effort req opts))"

definition anthropic_emit_value :: "chat_request \<Rightarrow> emit_options \<Rightarrow> json" where
  "anthropic_emit_value req opts =
     (let sys = effective_system req;
          m = [(''model'', JStr (emitted_model req opts)),
               (''max_tokens'', ju32 (case max_tokens req of None \<Rightarrow> 4096 | Some n \<Rightarrow> n))];
          m = insert_opt ''system'' (if sys = [] then None else Some (anthropic_emit_system sys)) m;
          m = jinsert ''messages'' (JArr (List.map_filter anthropic_emit_message (messages req))) m;
          m = insert_opt ''tools'' (if tools req = [] then None
                else Some (JArr (map anthropic_emit_tool (tools req)))) m;
          m = insert_opt ''tool_choice'' (map_option anthropic_emit_tool_choice (tool_choice req)) m;
          m = insert_opt ''temperature'' (map_option jf32 (temperature req)) m;
          m = insert_opt ''top_p'' (map_option jf32 (top_p req)) m;
          m = insert_opt ''stop_sequences'' (if stop req = [] then None
                else Some (JArr (map JStr (stop req)))) m;
          m = insert_opt ''stream'' (if emit_stream opts then Some (JBool True) else None) m;
          m = insert_opt ''thinking'' (map_option (\<lambda>b. JObj [(''type'', JStr ''enabled''), (''budget_tokens'', ju32 b)])
                (anthropic_budget req opts)) m;
          m = insert_opt ''metadata'' (if metadata req = [] then None else Some (JObj (metadata req))) m;
          m = insert_opt ''context_management'' (context_management req) m;
          m = insert_opt ''output_config'' (output_config req) m
      in JObj m)"

definition anthropic_emit_request ::
  "json_codec \<Rightarrow> chat_request \<Rightarrow> emit_options \<Rightarrow> emitted_request wire_result" where
  "anthropic_emit_request jc req opts =
     Inr (to_string jc (anthropic_emit_value req opts),
          [(''content-type'', ''application/json''), (''anthropic-version'', ''2023-06-01'')])"

section \<open>Responses\<close>

definition anthropic_parse_usage :: "json option \<Rightarrow> usage" where
  "anthropic_parse_usage v =
     (case v of
        None \<Rightarrow> usage_default
      | Some v \<Rightarrow>
          (let count = (\<lambda>k. case opt_u32 v k of None \<Rightarrow> 0 | Some n \<Rightarrow> n)
           in usage_default
                \<lparr>input_tokens := count ''input_tokens'', output_tokens := count ''output_tokens'',
                 cache_read_tokens := count ''cache_read_input_tokens'',
                 cache_write_tokens := count ''cache_creation_input_tokens''\<rparr>))"

definition anthropic_emit_usage :: "usage \<Rightarrow> json" where
  "anthropic_emit_usage u =
     JObj [(''input_tokens'', ju32 (input_tokens u)), (''output_tokens'', ju32 (output_tokens u)),
           (''cache_read_input_tokens'', ju32 (cache_read_tokens u)),
           (''cache_creation_input_tokens'', ju32 (cache_write_tokens u))]"

definition anthropic_parse_response :: "json_codec \<Rightarrow> bytes \<Rightarrow> chat_response wire_result" where
  "anthropic_parse_response jc body =
     (case from_slice jc body of Inl e \<Rightarrow> Inl e | Inr v \<Rightarrow>
      (case (case jget v ''content'' of None \<Rightarrow> Inr [] | Some c \<Rightarrow> anthropic_parse_content c) of
         Inl e \<Rightarrow> Inl e
       | Inr cs \<Rightarrow>
           Inr \<lparr>response_id = unwrap_or_default (opt_str v ''id''),
                response_model = unwrap_or_default (opt_str v ''model''),
                response_content = cs,
                response_stop = anthropic_parse_stop_reason (opt_str v ''stop_reason''),
                response_usage = anthropic_parse_usage (jget v ''usage''),
                response_cache_key = None, response_cache_retention = None\<rparr>))"

definition anthropic_response_value :: "chat_response \<Rightarrow> json" where
  "anthropic_response_value resp =
     JObj [(''id'', JStr (response_id resp)), (''type'', JStr ''message''), (''role'', JStr ''assistant''),
           (''model'', JStr (response_model resp)),
           (''content'', JArr (map anthropic_emit_block (response_content resp))),
           (''stop_reason'', JStr (anthropic_stop_reason_str (response_stop resp))),
           (''stop_sequence'', JNull), (''usage'', anthropic_emit_usage (response_usage resp))]"

definition anthropic_emit_response :: "json_codec \<Rightarrow> chat_response \<Rightarrow> bytes wire_result" where
  "anthropic_emit_response jc resp = Inr (to_string jc (anthropic_response_value resp))"

section \<open>Streaming\<close>

text \<open>The decoder keeps the stop reason of \<open>message_delta\<close> until \<open>message_stop\<close>.\<close>
type_synonym anthropic_sse = "stop_reason option"

definition anthropic_decode_value :: "anthropic_sse \<Rightarrow> json \<Rightarrow> stream_event list \<times> anthropic_sse" where
  "anthropic_decode_value st v =
     (let ty = unwrap_or_default (opt_str v ''type'') in
      if ty = ''message_start'' then
        (let msg = get_or JNull v ''message''
         in (MessageStart (unwrap_or_default (opt_str msg ''model'')) #
             (case jget msg ''usage'' of
                None \<Rightarrow> []
              | Some u \<Rightarrow> if u = JNull then [] else [UsageDelta (anthropic_parse_usage (Some u))]), st))
      else if ty = ''content_block_start'' then
        (let block = get_or JNull v ''content_block''
         in (if opt_str block ''type'' = Some ''tool_use''
             then [ToolUseStart (unwrap_or_default (opt_str block ''id'')) (unwrap_or_default (opt_str block ''name''))]
             else [], st))
      else if ty = ''content_block_delta'' then
        (let delta = get_or JNull v ''delta''; dty = opt_str delta ''type''
         in (if dty = Some ''text_delta'' then [TextDelta (unwrap_or_default (opt_str delta ''text''))]
             else if dty = Some ''thinking_delta'' then [ThinkingDelta (unwrap_or_default (opt_str delta ''thinking''))]
             else if dty = Some ''input_json_delta'' then [ToolUseDelta (unwrap_or_default (opt_str delta ''partial_json''))]
             else [], st))
      else if ty = ''message_delta'' then
        (let delta = get_or JNull v ''delta''
         in (case jget v ''usage'' of None \<Rightarrow> [] | Some u \<Rightarrow> [UsageDelta (anthropic_parse_usage (Some u))],
             Some (anthropic_parse_stop_reason (opt_str delta ''stop_reason''))))
      else if ty = ''message_stop'' then
        ([Done (case st of None \<Rightarrow> EndTurn | Some s \<Rightarrow> s)], None)
      else ([], st))"

definition anthropic_decode_sse :: "json_codec \<Rightarrow> anthropic_sse \<Rightarrow> string \<Rightarrow> stream_event list \<times> anthropic_sse" where
  "anthropic_decode_sse jc st line =
     (case sse_value jc line of None \<Rightarrow> ([], st) | Some v \<Rightarrow> anthropic_decode_value st v)"

record anthropic_emit =
  an_started :: bool
  an_model :: string
  an_next_index :: nat
  an_open :: "block_kind option"
  an_usage :: usage

definition anthropic_emit_new :: anthropic_emit where
  "anthropic_emit_new =
     \<lparr>an_started = False, an_model = [], an_next_index = 0, an_open = None, an_usage = usage_default\<rparr>"

type_synonym anthropic_frame = "string \<times> json"

definition emit_message_start :: "anthropic_emit \<Rightarrow> anthropic_frame list \<times> anthropic_emit" where
  "emit_message_start st =
     ([(''message_start'', JObj [(''type'', JStr ''message_start''), (''message'', JObj
         [(''id'', JStr ''msg_stream''), (''type'', JStr ''message''), (''role'', JStr ''assistant''),
          (''model'', JStr (an_model st)), (''content'', JArr []), (''stop_reason'', JNull),
          (''stop_sequence'', JNull),
          (''usage'', JObj [(''input_tokens'', jnat 0), (''output_tokens'', jnat 0)])])])],
      st\<lparr>an_started := True\<rparr>)"

definition anthropic_ensure_started :: "anthropic_emit \<Rightarrow> anthropic_frame list \<times> anthropic_emit" where
  "anthropic_ensure_started st = (if an_started st then ([], st) else emit_message_start st)"

definition close_open :: "anthropic_emit \<Rightarrow> anthropic_frame list \<times> anthropic_emit" where
  "close_open st =
     (if an_open st = None then ([], st)
      else ([(''content_block_stop'', JObj [(''type'', JStr ''content_block_stop''),
               (''index'', jnat (an_next_index st))])],
            st\<lparr>an_open := None, an_next_index := an_next_index st + 1\<rparr>))"

definition block_start :: "nat \<Rightarrow> json \<Rightarrow> anthropic_frame" where
  "block_start i block = (''content_block_start'',
     JObj [(''type'', JStr ''content_block_start''), (''index'', jnat i), (''content_block'', block)])"

definition block_delta :: "nat \<Rightarrow> string \<Rightarrow> string \<Rightarrow> string \<Rightarrow> anthropic_frame" where
  "block_delta i ty field text = (''content_block_delta'',
     JObj [(''type'', JStr ''content_block_delta''), (''index'', jnat i),
           (''delta'', JObj [(''type'', JStr ty), (field, JStr text)])])"

fun empty_block :: "block_kind \<Rightarrow> json" where
  "empty_block TextBlock = JObj [(''type'', JStr ''text''), (''text'', JStr [])]"
| "empty_block ThinkingBlock = JObj [(''type'', JStr ''thinking''), (''thinking'', JStr [])]"
| "empty_block ToolBlock = JObj [(''type'', JStr ''tool_use''), (''id'', JStr []), (''name'', JStr []), (''input'', JObj [])]"

definition ensure_block :: "block_kind \<Rightarrow> anthropic_emit \<Rightarrow> anthropic_frame list \<times> anthropic_emit" where
  "ensure_block k st =
     (let (f1, st) = anthropic_ensure_started st in
      if an_open st = Some k then (f1, st)
      else
        (let (f2, st) = close_open st
         in (f1 @ f2 @ [block_start (an_next_index st) (empty_block k)], st\<lparr>an_open := Some k\<rparr>)))"

fun anthropic_encode_event :: "anthropic_emit \<Rightarrow> stream_event \<Rightarrow> anthropic_frame list \<times> anthropic_emit" where
  "anthropic_encode_event st (MessageStart m) = emit_message_start (st\<lparr>an_model := m\<rparr>)"
| "anthropic_encode_event st (TextDelta t) =
     (let (f, st) = ensure_block TextBlock st
      in (f @ [block_delta (an_next_index st) ''text_delta'' ''text'' t], st))"
| "anthropic_encode_event st (ThinkingDelta t) =
     (let (f, st) = ensure_block ThinkingBlock st
      in (f @ [block_delta (an_next_index st) ''thinking_delta'' ''thinking'' t], st))"
| "anthropic_encode_event st (ToolUseStart tid name) =
     (let (f1, st) = anthropic_ensure_started st; (f2, st) = close_open st
      in (f1 @ f2 @ [block_start (an_next_index st)
            (JObj [(''type'', JStr ''tool_use''), (''id'', JStr tid), (''name'', JStr name), (''input'', JObj [])])],
          st\<lparr>an_open := Some ToolBlock\<rparr>))"
| "anthropic_encode_event st (ToolUseDelta j) =
     (let (f, st) = ensure_block ToolBlock st
      in (f @ [block_delta (an_next_index st) ''input_json_delta'' ''partial_json'' j], st))"
| "anthropic_encode_event st (UsageDelta u) = ([], st\<lparr>an_usage := usage_merge (an_usage st) u\<rparr>)"
| "anthropic_encode_event st (Done s) =
     (let (f1, st) = anthropic_ensure_started st; (f2, st) = close_open st
      in (f1 @ f2 @
          [(''message_delta'', JObj [(''type'', JStr ''message_delta''),
              (''delta'', JObj [(''stop_reason'', JStr (anthropic_stop_reason_str s)), (''stop_sequence'', JNull)]),
              (''usage'', JObj [(''output_tokens'', ju32 (output_tokens (an_usage st)))])]),
           (''message_stop'', JObj [(''type'', JStr ''message_stop'')])], st))"

definition anthropic_encode_events :: "anthropic_emit \<Rightarrow> stream_event list \<Rightarrow> anthropic_frame list \<times> anthropic_emit" where
  "anthropic_encode_events = encode_all anthropic_encode_event"

definition write_event :: "json_codec \<Rightarrow> anthropic_frame \<Rightarrow> string" where
  "write_event jc f = ''event: '' @ fst f @ [CHR 0x0A] @ ''data: '' @ to_string jc (snd f) @ [CHR 0x0A, CHR 0x0A]"

definition anthropic_encode_sse :: "json_codec \<Rightarrow> anthropic_emit \<Rightarrow> stream_event list \<Rightarrow> bytes \<times> anthropic_emit" where
  "anthropic_encode_sse jc st evs =
     (let (fs, st) = anthropic_encode_events st evs in (concat (map (write_event jc) fs), st))"

section \<open>The block mapping\<close>

lemmas anthropic_parse_simps = anthropic_parse_content.simps anthropic_parse_block.simps

lemma jinsert_same: "jget_obj m k = Some v \<Longrightarrow> jinsert k v m = m"
  by (induction k v m rule: jinsert.induct) (auto split: if_splits)

text \<open>A native block is one the parser made: it reads back as itself.\<close>
fun anthropic_block_ok :: "content_block \<Rightarrow> bool" where
  "anthropic_block_ok (ToolResult i cs e) \<longleftrightarrow> list_all anthropic_block_ok cs"
| "anthropic_block_ok (Native f raw) \<longleftrightarrow>
     f = ''anthropic'' \<and> anthropic_parse_block raw = Inr (Native f raw)"
| "anthropic_block_ok _ \<longleftrightarrow> True"

text \<open>What a block becomes on its way through the dialect.\<close>
fun anthropic_normal :: "content_block \<Rightarrow> content_block" where
  "anthropic_normal (Image mt d url) =
     (case url of
        Some u \<Rightarrow> Image None None (Some u)
      | None \<Rightarrow> Image (Some (case mt of None \<Rightarrow> ''image/png'' | Some t \<Rightarrow> t)) (Some (unwrap_or_default d)) None)"
| "anthropic_normal (ToolResult i cs e) =
     ToolResult i (if list_all is_text cs then [Text (join_text cs)] else map anthropic_normal cs) e"
| "anthropic_normal b = b"

lemma parse_emit_block:
  "anthropic_block_ok b \<Longrightarrow> anthropic_parse_block (anthropic_emit_block b) = Inr (anthropic_normal b)"
proof (induction b rule: anthropic_block_ok.induct)
  case (1 i cs e)
  have "collect_results (map (\<lambda>x. anthropic_parse_block (anthropic_emit_block x)) cs) = Inr (map anthropic_normal cs)"
    using 1 by (intro collect_results_map_Inr) (auto simp: list_all_iff)
  then show ?case
    by (auto simp: anthropic_parse_simps wire_simps comp_def)
qed (auto simp: anthropic_parse_block.simps wire_simps insert_opt_def split: option.split)

lemma parse_block_native:
  "anthropic_parse_block b = Inr (Native f raw) \<Longrightarrow> f = ''anthropic'' \<and> raw = b"
  by (subst (asm) anthropic_parse_block.simps)
     (auto simp: Let_def opt_str_Some jinsert_same split: if_splits option.splits sum.splits)

lemma parse_block_tool_result:
  "anthropic_parse_block b = Inr (ToolResult i cs e) \<Longrightarrow>
     cs = [] \<or> (\<exists>c. jget b ''content'' = Some c \<and> anthropic_parse_content c = Inr cs)"
  by (subst (asm) anthropic_parse_block.simps)
     (auto simp: Let_def split: if_splits option.splits sum.splits)

lemma parse_size_induct:
  "(\<forall>cs. anthropic_parse_content v = Inr cs \<longrightarrow> list_all anthropic_block_ok cs) \<and>
   (\<forall>c. anthropic_parse_block v = Inr c \<longrightarrow> anthropic_block_ok c)"
proof (induction v rule: measure_induct_rule [of size])
  case (less v)
  have 1: "list_all anthropic_block_ok cs" if p: "anthropic_parse_content v = Inr cs" for cs
  proof (cases v)
    case (JArr items)
    have "\<forall>x \<in> set items. size x < size v"
      using JArr by (simp add: less_Suc_eq_le size_list_estimation')
    moreover have "\<forall>c \<in> set cs. \<exists>x \<in> set items. anthropic_parse_block x = Inr c"
      using p JArr by (intro collect_results_mapD) (simp add: anthropic_parse_content.simps)
    ultimately show ?thesis using less unfolding list_all_iff by metis
  qed (use p in \<open>auto simp: anthropic_parse_content.simps\<close>)
  moreover have "anthropic_block_ok c" if p: "anthropic_parse_block v = Inr c" for c
  proof (cases c)
    case (ToolResult i cs e)
    with p have "cs = [] \<or> (\<exists>w. jget v ''content'' = Some w \<and> anthropic_parse_content w = Inr cs)"
      by (blast dest: parse_block_tool_result)
    with less ToolResult show ?thesis by (auto dest: jget_size)
  next
    case (Native f raw)
    with p have "f = ''anthropic'' \<and> raw = v" by (blast dest: parse_block_native)
    with p Native show ?thesis by simp
  qed simp_all
  ultimately show ?case by blast
qed

lemma parse_content_ok: "anthropic_parse_content v = Inr cs \<Longrightarrow> list_all anthropic_block_ok cs"
  using parse_size_induct by blast

lemma parse_emit_blocks:
  "list_all anthropic_block_ok cs \<Longrightarrow>
     anthropic_parse_content (JArr (map anthropic_emit_block cs)) = Inr (map anthropic_normal cs)"
  by (auto simp: anthropic_parse_content.simps comp_def list_all_iff parse_emit_block intro!: collect_results_map_Inr)

section \<open>Relaying a request\<close>

definition anthropic_request_ok :: "chat_request \<Rightarrow> bool" where
  "anthropic_request_ok req \<longleftrightarrow>
     (\<forall>m \<in> set (messages req). msg_role m \<in> {UserRole, AssistantRole} \<and> list_all anthropic_block_ok (content m)) \<and>
     (\<forall>cs. system req = Some cs \<longrightarrow> list_all anthropic_block_ok cs) \<and>
     (\<forall>t \<in> set (tools req). strict t = None) \<and>
     native_input req = None \<and> native_request req = None \<and> \<not> include_usage req \<and>
     prompt_cache_key req = None \<and> prompt_cache_retention req = None \<and> prompt_cache_options req = None"

definition anthropic_relayed_system :: "content_block list \<Rightarrow> content_block list option" where
  "anthropic_relayed_system cs =
     (if cs = [] then None
      else Some (if list_all is_text cs then [Text (join_text cs)] else map anthropic_normal cs))"

text \<open>What an Anthropic upstream understands of a request the gateway relays.\<close>
definition anthropic_relayed :: "emit_options \<Rightarrow> chat_request \<Rightarrow> chat_request" where
  "anthropic_relayed opts req = req
     \<lparr>model := emitted_model req opts, stream := emit_stream opts,
      max_tokens := Some (case max_tokens req of None \<Rightarrow> 4096 | Some n \<Rightarrow> n),
      system := anthropic_relayed_system (case system req of None \<Rightarrow> [] | Some cs \<Rightarrow> cs),
      messages := map (\<lambda>m. m\<lparr>content := map anthropic_normal (content m)\<rparr>) (messages req),
      reasoning := map_option (\<lambda>b. \<lparr>effort = None, budget_tokens = Some b\<rparr>) (anthropic_budget req opts)\<rparr>"

lemma emit_value_gets:
  "jget (anthropic_emit_value req opts) ''model'' = Some (JStr (emitted_model req opts))"
  "jget (anthropic_emit_value req opts) ''max_tokens'' =
     Some (ju32 (case max_tokens req of None \<Rightarrow> 4096 | Some n \<Rightarrow> n))"
  "jget (anthropic_emit_value req opts) ''system'' =
     (if effective_system req = [] then None else Some (anthropic_emit_system (effective_system req)))"
  "jget (anthropic_emit_value req opts) ''messages'' =
     Some (JArr (List.map_filter anthropic_emit_message (messages req)))"
  "jget (anthropic_emit_value req opts) ''tools'' =
     (if tools req = [] then None else Some (JArr (map anthropic_emit_tool (tools req))))"
  "jget (anthropic_emit_value req opts) ''tool_choice'' =
     map_option anthropic_emit_tool_choice (tool_choice req)"
  "jget (anthropic_emit_value req opts) ''temperature'' = map_option jf32 (temperature req)"
  "jget (anthropic_emit_value req opts) ''top_p'' = map_option jf32 (top_p req)"
  "jget (anthropic_emit_value req opts) ''stop_sequences'' =
     (if stop req = [] then None else Some (JArr (map JStr (stop req))))"
  "jget (anthropic_emit_value req opts) ''stream'' = (if emit_stream opts then Some (JBool True) else None)"
  "jget (anthropic_emit_value req opts) ''thinking'' =
     map_option (\<lambda>b. JObj [(''type'', JStr ''enabled''), (''budget_tokens'', ju32 b)]) (anthropic_budget req opts)"
  "jget (anthropic_emit_value req opts) ''metadata'' =
     (if metadata req = [] then None else Some (JObj (metadata req)))"
  "jget (anthropic_emit_value req opts) ''context_management'' = context_management req"
  "jget (anthropic_emit_value req opts) ''output_config'' = output_config req"
  by (simp_all add: anthropic_emit_value_def Let_def)

lemma parse_emit_content:
  assumes "list_all anthropic_block_ok cs" "cs \<noteq> []"
  shows "anthropic_parse_content (anthropic_emit_system cs) = Inr (the (anthropic_relayed_system cs))"
  using assms parse_emit_blocks [OF assms(1)]
  by (auto simp: anthropic_emit_system_def anthropic_relayed_system_def anthropic_parse_content.simps)

lemma parse_message_content:
  assumes "list_all anthropic_block_ok cs"
  shows "anthropic_parse_content (anthropic_message_content cs) = Inr (map anthropic_normal cs)"
proof (cases "\<exists>t. cs = [Text t]")
  case True
  then show ?thesis by (auto simp: anthropic_message_content_def anthropic_parse_content.simps)
next
  case False
  then have "anthropic_message_content cs = JArr (map anthropic_emit_block cs)"
    by (cases cs) (auto simp: anthropic_message_content_def split: content_block.split)
  with assms show ?thesis by (simp add: parse_emit_blocks)
qed

lemma parse_emit_message:
  assumes "msg_role m \<in> {UserRole, AssistantRole}" "list_all anthropic_block_ok (content m)"
  shows "\<exists>v. anthropic_emit_message m = Some v \<and>
    (\<forall>ms sys acc. anthropic_parse_messages (v # ms) sys acc =
       anthropic_parse_messages ms sys (acc @ [m\<lparr>content := map anthropic_normal (content m)\<rparr>]))"
  using assms parse_message_content [OF assms(2)]
  by (cases m) (auto simp: anthropic_emit_message_def wire_simps)

lemma parse_emit_messages:
  assumes "\<forall>m \<in> set ms. msg_role m \<in> {UserRole, AssistantRole} \<and> list_all anthropic_block_ok (content m)"
  shows "anthropic_parse_messages (List.map_filter anthropic_emit_message ms) sys acc =
    Inr (sys, acc @ map (\<lambda>m. m\<lparr>content := map anthropic_normal (content m)\<rparr>) ms)"
  using assms
proof (induction ms arbitrary: acc)
  case (Cons m ms)
  then obtain v where "anthropic_emit_message m = Some v"
    and "\<And>ms sys acc. anthropic_parse_messages (v # ms) sys acc =
      anthropic_parse_messages ms sys (acc @ [m\<lparr>content := map anthropic_normal (content m)\<rparr>])"
    using parse_emit_message [of m] by auto
  with Cons show ?case by (simp add: List.map_filter_simps)
qed (simp add: List.map_filter_simps)

lemma parse_emit_tool: "strict t = None \<Longrightarrow> anthropic_parse_tool (anthropic_emit_tool t) = Inr t"
  by (cases t) (auto simp: anthropic_parse_tool_def anthropic_emit_tool_def Let_def req_str_def
      opt_str_def get_or_def insert_opt_def split: option.splits)

lemma parse_emit_tool_choice: "anthropic_parse_tool_choice (anthropic_emit_tool_choice tc) = Inr tc"
  by (cases tc) (simp_all add: anthropic_parse_tool_choice_def Let_def wire_simps)

lemma effective_system_plain:
  assumes "\<forall>m \<in> set (messages req). msg_role m \<in> {UserRole, AssistantRole}"
  shows "effective_system req = (case system req of None \<Rightarrow> [] | Some cs \<Rightarrow> cs)"
proof -
  have "filter (\<lambda>m. msg_role m = SystemRole \<or> msg_role m = DeveloperRole) (messages req) = []"
    using assms by (auto simp: filter_empty_conv)
  then show ?thesis by (simp add: effective_system_def)
qed

lemma parse_emit_value:
  assumes ok: "anthropic_request_ok req"
  shows "anthropic_parse_value (anthropic_emit_value req opts) = Inr (anthropic_relayed opts req)"
proof -
  let ?v = "anthropic_emit_value req opts"
  let ?cs = "case system req of None \<Rightarrow> [] | Some cs \<Rightarrow> cs"
  have sys: "effective_system req = ?cs"
    using ok by (intro effective_system_plain) (simp add: anthropic_request_ok_def)
  have "list_all anthropic_block_ok ?cs"
    using ok by (auto simp: anthropic_request_ok_def split: option.split)
  then have 1: "(case jget ?v ''system'' of None \<Rightarrow> Inr None
      | Some sys \<Rightarrow> map_sum id Some (anthropic_parse_content sys)) = Inr (anthropic_relayed_system ?cs)"
    by (simp add: emit_value_gets sys parse_emit_content) (simp add: anthropic_relayed_system_def)
  have 2: "anthropic_parse_messages (List.map_filter anthropic_emit_message (messages req)) x [] =
      Inr (x, map (\<lambda>m. m\<lparr>content := map anthropic_normal (content m)\<rparr>) (messages req))" for x
    using ok parse_emit_messages [of "messages req" x "[]"] by (simp add: anthropic_request_ok_def)
  have 3: "(case opt_arr ?v ''tools'' of None \<Rightarrow> Inr []
      | Some ts \<Rightarrow> collect_results (map anthropic_parse_tool ts)) = Inr (tools req)"
    using ok collect_results_map_Inr [of "tools req" "anthropic_parse_tool \<circ> anthropic_emit_tool" id]
    by (simp add: opt_arr_def emit_value_gets parse_emit_tool anthropic_request_ok_def)
  have 4: "(case jget ?v ''tool_choice'' of None \<Rightarrow> Inr None
      | Some tc \<Rightarrow> map_sum id Some (anthropic_parse_tool_choice tc)) = Inr (tool_choice req)"
    by (cases "tool_choice req") (simp_all add: emit_value_gets parse_emit_tool_choice)
  have 5: "anthropic_thinking ?v =
      map_option (\<lambda>b. \<lparr>effort = None, budget_tokens = Some b\<rparr>) (anthropic_budget req opts)"
    by (cases "anthropic_budget req opts") (simp_all add: anthropic_thinking_def emit_value_gets wire_simps)
  have 6: "opt_str ?v ''model'' = Some (emitted_model req opts)" "opt_bool ?v ''stream'' = emit_stream opts"
    "opt_u32 ?v ''max_tokens'' = Some (case max_tokens req of None \<Rightarrow> 4096 | Some n \<Rightarrow> n)"
    "opt_f32 ?v ''temperature'' = temperature req" "opt_f32 ?v ''top_p'' = top_p req"
    "str_vec (jget ?v ''stop_sequences'') = stop req"
    "(case Option.bind (jget ?v ''metadata'') as_object of None \<Rightarrow> [] | Some md \<Rightarrow> md) = metadata req"
    "opt_arr ?v ''messages'' = Some (List.map_filter anthropic_emit_message (messages req))"
    by (simp_all add: opt_str_def opt_bool_def opt_u32_def opt_f32_def opt_arr_def str_vec_def
        emit_value_gets map_filter_as_str bind_jf32)
  obtain mm where 7: "as_object ?v = Some mm" by (simp add: anthropic_emit_value_def Let_def)
  show ?thesis
    using ok unfolding anthropic_parse_value_def 7 1 3 4 5 6 option.case sum.case 2 prod.case emit_value_gets(13,14)
    by (simp add: chat_request_default_def anthropic_relayed_def anthropic_request_ok_def)
qed

definition anthropic_messages_ok :: "content_block list option \<Rightarrow> message list \<Rightarrow> bool" where
  "anthropic_messages_ok sys ms \<longleftrightarrow>
     (\<forall>m \<in> set ms. msg_role m \<in> {UserRole, AssistantRole} \<and> list_all anthropic_block_ok (content m)) \<and>
     (\<forall>cs. sys = Some cs \<longrightarrow> list_all anthropic_block_ok cs)"

lemma parse_messages_ok:
  "anthropic_parse_messages ms sys acc = Inr (sys', ms') \<Longrightarrow> anthropic_messages_ok sys acc \<Longrightarrow>
     anthropic_messages_ok sys' ms'"
proof (induction ms sys acc rule: anthropic_parse_messages.induct)
  case (2 m ms sys acc)
  from 2(4) obtain cs role where c: "(case jget m ''content'' of None \<Rightarrow> Inr [] | Some c \<Rightarrow> anthropic_parse_content c) = Inr cs"
    and r: "opt_str m ''role'' = Some role"
    by (simp split: sum.splits option.splits)
  have "list_all anthropic_block_ok cs" using c by (auto dest: parse_content_ok split: option.splits)
  with 2(5) have
    "anthropic_messages_ok sys (acc @ [\<lparr>msg_role = UserRole, content = cs\<rparr>])"
    "anthropic_messages_ok sys (acc @ [\<lparr>msg_role = AssistantRole, content = cs\<rparr>])"
    "anthropic_messages_ok (Some ((case sys of None \<Rightarrow> [] | Some bs \<Rightarrow> bs) @ cs)) acc"
    by (auto simp: anthropic_messages_ok_def split: option.split)
  with 2(1-3) [OF c r] 2(4) c r show ?case by (simp split: if_splits)
qed simp

lemma parse_tool_strict: "anthropic_parse_tool v = Inr t \<Longrightarrow> strict t = None"
  by (auto simp: anthropic_parse_tool_def split: sum.splits)

lemma parse_value_ok:
  assumes "anthropic_parse_value v = Inr req"
  shows "anthropic_request_ok req"
proof -
  obtain sys0 where sys0: "(case jget v ''system'' of None \<Rightarrow> Inr None
      | Some sys \<Rightarrow> map_sum id Some (anthropic_parse_content sys)) = Inr sys0"
    using assms by (auto simp: anthropic_parse_value_def split: option.splits sum.splits)
  have ok0: "anthropic_messages_ok sys0 []"
    using sys0 by (auto simp: anthropic_messages_ok_def map_sum_def dest: parse_content_ok split: option.splits sum.splits)
  obtain sys msgs where m: "(case opt_arr v ''messages'' of None \<Rightarrow> Inr (sys0, [])
      | Some ms \<Rightarrow> anthropic_parse_messages ms sys0 []) = Inr (sys, msgs)"
    using assms unfolding anthropic_parse_value_def sys0
    by (auto split: option.splits sum.splits)
  have ok1: "anthropic_messages_ok sys msgs"
    using m ok0 by (auto dest: parse_messages_ok split: option.splits)
  obtain ts where t: "(case opt_arr v ''tools'' of None \<Rightarrow> Inr []
      | Some ts \<Rightarrow> collect_results (map anthropic_parse_tool ts)) = Inr ts"
    using assms unfolding anthropic_parse_value_def sys0
    by (auto simp: m split: option.splits sum.splits)
  have ok2: "\<forall>t \<in> set ts. strict t = None"
    using t by (auto dest!: collect_results_mapD dest: parse_tool_strict split: option.splits)
  show ?thesis
    using assms ok1 ok2 unfolding anthropic_parse_value_def sys0
    by (auto simp: m t anthropic_request_ok_def anthropic_messages_ok_def chat_request_default_def
        split: option.splits sum.splits)
qed

lemma is_text_normal [simp]: "is_text (anthropic_normal b) = is_text b"
  by (cases b) (simp_all split: option.split)

lemma anthropic_normal_idem [simp]: "anthropic_normal (anthropic_normal b) = anthropic_normal b"
proof (induction b rule: anthropic_normal.induct)
  case (2 i cs e)
  have "list_all is_text (map anthropic_normal cs) = list_all is_text cs"
    by (induction cs) simp_all
  with 2 show ?case by (auto simp: comp_def)
qed (auto split: option.split)

lemma block_text_normal [simp]: "block_text (anthropic_normal b) = block_text b"
  by (cases b) (simp_all split: option.split)

lemma relayed_system_idem:
  "anthropic_relayed_system (case anthropic_relayed_system cs of None \<Rightarrow> [] | Some c \<Rightarrow> c) = anthropic_relayed_system cs"
proof -
  have "list_all is_text (map anthropic_normal cs) = list_all is_text cs"
    by (induction cs) simp_all
  then show ?thesis by (auto simp: anthropic_relayed_system_def comp_def)
qed

lemma anthropic_budget_relayed: "anthropic_budget (anthropic_relayed opts req) opts = anthropic_budget req opts"
proof (cases "anthropic_budget req opts")
  case None
  then have "emitted_effort req opts = None" by (auto simp: anthropic_budget_def split: option.splits)
  with None show ?thesis
    by (auto simp: anthropic_relayed_def anthropic_budget_def emitted_effort_def split: option.splits)
next
  case (Some b)
  then have "reasoning (anthropic_relayed opts req) = Some \<lparr>effort = None, budget_tokens = Some b\<rparr>"
    by (simp add: anthropic_relayed_def)
  with Some show ?thesis by (simp add: anthropic_budget_def)
qed

lemma anthropic_relayed_idem: "anthropic_relayed opts (anthropic_relayed opts req) = anthropic_relayed opts req"
proof -
  have "reasoning (anthropic_relayed opts (anthropic_relayed opts req)) = reasoning (anthropic_relayed opts req)"
    unfolding anthropic_relayed_def [of opts "anthropic_relayed opts req"]
    by (simp add: anthropic_budget_relayed) (simp add: anthropic_relayed_def)
  moreover have "system (anthropic_relayed opts (anthropic_relayed opts req)) = system (anthropic_relayed opts req)"
    by (simp add: anthropic_relayed_def relayed_system_idem)
  ultimately show ?thesis
    by (simp add: anthropic_relayed_def emitted_model_def comp_def)
qed


definition sample_anthropic_body :: json where
  "sample_anthropic_body = JObj
     [(''model'', JStr ''m''), (''system'', JArr [JObj [(''type'', JStr ''text''), (''text'', JStr ''be '')],
                                          JObj [(''type'', JStr ''text''), (''text'', JStr ''brief'')]]),
      (''messages'', JArr
         [JObj [(''role'', JStr ''user''), (''content'', JStr ''hi'')],
          JObj [(''role'', JStr ''assistant''), (''content'', JArr
             [JObj [(''type'', JStr ''redacted_thinking''), (''data'', JStr ''x'')],
              JObj [(''type'', JStr ''tool_use''), (''id'', JStr ''t1''), (''name'', JStr ''f''), (''input'', JObj [])]])]])]"


section \<open>The client's stream\<close>

text \<open>
  The protocol an Anthropic client follows: a message opens, blocks open and close one after the
  other with consecutive indices, a delta belongs to the open block and has its kind, then the
  message ends.
\<close>
datatype anthropic_client = Waiting | Between nat | Within nat block_kind | Closing | Closed

definition kind_of_block :: "json \<Rightarrow> block_kind option" where
  "kind_of_block b =
     (let ty = opt_str b ''type'' in
      if ty = Some ''text'' then Some TextBlock
      else if ty = Some ''thinking'' then Some ThinkingBlock
      else if ty = Some ''tool_use'' then Some ToolBlock else None)"

fun delta_type :: "block_kind \<Rightarrow> string" where
  "delta_type TextBlock = ''text_delta''"
| "delta_type ThinkingBlock = ''thinking_delta''"
| "delta_type ToolBlock = ''input_json_delta''"

definition client_step :: "anthropic_client \<Rightarrow> anthropic_frame \<Rightarrow> anthropic_client option" where
  "client_step c f =
     (let n = fst f; v = snd f in
      if opt_str v ''type'' \<noteq> Some n then None
      else case c of
        Waiting \<Rightarrow> if n = ''message_start'' then Some (Between 0) else None
      | Between i \<Rightarrow>
          if n = ''content_block_start'' \<and> jget v ''index'' = Some (jnat i)
          then map_option (Within i) (kind_of_block (get_or JNull v ''content_block''))
          else if n = ''message_delta'' then Some Closing else None
      | Within i k \<Rightarrow>
          if jget v ''index'' \<noteq> Some (jnat i) then None
          else if n = ''content_block_delta'' \<and> opt_str (get_or JNull v ''delta'') ''type'' = Some (delta_type k)
          then Some (Within i k)
          else if n = ''content_block_stop'' then Some (Between (i + 1)) else None
      | Closing \<Rightarrow> if n = ''message_stop'' then Some Closed else None
      | Closed \<Rightarrow> None)"

fun client_run :: "anthropic_client \<Rightarrow> anthropic_frame list \<Rightarrow> anthropic_client option" where
  "client_run c [] = Some c"
| "client_run c (f # fs) = (case client_step c f of None \<Rightarrow> None | Some c \<Rightarrow> client_run c fs)"

lemma client_run_append:
  "client_run c (fs @ gs) = (case client_run c fs of None \<Rightarrow> None | Some c \<Rightarrow> client_run c gs)"
  by (induction fs arbitrary: c) (auto split: option.split)

text \<open>What an encoder owes a client after events of a given phase.\<close>
fun anthropic_linked :: "phase \<Rightarrow> anthropic_emit \<Rightarrow> anthropic_client \<Rightarrow> bool" where
  "anthropic_linked Fresh st c \<longleftrightarrow> \<not> an_started st \<and> an_open st = None \<and> an_next_index st = 0 \<and> c = Waiting"
| "anthropic_linked (Running k) st c \<longleftrightarrow> an_started st \<and> an_open st = k \<and>
     c = (case k of None \<Rightarrow> Between (an_next_index st) | Some k \<Rightarrow> Within (an_next_index st) k)"
| "anthropic_linked Finished st c \<longleftrightarrow> an_started st \<and> an_open st = None \<and> c = Closed"

text \<open>The lines of a frame and what the decoder makes of them.\<close>
definition frame_lines :: "json_codec \<Rightarrow> anthropic_frame \<Rightarrow> string list" where
  "frame_lines jc f = [''event: '' @ fst f, ''data: '' @ to_string jc (snd f), []]"

fun decode_values :: "anthropic_sse \<Rightarrow> anthropic_frame list \<Rightarrow> stream_event list \<times> anthropic_sse" where
  "decode_values st [] = ([], st)"
| "decode_values st (f # fs) =
     (let (es, st) = anthropic_decode_value st (snd f); (es', st) = decode_values st fs in (es @ es', st))"

lemma decode_values_append:
  "decode_values st (fs @ gs) = (let (a, st) = decode_values st fs; (b, st) = decode_values st gs in (a @ b, st))"
  by (induction fs arbitrary: st) (auto simp: Let_def split: prod.split)

lemma decode_frame_lines:
  "\<forall>f \<in> set fs. text_ok jc (snd f) \<Longrightarrow>
     decode_all (anthropic_decode_sse jc) st (concat (map (frame_lines jc) fs)) = decode_values st fs"
proof (induction fs arbitrary: st)
  case (Cons f fs)
  then show ?case
    by (simp add: frame_lines_def anthropic_decode_sse_def sse_value_event [simplified] sse_value_Nil
        sse_value_data [simplified] split: prod.split)
qed simp

text \<open>Everything but usage; a stop reason in the words of the dialect.\<close>
fun carried :: "stream_event \<Rightarrow> stream_event list" where
  "carried (UsageDelta u) = []"
| "carried (Done s) = [Done (anthropic_parse_stop_reason (Some (anthropic_stop_reason_str s)))]"
| "carried e = [e]"

lemmas anthropic_emit_defs = emit_message_start_def anthropic_ensure_started_def close_open_def
  ensure_block_def block_start_def block_delta_def

lemmas anthropic_client_defs = client_step_def kind_of_block_def

lemma anthropic_linked_usage [simp]: "anthropic_linked p (st\<lparr>an_usage := u\<rparr>) c = anthropic_linked p st c"
  by (cases p) (simp_all split: option.split)

lemma anthropic_step_linked:
  assumes "shape_step p e = Some q" "anthropic_linked p st c"
  shows "\<exists>d. client_run c (fst (anthropic_encode_event st e)) = Some d \<and>
    anthropic_linked q (snd (anthropic_encode_event st e)) d"
  using assms
  by (elim shape_step_elims)
     (auto simp: anthropic_emit_defs anthropic_client_defs wire_simps split: option.splits block_kind.splits)

lemma anthropic_step_carried:
  assumes "shape_step p e = Some q" "anthropic_linked p st c"
  shows "\<exists>es. decode_values None (fst (anthropic_encode_event st e)) = (es, None) \<and>
    concat (map carried es) = carried e"
  using assms
  by (elim shape_step_elims)
     (auto simp: anthropic_emit_defs anthropic_decode_value_def wire_simps Let_def
        anthropic_parse_stop_reason_def split: option.splits block_kind.splits)

text \<open>The client and the decoder as readers of the frames.\<close>
definition anthropic_read ::
  "anthropic_client \<times> anthropic_sse \<Rightarrow> anthropic_frame list \<Rightarrow> (stream_event list \<times> anthropic_client \<times> anthropic_sse) option" where
  "anthropic_read cd fs =
     (case client_run (fst cd) fs of
        None \<Rightarrow> None
      | Some c \<Rightarrow> (let (es, d) = decode_values (snd cd) fs in Some (concat (map carried es), c, d)))"

interpretation anthropic_stream: encoder_simulation anthropic_encode_event anthropic_read carried
  "\<lambda>p st cd. anthropic_linked p st (fst cd) \<and> snd cd = None"
proof
  fix p e q st and cd :: "anthropic_client \<times> anthropic_sse"
  assume s: "shape_step p e = Some q" and l: "anthropic_linked p st (fst cd) \<and> snd cd = None"
  obtain c where c: "client_run (fst cd) (fst (anthropic_encode_event st e)) = Some c"
    "anthropic_linked q (snd (anthropic_encode_event st e)) c"
    using anthropic_step_linked [OF s] l by blast
  obtain es where "decode_values None (fst (anthropic_encode_event st e)) = (es, None)" "concat (map carried es) = carried e"
    using anthropic_step_carried [OF s] l by blast
  with c l show "\<exists>cd'. anthropic_read cd (fst (anthropic_encode_event st e)) = Some (carried e, cd') \<and>
      anthropic_linked q (snd (anthropic_encode_event st e)) (fst cd') \<and> snd cd' = None"
    by (intro exI [of _ "(c, None)"]) (simp add: anthropic_read_def)
qed (auto simp: anthropic_read_def client_run_append decode_values_append split_beta Let_def split: option.split)

lemma anthropic_linked_new: "anthropic_linked Fresh anthropic_emit_new Waiting"
  by (simp add: anthropic_emit_new_def)



text \<open>A frame from which no input count can be read.\<close>
definition no_input_count :: "usage \<Rightarrow> bool" where
  "no_input_count u \<longleftrightarrow> input_tokens u = 0 \<and> cache_read_tokens u = 0 \<and> cache_write_tokens u = 0"

definition quiet_frame :: "anthropic_frame \<Rightarrow> bool" where
  "quiet_frame f \<longleftrightarrow> (\<forall>s. list_all no_input_count (usages (fst (anthropic_decode_value s (snd f)))))"

lemma quiet_block_frames [simp]:
  "quiet_frame (block_start i b)" "quiet_frame (block_delta i ty fld t)"
  by (simp_all add: quiet_frame_def anthropic_decode_value_def block_start_def block_delta_def wire_simps Let_def)

lemma quiet_close_open [simp]: "list_all quiet_frame (fst (close_open st))"
  by (simp add: close_open_def quiet_frame_def anthropic_decode_value_def wire_simps)

lemma quiet_message_start [simp]: "list_all quiet_frame (fst (emit_message_start st))"
  by (simp add: emit_message_start_def quiet_frame_def anthropic_decode_value_def wire_simps Let_def
      anthropic_parse_usage_def no_input_count_def usage_default_def jnat_def)

lemma quiet_ensure_started [simp]: "list_all quiet_frame (fst (anthropic_ensure_started st))"
  by (simp add: anthropic_ensure_started_def)

lemma quiet_ensure_block [simp]: "list_all quiet_frame (fst (ensure_block k st))"
  by (simp add: ensure_block_def split_beta Let_def)

lemma quiet_end [simp]:
  "quiet_frame (n, JObj [(''type'', JStr ''message_delta''), (''delta'', d), (''usage'', JObj [(''output_tokens'', v)])])"
  "quiet_frame (n, JObj [(''type'', JStr ''message_stop'')])"
  by (simp_all add: quiet_frame_def anthropic_decode_value_def wire_simps Let_def
      anthropic_parse_usage_def no_input_count_def usage_default_def)

lemma quiet_encode_event [simp]: "list_all quiet_frame (fst (anthropic_encode_event st e))"
  by (cases e) (simp_all add: split_beta Let_def)

lemma quiet_encode_events: "list_all quiet_frame (fst (anthropic_encode_events st evs))"
  by (induction evs arbitrary: st) (simp_all add: anthropic_encode_events_def split_beta Let_def)

lemma quiet_decode: "list_all quiet_frame fs \<Longrightarrow> list_all no_input_count (usages (fst (decode_values s fs)))"
  by (induction fs arbitrary: s) (simp_all add: quiet_frame_def usages_append split_beta Let_def)

text \<open>A client that reads a translated stream in the Anthropic dialect never learns how many input or
  cached tokens the turn used: every usage report it can decode has them as zero, whatever the
  upstream reported and whenever, although the dialect reports input tokens when the message opens.\<close>
theorem anthropic_stream_hides_input_tokens:
  assumes "\<forall>f \<in> set (fst (anthropic_encode_events anthropic_emit_new evs)). text_ok jc (snd f)"
  shows "list_all (\<lambda>u. input_tokens u = 0 \<and> cache_read_tokens u = 0 \<and> cache_write_tokens u = 0)
    (usages (fst (decode_all (anthropic_decode_sse jc) None
      (concat (map (frame_lines jc) (fst (anthropic_encode_events anthropic_emit_new evs)))))))"
  using quiet_decode [OF quiet_encode_events, of None anthropic_emit_new evs]
  unfolding decode_frame_lines [OF assms, of None] no_input_count_def [abs_def] by simp

theorem anthropic_stream_hides_input_tokens_witness:
  "\<exists>jc. list_all (\<lambda>u. input_tokens u = 0 \<and> cache_read_tokens u = 0 \<and> cache_write_tokens u = 0)
    (usages (fst (decode_all (anthropic_decode_sse jc) None
      (concat (map (frame_lines jc) (fst (anthropic_encode_events anthropic_emit_new sample_events)))))))"
proof -
  define jc where "jc = sample_codec (map snd (fst (anthropic_encode_events anthropic_emit_new sample_events)))"
  have "\<forall>f \<in> set (fst (anthropic_encode_events anthropic_emit_new sample_events)). text_ok jc (snd f)"
    unfolding jc_def by (intro ballI text_ok_sample) simp
  then show ?thesis using anthropic_stream_hides_input_tokens by blast
qed

end
