(* ===== verification/Openai_Chat_Wire.thy ===== *)
theory Openai_Chat_Wire
  imports Wire_Text
begin

text \<open>
  The OpenAI Chat Completions dialect (\<open>crates/yb-wire/src/openai_chat.rs\<close>): requests, among them
  the native relay of a client's own body, responses, the decoder of an upstream stream and the
  encoder of a client's with its deferred end marker.

  The encoder is written over frames: a chunk, or the marker \<open>[DONE]\<close>. The sum of the token counts
  wraps at 32 bits as it does in a release build.
\<close>

section \<open>Content\<close>

definition image_from_url :: "string \<Rightarrow> content_block" where
  "image_from_url url =
     (case parse_data_url url of
        Some (media_type, data) \<Rightarrow> Image (Some media_type) (Some data) None
      | None \<Rightarrow> Image None None (Some url))"

definition chat_parse_part :: "json \<Rightarrow> content_block option" where
  "chat_parse_part p =
     (let ty = opt_str p ''type'' in
      if ty = Some ''text'' \<or> ty = Some ''input_text'' then Some (Text (unwrap_or_default (opt_str p ''text'')))
      else if ty = Some ''image_url''
      then Some (image_from_url (unwrap_or_default (Option.bind (jget p ''image_url'') (\<lambda>iu. opt_str iu ''url''))))
      else None)"

definition parse_user_content :: "json option \<Rightarrow> content_block list" where
  "parse_user_content v =
     (case v of
        Some (JStr s) \<Rightarrow> [Text s]
      | Some (JArr parts) \<Rightarrow> List.map_filter chat_parse_part parts
      | _ \<Rightarrow> [])"

definition parse_arguments :: "json_codec \<Rightarrow> string option \<Rightarrow> json" where
  "parse_arguments jc s =
     (case s of
        None \<Rightarrow> JObj []
      | Some s \<Rightarrow> if s = [] then JObj []
                  else (case from_str jc s of None \<Rightarrow> JStr s | Some v \<Rightarrow> v))"

text \<open>A tool call of a message.\<close>
definition chat_parse_call :: "json_codec \<Rightarrow> json \<Rightarrow> content_block" where
  "chat_parse_call jc c =
     (let f = get_or JNull c ''function''
      in ToolUse (unwrap_or_default (opt_str c ''id'')) (unwrap_or_default (opt_str f ''name''))
           (parse_arguments jc (opt_str f ''arguments'')))"

text \<open>The text and the tool calls of a message, without its reasoning.\<close>
definition chat_message_blocks :: "json_codec \<Rightarrow> json \<Rightarrow> content_block list" where
  "chat_message_blocks jc m =
     (case opt_str m ''content'' of None \<Rightarrow> [] | Some t \<Rightarrow> if t = [] then [] else [Text t]) @
     (case opt_arr m ''tool_calls'' of None \<Rightarrow> [] | Some calls \<Rightarrow> map (chat_parse_call jc) calls)"

definition parse_assistant :: "json_codec \<Rightarrow> json \<Rightarrow> content_block list" where
  "parse_assistant jc m =
     (case opt_str m ''reasoning_content'' of
        None \<Rightarrow> []
      | Some rc \<Rightarrow> if rc = [] then [] else [Thinking rc None]) @
     chat_message_blocks jc m"

definition parse_stop :: "json option \<Rightarrow> string list" where
  "parse_stop v = (case v of Some (JStr s) \<Rightarrow> [s] | Some (JArr a) \<Rightarrow> str_vec v | _ \<Rightarrow> [])"

definition chat_parse_tool_choice :: "json \<Rightarrow> tool_choice wire_result" where
  "chat_parse_tool_choice v =
     (case v of
        JStr s \<Rightarrow>
          (if s = ''auto'' then Inr ChoiceAuto
           else if s = ''none'' then Inr ChoiceNone
           else if s = ''required'' then Inr ChoiceRequired
           else Inl (InvalidField ''tool_choice'' (''unknown '' @ s)))
      | JObj _ \<Rightarrow>
          Inr (ChoiceTool (unwrap_or_default
            (case Option.bind (jget v ''function'') (\<lambda>f. opt_str f ''name'') of
               Some n \<Rightarrow> Some n | None \<Rightarrow> opt_str v ''name'')))
      | _ \<Rightarrow> Inl (InvalidField ''tool_choice'' ''expected string or object''))"

fun chat_emit_tool_choice :: "tool_choice \<Rightarrow> json" where
  "chat_emit_tool_choice ChoiceAuto = JStr ''auto''"
| "chat_emit_tool_choice ChoiceNone = JStr ''none''"
| "chat_emit_tool_choice ChoiceRequired = JStr ''required''"
| "chat_emit_tool_choice (ChoiceTool name) =
     JObj [(''type'', JStr ''function''), (''function'', JObj [(''name'', JStr name)])]"

definition finish_to_stop :: "string option \<Rightarrow> stop_reason" where
  "finish_to_stop s =
     (case s of
        None \<Rightarrow> EndTurn
      | Some r \<Rightarrow>
          if r = ''stop'' then EndTurn
          else if r = ''length'' then MaxTokens
          else if r = ''tool_calls'' \<or> r = ''function_call'' then StopToolUse
          else StopOther r)"

fun stop_to_finish :: "stop_reason \<Rightarrow> string" where
  "stop_to_finish EndTurn = ''stop''"
| "stop_to_finish StopSequence = ''stop''"
| "stop_to_finish MaxTokens = ''length''"
| "stop_to_finish StopToolUse = ''tool_calls''"
| "stop_to_finish (StopOther s) = s"

section \<open>Requests\<close>

fun chat_parse_messages ::
  "json_codec \<Rightarrow> json list \<Rightarrow> content_block list \<Rightarrow> message list \<Rightarrow>
   (content_block list \<times> message list) wire_result" where
  "chat_parse_messages jc [] sys msgs = Inr (sys, msgs)"
| "chat_parse_messages jc (m # ms) sys msgs =
     (case opt_str m ''role'' of
        None \<Rightarrow> Inl (MissingField ''messages[].role'')
      | Some role \<Rightarrow>
          (if role = ''system'' \<or> role = ''developer''
           then chat_parse_messages jc ms (sys @ parse_user_content (jget m ''content'')) msgs
           else if role = ''user''
           then chat_parse_messages jc ms sys
                  (msgs @ [\<lparr>msg_role = UserRole, content = parse_user_content (jget m ''content'')\<rparr>])
           else if role = ''assistant''
           then chat_parse_messages jc ms sys
                  (msgs @ [\<lparr>msg_role = AssistantRole, content = parse_assistant jc m\<rparr>])
           else if role = ''tool''
           then chat_parse_messages jc ms sys
                  (msgs @ [\<lparr>msg_role = ToolRole,
                     content = [ToolResult (unwrap_or_default (opt_str m ''tool_call_id''))
                                  (parse_user_content (jget m ''content'')) False]\<rparr>])
           else Inl (InvalidField ''messages[].role'' (''unknown '' @ role))))"

definition chat_parse_tool :: "json \<Rightarrow> tool wire_result" where
  "chat_parse_tool t =
     (let f = get_or t t ''function'' in
      case req_str f ''name'' of
        Inl e \<Rightarrow> Inl e
      | Inr n \<Rightarrow> Inr \<lparr>tool_name = n, description = opt_str f ''description'',
                   input_schema = get_or (JObj []) f ''parameters'',
                   strict = Option.bind (jget f ''strict'') as_bool, anthropic_cache_control = None\<rparr>)"

definition chat_parse_value :: "json_codec \<Rightarrow> json \<Rightarrow> chat_request wire_result" where
  "chat_parse_value jc v =
     (case as_object v of None \<Rightarrow> Inl (InvalidRequest ''body is not a JSON object'') | Some body \<Rightarrow>
      (case (case opt_arr v ''messages'' of
               None \<Rightarrow> Inr ([], [])
             | Some ms \<Rightarrow> chat_parse_messages jc ms [] []) of
         Inl e \<Rightarrow> Inl e | Inr (sys, msgs) \<Rightarrow>
      (case (case opt_arr v ''tools'' of
               None \<Rightarrow> Inr []
             | Some ts \<Rightarrow> collect_results (map chat_parse_tool ts)) of
         Inl e \<Rightarrow> Inl e | Inr ts \<Rightarrow>
      (case (case jget v ''tool_choice'' of
               None \<Rightarrow> Inr None
             | Some tc \<Rightarrow> map_sum id Some (chat_parse_tool_choice tc)) of
         Inl e \<Rightarrow> Inl e | Inr tc \<Rightarrow>
      Inr (chat_request_default
        \<lparr>model := unwrap_or_default (opt_str v ''model''), stream := opt_bool v ''stream'',
         include_usage := (case Option.bind (Option.bind (jget v ''stream_options'')
             (\<lambda>s. jget s ''include_usage'')) as_bool of None \<Rightarrow> False | Some b \<Rightarrow> b),
         max_tokens := (case opt_u32 v ''max_tokens'' of
             Some n \<Rightarrow> Some n | None \<Rightarrow> opt_u32 v ''max_completion_tokens''),
         temperature := opt_f32 v ''temperature'', top_p := opt_f32 v ''top_p'',
         stop := parse_stop (jget v ''stop''), messages := msgs,
         system := (if sys = [] then None else Some sys), tools := ts, tool_choice := tc,
         reasoning := map_option (\<lambda>e. \<lparr>effort = Some e, budget_tokens = None\<rparr>) (opt_str v ''reasoning_effort''),
         prompt_cache_key := opt_str v ''prompt_cache_key'',
         prompt_cache_retention := opt_str v ''prompt_cache_retention'',
         native_request := Some body\<rparr>)))))"

definition chat_parse_request :: "json_codec \<Rightarrow> bytes \<Rightarrow> chat_request wire_result" where
  "chat_parse_request jc body =
     (case from_slice jc body of Inl e \<Rightarrow> Inl e | Inr v \<Rightarrow> chat_parse_value jc v)"

text \<open>The streaming the gateway asks for, with usage, or none.\<close>
definition chat_native_stream :: "bool \<Rightarrow> json_object \<Rightarrow> json_object" where
  "chat_native_stream on m =
     (if on then
        (let m = jinsert ''stream'' (JBool True) m;
             options = (case jget_obj m ''stream_options'' of
                          Some (JObj o') \<Rightarrow> JObj (jinsert ''include_usage'' (JBool True) o')
                        | _ \<Rightarrow> JObj [(''include_usage'', JBool True)])
         in jinsert ''stream_options'' options m)
      else jremove ''stream_options'' (jremove ''stream'' m))"

definition emit_native_value :: "json_object \<Rightarrow> string \<Rightarrow> emit_options \<Rightarrow> json_object" where
  "emit_native_value native mdl opts =
     (let m = jinsert ''model'' (JStr mdl) native;
          m = chat_native_stream (emit_stream opts) m
      in insert_opt ''reasoning_effort'' (map_option JStr (force_reasoning_effort opts)) m)"

definition chat_emit_call :: "json_codec \<Rightarrow> string \<Rightarrow> string \<Rightarrow> json \<Rightarrow> json" where
  "chat_emit_call jc tid name input =
     JObj [(''id'', JStr tid), (''type'', JStr ''function''),
           (''function'', JObj [(''name'', JStr name), (''arguments'', JStr (to_string jc input))])]"

fun chat_call_of :: "json_codec \<Rightarrow> content_block \<Rightarrow> json list" where
  "chat_call_of jc (ToolUse tid name input) = [chat_emit_call jc tid name input]"
| "chat_call_of jc _ = []"

fun thinking_text :: "content_block \<Rightarrow> string" where
  "thinking_text (Thinking t _) = t"
| "thinking_text _ = []"

definition emit_assistant :: "json_codec \<Rightarrow> message \<Rightarrow> json" where
  "emit_assistant jc m =
     (let text = join_text (content m);
          thinking = concat (map thinking_text (content m));
          calls = concat (map (chat_call_of jc) (content m));
          o1 = [(''role'', JStr ''assistant'')] @
               (if thinking = [] then [] else [(''reasoning_content'', JStr thinking)])
      in JObj (if calls = [] then o1 @ [(''content'', JStr text)]
               else o1 @ [(''content'', if text = [] then JNull else JStr text), (''tool_calls'', JArr calls)]))"

fun chat_emit_part :: "content_block \<Rightarrow> json option" where
  "chat_emit_part (Text t) = Some (JObj [(''type'', JStr ''text''), (''text'', JStr t)])"
| "chat_emit_part (CachedText t _) = Some (JObj [(''type'', JStr ''text''), (''text'', JStr t)])"
| "chat_emit_part (Image media_type data url) =
     map_option (\<lambda>u. JObj [(''type'', JStr ''image_url''), (''image_url'', JObj [(''url'', JStr u)])])
       (case url of Some u \<Rightarrow> Some u | None \<Rightarrow> map_option (build_data_url media_type) data)"
| "chat_emit_part _ = None"

definition emit_user_content :: "content_block list \<Rightarrow> json" where
  "emit_user_content bs =
     (if list_all is_any_text bs then JStr (join_text bs)
      else JArr (List.map_filter chat_emit_part bs))"

fun chat_tool_message :: "content_block \<Rightarrow> json option" where
  "chat_tool_message (ToolResult tid cs _) =
     Some (JObj [(''role'', JStr ''tool''), (''tool_call_id'', JStr tid), (''content'', JStr (join_text cs))])"
| "chat_tool_message _ = None"

text \<open>The messages one message of the IR becomes.\<close>
definition chat_emit_message :: "json_codec \<Rightarrow> message \<Rightarrow> json list" where
  "chat_emit_message jc m =
     (case msg_role m of
        SystemRole \<Rightarrow> [JObj [(''role'', JStr ''system''), (''content'', JStr (message_text m))]]
      | DeveloperRole \<Rightarrow> [JObj [(''role'', JStr ''system''), (''content'', JStr (message_text m))]]
      | AssistantRole \<Rightarrow> [emit_assistant jc m]
      | _ \<Rightarrow>
          (let others = filter (\<lambda>b. chat_tool_message b = None) (content m)
           in List.map_filter chat_tool_message (content m) @
              (if others = [] then []
               else [JObj [(''role'', JStr ''user''), (''content'', emit_user_content others)]])))"

definition emit_messages :: "json_codec \<Rightarrow> chat_request \<Rightarrow> json list" where
  "emit_messages jc req =
     (case system req of
        None \<Rightarrow> []
      | Some cs \<Rightarrow> [JObj [(''role'', JStr ''system''), (''content'', JStr (join_text cs))]]) @
     concat (map (chat_emit_message jc) (messages req))"

definition chat_emit_tool :: "tool \<Rightarrow> json" where
  "chat_emit_tool t =
     (let f = insert_opt ''description'' (map_option JStr (description t)) [(''name'', JStr (tool_name t))];
          f = jinsert ''parameters'' (input_schema t) f;
          f = insert_opt ''strict'' (map_option JBool (strict t)) f
      in JObj [(''type'', JStr ''function''), (''function'', JObj f)])"

definition chat_emit_value :: "json_codec \<Rightarrow> chat_request \<Rightarrow> emit_options \<Rightarrow> json" where
  "chat_emit_value jc req opts =
     (case native_request req of
        Some native \<Rightarrow> JObj (emit_native_value native (emitted_model req opts) opts)
      | None \<Rightarrow>
     (let m = [(''model'', JStr (emitted_model req opts)), (''messages'', JArr (emit_messages jc req))];
          m = insert_opt ''tools'' (if tools req = [] then None else Some (JArr (map chat_emit_tool (tools req)))) m;
          m = insert_opt ''tool_choice'' (map_option chat_emit_tool_choice (tool_choice req)) m;
          m = insert_opt ''max_tokens'' (map_option ju32 (max_tokens req)) m;
          m = insert_opt ''temperature'' (map_option jf32 (temperature req)) m;
          m = insert_opt ''top_p'' (map_option jf32 (top_p req)) m;
          m = insert_opt ''stop'' (if stop req = [] then None else Some (JArr (map JStr (stop req)))) m;
          m = (if emit_stream opts
               then jinsert ''stream_options'' (JObj [(''include_usage'', JBool True)]) (jinsert ''stream'' (JBool True) m)
               else m);
          m = insert_opt ''reasoning_effort'' (map_option JStr (emitted_effort req opts)) m;
          m = (case prompt_cache_key req of
                 None \<Rightarrow> m
               | Some key \<Rightarrow>
                   jinsert ''prompt_cache_retention''
                     (JStr (case prompt_cache_retention req of None \<Rightarrow> ''24h'' | Some r \<Rightarrow> r))
                     (jinsert ''prompt_cache_key'' (JStr key) m))
      in JObj m))"

definition chat_emit_request :: "json_codec \<Rightarrow> chat_request \<Rightarrow> emit_options \<Rightarrow> emitted_request wire_result" where
  "chat_emit_request jc req opts =
     Inr (to_string jc (chat_emit_value jc req opts), [(''content-type'', ''application/json'')])"

section \<open>Responses\<close>

text \<open>A positive number of milliseconds, rounded half up and capped at the largest \<open>u32\<close>.\<close>
definition milliseconds :: "json option \<Rightarrow> string \<Rightarrow> 32 word" where
  "milliseconds timings key =
     (case Option.bind (Option.bind timings (\<lambda>t. jget t key)) as_f64 of
        None \<Rightarrow> 0
      | Some ms \<Rightarrow> if ms > 0 then of_int (min (floor (ms + 1/2)) 4294967295) else 0)"

definition chat_parse_usage :: "json option \<Rightarrow> json option \<Rightarrow> usage" where
  "chat_parse_usage v timings =
     (let u = usage_default\<lparr>prompt_ms := milliseconds timings ''prompt_ms'',
                generation_ms := milliseconds timings ''predicted_ms''\<rparr> in
      case v of
        None \<Rightarrow> u
      | Some v \<Rightarrow>
          (let or0 = (\<lambda>x. case x of None \<Rightarrow> 0 | Some n \<Rightarrow> n);
               detail = (\<lambda>d k. or0 (Option.bind (jget v d) (\<lambda>x. opt_u32 x k)))
           in u\<lparr>input_tokens := or0 (opt_u32 v ''prompt_tokens''),
                output_tokens := or0 (opt_u32 v ''completion_tokens''),
                cache_read_tokens := detail ''prompt_tokens_details'' ''cached_tokens'',
                cache_write_tokens := detail ''prompt_tokens_details'' ''cache_write_tokens'',
                reasoning_tokens := detail ''completion_tokens_details'' ''reasoning_tokens''\<rparr>))"

definition chat_emit_usage :: "usage \<Rightarrow> json" where
  "chat_emit_usage u =
     JObj ([(''prompt_tokens'', ju32 (input_tokens u)), (''completion_tokens'', ju32 (output_tokens u)),
            (''total_tokens'', ju32 (input_tokens u + output_tokens u))] @
           (if cache_read_tokens u > 0 \<or> cache_write_tokens u > 0
            then [(''prompt_tokens_details'', JObj [(''cached_tokens'', ju32 (cache_read_tokens u)),
                     (''cache_write_tokens'', ju32 (cache_write_tokens u))])] else []) @
           (if reasoning_tokens u > 0
            then [(''completion_tokens_details'', JObj [(''reasoning_tokens'', ju32 (reasoning_tokens u))])] else []))"

text \<open>The first choice of an answer or a chunk.\<close>
definition first_choice :: "json \<Rightarrow> json option" where
  "first_choice v =
     (case Option.bind (jget v ''choices'') as_array of Some (c # _) \<Rightarrow> Some c | _ \<Rightarrow> None)"

definition chat_parse_response :: "json_codec \<Rightarrow> bytes \<Rightarrow> chat_response wire_result" where
  "chat_parse_response jc body =
     (case from_slice jc body of Inl e \<Rightarrow> Inl e | Inr v \<Rightarrow>
      (case first_choice v of
         None \<Rightarrow> Inl (InvalidResponse ''no choices'')
       | Some choice \<Rightarrow>
           Inr \<lparr>response_id = unwrap_or_default (opt_str v ''id''),
                response_model = unwrap_or_default (opt_str v ''model''),
                response_content = chat_message_blocks jc (get_or JNull choice ''message''),
                response_stop = finish_to_stop (opt_str choice ''finish_reason''),
                response_usage = chat_parse_usage (jget v ''usage'') (jget v ''timings''),
                response_cache_key = None, response_cache_retention = None\<rparr>))"

definition chat_response_message :: "json_codec \<Rightarrow> content_block list \<Rightarrow> json" where
  "chat_response_message jc cs =
     (let text = join_text cs;
          reasoning = concat (map thinking_text cs);
          calls = concat (map (chat_call_of jc) cs)
      in JObj ([(''role'', JStr ''assistant''),
                (''content'', if text = [] \<and> calls \<noteq> [] then JNull else JStr text)] @
               (if calls = [] then [] else [(''tool_calls'', JArr calls)]) @
               (if reasoning = [] then [] else [(''reasoning_content'', JStr reasoning)])))"

definition chat_response_value :: "json_codec \<Rightarrow> chat_response \<Rightarrow> json" where
  "chat_response_value jc resp =
     JObj [(''id'', JStr (response_id resp)), (''object'', JStr ''chat.completion''), (''created'', jnat 0),
           (''model'', JStr (response_model resp)),
           (''choices'', JArr [JObj [(''index'', jnat 0),
              (''message'', chat_response_message jc (response_content resp)),
              (''finish_reason'', JStr (stop_to_finish (response_stop resp)))]]),
           (''usage'', chat_emit_usage (response_usage resp))]"

definition chat_emit_response :: "json_codec \<Rightarrow> chat_response \<Rightarrow> bytes wire_result" where
  "chat_emit_response jc resp = Inr (to_string jc (chat_response_value jc resp))"

section \<open>Streaming\<close>

text \<open>The decoder remembers whether the stream has opened.\<close>
type_synonym chat_sse = bool

definition chat_call_events :: "json \<Rightarrow> stream_event list" where
  "chat_call_events c =
     (let f = get_or JNull c ''function'' in
      (case opt_str c ''id'' of
         None \<Rightarrow> []
       | Some tid \<Rightarrow> if tid = [] then [] else [ToolUseStart tid (unwrap_or_default (opt_str f ''name''))]) @
      (case opt_str f ''arguments'' of
         None \<Rightarrow> []
       | Some args \<Rightarrow> if args = [] then [] else [ToolUseDelta args]))"

definition chat_delta_events :: "json \<Rightarrow> stream_event list" where
  "chat_delta_events delta =
     (case opt_str delta ''reasoning_content'' of
        None \<Rightarrow> [] | Some rc \<Rightarrow> if rc = [] then [] else [ThinkingDelta rc]) @
     (case opt_str delta ''content'' of
        None \<Rightarrow> [] | Some t \<Rightarrow> if t = [] then [] else [TextDelta t]) @
     (case opt_arr delta ''tool_calls'' of
        None \<Rightarrow> [] | Some calls \<Rightarrow> concat (map chat_call_events calls))"

definition chat_decode_value :: "chat_sse \<Rightarrow> json \<Rightarrow> stream_event list \<times> chat_sse" where
  "chat_decode_value started v =
     ((if started then [] else [MessageStart (unwrap_or_default (opt_str v ''model''))]) @
      (case first_choice v of
         None \<Rightarrow> [] | Some choice \<Rightarrow> chat_delta_events (get_or JNull choice ''delta'')) @
      (case jget v ''usage'' of
         None \<Rightarrow> []
       | Some u \<Rightarrow> if u = JNull then [] else [UsageDelta (chat_parse_usage (Some u) (jget v ''timings''))]) @
      (case Option.bind (first_choice v) (\<lambda>choice. opt_str choice ''finish_reason'') of
         None \<Rightarrow> [] | Some r \<Rightarrow> [Done (finish_to_stop (Some r))]),
      True)"

definition chat_decode_sse :: "json_codec \<Rightarrow> chat_sse \<Rightarrow> string \<Rightarrow> stream_event list \<times> chat_sse" where
  "chat_decode_sse jc st line =
     (case sse_data line of
        None \<Rightarrow> ([], st)
      | Some data \<Rightarrow>
          (if data = ''[DONE]'' then ([], st)
           else case from_str jc data of None \<Rightarrow> ([], st) | Some v \<Rightarrow> chat_decode_value st v))"

record chat_emit =
  ch_started :: bool
  ch_model :: string
  ch_tool_index :: int
  ch_usage :: "usage option"
  ch_include_usage :: bool
  ch_pending_done :: bool

definition chat_emit_new :: chat_emit where
  "chat_emit_new =
     \<lparr>ch_started = False, ch_model = [], ch_tool_index = -1, ch_usage = None, ch_include_usage = False,
      ch_pending_done = False\<rparr>"

datatype chat_frame = ChatChunk json | ChatDone

definition jint :: "int \<Rightarrow> json" where
  "jint i = (if 0 \<le> i then JNum (PosInt (of_int i)) else JNum (NegInt i))"

definition write_chunk :: "chat_emit \<Rightarrow> json \<Rightarrow> string option \<Rightarrow> chat_frame" where
  "write_chunk st delta finish_reason = ChatChunk (JObj
     [(''id'', JStr ''chatcmpl_stream''), (''object'', JStr ''chat.completion.chunk''), (''created'', jnat 0),
      (''model'', JStr (ch_model st)),
      (''choices'', JArr [JObj [(''index'', jnat 0), (''delta'', delta),
         (''finish_reason'', case finish_reason of None \<Rightarrow> JNull | Some r \<Rightarrow> JStr r)]])])"

definition write_usage_chunk :: "chat_emit \<Rightarrow> usage \<Rightarrow> chat_frame" where
  "write_usage_chunk st u = ChatChunk (JObj
     [(''id'', JStr ''chatcmpl_stream''), (''object'', JStr ''chat.completion.chunk''), (''created'', jnat 0),
      (''model'', JStr (ch_model st)), (''choices'', JArr []), (''usage'', chat_emit_usage u)])"

definition chat_ensure_started :: "chat_emit \<Rightarrow> chat_frame list \<times> chat_emit" where
  "chat_ensure_started st =
     (if ch_started st then ([], st)
      else ([write_chunk st (JObj [(''role'', JStr ''assistant'')]) None], st\<lparr>ch_started := True\<rparr>))"

fun chat_encode_event :: "chat_emit \<Rightarrow> stream_event \<Rightarrow> chat_frame list \<times> chat_emit" where
  "chat_encode_event st (MessageStart m) =
     (let st = st\<lparr>ch_model := m, ch_started := True\<rparr>
      in ([write_chunk st (JObj [(''role'', JStr ''assistant'')]) None], st))"
| "chat_encode_event st (TextDelta t) =
     (let (f, st) = chat_ensure_started st in (f @ [write_chunk st (JObj [(''content'', JStr t)]) None], st))"
| "chat_encode_event st (ThinkingDelta t) =
     (let (f, st) = chat_ensure_started st in (f @ [write_chunk st (JObj [(''reasoning_content'', JStr t)]) None], st))"
| "chat_encode_event st (ToolUseStart tid name) =
     (let (f, st) = chat_ensure_started st; st = st\<lparr>ch_tool_index := ch_tool_index st + 1\<rparr>
      in (f @ [write_chunk st (JObj [(''tool_calls'', JArr [JObj
            [(''index'', jint (ch_tool_index st)), (''id'', JStr tid), (''type'', JStr ''function''),
             (''function'', JObj [(''name'', JStr name), (''arguments'', JStr [])])]])]) None], st))"
| "chat_encode_event st (ToolUseDelta j) =
     (let (f, st) = chat_ensure_started st
      in (f @ [write_chunk st (JObj [(''tool_calls'', JArr [JObj
            [(''index'', jint (max (ch_tool_index st) 0)), (''function'', JObj [(''arguments'', JStr j)])]])]) None], st))"
| "chat_encode_event st (UsageDelta u) =
     (let u' = usage_merge (case ch_usage st of None \<Rightarrow> usage_default | Some v \<Rightarrow> v) u;
          st = st\<lparr>ch_usage := Some u'\<rparr>
      in if ch_pending_done st then ([write_usage_chunk st u', ChatDone], st\<lparr>ch_pending_done := False\<rparr>)
         else ([], st))"
| "chat_encode_event st (Done s) =
     (let (f, st) = chat_ensure_started st;
          f = f @ [write_chunk st (JObj []) (Some (stop_to_finish s))]
      in if ch_include_usage st
         then (case ch_usage st of
                 Some u \<Rightarrow> (f @ [write_usage_chunk st u, ChatDone], st)
               | None \<Rightarrow> (f, st\<lparr>ch_pending_done := True\<rparr>))
         else (f @ [ChatDone], st))"

definition chat_encode_events :: "chat_emit \<Rightarrow> stream_event list \<Rightarrow> chat_frame list \<times> chat_emit" where
  "chat_encode_events = encode_all chat_encode_event"

definition chat_set_include_usage :: "bool \<Rightarrow> chat_emit \<Rightarrow> chat_emit" where
  "chat_set_include_usage on st = st\<lparr>ch_include_usage := on\<rparr>"

definition chat_finish :: "chat_emit \<Rightarrow> chat_frame list \<times> chat_emit" where
  "chat_finish st =
     (if \<not> ch_pending_done st then ([], st)
      else
        (let st = st\<lparr>ch_pending_done := False\<rparr>
         in ((case ch_usage st of None \<Rightarrow> [] | Some u \<Rightarrow> [write_usage_chunk st u]) @ [ChatDone], st)))"

fun chat_frame_text :: "json_codec \<Rightarrow> chat_frame \<Rightarrow> string" where
  "chat_frame_text jc (ChatChunk v) = ''data: '' @ to_string jc v @ [CHR 0x0A, CHR 0x0A]"
| "chat_frame_text jc ChatDone = ''data: [DONE]'' @ [CHR 0x0A, CHR 0x0A]"

definition chat_encode_sse :: "json_codec \<Rightarrow> chat_emit \<Rightarrow> stream_event list \<Rightarrow> bytes \<times> chat_emit" where
  "chat_encode_sse jc st evs =
     (let (fs, st) = chat_encode_events st evs in (concat (map (chat_frame_text jc) fs), st))"

section \<open>The native relay\<close>

definition usage_asked :: "json option \<Rightarrow> json" where
  "usage_asked o1 =
     (case o1 of
        Some (JObj o') \<Rightarrow> JObj (jinsert ''include_usage'' (JBool True) o')
      | _ \<Rightarrow> JObj [(''include_usage'', JBool True)])"

lemma native_stream_on:
  "chat_native_stream True m =
     jinsert ''stream_options'' (usage_asked (jget_obj m ''stream_options'')) (jinsert ''stream'' (JBool True) m)"
  by (simp add: chat_native_stream_def usage_asked_def)

lemma native_stream_off: "chat_native_stream False m = jremove ''stream_options'' (jremove ''stream'' m)"
  by (simp add: chat_native_stream_def)

lemma emit_native_gets:
  assumes "distinct (map fst native)"
  shows "jget_obj (emit_native_value native mdl opts) ''model'' = Some (JStr mdl)"
    "jget_obj (emit_native_value native mdl opts) ''stream'' = (if emit_stream opts then Some (JBool True) else None)"
    "jget_obj (emit_native_value native mdl opts) ''stream_options'' =
      (if emit_stream opts then Some (usage_asked (jget_obj native ''stream_options'')) else None)"
    "jget_obj (emit_native_value native mdl opts) ''reasoning_effort'' =
      (case force_reasoning_effort opts of None \<Rightarrow> jget_obj native ''reasoning_effort'' | Some e \<Rightarrow> Some (JStr e))"
    "k \<notin> {''model'', ''stream'', ''stream_options'', ''reasoning_effort''} \<Longrightarrow>
      jget_obj (emit_native_value native mdl opts) k = jget_obj native k"
proof -
  have d: "distinct (map fst (jinsert ''model'' (JStr mdl) native))"
    using assms by (rule jinsert_distinct)
  note [simp] = jget_obj_jremove [OF d] jget_obj_jremove [OF jremove_distinct [OF d]]
  note defs = emit_native_value_def Let_def native_stream_on native_stream_off
  show "jget_obj (emit_native_value native mdl opts) ''model'' = Some (JStr mdl)"
    "jget_obj (emit_native_value native mdl opts) ''stream'' = (if emit_stream opts then Some (JBool True) else None)"
    "jget_obj (emit_native_value native mdl opts) ''stream_options'' =
      (if emit_stream opts then Some (usage_asked (jget_obj native ''stream_options'')) else None)"
    by (cases "emit_stream opts"; simp add: defs)+
  show "jget_obj (emit_native_value native mdl opts) ''reasoning_effort'' =
      (case force_reasoning_effort opts of None \<Rightarrow> jget_obj native ''reasoning_effort'' | Some e \<Rightarrow> Some (JStr e))"
    by (cases "emit_stream opts"; cases "force_reasoning_effort opts"; simp add: defs)
  assume "k \<notin> {''model'', ''stream'', ''stream_options'', ''reasoning_effort''}"
  then have "''model'' \<noteq> k" "''stream'' \<noteq> k" "''stream_options'' \<noteq> k" "''reasoning_effort'' \<noteq> k" by blast+
  then show "jget_obj (emit_native_value native mdl opts) k = jget_obj native k"
    by (cases "emit_stream opts"; simp add: defs del: insert_iff)
qed

lemma usage_asked_get: "jget (usage_asked x) ''include_usage'' = Some (JBool True)"
  by (simp add: usage_asked_def split: option.split json.split)

text \<open>What the upstream understands of a relayed request.\<close>
definition chat_relayed :: "emit_options \<Rightarrow> json_object \<Rightarrow> chat_request \<Rightarrow> chat_request" where
  "chat_relayed opts body req = req
     \<lparr>model := emitted_model req opts, stream := emit_stream opts, include_usage := emit_stream opts,
      reasoning := (case force_reasoning_effort opts of
         None \<Rightarrow> reasoning req | Some e \<Rightarrow> Some \<lparr>effort = Some e, budget_tokens = None\<rparr>),
      native_request := Some body\<rparr>"

lemma parse_value_gets:
  assumes parsed: "chat_parse_value jc (JObj body) = Inr req"
    and same: "\<And>k. k \<notin> {''model'', ''stream'', ''stream_options'', ''reasoning_effort''} \<Longrightarrow>
      jget_obj body' k = jget_obj body k"
  shows "chat_parse_value jc (JObj body') = Inr (req
    \<lparr>model := unwrap_or_default (opt_str (JObj body') ''model''), stream := opt_bool (JObj body') ''stream'',
     include_usage := (case Option.bind (Option.bind (jget_obj body' ''stream_options'')
       (\<lambda>s. jget s ''include_usage'')) as_bool of None \<Rightarrow> False | Some b \<Rightarrow> b),
     reasoning := map_option (\<lambda>e. \<lparr>effort = Some e, budget_tokens = None\<rparr>) (opt_str (JObj body') ''reasoning_effort''),
     native_request := Some body'\<rparr>)"
proof -
  have gets: "opt_arr (JObj body') ''messages'' = opt_arr (JObj body) ''messages''"
    "opt_arr (JObj body') ''tools'' = opt_arr (JObj body) ''tools''"
    "jget_obj body' ''tool_choice'' = jget_obj body ''tool_choice''"
    "opt_u32 (JObj body') ''max_tokens'' = opt_u32 (JObj body) ''max_tokens''"
    "opt_u32 (JObj body') ''max_completion_tokens'' = opt_u32 (JObj body) ''max_completion_tokens''"
    "opt_f32 (JObj body') ''temperature'' = opt_f32 (JObj body) ''temperature''"
    "opt_f32 (JObj body') ''top_p'' = opt_f32 (JObj body) ''top_p''"
    "jget_obj body' ''stop'' = jget_obj body ''stop''"
    "opt_str (JObj body') ''prompt_cache_key'' = opt_str (JObj body) ''prompt_cache_key''"
    "opt_str (JObj body') ''prompt_cache_retention'' = opt_str (JObj body) ''prompt_cache_retention''"
    by (simp_all add: opt_arr_def opt_u32_def opt_f32_def opt_str_def same)
  show ?thesis
    using parsed unfolding chat_parse_value_def jget.simps as_object.simps option.case gets
    by (simp split: sum.splits prod.splits) auto
qed

lemma parsed_native:
  assumes "chat_parse_value jc (JObj body) = Inr req"
  shows "native_request req = Some body"
    "reasoning req = map_option (\<lambda>e. \<lparr>effort = Some e, budget_tokens = None\<rparr>) (opt_str (JObj body) ''reasoning_effort'')"
  using assms by (auto simp: chat_parse_value_def split: option.splits sum.splits)

text \<open>A chat-completions request that goes to a chat-completions upstream is forwarded as the client
  wrote it: every field keeps its value except the model, the streaming flag and its options, and a
  forced reasoning effort, so fields only the upstream understands are not lost. A stream always asks
  for usage, a whole answer carries no stream options, and the upstream parses the same messages,
  tools and parameters the gateway did.\<close>
theorem chat_native_relay:
  assumes "chat_parse_value jc (JObj body) = Inr req" and "distinct (map fst body)"
  shows "\<exists>body'. chat_emit_value jc req opts = JObj body' \<and>
    (\<forall>k. k \<notin> {''model'', ''stream'', ''stream_options'', ''reasoning_effort''} \<longrightarrow> jget_obj body' k = jget_obj body k) \<and>
    jget_obj body' ''stream'' = (if emit_stream opts then Some (JBool True) else None) \<and>
    (jget_obj body' ''stream_options'' = None \<longleftrightarrow> \<not> emit_stream opts) \<and>
    chat_parse_value jc (JObj body') = Inr (chat_relayed opts body' req)"
proof (intro exI conjI)
  let ?b = "emit_native_value body (emitted_model req opts) opts"
  note gets = emit_native_gets [OF assms(2), where mdl = "emitted_model req opts" and opts = opts]
  show "chat_emit_value jc req opts = JObj ?b"
    using parsed_native(1) [OF assms(1)] by (simp add: chat_emit_value_def)
  show same: "\<forall>k. k \<notin> {''model'', ''stream'', ''stream_options'', ''reasoning_effort''} \<longrightarrow> jget_obj ?b k = jget_obj body k"
    by (simp add: gets)
  show "jget_obj ?b ''stream'' = (if emit_stream opts then Some (JBool True) else None)"
    "jget_obj ?b ''stream_options'' = None \<longleftrightarrow> \<not> emit_stream opts"
    by (simp_all add: gets)
  have usage: "(case Option.bind (Option.bind (jget_obj ?b ''stream_options'') (\<lambda>s. jget s ''include_usage'')) as_bool of
      None \<Rightarrow> False | Some b \<Rightarrow> b) = emit_stream opts"
    by (simp add: gets usage_asked_get)
  have "opt_str (JObj ?b) ''model'' = Some (emitted_model req opts)" "opt_bool (JObj ?b) ''stream'' = emit_stream opts"
    "opt_str (JObj ?b) ''reasoning_effort'' =
      (case force_reasoning_effort opts of None \<Rightarrow> opt_str (JObj body) ''reasoning_effort'' | Some e \<Rightarrow> Some e)"
    by (simp_all add: opt_str_def opt_bool_def gets split: option.split)
  with parse_value_gets [OF assms(1), of ?b] same usage parsed_native(2) [OF assms(1)]
  show "chat_parse_value jc (JObj ?b) = Inr (chat_relayed opts ?b req)"
    by (simp add: chat_relayed_def split: option.split)
qed

theorem chat_native_relay_witness:
  "let body = [(''model'', JStr ''m''), (''seed'', jnat 7), (''stream'', JBool False)];
       opts = \<lparr>target_model = ''up'', force_reasoning_effort = None, emit_stream = True\<rparr>
   in \<exists>req body'. chat_parse_value (sample_codec []) (JObj body) = Inr req \<and>
        chat_emit_value (sample_codec []) req opts = JObj body' \<and> jget_obj body' ''seed'' = Some (jnat 7) \<and>
        jget_obj body' ''stream'' = Some (JBool True)"
proof -
  define body where "body = [(''model'', JStr ''m''), (''seed'', jnat 7), (''stream'', JBool False)]"
  define opts where "opts = \<lparr>target_model = ''up'', force_reasoning_effort = None, emit_stream = True\<rparr>"
  obtain req where req: "chat_parse_value (sample_codec []) (JObj body) = Inr req"
    by (simp add: body_def chat_parse_value_def wire_simps)
  have "distinct (map fst body)" by (simp add: body_def)
  from chat_native_relay [OF req this, of opts] obtain body' where b:
    "chat_emit_value (sample_codec []) req opts = JObj body'"
    "\<forall>k. k \<notin> {''model'', ''stream'', ''stream_options'', ''reasoning_effort''} \<longrightarrow> jget_obj body' k = jget_obj body k"
    "jget_obj body' ''stream'' = (if emit_stream opts then Some (JBool True) else None)"
    by blast
  have "jget_obj body' ''seed'' = jget_obj body ''seed''" using b(2) by simp
  moreover have "jget_obj body' ''stream'' = Some (JBool True)" using b(3) by (simp add: opts_def)
  moreover note b(1)
  ultimately have "\<exists>body'. chat_emit_value (sample_codec []) req opts = JObj body' \<and>
      jget_obj body' ''seed'' = Some (jnat 7) \<and> jget_obj body' ''stream'' = Some (JBool True)"
    by (simp add: body_def)
  with req have "\<exists>req body'. chat_parse_value (sample_codec []) (JObj body) = Inr req \<and>
      chat_emit_value (sample_codec []) req opts = JObj body' \<and> jget_obj body' ''seed'' = Some (jnat 7) \<and>
      jget_obj body' ''stream'' = Some (JBool True)"
    by blast
  then show ?thesis unfolding Let_def body_def opts_def .
qed

section \<open>The client's stream\<close>

definition is_usage_chunk :: "json \<Rightarrow> bool" where
  "is_usage_chunk v \<longleftrightarrow> jget v ''usage'' \<noteq> None"

definition usage_chunks :: "chat_frame list \<Rightarrow> nat" where
  "usage_chunks fs = length (filter (\<lambda>f. case f of ChatChunk v \<Rightarrow> is_usage_chunk v | ChatDone \<Rightarrow> False) fs)"

text \<open>Chunks only, or chunks and one end marker after them.\<close>
definition unterminated :: "chat_frame list \<Rightarrow> bool" where
  "unterminated fs \<longleftrightarrow> ChatDone \<notin> set fs"

definition terminated :: "chat_frame list \<Rightarrow> bool" where
  "terminated fs \<longleftrightarrow> fs \<noteq> [] \<and> last fs = ChatDone \<and> ChatDone \<notin> set (butlast fs)"

lemma terminated_append: "unterminated fs \<Longrightarrow> terminated gs \<Longrightarrow> terminated (fs @ gs)"
  by (auto simp: unterminated_def terminated_def butlast_append)

lemma usage_chunks_simps [simp]:
  "usage_chunks [] = 0" "usage_chunks (write_chunk st d r # fs) = usage_chunks fs"
  "usage_chunks (write_usage_chunk st u # fs) = Suc (usage_chunks fs)" "usage_chunks (ChatDone # fs) = usage_chunks fs"
  "usage_chunks (fs @ gs) = usage_chunks fs + usage_chunks gs"
  by (simp_all add: usage_chunks_def is_usage_chunk_def write_chunk_def write_usage_chunk_def)

lemma chunk_not_done [simp]: "write_chunk st d r \<noteq> ChatDone" "write_usage_chunk st u \<noteq> ChatDone"
  "ChatDone \<noteq> write_chunk st d r" "ChatDone \<noteq> write_usage_chunk st u"
  by (simp_all add: write_chunk_def write_usage_chunk_def)

text \<open>The encoder after events of a phase.\<close>
fun chat_linked :: "phase \<Rightarrow> chat_emit \<Rightarrow> bool" where
  "chat_linked Fresh st \<longleftrightarrow> \<not> ch_started st \<and> \<not> ch_pending_done st"
| "chat_linked (Running k) st \<longleftrightarrow> ch_started st \<and> \<not> ch_pending_done st"
| "chat_linked Finished st \<longleftrightarrow> ch_started st \<and> (ch_pending_done st \<longrightarrow> ch_include_usage st \<and> ch_usage st = None)"

definition ending :: "phase \<Rightarrow> chat_emit \<Rightarrow> bool" where
  "ending p st \<longleftrightarrow> p = Finished \<and> \<not> ch_pending_done st"

lemma chat_step_linked:
  assumes "shape_step p e = Some q" "chat_linked p st"
  shows "chat_linked q (snd (chat_encode_event st e))"
  using assms
  by (elim shape_step_elims) (cases p; auto simp: chat_ensure_started_def Let_def split: option.splits)+

lemma chat_step_usage:
  "ch_include_usage (snd (chat_encode_event st e)) = ch_include_usage st"
  "ch_usage (snd (chat_encode_event st e)) \<noteq> None \<longleftrightarrow> ch_usage st \<noteq> None \<or> usage_of e \<noteq> None"
  by (cases e; simp add: chat_ensure_started_def Let_def split: option.splits)+

lemma chat_step_frames_ended:
  assumes "shape_step p e = Some q" "chat_linked p st" "ending p st"
  shows "fst (chat_encode_event st e) = [] \<and> ending q (snd (chat_encode_event st e))"
  using assms by (elim shape_step_elims) (auto simp: ending_def)

lemma chat_linked_pending:
  "chat_linked p st \<Longrightarrow> ch_pending_done st \<Longrightarrow> p = Finished \<and> ch_started st \<and> ch_include_usage st \<and> ch_usage st = None"
  by (cases p) auto

lemma chat_step_frames_open:
  assumes "shape_step p e = Some q" "chat_linked p st" "\<not> ending p st"
  shows "(if ending q (snd (chat_encode_event st e))
     then terminated (fst (chat_encode_event st e)) \<and> usage_chunks (fst (chat_encode_event st e)) =
        (if ch_include_usage st then 1 else 0) \<and>
        (ch_include_usage st \<longrightarrow> ch_usage (snd (chat_encode_event st e)) \<noteq> None)
     else unterminated (fst (chat_encode_event st e)) \<and> usage_chunks (fst (chat_encode_event st e)) = 0)"
  using assms
  by (elim shape_step_elims)
     (auto simp: ending_def chat_ensure_started_def Let_def unterminated_def terminated_def
      dest: chat_linked_pending split: option.split)

lemma chat_run_ended:
  assumes "shape_run p evs = Some q" "chat_linked p st" "ending p st"
  shows "fst (chat_encode_events st evs) = [] \<and> ending q (snd (chat_encode_events st evs))"
  using assms
proof (induction evs arbitrary: p st)
  case (Cons e evs)
  then obtain p' where p': "shape_step p e = Some p'" "shape_run p' evs = Some q" by (simp split: option.splits)
  from chat_step_frames_ended [OF p'(1) Cons.prems(2,3)] chat_step_linked [OF p'(1) Cons.prems(2)]
    Cons.IH [OF p'(2), of "snd (chat_encode_event st e)"]
  show ?case by (simp add: chat_encode_events_def split_beta Let_def)
qed (simp add: chat_encode_events_def)

lemma chat_run_frames:
  assumes "shape_run p evs = Some Finished" "chat_linked p st" "\<not> ending p st"
  shows "terminated (fst (chat_encode_events st evs) @ fst (chat_finish (snd (chat_encode_events st evs)))) \<and>
    usage_chunks (fst (chat_encode_events st evs) @ fst (chat_finish (snd (chat_encode_events st evs)))) =
      (if ch_include_usage st \<and> (ch_usage st \<noteq> None \<or> usages evs \<noteq> []) then 1 else 0)"
  using assms
proof (induction evs arbitrary: p st)
  case Nil
  then have "ch_pending_done st" "ch_usage st = None" by (auto simp: ending_def)
  then show ?case by (simp add: chat_encode_events_def chat_finish_def terminated_def)
next
  case (Cons e evs)
  from Cons.prems(1) obtain q where q: "shape_step p e = Some q" "shape_run q evs = Some Finished"
    by (simp split: option.splits)
  obtain fs st' where enc: "chat_encode_event st e = (fs, st')" by fastforce
  have l: "chat_linked q st'" using chat_step_linked [OF q(1) Cons.prems(2)] enc by simp
  have u: "ch_include_usage st' = ch_include_usage st"
    "ch_usage st' \<noteq> None \<longleftrightarrow> ch_usage st \<noteq> None \<or> usage_of e \<noteq> None"
    using chat_step_usage [of st e] enc by simp_all
  have whole: "chat_encode_events st (e # evs) =
      (fs @ fst (chat_encode_events st' evs), snd (chat_encode_events st' evs))"
    using enc by (simp add: chat_encode_events_def split_beta Let_def)
  note step = chat_step_frames_open [OF q(1) Cons.prems(2,3)]
  show ?case
  proof (cases "ending q st'")
    case True
    from chat_run_ended [OF q(2) l True] have "fst (chat_encode_events st' evs) = []"
      "ending Finished (snd (chat_encode_events st' evs))" by simp_all
    moreover have "usages (e # evs) \<noteq> [] \<or> ch_usage st \<noteq> None" if "ch_include_usage st"
      using that step True enc u by (auto split: option.split)
    ultimately show ?thesis
      using step True enc whole by (auto simp: ending_def chat_finish_def)
  next
    case False
    from Cons.IH [OF q(2) l False] step False enc whole u show ?thesis
      by (auto simp: terminated_append split: option.splits)
  qed
qed

section \<open>Reading the stream back\<close>

fun chat_frame_lines :: "json_codec \<Rightarrow> chat_frame \<Rightarrow> string list" where
  "chat_frame_lines jc (ChatChunk v) = [''data: '' @ to_string jc v, []]"
| "chat_frame_lines jc ChatDone = [''data: [DONE]'', []]"

fun chat_decode_frames :: "chat_sse \<Rightarrow> chat_frame list \<Rightarrow> stream_event list \<times> chat_sse" where
  "chat_decode_frames st [] = ([], st)"
| "chat_decode_frames st (ChatDone # fs) = chat_decode_frames st fs"
| "chat_decode_frames st (ChatChunk v # fs) =
     (let (es, st) = chat_decode_value st v; (es', st) = chat_decode_frames st fs in (es @ es', st))"

lemma chat_decode_frames_append:
  "chat_decode_frames st (fs @ gs) =
     (let (a, st) = chat_decode_frames st fs; (b, st) = chat_decode_frames st gs in (a @ b, st))"
  by (induction st fs rule: chat_decode_frames.induct) (auto simp: Let_def split: prod.split)

text \<open>Chunks whose text reads back; the end marker is not JSON.\<close>
definition chat_texts_ok :: "json_codec \<Rightarrow> chat_frame list \<Rightarrow> bool" where
  "chat_texts_ok jc fs \<longleftrightarrow> from_str jc ''[DONE]'' = None \<and> (\<forall>v. ChatChunk v \<in> set fs \<longrightarrow> text_ok jc v)"

lemma sse_data_done: "sse_data ''data: [DONE]'' = Some ''[DONE]''"
proof -
  have "trim_end ''[DONE]'' = ''[DONE]''"
    by (rule trim_end_last) (simp, simp add: byte_of_def whitespace_encodings_def)
  then show ?thesis by (simp add: sse_data_def strip_prefix_def starts_with_def)
qed

lemma sse_value_Some_data: "sse_value jc line = Some v \<Longrightarrow> \<exists>d. sse_data line = Some d \<and> from_str jc d = Some v"
  by (auto simp: sse_value_def bind_eq_Some_conv)

lemma chat_decode_blank: "chat_decode_sse jc st [] = ([], st)"
  by (simp add: chat_decode_sse_def sse_data_def strip_prefix_def starts_with_def)

lemma chat_decode_done: "chat_decode_sse jc st ''data: [DONE]'' = ([], st)"
  by (simp add: chat_decode_sse_def sse_data_done)

lemma chat_decode_data:
  assumes "text_ok jc v" "from_str jc ''[DONE]'' = None"
  shows "chat_decode_sse jc st (''data: '' @ to_string jc v) = chat_decode_value st v"
proof -
  obtain d where "sse_data (''data: '' @ to_string jc v) = Some d" "from_str jc d = Some v"
    using sse_value_Some_data [OF sse_value_data [OF assms(1)]] by blast
  moreover from this assms(2) have "d \<noteq> ''[DONE]''" by auto
  ultimately show ?thesis by (simp add: chat_decode_sse_def)
qed

lemma chat_decode_lines:
  "chat_texts_ok jc fs \<Longrightarrow>
     decode_all (chat_decode_sse jc) st (concat (map (chat_frame_lines jc) fs)) = chat_decode_frames st fs"
proof (induction fs arbitrary: st)
  case (Cons f fs)
  then have IH: "decode_all (chat_decode_sse jc) st (concat (map (chat_frame_lines jc) fs)) = chat_decode_frames st fs" for st
    by (simp add: chat_texts_ok_def)
  show ?case
  proof (cases f)
    case (ChatChunk v)
    with Cons.prems have "text_ok jc v" "from_str jc ''[DONE]'' = None" by (auto simp: chat_texts_ok_def)
    then show ?thesis
      using chat_decode_data [of jc v st, simplified] ChatChunk
      by (simp add: IH chat_decode_blank split_beta Let_def)
  qed (simp add: IH chat_decode_blank chat_decode_done)
qed simp

text \<open>Everything but usage and empty deltas; a stop reason in the words of the dialect.\<close>
fun chat_carried :: "stream_event \<Rightarrow> stream_event list" where
  "chat_carried (UsageDelta u) = []"
| "chat_carried (Done s) = [Done (finish_to_stop (Some (stop_to_finish s)))]"
| "chat_carried (TextDelta t) = (if t = [] then [] else [TextDelta t])"
| "chat_carried (ThinkingDelta t) = (if t = [] then [] else [ThinkingDelta t])"
| "chat_carried (ToolUseStart i n) = (if i = [] then [] else [ToolUseStart i n])"
| "chat_carried (ToolUseDelta j) = (if j = [] then [] else [ToolUseDelta j])"
| "chat_carried (MessageStart m) = [MessageStart m]"

lemma chat_decode_usage_chunk:
  "chat_decode_frames True (write_usage_chunk st u # fs) =
     (UsageDelta (chat_parse_usage (Some (chat_emit_usage u)) None) # fst (chat_decode_frames True fs),
      snd (chat_decode_frames True fs))"
  by (simp add: write_usage_chunk_def chat_decode_value_def first_choice_def wire_simps chat_emit_usage_def split_beta Let_def)

lemma chat_decode_chunk:
  "chat_decode_frames started (write_chunk st d r # fs) =
     ((if started then [] else [MessageStart (ch_model st)]) @ chat_delta_events d @
      (case r of None \<Rightarrow> [] | Some r \<Rightarrow> [Done (finish_to_stop (Some r))]) @ fst (chat_decode_frames True fs),
      snd (chat_decode_frames True fs))"
  by (simp add: write_chunk_def chat_decode_value_def first_choice_def wire_simps split_beta Let_def split: option.split)

lemma chat_step_carried:
  assumes "shape_step p e = Some q" "chat_linked p st"
  shows "\<exists>es. chat_decode_frames (ch_started st) (fst (chat_encode_event st e)) =
      (es, ch_started (snd (chat_encode_event st e))) \<and> concat (map chat_carried es) = chat_carried e"
  using assms
  by (elim shape_step_elims)
     (auto simp: chat_ensure_started_def chat_decode_chunk chat_decode_usage_chunk chat_delta_events_def
        chat_call_events_def wire_simps Let_def finish_to_stop_def dest: chat_linked_pending split: option.split)

definition chat_read :: "chat_sse \<Rightarrow> chat_frame list \<Rightarrow> (stream_event list \<times> chat_sse) option" where
  "chat_read d fs = (let (es, d) = chat_decode_frames d fs in Some (concat (map chat_carried es), d))"

interpretation chat_stream: encoder_simulation chat_encode_event chat_read chat_carried
  "\<lambda>p st d. chat_linked p st \<and> d = ch_started st"
proof
  fix p e q st and d :: chat_sse
  assume s: "shape_step p e = Some q" and l: "chat_linked p st \<and> d = ch_started st"
  obtain es where "chat_decode_frames d (fst (chat_encode_event st e)) = (es, ch_started (snd (chat_encode_event st e)))"
    "concat (map chat_carried es) = chat_carried e"
    using chat_step_carried [OF s] l by blast
  then show "\<exists>d'. chat_read d (fst (chat_encode_event st e)) = Some (chat_carried e, d') \<and>
      chat_linked q (snd (chat_encode_event st e)) \<and> d' = ch_started (snd (chat_encode_event st e))"
    using chat_step_linked [OF s] l by (simp add: chat_read_def)
qed (auto simp: chat_read_def chat_decode_frames_append split_beta Let_def)

lemma chat_finish_carried:
  "chat_linked p st \<Longrightarrow> \<exists>es. chat_decode_frames (ch_started st) (fst (chat_finish st)) = (es, ch_started st) \<and>
     concat (map chat_carried es) = []"
  by (auto simp: chat_finish_def chat_decode_usage_chunk Let_def dest: chat_linked_pending split: option.split)

text \<open>The whole stream of a client: what the events write and what is owed at the end.\<close>
definition chat_client_frames :: "bool \<Rightarrow> stream_event list \<Rightarrow> chat_frame list" where
  "chat_client_frames include evs =
     (let (fs, st) = chat_encode_events (chat_set_include_usage include chat_emit_new) evs
      in fs @ fst (chat_finish st))"

text \<open>The stream written for a chat-completions client is closed by exactly one end marker, which is
  its last frame, whether the upstream reports usage before its finish, after it or never. A usage
  chunk is written exactly once if the client asked for usage and some was reported, and never
  otherwise. Reading the stream back gives the events that went in, in order, except for usage and
  empty deltas.\<close>
theorem chat_stream_terminated:
  assumes "shape_run Fresh evs = Some Finished"
    and "chat_texts_ok jc (chat_client_frames include evs)"
  shows "terminated (chat_client_frames include evs) \<and>
    usage_chunks (chat_client_frames include evs) = (if include \<and> usages evs \<noteq> [] then 1 else 0) \<and>
    (\<exists>es. decode_all (chat_decode_sse jc) False
        (concat (map (chat_frame_lines jc) (chat_client_frames include evs))) = (es, True) \<and>
      concat (map chat_carried es) = concat (map chat_carried evs))"
proof -
  define st where "st = chat_set_include_usage include chat_emit_new"
  let ?e = "chat_encode_events st evs"
  have frames: "chat_client_frames include evs = fst ?e @ fst (chat_finish (snd ?e))"
    by (simp add: chat_client_frames_def st_def split_beta Let_def)
  have st: "chat_linked Fresh st" "\<not> ending Fresh st" "ch_include_usage st = include" "ch_usage st = None" "\<not> ch_started st"
    by (simp_all add: st_def chat_set_include_usage_def chat_emit_new_def ending_def)
  obtain es where fin: "chat_linked Finished (snd ?e)" and started: "ch_started (snd ?e)"
    and es: "chat_decode_frames False (fst ?e) = (es, True)"
      "concat (map chat_carried es) = concat (map chat_carried evs)"
    using chat_stream.run [OF assms(1), of st False] st
    by (auto simp: chat_read_def chat_encode_events_def split_beta Let_def prod_eq_iff)
  obtain es' where "chat_decode_frames True (fst (chat_finish (snd ?e))) = (es', True)" "concat (map chat_carried es') = []"
    using chat_finish_carried [OF fin] started by auto
  with es have "\<exists>es. chat_decode_frames False (chat_client_frames include evs) = (es, True) \<and>
      concat (map chat_carried es) = concat (map chat_carried evs)"
    unfolding frames by (simp add: chat_decode_frames_append)
  moreover have "terminated (chat_client_frames include evs) \<and>
      usage_chunks (chat_client_frames include evs) = (if include \<and> usages evs \<noteq> [] then 1 else 0)"
    using chat_run_frames [OF assms(1) st(1,2)] unfolding frames st(3,4) by simp
  ultimately show ?thesis unfolding chat_decode_lines [OF assms(2)] by blast
qed

theorem chat_stream_terminated_witness:
  "\<exists>jc es. terminated (chat_client_frames True sample_events) \<and> usage_chunks (chat_client_frames True sample_events) = 1 \<and>
     decode_all (chat_decode_sse jc) False
       (concat (map (chat_frame_lines jc) (chat_client_frames True sample_events))) = (es, True) \<and>
     concat (map chat_carried es) = concat (map chat_carried sample_events)"
proof -
  define vs where "vs = concat (map (\<lambda>f. case f of ChatChunk v \<Rightarrow> [v] | ChatDone \<Rightarrow> []) (chat_client_frames True sample_events))"
  define jc where "jc = (sample_codec vs)\<lparr>from_str := (\<lambda>s. if s = ''[DONE]'' then None else from_str (sample_codec vs) s)\<rparr>"
  have "text_ok jc v" if "ChatChunk v \<in> set (chat_client_frames True sample_events)" for v
  proof -
    have "v \<in> set vs" using that by (force simp: vs_def)
    then have "text_ok (sample_codec vs) v" by (rule text_ok_sample)
    moreover have "to_string (sample_codec vs) v \<noteq> ''[DONE]''" by (simp add: sample_codec_sel)
    ultimately show ?thesis by (simp add: jc_def text_ok_def)
  qed
  then have "chat_texts_ok jc (chat_client_frames True sample_events)" by (simp add: chat_texts_ok_def jc_def)
  moreover have "shape_run Fresh sample_events = Some Finished" "usages sample_events \<noteq> []"
    by (simp_all add: sample_events_def)
  ultimately show ?thesis using chat_stream_terminated [of sample_events jc True] by auto
qed

end
