(* ===== verification/Openai_Responses_Wire.thy ===== *)
theory Openai_Responses_Wire
  imports Openai_Chat_Wire
begin

text \<open>
  The OpenAI Responses dialect (\<open>crates/yb-wire/src/openai_responses.rs\<close>): requests as flat item
  lists with the native relay of a client's own items, responses, the decoder of an upstream stream
  and the encoder of a client's, which writes the whole life of every item and holds the final event
  back until usage arrives.

  \<open>parse_arguments\<close> and \<open>join_text\<close> have the same body as in the chat dialect and are shared. The
  encoder is written over frames; \<open>number_frames\<close> adds the sequence numbers \<open>write_event\<close> counts.
\<close>

section \<open>Requests\<close>

definition responses_parse_part :: "json \<Rightarrow> content_block option" where
  "responses_parse_part p =
     (let ty = opt_str p ''type'' in
      if ty = Some ''input_text'' \<or> ty = Some ''output_text'' \<or> ty = Some ''text'' then
        (let text = unwrap_or_default (opt_str p ''text'')
         in Some (if Option.bind (jget p ''prompt_cache_breakpoint'') (\<lambda>b. opt_str b ''mode'') = Some ''explicit''
                  then CachedText text None else Text text))
      else if ty = Some ''input_image'' then Some (image_from_url (unwrap_or_default (opt_str p ''image_url'')))
      else None)"

definition parse_content_parts :: "json option \<Rightarrow> content_block list" where
  "parse_content_parts v =
     (case v of
        Some (JStr s) \<Rightarrow> [Text s]
      | Some (JArr parts) \<Rightarrow> List.map_filter responses_parse_part parts
      | _ \<Rightarrow> [])"

definition join_parts :: "json \<Rightarrow> string" where
  "join_parts item =
     (case jget item ''content'' of
        Some (JStr s) \<Rightarrow> s
      | Some v \<Rightarrow> join_text (parse_content_parts (Some v))
      | None \<Rightarrow> [])"

definition output_text :: "json option \<Rightarrow> string" where
  "output_text v =
     (case v of
        Some (JStr s) \<Rightarrow> s
      | Some (JArr parts) \<Rightarrow> concat (List.map_filter (\<lambda>p. opt_str p ''text'') parts)
      | _ \<Rightarrow> [])"

definition is_tool_call :: "string \<Rightarrow> bool" where
  "is_tool_call t \<longleftrightarrow> t \<in> {''function_call'', ''custom_tool_call'', ''local_shell_call'', ''computer_call''}"

definition is_tool_output :: "string \<Rightarrow> bool" where
  "is_tool_output t \<longleftrightarrow> t \<in> {''function_call_output'', ''custom_tool_call_output'', ''local_shell_call_output''}"

definition or_opt :: "'a option \<Rightarrow> 'a option \<Rightarrow> 'a option" where
  "or_opt a b = (case a of Some x \<Rightarrow> Some x | None \<Rightarrow> b)"

definition has_call_id :: "json \<Rightarrow> bool" where
  "has_call_id item \<longleftrightarrow> opt_str item ''call_id'' \<noteq> None \<or> opt_str item ''tool_call_id'' \<noteq> None"

definition call_id_of :: "json \<Rightarrow> string" where
  "call_id_of item =
     unwrap_or_default (or_opt (or_opt (opt_str item ''call_id'') (opt_str item ''tool_call_id'')) (opt_str item ''id''))"

definition tool_call_message :: "json_codec \<Rightarrow> json \<Rightarrow> message" where
  "tool_call_message jc item =
     (let name = unwrap_or_default (or_opt (opt_str item ''name'') (opt_str item ''type''));
          input = (case or_opt (opt_str item ''arguments'') (opt_str item ''input'') of
                     Some s \<Rightarrow> parse_arguments jc (Some s)
                   | None \<Rightarrow> (case jget item ''action'' of Some a \<Rightarrow> a | None \<Rightarrow> parse_arguments jc None))
      in \<lparr>msg_role = AssistantRole, content = [ToolUse (call_id_of item) name input]\<rparr>)"

definition tool_result_message :: "json \<Rightarrow> string \<Rightarrow> message" where
  "tool_result_message item text =
     \<lparr>msg_role = ToolRole, content = [ToolResult (call_id_of item) [Text text] False]\<rparr>"

definition parse_input_item :: "json_codec \<Rightarrow> json \<Rightarrow> message list" where
  "parse_input_item jc item =
     (let result = tool_result_message item (output_text (jget item ''output'')) in
      case (case opt_str item ''type'' of None \<Rightarrow> ''message'' | Some t \<Rightarrow> t) of t \<Rightarrow>
       (if t = ''message'' then
          (case opt_str item ''role'' of role \<Rightarrow>
             (if role = Some ''tool'' then [tool_result_message item (join_parts item)]
              else
                (let r = (if role = Some ''assistant'' then AssistantRole
                          else if role = Some ''system'' then SystemRole
                          else if role = Some ''developer'' then DeveloperRole else UserRole)
                 in [\<lparr>msg_role = r, content = parse_content_parts (jget item ''content'')\<rparr>])))
        else if is_tool_call t then [tool_call_message jc item]
        else if t = ''mcp_call'' then
          tool_call_message jc item # (if jget item ''output'' \<noteq> None then [result] else [])
        else if is_tool_output t then [result]
        else if has_call_id item \<and> jget item ''output'' \<noteq> None then [result]
        else if has_call_id item \<and> opt_str item ''name'' \<noteq> None then [tool_call_message jc item]
        else []))"

definition responses_parse_tool :: "json \<Rightarrow> tool wire_result" where
  "responses_parse_tool t =
     (case req_str t ''name'' of
        Inl e \<Rightarrow> Inl e
      | Inr n \<Rightarrow> Inr \<lparr>tool_name = n, description = opt_str t ''description'',
                   input_schema = get_or (JObj []) t ''parameters'',
                   strict = Option.bind (jget t ''strict'') as_bool, anthropic_cache_control = None\<rparr>)"

definition responses_parse_tool_choice :: "json \<Rightarrow> tool_choice wire_result" where
  "responses_parse_tool_choice v =
     (case v of
        JStr s \<Rightarrow>
          (if s = ''auto'' then Inr ChoiceAuto
           else if s = ''none'' then Inr ChoiceNone
           else if s = ''required'' then Inr ChoiceRequired
           else Inl (InvalidField ''tool_choice'' (''unknown '' @ s)))
      | JObj _ \<Rightarrow> Inr (ChoiceTool (unwrap_or_default (opt_str v ''name'')))
      | _ \<Rightarrow> Inl (InvalidField ''tool_choice'' ''expected string or object''))"

fun responses_emit_tool_choice :: "tool_choice \<Rightarrow> json" where
  "responses_emit_tool_choice ChoiceAuto = JStr ''auto''"
| "responses_emit_tool_choice ChoiceNone = JStr ''none''"
| "responses_emit_tool_choice ChoiceRequired = JStr ''required''"
| "responses_emit_tool_choice (ChoiceTool name) = JObj [(''type'', JStr ''function''), (''name'', JStr name)]"

definition responses_parse_value :: "json_codec \<Rightarrow> json \<Rightarrow> chat_request wire_result" where
  "responses_parse_value jc v =
     (case as_object v of None \<Rightarrow> Inl (InvalidRequest ''body is not a JSON object'') | Some _ \<Rightarrow>
      (case (case opt_arr v ''tools'' of
               None \<Rightarrow> Inr []
             | Some ts \<Rightarrow> collect_results (map responses_parse_tool
                 (filter (\<lambda>t. opt_str t ''type'' = Some ''function'') ts))) of
         Inl e \<Rightarrow> Inl e | Inr ts \<Rightarrow>
      (case (case jget v ''tool_choice'' of
               None \<Rightarrow> Inr None
             | Some tc \<Rightarrow> map_sum id Some (responses_parse_tool_choice tc)) of
         Inl e \<Rightarrow> Inl e | Inr tc \<Rightarrow>
      Inr (chat_request_default
        \<lparr>model := unwrap_or_default (opt_str v ''model''), stream := opt_bool v ''stream'',
         max_tokens := opt_u32 v ''max_output_tokens'', temperature := opt_f32 v ''temperature'',
         top_p := opt_f32 v ''top_p'',
         system := map_option (\<lambda>i. [Text i]) (opt_str v ''instructions''),
         native_input := Option.bind (jget v ''input'') as_array,
         messages := (case jget v ''input'' of
             Some (JStr s) \<Rightarrow> [\<lparr>msg_role = UserRole, content = [Text s]\<rparr>]
           | Some (JArr items) \<Rightarrow> concat (map (parse_input_item jc) items)
           | _ \<Rightarrow> []),
         tools := ts, tool_choice := tc,
         reasoning := map_option (\<lambda>r. \<lparr>effort = opt_str r ''effort'', budget_tokens = None\<rparr>) (jget v ''reasoning''),
         prompt_cache_key := opt_str v ''prompt_cache_key'',
         prompt_cache_retention := opt_str v ''prompt_cache_retention'',
         prompt_cache_options := jget v ''prompt_cache_options''\<rparr>))))"

definition responses_parse_request :: "json_codec \<Rightarrow> bytes \<Rightarrow> chat_request wire_result" where
  "responses_parse_request jc body =
     (case from_slice jc body of Inl e \<Rightarrow> Inl e | Inr v \<Rightarrow> responses_parse_value jc v)"

definition explicit_breakpoint :: "string \<times> json" where
  "explicit_breakpoint = (''prompt_cache_breakpoint'', JObj [(''mode'', JStr ''explicit'')])"

text \<open>A text block as a content part of the given type.\<close>
fun text_part :: "string \<Rightarrow> content_block \<Rightarrow> json option" where
  "text_part ty (Text t) = Some (JObj [(''type'', JStr ty), (''text'', JStr t)])"
| "text_part ty (CachedText t _) = Some (JObj [(''type'', JStr ty), (''text'', JStr t), explicit_breakpoint])"
| "text_part ty _ = None"

definition response_text_parts :: "content_block list \<Rightarrow> json list" where
  "response_text_parts bs = List.map_filter (text_part ''input_text'') bs"

definition message_item :: "string \<Rightarrow> json list \<Rightarrow> json" where
  "message_item role parts = JObj [(''type'', JStr ''message''), (''role'', JStr role), (''content'', JArr parts)]"

fun tool_output_item :: "content_block \<Rightarrow> json option" where
  "tool_output_item (ToolResult tid cs _) = Some (JObj [(''type'', JStr ''function_call_output''),
     (''call_id'', JStr tid), (''output'', JStr (join_text cs))])"
| "tool_output_item _ = None"

fun user_part :: "content_block \<Rightarrow> json option" where
  "user_part (Image media_type data url) =
     map_option (\<lambda>u. JObj [(''type'', JStr ''input_image''), (''image_url'', JStr u)])
       (case url of Some u \<Rightarrow> Some u | None \<Rightarrow> map_option (build_data_url media_type) data)"
| "user_part b = text_part ''input_text'' b"

text \<open>The blocks of an assistant turn in order: text gathers into a message that is written before
  the next call and at the end.\<close>
fun assistant_items :: "json_codec \<Rightarrow> content_block list \<Rightarrow> json list \<Rightarrow> json list" where
  "assistant_items jc [] parts = (if parts = [] then [] else [message_item ''assistant'' parts])"
| "assistant_items jc (ToolUse tid name input # bs) parts =
     (if parts = [] then [] else [message_item ''assistant'' parts]) @
     [JObj [(''type'', JStr ''function_call''), (''call_id'', JStr tid), (''name'', JStr name),
            (''arguments'', JStr (to_string jc input))]] @
     assistant_items jc bs []"
| "assistant_items jc (b # bs) parts =
     assistant_items jc bs (parts @ (case text_part ''output_text'' b of None \<Rightarrow> [] | Some p \<Rightarrow> [p]))"

definition emit_input_items :: "json_codec \<Rightarrow> message \<Rightarrow> json list" where
  "emit_input_items jc m =
     (case msg_role m of
        SystemRole \<Rightarrow> [message_item ''system'' (response_text_parts (content m))]
      | DeveloperRole \<Rightarrow> [message_item ''developer'' (response_text_parts (content m))]
      | UserRole \<Rightarrow>
          (let parts = List.map_filter user_part (content m)
           in List.map_filter tool_output_item (content m) @
              (if parts = [] then [] else [message_item ''user'' parts]))
      | ToolRole \<Rightarrow> List.map_filter tool_output_item (content m)
      | AssistantRole \<Rightarrow> assistant_items jc (content m) [])"

fun is_cached :: "content_block \<Rightarrow> bool" where
  "is_cached (CachedText _ _) = True"
| "is_cached _ = False"

definition marked_system :: "chat_request \<Rightarrow> bool" where
  "marked_system req = (case system req of None \<Rightarrow> False | Some bs \<Rightarrow> list_ex is_cached bs)"

definition responses_input :: "json_codec \<Rightarrow> chat_request \<Rightarrow> json list" where
  "responses_input jc req =
     (case native_input req of
        Some items \<Rightarrow> items
      | None \<Rightarrow>
          (if marked_system req
           then (case system req of
                   None \<Rightarrow> []
                 | Some bs \<Rightarrow> [message_item ''developer'' (response_text_parts bs)])
           else []) @
          concat (map (emit_input_items jc) (messages req)))"

definition responses_emit_tool :: "tool \<Rightarrow> json" where
  "responses_emit_tool t =
     (let m = [(''type'', JStr ''function''), (''name'', JStr (tool_name t))];
          m = insert_opt ''description'' (map_option JStr (description t)) m;
          m = jinsert ''parameters'' (input_schema t) m
      in JObj (insert_opt ''strict'' (map_option JBool (strict t)) m))"

text \<open>The prompt-cache key with its retention, 24 hours where none is given.\<close>
definition insert_prompt_cache :: "string option \<Rightarrow> string option \<Rightarrow> json_object \<Rightarrow> json_object" where
  "insert_prompt_cache key retention m =
     (case key of
        None \<Rightarrow> m
      | Some k \<Rightarrow>
          jinsert ''prompt_cache_retention'' (JStr (case retention of None \<Rightarrow> ''24h'' | Some r \<Rightarrow> r))
            (jinsert ''prompt_cache_key'' (JStr k) m))"

definition responses_emit_value :: "json_codec \<Rightarrow> chat_request \<Rightarrow> emit_options \<Rightarrow> json" where
  "responses_emit_value jc req opts =
     (let m = [(''model'', JStr (emitted_model req opts)), (''store'', JBool False)];
          m = insert_opt ''instructions'' (if marked_system req then None
                else map_option (JStr \<circ> join_text) (system req)) m;
          m = jinsert ''input'' (JArr (responses_input jc req)) m;
          m = (case prompt_cache_options req of
                 Some options \<Rightarrow> jinsert ''prompt_cache_options'' options m
               | None \<Rightarrow>
                   if marked_system req \<or> list_ex (\<lambda>msg. list_ex is_cached (content msg)) (messages req)
                   then jinsert ''prompt_cache_options'' (JObj [(''mode'', JStr ''explicit'')]) m else m);
          m = insert_opt ''tools'' (if tools req = [] then None
                else Some (JArr (map responses_emit_tool (tools req)))) m;
          m = insert_opt ''tool_choice'' (map_option responses_emit_tool_choice (tool_choice req)) m;
          m = insert_opt ''temperature'' (map_option jf32 (temperature req)) m;
          m = insert_opt ''top_p'' (map_option jf32 (top_p req)) m;
          m = insert_opt ''stream'' (if emit_stream opts then Some (JBool True) else None) m;
          m = insert_opt ''reasoning'' (map_option (\<lambda>e. JObj [(''effort'', JStr e)]) (emitted_effort req opts)) m
      in JObj (insert_prompt_cache (prompt_cache_key req) (prompt_cache_retention req) m))"

definition responses_emit_request :: "json_codec \<Rightarrow> chat_request \<Rightarrow> emit_options \<Rightarrow> emitted_request wire_result" where
  "responses_emit_request jc req opts =
     Inr (to_string jc (responses_emit_value jc req opts), [(''content-type'', ''application/json'')])"

section \<open>Responses\<close>

definition responses_parse_usage :: "json option \<Rightarrow> usage" where
  "responses_parse_usage v =
     (case v of
        None \<Rightarrow> usage_default
      | Some v \<Rightarrow>
          (let or0 = (\<lambda>x. case x of None \<Rightarrow> 0 | Some n \<Rightarrow> n);
               detail = (\<lambda>d k. or0 (Option.bind (jget v d) (\<lambda>x. opt_u32 x k)))
           in usage_default
                \<lparr>input_tokens := or0 (opt_u32 v ''input_tokens''), output_tokens := or0 (opt_u32 v ''output_tokens''),
                 cache_read_tokens := detail ''input_tokens_details'' ''cached_tokens'',
                 cache_write_tokens := detail ''input_tokens_details'' ''cache_write_tokens'',
                 reasoning_tokens := detail ''output_tokens_details'' ''reasoning_tokens''\<rparr>))"

definition responses_emit_usage :: "usage \<Rightarrow> json" where
  "responses_emit_usage u =
     JObj [(''input_tokens'', ju32 (input_tokens u)), (''output_tokens'', ju32 (output_tokens u)),
           (''total_tokens'', ju32 (input_tokens u + output_tokens u)),
           (''input_tokens_details'', JObj [(''cached_tokens'', ju32 (cache_read_tokens u)),
              (''cache_write_tokens'', ju32 (cache_write_tokens u))]),
           (''output_tokens_details'', JObj [(''reasoning_tokens'', ju32 (reasoning_tokens u))])]"

text \<open>The blocks of one output item.\<close>
definition responses_item_blocks :: "json_codec \<Rightarrow> json \<Rightarrow> content_block list" where
  "responses_item_blocks jc item =
     (let ty = opt_str item ''type'' in
      if ty = Some ''message'' then parse_content_parts (jget item ''content'')
      else if ty = Some ''function_call'' then
        [ToolUse (unwrap_or_default (or_opt (opt_str item ''call_id'') (opt_str item ''id'')))
           (unwrap_or_default (opt_str item ''name'')) (parse_arguments jc (opt_str item ''arguments''))]
      else if ty = Some ''reasoning'' then
        (let text = (case Option.bind (jget item ''summary'') as_array of
                       None \<Rightarrow> [] | Some a \<Rightarrow> concat (List.map_filter (\<lambda>s. opt_str s ''text'') a))
         in if text = [] then [] else [Thinking text None])
      else [])"

definition responses_stop :: "json \<Rightarrow> bool \<Rightarrow> stop_reason" where
  "responses_stop v saw_tool =
     (if opt_str v ''status'' = Some ''incomplete'' then
        (let reason = Option.bind (jget v ''incomplete_details'') (\<lambda>d. opt_str d ''reason'')
         in if reason = Some ''max_output_tokens'' then MaxTokens
            else StopOther (case reason of None \<Rightarrow> ''incomplete'' | Some r \<Rightarrow> r))
      else if saw_tool then StopToolUse else EndTurn)"

definition responses_parse_response :: "json_codec \<Rightarrow> bytes \<Rightarrow> chat_response wire_result" where
  "responses_parse_response jc body =
     (case from_slice jc body of Inl e \<Rightarrow> Inl e | Inr v \<Rightarrow>
      (let items = (case opt_arr v ''output'' of None \<Rightarrow> [] | Some items \<Rightarrow> items);
           saw_tool = list_ex (\<lambda>item. opt_str item ''type'' = Some ''function_call'') items
       in Inr \<lparr>response_id = unwrap_or_default (opt_str v ''id''),
               response_model = unwrap_or_default (opt_str v ''model''),
               response_content = concat (map (responses_item_blocks jc) items),
               response_stop = responses_stop v saw_tool,
               response_usage = responses_parse_usage (jget v ''usage''),
               response_cache_key = opt_str v ''prompt_cache_key'',
               response_cache_retention = opt_str v ''prompt_cache_retention''\<rparr>))"

fun response_items :: "json_codec \<Rightarrow> content_block list \<Rightarrow> json list \<Rightarrow> json list" where
  "response_items jc [] parts = (if parts = [] then [] else [message_item ''assistant'' parts])"
| "response_items jc (ToolUse tid name input # bs) parts =
     (if parts = [] then [] else [message_item ''assistant'' parts]) @
     [JObj [(''type'', JStr ''function_call''), (''call_id'', JStr tid), (''name'', JStr name),
            (''arguments'', JStr (to_string jc input)), (''status'', JStr ''completed'')]] @
     response_items jc bs []"
| "response_items jc (b # bs) parts =
     response_items jc bs (parts @ (if is_any_text b
       then [JObj [(''type'', JStr ''output_text''), (''text'', JStr (block_text b))]] else []))"

definition responses_response_value :: "json_codec \<Rightarrow> chat_response \<Rightarrow> json" where
  "responses_response_value jc resp =
     JObj (insert_prompt_cache (response_cache_key resp) (response_cache_retention resp)
       [(''id'', JStr (response_id resp)), (''object'', JStr ''response''), (''model'', JStr (response_model resp)),
        (''status'', JStr ''completed''), (''output'', JArr (response_items jc (response_content resp) [])),
        (''usage'', responses_emit_usage (response_usage resp))])"

definition responses_emit_response :: "json_codec \<Rightarrow> chat_response \<Rightarrow> bytes wire_result" where
  "responses_emit_response jc resp = Inr (to_string jc (responses_response_value jc resp))"

section \<open>Streaming\<close>

type_synonym responses_sse = "stop_reason option"

definition responses_decode_value :: "responses_sse \<Rightarrow> json \<Rightarrow> stream_event list \<times> responses_sse" where
  "responses_decode_value st v =
     (let ty = unwrap_or_default (opt_str v ''type''); delta = unwrap_or_default (opt_str v ''delta'') in
      if ty = ''response.created'' then
        ([MessageStart (unwrap_or_default (Option.bind (jget v ''response'') (\<lambda>r. opt_str r ''model'')))], st)
      else if ty = ''response.output_text.delta'' then ([TextDelta delta], st)
      else if ty = ''response.reasoning_text.delta'' \<or> ty = ''response.reasoning_summary_text.delta''
      then ([ThinkingDelta delta], st)
      else if ty = ''response.output_item.added'' then
        (let item = get_or JNull v ''item'' in
         if opt_str item ''type'' = Some ''function_call''
         then ([ToolUseStart (unwrap_or_default (opt_str item ''call_id'')) (unwrap_or_default (opt_str item ''name''))],
               Some StopToolUse)
         else ([], st))
      else if ty = ''response.function_call_arguments.delta'' then ([ToolUseDelta delta], st)
      else if ty = ''response.completed'' \<or> ty = ''response.incomplete'' then
        ((case Option.bind (jget v ''response'') (\<lambda>r. jget r ''usage'') of
            None \<Rightarrow> []
          | Some u \<Rightarrow> if u = JNull then [] else [UsageDelta (responses_parse_usage (Some u))]) @
         [Done (case st of None \<Rightarrow> EndTurn | Some s \<Rightarrow> s)], None)
      else ([], st))"

definition responses_decode_sse :: "json_codec \<Rightarrow> responses_sse \<Rightarrow> string \<Rightarrow> stream_event list \<times> responses_sse" where
  "responses_decode_sse jc st line =
     (case sse_value jc line of None \<Rightarrow> ([], st) | Some v \<Rightarrow> responses_decode_value st v)"

datatype open_item =
    MessageItem string nat string
  | ReasoningItem string nat string
  | ToolItem string nat string string string

record responses_emit =
  rs_model :: string
  rs_seq :: nat
  rs_usage :: "usage option"
  rs_resp_id :: string
  rs_cache_key :: "string option"
  rs_cache_retention :: "string option"
  rs_next_index :: nat
  rs_open :: "open_item option"
  rs_done_items :: "json list"
  rs_pending_completed :: bool

definition responses_emit_new :: responses_emit where
  "responses_emit_new =
     \<lparr>rs_model = [], rs_seq = 0, rs_usage = None, rs_resp_id = [], rs_cache_key = None, rs_cache_retention = None,
      rs_next_index = 0, rs_open = None, rs_done_items = [], rs_pending_completed = False\<rparr>"

definition responses_set_prompt_cache :: "string option \<Rightarrow> string option \<Rightarrow> responses_emit \<Rightarrow> responses_emit" where
  "responses_set_prompt_cache key retention st = st\<lparr>rs_cache_key := key, rs_cache_retention := retention\<rparr>"

type_synonym responses_frame = "string \<times> json_object"

definition response_obj :: "responses_emit \<Rightarrow> string \<Rightarrow> json list \<Rightarrow> json" where
  "response_obj st status output =
     JObj (insert_prompt_cache (rs_cache_key st) (rs_cache_retention st)
       [(''id'', JStr (rs_resp_id st)), (''object'', JStr ''response''), (''status'', JStr status),
        (''model'', JStr (rs_model st)), (''output'', JArr output),
        (''usage'', case rs_usage st of None \<Rightarrow> JNull | Some u \<Rightarrow> responses_emit_usage u)])"

text \<open>A frame carries its name as the type of its data.\<close>
definition typed_frame :: "string \<Rightarrow> json_object \<Rightarrow> responses_frame" where
  "typed_frame name fl = (name, (''type'', JStr name) # fl)"

definition item_frame :: "string \<Rightarrow> string \<Rightarrow> nat \<Rightarrow> json_object \<Rightarrow> responses_frame" where
  "item_frame name item_id idx fl =
     typed_frame name ([(''item_id'', JStr item_id), (''output_index'', jnat idx)] @ fl)"

definition item_done :: "nat \<Rightarrow> json \<Rightarrow> responses_frame" where
  "item_done idx item = typed_frame ''response.output_item.done'' [(''output_index'', jnat idx), (''item'', item)]"

definition item_added :: "nat \<Rightarrow> json \<Rightarrow> responses_frame" where
  "item_added idx item = typed_frame ''response.output_item.added'' [(''output_index'', jnat idx), (''item'', item)]"

text \<open>The closing frames of an item and the finished item.\<close>
fun close_item :: "open_item \<Rightarrow> responses_frame list \<times> json" where
  "close_item (MessageItem iid idx text) =
     (let item = JObj [(''id'', JStr iid), (''type'', JStr ''message''), (''role'', JStr ''assistant''),
            (''status'', JStr ''completed''),
            (''content'', JArr [JObj [(''type'', JStr ''output_text''), (''text'', JStr text), (''annotations'', JArr [])]])]
      in ([item_frame ''response.output_text.done'' iid idx
             [(''content_index'', jnat 0), (''text'', JStr text), (''logprobs'', JArr [])],
           item_frame ''response.content_part.done'' iid idx
             [(''content_index'', jnat 0),
              (''part'', JObj [(''type'', JStr ''output_text''), (''text'', JStr text), (''annotations'', JArr [])])],
           item_done idx item], item))"
| "close_item (ReasoningItem iid idx text) =
     (let item = JObj [(''id'', JStr iid), (''type'', JStr ''reasoning''), (''summary'', JArr []),
            (''status'', JStr ''completed''),
            (''content'', JArr [JObj [(''type'', JStr ''reasoning_text''), (''text'', JStr text)]])]
      in ([item_frame ''response.reasoning_text.done'' iid idx [(''content_index'', jnat 0), (''text'', JStr text)],
           item_frame ''response.reasoning_part.done'' iid idx
             [(''content_index'', jnat 0), (''part'', JObj [(''type'', JStr ''reasoning_text''), (''text'', JStr text)])],
           item_done idx item], item))"
| "close_item (ToolItem iid idx call_id name args) =
     (let item = JObj [(''id'', JStr iid), (''type'', JStr ''function_call''), (''call_id'', JStr call_id),
            (''name'', JStr name), (''arguments'', JStr args), (''status'', JStr ''completed'')]
      in ([item_frame ''response.function_call_arguments.done'' iid idx [(''arguments'', JStr args)],
           item_done idx item], item))"

definition responses_close_open :: "responses_emit \<Rightarrow> responses_frame list \<times> responses_emit" where
  "responses_close_open st =
     (case rs_open st of
        None \<Rightarrow> ([], st)
      | Some item \<Rightarrow>
          (let (fs, done_item) = close_item item
           in (fs, st\<lparr>rs_open := None, rs_done_items := rs_done_items st @ [done_item]\<rparr>)))"

definition ensure_message :: "responses_emit \<Rightarrow> responses_frame list \<times> responses_emit" where
  "ensure_message st =
     (case rs_open st of
        Some (MessageItem _ _ _) \<Rightarrow> ([], st)
      | _ \<Rightarrow>
          (let (fs, st) = responses_close_open st;
               idx = rs_next_index st;
               iid = ''msg_'' @ show_nat idx
           in (fs @ [item_added idx (JObj [(''id'', JStr iid), (''type'', JStr ''message''), (''role'', JStr ''assistant''),
                        (''content'', JArr []), (''status'', JStr ''in_progress'')]),
                     item_frame ''response.content_part.added'' iid idx
                       [(''content_index'', jnat 0),
                        (''part'', JObj [(''type'', JStr ''output_text''), (''text'', JStr []), (''annotations'', JArr []),
                                        (''logprobs'', JArr [])])]],
               st\<lparr>rs_next_index := idx + 1, rs_open := Some (MessageItem iid idx [])\<rparr>)))"

definition ensure_reasoning :: "responses_emit \<Rightarrow> responses_frame list \<times> responses_emit" where
  "ensure_reasoning st =
     (case rs_open st of
        Some (ReasoningItem _ _ _) \<Rightarrow> ([], st)
      | _ \<Rightarrow>
          (let (fs, st) = responses_close_open st;
               idx = rs_next_index st;
               iid = ''rs_'' @ show_nat idx
           in (fs @ [item_added idx (JObj [(''id'', JStr iid), (''type'', JStr ''reasoning''), (''summary'', JArr []),
                        (''content'', JNull), (''status'', JStr ''in_progress'')]),
                     item_frame ''response.reasoning_part.added'' iid idx
                       [(''content_index'', jnat 0), (''part'', JObj [(''type'', JStr ''reasoning_text''), (''text'', JStr [])])]],
               st\<lparr>rs_next_index := idx + 1, rs_open := Some (ReasoningItem iid idx [])\<rparr>)))"

definition completed_frame :: "responses_emit \<Rightarrow> responses_frame" where
  "completed_frame st =
     typed_frame ''response.completed'' [(''response'', response_obj st ''completed'' (rs_done_items st))]"

fun responses_event_frames :: "responses_emit \<Rightarrow> stream_event \<Rightarrow> responses_frame list \<times> responses_emit" where
  "responses_event_frames st (MessageStart m) =
     (let st = st\<lparr>rs_model := m, rs_resp_id := (if rs_resp_id st = [] then ''resp_stream'' else rs_resp_id st)\<rparr>;
          resp = response_obj st ''in_progress'' []
      in ([typed_frame ''response.created'' [(''response'', resp)],
           typed_frame ''response.in_progress'' [(''response'', resp)]], st))"
| "responses_event_frames st (TextDelta t) =
     (let (fs, st) = ensure_message st in
      case rs_open st of
        Some (MessageItem iid idx acc) \<Rightarrow>
          (fs @ [item_frame ''response.output_text.delta'' iid idx
                   [(''content_index'', jnat 0), (''delta'', JStr t), (''logprobs'', JArr [])]],
           st\<lparr>rs_open := Some (MessageItem iid idx (acc @ t))\<rparr>)
      | _ \<Rightarrow> (fs, st))"
| "responses_event_frames st (ThinkingDelta t) =
     (let (fs, st) = ensure_reasoning st in
      case rs_open st of
        Some (ReasoningItem iid idx acc) \<Rightarrow>
          (fs @ [item_frame ''response.reasoning_text.delta'' iid idx
                   [(''content_index'', jnat 0), (''delta'', JStr t)]],
           st\<lparr>rs_open := Some (ReasoningItem iid idx (acc @ t))\<rparr>)
      | _ \<Rightarrow> (fs, st))"
| "responses_event_frames st (ToolUseStart tid name) =
     (let (fs, st) = responses_close_open st;
          idx = rs_next_index st;
          iid = ''fc_'' @ show_nat idx
      in (fs @ [item_added idx (JObj [(''id'', JStr iid), (''type'', JStr ''function_call''), (''call_id'', JStr tid),
                   (''name'', JStr name), (''arguments'', JStr []), (''status'', JStr ''in_progress'')])],
          st\<lparr>rs_next_index := idx + 1, rs_open := Some (ToolItem iid idx tid name [])\<rparr>))"
| "responses_event_frames st (ToolUseDelta j) =
     (case rs_open st of
        Some (ToolItem iid idx tid name args) \<Rightarrow>
          ([item_frame ''response.function_call_arguments.delta'' iid idx [(''delta'', JStr j)]],
           st\<lparr>rs_open := Some (ToolItem iid idx tid name (args @ j))\<rparr>)
      | _ \<Rightarrow> ([], st))"
| "responses_event_frames st (UsageDelta u) =
     (let st = st\<lparr>rs_usage := Some (usage_merge (case rs_usage st of None \<Rightarrow> usage_default | Some v \<Rightarrow> v) u)\<rparr>
      in if rs_pending_completed st
         then ([completed_frame st], st\<lparr>rs_pending_completed := False\<rparr>)
         else ([], st))"
| "responses_event_frames st (Done s) =
     (let (fs, st) = responses_close_open st
      in if rs_usage st \<noteq> None then (fs @ [completed_frame st], st)
         else (fs, st\<lparr>rs_pending_completed := True\<rparr>))"

fun number_frames :: "nat \<Rightarrow> responses_frame list \<Rightarrow> responses_frame list" where
  "number_frames n [] = []"
| "number_frames n ((name, m) # fs) = (name, jinsert ''sequence_number'' (jnat n) m) # number_frames (n + 1) fs"

text \<open>The loop of \<open>write_event\<close>: number the frames on from the count so far.\<close>
definition write_frames ::
  "responses_frame list \<times> responses_emit \<Rightarrow> responses_frame list \<times> responses_emit" where
  "write_frames r =
     (let (fs, st) = r in (number_frames (rs_seq st) fs, st\<lparr>rs_seq := rs_seq st + length fs\<rparr>))"

definition responses_encode_event :: "responses_emit \<Rightarrow> stream_event \<Rightarrow> responses_frame list \<times> responses_emit" where
  "responses_encode_event st ev = write_frames (responses_event_frames st ev)"

definition responses_encode_events :: "responses_emit \<Rightarrow> stream_event list \<Rightarrow> responses_frame list \<times> responses_emit" where
  "responses_encode_events = encode_all responses_encode_event"

definition responses_finish :: "responses_emit \<Rightarrow> responses_frame list \<times> responses_emit" where
  "responses_finish st =
     (if \<not> rs_pending_completed st then ([], st)
      else (let st = st\<lparr>rs_pending_completed := False\<rparr> in write_frames ([completed_frame st], st)))"

definition responses_frame_text :: "json_codec \<Rightarrow> responses_frame \<Rightarrow> string" where
  "responses_frame_text jc f =
     ''event: '' @ fst f @ [CHR 0x0A] @ ''data: '' @ to_string jc (JObj (snd f)) @ [CHR 0x0A, CHR 0x0A]"

definition responses_encode_sse ::
  "json_codec \<Rightarrow> responses_emit \<Rightarrow> stream_event list \<Rightarrow> bytes \<times> responses_emit" where
  "responses_encode_sse jc st evs =
     (let (fs, st) = responses_encode_events st evs in (concat (map (responses_frame_text jc) fs), st))"

section \<open>The client's stream\<close>

text \<open>
  The protocol of a strict client: the response is created and in progress, items open with
  consecutive indices, one at a time, every delta belongs to the open item, the closing event repeats
  the whole text the deltas gave, and the final event lists as many items as were closed.
\<close>
datatype responses_client = RWaiting | RCreated | RReady nat | ROpen nat block_kind string | RClosed

definition item_kind :: "json \<Rightarrow> block_kind option" where
  "item_kind item =
     (let ty = opt_str item ''type'' in
      if ty = Some ''message'' then Some TextBlock
      else if ty = Some ''reasoning'' then Some ThinkingBlock
      else if ty = Some ''function_call'' then Some ToolBlock else None)"

fun delta_event :: "block_kind \<Rightarrow> string" where
  "delta_event TextBlock = ''response.output_text.delta''"
| "delta_event ThinkingBlock = ''response.reasoning_text.delta''"
| "delta_event ToolBlock = ''response.function_call_arguments.delta''"

fun done_event :: "block_kind \<Rightarrow> string \<times> string" where
  "done_event TextBlock = (''response.output_text.done'', ''text'')"
| "done_event ThinkingBlock = (''response.reasoning_text.done'', ''text'')"
| "done_event ToolBlock = (''response.function_call_arguments.done'', ''arguments'')"

fun part_events :: "block_kind \<Rightarrow> string list" where
  "part_events TextBlock = [''response.content_part.added'', ''response.content_part.done'']"
| "part_events ThinkingBlock = [''response.reasoning_part.added'', ''response.reasoning_part.done'']"
| "part_events ToolBlock = []"

definition responses_client_step :: "responses_client \<Rightarrow> responses_frame \<Rightarrow> responses_client option" where
  "responses_client_step c f =
     (let n = fst f; v = JObj (snd f) in
      if opt_str v ''type'' \<noteq> Some n then None
      else case c of
        RWaiting \<Rightarrow> if n = ''response.created'' then Some RCreated else None
      | RCreated \<Rightarrow> if n = ''response.in_progress'' then Some (RReady 0) else None
      | RReady i \<Rightarrow>
          if n = ''response.output_item.added'' \<and> jget v ''output_index'' = Some (jnat i)
          then map_option (\<lambda>k. ROpen i k []) (item_kind (get_or JNull v ''item''))
          else if n = ''response.completed'' \<and>
            Option.bind (jget v ''response'') (\<lambda>r. map_option length (opt_arr r ''output'')) = Some i
          then Some RClosed else None
      | ROpen i k acc \<Rightarrow>
          if jget v ''output_index'' \<noteq> Some (jnat i) then None
          else if n \<in> set (part_events k) then Some (ROpen i k acc)
          else if n = delta_event k then map_option (\<lambda>d. ROpen i k (acc @ d)) (opt_str v ''delta'')
          else if n = fst (done_event k) \<and> opt_str v (snd (done_event k)) = Some acc then Some (ROpen i k acc)
          else if n = ''response.output_item.done'' then Some (RReady (i + 1)) else None
      | RClosed \<Rightarrow> None)"

fun responses_client_run :: "responses_client \<Rightarrow> responses_frame list \<Rightarrow> responses_client option" where
  "responses_client_run c [] = Some c"
| "responses_client_run c (f # fs) =
     (case responses_client_step c f of None \<Rightarrow> None | Some c \<Rightarrow> responses_client_run c fs)"

lemma responses_client_run_append:
  "responses_client_run c (fs @ gs) =
     (case responses_client_run c fs of None \<Rightarrow> None | Some c \<Rightarrow> responses_client_run c gs)"
  by (induction fs arbitrary: c) (auto split: option.split)

text \<open>Sequence numbers are read by nobody.\<close>
lemma opt_str_numbered [simp]:
  "k \<noteq> ''sequence_number'' \<Longrightarrow> opt_str (JObj (jinsert ''sequence_number'' x m)) k = opt_str (JObj m) k"
  by (auto simp: opt_str_def)

lemma get_or_numbered [simp]:
  "k \<noteq> ''sequence_number'' \<Longrightarrow> get_or d (JObj (jinsert ''sequence_number'' x m)) k = get_or d (JObj m) k"
  by (auto simp: get_or_def)

lemma done_field [simp]: "snd (done_event k) \<noteq> ''sequence_number''"
  by (cases k) simp_all

lemma responses_client_numbered [simp]:
  "responses_client_run c (number_frames n fs) = responses_client_run c fs"
proof (induction n fs arbitrary: c rule: number_frames.induct)
  case (2 n name m fs)
  have "responses_client_step c (name, jinsert ''sequence_number'' (jnat n) m) = responses_client_step c (name, m)"
    by (cases c) (simp_all add: responses_client_step_def Let_def)
  with 2 show ?case by (simp split: option.split)
qed simp

fun responses_linked :: "phase \<Rightarrow> responses_emit \<Rightarrow> responses_client \<Rightarrow> bool" where
  "responses_linked Fresh st c \<longleftrightarrow> rs_open st = None \<and> rs_next_index st = 0 \<and> rs_done_items st = [] \<and>
     \<not> rs_pending_completed st \<and> c = RWaiting"
| "responses_linked (Running k) st c \<longleftrightarrow> \<not> rs_pending_completed st \<and>
     (case rs_open st of
        None \<Rightarrow> k = None \<and> c = RReady (rs_next_index st) \<and> length (rs_done_items st) = rs_next_index st
      | Some item \<Rightarrow> rs_next_index st = Suc (length (rs_done_items st)) \<and>
         (case item of
            MessageItem iid i acc \<Rightarrow> k = Some TextBlock \<and> c = ROpen i TextBlock acc \<and> i = length (rs_done_items st)
          | ReasoningItem iid i acc \<Rightarrow> k = Some ThinkingBlock \<and> c = ROpen i ThinkingBlock acc \<and> i = length (rs_done_items st)
          | ToolItem iid i tid n acc \<Rightarrow> k = Some ToolBlock \<and> c = ROpen i ToolBlock acc \<and> i = length (rs_done_items st)))"
| "responses_linked Finished st c \<longleftrightarrow> rs_open st = None \<and> length (rs_done_items st) = rs_next_index st \<and>
     (if rs_pending_completed st then c = RReady (rs_next_index st) \<and> rs_usage st = None else c = RClosed)"

lemmas responses_frame_defs = typed_frame_def item_frame_def item_done_def item_added_def

lemma close_open_linked:
  assumes "responses_linked (Running k) st c"
  shows "responses_client_run c (fst (responses_close_open st)) = Some (RReady (rs_next_index st))"
    "rs_open (snd (responses_close_open st)) = None"
    "length (rs_done_items (snd (responses_close_open st))) = rs_next_index st"
    "rs_next_index (snd (responses_close_open st)) = rs_next_index st"
    "rs_pending_completed (snd (responses_close_open st)) = rs_pending_completed st"
    "rs_usage (snd (responses_close_open st)) = rs_usage st"
  using assms
  by (auto simp: responses_close_open_def responses_client_step_def responses_frame_defs wire_simps Let_def
      split: option.splits open_item.splits)

lemma completed_closes:
  "length (rs_done_items st) = i \<Longrightarrow> responses_client_step (RReady i) (completed_frame st) = Some RClosed"
  by (simp add: completed_frame_def responses_client_step_def typed_frame_def wire_simps response_obj_def
      insert_prompt_cache_def opt_arr_def split: option.split)

lemma item_added_opens:
  "item_kind item = Some k \<Longrightarrow> responses_client_step (RReady i) (item_added i item) = Some (ROpen i k [])"
  by (simp add: responses_client_step_def item_added_def typed_frame_def wire_simps)

lemma part_frame_accepted:
  "responses_client_step (ROpen i TextBlock acc) (item_frame ''response.content_part.added'' iid i m) = Some (ROpen i TextBlock acc)"
  "responses_client_step (ROpen i ThinkingBlock acc) (item_frame ''response.reasoning_part.added'' iid i m) = Some (ROpen i ThinkingBlock acc)"
  by (simp_all add: responses_client_step_def item_frame_def typed_frame_def wire_simps Let_def)

lemma responses_linked_usage [simp]:
  "responses_linked (Running k) (st\<lparr>rs_usage := u\<rparr>) c = responses_linked (Running k) st c"
  by (simp cong: option.case_cong open_item.case_cong)

lemma ensure_message_linked:
  assumes "responses_linked (Running k) st c"
  shows "\<exists>d. responses_client_run c (fst (ensure_message st)) = Some d \<and>
    responses_linked (Running (Some TextBlock)) (snd (ensure_message st)) d"
proof (cases "\<exists>iid i acc. rs_open st = Some (MessageItem iid i acc)")
  case True
  with assms show ?thesis by (auto simp: ensure_message_def)
next
  case False
  then have e: "ensure_message st =
      (let (fs, st) = responses_close_open st; idx = rs_next_index st; iid = ''msg_'' @ show_nat idx
       in (fs @ [item_added idx (JObj [(''id'', JStr iid), (''type'', JStr ''message''), (''role'', JStr ''assistant''),
              (''content'', JArr []), (''status'', JStr ''in_progress'')]),
            item_frame ''response.content_part.added'' iid idx
              [(''content_index'', jnat 0),
               (''part'', JObj [(''type'', JStr ''output_text''), (''text'', JStr []), (''annotations'', JArr []), (''logprobs'', JArr [])])]],
           st\<lparr>rs_next_index := idx + 1, rs_open := Some (MessageItem iid idx [])\<rparr>))"
    by (auto simp: ensure_message_def split: option.split open_item.split)
  note c = close_open_linked [OF assms]
  show ?thesis
    using c assms unfolding e
    by (simp add: split_beta Let_def responses_client_run_append item_added_opens item_kind_def wire_simps
        part_frame_accepted)
qed

lemma ensure_reasoning_linked:
  assumes "responses_linked (Running k) st c"
  shows "\<exists>d. responses_client_run c (fst (ensure_reasoning st)) = Some d \<and>
    responses_linked (Running (Some ThinkingBlock)) (snd (ensure_reasoning st)) d"
proof (cases "\<exists>iid i acc. rs_open st = Some (ReasoningItem iid i acc)")
  case True
  with assms show ?thesis by (auto simp: ensure_reasoning_def)
next
  case False
  then have e: "ensure_reasoning st =
      (let (fs, st) = responses_close_open st; idx = rs_next_index st; iid = ''rs_'' @ show_nat idx
       in (fs @ [item_added idx (JObj [(''id'', JStr iid), (''type'', JStr ''reasoning''), (''summary'', JArr []),
              (''content'', JNull), (''status'', JStr ''in_progress'')]),
            item_frame ''response.reasoning_part.added'' iid idx
              [(''content_index'', jnat 0), (''part'', JObj [(''type'', JStr ''reasoning_text''), (''text'', JStr [])])]],
           st\<lparr>rs_next_index := idx + 1, rs_open := Some (ReasoningItem iid idx [])\<rparr>))"
    by (auto simp: ensure_reasoning_def split: option.split open_item.split)
  note c = close_open_linked [OF assms]
  show ?thesis
    using c assms unfolding e
    by (simp add: split_beta Let_def responses_client_run_append item_added_opens item_kind_def wire_simps
        part_frame_accepted)
qed

lemma linked_open_kind:
  "responses_linked (Running (Some TextBlock)) st c \<Longrightarrow> \<exists>iid acc. rs_open st = Some (MessageItem iid (length (rs_done_items st)) acc)"
  "responses_linked (Running (Some ThinkingBlock)) st c \<Longrightarrow> \<exists>iid acc. rs_open st = Some (ReasoningItem iid (length (rs_done_items st)) acc)"
  "responses_linked (Running (Some ToolBlock)) st c \<Longrightarrow> \<exists>iid tid n acc. rs_open st = Some (ToolItem iid (length (rs_done_items st)) tid n acc)"
  by (auto split: option.splits open_item.splits)

lemma delta_frame_accepted:
  "responses_client_step (ROpen i k acc) (item_frame (delta_event k) iid i
     ([(''content_index'', x), (''delta'', JStr t)] @ m)) = Some (ROpen i k (acc @ t))"
  "responses_client_step (ROpen i ToolBlock acc) (item_frame (delta_event ToolBlock) iid i [(''delta'', JStr t)]) =
     Some (ROpen i ToolBlock (acc @ t))"
  by (cases k; simp add: responses_client_step_def item_frame_def typed_frame_def wire_simps Let_def)+

lemma responses_step_linked:
  assumes "shape_step p e = Some q" "responses_linked p st c"
  shows "\<exists>d. responses_client_run c (fst (responses_event_frames st e)) = Some d \<and>
    responses_linked q (snd (responses_event_frames st e)) d"
proof (cases e)
  case (MessageStart m)
  with assms show ?thesis
    by (auto simp: responses_client_step_def typed_frame_def wire_simps Let_def elim!: shape_step.elims)
next
  case (TextDelta t)
  with assms(1) obtain k where k: "p = Running k" "q = Running (Some TextBlock)" by (auto elim!: shape_step.elims)
  from ensure_message_linked [of k st c] assms(2) k(1) obtain d where
    d: "responses_client_run c (fst (ensure_message st)) = Some d"
      "responses_linked (Running (Some TextBlock)) (snd (ensure_message st)) d" by auto
  from linked_open_kind(1) [OF d(2)] obtain iid acc where
    o: "rs_open (snd (ensure_message st)) = Some (MessageItem iid (length (rs_done_items (snd (ensure_message st)))) acc)" by blast
  with d k TextDelta delta_frame_accepted(1) [of _ TextBlock] show ?thesis
    by (simp add: split_beta Let_def responses_client_run_append)
next
  case (ThinkingDelta t)
  with assms(1) obtain k where k: "p = Running k" "q = Running (Some ThinkingBlock)" by (auto elim!: shape_step.elims)
  from ensure_reasoning_linked [of k st c] assms(2) k(1) obtain d where
    d: "responses_client_run c (fst (ensure_reasoning st)) = Some d"
      "responses_linked (Running (Some ThinkingBlock)) (snd (ensure_reasoning st)) d" by auto
  from linked_open_kind(2) [OF d(2)] obtain iid acc where
    o: "rs_open (snd (ensure_reasoning st)) = Some (ReasoningItem iid (length (rs_done_items (snd (ensure_reasoning st)))) acc)" by blast
  with d k ThinkingDelta delta_frame_accepted(1) [of _ ThinkingBlock _ _ _ _ "[]"] show ?thesis
    by (simp add: split_beta Let_def responses_client_run_append)
next
  case (ToolUseStart i n)
  with assms(1) obtain k where k: "p = Running k" "q = Running (Some ToolBlock)" by (auto elim!: shape_step.elims)
  note c = close_open_linked [of k st c]
  from assms(2) k ToolUseStart c show ?thesis
    by (simp add: split_beta Let_def responses_client_run_append item_added_opens item_kind_def wire_simps)
next
  case (ToolUseDelta j)
  with assms(1) have k: "p = Running (Some ToolBlock)" "q = Running (Some ToolBlock)" by (auto elim!: shape_step.elims)
  with linked_open_kind(3) [of st c] assms(2) obtain iid tid n acc where
    "rs_open st = Some (ToolItem iid (length (rs_done_items st)) tid n acc)" by auto
  with assms(2) k ToolUseDelta delta_frame_accepted(2) show ?thesis by simp
next
  case (UsageDelta u)
  with assms(1) have "q = p" by simp
  with assms(2) UsageDelta show ?thesis
  proof (cases p)
    case (Running k)
    with assms(2) UsageDelta \<open>q = p\<close> show ?thesis
      by (simp add: Let_def del: responses_linked.simps) (simp add: responses_linked.simps(2) del: responses_linked_usage)
  qed (auto simp: completed_closes Let_def)
next
  case (Done r)
  with assms(1) obtain k where k: "p = Running k" "q = Finished" by (auto elim!: shape_step.elims)
  note c = close_open_linked [of k st c]
  from assms(2) k Done c completed_closes [of "snd (responses_close_open st)" "rs_next_index st"] show ?thesis
    by (auto simp: split_beta Let_def responses_client_run_append)
qed

section \<open>Reading the stream back\<close>

definition responses_frame_lines :: "json_codec \<Rightarrow> responses_frame \<Rightarrow> string list" where
  "responses_frame_lines jc f = [''event: '' @ fst f, ''data: '' @ to_string jc (JObj (snd f)), []]"

fun responses_decode_frames :: "responses_sse \<Rightarrow> responses_frame list \<Rightarrow> stream_event list \<times> responses_sse" where
  "responses_decode_frames st [] = ([], st)"
| "responses_decode_frames st (f # fs) =
     (let (es, st) = responses_decode_value st (JObj (snd f)); (es', st) = responses_decode_frames st fs in (es @ es', st))"

lemma responses_decode_frames_append:
  "responses_decode_frames st (fs @ gs) =
     (let (a, st) = responses_decode_frames st fs; (b, st) = responses_decode_frames st gs in (a @ b, st))"
  by (induction fs arbitrary: st) (auto simp: Let_def split: prod.split)

lemma responses_decode_numbered [simp]:
  "responses_decode_frames st (number_frames n fs) = responses_decode_frames st fs"
proof (induction n fs arbitrary: st rule: number_frames.induct)
  case (2 n name m fs)
  have "responses_decode_value st (JObj (jinsert ''sequence_number'' (jnat n) m)) = responses_decode_value st (JObj m)"
    by (simp add: responses_decode_value_def Let_def)
  with 2 show ?case by simp
qed simp

lemma responses_decode_lines:
  "\<forall>f \<in> set fs. text_ok jc (JObj (snd f)) \<Longrightarrow>
     decode_all (responses_decode_sse jc) st (concat (map (responses_frame_lines jc) fs)) = responses_decode_frames st fs"
proof (induction fs arbitrary: st)
  case (Cons f fs)
  then show ?case
    by (simp add: responses_frame_lines_def [of jc f] responses_decode_sse_def [of jc _ "_ # _"]
        responses_decode_sse_def [of jc _ "[]"] sse_value_event [simplified] sse_value_Nil sse_value_data [simplified] split_beta Let_def)
qed simp

text \<open>Frames the decoder passes over.\<close>
definition silent :: "responses_frame \<Rightarrow> bool" where
  "silent f \<longleftrightarrow> (\<forall>d. responses_decode_value d (JObj (snd f)) = ([], d))"

lemma silent_run: "list_all silent fs \<Longrightarrow> responses_decode_frames d fs = ([], d)"
  by (induction fs) (simp_all add: silent_def)

lemma silent_close_item: "list_all silent (fst (close_item item))"
  by (cases item) (simp_all add: silent_def responses_decode_value_def responses_frame_defs wire_simps Let_def)

lemma silent_close [simp]: "list_all silent (fst (responses_close_open st))"
  using silent_close_item by (simp add: responses_close_open_def split_beta Let_def split: option.split)

lemma silent_added: "opt_str item ''type'' \<noteq> Some ''function_call'' \<Longrightarrow> silent (item_added i item)"
  by (simp add: silent_def responses_decode_value_def item_added_def typed_frame_def wire_simps Let_def)

lemma silent_part:
  "silent (item_frame ''response.content_part.added'' iid i m)" "silent (item_frame ''response.reasoning_part.added'' iid i m)"
  by (simp_all add: silent_def responses_decode_value_def item_frame_def typed_frame_def wire_simps Let_def)

lemma silent_ensure [simp]:
  "list_all silent (fst (ensure_message st))" "list_all silent (fst (ensure_reasoning st))"
  by (auto simp: ensure_message_def ensure_reasoning_def split_beta Let_def silent_added silent_part wire_simps
      split: option.split open_item.split)

fun plain :: "stream_event \<Rightarrow> stream_event list" where
  "plain (UsageDelta u) = []"
| "plain (Done s) = []"
| "plain e = [e]"

fun is_end :: "stream_event \<Rightarrow> bool" where
  "is_end (Done s) = True"
| "is_end _ = False"

definition stop_of :: "responses_sse \<Rightarrow> stop_reason" where
  "stop_of d = (case d of None \<Rightarrow> EndTurn | Some s \<Rightarrow> s)"

definition responses_ended :: "phase \<Rightarrow> responses_emit \<Rightarrow> bool" where
  "responses_ended p st \<longleftrightarrow> p = Finished \<and> \<not> rs_pending_completed st"

lemma decode_completed:
  "\<exists>us. responses_decode_value d (JObj (snd (completed_frame st))) = (us @ [Done (stop_of d)], None) \<and>
     concat (map plain us) = [] \<and> filter is_end us = []"
  by (auto simp: completed_frame_def typed_frame_def responses_decode_value_def wire_simps stop_of_def response_obj_def
      insert_prompt_cache_def responses_emit_usage_def split: option.split)

lemma pending_linked: "responses_linked p st c \<Longrightarrow> rs_pending_completed st \<Longrightarrow> p = Finished"
  by (cases p) auto

text \<open>The two stop reasons a client can read.\<close>
definition known_stop :: "stop_reason \<Rightarrow> bool" where
  "known_stop r \<longleftrightarrow> r = EndTurn \<or> r = StopToolUse"

lemma known_stop_none: "known_stop (stop_of None)"
  by (simp add: known_stop_def stop_of_def)

lemma responses_step_decoded:
  assumes "shape_step p e = Some q" "responses_linked p st c" "\<not> responses_ended p st" "known_stop (stop_of d)"
  shows "\<exists>es d'. responses_decode_frames d (fst (responses_event_frames st e)) = (es, d') \<and>
    concat (map plain es) = plain e \<and> known_stop (stop_of d') \<and>
    filter is_end es = (if responses_ended q (snd (responses_event_frames st e)) then [Done (stop_of d)] else [])"
proof (cases e)
  case (MessageStart m)
  with assms show ?thesis
    by (auto simp: responses_ended_def responses_decode_value_def typed_frame_def wire_simps Let_def response_obj_def
        insert_prompt_cache_def opt_str_def elim!: shape_step.elims split: option.split)
next
  case (TextDelta t)
  with assms(1) obtain k where k: "p = Running k" "q = Running (Some TextBlock)" by (auto elim!: shape_step.elims)
  from ensure_message_linked [of k st c] assms(2) k(1) obtain c2 where
    "responses_linked (Running (Some TextBlock)) (snd (ensure_message st)) c2" by auto
  from linked_open_kind(1) [OF this] k TextDelta assms(4) show ?thesis
    by (auto simp: responses_ended_def split_beta Let_def responses_decode_frames_append silent_run
        responses_decode_value_def responses_frame_defs wire_simps)
next
  case (ThinkingDelta t)
  with assms(1) obtain k where k: "p = Running k" "q = Running (Some ThinkingBlock)" by (auto elim!: shape_step.elims)
  from ensure_reasoning_linked [of k st c] assms(2) k(1) obtain c2 where
    "responses_linked (Running (Some ThinkingBlock)) (snd (ensure_reasoning st)) c2" by auto
  from linked_open_kind(2) [OF this] k ThinkingDelta assms(4) show ?thesis
    by (auto simp: responses_ended_def split_beta Let_def responses_decode_frames_append silent_run
        responses_decode_value_def responses_frame_defs wire_simps)
next
  case (ToolUseStart i n)
  with assms(1) obtain k where "p = Running k" "q = Running (Some ToolBlock)" by (auto elim!: shape_step.elims)
  with ToolUseStart assms(4) show ?thesis
    by (auto simp: known_stop_def stop_of_def responses_ended_def split_beta Let_def responses_decode_frames_append silent_run
        responses_decode_value_def responses_frame_defs wire_simps)
next
  case (ToolUseDelta j)
  with assms(1) have k: "p = Running (Some ToolBlock)" "q = Running (Some ToolBlock)" by (auto elim!: shape_step.elims)
  with linked_open_kind(3) [of st c] assms(2) obtain iid tid n acc where
    "rs_open st = Some (ToolItem iid (length (rs_done_items st)) tid n acc)" by auto
  with k ToolUseDelta assms(4) show ?thesis
    by (auto simp: responses_ended_def responses_decode_value_def responses_frame_defs wire_simps)
next
  case (UsageDelta u)
  with assms(1) have "q = p" by simp
  with assms UsageDelta decode_completed show ?thesis
    by (fastforce simp: known_stop_none responses_ended_def Let_def dest: pending_linked)
next
  case (Done r)
  with assms(1) obtain k where "p = Running k" "q = Finished" by (auto elim!: shape_step.elims)
  with assms(2) Done decode_completed [of d "snd (responses_close_open st)"] close_open_linked [of k st c] assms(4) show ?thesis
    by (auto simp: known_stop_none responses_ended_def split_beta Let_def responses_decode_frames_append silent_run)
qed


lemma responses_ended_silent:
  assumes "shape_step p e = Some q" "responses_ended p st"
  shows "fst (responses_event_frames st e) = [] \<and> responses_ended q (snd (responses_event_frames st e))"
  using assms by (auto simp: responses_ended_def Let_def elim!: shape_step.elims)

text \<open>A reader that follows the protocol, decodes the frames and keeps the ends it saw.\<close>
definition responses_read ::
  "responses_client \<times> responses_sse \<times> stream_event list \<Rightarrow> responses_frame list \<Rightarrow>
   (stream_event list \<times> responses_client \<times> responses_sse \<times> stream_event list) option" where
  "responses_read r fs =
     (case r of (c, d, ends) \<Rightarrow>
        (case responses_client_run c fs of
           None \<Rightarrow> None
         | Some c \<Rightarrow>
             (let (es, d) = responses_decode_frames d fs
              in Some (concat (map plain es), c, d, ends @ filter is_end es))))"

definition responses_reader_linked ::
  "phase \<Rightarrow> responses_emit \<Rightarrow> responses_client \<times> responses_sse \<times> stream_event list \<Rightarrow> bool" where
  "responses_reader_linked p st r \<longleftrightarrow>
     (case r of (c, d, ends) \<Rightarrow> responses_linked p st c \<and> known_stop (stop_of d) \<and>
        (if responses_ended p st then \<exists>k. known_stop k \<and> ends = [Done k] else ends = []))"

lemma write_frames_sel:
  "responses_client_run c (fst (responses_encode_event st e)) = responses_client_run c (fst (responses_event_frames st e))"
  "responses_decode_frames d (fst (responses_encode_event st e)) = responses_decode_frames d (fst (responses_event_frames st e))"
  by (simp_all add: responses_encode_event_def write_frames_def split_beta Let_def)

lemma linked_seq [simp]:
  "responses_linked p (st\<lparr>rs_seq := n\<rparr>) c = responses_linked p st c" "responses_ended p (st\<lparr>rs_seq := n\<rparr>) = responses_ended p st"
  by (cases p; simp add: responses_ended_def cong: option.case_cong open_item.case_cong)+

lemma write_frames_linked:
  "responses_linked p (snd (responses_encode_event st e)) c = responses_linked p (snd (responses_event_frames st e)) c"
  "responses_ended p (snd (responses_encode_event st e)) = responses_ended p (snd (responses_event_frames st e))"
  by (simp_all add: responses_encode_event_def write_frames_def split_beta Let_def)

lemma ended_plain: "shape_step p e = Some q \<Longrightarrow> responses_ended p st \<Longrightarrow> plain e = []"
  by (auto simp: responses_ended_def elim!: shape_step.elims)

lemma responses_reader_step:
  assumes s: "shape_step p e = Some q" and l: "responses_reader_linked p st r"
  shows "\<exists>r'. responses_read r (fst (responses_encode_event st e)) = Some (plain e, r') \<and>
    responses_reader_linked q (snd (responses_encode_event st e)) r'"
proof -
  obtain c d ends where r: "r = (c, d, ends)" by (cases r)
  then have cl: "responses_linked p st c" and known: "known_stop (stop_of d)"
    using l by (auto simp: responses_reader_linked_def)
  obtain c' where c': "responses_client_run c (fst (responses_event_frames st e)) = Some c'"
    "responses_linked q (snd (responses_event_frames st e)) c'"
    using responses_step_linked [OF s cl] by blast
  show ?thesis
  proof (cases "responses_ended p st")
    case True
    with c' r l known responses_ended_silent [OF s True] ended_plain [OF s True] show ?thesis
      by (simp add: responses_read_def responses_reader_linked_def write_frames_sel write_frames_linked)
  next
    case False
    obtain es d' where "responses_decode_frames d (fst (responses_event_frames st e)) = (es, d')"
      "concat (map plain es) = plain e" "known_stop (stop_of d')"
      "filter is_end es = (if responses_ended q (snd (responses_event_frames st e)) then [Done (stop_of d)] else [])"
      using responses_step_decoded [OF s cl False known] by blast
    with c' r l known False show ?thesis
      by (auto simp: responses_read_def responses_reader_linked_def write_frames_sel write_frames_linked)
  qed
qed

interpretation responses_stream: encoder_simulation responses_encode_event responses_read plain responses_reader_linked
proof
  fix p e q st r
  assume "shape_step p e = Some q" "responses_reader_linked p st r"
  then show "\<exists>r'. responses_read r (fst (responses_encode_event st e)) = Some (plain e, r') \<and>
      responses_reader_linked q (snd (responses_encode_event st e)) r'"
    by (rule responses_reader_step)
qed (auto simp: responses_read_def responses_client_run_append responses_decode_frames_append split_beta Let_def
    split: option.split)

section \<open>Sequence numbers\<close>

definition sequence_of :: "responses_frame list \<Rightarrow> json option list" where
  "sequence_of fs = map (\<lambda>f. jget_obj (snd f) ''sequence_number'') fs"

lemma sequence_number_frames:
  "sequence_of (number_frames n fs) = map (\<lambda>i. Some (jnat i)) [n..<n + length fs] \<and> length (number_frames n fs) = length fs"
  by (induction n fs rule: number_frames.induct) (auto simp: sequence_of_def upt_conv_Cons simp del: upt_Suc)

lemma sequence_write:
  "write_frames (fs, st) = (gs, st') \<Longrightarrow> sequence_of gs = map (\<lambda>i. Some (jnat i)) [rs_seq st..<rs_seq st'] \<and>
     rs_seq st' = rs_seq st + length gs"
  using sequence_number_frames [of "rs_seq st" fs] by (auto simp: write_frames_def)

lemma event_frames_seq: "rs_seq (snd (responses_event_frames st e)) = rs_seq st"
  by (cases e) (auto simp: ensure_message_def ensure_reasoning_def responses_close_open_def split_beta Let_def
      split: option.split open_item.split)

lemma sequence_event:
  "sequence_of (fst (responses_encode_event st e)) =
     map (\<lambda>i. Some (jnat i)) [rs_seq st..<rs_seq (snd (responses_encode_event st e))] \<and>
   rs_seq st \<le> rs_seq (snd (responses_encode_event st e))"
  using sequence_write [of "fst (responses_event_frames st e)" "snd (responses_event_frames st e)"] event_frames_seq [of st e]
  by (auto simp: responses_encode_event_def prod_eq_iff)

lemma sequence_events:
  "sequence_of (fst (responses_encode_events st evs)) =
     map (\<lambda>i. Some (jnat i)) [rs_seq st..<rs_seq (snd (responses_encode_events st evs))] \<and>
   rs_seq st \<le> rs_seq (snd (responses_encode_events st evs))"
proof (induction evs arbitrary: st)
  case (Cons e evs)
  show ?case
    using sequence_event [of st e] Cons.IH [of "snd (responses_encode_event st e)"]
      upt_add_eq_append [of "rs_seq st" "rs_seq (snd (responses_encode_event st e))"
        "rs_seq (snd (responses_encode_events (snd (responses_encode_event st e)) evs)) - rs_seq (snd (responses_encode_event st e))"]
    by (simp add: responses_encode_events_def split_beta Let_def sequence_of_def)
qed (simp add: responses_encode_events_def sequence_of_def)

section \<open>The whole stream\<close>

definition responses_client_frames :: "string option \<Rightarrow> string option \<Rightarrow> stream_event list \<Rightarrow> responses_frame list" where
  "responses_client_frames key retention evs =
     (let (fs, st) = responses_encode_events (responses_set_prompt_cache key retention responses_emit_new) evs
      in fs @ fst (responses_finish st))"

text \<open>What is owed at the end is at most the final event.\<close>
lemma responses_finish_read:
  assumes "responses_reader_linked Finished st r"
  shows "\<exists>d k. responses_read r (fst (responses_finish st)) = Some ([], RClosed, d, [Done k]) \<and> known_stop k"
proof -
  obtain c d ends where r: "r = (c, d, ends)" by (cases r)
  show ?thesis
  proof (cases "rs_pending_completed st")
    case True
    let ?st = "st\<lparr>rs_pending_completed := False\<rparr>"
    have "responses_client_step (RReady (rs_next_index st)) (completed_frame ?st) = Some RClosed"
      using assms True r by (intro completed_closes) (simp add: responses_reader_linked_def)
    moreover obtain us where "responses_decode_value d (JObj (snd (completed_frame ?st))) = (us @ [Done (stop_of d)], None)"
      "concat (map plain us) = []" "filter is_end us = []"
      using decode_completed by blast
    moreover have "fst (responses_finish st) = number_frames (rs_seq st) [completed_frame ?st]"
      using True by (simp add: responses_finish_def write_frames_def Let_def)
    ultimately show ?thesis
      using assms True r
      by (simp add: responses_read_def responses_reader_linked_def responses_ended_def del: number_frames.simps)
  next
    case False
    then have "fst (responses_finish st) = []" by (simp add: responses_finish_def)
    with assms False r show ?thesis
      by (auto simp: responses_read_def responses_reader_linked_def responses_ended_def)
  qed
qed

lemma sequence_finish:
  "sequence_of (fst (responses_finish st)) =
     map (\<lambda>i. Some (jnat i)) [rs_seq st..<rs_seq st + length (fst (responses_finish st))]"
  using sequence_number_frames [of "rs_seq st" "[completed_frame (st\<lparr>rs_pending_completed := False\<rparr>)]"]
  by (simp add: responses_finish_def write_frames_def Let_def sequence_of_def)

lemma responses_frames_sequence:
  "sequence_of (responses_client_frames key retention evs) =
     map (\<lambda>i. Some (jnat i)) [0..<length (responses_client_frames key retention evs)]"
proof -
  define st where "st = responses_set_prompt_cache key retention responses_emit_new"
  let ?e = "responses_encode_events st evs"
  have z: "rs_seq st = 0" by (simp add: st_def responses_set_prompt_cache_def responses_emit_new_def)
  have s: "sequence_of (fst ?e) = map (\<lambda>i. Some (jnat i)) [0..<rs_seq (snd ?e)]"
    using sequence_events [of st evs] z by simp
  from arg_cong [OF s, of length] have n: "length (fst ?e) = rs_seq (snd ?e)" by (simp add: sequence_of_def)
  have "responses_client_frames key retention evs = fst ?e @ fst (responses_finish (snd ?e))"
    by (simp add: responses_client_frames_def st_def split_beta Let_def)
  moreover have "sequence_of (fst ?e @ fst (responses_finish (snd ?e))) =
      map (\<lambda>i. Some (jnat i)) ([0..<rs_seq (snd ?e)] @ [rs_seq (snd ?e)..<rs_seq (snd ?e) + length (fst (responses_finish (snd ?e)))])"
    using s sequence_finish [of "snd ?e"] by (simp add: sequence_of_def)
  moreover have "[0..<rs_seq (snd ?e)] @ [rs_seq (snd ?e)..<rs_seq (snd ?e) + length (fst (responses_finish (snd ?e)))] =
      [0..<rs_seq (snd ?e) + length (fst (responses_finish (snd ?e)))]"
    using upt_add_eq_append [of 0 "rs_seq (snd ?e)"] by simp
  ultimately show ?thesis using n by simp
qed

text \<open>C26: The stream written for a client of the Responses dialect follows the life cycle strict clients
  require: the response is created before anything else, items open and close one at a time with
  consecutive indices, each closing event repeats exactly the text the deltas gave, the final event
  comes exactly once and last, whether or not usage was reported, and lists every item; frames are
  numbered consecutively from zero. Reading the stream back gives text, thinking and tool calls
  unchanged and in order. The reason the turn ended is not carried: the client reads a normal end or
  a tool call, even where the upstream stopped at the token limit.\<close>
theorem responses_stream_lifecycle:
  assumes "shape_run Fresh evs = Some Finished"
    and "\<forall>f \<in> set (responses_client_frames key retention evs). text_ok jc (JObj (snd f))"
  shows "responses_client_run RWaiting (responses_client_frames key retention evs) = Some RClosed \<and>
    sequence_of (responses_client_frames key retention evs) =
      map (\<lambda>i. Some (jnat i)) [0..<length (responses_client_frames key retention evs)] \<and>
    (\<exists>es d. decode_all (responses_decode_sse jc) None
        (concat (map (responses_frame_lines jc) (responses_client_frames key retention evs))) = (es, d) \<and>
      concat (map plain es) = concat (map plain evs) \<and>
      (filter is_end es = [Done EndTurn] \<or> filter is_end es = [Done StopToolUse]))"
proof -
  define st where "st = responses_set_prompt_cache key retention responses_emit_new"
  let ?e = "responses_encode_events st evs"
  let ?F = "responses_client_frames key retention evs"
  have F: "?F = fst ?e @ fst (responses_finish (snd ?e))"
    by (simp add: responses_client_frames_def st_def split_beta Let_def)
  have "responses_reader_linked Fresh st (RWaiting, None, [])"
    by (simp add: responses_reader_linked_def st_def responses_set_prompt_cache_def responses_emit_new_def
        responses_ended_def known_stop_none)
  from responses_stream.run [OF assms(1) this] obtain r where
    "responses_read (RWaiting, None, []) (fst ?e) = Some (concat (map plain evs), r)"
    "responses_reader_linked Finished (snd ?e) r"
    by (auto simp: responses_encode_events_def)
  moreover from responses_finish_read [OF this(2)] obtain d k where
    "responses_read r (fst (responses_finish (snd ?e))) = Some ([], RClosed, d, [Done k])" "known_stop k" by blast
  ultimately have "responses_read (RWaiting, None, []) ?F = Some (concat (map plain evs), RClosed, d, [Done k])"
    unfolding F responses_stream.consume_append by simp
  then have "responses_client_run RWaiting ?F = Some RClosed"
    "concat (map plain (fst (responses_decode_frames None ?F))) = concat (map plain evs)"
    "filter is_end (fst (responses_decode_frames None ?F)) = [Done k]"
    by (auto simp: responses_read_def split_beta Let_def split: option.splits)
  with \<open>known_stop k\<close> responses_frames_sequence show ?thesis
    unfolding responses_decode_lines [OF assms(2)] known_stop_def
    by (intro conjI exI [of _ "fst (responses_decode_frames None ?F)"] exI [of _ "snd (responses_decode_frames None ?F)"]) auto
qed

theorem responses_stream_lifecycle_witness:
  "\<exists>jc es d. responses_client_run RWaiting (responses_client_frames None None (butlast sample_events @ [Done MaxTokens])) = Some RClosed \<and>
     decode_all (responses_decode_sse jc) None
       (concat (map (responses_frame_lines jc) (responses_client_frames None None (butlast sample_events @ [Done MaxTokens])))) = (es, d) \<and>
     (filter is_end es = [Done EndTurn] \<or> filter is_end es = [Done StopToolUse])"
proof -
  define evs where "evs = butlast sample_events @ [Done MaxTokens]"
  define jc where "jc = sample_codec (map (\<lambda>f. JObj (snd f)) (responses_client_frames None None evs))"
  have "\<forall>f \<in> set (responses_client_frames None None evs). text_ok jc (JObj (snd f))"
    unfolding jc_def by (intro ballI text_ok_sample) simp
  moreover have "shape_run Fresh evs = Some Finished" by (simp add: evs_def sample_events_def)
  ultimately show ?thesis
    using responses_stream_lifecycle [of evs None None jc] unfolding evs_def by blast
qed

end
