(* ===== verification/Gemini_Wire.thy ===== *)
theory Gemini_Wire
  imports Wire_Text
begin

text \<open>
  The Gemini \<open>generateContent\<close> dialect (\<open>crates/yb-wire/src/gemini.rs\<close>): requests, responses, the
  decoder of an upstream stream, and the encoder of a client's, which holds a tool call back until
  its arguments are complete because the dialect has no partial calls.

  The sum of the token counts wraps at 32 bits as it does in a release build.
\<close>

section \<open>Parts\<close>

text \<open>The value under the first of two spellings of a key.\<close>
definition get_either :: "json \<Rightarrow> string \<Rightarrow> string \<Rightarrow> json option" where
  "get_either v k1 k2 = (case jget v k1 of Some x \<Rightarrow> Some x | None \<Rightarrow> jget v k2)"

definition gemini_parse_part :: "json_codec \<Rightarrow> json \<Rightarrow> content_block option" where
  "gemini_parse_part jc p =
     (case opt_str p ''text'' of
        Some t \<Rightarrow> Some (Text t)
      | None \<Rightarrow>
     (case get_either p ''inline_data'' ''inlineData'' of
        Some inline \<Rightarrow>
          Some (Image (case opt_str inline ''mime_type'' of Some mt \<Rightarrow> Some mt | None \<Rightarrow> opt_str inline ''mimeType'')
                  (opt_str inline ''data'') None)
      | None \<Rightarrow>
     (case get_either p ''functionCall'' ''function_call'' of
        Some fc \<Rightarrow>
          (let name = unwrap_or_default (opt_str fc ''name'')
           in Some (ToolUse name name (get_or (JObj []) fc ''args'')))
      | None \<Rightarrow>
     (case get_either p ''functionResponse'' ''function_response'' of
        Some fr \<Rightarrow>
          (let name = unwrap_or_default (opt_str fr ''name'');
               text = (case jget fr ''response'' of
                         Some (JStr s) \<Rightarrow> s | Some other \<Rightarrow> to_string jc other | None \<Rightarrow> [])
           in Some (ToolResult name [Text text] False))
      | None \<Rightarrow> None))))"

definition gemini_parse_parts :: "json_codec \<Rightarrow> json option \<Rightarrow> content_block list" where
  "gemini_parse_parts jc v =
     (case Option.bind v as_array of None \<Rightarrow> [] | Some parts \<Rightarrow> List.map_filter (gemini_parse_part jc) parts)"

definition response_object :: "json_codec \<Rightarrow> content_block list \<Rightarrow> json" where
  "response_object jc cs =
     (let text = join_text cs in
      case from_str jc text of
        Some (JObj m) \<Rightarrow> JObj m
      | _ \<Rightarrow> JObj [(''result'', JStr text)])"

fun gemini_emit_part :: "json_codec \<Rightarrow> content_block \<Rightarrow> json option" where
  "gemini_emit_part jc (Native f raw) = None"
| "gemini_emit_part jc (Text t) = Some (JObj [(''text'', JStr t)])"
| "gemini_emit_part jc (CachedText t _) = Some (JObj [(''text'', JStr t)])"
| "gemini_emit_part jc (Image media_type data url) =
     (case data of
        Some d \<Rightarrow> Some (JObj [(''inline_data'', JObj
           [(''mime_type'', JStr (case media_type of None \<Rightarrow> ''image/png'' | Some mt \<Rightarrow> mt)), (''data'', JStr d)])])
      | None \<Rightarrow> map_option (\<lambda>u. JObj [(''fileData'', JObj [(''fileUri'', JStr u)])]) url)"
| "gemini_emit_part jc (ToolUse tid name input) =
     Some (JObj [(''functionCall'', JObj [(''name'', JStr name), (''args'', input)])])"
| "gemini_emit_part jc (ToolResult tid cs e) =
     Some (JObj [(''functionResponse'', JObj [(''name'', JStr tid), (''response'', response_object jc cs)])])"
| "gemini_emit_part jc (Thinking t s) = None"

definition gemini_parse_tool_choice :: "json \<Rightarrow> tool_choice" where
  "gemini_parse_tool_choice cfg =
     (let mode = map_option to_ascii_uppercase (opt_str cfg ''mode'') in
      if mode = Some ''NONE'' then ChoiceNone
      else if mode = Some ''ANY'' then
        (case str_vec (jget cfg ''allowedFunctionNames'') of [n] \<Rightarrow> ChoiceTool n | _ \<Rightarrow> ChoiceRequired)
      else ChoiceAuto)"

definition gemini_emit_tool_choice :: "tool_choice \<Rightarrow> json" where
  "gemini_emit_tool_choice tc =
     JObj [(''functionCallingConfig'',
       case tc of
         ChoiceAuto \<Rightarrow> JObj [(''mode'', JStr ''AUTO'')]
       | ChoiceNone \<Rightarrow> JObj [(''mode'', JStr ''NONE'')]
       | ChoiceRequired \<Rightarrow> JObj [(''mode'', JStr ''ANY'')]
       | ChoiceTool n \<Rightarrow> JObj [(''mode'', JStr ''ANY''), (''allowedFunctionNames'', JArr [JStr n])])]"

definition gemini_finish_to_stop :: "string option \<Rightarrow> bool \<Rightarrow> stop_reason" where
  "gemini_finish_to_stop s has_tool =
     (case s of
        Some r \<Rightarrow>
          (if r = ''STOP'' then (if has_tool then StopToolUse else EndTurn)
           else if r = ''MAX_TOKENS'' then MaxTokens
           else StopOther (to_ascii_lowercase r))
      | None \<Rightarrow> if has_tool then StopToolUse else EndTurn)"

fun stop_to_gemini_finish :: "stop_reason \<Rightarrow> string" where
  "stop_to_gemini_finish MaxTokens = ''MAX_TOKENS''"
| "stop_to_gemini_finish _ = ''STOP''"

section \<open>Requests\<close>

fun is_tool_result :: "content_block \<Rightarrow> bool" where
  "is_tool_result (ToolResult _ _ _) = True"
| "is_tool_result _ = False"

definition gemini_parse_content :: "json_codec \<Rightarrow> json \<Rightarrow> message" where
  "gemini_parse_content jc c =
     (let blocks = gemini_parse_parts jc (jget c ''parts'');
          is_tool = list_all is_tool_result blocks \<and> blocks \<noteq> []
      in \<lparr>msg_role = (if opt_str c ''role'' = Some ''model'' then AssistantRole
                      else if is_tool then ToolRole else UserRole),
          content = blocks\<rparr>)"

definition gemini_parse_tool :: "json \<Rightarrow> tool wire_result" where
  "gemini_parse_tool d =
     (case req_str d ''name'' of
        Inl e \<Rightarrow> Inl e
      | Inr n \<Rightarrow> Inr \<lparr>tool_name = n, description = opt_str d ''description'',
                   input_schema = get_or (JObj []) d ''parameters'', strict = None,
                   anthropic_cache_control = None\<rparr>)"

definition gemini_parse_value :: "json_codec \<Rightarrow> json \<Rightarrow> chat_request wire_result" where
  "gemini_parse_value jc v =
     (case as_object v of None \<Rightarrow> Inl (InvalidRequest ''body is not a JSON object'') | Some _ \<Rightarrow>
      (let sys = (case get_either v ''systemInstruction'' ''system_instruction'' of
                    None \<Rightarrow> []
                  | Some s \<Rightarrow> gemini_parse_parts jc (jget s ''parts''));
           msgs = (case opt_arr v ''contents'' of None \<Rightarrow> [] | Some cs \<Rightarrow> map (gemini_parse_content jc) cs);
           decls = (case opt_arr v ''tools'' of
                      None \<Rightarrow> []
                    | Some ts \<Rightarrow> concat (map (\<lambda>t. case opt_arr t ''functionDeclarations'' of None \<Rightarrow> [] | Some ds \<Rightarrow> ds) ts))
       in case collect_results (map gemini_parse_tool decls) of
            Inl e \<Rightarrow> Inl e
          | Inr ts \<Rightarrow>
              (let req = chat_request_default
                     \<lparr>model := unwrap_or_default (opt_str v ''model''), stream := opt_bool v ''stream'',
                      system := (if sys = [] then None else Some sys), messages := msgs, tools := ts,
                      tool_choice := map_option gemini_parse_tool_choice
                        (Option.bind (jget v ''toolConfig'') (\<lambda>t. jget t ''functionCallingConfig''))\<rparr>
               in Inr (case jget v ''generationConfig'' of
                    None \<Rightarrow> req
                  | Some g \<Rightarrow> req
                      \<lparr>max_tokens := opt_u32 g ''maxOutputTokens'', temperature := opt_f32 g ''temperature'',
                       top_p := opt_f32 g ''topP'', stop := str_vec (jget g ''stopSequences''),
                       reasoning := map_option (\<lambda>tc. \<lparr>effort = None, budget_tokens = opt_u32 tc ''thinkingBudget''\<rparr>)
                         (jget g ''thinkingConfig'')\<rparr>))))"

definition gemini_parse_request :: "json_codec \<Rightarrow> bytes \<Rightarrow> chat_request wire_result" where
  "gemini_parse_request jc body =
     (case from_slice jc body of Inl e \<Rightarrow> Inl e | Inr v \<Rightarrow> gemini_parse_value jc v)"

definition gemini_emit_content :: "json_codec \<Rightarrow> message \<Rightarrow> json option" where
  "gemini_emit_content jc m =
     (let emit = (\<lambda>role. Some (JObj [(''role'', JStr role),
                    (''parts'', JArr (List.map_filter (gemini_emit_part jc) (content m)))]))
      in case msg_role m of
           AssistantRole \<Rightarrow> emit ''model''
         | UserRole \<Rightarrow> emit ''user''
         | ToolRole \<Rightarrow> emit ''user''
         | SystemRole \<Rightarrow> None
         | DeveloperRole \<Rightarrow> None)"

definition gemini_emit_tool :: "tool \<Rightarrow> json" where
  "gemini_emit_tool t =
     (let m = insert_opt ''description'' (map_option JStr (description t)) [(''name'', JStr (tool_name t))]
      in JObj (jinsert ''parameters'' (input_schema t) m))"

definition gemini_generation_config :: "chat_request \<Rightarrow> json_object" where
  "gemini_generation_config req =
     (let g = insert_opt ''maxOutputTokens'' (map_option ju32 (max_tokens req)) [];
          g = insert_opt ''temperature'' (map_option jf32 (temperature req)) g;
          g = insert_opt ''topP'' (map_option jf32 (top_p req)) g;
          g = insert_opt ''stopSequences'' (if stop req = [] then None else Some (JArr (map JStr (stop req)))) g
      in insert_opt ''thinkingConfig'' (map_option (\<lambda>b. JObj [(''thinkingBudget'', ju32 b)])
           (Option.bind (reasoning req) budget_tokens)) g)"

definition gemini_emit_value :: "json_codec \<Rightarrow> chat_request \<Rightarrow> emit_options \<Rightarrow> json" where
  "gemini_emit_value jc req opts =
     (let sys = effective_system req;
          m = (if target_model opts = [] then [] else [(''model'', JStr (target_model opts))]);
          m = insert_opt ''systemInstruction'' (if sys = [] then None
                else Some (JObj [(''parts'', JArr [JObj [(''text'', JStr (join_text sys))]])])) m;
          m = jinsert ''contents'' (JArr (List.map_filter (gemini_emit_content jc) (messages req))) m;
          m = insert_opt ''tools'' (if tools req = [] then None
                else Some (JArr [JObj [(''functionDeclarations'', JArr (map gemini_emit_tool (tools req)))]])) m;
          m = insert_opt ''toolConfig'' (map_option gemini_emit_tool_choice (tool_choice req)) m;
          g = gemini_generation_config req
      in JObj (insert_opt ''generationConfig'' (if g = [] then None else Some (JObj g)) m))"

definition gemini_emit_request :: "json_codec \<Rightarrow> chat_request \<Rightarrow> emit_options \<Rightarrow> emitted_request wire_result" where
  "gemini_emit_request jc req opts =
     Inr (to_string jc (gemini_emit_value jc req opts), [(''content-type'', ''application/json'')])"

section \<open>Responses\<close>

definition gemini_parse_usage :: "json option \<Rightarrow> usage" where
  "gemini_parse_usage v =
     (case v of
        None \<Rightarrow> usage_default
      | Some v \<Rightarrow>
          (let count = (\<lambda>k. case opt_u32 v k of None \<Rightarrow> 0 | Some n \<Rightarrow> n)
           in usage_default
                \<lparr>input_tokens := count ''promptTokenCount'', output_tokens := count ''candidatesTokenCount'',
                 cache_read_tokens := count ''cachedContentTokenCount''\<rparr>))"

definition first_candidate :: "json \<Rightarrow> json option" where
  "first_candidate v =
     (case Option.bind (jget v ''candidates'') as_array of Some (c # _) \<Rightarrow> Some c | _ \<Rightarrow> None)"

fun is_tool_use :: "content_block \<Rightarrow> bool" where
  "is_tool_use (ToolUse _ _ _) = True"
| "is_tool_use _ = False"

definition gemini_parse_response :: "json_codec \<Rightarrow> bytes \<Rightarrow> chat_response wire_result" where
  "gemini_parse_response jc body =
     (case from_slice jc body of Inl e \<Rightarrow> Inl e | Inr v \<Rightarrow>
      (let candidate = first_candidate v;
           cs = (case Option.bind candidate (\<lambda>c. jget c ''content'') of
                   None \<Rightarrow> [] | Some c \<Rightarrow> gemini_parse_parts jc (jget c ''parts''))
       in Inr \<lparr>response_id = unwrap_or_default (opt_str v ''responseId''),
               response_model = unwrap_or_default (opt_str v ''modelVersion''),
               response_content = cs,
               response_stop = gemini_finish_to_stop (Option.bind candidate (\<lambda>c. opt_str c ''finishReason''))
                 (list_ex is_tool_use cs),
               response_usage = gemini_parse_usage (jget v ''usageMetadata''),
               response_cache_key = None, response_cache_retention = None\<rparr>))"

definition gemini_response_value :: "json_codec \<Rightarrow> chat_response \<Rightarrow> json" where
  "gemini_response_value jc resp =
     (let u = response_usage resp in
      JObj [(''candidates'', JArr [JObj
              [(''content'', JObj [(''role'', JStr ''model''),
                  (''parts'', JArr (List.map_filter (gemini_emit_part jc) (response_content resp)))]),
               (''finishReason'', JStr (stop_to_gemini_finish (response_stop resp))), (''index'', jnat 0)]]),
            (''usageMetadata'', JObj
              [(''promptTokenCount'', ju32 (input_tokens u)), (''candidatesTokenCount'', ju32 (output_tokens u)),
               (''totalTokenCount'', ju32 (input_tokens u + output_tokens u)),
               (''cachedContentTokenCount'', ju32 (cache_read_tokens u))]),
            (''modelVersion'', JStr (response_model resp))])"

definition gemini_emit_response :: "json_codec \<Rightarrow> chat_response \<Rightarrow> bytes wire_result" where
  "gemini_emit_response jc resp = Inr (to_string jc (gemini_response_value jc resp))"

section \<open>Streaming\<close>

record gemini_sse =
  gm_started :: bool
  gm_tool_open :: bool

definition gemini_sse_new :: gemini_sse where
  "gemini_sse_new = \<lparr>gm_started = False, gm_tool_open = False\<rparr>"

fun gemini_part_events :: "json_codec \<Rightarrow> json list \<Rightarrow> bool \<Rightarrow> stream_event list \<times> bool" where
  "gemini_part_events jc [] tool_open = ([], tool_open)"
| "gemini_part_events jc (p # ps) tool_open =
     (let (es, tool_open) =
        (case opt_str p ''text'' of
           Some t \<Rightarrow> ([TextDelta t], tool_open)
         | None \<Rightarrow>
             (case get_either p ''functionCall'' ''function_call'' of
                Some fc \<Rightarrow>
                  (let name = unwrap_or_default (opt_str fc ''name'')
                   in ([ToolUseStart name name, ToolUseDelta (to_string jc (get_or (JObj []) fc ''args''))], True))
              | None \<Rightarrow> ([], tool_open)));
          (es', tool_open) = gemini_part_events jc ps tool_open
      in (es @ es', tool_open))"

definition gemini_decode_value :: "json_codec \<Rightarrow> gemini_sse \<Rightarrow> json \<Rightarrow> stream_event list \<times> gemini_sse" where
  "gemini_decode_value jc st v =
     (let start = (if gm_started st then [] else [MessageStart (unwrap_or_default (opt_str v ''modelVersion''))]);
          st = st\<lparr>gm_started := True\<rparr> in
      case first_candidate v of
        None \<Rightarrow> (start, st)
      | Some candidate \<Rightarrow>
          (let (es, tool_open) =
             (case Option.bind (Option.bind (jget candidate ''content'') (\<lambda>c. jget c ''parts'')) as_array of
                None \<Rightarrow> ([], gm_tool_open st)
              | Some parts \<Rightarrow> gemini_part_events jc parts (gm_tool_open st));
               fin = (case opt_str candidate ''finishReason'' of
                        None \<Rightarrow> []
                      | Some reason \<Rightarrow>
                          (case jget v ''usageMetadata'' of
                             None \<Rightarrow> []
                           | Some u \<Rightarrow> if u = JNull then [] else [UsageDelta (gemini_parse_usage (Some u))]) @
                          [Done (gemini_finish_to_stop (Some reason) tool_open)])
           in (start @ es @ fin, st\<lparr>gm_tool_open := tool_open\<rparr>)))"

definition gemini_decode_sse :: "json_codec \<Rightarrow> gemini_sse \<Rightarrow> string \<Rightarrow> stream_event list \<times> gemini_sse" where
  "gemini_decode_sse jc st line =
     (case sse_value jc line of None \<Rightarrow> ([], st) | Some v \<Rightarrow> gemini_decode_value jc st v)"

record gemini_emit =
  gm_model :: string
  gm_usage :: "usage option"
  gm_pending_tool :: "(string \<times> string) option"

definition gemini_emit_new :: gemini_emit where
  "gemini_emit_new = \<lparr>gm_model = [], gm_usage = None, gm_pending_tool = None\<rparr>"

definition gemini_chunk :: "json list \<Rightarrow> string \<Rightarrow> json" where
  "gemini_chunk parts mdl =
     JObj [(''candidates'', JArr [JObj [(''content'', JObj [(''role'', JStr ''model''), (''parts'', JArr parts)]),
              (''index'', jnat 0)]]),
           (''modelVersion'', JStr mdl)]"

text \<open>The arguments of a call, complete by now; an object where they are not JSON.\<close>
definition call_args :: "json_codec \<Rightarrow> string \<Rightarrow> json" where
  "call_args jc args = (case from_str jc args of None \<Rightarrow> JObj [] | Some v \<Rightarrow> v)"

definition flush_tool :: "json_codec \<Rightarrow> gemini_emit \<Rightarrow> json list \<times> gemini_emit" where
  "flush_tool jc st =
     (case gm_pending_tool st of
        None \<Rightarrow> ([], st)
      | Some (name, args) \<Rightarrow>
          ([gemini_chunk [JObj [(''functionCall'', JObj [(''name'', JStr name), (''args'', call_args jc args)])]]
              (gm_model st)],
           st\<lparr>gm_pending_tool := None\<rparr>))"

fun gemini_encode_event :: "json_codec \<Rightarrow> gemini_emit \<Rightarrow> stream_event \<Rightarrow> json list \<times> gemini_emit" where
  "gemini_encode_event jc st (MessageStart m) = ([], st\<lparr>gm_model := m\<rparr>)"
| "gemini_encode_event jc st (TextDelta t) = ([gemini_chunk [JObj [(''text'', JStr t)]] (gm_model st)], st)"
| "gemini_encode_event jc st (ThinkingDelta t) = ([], st)"
| "gemini_encode_event jc st (ToolUseStart tid name) =
     (let (f, st) = flush_tool jc st in (f, st\<lparr>gm_pending_tool := Some (name, [])\<rparr>))"
| "gemini_encode_event jc st (ToolUseDelta j) =
     ([], st\<lparr>gm_pending_tool := map_option (\<lambda>(n, args). (n, args @ j)) (gm_pending_tool st)\<rparr>)"
| "gemini_encode_event jc st (UsageDelta u) =
     ([], st\<lparr>gm_usage := Some (usage_merge (case gm_usage st of None \<Rightarrow> usage_default | Some v \<Rightarrow> v) u)\<rparr>)"
| "gemini_encode_event jc st (Done s) =
     (let (f, st) = flush_tool jc st;
          u = (case gm_usage st of None \<Rightarrow> usage_default | Some u \<Rightarrow> u)
      in (f @ [JObj
           [(''candidates'', JArr [JObj [(''content'', JObj [(''role'', JStr ''model''), (''parts'', JArr [])]),
               (''finishReason'', JStr (stop_to_gemini_finish s)), (''index'', jnat 0)]]),
            (''usageMetadata'', JObj
               [(''promptTokenCount'', ju32 (input_tokens u)), (''candidatesTokenCount'', ju32 (output_tokens u)),
                (''totalTokenCount'', ju32 (input_tokens u + output_tokens u))]),
            (''modelVersion'', JStr (gm_model st))]], st))"

definition gemini_encode_events :: "json_codec \<Rightarrow> gemini_emit \<Rightarrow> stream_event list \<Rightarrow> json list \<times> gemini_emit" where
  "gemini_encode_events jc = encode_all (gemini_encode_event jc)"

definition gemini_write_chunk :: "json_codec \<Rightarrow> json \<Rightarrow> string" where
  "gemini_write_chunk jc v = ''data: '' @ to_string jc v @ [CHR 0x0A, CHR 0x0A]"

definition gemini_encode_sse :: "json_codec \<Rightarrow> gemini_emit \<Rightarrow> stream_event list \<Rightarrow> bytes \<times> gemini_emit" where
  "gemini_encode_sse jc st evs =
     (let (fs, st) = gemini_encode_events jc st evs in (concat (map (gemini_write_chunk jc) fs), st))"

section \<open>The client's stream\<close>

definition gemini_frame_lines :: "json_codec \<Rightarrow> json \<Rightarrow> string list" where
  "gemini_frame_lines jc v = [''data: '' @ to_string jc v, []]"

fun gemini_decode_values :: "json_codec \<Rightarrow> gemini_sse \<Rightarrow> json list \<Rightarrow> stream_event list \<times> gemini_sse" where
  "gemini_decode_values jc st [] = ([], st)"
| "gemini_decode_values jc st (v # vs) =
     (let (es, st) = gemini_decode_value jc st v; (es', st) = gemini_decode_values jc st vs in (es @ es', st))"

lemma gemini_decode_values_append:
  "gemini_decode_values jc st (fs @ gs) =
     (let (a, st) = gemini_decode_values jc st fs; (b, st) = gemini_decode_values jc st gs in (a @ b, st))"
  by (induction fs arbitrary: st) (auto simp: Let_def split: prod.split)

lemma gemini_decode_lines:
  "\<forall>v \<in> set fs. text_ok jc v \<Longrightarrow>
     decode_all (gemini_decode_sse jc) st (concat (map (gemini_frame_lines jc) fs)) = gemini_decode_values jc st fs"
proof (induction fs arbitrary: st)
  case (Cons v fs)
  then show ?case
    by (simp add: gemini_frame_lines_def [of jc v] gemini_decode_sse_def [of jc _ "_ # _"]
        gemini_decode_sse_def [of jc _ "[]"] sse_value_Nil sse_value_data [simplified] split_beta Let_def)
qed simp

text \<open>The tool calls of a turn: names and complete arguments.\<close>
definition calls_of :: "json_codec \<Rightarrow> partial_tool list \<Rightarrow> (string \<times> json) list" where
  "calls_of jc ts = map (\<lambda>t. (pt_name t, tool_input (from_str jc) (pt_json t))) ts"

definition pending_call :: "json_codec \<Rightarrow> gemini_emit \<Rightarrow> (string \<times> json) list" where
  "pending_call jc st =
     (case gm_pending_tool st of None \<Rightarrow> [] | Some (n, j) \<Rightarrow> [(n, tool_input (from_str jc) j)])"

text \<open>What the client has read, with the call held back, is what the upstream sent.\<close>
definition gemini_linked :: "json_codec \<Rightarrow> phase \<Rightarrow> gemini_emit \<Rightarrow> aggregator \<Rightarrow> aggregator \<Rightarrow> bool" where
  "gemini_linked jc p st up down \<longleftrightarrow>
     agg_text down = agg_text up \<and>
     calls_of jc (agg_tools down) @ pending_call jc st = calls_of jc (agg_tools up) \<and>
     (\<forall>n j. gm_pending_tool st = Some (n, j) \<longrightarrow>
        agg_tools up \<noteq> [] \<and> pt_name (last (agg_tools up)) = n \<and> pt_json (last (agg_tools up)) = j) \<and>
     (p = Running (Some ToolBlock) \<longrightarrow> gm_pending_tool st \<noteq> None)"

lemma call_args_tool_input:
  assumes "reread_ok jc"
  shows "call_args jc j = tool_input (from_str jc) j"
    and "tool_input (from_str jc) (to_string jc (call_args jc j)) = call_args jc j"
proof -
  show "call_args jc j = tool_input (from_str jc) j"
    using assms by (auto simp: call_args_def tool_input_def reread_ok_def)
  have "call_args jc j = JObj [] \<or> (\<exists>s. from_str jc s = Some (call_args jc j))"
    by (auto simp: call_args_def split: option.split)
  with assms have "from_str jc (to_string jc (call_args jc j)) = Some (call_args jc j)"
    "trim (to_string jc (call_args jc j)) \<noteq> []"
    unfolding reread_ok_def by blast+
  then show "tool_input (from_str jc) (to_string jc (call_args jc j)) = call_args jc j"
    by (simp add: tool_input_def)
qed

lemma gemini_decode_text:
  "gemini_decode_value jc st (gemini_chunk [JObj [(''text'', JStr t)]] mdl) =
     ((if gm_started st then [] else [MessageStart mdl]) @ [TextDelta t], st\<lparr>gm_started := True\<rparr>)"
  by (simp add: gemini_decode_value_def gemini_chunk_def first_candidate_def wire_simps)

lemma gemini_decode_call:
  "gemini_decode_value jc st (gemini_chunk [JObj [(''functionCall'', JObj [(''name'', JStr n), (''args'', v)])]] mdl) =
     ((if gm_started st then [] else [MessageStart mdl]) @ [ToolUseStart n n, ToolUseDelta (to_string jc v)],
      st\<lparr>gm_started := True, gm_tool_open := True\<rparr>)"
  by (simp add: gemini_decode_value_def gemini_chunk_def first_candidate_def wire_simps get_either_def)

text \<open>The last chunk adds neither text nor tools.\<close>
lemma gemini_decode_final:
  assumes "v = JObj [(''candidates'', JArr [JObj [(''content'', JObj [(''role'', JStr ''model''), (''parts'', JArr [])]),
      (''finishReason'', JStr r), (''index'', jnat 0)]]), (''usageMetadata'', JObj um), (''modelVersion'', JStr mdl)]"
  shows "agg_text (push_all a (fst (gemini_decode_value jc d v))) = agg_text a"
    "agg_tools (push_all a (fst (gemini_decode_value jc d v))) = agg_tools a"
  by (simp_all add: assms gemini_decode_value_def first_candidate_def wire_simps)

lemma push_start [simp]:
  "agg_text (push a (MessageStart m)) = agg_text a" "agg_tools (push a (MessageStart m)) = agg_tools a"
  by simp_all

lemma flush_tool_linked:
  assumes "reread_ok jc" "gemini_linked jc p st up down"
  shows "agg_text (push_all down (fst (gemini_decode_values jc d (fst (flush_tool jc st))))) = agg_text up"
    "calls_of jc (agg_tools (push_all down (fst (gemini_decode_values jc d (fst (flush_tool jc st)))))) =
       calls_of jc (agg_tools up)"
    "gm_pending_tool (snd (flush_tool jc st)) = None"
  using assms call_args_tool_input [OF assms(1)]
  by (auto simp: flush_tool_def gemini_linked_def pending_call_def gemini_decode_call push_all_append calls_of_def
      push_json_def split: option.split)

lemma gemini_step_linked:
  assumes "shape_step p e = Some q" "reread_ok jc" "gemini_linked jc p st up down"
  shows "gemini_linked jc q (snd (gemini_encode_event jc st e)) (push up e)
    (push_all down (fst (gemini_decode_values jc d (fst (gemini_encode_event jc st e)))))"
proof (cases e)
  case (TextDelta t)
  with assms(1) have "q = Running (Some TextBlock)" by (auto elim!: shape_step.elims)
  with assms TextDelta show ?thesis by (auto simp: gemini_linked_def pending_call_def gemini_decode_text)
next
  case (ToolUseStart i n)
  with assms flush_tool_linked(1,2) [OF assms(2,3), where d = d] flush_tool_linked(3) [OF assms(2,3)] show ?thesis
    by (auto simp: gemini_linked_def pending_call_def split_beta Let_def calls_of_def)
next
  case (ToolUseDelta j)
  with assms(1) have "p = Running (Some ToolBlock)" "q = p" by (auto elim!: shape_step.elims)
  moreover from this assms(3) obtain ts t where "agg_tools up = ts @ [t]"
    by (cases "agg_tools up" rule: rev_cases) (auto simp: gemini_linked_def)
  ultimately show ?thesis
    using assms(3) ToolUseDelta
    by (auto simp: gemini_linked_def pending_call_def calls_of_def push_json_def)
next
  case (Done r)
  with assms(1) have "q = Finished" by (auto elim!: shape_step.elims)
  with Done flush_tool_linked(1,2) [OF assms(2,3), where d = d] flush_tool_linked(3) [OF assms(2,3)] show ?thesis
    by (auto simp: gemini_linked_def pending_call_def split_beta Let_def gemini_decode_values_append push_all_append
        gemini_decode_final)
qed (use assms in \<open>auto simp: gemini_linked_def pending_call_def elim!: shape_step.elims\<close>)

lemma gemini_run_linked:
  assumes "shape_run p evs = Some q" "reread_ok jc" "gemini_linked jc p st up down"
  shows "gemini_linked jc q (snd (gemini_encode_events jc st evs)) (push_all up evs)
    (push_all down (fst (gemini_decode_values jc d (fst (gemini_encode_events jc st evs)))))"
  using assms
proof (induction evs arbitrary: p st up down d)
  case (Cons e evs)
  then obtain p' where p': "shape_step p e = Some p'" "shape_run p' evs = Some q" by (simp split: option.splits)
  let ?f = "fst (gemini_encode_event jc st e)"
  have "gemini_linked jc p' (snd (gemini_encode_event jc st e)) (push up e)
      (push_all down (fst (gemini_decode_values jc d ?f)))"
    by (rule gemini_step_linked [OF p'(1) Cons.prems(2,3)])
  from Cons.IH [OF p'(2) Cons.prems(2) this, of "snd (gemini_decode_values jc d ?f)"] show ?case
    by (simp add: gemini_encode_events_def split_beta Let_def gemini_decode_values_append push_all_append)
qed (simp add: gemini_encode_events_def)

lemma gemini_done_flushed:
  "gm_pending_tool (snd (gemini_encode_event jc st (Done r))) = None"
  by (simp add: flush_tool_def split_beta Let_def split: option.split)

lemma gemini_finished_flushed:
  assumes "shape_run p evs = Some Finished" "p = Finished \<longrightarrow> gm_pending_tool st = None"
  shows "gm_pending_tool (snd (gemini_encode_events jc st evs)) = None"
  using assms
proof (induction evs arbitrary: p st)
  case (Cons e evs)
  then obtain p' where p': "shape_step p e = Some p'" "shape_run p' evs = Some Finished" by (simp split: option.splits)
  have "p' = Finished \<longrightarrow> gm_pending_tool (snd (gemini_encode_event jc st e)) = None"
    using p'(1) Cons.prems(2) gemini_done_flushed [of jc st] by (auto elim!: shape_step.elims)
  from Cons.IH [OF p'(2) this] show ?case
    by (simp add: gemini_encode_events_def split_beta Let_def)
qed (simp add: gemini_encode_events_def)

text \<open>C29: A stream translated for a Gemini client carries the whole turn although the dialect has no partial
  tool calls: the client reassembles exactly the text the upstream sent, and exactly its tool calls, in
  order, each once and with its complete arguments, however the arguments were cut into pieces and
  interleaved with text. No call is left behind when the turn ends.\<close>
theorem gemini_stream_reassembles:
  assumes "shape_run Fresh evs = Some Finished" and "reread_ok jc"
    and "\<forall>v \<in> set (fst (gemini_encode_events jc gemini_emit_new evs)). text_ok jc v"
  shows "let up = push_all aggregator_new evs;
      down = push_all aggregator_new (fst (decode_all (gemini_decode_sse jc) gemini_sse_new
        (concat (map (gemini_frame_lines jc) (fst (gemini_encode_events jc gemini_emit_new evs))))))
    in agg_text down = agg_text up \<and> calls_of jc (agg_tools down) = calls_of jc (agg_tools up)"
proof -
  have "gemini_linked jc Fresh gemini_emit_new aggregator_new aggregator_new"
    by (simp add: gemini_linked_def pending_call_def gemini_emit_new_def)
  from gemini_run_linked [OF assms(1,2) this, of gemini_sse_new]
    gemini_finished_flushed [OF assms(1), of gemini_emit_new jc]
  show ?thesis
    unfolding gemini_decode_lines [OF assms(3)] Let_def
    by (simp add: gemini_linked_def pending_call_def)
qed

theorem gemini_stream_reassembles_witness:
  "\<exists>jc. let up = push_all aggregator_new sample_events;
      down = push_all aggregator_new (fst (decode_all (gemini_decode_sse jc) gemini_sse_new
        (concat (map (gemini_frame_lines jc) (fst (gemini_encode_events jc gemini_emit_new sample_events))))))
    in agg_text down = ''hi!'' \<and> calls_of jc (agg_tools down) = calls_of jc (agg_tools up)"
proof -
  define vs where "vs = JObj [] # fst (gemini_encode_events (sample_codec []) gemini_emit_new sample_events)"
  have frames: "fst (gemini_encode_events (sample_codec ws) gemini_emit_new sample_events) =
      fst (gemini_encode_events (sample_codec []) gemini_emit_new sample_events)" for ws
    by (simp add: gemini_encode_events_def sample_events_def flush_tool_def call_args_def sample_codec_sel gemini_emit_new_def)
  have "\<forall>v \<in> set (fst (gemini_encode_events (sample_codec vs) gemini_emit_new sample_events)). text_ok (sample_codec vs) v"
    unfolding frames [of vs] by (intro ballI text_ok_sample) (simp add: vs_def)
  moreover have "shape_run Fresh sample_events = Some Finished" by (simp add: sample_events_def)
  moreover have "reread_ok (sample_codec vs)" by (rule reread_ok_sample) (simp add: vs_def)
  moreover have "agg_text (push_all aggregator_new sample_events) = ''hi!''"
    by (simp add: sample_events_def aggregator_new_def)
  ultimately show ?thesis using gemini_stream_reassembles [of sample_events "sample_codec vs"] unfolding Let_def by metis
qed

end
