(* ===== verification/Wire_Dispatch.thy ===== *)
theory Wire_Dispatch
  imports Gateway_Turn Anthropic_Wire Openai_Responses_Wire Gemini_Wire
begin

text \<open>
  The dispatch over wire formats of \<open>crates/yb-gateway/src/wire.rs\<close>: the decoder and encoder enums
  and the four parse and emit functions, put together as the \<open>wire_ops\<close> the turns of
  \<open>Gateway_Turn\<close> take as an argument. With it the turns and the dialects are one program, and what is
  stated here needs both: what a whole answer keeps in every dialect, that the network's cutting of
  a body does not matter to an aggregated answer, and that it does matter to the billing of a stream.
\<close>

section \<open>Decoders and encoders\<close>

datatype chat_decoder =
    DecoderAnthropic anthropic_sse
  | DecoderOpenaiChat chat_sse
  | DecoderOpenaiResponses responses_sse
  | DecoderGemini gemini_sse

datatype chat_encoder =
    EncoderAnthropic anthropic_emit
  | EncoderOpenaiChat chat_emit
  | EncoderOpenaiResponses responses_emit
  | EncoderGemini gemini_emit

fun chat_decoder_new :: "wire_format \<Rightarrow> chat_decoder" where
  "chat_decoder_new Anthropic = DecoderAnthropic None"
| "chat_decoder_new OpenaiChat = DecoderOpenaiChat False"
| "chat_decoder_new OpenaiResponses = DecoderOpenaiResponses None"
| "chat_decoder_new Gemini = DecoderGemini gemini_sse_new"

fun chat_decode_line :: "json_codec \<Rightarrow> chat_decoder \<Rightarrow> string \<Rightarrow> stream_event list \<times> chat_decoder" where
  "chat_decode_line jc (DecoderAnthropic s) line = apsnd DecoderAnthropic (anthropic_decode_sse jc s line)"
| "chat_decode_line jc (DecoderOpenaiChat s) line = apsnd DecoderOpenaiChat (chat_decode_sse jc s line)"
| "chat_decode_line jc (DecoderOpenaiResponses s) line =
     apsnd DecoderOpenaiResponses (responses_decode_sse jc s line)"
| "chat_decode_line jc (DecoderGemini s) line = apsnd DecoderGemini (gemini_decode_sse jc s line)"

fun chat_encoder_new :: "wire_format \<Rightarrow> chat_encoder" where
  "chat_encoder_new Anthropic = EncoderAnthropic anthropic_emit_new"
| "chat_encoder_new OpenaiChat = EncoderOpenaiChat chat_emit_new"
| "chat_encoder_new OpenaiResponses = EncoderOpenaiResponses responses_emit_new"
| "chat_encoder_new Gemini = EncoderGemini gemini_emit_new"

fun chat_encode :: "json_codec \<Rightarrow> chat_encoder \<Rightarrow> stream_event list \<Rightarrow> bytes \<times> chat_encoder" where
  "chat_encode jc (EncoderAnthropic s) evs = apsnd EncoderAnthropic (anthropic_encode_sse jc s evs)"
| "chat_encode jc (EncoderOpenaiChat s) evs = apsnd EncoderOpenaiChat (chat_encode_sse jc s evs)"
| "chat_encode jc (EncoderOpenaiResponses s) evs =
     apsnd EncoderOpenaiResponses (responses_encode_sse jc s evs)"
| "chat_encode jc (EncoderGemini s) evs = apsnd EncoderGemini (gemini_encode_sse jc s evs)"

fun encoder_include_usage :: "bool \<Rightarrow> chat_encoder \<Rightarrow> chat_encoder" where
  "encoder_include_usage on (EncoderOpenaiChat s) = EncoderOpenaiChat (chat_set_include_usage on s)"
| "encoder_include_usage on e = e"

fun encoder_prompt_cache :: "string option \<Rightarrow> string option \<Rightarrow> chat_encoder \<Rightarrow> chat_encoder" where
  "encoder_prompt_cache key retention (EncoderOpenaiResponses s) =
     EncoderOpenaiResponses (responses_set_prompt_cache key retention s)"
| "encoder_prompt_cache key retention e = e"

fun chat_encoder_finish :: "json_codec \<Rightarrow> chat_encoder \<Rightarrow> bytes \<times> chat_encoder" where
  "chat_encoder_finish jc (EncoderOpenaiChat s) =
     (let (fs, s) = chat_finish s in (concat (map (chat_frame_text jc) fs), EncoderOpenaiChat s))"
| "chat_encoder_finish jc (EncoderOpenaiResponses s) =
     (let (fs, s) = responses_finish s in (concat (map (responses_frame_text jc) fs), EncoderOpenaiResponses s))"
| "chat_encoder_finish jc e = ([], e)"

section \<open>Requests and answers\<close>

fun wire_parse_request :: "json_codec \<Rightarrow> wire_format \<Rightarrow> bytes \<Rightarrow> chat_request wire_result" where
  "wire_parse_request jc Anthropic body = anthropic_parse_request jc body"
| "wire_parse_request jc OpenaiChat body = chat_parse_request jc body"
| "wire_parse_request jc OpenaiResponses body = responses_parse_request jc body"
| "wire_parse_request jc Gemini body = gemini_parse_request jc body"

fun wire_emit_request ::
  "json_codec \<Rightarrow> wire_format \<Rightarrow> chat_request \<Rightarrow> emit_options \<Rightarrow> emitted_request wire_result" where
  "wire_emit_request jc Anthropic req opts = anthropic_emit_request jc req opts"
| "wire_emit_request jc OpenaiChat req opts = chat_emit_request jc req opts"
| "wire_emit_request jc OpenaiResponses req opts = responses_emit_request jc req opts"
| "wire_emit_request jc Gemini req opts = gemini_emit_request jc req opts"

fun wire_parse_response :: "json_codec \<Rightarrow> wire_format \<Rightarrow> bytes \<Rightarrow> chat_response wire_result" where
  "wire_parse_response jc Anthropic body = anthropic_parse_response jc body"
| "wire_parse_response jc OpenaiChat body = chat_parse_response jc body"
| "wire_parse_response jc OpenaiResponses body = responses_parse_response jc body"
| "wire_parse_response jc Gemini body = gemini_parse_response jc body"

fun wire_emit_response :: "json_codec \<Rightarrow> wire_format \<Rightarrow> chat_response \<Rightarrow> bytes wire_result" where
  "wire_emit_response jc Anthropic resp = anthropic_emit_response jc resp"
| "wire_emit_response jc OpenaiChat resp = chat_emit_response jc resp"
| "wire_emit_response jc OpenaiResponses resp = responses_emit_response jc resp"
| "wire_emit_response jc Gemini resp = gemini_emit_response jc resp"

text \<open>The JSON an answer is written as, before its text.\<close>
fun wire_response_value :: "json_codec \<Rightarrow> wire_format \<Rightarrow> chat_response \<Rightarrow> json" where
  "wire_response_value jc Anthropic resp = anthropic_response_value resp"
| "wire_response_value jc OpenaiChat resp = chat_response_value jc resp"
| "wire_response_value jc OpenaiResponses resp = responses_response_value jc resp"
| "wire_response_value jc Gemini resp = gemini_response_value jc resp"

text \<open>
  The wire layer of the gateway. \<open>ir_vec\<close> is the text of a captured answer, which the log receives
  and nothing else reads.
\<close>
definition gateway_wire ::
  "json_codec \<Rightarrow> (chat_response \<Rightarrow> bytes) \<Rightarrow> (chat_decoder, chat_encoder) wire_ops" where
  "gateway_wire jc ir_vec =
     \<lparr>parse_request = wire_parse_request jc, emit_request = wire_emit_request jc,
      parse_response = wire_parse_response jc, emit_response = wire_emit_response jc,
      decoder_new = chat_decoder_new, decode_line = chat_decode_line jc,
      encoder_new = chat_encoder_new, encode = chat_encode jc, encoder_finish = chat_encoder_finish jc,
      set_include_usage = encoder_include_usage, set_prompt_cache = encoder_prompt_cache,
      json_from_str = from_str jc, json_to_string = to_string jc, ir_to_vec = ir_vec\<rparr>"

section \<open>The cutting of a body\<close>

lemma split_lines_Nil [simp]: "split_lines [] = ([], [])"
  by (subst split_lines.simps) simp

lemma split_lines_Cons:
  "split_lines (c # cs) =
     (let (ls, r) = split_lines cs
      in if c = CHR 0x0A then ([c] # ls, r)
         else (case ls of [] \<Rightarrow> ([], c # r) | l # ls \<Rightarrow> ((c # l) # ls, r)))"
proof (cases "c = CHR 0x0A")
  case True
  then show ?thesis by (subst split_lines.simps) (simp add: starts_with_def split_beta Let_def)
next
  case False
  then show ?thesis
    by (subst split_lines.simps, subst (2) split_lines.simps)
      (auto simp: starts_with_def Let_def split_beta split: option.splits)
qed

lemma split_lines_rest: "CHR 0x0A \<notin> set (snd (split_lines bs))"
  by (induction bs) (auto simp: split_lines_Cons split_beta Let_def split: list.split)

lemma split_lines_none: "CHR 0x0A \<notin> set bs \<Longrightarrow> split_lines bs = ([], bs)"
  by (induction bs) (auto simp: split_lines_Cons)

text \<open>Lines can be taken from a body in two portions.\<close>
lemma split_lines_append:
  "split_lines (a @ b) =
     (fst (split_lines a) @ fst (split_lines (snd (split_lines a) @ b)), snd (split_lines (snd (split_lines a) @ b)))"
proof (induction a)
  case (Cons c a)
  obtain ls r where a: "split_lines a = (ls, r)" by fastforce
  show ?case
    using Cons by (cases ls; cases "fst (split_lines (r @ b))")
      (auto simp: split_lines_Cons a split_beta Let_def split: list.splits)
qed simp

lemma aggregate_lines_append:
  "aggregate_lines g (ls @ ms) st = aggregate_lines g ms (aggregate_lines g ls st)"
proof (induction ls arbitrary: st)
  case (Cons l ls)
  then show ?case by (cases st) (simp add: split_beta Let_def)
qed simp

lemma aggregate_loop_chunks:
  "CHR 0x0A \<notin> set bf \<Longrightarrow> aggregate_loop g (map Chunk cs) bf status st =
     (case aggregate_lines g (fst (split_lines (bf @ concat cs))) st of
        (d, a, rc, w) \<Rightarrow> (Inr (snd (split_lines (bf @ concat cs)), d, a, rc), w))"
proof (induction cs arbitrary: bf st)
  case Nil
  then show ?case by (cases st) (simp add: split_lines_none)
next
  case (Cons c cs)
  show ?case
    using Cons.IH [OF split_lines_rest] split_lines_append [of "bf @ c" "concat cs"]
    by (cases st) (simp add: aggregate_lines_append split_beta Let_def)
qed

text \<open>An answer that is gathered from a stream does not depend on how the network cut the stream into
  chunks, in the middle of a line or of a character included: the answer, the errors, the record of
  the turn and the final state are those of the uncut body.\<close>
theorem gathered_answer_ignores_chunks:
  assumes "concat cs = concat cs'"
  shows "aggregate_stream g (map Chunk cs) upfmt surface rc status echo w =
    aggregate_stream g (map Chunk cs') upfmt surface rc status echo w"
  using assms by (simp add: aggregate_stream_def aggregate_loop_chunks)

section \<open>A translated stream and the uncut body\<close>

text \<open>The lines of a body: those with their line feed, and the last one where it has none.\<close>
definition body_lines :: "bytes \<Rightarrow> bytes list" where
  "body_lines bs = fst (split_lines bs) @ (let r = snd (split_lines bs) in if r = [] then [] else [r])"

text \<open>All events of a body, and what a client is owed for it by a decoder and an encoder.\<close>
definition body_events :: "('d, 'e) wire_ops \<Rightarrow> 'd \<Rightarrow> bytes \<Rightarrow> stream_event list" where
  "body_events wo d bs = fst (decode_all (decode_bytes wo) d (body_lines bs))"

definition owed :: "('d, 'e) wire_ops \<Rightarrow> 'd \<Rightarrow> 'e \<Rightarrow> bytes \<Rightarrow> bytes" where
  "owed wo d e bs =
     (let (out, e) = encode wo e (body_events wo d bs) in out @ fst (encoder_finish wo e))"

lemma body_lines_append: "body_lines (a @ b) = fst (split_lines a) @ body_lines (snd (split_lines a) @ b)"
  by (simp add: body_lines_def split_lines_append [of a b] Let_def)

lemma body_events_append:
  assumes "split_lines a = (ls, r)" "decode_all (decode_bytes wo) d ls = (evs, d')"
  shows "body_events wo d (a @ b) = evs @ body_events wo d' (r @ b)"
  using assms by (simp add: body_events_def body_lines_append [of a b] decode_all_append split_beta Let_def)

lemma body_events_rest:
  "CHR 0x0A \<notin> set r \<Longrightarrow> body_events wo d r = (if r = [] then [] else fst (decode_bytes wo d r))"
  by (simp add: body_events_def body_lines_def split_lines_none split_beta Let_def)

lemma decode_lines_all:
  assumes "decode_lines g ls st w = (evs, st', w')"
  shows "decode_all (decode_bytes (wire g)) (decoder st) ls = (evs, decoder st') \<and>
    encoder st' = encoder st \<and> buf st' = buf st"
  using assms
proof (induction ls arbitrary: st w evs)
  case (Cons l ls)
  obtain ev d where d: "decode_bytes (wire g) (decoder st) l = (ev, d)" by fastforce
  obtain rc w1 where s: "saw g (rctx st) ev w = (rc, w1)" by fastforce
  let ?st = "st\<lparr>decoder := d, rctx := rc, st_usage := merge_usages (st_usage st) ev, agg := push_all (agg st) ev\<rparr>"
  obtain evs2 where e: "decode_lines g ls ?st w1 = (evs2, st', w')" "evs = ev @ evs2"
    using Cons.prems d s by (auto simp: Let_def split: prod.splits)
  from Cons.IH [OF e(1)] e(2) d show ?case by simp
qed simp

text \<open>
  What the gateway relies on of an encoder: events given together or one batch after the other are
  written as the same bytes.
\<close>
locale batched_encoder =
  fixes wo :: "('d, 'e) wire_ops"
  assumes encode_Nil: "encode wo e [] = ([], e)"
    and encode_append: "encode wo e (xs @ ys) =
      (fst (encode wo e xs) @ fst (encode wo (snd (encode wo e xs)) ys), snd (encode wo (snd (encode wo e xs)) ys))"
begin

lemma owed_append:
  assumes "split_lines a = (ls, r)" "decode_all (decode_bytes wo) d ls = (evs, d')" "encode wo e evs = (out, e')"
  shows "owed wo d e (a @ b) = out @ owed wo d' e' (r @ b)"
  using assms(3) by (simp add: owed_def body_events_append [OF assms(1,2)] encode_append split_beta Let_def)

text \<open>What a poll leaves to be delivered of the rest \<open>b\<close> of the body.\<close>
definition delivers :: "('d, 'e) stream_state \<Rightarrow> bytes \<Rightarrow> bytes \<Rightarrow> ('d, 'e) stream_state \<Rightarrow> bool" where
  "delivers st b out st' \<longleftrightarrow>
     (if ended st' then recorded st' \<and>
        (\<exists>rest. owed wo (decoder st) (encoder st) (buf st @ b) = out @ rest \<and>
           (rest = [] \<or> (\<exists>evs. ends_stream (st_surface st) out evs \<and>
              set evs \<subseteq> set (body_events wo (decoder st) (buf st @ b)))))
      else \<not> recorded st' \<and> CHR 0x0A \<notin> set (buf st') \<and> st_surface st' = st_surface st \<and>
        (\<exists>cs. upstream st' = map Chunk cs \<and>
           owed wo (decoder st) (encoder st) (buf st @ b) =
             out @ owed wo (decoder st') (encoder st') (buf st' @ concat cs) \<and>
           set (body_events wo (decoder st') (buf st' @ concat cs))
             \<subseteq> set (body_events wo (decoder st) (buf st @ b))))"

lemma poll_end_delivers:
  assumes "wire g = wo" "CHR 0x0A \<notin> set (buf st)" "\<not> recorded st"
    and "poll_end g st w = (out, st', w')"
  shows "delivers st [] out st'"
proof -
  have "owed wo (decoder st) (encoder st) (buf st) = out"
    using assms by (auto simp: poll_end_def owed_def body_events_rest encode_Nil Let_def split: if_splits prod.splits)
  with poll_end_frame [OF assms(4)] show ?thesis by (simp add: delivers_def)
qed

lemma poll_chunk_delivers:
  assumes "wire g = wo" "\<not> recorded st" "\<not> ended st" "upstream st = map Chunk cs"
    and "poll_chunk g c st w = (out, st', w')"
  shows "delivers st (c @ concat cs) (case out of None \<Rightarrow> [] | Some b \<Rightarrow> b) st'"
    and "upstream st' = upstream st"
proof -
  obtain ls bf where l: "split_lines (buf st @ c) = (ls, bf)" by fastforce
  have bf: "CHR 0x0A \<notin> set bf" using split_lines_rest [of "buf st @ c"] l by simp
  obtain evs st1 w1 where d: "decode_lines g ls (st\<lparr>buf := bf\<rparr>) w = (evs, st1, w1)" by (metis prod_cases3)
  obtain o1 e1 where e: "encode wo (encoder st) evs = (o1, e1)" by fastforce
  from decode_lines_frame [OF d] assms(2-4) have f: "\<not> recorded st1" "\<not> ended st1"
    "upstream st1 = map Chunk cs" "st_surface st1 = st_surface st" by (auto simp: same_frame_def)
  from decode_lines_all [OF d] assms(1) have a: "decode_all (decode_bytes wo) (decoder st) ls = (evs, decoder st1)"
    "encoder st1 = encoder st" "buf st1 = bf" by simp_all
  note ow = owed_append [OF l a(1) e, of "concat cs"] and be = body_events_append [OF l a(1), of "concat cs"]
  have empty: "o1 = [] \<and> e1 = encoder st" if "evs = []" using e that by (simp add: encode_Nil)
  show "delivers st (c @ concat cs) (case out of None \<Rightarrow> [] | Some b \<Rightarrow> b) st'"
    using assms(1,5) l d e a f bf ow be empty
    by (auto simp: poll_chunk_def delivers_def record_turn_def ir_json_def Let_def split: if_splits prod.splits)
  show "upstream st' = upstream st"
    using assms(4,5) l d f by (auto simp: poll_chunk_def record_turn_def ir_json_def Let_def split: if_splits prod.splits)
qed

lemma delivers_trans:
  assumes "delivers st b [] st1" "\<not> ended st1" "upstream st1 = map Chunk cs" "delivers st1 (concat cs) out st2"
  shows "delivers st b out st2"
proof -
  have "map Chunk cs = map Chunk cs' \<Longrightarrow> cs = cs'" for cs cs' :: "bytes list"
    by (rule map_injective) (auto simp: inj_def)
  with assms show ?thesis by (fastforce simp: delivers_def split: if_splits)
qed

lemma poll_items_delivers:
  assumes "wire g = wo" "\<not> recorded st" "\<not> ended st" "CHR 0x0A \<notin> set (buf st)" "upstream st = map Chunk cs"
    and "poll_items g (map Chunk cs) st w = (item, st', w')"
  shows "\<exists>out. item = Some (Inr out) \<and> delivers st (concat cs) out st'"
  using assms
proof (induction cs arbitrary: st w)
  case Nil
  then show ?case
    using poll_end_delivers [of g "st\<lparr>upstream := []\<rparr>" w] by (auto simp: delivers_def Let_def split: prod.splits)
next
  case (Cons c cs)
  let ?st = "st\<lparr>upstream := map Chunk cs\<rparr>"
  obtain out st1 w1 where p: "poll_chunk g c ?st w = (out, st1, w1)" by (metis prod_cases3)
  have "upstream ?st = map Chunk cs" "\<not> recorded ?st" "\<not> ended ?st" using Cons.prems by simp_all
  note d = poll_chunk_delivers [OF Cons.prems(1) this(2,3,1) p]
  show ?case
  proof (cases out)
    case None
    with poll_chunk_frame [OF p] Cons.prems(2,3) have o: "\<not> recorded st1" "\<not> ended st1"
      by (auto simp: stream_ok_def split: if_splits)
    with d None have s: "CHR 0x0A \<notin> set (buf st1)" "upstream st1 = map Chunk cs"
      by (auto simp: delivers_def)
    have "poll_items g (map Chunk cs) st1 w1 = (item, st', w')" using Cons.prems(6) p None by simp
    from Cons.IH [OF Cons.prems(1) o s this] obtain b where b: "item = Some (Inr b)" "delivers st1 (concat cs) b st'"
      by blast
    from delivers_trans [OF _ o(2) s(2) b(2)] d(1) None have "delivers ?st (c @ concat cs) b st'" by simp
    with b(1) show ?thesis by (auto simp: delivers_def)
  next
    case (Some b)
    with Cons.prems(6) p d show ?thesis by (auto simp: delivers_def)
  qed
qed

lemma run_delivers:
  assumes "wire g = wo" "\<not> recorded st" "\<not> ended st" "CHR 0x0A \<notin> set (buf st)" "upstream st = map Chunk cs"
    and "run_stream g n st w = (items, w')"
  shows "\<exists>outs rest. items = map Inr outs \<and>
    owed wo (decoder st) (encoder st) (buf st @ concat cs) = concat outs @ rest \<and>
    (rest = [] \<or> n \<le> length cs \<or> (\<exists>out \<in> set outs. \<exists>evs. ends_stream (st_surface st) out evs \<and>
       set evs \<subseteq> set (body_events wo (decoder st) (buf st @ concat cs))))"
  using assms
proof (induction n arbitrary: st cs w items)
  case 0
  then show ?case by (intro exI [of _ "[]"] exI) auto
next
  case (Suc n)
  obtain item st1 w1 where p: "poll g st w = (item, st1, w1)" by (metis prod_cases3)
  then have pi: "poll_items g (map Chunk cs) st w = (item, st1, w1)" using Suc.prems by (simp add: poll_def)
  from poll_items_delivers [OF Suc.prems(1-5) pi] obtain out where
    o: "item = Some (Inr out)" and d: "delivers st (concat cs) out st1" by blast
  from poll_items_effect [OF pi] Suc.prems have e: "poll_effect st w st1 w1" by simp
  obtain items1 where r: "run_stream g n st1 w1 = (items1, w')" "items = Inr out # items1"
    using Suc.prems(6) p o by (auto split: prod.splits)
  show ?case
  proof (cases "ended st1")
    case True
    with e have "stream_ok st1" "recorded st1" by (auto simp: poll_effect_def stream_ok_def)
    from run_stream_recorded [OF this, of g n w1] r have "items = map Inr [out]" by simp
    with d True show ?thesis by (fastforce simp: delivers_def intro: exI [of _ "[out]"])
  next
    case False
    with d obtain cs1 where c: "upstream st1 = map Chunk cs1" "\<not> recorded st1" "CHR 0x0A \<notin> set (buf st1)"
      "st_surface st1 = st_surface st"
      "owed wo (decoder st) (encoder st) (buf st @ concat cs) =
         out @ owed wo (decoder st1) (encoder st1) (buf st1 @ concat cs1)"
      "set (body_events wo (decoder st1) (buf st1 @ concat cs1)) \<subseteq> set (body_events wo (decoder st) (buf st @ concat cs))"
      by (auto simp: delivers_def)
    have l: "length cs1 < length cs" using e c(1,2) Suc.prems(5) by (auto simp: poll_effect_def)
    from Suc.IH [OF Suc.prems(1) c(2) False c(3,1) r(1)] obtain outs rest where
      "items1 = map Inr outs"
      "owed wo (decoder st1) (encoder st1) (buf st1 @ concat cs1) = concat outs @ rest"
      "rest = [] \<or> n \<le> length cs1 \<or> (\<exists>out \<in> set outs. \<exists>evs. ends_stream (st_surface st1) out evs \<and>
         set evs \<subseteq> set (body_events wo (decoder st1) (buf st1 @ concat cs1)))" by blast
    with r(2) c l show ?thesis by (intro exI [of _ "out # outs"] exI [of _ rest]) (auto; blast)
  qed
qed

end

interpretation dispatched: batched_encoder "gateway_wire jc ir_vec" for jc ir_vec
proof
  fix e xs ys
  show "encode (gateway_wire jc ir_vec) e [] = ([], e)"
    by (cases e) (simp_all add: gateway_wire_def anthropic_encode_sse_def anthropic_encode_events_def
        chat_encode_sse_def chat_encode_events_def responses_encode_sse_def responses_encode_events_def
        gemini_encode_sse_def gemini_encode_events_def)
  show "encode (gateway_wire jc ir_vec) e (xs @ ys) =
      (fst (encode (gateway_wire jc ir_vec) e xs) @
         fst (encode (gateway_wire jc ir_vec) (snd (encode (gateway_wire jc ir_vec) e xs)) ys),
       snd (encode (gateway_wire jc ir_vec) (snd (encode (gateway_wire jc ir_vec) e xs)) ys))"
    by (cases e) (simp_all add: gateway_wire_def anthropic_encode_sse_def anthropic_encode_events_def
        chat_encode_sse_def chat_encode_events_def responses_encode_sse_def responses_encode_events_def
        gemini_encode_sse_def gemini_encode_events_def encode_all_append split_beta Let_def)
qed

text \<open>A gateway over a codec that knows two chunks of a chat stream: the finish, and usage after it.\<close>
definition finish_chunk :: json where
  "finish_chunk = JObj [(''choices'', JArr [JObj
     [(''delta'', JObj [(''content'', JStr ''hi'')]), (''finish_reason'', JStr ''stop'')]])]"

definition usage_chunk :: json where
  "usage_chunk = JObj [(''choices'', JArr []),
     (''usage'', JObj [(''prompt_tokens'', jnat 7), (''completion_tokens'', jnat 2)])]"

definition two_chunks :: json_codec where
  "two_chunks = sample_codec [finish_chunk, usage_chunk]"

definition dispatch_gateway :: "(script, chat_decoder, chat_encoder) gateway" where
  "dispatch_gateway =
     \<lparr>send = (\<lambda>c u. case c of [] \<Rightarrow> (None, []) | a # as \<Rightarrow> (a, as)),
      wire = gateway_wire two_chunks (\<lambda>_. []), cf_access = None, environ = (\<lambda>_. None), calendar = gregorian,
      wall_clock = int, instant = (\<lambda>n. int n * 1000000), fresh_id = (\<lambda>n. [])\<rparr>"

definition sample_record :: record_ctx where
  "sample_record = record_ctx_new sample_ctx ''anthropic'' ''m'' (sample_deployment ''m'' ''p'') [] 0 0"

lemma dispatch_gateway_wire: "wire dispatch_gateway = gateway_wire two_chunks (\<lambda>_. [])"
  by (simp add: dispatch_gateway_def)



section \<open>Usage after the end\<close>

lemma utf8_next_continues:
  assumes "utf8_next bs = (n, ok)" "0 < i" "i < n"
  shows "0x80 \<le> bs ! i"
  using assms by (auto simp: utf8_next_def cont_byte_def Let_def split: if_splits)
    (auto simp: less_Suc_eq numeral_eq_Suc)

text \<open>A piece of ASCII text survives lossy decoding, whatever stands before it.\<close>
lemma from_utf8_lossy_ascii: "list_all is_ascii m \<Longrightarrow> from_utf8_lossy (m @ b) = m @ from_utf8_lossy b"
  by (induction m) (simp_all add: from_utf8_lossy_code [of "_ # _"])

lemma contains_lossy:
  assumes "list_all is_ascii m" "m \<noteq> []"
  shows "contains_str (from_utf8_lossy (a @ m @ b)) m"
proof (induction a rule: measure_induct_rule [of length])
  case (less a)
  show ?case
  proof (cases "a = []")
    case True
    with assms(1) show ?thesis by (simp add: from_utf8_lossy_ascii contains_str_iff) (metis append_Nil)
  next
    case False
    obtain n ok where u: "utf8_next (map byte_of (a @ m @ b)) = (n, ok)" by fastforce
    have "n \<le> length a"
    proof (rule ccontr)
      assume "\<not> n \<le> length a"
      then have "0x80 \<le> map byte_of (a @ m @ b) ! length a"
        using utf8_next_continues [OF u, of "length a"] False by simp
      moreover have "is_ascii (hd m)" using assms by (cases m) simp_all
      ultimately show False using assms(2) by (simp add: nth_append is_ascii_byte hd_conv_nth)
    qed
    then have "max n 1 \<le> length a" using False by (cases a) simp_all
    then have "drop (max n 1) (a @ m @ b) = drop (max n 1) a @ m @ b" by simp
    moreover have "contains_str (from_utf8_lossy (drop (max n 1) a @ m @ b)) m"
      using False by (intro less) (cases a; simp)
    ultimately have "contains_str (from_utf8_lossy (drop (max n 1) (a @ m @ b))) m" by simp
    then have "contains_str (p @ from_utf8_lossy (drop (max n 1) (a @ m @ b))) m" for p
      unfolding contains_str_iff by (metis append.assoc)
    then show ?thesis using u False by (subst from_utf8_lossy.simps) simp
  qed
qed

lemma encode_all_frame:
  assumes "ev \<in> set evs" "P st" "\<And>st e. P st \<Longrightarrow> P (snd (step st e))" "\<And>st. P st \<Longrightarrow> \<exists>f \<in> set (fst (step st ev)). Q f"
  shows "\<exists>f \<in> set (fst (encode_all step st evs)). Q f"
  using assms(1,2)
proof (induction evs arbitrary: st)
  case (Cons e evs)
  then show ?case
    using assms(3) [of st e] assms(4) [of st] by (cases "ev = e") (auto simp: split_beta Let_def)
qed simp

text \<open>Whether an encoder writes the end of the answer as soon as the upstream finishes.\<close>
fun closes_at_end :: "wire_format \<Rightarrow> chat_encoder \<Rightarrow> bool" where
  "closes_at_end Anthropic (EncoderAnthropic s) = True"
| "closes_at_end Gemini (EncoderGemini s) = True"
| "closes_at_end OpenaiChat (EncoderOpenaiChat s) = (\<not> ch_include_usage s)"
| "closes_at_end _ _ = False"

lemma concat_map_member: "f \<in> set fs \<Longrightarrow> \<exists>a b. concat (map t fs) = a @ t f @ b"
  by (metis (no_types) concat.simps(2) concat_append list.simps(9) map_append split_list append.assoc)

lemma chat_encode_event_include: "ch_include_usage (snd (chat_encode_event st e)) = ch_include_usage st"
  by (cases e) (auto simp: chat_ensure_started_def Let_def split_beta split: option.split)

lemma done_ends_stream:
  assumes "closes_at_end surface e" "Done s \<in> set evs" "chat_encode jc e evs = (out, e')"
  shows "out \<noteq> [] \<and> ends_stream surface out evs"
  using assms(1)
proof (cases rule: closes_at_end.cases [of "(surface, e)"])
  case (1 st)
  have "\<exists>f \<in> set (fst (encode_all anthropic_encode_event st evs)). f = (''message_stop'', JObj [(''type'', JStr ''message_stop'')])"
    by (rule encode_all_frame [OF assms(2), of "\<lambda>_. True"]) (auto simp: split_beta Let_def)
  then have "(''message_stop'', JObj [(''type'', JStr ''message_stop'')]) \<in> set (fst (encode_all anthropic_encode_event st evs))"
    by blast
  from concat_map_member [OF this, of "write_event jc"] obtain a b where
    "out = (a @ ''event: '') @ ''message_stop'' @ b"
    using assms(3) 1 by (auto simp: anthropic_encode_sse_def anthropic_encode_events_def write_event_def split_beta Let_def)
  moreover have "list_all is_ascii ''message_stop''" by code_simp
  ultimately show ?thesis using 1 contains_lossy [of "''message_stop''" "a @ ''event: ''" b] by simp
next
  case (2 st)
  have "\<exists>f \<in> set (fst (encode_all (gemini_encode_event jc) st evs)). True"
    by (rule encode_all_frame [OF assms(2), of "\<lambda>_. True"]) (auto simp: split_beta Let_def)
  then obtain f where "f \<in> set (fst (encode_all (gemini_encode_event jc) st evs))" by blast
  from concat_map_member [OF this, of "gemini_write_chunk jc"] have "out \<noteq> []"
    using assms(3) 2 by (auto simp: gemini_encode_sse_def gemini_encode_events_def gemini_write_chunk_def split_beta Let_def)
  with 2 assms(2) show ?thesis by (auto simp: list_ex_iff is_done_def intro: bexI [of _ "Done s"])
next
  case (3 st)
  have "\<exists>f \<in> set (fst (encode_all chat_encode_event st evs)). f = ChatDone"
    by (rule encode_all_frame [OF assms(2), of "\<lambda>st. \<not> ch_include_usage st"])
      (use 3 assms(1) in \<open>auto simp: chat_encode_event_include chat_ensure_started_def split_beta Let_def split: option.split\<close>)
  then have "ChatDone \<in> set (fst (encode_all chat_encode_event st evs))" by blast
  from concat_map_member [OF this, of "chat_frame_text jc"] obtain a b where "out = a @ ''data: [DONE]'' @ b"
    using assms(3) 3 by (auto simp: chat_encode_sse_def chat_encode_events_def split_beta Let_def)
  moreover have "list_all is_ascii ''data: [DONE]''" by code_simp
  ultimately show ?thesis using 3 contains_lossy [of "''data: [DONE]''" a b] by simp
qed simp_all

lemma chat_encoder_closes:
  assumes "surface = Anthropic \<or> surface = Gemini \<or> surface = OpenaiChat \<and> \<not> incl"
  shows "closes_at_end surface
    (encoder_include_usage incl (encoder_prompt_cache key retention (chat_encoder_new surface)))"
  using assms by (auto simp: chat_set_include_usage_def)

text \<open>A stream to a client that reads in the Anthropic or Gemini dialect, or in the chat dialect without
  asking for usage, is recorded the moment the piece of the upstream that finishes the answer has been
  translated, and is read no further: usage the upstream reports in a later piece is never billed.
  An OpenAI-compatible upstream reports usage in an event after the one that finishes the answer, so
  the turn is recorded with no tokens and no cost unless both arrive in one piece.\<close>
theorem late_usage_unbilled:
  assumes "wire g = gateway_wire jc ir_vec"
    and "surface = Anthropic \<or> surface = Gemini \<or> surface = OpenaiChat \<and> \<not> incl"
    and "decode_all (decode_bytes (gateway_wire jc ir_vec)) (chat_decoder_new upfmt) (fst (split_lines c)) = (evs, d)"
    and "Done s \<in> set evs"
  shows "\<exists>t. turns (snd (run_stream g (Suc n) (translate_stream g (Chunk c # later) upfmt surface rc status echo incl) w))
      = turns w @ [t] \<and>
    t_input_tokens t = uint (input_tokens (merge_usages usage_default evs)) \<and>
    t_output_tokens t = uint (output_tokens (merge_usages usage_default evs)) \<and>
    (usages evs = [] \<longrightarrow> t_cost_micros t = 0)"
proof -
  let ?st = "translate_stream g (Chunk c # later) upfmt surface rc status echo incl"
  obtain ls bf where l: "split_lines c = (ls, bf)" by fastforce
  obtain evs' st1 w1 where dl: "decode_lines g ls (?st\<lparr>upstream := later, buf := bf\<rparr>) w = (evs', st1, w1)" by (metis prod_cases3)
  note fr = decode_lines_frame [OF dl] and al = decode_lines_all [OF dl] and us = decode_lines_usage [OF dl]
  have evs': "evs' = evs" using al assms(1,3) l by (simp add: translate_stream_def gateway_wire_def)
  have enc: "encoder st1 = encoder_include_usage incl (encoder_prompt_cache (fst echo) (snd echo) (chat_encoder_new surface))"
    using al assms(1) by (simp add: translate_stream_def gateway_wire_def)
  obtain out e' where e: "chat_encode jc (encoder st1) evs = (out, e')" by fastforce
  from done_ends_stream [OF chat_encoder_closes [OF assms(2)] assms(4) e [unfolded enc]]
  have o: "out \<noteq> []" "ends_stream surface out evs" by simp_all
  have f: "\<not> recorded st1" "st_surface st1 = surface" "turns w1 = turns w"
    "st_usage st1 = merge_usages usage_default evs"
    using fr us evs' by (simp_all add: same_frame_def translate_stream_def)
  let ?st1 = "st1\<lparr>encoder := e', response_bytes := response_bytes st1 + int (length out)\<rparr>"
  obtain st2 w2 where r: "record_turn g False ?st1 w1 = (st2, w2)" by fastforce
  have p: "poll g ?st w = (Some (Inr out), st2\<lparr>ended := True\<rparr>, w2)"
  proof -
    have "poll_chunk g c (?st\<lparr>upstream := later\<rparr>) w = (Some out, st2\<lparr>ended := True\<rparr>, w2)"
      using l dl evs' e o f r assms(1,4)
      by (auto simp: poll_chunk_def translate_stream_def gateway_wire_def Let_def)
    then show ?thesis by (simp add: poll_def translate_stream_def)
  qed
  from record_turn_world [OF r] have "stream_ok (st2\<lparr>ended := True\<rparr>)" "recorded (st2\<lparr>ended := True\<rparr>)"
    by (simp_all add: stream_ok_def)
  note once = run_stream_recorded [OF this, of g n w2]
  have "\<lfloor>1 / 2 :: rat\<rfloor> = 0" by (simp add: floor_eq_iff)
  then have "cost_micros p 0 0 0 0 = 0" for p
    by (simp add: cost_micros_def cost_exact_def saturate_i64_def rust_round_def Let_def)
  with record_turn_world [OF r] f p once show ?thesis
    by (auto simp: finished_simps merge_usages_def usage_default_def)
qed

theorem late_usage_unbilled_witness:
  "(\<exists>t. turns (snd (run_stream dispatch_gateway 4
       (translate_stream dispatch_gateway [Chunk (''data: i'' @ [CHR 0x0A]), Chunk (''data: ii'' @ [CHR 0x0A])]
          OpenaiChat Anthropic sample_record 200 (None, None) False) (sample_world []))) = turns (sample_world []) @ [t] \<and>
     t_input_tokens t = 0 \<and> t_output_tokens t = 0 \<and> t_cost_micros t = 0) \<and>
   map input_tokens (usages (body_events (gateway_wire two_chunks (\<lambda>_. [])) (DecoderOpenaiChat False)
     (''data: i'' @ [CHR 0x0A] @ ''data: ii'' @ [CHR 0x0A]))) = [7]"
proof -
  let ?evs = "[MessageStart [], TextDelta ''hi'', Done EndTurn]"
  have d: "decode_all (decode_bytes (gateway_wire two_chunks (\<lambda>_. []))) (chat_decoder_new OpenaiChat)
      (fst (split_lines (''data: i'' @ [CHR 0x0A]))) = (?evs, DecoderOpenaiChat True)" by code_simp
  have "map input_tokens (usages (body_events (gateway_wire two_chunks (\<lambda>_. [])) (DecoderOpenaiChat False)
     (''data: i'' @ [CHR 0x0A] @ ''data: ii'' @ [CHR 0x0A]))) = [7]" by code_simp
  moreover have u: "usages ?evs = []" "merge_usages usage_default ?evs = usage_default" by code_simp+
  ultimately show ?thesis
    using late_usage_unbilled [OF dispatch_gateway_wire _ d, of Anthropic False EndTurn 3
        "[Chunk (''data: ii'' @ [CHR 0x0A])]" sample_record 200 "(None, None)" "sample_world []"]
    by (simp add: usage_default_def eval_nat_numeral del: run_stream.simps)
qed

end
