(* ===== verification/Whole_Answers.thy ===== *)
theory Whole_Answers
  imports Wire_Dispatch
begin

text \<open>
  What a whole answer keeps when it is written in a client's dialect and read there: for each of the
  four dialects, its own parser applied to what its own emitter wrote. The four lemmas share one
  conclusion (\<open>keeps\<close>), which the dispatch turns into one statement.
\<close>

section \<open>What is compared\<close>

text \<open>The tool calls of an answer, without their ids, which one dialect does not have.\<close>
fun block_calls :: "content_block \<Rightarrow> (string \<times> json) list" where
  "block_calls (ToolUse i name input) = [(name, input)]"
| "block_calls _ = []"

definition answer_calls :: "content_block list \<Rightarrow> (string \<times> json) list" where
  "answer_calls bs = concat (map block_calls bs)"

text \<open>A block of an answer, with arguments that can be written inside a string and read again.\<close>
fun answer_block_ok :: "json_codec \<Rightarrow> content_block \<Rightarrow> bool" where
  "answer_block_ok jc (Text t) = True"
| "answer_block_ok jc (Thinking t s) = True"
| "answer_block_ok jc (ToolUse i name input) \<longleftrightarrow>
     from_str jc (to_string jc input) = Some input \<and> to_string jc input \<noteq> []"
| "answer_block_ok jc _ = False"

definition keeps :: "chat_response \<Rightarrow> chat_response \<Rightarrow> bool" where
  "keeps r r' \<longleftrightarrow>
     join_text (response_content r') = join_text (response_content r) \<and>
     answer_calls (response_content r') = answer_calls (response_content r) \<and>
     response_model r' = response_model r \<and>
     input_tokens (response_usage r') = input_tokens (response_usage r) \<and>
     output_tokens (response_usage r') = output_tokens (response_usage r) \<and>
     cache_read_tokens (response_usage r') = cache_read_tokens (response_usage r)"

lemma answer_calls_simps [simp]:
  "answer_calls [] = []" "answer_calls (b # bs) = block_calls b @ answer_calls bs"
  "answer_calls (as @ bs) = answer_calls as @ answer_calls bs"
  by (simp_all add: answer_calls_def)

lemma parse_arguments_written:
  "from_str jc (to_string jc v) = Some v \<Longrightarrow> to_string jc v \<noteq> [] \<Longrightarrow> parse_arguments jc (Some (to_string jc v)) = v"
  by (simp add: parse_arguments_def)

section \<open>The four dialects\<close>

lemma answer_blocks_anthropic:
  assumes "list_all (answer_block_ok jc) bs"
  shows "list_all anthropic_block_ok bs" "map anthropic_normal bs = bs"
proof -
  have "anthropic_block_ok b \<and> anthropic_normal b = b" if "answer_block_ok jc b" for b
    using that by (cases b) auto
  with assms show "list_all anthropic_block_ok bs" "map anthropic_normal bs = bs"
    by (auto simp: list_all_iff map_idI)
qed

lemma anthropic_answer:
  assumes "list_all (answer_block_ok jc) (response_content r)" "text_ok jc (anthropic_response_value r)"
  shows "\<exists>r'. anthropic_parse_response jc (to_string jc (anthropic_response_value r)) = Inr r' \<and> keeps r r' \<and>
    (response_stop r = MaxTokens \<longrightarrow> response_stop r' = MaxTokens)"
  using assms parse_emit_blocks [of "response_content r"] answer_blocks_anthropic [OF assms(1)]
  by (simp add: anthropic_parse_response_def text_ok_def anthropic_response_value_def wire_simps keeps_def
      anthropic_parse_usage_def anthropic_emit_usage_def anthropic_parse_stop_reason_def Let_def)

lemma chat_calls_of_blocks:
  assumes "list_all (answer_block_ok jc) bs"
  shows "map (chat_parse_call jc) (concat (map (chat_call_of jc) bs)) = filter is_tool_use bs"
  using assms
proof (induction bs)
  case (Cons b bs)
  then show ?case by (cases b) (simp_all add: chat_emit_call_def chat_parse_call_def wire_simps parse_arguments_written)
qed simp

lemma filter_tools [simp]:
  "answer_calls (filter is_tool_use bs) = answer_calls bs" "join_text (filter is_tool_use bs) = []"
proof -
  have "block_text b = [] \<or> \<not> is_tool_use b" "is_tool_use b \<or> block_calls b = []" for b by (cases b; simp)+
  then show "answer_calls (filter is_tool_use bs) = answer_calls bs" "join_text (filter is_tool_use bs) = []"
    by (induction bs) force+
qed

lemma chat_usage_read:
  "input_tokens (chat_parse_usage (Some (chat_emit_usage u)) t) = input_tokens u"
  "output_tokens (chat_parse_usage (Some (chat_emit_usage u)) t) = output_tokens u"
  "cache_read_tokens (chat_parse_usage (Some (chat_emit_usage u)) t) = cache_read_tokens u"
  by (simp_all add: chat_parse_usage_def chat_emit_usage_def wire_simps word_gt_0 Let_def)

lemma chat_message_read:
  assumes "list_all (answer_block_ok jc) bs"
  shows "chat_message_blocks jc (chat_response_message jc bs) =
    (if join_text bs = [] then [] else [Text (join_text bs)]) @ filter is_tool_use bs"
proof -
  have "concat (map (chat_call_of jc) bs) = [] \<Longrightarrow> filter is_tool_use bs = []"
    using chat_calls_of_blocks [OF assms] by (metis list.simps(8))
  then show ?thesis
    using chat_calls_of_blocks [OF assms]
    by (auto simp: chat_message_blocks_def chat_response_message_def wire_simps Let_def)
qed

lemma chat_answer:
  assumes "list_all (answer_block_ok jc) (response_content r)" "text_ok jc (chat_response_value jc r)"
  shows "\<exists>r'. chat_parse_response jc (to_string jc (chat_response_value jc r)) = Inr r' \<and> keeps r r' \<and>
    (response_stop r = MaxTokens \<longrightarrow> response_stop r' = MaxTokens)"
  using assms chat_message_read [OF assms(1)]
  by (simp add: chat_parse_response_def text_ok_def chat_response_value_def first_choice_def wire_simps keeps_def
      chat_usage_read finish_to_stop_def)

lemma responses_usage_read:
  "input_tokens (responses_parse_usage (Some (responses_emit_usage u))) = input_tokens u"
  "output_tokens (responses_parse_usage (Some (responses_emit_usage u))) = output_tokens u"
  "cache_read_tokens (responses_parse_usage (Some (responses_emit_usage u))) = cache_read_tokens u"
  by (simp_all add: responses_parse_usage_def responses_emit_usage_def wire_simps Let_def)

definition output_part :: "json \<Rightarrow> bool" where
  "output_part p \<longleftrightarrow> (\<exists>t. p = JObj [(''type'', JStr ''output_text''), (''text'', JStr t)])"

lemma output_part_text [simp]: "output_part (JObj [(''type'', JStr ''output_text''), (''text'', JStr t)])"
  by (simp add: output_part_def)

lemma output_part_read: "output_part p \<Longrightarrow> \<exists>t. responses_parse_part p = Some (Text t)"
  by (auto simp: output_part_def responses_parse_part_def wire_simps Let_def)

lemma output_parts_read:
  assumes "list_all output_part parts"
  shows "responses_item_blocks jc (message_item ''assistant'' parts) = List.map_filter responses_parse_part parts"
    and "list_all is_text (List.map_filter responses_parse_part parts)"
proof -
  show "responses_item_blocks jc (message_item ''assistant'' parts) = List.map_filter responses_parse_part parts"
    by (simp add: responses_item_blocks_def message_item_def parse_content_parts_def wire_simps)
  show "list_all is_text (List.map_filter responses_parse_part parts)"
    using assms by (induction parts) (auto simp: map_filter_simps dest: output_part_read)
qed

lemma text_no_calls: "list_all is_text bs \<Longrightarrow> answer_calls bs = []"
  by (induction bs) (auto elim: is_text.elims)

lemma response_items_read:
  assumes "list_all (answer_block_ok jc) bs" "list_all output_part parts"
  shows "join_text (concat (map (responses_item_blocks jc) (response_items jc bs parts))) =
      join_text (List.map_filter responses_parse_part parts) @ join_text bs \<and>
    answer_calls (concat (map (responses_item_blocks jc) (response_items jc bs parts))) = answer_calls bs"
  using assms
proof (induction bs arbitrary: parts)
  case Nil
  then show ?case using output_parts_read [OF Nil(2)] by (auto simp: text_no_calls map_filter_simps)
next
  case (Cons b bs)
  note read = output_parts_read [OF Cons.prems(2)]
  show ?case
  proof (cases b)
    case (Text t)
    have "list_all output_part (parts @ [JObj [(''type'', JStr ''output_text''), (''text'', JStr t)]])"
      using Cons.prems(2) by simp
    from Cons.IH [OF _ this] Cons.prems(1) Text show ?thesis
      by (simp add: map_filter_def responses_parse_part_def wire_simps join_text_append)
  next
    case (ToolUse i n a)
    from Cons.IH [of "[]"] Cons.prems(1) ToolUse read show ?thesis
      by (auto simp: join_text_append text_no_calls map_filter_simps parse_arguments_written
          responses_item_blocks_def [of jc "JObj _"] wire_simps or_opt_def)
  next
    case (Thinking t sg)
    with Cons.IH [OF _ Cons.prems(2)] Cons.prems(1) show ?thesis by simp
  qed (use Cons.prems(1) in simp_all)
qed

lemma insert_prompt_cache_gets:
  assumes "k \<noteq> ''prompt_cache_key''" "k \<noteq> ''prompt_cache_retention''"
  shows "jget_obj (insert_prompt_cache key retention m) k = jget_obj m k"
  using assms by (simp add: insert_prompt_cache_def split: option.split)

lemma responses_answer:
  assumes "list_all (answer_block_ok jc) (response_content r)" "text_ok jc (responses_response_value jc r)"
  shows "\<exists>r'. responses_parse_response jc (to_string jc (responses_response_value jc r)) = Inr r' \<and> keeps r r'"
  using assms response_items_read [OF assms(1), of "[]"]
  by (simp add: responses_parse_response_def text_ok_def responses_response_value_def opt_str_def opt_arr_def
      insert_prompt_cache_gets keeps_def responses_usage_read map_filter_simps Let_def)

lemma gemini_part_read:
  "answer_block_ok jc b \<Longrightarrow> (case gemini_emit_part jc b of None \<Rightarrow> block_text b = [] \<and> block_calls b = []
     | Some p \<Rightarrow> \<exists>b'. gemini_parse_part jc p = Some b' \<and> block_text b' = block_text b \<and> block_calls b' = block_calls b)"
  by (cases b) (auto simp: gemini_parse_part_def get_either_def wire_simps Let_def)

lemma gemini_parts_read:
  "list_all (answer_block_ok jc) bs \<Longrightarrow>
     join_text (List.map_filter (gemini_parse_part jc) (List.map_filter (gemini_emit_part jc) bs)) = join_text bs \<and>
     answer_calls (List.map_filter (gemini_parse_part jc) (List.map_filter (gemini_emit_part jc) bs)) = answer_calls bs"
proof (induction bs)
  case (Cons b bs)
  then show ?case using gemini_part_read [of jc b]
    by (cases "gemini_emit_part jc b") (auto simp: map_filter_simps)
qed (simp add: map_filter_simps)

lemma gemini_answer:
  assumes "list_all (answer_block_ok jc) (response_content r)" "text_ok jc (gemini_response_value jc r)"
  shows "\<exists>r'. gemini_parse_response jc (to_string jc (gemini_response_value jc r)) = Inr r' \<and> keeps r r' \<and>
    (response_stop r = MaxTokens \<longrightarrow> response_stop r' = MaxTokens)"
  using assms gemini_parts_read [OF assms(1)]
  by (simp add: gemini_parse_response_def text_ok_def gemini_response_value_def first_candidate_def wire_simps keeps_def
      gemini_parse_usage_def gemini_parse_parts_def gemini_finish_to_stop_def Let_def)

section \<open>Every dialect\<close>

text \<open>C25: A whole answer written for a client, in whichever dialect the client speaks, is one its dialect
  can read, and the client reads the same text, the same tool calls with the same arguments in the same
  order, the same model and the same input, output and cached token counts. That the answer was cut at
  the token limit is kept by every dialect but Responses.\<close>
theorem whole_answer_survives:
  assumes "list_all (answer_block_ok jc) (response_content r)"
    and "text_ok jc (wire_response_value jc surface r)"
  shows "\<exists>b r'. emit_response (gateway_wire jc ir_vec) surface r = Inr b \<and>
    parse_response (gateway_wire jc ir_vec) surface b = Inr r' \<and>
    join_text (response_content r') = join_text (response_content r) \<and>
    answer_calls (response_content r') = answer_calls (response_content r) \<and>
    response_model r' = response_model r \<and>
    input_tokens (response_usage r') = input_tokens (response_usage r) \<and>
    output_tokens (response_usage r') = output_tokens (response_usage r) \<and>
    cache_read_tokens (response_usage r') = cache_read_tokens (response_usage r) \<and>
    (response_stop r = MaxTokens \<and> surface \<noteq> OpenaiResponses \<longrightarrow> response_stop r' = MaxTokens)"
  using assms anthropic_answer chat_answer responses_answer gemini_answer
  by (cases surface) (fastforce simp: gateway_wire_def anthropic_emit_response_def chat_emit_response_def
      responses_emit_response_def gemini_emit_response_def keeps_def)+

definition sample_whole :: chat_response where
  "sample_whole =
     \<lparr>response_id = ''r'', response_model = ''m'',
      response_content = [Thinking ''hm'' None, Text ''a'', ToolUse ''c'' ''f'' (JObj []), Text ''b''],
      response_stop = MaxTokens, response_usage = usage_default\<lparr>input_tokens := 7, output_tokens := 2\<rparr>,
      response_cache_key = None, response_cache_retention = None\<rparr>"

theorem whole_answer_survives_witness:
  "\<exists>jc b r'. emit_response (gateway_wire jc (\<lambda>_. [])) OpenaiChat sample_whole = Inr b \<and>
    parse_response (gateway_wire jc (\<lambda>_. [])) OpenaiChat b = Inr r' \<and>
    join_text (response_content r') = ''ab'' \<and> answer_calls (response_content r') = [(''f'', JObj [])] \<and>
    input_tokens (response_usage r') = 7 \<and> response_stop r' = MaxTokens"
proof -
  let ?v = "chat_response_value (sample_codec [JObj []]) sample_whole"
  let ?jc = "sample_codec [JObj [], ?v]"
  have i: "to_string (sample_codec (JObj [] # vs)) (JObj []) = ''i''" for vs by (simp add: sample_codec_sel)
  have v: "wire_response_value ?jc OpenaiChat sample_whole = ?v"
    by (simp add: chat_response_value_def chat_response_message_def sample_whole_def chat_emit_call_def i)
  have ok: "text_ok ?jc (wire_response_value ?jc OpenaiChat sample_whole)"
    unfolding v by (rule text_ok_sample) simp
  have "from_str ?jc (to_string ?jc (JObj [])) = Some (JObj [])" by (rule sample_codec_read) simp
  then have "list_all (answer_block_ok ?jc) (response_content sample_whole)"
    by (simp add: sample_whole_def i)
  from whole_answer_survives [OF this ok, of "\<lambda>_. []"] show ?thesis
    by (intro exI [of _ ?jc]) (auto simp: sample_whole_def)
qed

end
