(* ===== verification/Embed_Wire.thy ===== *)
theory Embed_Wire
  imports Gateway_Media Wire_Text
begin

text \<open>
  The five embedding dialects of \<open>crates/yb-wire/src/embed\<close>: OpenAI, Cohere, Voyage, Gemini and
  Ollama, each with its request and response parser and emitter, and the dispatch over them in
  \<open>crates/yb-gateway/src/wire.rs\<close>.

  \<open>embed_codec\<close> holds what is not the program's: JSON text (\<open>serde_json\<close>), base64 (the \<open>base64\<close>
  package), the four bytes of a float, which is an exact rational here, and the \<open>Debug\<close> text of an
  optional string, which only occurs inside error messages.
\<close>

section \<open>Shared helpers\<close>

record embed_codec =
  embed_json :: json_codec
  base64_encode :: "bytes \<Rightarrow> string"
  base64_decode :: "string \<Rightarrow> string + bytes"
  f32_to_le_bytes :: "rat \<Rightarrow> bytes"
  f32_from_le_bytes :: "bytes \<Rightarrow> rat"
  debug_text :: "string option \<Rightarrow> string"

definition f32s_to_base64 :: "embed_codec \<Rightarrow> rat list \<Rightarrow> string" where
  "f32s_to_base64 ec v = base64_encode ec (concat (map (f32_to_le_bytes ec) v))"

fun chunks4 :: "bytes \<Rightarrow> bytes list" where
  "chunks4 (a # b # c # d # bs) = [a, b, c, d] # chunks4 bs"
| "chunks4 _ = []"

definition base64_to_f32s :: "embed_codec \<Rightarrow> string \<Rightarrow> rat list wire_result" where
  "base64_to_f32s ec s =
     (case base64_decode ec s of
        Inl e \<Rightarrow> Inl (InvalidRequest (''bad base64 embedding: '' @ e))
      | Inr bs \<Rightarrow>
          if length bs mod 4 \<noteq> 0
          then Inl (InvalidRequest ''base64 embedding length is not a multiple of 4 bytes'')
          else Inr (map (f32_from_le_bytes ec) (chunks4 bs)))"

text \<open>A row of numbers; what is not a number is zero.\<close>
definition vector_of :: "json list \<Rightarrow> rat list" where
  "vector_of ns = map (\<lambda>n. case as_f64 n of None \<Rightarrow> 0 | Some q \<Rightarrow> q) ns"

definition jvector :: "rat list \<Rightarrow> json" where
  "jvector v = JArr (map jf32 v)"

definition embed_target :: "embed_request \<Rightarrow> string \<Rightarrow> string" where
  "embed_target req target = (if target = [] then embed_model req else target)"

definition or_zero :: "(32 word) option \<Rightarrow> 32 word" where
  "or_zero x = (case x of None \<Rightarrow> 0 | Some n \<Rightarrow> n)"

definition json_headers_of :: "json_codec \<Rightarrow> json \<Rightarrow> emitted_request" where
  "json_headers_of jc v = (to_string jc v, [(''content-type'', ''application/json'')])"

text \<open>What a request of every dialect has in common.\<close>
definition plain_embed_request :: "string \<Rightarrow> embed_input list \<Rightarrow> embed_request" where
  "plain_embed_request m is =
     \<lparr>embed_model = m, inputs = is, input_type = None, output_dimensions = None, truncate_input = None,
      embed_encoding = None, cohere_embedding_types = None, gemini_batch = False, openai_content = False\<rparr>"

text \<open>The first two steps of a parser: JSON, and an object.\<close>
definition parse_object :: "json_codec \<Rightarrow> bytes \<Rightarrow> json wire_result" where
  "parse_object jc body =
     (case from_slice jc body of
        Inl e \<Rightarrow> Inl e
      | Inr v \<Rightarrow> if as_object v = None then Inl (InvalidRequest ''body is not a JSON object'') else Inr v)"

section \<open>OpenAI\<close>

text \<open>An image value: an address, a \<open>data:\<close> URI, or bare base64.\<close>
definition parse_image_value :: "string \<Rightarrow> embed_part" where
  "parse_image_value s =
     (if starts_with s ''http://'' \<or> starts_with s ''https://'' then EmbedImage None None (Some s)
      else (case parse_data_url s of
              Some (mt, d) \<Rightarrow> EmbedImage (Some mt) (Some d) None
            | None \<Rightarrow> EmbedImage None (Some s) None))"

definition openai_parse_part :: "json \<Rightarrow> embed_part wire_result" where
  "openai_parse_part item =
     (case opt_str item ''type'' of
        None \<Rightarrow> Inl (MissingField ''input[].content[].type'')
      | Some ty \<Rightarrow>
          if ty = ''text'' then
            (case opt_str item ''text'' of
               None \<Rightarrow> Inl (MissingField ''input[].content[].text'') | Some t \<Rightarrow> Inr (EmbedText t))
          else if ty = ''image_url'' then
            (case Option.bind (jget item ''image_url'') (\<lambda>image. case image of JStr u \<Rightarrow> Some u | _ \<Rightarrow> opt_str image ''url'') of
               None \<Rightarrow> Inl (MissingField ''input[].content[].image_url.url'')
             | Some u \<Rightarrow> Inr (parse_image_value u))
          else if ty = ''input_audio'' then
            (case jget item ''input_audio'' of
               None \<Rightarrow> Inl (MissingField ''input[].content[].input_audio'')
             | Some audio \<Rightarrow>
                 (case opt_str audio ''data'' of
                    None \<Rightarrow> Inl (MissingField ''input[].content[].input_audio.data'')
                  | Some d \<Rightarrow> Inr (EmbedAudio (opt_str audio ''format'') d)))
          else Inl (InvalidField ''input[].content[].type'' (''unsupported part '' @ ty)))"

definition openai_parse_content :: "json \<Rightarrow> embed_part list wire_result" where
  "openai_parse_content v =
     (case v of
        JArr items \<Rightarrow>
          if items = [] then Inl (InvalidField ''input[].content'' ''must not be empty'')
          else collect_results (map openai_parse_part items)
      | _ \<Rightarrow> Inl (InvalidField ''input[].content'' ''must be an array of parts''))"

definition token_error :: wire_error where
  "token_error = InvalidRequest ''token-array inputs are not supported by the gateway; resubmit as strings''"

definition openai_parse_item :: "json \<Rightarrow> embed_input wire_result" where
  "openai_parse_item item =
     (case item of
        JStr s \<Rightarrow> Inr (embed_input_text s)
      | JNum n \<Rightarrow> Inl token_error
      | JArr a \<Rightarrow> Inl token_error
      | JObj m \<Rightarrow>
          (case jget_obj m ''content'' of
             Some c \<Rightarrow> (case openai_parse_content c of Inl e \<Rightarrow> Inl e | Inr ps \<Rightarrow> Inr \<lparr>parts = ps\<rparr>)
           | None \<Rightarrow>
          (case opt_str item ''text'' of
             Some t \<Rightarrow> Inr (embed_input_text t)
           | None \<Rightarrow>
          (case opt_str item ''image'' of
             Some i \<Rightarrow> Inr \<lparr>parts = [parse_image_value i]\<rparr>
           | None \<Rightarrow> Inl (InvalidField ''input[]'' ''object inputs must carry `content`, `text` or `image`''))))
      | _ \<Rightarrow> Inl (InvalidField ''input[]'' ''unsupported input element''))"

definition openai_parse_input :: "json option \<Rightarrow> embed_input list wire_result" where
  "openai_parse_input v =
     (case v of
        Some (JStr s) \<Rightarrow> Inr [embed_input_text s]
      | Some (JArr items) \<Rightarrow> collect_results (map openai_parse_item items)
      | Some (JNum n) \<Rightarrow> Inl token_error
      | _ \<Rightarrow> Inl (MissingField ''input''))"

definition openai_embed_parse_value :: "json \<Rightarrow> embed_request wire_result" where
  "openai_embed_parse_value v =
     (case openai_parse_input (jget v ''input'') of Inl e \<Rightarrow> Inl e | Inr is \<Rightarrow>
      if is = [] then Inl (InvalidRequest ''input must not be empty'') else
      (case (case opt_str v ''encoding_format'' of
               None \<Rightarrow> Inr None
             | Some f \<Rightarrow> if f = ''base64'' then Inr (Some Base64Encoding)
                         else if f = ''float'' then Inr (Some FloatEncoding)
                         else Inl (InvalidField ''encoding_format'' (''unknown '' @ f))) of
         Inl e \<Rightarrow> Inl e
       | Inr enc \<Rightarrow>
           Inr ((plain_embed_request (unwrap_or_default (opt_str v ''model'')) is)
                  \<lparr>output_dimensions := opt_u32 v ''dimensions'', embed_encoding := enc,
                   openai_content := (case jget v ''input'' of
                     Some (JArr items) \<Rightarrow> list_ex (\<lambda>i. jget i ''content'' \<noteq> None) items | _ \<Rightarrow> False)\<rparr>)))"

definition openai_embed_parse_request :: "embed_codec \<Rightarrow> bytes \<Rightarrow> embed_request wire_result" where
  "openai_embed_parse_request ec body =
     (case parse_object (embed_json ec) body of Inl e \<Rightarrow> Inl e | Inr v \<Rightarrow> openai_embed_parse_value v)"

text \<open>An image as an address the upstream fetches or a \<open>data:\<close> URI.\<close>
definition image_reference :: "embed_part \<Rightarrow> string wire_result" where
  "image_reference p =
     (case p of
        EmbedImage mt d (Some u) \<Rightarrow> Inr u
      | EmbedImage mt (Some d) None \<Rightarrow> image_to_data_uri mt (Some d)
      | _ \<Rightarrow> Inl (InvalidField ''input[]'' ''image without data or url''))"

definition openai_content_part :: "embed_part \<Rightarrow> json wire_result" where
  "openai_content_part p =
     (case p of
        EmbedText t \<Rightarrow> Inr (JObj [(''type'', JStr ''text''), (''text'', JStr t)])
      | EmbedImage mt d u \<Rightarrow>
          (case image_reference p of
             Inl e \<Rightarrow> Inl e
           | Inr r \<Rightarrow> Inr (JObj [(''type'', JStr ''image_url''), (''image_url'', JObj [(''url'', JStr r)])]))
      | EmbedAudio f d \<Rightarrow>
          Inr (JObj [(''type'', JStr ''input_audio''),
                     (''input_audio'', JObj (insert_opt ''format'' (map_option JStr f) [(''data'', JStr d)]))]))"

definition openai_content_item :: "embed_input \<Rightarrow> json wire_result" where
  "openai_content_item i =
     (case collect_results (map openai_content_part (parts i)) of
        Inl e \<Rightarrow> Inl e | Inr ps \<Rightarrow> Inr (JObj [(''content'', JArr ps)]))"

definition jina_item :: "embed_input \<Rightarrow> json wire_result" where
  "jina_item i =
     (case parts i of
        [EmbedText t] \<Rightarrow> Inr (JObj [(''text'', JStr t)])
      | [EmbedImage mt d u] \<Rightarrow>
          (case image_reference (EmbedImage mt d u) of Inl e \<Rightarrow> Inl e | Inr r \<Rightarrow> Inr (JObj [(''image'', JStr r)]))
      | _ \<Rightarrow> Inl (InvalidRequest ''a Jina-style input carries one text or image''))"

definition all_text :: "embed_request \<Rightarrow> bool" where
  "all_text req \<longleftrightarrow> list_all (\<lambda>i. as_single_text i \<noteq> None) (inputs req)"

definition jtexts :: "embed_request \<Rightarrow> json list" where
  "jtexts req = map (\<lambda>i. JStr (unwrap_or_default (as_single_text i))) (inputs req)"

definition openai_embed_input :: "embed_request \<Rightarrow> json list wire_result" where
  "openai_embed_input req =
     (if all_text req then Inr (jtexts req)
      else if openai_content req \<or> list_ex (\<lambda>i. length (parts i) > 1 \<or> has_audio i) (inputs req)
      then collect_results (map openai_content_item (inputs req))
      else collect_results (map jina_item (inputs req)))"

definition openai_embed_emit_value :: "embed_request \<Rightarrow> string \<Rightarrow> json wire_result" where
  "openai_embed_emit_value req target =
     (case openai_embed_input req of
        Inl e \<Rightarrow> Inl e
      | Inr is \<Rightarrow>
          Inr (JObj (insert_opt ''dimensions'' (map_option ju32 (output_dimensions req))
            [(''model'', JStr (embed_target req target)), (''input'', JArr is), (''encoding_format'', JStr ''float'')])))"

text \<open>An indexed row of an answer: its index, or its position where it has none.\<close>
definition embed_row :: "embed_codec \<Rightarrow> nat \<times> json \<Rightarrow> (nat \<times> rat list) wire_result" where
  "embed_row ec p =
     (let (pos, item) = p;
          idx = (case opt_u32 item ''index'' of None \<Rightarrow> pos | Some i \<Rightarrow> unat i)
      in case jget item ''embedding'' of
           Some (JArr ns) \<Rightarrow> Inr (idx, vector_of ns)
         | Some (JStr s) \<Rightarrow> (case base64_to_f32s ec s of Inl e \<Rightarrow> Inl e | Inr v \<Rightarrow> Inr (idx, v))
         | _ \<Rightarrow> Inl (MissingField ''data[].embedding''))"

definition embed_rows :: "embed_codec \<Rightarrow> json list \<Rightarrow> rat list list wire_result" where
  "embed_rows ec items =
     (case collect_results (map (embed_row ec) (enumerate 0 items)) of
        Inl e \<Rightarrow> Inl e | Inr rows \<Rightarrow> Inr (map snd (sort_key fst rows)))"

definition openai_embed_parse_response :: "embed_codec \<Rightarrow> bytes \<Rightarrow> embed_response wire_result" where
  "openai_embed_parse_response ec body =
     (case from_slice (embed_json ec) body of Inl e \<Rightarrow> Inl e | Inr v \<Rightarrow>
      (case embed_rows ec (case opt_arr v ''data'' of None \<Rightarrow> [] | Some items \<Rightarrow> items) of Inl e \<Rightarrow> Inl e | Inr rows \<Rightarrow>
       Inr \<lparr>embed_response_model = unwrap_or_default (opt_str v ''model''), embeddings = rows,
            embed_response_usage =
              \<lparr>embed_input_tokens = or_zero (Option.bind (jget v ''usage'') (\<lambda>u. opt_u32 u ''prompt_tokens'')),
               image_units = 0\<rparr>\<rparr>))"

definition embed_row_value :: "embed_codec \<Rightarrow> bool \<Rightarrow> nat \<times> rat list \<Rightarrow> json" where
  "embed_row_value ec base64 p =
     JObj [(''object'', JStr ''embedding''), (''index'', jnat (fst p)),
           (''embedding'', if base64 then JStr (f32s_to_base64 ec (snd p)) else jvector (snd p))]"

definition embed_row_values :: "embed_codec \<Rightarrow> embed_response \<Rightarrow> embed_request \<Rightarrow> json" where
  "embed_row_values ec resp req =
     JArr (map (embed_row_value ec (embed_encoding req = Some Base64Encoding)) (enumerate 0 (embeddings resp)))"

definition openai_embed_response_value :: "embed_codec \<Rightarrow> embed_response \<Rightarrow> embed_request \<Rightarrow> json" where
  "openai_embed_response_value ec resp req =
     (let n = ju32 (embed_input_tokens (embed_response_usage resp)) in
      JObj [(''object'', JStr ''list''), (''data'', embed_row_values ec resp req),
            (''model'', JStr (embed_response_model resp)),
            (''usage'', JObj [(''prompt_tokens'', n), (''total_tokens'', n)])])"

section \<open>Cohere\<close>

definition data_uri_to_part :: "string \<Rightarrow> embed_part wire_result" where
  "data_uri_to_part s =
     (case parse_data_url s of
        None \<Rightarrow> Inl (InvalidField ''images[]'' ''expected a data: URI'')
      | Some (mt, d) \<Rightarrow> Inr (EmbedImage (Some mt) (Some d) None))"

definition cohere_parse_block :: "embed_codec \<Rightarrow> json \<Rightarrow> embed_part wire_result" where
  "cohere_parse_block ec block =
     (let ty = opt_str block ''type'' in
      if ty = Some ''text'' then Inr (EmbedText (unwrap_or_default (opt_str block ''text'')))
      else if ty = Some ''image_url'' then
        (case Option.bind (jget block ''image_url'') (\<lambda>u. opt_str u ''url'') of
           None \<Rightarrow> Inl (MissingField ''inputs[].content[].image_url.url'')
         | Some u \<Rightarrow> if starts_with u ''data:'' then data_uri_to_part u else Inr (EmbedImage None None (Some u)))
      else Inl (InvalidField ''inputs[].content[].type'' (''unknown '' @ debug_text ec ty)))"

text \<open>An item of content blocks, which Cohere and Voyage share up to the block.\<close>
definition parse_content_item :: "(json \<Rightarrow> embed_part wire_result) \<Rightarrow> json \<Rightarrow> embed_input wire_result" where
  "parse_content_item block item =
     (case opt_arr item ''content'' of
        None \<Rightarrow> Inl (MissingField ''inputs[].content'')
      | Some blocks \<Rightarrow>
          (case collect_results (map block blocks) of
             Inl e \<Rightarrow> Inl e
           | Inr ps \<Rightarrow> if ps = [] then Inl (InvalidRequest ''inputs[].content is empty'') else Inr \<lparr>parts = ps\<rparr>))"

definition cohere_parse_inputs :: "embed_codec \<Rightarrow> json \<Rightarrow> embed_input list wire_result" where
  "cohere_parse_inputs ec v =
     (case opt_arr v ''texts'' of
        Some ss \<Rightarrow>
          collect_results (map (\<lambda>t. case as_str t of
            None \<Rightarrow> Inl (InvalidField ''texts[]'' ''not a string'') | Some s \<Rightarrow> Inr (embed_input_text s)) ss)
      | None \<Rightarrow>
     (case opt_arr v ''images'' of
        Some images \<Rightarrow>
          collect_results (map (\<lambda>i. case as_str i of
            None \<Rightarrow> Inl (InvalidField ''images[]'' ''not a string'')
          | Some s \<Rightarrow> (case data_uri_to_part s of Inl e \<Rightarrow> Inl e | Inr p \<Rightarrow> Inr \<lparr>parts = [p]\<rparr>)) images)
      | None \<Rightarrow>
     (case opt_arr v ''inputs'' of
        Some items \<Rightarrow> collect_results (map (parse_content_item (cohere_parse_block ec)) items)
      | None \<Rightarrow> Inr [])))"

definition cohere_type :: "json \<Rightarrow> string wire_result" where
  "cohere_type t =
     (case as_str t of
        None \<Rightarrow> Inl (InvalidField ''embedding_types[]'' ''not a string'')
      | Some s \<Rightarrow>
          if s = ''float'' \<or> s = ''base64'' then Inr s
          else Inl (InvalidRequest (''embedding_types `'' @ s @
            ''` is not supported through the gateway (quantization is model-side); use float or base64'')))"

definition cohere_embed_parse_value :: "embed_codec \<Rightarrow> json \<Rightarrow> embed_request wire_result" where
  "cohere_embed_parse_value ec v =
     (if length (filter (\<lambda>k. jget v k \<noteq> None) [''texts'', ''images'', ''inputs'']) > 1
      then Inl (InvalidRequest ''texts, images, and inputs are mutually exclusive'') else
      (case cohere_parse_inputs ec v of Inl e \<Rightarrow> Inl e | Inr is \<Rightarrow>
       if is = [] then Inl (InvalidRequest ''one of texts, images, or inputs is required'') else
       (case (case opt_arr v ''embedding_types'' of
                None \<Rightarrow> Inr None
              | Some ts \<Rightarrow> (case collect_results (map cohere_type ts) of Inl e \<Rightarrow> Inl e | Inr ss \<Rightarrow> Inr (Some ss))) of
          Inl e \<Rightarrow> Inl e
        | Inr types \<Rightarrow>
            Inr ((plain_embed_request (unwrap_or_default (opt_str v ''model'')) is)
                   \<lparr>input_type := Option.bind (opt_str v ''input_type'') cohere_to_input_type,
                    output_dimensions := opt_u32 v ''output_dimension'',
                    truncate_input := map_option (\<lambda>t. t \<noteq> ''NONE'') (opt_str v ''truncate''),
                    cohere_embedding_types := types\<rparr>))))"

definition cohere_embed_parse_request :: "embed_codec \<Rightarrow> bytes \<Rightarrow> embed_request wire_result" where
  "cohere_embed_parse_request ec body =
     (case parse_object (embed_json ec) body of Inl e \<Rightarrow> Inl e | Inr v \<Rightarrow> cohere_embed_parse_value ec v)"

definition cohere_emit_part :: "embed_part \<Rightarrow> json wire_result" where
  "cohere_emit_part p =
     (case p of
        EmbedText t \<Rightarrow> Inr (JObj [(''type'', JStr ''text''), (''text'', JStr t)])
      | EmbedImage mt d u \<Rightarrow>
          (case image_to_data_uri mt d of
             Inl e \<Rightarrow> Inl e
           | Inr uri \<Rightarrow> Inr (JObj [(''type'', JStr ''image_url''), (''image_url'', JObj [(''url'', JStr uri)])]))
      | EmbedAudio f d \<Rightarrow>
          Inl (InvalidRequest ''cohere_embed has no audio input; route audio to an openai_embed upstream''))"

text \<open>The items of content blocks, which Cohere and Voyage share up to the block.\<close>
definition emit_content_items :: "(embed_part \<Rightarrow> json wire_result) \<Rightarrow> embed_request \<Rightarrow> json list wire_result" where
  "emit_content_items block req =
     collect_results (map (\<lambda>i. case collect_results (map block (parts i)) of
       Inl e \<Rightarrow> Inl e | Inr ps \<Rightarrow> Inr (JObj [(''content'', JArr ps)])) (inputs req))"

definition cohere_embed_emit_value :: "embed_request \<Rightarrow> string \<Rightarrow> json wire_result" where
  "cohere_embed_emit_value req target =
     (case (if all_text req then Inr (''texts'', jtexts req)
            else (case emit_content_items cohere_emit_part req of Inl e \<Rightarrow> Inl e | Inr is \<Rightarrow> Inr (''inputs'', is))) of
        Inl e \<Rightarrow> Inl e
      | Inr (k, is) \<Rightarrow>
          Inr (JObj ((insert_opt ''output_dimension'' (map_option ju32 (output_dimensions req))
            [(''model'', JStr (embed_target req target)),
             (''input_type'', JStr (input_type_to_cohere (input_type req))),
             (k, JArr is), (''embedding_types'', JArr [JStr ''float''])]) @
            (if truncate_input req = Some False then [(''truncate'', JStr ''NONE'')] else []))))"

definition cohere_embed_parse_response :: "embed_codec \<Rightarrow> bytes \<Rightarrow> embed_response wire_result" where
  "cohere_embed_parse_response ec body =
     (case from_slice (embed_json ec) body of Inl e \<Rightarrow> Inl e | Inr v \<Rightarrow>
      (case Option.bind (Option.bind (jget v ''embeddings'') (\<lambda>e. jget e ''float'')) as_array of
         None \<Rightarrow> Inl (MissingField ''embeddings.float'')
       | Some rows \<Rightarrow>
           (let billed = Option.bind (jget v ''meta'') (\<lambda>m. jget m ''billed_units'');
                units = (\<lambda>k. or_zero (Option.bind billed (\<lambda>b. opt_u32 b k)))
            in Inr \<lparr>embed_response_model = unwrap_or_default (opt_str v ''model''),
                    embeddings = map (\<lambda>r. case as_array r of None \<Rightarrow> [] | Some ns \<Rightarrow> vector_of ns) rows,
                    embed_response_usage =
                      \<lparr>embed_input_tokens = units ''input_tokens'' + units ''image_tokens'',
                       image_units = units ''image_tokens''\<rparr>\<rparr>)))"

text \<open>The id of an answer; only informational.\<close>
definition uuid_ish :: "string \<Rightarrow> nat \<Rightarrow> string" where
  "uuid_ish m n = ''emb-'' @ show_nat (length m) @ ''-'' @ show_nat n"

definition cohere_embed_response_value :: "embed_codec \<Rightarrow> embed_response \<Rightarrow> embed_request \<Rightarrow> json" where
  "cohere_embed_response_value ec resp req =
     (let requested = (case cohere_embedding_types req of None \<Rightarrow> [''float''] | Some ts \<Rightarrow> ts) in
      JObj [(''id'', JStr (uuid_ish (embed_response_model resp) (length (embeddings resp)))),
            (''embeddings'', JObj
               ((if ''float'' \<in> set requested then [(''float'', JArr (map jvector (embeddings resp)))] else []) @
                (if ''base64'' \<in> set requested
                 then [(''base64'', JArr (map (\<lambda>e. JStr (f32s_to_base64 ec e)) (embeddings resp)))] else []))),
            (''texts'', JArr []),
            (''meta'', JObj [(''api_version'', JObj [(''version'', JStr ''2'')]),
               (''billed_units'', JObj [(''input_tokens'', ju32 (embed_input_tokens (embed_response_usage resp)))])])])"

section \<open>Voyage\<close>

definition voyage_parse_block :: "embed_codec \<Rightarrow> json \<Rightarrow> embed_part wire_result" where
  "voyage_parse_block ec block =
     (let ty = opt_str block ''type'' in
      if ty = Some ''text'' then Inr (EmbedText (unwrap_or_default (opt_str block ''text'')))
      else if ty = Some ''image_base64'' then
        (case opt_str block ''image_base64'' of
           None \<Rightarrow> Inl (MissingField ''inputs[].content[].image_base64'')
         | Some uri \<Rightarrow>
             (case parse_data_url uri of
                None \<Rightarrow> Inl (InvalidField ''image_base64'' ''expected a data: URI'')
              | Some (mt, d) \<Rightarrow> Inr (EmbedImage (Some mt) (Some d) None)))
      else if ty = Some ''image_url'' then
        (case opt_str block ''image_url'' of
           None \<Rightarrow> Inl (MissingField ''inputs[].content[].image_url'')
         | Some u \<Rightarrow> Inr (EmbedImage None None (Some u)))
      else Inl (InvalidField ''inputs[].content[].type'' (''unknown '' @ debug_text ec ty)))"

definition voyage_embed_parse_value :: "embed_codec \<Rightarrow> json \<Rightarrow> embed_request wire_result" where
  "voyage_embed_parse_value ec v =
     (case opt_arr v ''inputs'' of
        None \<Rightarrow> Inl (MissingField ''inputs'')
      | Some items \<Rightarrow>
          (case collect_results (map (parse_content_item (voyage_parse_block ec)) items) of Inl e \<Rightarrow> Inl e | Inr is \<Rightarrow>
           if is = [] then Inl (InvalidRequest ''inputs must not be empty'') else
           Inr ((plain_embed_request (unwrap_or_default (opt_str v ''model'')) is)
                  \<lparr>input_type := (let t = opt_str v ''input_type'' in
                     if t = Some ''query'' \<or> t = Some ''document'' then t else None),
                   truncate_input := Option.bind (jget v ''truncation'') as_bool,
                   embed_encoding := (if opt_str v ''encoding_format'' = Some ''base64'' then Some Base64Encoding
                     else None)\<rparr>)))"

definition voyage_embed_parse_request :: "embed_codec \<Rightarrow> bytes \<Rightarrow> embed_request wire_result" where
  "voyage_embed_parse_request ec body =
     (case parse_object (embed_json ec) body of Inl e \<Rightarrow> Inl e | Inr v \<Rightarrow> voyage_embed_parse_value ec v)"

definition voyage_emit_part :: "embed_part \<Rightarrow> json wire_result" where
  "voyage_emit_part p =
     (case p of
        EmbedText t \<Rightarrow> Inr (JObj [(''type'', JStr ''text''), (''text'', JStr t)])
      | EmbedImage mt d u \<Rightarrow>
          (case (d, u) of
             (Some x, _) \<Rightarrow>
               (case image_to_data_uri mt d of
                  Inl e \<Rightarrow> Inl e
                | Inr uri \<Rightarrow> Inr (JObj [(''type'', JStr ''image_base64''), (''image_base64'', JStr uri)]))
           | (None, Some u) \<Rightarrow> Inr (JObj [(''type'', JStr ''image_url''), (''image_url'', JStr u)])
           | _ \<Rightarrow> Inl (InvalidField ''inputs[]'' ''image without data or url''))
      | EmbedAudio f d \<Rightarrow>
          Inl (InvalidRequest ''voyage_embed has no audio input; route audio to an openai_embed upstream''))"

definition voyage_embed_emit_value :: "embed_request \<Rightarrow> string \<Rightarrow> json wire_result" where
  "voyage_embed_emit_value req target =
     (case emit_content_items voyage_emit_part req of
        Inl e \<Rightarrow> Inl e
      | Inr is \<Rightarrow>
          Inr (JObj ([(''model'', JStr (embed_target req target)), (''inputs'', JArr is)] @
            (if input_type req = Some ''query'' \<or> input_type req = Some ''document''
             then [(''input_type'', JStr (unwrap_or_default (input_type req)))] else []) @
            (case truncate_input req of None \<Rightarrow> [] | Some t \<Rightarrow> [(''truncation'', JBool t)]))))"

definition voyage_embed_parse_response :: "embed_codec \<Rightarrow> bytes \<Rightarrow> embed_response wire_result" where
  "voyage_embed_parse_response ec body =
     (case from_slice (embed_json ec) body of Inl e \<Rightarrow> Inl e | Inr v \<Rightarrow>
      (case opt_arr v ''data'' of None \<Rightarrow> Inl (MissingField ''data'') | Some items \<Rightarrow>
      (case embed_rows ec items of Inl e \<Rightarrow> Inl e | Inr rows \<Rightarrow>
       (let usage = jget v ''usage'' in
        Inr \<lparr>embed_response_model = unwrap_or_default (opt_str v ''model''), embeddings = rows,
             embed_response_usage =
               \<lparr>embed_input_tokens = or_zero (Option.bind usage (\<lambda>u. case opt_u32 u ''total_tokens'' of
                   Some n \<Rightarrow> Some n | None \<Rightarrow> opt_u32 u ''text_tokens'')),
                image_units = or_zero (Option.bind usage (\<lambda>u. opt_u32 u ''image_pixels''))\<rparr>\<rparr>))))"

definition voyage_embed_response_value :: "embed_codec \<Rightarrow> embed_response \<Rightarrow> embed_request \<Rightarrow> json" where
  "voyage_embed_response_value ec resp req =
     JObj [(''object'', JStr ''list''), (''data'', embed_row_values ec resp req),
           (''model'', JStr (embed_response_model resp)),
           (''usage'', JObj [(''total_tokens'', ju32 (embed_input_tokens (embed_response_usage resp)))])]"

section \<open>Gemini\<close>

text \<open>The text of a part; a part of another kind is passed over, inline or file data is an error.\<close>
definition gemini_text_part :: "json \<Rightarrow> embed_part list wire_result" where
  "gemini_text_part p =
     (case opt_str p ''text'' of
        Some t \<Rightarrow> Inr [EmbedText t]
      | None \<Rightarrow>
          if jget p ''inlineData'' \<noteq> None \<or> jget p ''inline_data'' \<noteq> None \<or>
             jget p ''fileData'' \<noteq> None \<or> jget p ''file_data'' \<noteq> None
          then Inl (InvalidRequest ''gemini embeddings are text-only; image parts are not supported'')
          else Inr [])"

definition gemini_content_to_input :: "json option \<Rightarrow> embed_input wire_result" where
  "gemini_content_to_input c =
     (case Option.bind c (\<lambda>c. opt_arr c ''parts'') of
        None \<Rightarrow> Inl (MissingField ''content.parts'')
      | Some ps \<Rightarrow>
          (case collect_results (map gemini_text_part ps) of
             Inl e \<Rightarrow> Inl e
           | Inr ts \<Rightarrow>
               if concat ts = [] then Inl (InvalidRequest ''content has no text parts'')
               else Inr \<lparr>parts = concat ts\<rparr>))"

definition task_type_of :: "json \<Rightarrow> string option" where
  "task_type_of v =
     (let cfg = (\<lambda>k. Option.bind (jget v ''embedContentConfig'') (\<lambda>c. opt_str c k))
      in Option.bind (or_else (opt_str v ''taskType'') (or_else (cfg ''taskType'') (cfg ''task_type'')))
           gemini_to_input_type)"

definition dims_of :: "json \<Rightarrow> (32 word) option" where
  "dims_of v =
     or_else (opt_u32 v ''outputDimensionality'')
       (Option.bind (jget v ''embedContentConfig'') (\<lambda>c. opt_u32 c ''outputDimensionality''))"

text \<open>The first of a list of requests that gives a value.\<close>
definition first_some :: "('a \<Rightarrow> 'b option) \<Rightarrow> 'a list \<Rightarrow> 'b option" where
  "first_some f xs = foldl (\<lambda>acc x. or_else acc (f x)) None xs"

definition gemini_embed_parse_value :: "json \<Rightarrow> embed_request wire_result" where
  "gemini_embed_parse_value v =
     (case (case opt_arr v ''requests'' of
              Some rs \<Rightarrow>
                (case collect_results (map (\<lambda>r. gemini_content_to_input (jget r ''content'')) rs) of
                   Inl e \<Rightarrow> Inl e
                 | Inr is \<Rightarrow> Inr (is, first_some task_type_of rs, first_some dims_of rs))
            | None \<Rightarrow>
                if jget v ''content'' \<noteq> None then
                  (case gemini_content_to_input (jget v ''content'') of
                     Inl e \<Rightarrow> Inl e | Inr i \<Rightarrow> Inr ([i], task_type_of v, dims_of v))
                else Inl (MissingField ''content (or requests)'')) of
        Inl e \<Rightarrow> Inl e
      | Inr (is, ty, dims) \<Rightarrow>
          if is = [] then Inl (InvalidRequest ''requests must not be empty'')
          else Inr ((plain_embed_request (unwrap_or_default (opt_str v ''model'')) is)
                      \<lparr>input_type := ty, output_dimensions := dims, gemini_batch := opt_bool v ''batch''\<rparr>))"

definition gemini_embed_parse_request :: "embed_codec \<Rightarrow> bytes \<Rightarrow> embed_request wire_result" where
  "gemini_embed_parse_request ec body =
     (case parse_object (embed_json ec) body of Inl e \<Rightarrow> Inl e | Inr v \<Rightarrow> gemini_embed_parse_value v)"

definition gemini_embed_item :: "embed_request \<Rightarrow> string \<Rightarrow> embed_input \<Rightarrow> json wire_result" where
  "gemini_embed_item req target i =
     (if has_image i \<or> has_audio i
      then Inl (InvalidRequest (''gemini_embed is text-only; route image and audio inputs to a multimodal upstream '' @
                  ''(voyage_embed)''))
      else Inr (JObj (insert_opt ''outputDimensionality'' (map_option ju32 (output_dimensions req))
        ([(''model'', JStr (''models/'' @ embed_target req target)),
          (''content'', JObj [(''parts'', JArr (List.map_filter (\<lambda>p. case p of
             EmbedText t \<Rightarrow> Some (JObj [(''text'', JStr t)]) | _ \<Rightarrow> None) (parts i)))])] @
         (case Option.bind (input_type req) input_type_to_gemini of
            None \<Rightarrow> [] | Some tt \<Rightarrow> [(''taskType'', JStr tt)])))))"

definition gemini_embed_emit_value :: "embed_request \<Rightarrow> string \<Rightarrow> json wire_result" where
  "gemini_embed_emit_value req target =
     (case collect_results (map (gemini_embed_item req target) (inputs req)) of
        Inl e \<Rightarrow> Inl e | Inr rs \<Rightarrow> Inr (JObj [(''requests'', JArr rs)]))"

definition values_of :: "json \<Rightarrow> rat list wire_result" where
  "values_of e = (case opt_arr e ''values'' of None \<Rightarrow> Inl (MissingField ''embedding.values'') | Some ns \<Rightarrow> Inr (vector_of ns))"

definition gemini_embed_parse_response :: "embed_codec \<Rightarrow> bytes \<Rightarrow> embed_response wire_result" where
  "gemini_embed_parse_response ec body =
     (case from_slice (embed_json ec) body of Inl e \<Rightarrow> Inl e | Inr v \<Rightarrow>
      (case (case opt_arr v ''embeddings'' of
               Some es \<Rightarrow> collect_results (map values_of es)
             | None \<Rightarrow>
                 (case jget v ''embedding'' of
                    Some e \<Rightarrow> collect_results [values_of e] | None \<Rightarrow> Inl (MissingField ''embeddings''))) of
         Inl e \<Rightarrow> Inl e
       | Inr vs \<Rightarrow>
           Inr \<lparr>embed_response_model = unwrap_or_default (opt_str v ''model''), embeddings = vs,
                embed_response_usage =
                  \<lparr>embed_input_tokens = or_zero (Option.bind (jget v ''usageMetadata'') (\<lambda>u. opt_u32 u ''promptTokenCount'')),
                   image_units = 0\<rparr>\<rparr>))"

definition gemini_embed_response_value :: "embed_response \<Rightarrow> embed_request \<Rightarrow> json wire_result" where
  "gemini_embed_response_value resp req =
     (if gemini_batch req
      then Inr (JObj [(''embeddings'', JArr (map (\<lambda>e. JObj [(''values'', jvector e)]) (embeddings resp)))])
      else (case embeddings resp of
              [e] \<Rightarrow> Inr (JObj [(''embedding'', JObj [(''values'', jvector e)])])
            | es \<Rightarrow> Inl (InvalidRequest (''embedContent expects exactly one embedding, got '' @ show_nat (length es)))))"

section \<open>Ollama\<close>

definition ollama_embed_parse_value :: "json \<Rightarrow> embed_request wire_result" where
  "ollama_embed_parse_value v =
     (case (case jget v ''input'' of
              Some (JStr s) \<Rightarrow> Inr [embed_input_text s]
            | Some (JArr items) \<Rightarrow>
                collect_results (map (\<lambda>i. case as_str i of
                  None \<Rightarrow> Inl (InvalidField ''input[]'' ''not a string'') | Some s \<Rightarrow> Inr (embed_input_text s)) items)
            | _ \<Rightarrow> Inl (MissingField ''input'')) of
        Inl e \<Rightarrow> Inl e
      | Inr is \<Rightarrow>
          if is = [] then Inl (InvalidRequest ''input must not be empty'')
          else Inr ((plain_embed_request (unwrap_or_default (opt_str v ''model'')) is)
                      \<lparr>output_dimensions := opt_u32 v ''dimensions'',
                       truncate_input := Option.bind (jget v ''truncate'') as_bool\<rparr>))"

definition ollama_embed_parse_request :: "embed_codec \<Rightarrow> bytes \<Rightarrow> embed_request wire_result" where
  "ollama_embed_parse_request ec body =
     (case from_slice (embed_json ec) body of Inl e \<Rightarrow> Inl e | Inr v \<Rightarrow> ollama_embed_parse_value v)"

definition ollama_embed_emit_value :: "embed_request \<Rightarrow> string \<Rightarrow> json wire_result" where
  "ollama_embed_emit_value req target =
     (if all_text req
      then Inr (JObj ((insert_opt ''dimensions'' (map_option ju32 (output_dimensions req))
             [(''model'', JStr (embed_target req target)), (''input'', JArr (jtexts req))]) @
             (case truncate_input req of None \<Rightarrow> [] | Some t \<Rightarrow> [(''truncate'', JBool t)])))
      else Inl (InvalidRequest (''ollama_embed is text-only; route image inputs to a multimodal upstream '' @
             ''(voyage_embed)'')))"

definition ollama_embed_parse_response :: "embed_codec \<Rightarrow> bytes \<Rightarrow> embed_response wire_result" where
  "ollama_embed_parse_response ec body =
     (case from_slice (embed_json ec) body of Inl e \<Rightarrow> Inl e | Inr v \<Rightarrow>
      (case opt_arr v ''embeddings'' of None \<Rightarrow> Inl (MissingField ''embeddings'') | Some rows \<Rightarrow>
       Inr \<lparr>embed_response_model = unwrap_or_default (opt_str v ''model''),
            embeddings = map (\<lambda>r. case as_array r of None \<Rightarrow> [] | Some ns \<Rightarrow> vector_of ns) rows,
            embed_response_usage = \<lparr>embed_input_tokens = or_zero (opt_u32 v ''prompt_eval_count''), image_units = 0\<rparr>\<rparr>))"

definition ollama_embed_response_value :: "embed_response \<Rightarrow> json" where
  "ollama_embed_response_value resp =
     JObj [(''model'', JStr (embed_response_model resp)), (''embeddings'', JArr (map jvector (embeddings resp))),
           (''prompt_eval_count'', ju32 (embed_input_tokens (embed_response_usage resp)))]"

section \<open>Dispatch\<close>

fun embed_parse_request :: "embed_codec \<Rightarrow> embed_format \<Rightarrow> bytes \<Rightarrow> embed_request wire_result" where
  "embed_parse_request ec OpenaiEmbed body = openai_embed_parse_request ec body"
| "embed_parse_request ec GeminiEmbed body = gemini_embed_parse_request ec body"
| "embed_parse_request ec CohereEmbed body = cohere_embed_parse_request ec body"
| "embed_parse_request ec VoyageEmbed body = voyage_embed_parse_request ec body"
| "embed_parse_request ec OllamaEmbed body = ollama_embed_parse_request ec body"

fun embed_emit_value :: "embed_format \<Rightarrow> embed_request \<Rightarrow> string \<Rightarrow> json wire_result" where
  "embed_emit_value OpenaiEmbed req target = openai_embed_emit_value req target"
| "embed_emit_value GeminiEmbed req target = gemini_embed_emit_value req target"
| "embed_emit_value CohereEmbed req target = cohere_embed_emit_value req target"
| "embed_emit_value VoyageEmbed req target = voyage_embed_emit_value req target"
| "embed_emit_value OllamaEmbed req target = ollama_embed_emit_value req target"

text \<open>Every emitter ends the same way: the text of the value and one header.\<close>
definition embed_emit_request ::
  "embed_codec \<Rightarrow> embed_format \<Rightarrow> embed_request \<Rightarrow> string \<Rightarrow> emitted_request wire_result" where
  "embed_emit_request ec fmt req target =
     (case embed_emit_value fmt req target of
        Inl e \<Rightarrow> Inl e | Inr v \<Rightarrow> Inr (json_headers_of (embed_json ec) v))"

fun embed_parse_response :: "embed_codec \<Rightarrow> embed_format \<Rightarrow> bytes \<Rightarrow> embed_response wire_result" where
  "embed_parse_response ec OpenaiEmbed body = openai_embed_parse_response ec body"
| "embed_parse_response ec GeminiEmbed body = gemini_embed_parse_response ec body"
| "embed_parse_response ec CohereEmbed body = cohere_embed_parse_response ec body"
| "embed_parse_response ec VoyageEmbed body = voyage_embed_parse_response ec body"
| "embed_parse_response ec OllamaEmbed body = ollama_embed_parse_response ec body"

fun embed_response_value ::
  "embed_codec \<Rightarrow> embed_format \<Rightarrow> embed_response \<Rightarrow> embed_request \<Rightarrow> json wire_result" where
  "embed_response_value ec OpenaiEmbed resp req = Inr (openai_embed_response_value ec resp req)"
| "embed_response_value ec GeminiEmbed resp req = gemini_embed_response_value resp req"
| "embed_response_value ec CohereEmbed resp req = Inr (cohere_embed_response_value ec resp req)"
| "embed_response_value ec VoyageEmbed resp req = Inr (voyage_embed_response_value ec resp req)"
| "embed_response_value ec OllamaEmbed resp req = Inr (ollama_embed_response_value resp)"

definition embed_emit_response ::
  "embed_codec \<Rightarrow> embed_format \<Rightarrow> embed_response \<Rightarrow> embed_request \<Rightarrow> bytes wire_result" where
  "embed_emit_response ec fmt resp req =
     (case embed_response_value ec fmt resp req of
        Inl e \<Rightarrow> Inl e | Inr v \<Rightarrow> Inr (to_string (embed_json ec) v))"

text \<open>The operations the buffered turns take as an argument.\<close>
definition gateway_media_ops ::
  "embed_codec \<Rightarrow> (embed_response \<Rightarrow> bytes) \<Rightarrow> (string \<Rightarrow> bytes option) \<Rightarrow> media_ops" where
  "gateway_media_ops ec vec url_decode =
     \<lparr>parse_embed_request = embed_parse_request ec, emit_embed_request = embed_emit_request ec,
      parse_embed_response = embed_parse_response ec, emit_embed_response = embed_emit_response ec,
      embed_to_vec = vec, media_from_slice = from_slice (embed_json ec),
      media_to_vec = to_string (embed_json ec), b64_decode = url_decode\<rparr>"

section \<open>No part of an input is dropped\<close>

text \<open>A part as a parser makes it: an image is inline or by an http address, with a plain media type.\<close>
fun embed_part_ok :: "embed_part \<Rightarrow> bool" where
  "embed_part_ok (EmbedImage mt (Some d) None) \<longleftrightarrow> (\<forall>m. mt = Some m \<longrightarrow> CHR '','' \<notin> set m)"
| "embed_part_ok (EmbedImage None None (Some u)) \<longleftrightarrow> starts_with u ''http://'' \<or> starts_with u ''https://''"
| "embed_part_ok (EmbedImage _ _ _) = False"
| "embed_part_ok _ = True"

definition embed_request_ok :: "embed_request \<Rightarrow> bool" where
  "embed_request_ok req \<longleftrightarrow> inputs req \<noteq> [] \<and>
     list_all (\<lambda>i. parts i \<noteq> [] \<and> list_all embed_part_ok (parts i)) (inputs req)"

text \<open>The part another parser reads for a part; only an image without a media type gets the default.\<close>
fun kept_part :: "embed_part \<Rightarrow> embed_part" where
  "kept_part (EmbedImage mt (Some d) u) = EmbedImage (Some (case mt of None \<Rightarrow> ''image/png'' | Some m \<Rightarrow> m)) (Some d) u"
| "kept_part p = p"

definition kept_input :: "embed_input \<Rightarrow> embed_input" where
  "kept_input i = \<lparr>parts = map kept_part (parts i)\<rparr>"

text \<open>A list that was written element by element is read element by element.\<close>
lemma collect_read:
  assumes "collect_results (map f xs) = Inr vs" "\<And>x v. x \<in> set xs \<Longrightarrow> f x = Inr v \<Longrightarrow> g v = Inr (h x)"
  shows "collect_results (map g vs) = Inr (map h xs)"
  using assms
proof (induction xs arbitrary: vs)
  case (Cons x xs)
  then obtain v ws where v: "f x = Inr v" "collect_results (map f xs) = Inr ws" "vs = v # ws"
    by (auto split: sum.splits) (cases "f x"; auto split: sum.splits)
  have "collect_results (map g ws) = Inr (map h xs)" using Cons.IH [OF v(2)] Cons.prems(2) by simp
  moreover have "g v = Inr (h x)" using Cons.prems(2) v(1) by simp
  ultimately show ?case using v(3) by simp
qed simp

lemma image_value_http: "starts_with u ''http://'' \<or> starts_with u ''https://'' \<Longrightarrow> parse_image_value u = EmbedImage None None (Some u)"
  by (simp add: parse_image_value_def)

lemma data_url_prefix [simp]:
  "starts_with (build_data_url mt d) ''data:''" "\<not> starts_with (build_data_url mt d) ''http://''"
  "\<not> starts_with (build_data_url mt d) ''https://''"
  by (simp_all add: build_data_url_def starts_with_def Let_def)

lemma http_not_data: "starts_with u ''http://'' \<or> starts_with u ''https://'' \<Longrightarrow> \<not> starts_with u ''data:''"
  by (auto simp: starts_with_iff)

lemma data_url_part:
  "\<forall>m. mt = Some m \<longrightarrow> CHR '','' \<notin> set m \<Longrightarrow>
     parse_data_url (build_data_url mt d) = Some (case mt of None \<Rightarrow> ''image/png'' | Some m \<Rightarrow> m, d)"
  by (cases mt) (simp_all add: parse_build_data_url)

lemma embed_part_cases:
  assumes "embed_part_ok p"
  obtains (words) t where "p = EmbedText t" | (audio) f d where "p = EmbedAudio f d"
    | (inline) mt d where "p = EmbedImage mt (Some d) None"
        "parse_data_url (build_data_url mt d) = Some (case mt of None \<Rightarrow> ''image/png'' | Some m \<Rightarrow> m, d)"
    | (address) u where "p = EmbedImage None None (Some u)" "starts_with u ''http://'' \<or> starts_with u ''https://''"
proof (cases p rule: embed_part_ok.cases)
  case (1 mt d)
  with assms data_url_part [of mt d] show ?thesis using inline by simp
qed (use assms that in auto)

lemma openai_part_read:
  assumes "embed_part_ok p" "openai_content_part p = Inr v"
  shows "openai_parse_part v = Inr (kept_part p)"
  using assms(1)
proof (cases rule: embed_part_cases)
  case (audio f d)
  with assms(2) show ?thesis
    by (cases f) (auto simp: openai_content_part_def openai_parse_part_def wire_simps insert_opt_def)
next
  case (inline mt d)
  have "parse_image_value (build_data_url mt d) = kept_part p"
    using inline by (simp add: parse_image_value_def)
  with inline(1) assms(2) show ?thesis
    by (auto simp: openai_content_part_def openai_parse_part_def wire_simps image_reference_def image_to_data_uri_def)
next
  case (address u)
  with assms(2) show ?thesis
    by (auto simp: openai_content_part_def openai_parse_part_def wire_simps image_reference_def image_value_http)
qed (use assms(2) in \<open>auto simp: openai_content_part_def openai_parse_part_def wire_simps\<close>)

lemma kept_single: "as_single_text i = Some t \<Longrightarrow> kept_input i = embed_input_text t"
  by (auto simp: as_single_text_def kept_input_def embed_input_text_def split: list.splits embed_part.splits)

lemma text_items_read:
  assumes "all_text req"
  shows "collect_results (map (\<lambda>t. case as_str t of None \<Rightarrow> Inl e | Some s \<Rightarrow> Inr (embed_input_text s)) (jtexts req)) =
      Inr (map kept_input (inputs req))"
    and "collect_results (map openai_parse_item (jtexts req)) = Inr (map kept_input (inputs req))"
proof -
  have "embed_input_text (unwrap_or_default (as_single_text i)) = kept_input i" if "i \<in> set (inputs req)" for i
    using assms that kept_single by (auto simp: all_text_def list_all_iff)
  then show "collect_results (map (\<lambda>t. case as_str t of None \<Rightarrow> Inl e | Some s \<Rightarrow> Inr (embed_input_text s)) (jtexts req)) =
      Inr (map kept_input (inputs req))"
    "collect_results (map openai_parse_item (jtexts req)) = Inr (map kept_input (inputs req))"
    unfolding jtexts_def map_map comp_def
    by (auto simp: openai_parse_item_def intro!: collect_results_map_Inr)
qed

lemma openai_item_read:
  assumes "list_all embed_part_ok (parts i)" "parts i \<noteq> []" "openai_content_item i = Inr v"
  shows "openai_parse_item v = Inr (kept_input i)"
proof -
  obtain ps where ps: "collect_results (map openai_content_part (parts i)) = Inr ps" "v = JObj [(''content'', JArr ps)]"
    using assms(3) by (auto simp: openai_content_item_def split: sum.splits)
  from collect_read [OF ps(1), of openai_parse_part kept_part] assms(1) openai_part_read
  have r: "collect_results (map openai_parse_part ps) = Inr (map kept_part (parts i))" by (auto simp: list_all_iff)
  moreover have "ps \<noteq> []" using r assms(2) by auto
  ultimately show ?thesis using ps(2) by (simp add: openai_parse_item_def openai_parse_content_def kept_input_def)
qed

lemma jina_item_read:
  assumes "list_all embed_part_ok (parts i)" "jina_item i = Inr v"
  shows "openai_parse_item v = Inr (kept_input i)"
proof -
  obtain p where p: "parts i = [p]" "embed_part_ok p" using assms
    by (auto simp: jina_item_def split: list.splits embed_part.splits)
  from p(2) show ?thesis
  proof (cases rule: embed_part_cases)
    case (inline mt d)
    have "parse_image_value (build_data_url mt d) = kept_part p"
      using inline by (simp add: parse_image_value_def)
    with inline(1) p assms(2) show ?thesis
      by (auto simp: jina_item_def openai_parse_item_def wire_simps image_reference_def image_to_data_uri_def kept_input_def)
  next
    case (address u)
    with p assms(2) show ?thesis
      by (auto simp: jina_item_def openai_parse_item_def wire_simps image_reference_def image_value_http kept_input_def)
  qed (use p assms(2) in \<open>auto simp: jina_item_def openai_parse_item_def wire_simps kept_input_def embed_input_text_def\<close>)
qed

lemma openai_input_read:
  assumes "embed_request_ok req" "openai_embed_input req = Inr vs"
  shows "collect_results (map openai_parse_item vs) = Inr (map kept_input (inputs req))"
  using assms text_items_read(2) [of req]
    collect_read [of openai_content_item "inputs req" vs openai_parse_item kept_input]
    collect_read [of jina_item "inputs req" vs openai_parse_item kept_input] openai_item_read jina_item_read
  by (auto simp: openai_embed_input_def embed_request_ok_def list_all_iff split: if_splits)

lemma cohere_part_read:
  assumes "embed_part_ok p" "cohere_emit_part p = Inr v"
  shows "cohere_parse_block ec v = Inr (kept_part p)"
  using assms(1)
  by (cases rule: embed_part_cases)
    (use assms(2) in \<open>auto simp: cohere_emit_part_def cohere_parse_block_def wire_simps image_to_data_uri_def
       data_uri_to_part_def Let_def\<close>)

lemma voyage_part_read:
  assumes "embed_part_ok p" "voyage_emit_part p = Inr v"
  shows "voyage_parse_block ec v = Inr (kept_part p)"
  using assms(1)
  by (cases rule: embed_part_cases)
    (use assms(2) in \<open>auto simp: voyage_emit_part_def voyage_parse_block_def wire_simps image_to_data_uri_def Let_def\<close>)

lemma content_items_read:
  assumes "embed_request_ok req" "emit_content_items block req = Inr vs"
    and "\<And>p v. embed_part_ok p \<Longrightarrow> block p = Inr v \<Longrightarrow> parse v = Inr (kept_part p)"
  shows "collect_results (map (parse_content_item parse) vs) = Inr (map kept_input (inputs req))"
proof (rule collect_read [OF assms(2) [unfolded emit_content_items_def]])
  fix i v
  assume i: "i \<in> set (inputs req)" and "(case collect_results (map block (parts i)) of
    Inl e \<Rightarrow> Inl e | Inr ps \<Rightarrow> Inr (JObj [(''content'', JArr ps)])) = Inr v"
  then obtain ps where ps: "collect_results (map block (parts i)) = Inr ps" "v = JObj [(''content'', JArr ps)]"
    by (auto split: sum.splits)
  have ok: "parts i \<noteq> []" "\<forall>p \<in> set (parts i). embed_part_ok p"
    using assms(1) i by (auto simp: embed_request_ok_def list_all_iff)
  from collect_read [OF ps(1), of parse kept_part] ok(2) assms(3)
  have "collect_results (map parse ps) = Inr (map kept_part (parts i))" by blast
  with ps(2) ok(1) show "parse_content_item parse v = Inr (kept_input i)"
    by (simp add: parse_content_item_def wire_simps kept_input_def)
qed

definition gemini_text_value :: "embed_part \<Rightarrow> json option" where
  "gemini_text_value p = (case p of EmbedText t \<Rightarrow> Some (JObj [(''text'', JStr t)]) | _ \<Rightarrow> None)"

lemma gemini_texts_read:
  "list_all (\<lambda>p. \<exists>t. p = EmbedText t) ps \<Longrightarrow>
     \<exists>ts. collect_results (map gemini_text_part (List.map_filter gemini_text_value ps)) = Inr ts \<and> concat ts = ps"
  by (induction ps) (auto simp: map_filter_simps wire_simps gemini_text_value_def gemini_text_part_def)

lemma as_u64_ju32: "as_u64 (ju32 w) = Some (ucast w)" "ucast (ucast w :: 64 word) = (w :: 32 word)"
  using ju32_roundtrip [of w] by (simp_all add: ju32_def)

lemma gemini_item_read:
  assumes "gemini_embed_item req target i = Inr v" "parts i \<noteq> []"
  shows "gemini_content_to_input (jget v ''content'') = Inr (kept_input i)"
    and "dims_of v = output_dimensions req"
proof -
  have t: "\<not> has_image i" "\<not> has_audio i" using assms(1) by (auto simp: gemini_embed_item_def split: if_splits)
  then have texts: "list_all (\<lambda>p. \<exists>t. p = EmbedText t) (parts i)"
    by (auto simp: has_image_def has_audio_def list_ex_iff list_all_iff split: embed_part.splits) (metis embed_part.exhaust)
  then have kept: "map kept_part (parts i) = parts i" by (auto simp: list_all_iff intro!: map_idI)
  from gemini_texts_read [OF texts] assms t show "gemini_content_to_input (jget v ''content'') = Inr (kept_input i)"
    by (auto simp: gemini_embed_item_def gemini_content_to_input_def wire_simps kept_input_def kept
        insert_opt_def gemini_text_value_def [abs_def] split: option.splits)
  from assms(1) t show "dims_of v = output_dimensions req"
    by (cases "output_dimensions req"; cases "Option.bind (input_type req) input_type_to_gemini")
      (auto simp: gemini_embed_item_def dims_of_def insert_opt_def opt_u32_def or_else_def as_u64_ju32)
qed

lemma gemini_requests_read:
  assumes "embed_request_ok req" "collect_results (map (gemini_embed_item req target) (inputs req)) = Inr vs"
  shows "collect_results (map (\<lambda>r. gemini_content_to_input (jget r ''content'')) vs) = Inr (map kept_input (inputs req))"
    and "first_some dims_of vs = output_dimensions req" and "vs \<noteq> []"
proof -
  have ne: "\<forall>i \<in> set (inputs req). parts i \<noteq> []" "inputs req \<noteq> []"
    using assms(1) by (auto simp: embed_request_ok_def list_all_iff)
  show "collect_results (map (\<lambda>r. gemini_content_to_input (jget r ''content'')) vs) = Inr (map kept_input (inputs req))"
    using ne(1) gemini_item_read(1) by (intro collect_read [OF assms(2)]) blast
  then show "vs \<noteq> []" using ne(2) by auto
  moreover have "dims_of v = output_dimensions req" if "v \<in> set vs" for v
    using collect_results_mapD [OF assms(2)] that ne(1) gemini_item_read(2) by blast
  moreover have "foldl (\<lambda>acc x. or_else acc (f x)) d xs = d" if "\<forall>x \<in> set xs. f x = d" for f d and xs :: "json list"
    using that by (induction xs) (auto simp: or_else_def split: option.splits)
  then have "foldl (\<lambda>acc x. or_else acc (dims_of x)) (output_dimensions req) (tl vs) = output_dimensions req"
    if "\<forall>v \<in> set vs. dims_of v = output_dimensions req"
    using that by (cases vs) auto
  ultimately show "first_some dims_of vs = output_dimensions req"
    by (cases vs) (simp_all add: first_some_def or_else_def)
qed

text \<open>What a request says beyond its inputs, as each parser reads it.\<close>
fun embed_parse_value :: "embed_codec \<Rightarrow> embed_format \<Rightarrow> json \<Rightarrow> embed_request wire_result" where
  "embed_parse_value ec OpenaiEmbed v = openai_embed_parse_value v"
| "embed_parse_value ec GeminiEmbed v = gemini_embed_parse_value v"
| "embed_parse_value ec CohereEmbed v = cohere_embed_parse_value ec v"
| "embed_parse_value ec VoyageEmbed v = voyage_embed_parse_value ec v"
| "embed_parse_value ec OllamaEmbed v = ollama_embed_parse_value v"

lemma embed_parse_written:
  assumes "text_ok (embed_json ec) (JObj m)"
  shows "embed_parse_request ec fmt (to_string (embed_json ec) (JObj m)) = embed_parse_value ec fmt (JObj m)"
  using assms by (cases fmt) (simp_all add: openai_embed_parse_request_def gemini_embed_parse_request_def
      cohere_embed_parse_request_def voyage_embed_parse_request_def ollama_embed_parse_request_def
      parse_object_def text_ok_def)

lemma embed_gets [simp]:
  "jget_obj (insert_opt k v m) k' = (if k = k' \<and> v \<noteq> None then v else jget_obj m k')"
  by (auto simp: insert_opt_def split: option.split)

lemma openai_value_read:
  assumes "embed_request_ok req" "openai_embed_emit_value req target = Inr v"
  shows "\<exists>m req'. v = JObj m \<and> openai_embed_parse_value v = Inr req' \<and> inputs req' = map kept_input (inputs req) \<and>
    embed_model req' = embed_target req target \<and> output_dimensions req' = output_dimensions req"
proof -
  obtain vs where vs: "openai_embed_input req = Inr vs" "v = JObj (insert_opt ''dimensions'' (map_option ju32 (output_dimensions req))
      [(''model'', JStr (embed_target req target)), (''input'', JArr vs), (''encoding_format'', JStr ''float'')])"
    using assms(2) by (auto simp: openai_embed_emit_value_def split: sum.splits)
  have "inputs req \<noteq> []" using assms(1) by (simp add: embed_request_ok_def)
  with openai_input_read [OF assms(1) vs(1)] vs(2) show ?thesis
    by (cases "output_dimensions req")
      (simp_all add: openai_embed_parse_value_def openai_parse_input_def opt_str_def opt_u32_def plain_embed_request_def)
qed

lemma cohere_value_read:
  assumes "embed_request_ok req" "cohere_embed_emit_value req target = Inr v"
  shows "\<exists>m req'. v = JObj m \<and> cohere_embed_parse_value ec v = Inr req' \<and> inputs req' = map kept_input (inputs req) \<and>
    embed_model req' = embed_target req target \<and> output_dimensions req' = output_dimensions req"
proof -
  obtain k vs where vs: "v = JObj ((insert_opt ''output_dimension'' (map_option ju32 (output_dimensions req))
      [(''model'', JStr (embed_target req target)),
       (''input_type'', JStr (input_type_to_cohere (input_type req))),
       (k, JArr vs), (''embedding_types'', JArr [JStr ''float''])]) @
      (if truncate_input req = Some False then [(''truncate'', JStr ''NONE'')] else []))"
    and k: "all_text req \<and> k = ''texts'' \<and> vs = jtexts req \<or>
      \<not> all_text req \<and> k = ''inputs'' \<and> emit_content_items cohere_emit_part req = Inr vs"
    using assms(2) by (auto simp: cohere_embed_emit_value_def split: sum.splits if_splits)
  have ne: "inputs req \<noteq> []" using assms(1) by (simp add: embed_request_ok_def)
  have read: "cohere_parse_inputs ec v = Inr (map kept_input (inputs req))"
    using k
  proof
    assume "all_text req \<and> k = ''texts'' \<and> vs = jtexts req"
    with text_items_read(1) [of req] vs show ?thesis
      by (simp add: cohere_parse_inputs_def opt_arr_def jget_obj_append)
  next
    assume "\<not> all_text req \<and> k = ''inputs'' \<and> emit_content_items cohere_emit_part req = Inr vs"
    with content_items_read [OF assms(1) _ cohere_part_read] vs show ?thesis
      by (auto simp: cohere_parse_inputs_def opt_arr_def jget_obj_append)
  qed
  with ne k vs show ?thesis
    by (cases "output_dimensions req"; elim disjE)
      (simp_all add: cohere_embed_parse_value_def opt_str_def opt_u32_def opt_arr_def jget_obj_append
        cohere_type_def plain_embed_request_def)
qed

lemma voyage_value_read:
  assumes "embed_request_ok req" "voyage_embed_emit_value req target = Inr v"
  shows "\<exists>m req'. v = JObj m \<and> voyage_embed_parse_value ec v = Inr req' \<and> inputs req' = map kept_input (inputs req) \<and>
    embed_model req' = embed_target req target"
proof -
  obtain vs where vs: "emit_content_items voyage_emit_part req = Inr vs"
    "v = JObj ([(''model'', JStr (embed_target req target)), (''inputs'', JArr vs)] @
        (if input_type req = Some ''query'' \<or> input_type req = Some ''document''
         then [(''input_type'', JStr (unwrap_or_default (input_type req)))] else []) @
        (case truncate_input req of None \<Rightarrow> [] | Some t \<Rightarrow> [(''truncation'', JBool t)]))"
    using assms(2) by (auto simp: voyage_embed_emit_value_def split: sum.splits)
  have ne: "inputs req \<noteq> []" using assms(1) by (simp add: embed_request_ok_def)
  from content_items_read [OF assms(1) vs(1) voyage_part_read] ne vs(2) show ?thesis
    by (simp add: voyage_embed_parse_value_def opt_arr_def opt_str_def plain_embed_request_def)
qed

lemma gemini_value_read:
  assumes "embed_request_ok req" "gemini_embed_emit_value req target = Inr v"
  shows "\<exists>m req'. v = JObj m \<and> gemini_embed_parse_value v = Inr req' \<and> inputs req' = map kept_input (inputs req) \<and>
    output_dimensions req' = output_dimensions req"
proof -
  obtain vs where vs: "collect_results (map (gemini_embed_item req target) (inputs req)) = Inr vs"
    "v = JObj [(''requests'', JArr vs)]"
    using assms(2) by (auto simp: gemini_embed_emit_value_def split: sum.splits)
  have ne: "inputs req \<noteq> []" using assms(1) by (simp add: embed_request_ok_def)
  from gemini_requests_read [OF assms(1) vs(1)] ne vs(2) show ?thesis
    by (simp add: gemini_embed_parse_value_def wire_simps plain_embed_request_def)
qed

lemma ollama_value_read:
  assumes "embed_request_ok req" "ollama_embed_emit_value req target = Inr v"
  shows "\<exists>m req'. v = JObj m \<and> ollama_embed_parse_value v = Inr req' \<and> inputs req' = map kept_input (inputs req) \<and>
    embed_model req' = embed_target req target \<and> output_dimensions req' = output_dimensions req"
proof -
  have t: "all_text req" "v = JObj ((insert_opt ''dimensions'' (map_option ju32 (output_dimensions req))
       [(''model'', JStr (embed_target req target)), (''input'', JArr (jtexts req))]) @
       (case truncate_input req of None \<Rightarrow> [] | Some t \<Rightarrow> [(''truncate'', JBool t)]))"
    using assms(2) by (auto simp: ollama_embed_emit_value_def split: if_splits)
  have ne: "inputs req \<noteq> []" using assms(1) by (simp add: embed_request_ok_def)
  from text_items_read(1) [OF t(1)] ne t(2) show ?thesis
    by (cases "output_dimensions req"; cases "truncate_input req")
      (simp_all add: ollama_embed_parse_value_def opt_str_def opt_u32_def jget_obj_append plain_embed_request_def)
qed

text \<open>An embedding request either reaches its upstream with every input and every part of it, in order,
  or is refused: no dialect drops an image, a recording or a text it cannot express. The requested
  dimensions are kept by every dialect that has them, and the model is the deployment's.\<close>
theorem embed_inputs_kept_or_refused:
  assumes "embed_request_ok req" and "embed_emit_request ec fmt req target = Inr (b, hs)"
    and "\<And>v. embed_emit_value fmt req target = Inr v \<Longrightarrow> text_ok (embed_json ec) v"
  shows "\<exists>req'. embed_parse_request ec fmt b = Inr req' \<and> inputs req' = map kept_input (inputs req) \<and>
    (fmt \<noteq> VoyageEmbed \<longrightarrow> output_dimensions req' = output_dimensions req) \<and>
    (fmt \<noteq> GeminiEmbed \<longrightarrow> embed_model req' = embed_target req target)"
proof -
  obtain v where v: "embed_emit_value fmt req target = Inr v" "b = to_string (embed_json ec) v"
    using assms(2) by (auto simp: embed_emit_request_def json_headers_of_def split: sum.splits)
  note ok = assms(3) [OF v(1)]
  have "\<exists>m req'. v = JObj m \<and> embed_parse_value ec fmt v = Inr req' \<and> inputs req' = map kept_input (inputs req) \<and>
    (fmt \<noteq> VoyageEmbed \<longrightarrow> output_dimensions req' = output_dimensions req) \<and>
    (fmt \<noteq> GeminiEmbed \<longrightarrow> embed_model req' = embed_target req target)"
    using v(1) openai_value_read [OF assms(1)] cohere_value_read [OF assms(1)] voyage_value_read [OF assms(1)]
      gemini_value_read [OF assms(1)] ollama_value_read [OF assms(1)] by (cases fmt) fastforce+
  with embed_parse_written ok v(2) show ?thesis by metis
qed

text \<open>A request of two inputs, a text and an image, and a codec for what the OpenAI dialect makes of it.\<close>
definition sample_embed_request :: embed_request where
  "sample_embed_request = (plain_embed_request ''m'' [embed_input_text ''a'', \<lparr>parts = [EmbedImage None (Some ''QUJD'') None]\<rparr>])
     \<lparr>output_dimensions := Some 8\<rparr>"

definition sample_embed_codec :: "json list \<Rightarrow> embed_codec" where
  "sample_embed_codec vs =
     \<lparr>embed_json = sample_codec vs, base64_encode = id, base64_decode = Inr,
      f32_to_le_bytes = (\<lambda>q. []), f32_from_le_bytes = (\<lambda>b. 0), debug_text = (\<lambda>x. [])\<rparr>"

theorem embed_inputs_kept_or_refused_witness:
  "\<exists>ec b hs req'. embed_emit_request ec OpenaiEmbed sample_embed_request ''t'' = Inr (b, hs) \<and>
     embed_parse_request ec OpenaiEmbed b = Inr req' \<and>
     map parts (inputs req') = [[EmbedText ''a''], [EmbedImage (Some ''image/png'') (Some ''QUJD'') None]]"
proof -
  obtain v where v: "embed_emit_value OpenaiEmbed sample_embed_request ''t'' = Inr v"
    by (simp add: openai_embed_emit_value_def openai_embed_input_def sample_embed_request_def plain_embed_request_def
        all_text_def as_single_text_def embed_input_text_def has_audio_def jina_item_def image_reference_def
        image_to_data_uri_def)
  let ?ec = "sample_embed_codec [v]"
  have e: "embed_emit_request ?ec OpenaiEmbed sample_embed_request ''t'' =
      Inr (to_string (sample_codec [v]) v, [(''content-type'', ''application/json'')])"
    using v by (simp add: embed_emit_request_def json_headers_of_def sample_embed_codec_def)
  have ok: "embed_request_ok sample_embed_request"
    by (simp add: embed_request_ok_def sample_embed_request_def plain_embed_request_def embed_input_text_def)
  have t: "text_ok (embed_json ?ec) u" if "embed_emit_value OpenaiEmbed sample_embed_request ''t'' = Inr u" for u
    using that v by (simp add: sample_embed_codec_def text_ok_sample)
  from embed_inputs_kept_or_refused [OF ok e t] obtain req' where
    "embed_parse_request ?ec OpenaiEmbed (to_string (sample_codec [v]) v) = Inr req'"
    "inputs req' = map kept_input (inputs sample_embed_request)" by auto
  with e show ?thesis
    by (intro exI conjI) (auto simp: sample_embed_request_def plain_embed_request_def kept_input_def embed_input_text_def)
qed

section \<open>Vectors reach the client\<close>

lemma vector_read [simp]: "vector_of (map jf32 v) = v"
  by (induction v) (simp_all add: vector_of_def jf32_def)

text \<open>What base64 and the bytes of a float are documented to do.\<close>
definition float_bytes_ok :: "embed_codec \<Rightarrow> rat list \<Rightarrow> bool" where
  "float_bytes_ok ec v \<longleftrightarrow> base64_decode ec (base64_encode ec (concat (map (f32_to_le_bytes ec) v))) =
       Inr (concat (map (f32_to_le_bytes ec) v)) \<and>
     (\<forall>f \<in> set v. length (f32_to_le_bytes ec f) = 4 \<and> f32_from_le_bytes ec (f32_to_le_bytes ec f) = f)"

lemma chunks4_bytes:
  "\<forall>f \<in> set v. length (g f) = 4 \<Longrightarrow> chunks4 (concat (map g v)) = map g v \<and> length (concat (map g v)) mod 4 = 0"
proof (induction v)
  case (Cons f v)
  then have "length (g f) = Suc (Suc (Suc (Suc 0)))" by simp
  then obtain a b c d where f: "g f = [a, b, c, d]" by (auto simp only: length_Suc_conv length_0_conv)
  with Cons.IH Cons.prems have "chunks4 (concat (map g v)) = map g v \<and> length (concat (map g v)) mod 4 = 0" by simp
  with f show ?case by (simp add: mod_simps del: length_concat)
qed simp

lemma base64_read: "float_bytes_ok ec v \<Longrightarrow> base64_to_f32s ec (f32s_to_base64 ec v) = Inr v"
  using chunks4_bytes [of v "f32_to_le_bytes ec"]
  by (auto simp: base64_to_f32s_def f32s_to_base64_def float_bytes_ok_def intro!: map_idI)

lemma embed_row_read:
  assumes "base64 \<longrightarrow> float_bytes_ok ec v" "k < 2 ^ 32"
  shows "embed_row ec (pos, embed_row_value ec base64 (k, v)) = Inr (k, v)"
proof -
  have "unat (ucast (of_nat k :: 64 word) :: 32 word) = k"
    using assms(2) by (simp add: unsigned_ucast_eq unsigned_of_nat take_bit_nat_eq_self)
  then show ?thesis
    using assms(1) by (auto simp: embed_row_def embed_row_value_def wire_simps jnat_def jvector_def base64_read)
qed

lemma embed_rows_read:
  assumes "base64 \<longrightarrow> list_all (float_bytes_ok ec) vs" "length vs \<le> 2 ^ 32"
  shows "embed_rows ec (map (embed_row_value ec base64) (enumerate 0 vs)) = Inr vs"
proof -
  have "enumerate n (map (embed_row_value ec base64) (enumerate m vs)) =
      map (\<lambda>(i, p). (i, embed_row_value ec base64 p)) (enumerate n (enumerate m vs))" for n m
    by (induction vs arbitrary: n m) simp_all
  moreover have "map (embed_row ec) (map (\<lambda>(i, p). (i, embed_row_value ec base64 p)) (enumerate 0 (enumerate 0 vs))) =
      map Inr (enumerate 0 vs)"
    unfolding map_map list_eq_iff_nth_eq
    using assms by (auto simp: nth_enumerate_eq embed_row_read list_all_length)
  ultimately have "collect_results (map (embed_row ec) (enumerate 0 (map (embed_row_value ec base64) (enumerate 0 vs)))) =
      Inr (enumerate 0 vs)"
    using collect_results_Inr by metis
  moreover have "sort_key fst (enumerate 0 vs) = enumerate 0 vs"
    by (rule sort_key_id_if_sorted) (simp add: map_fst_enumerate)
  ultimately show ?thesis by (simp add: embed_rows_def)
qed

text \<open>What an answer must be for a client of a dialect to get it: the encodings it asked for can be
  written, and a single Gemini request has a single vector.\<close>
fun embed_answer_ok :: "embed_codec \<Rightarrow> embed_format \<Rightarrow> embed_response \<Rightarrow> embed_request \<Rightarrow> bool" where
  "embed_answer_ok ec GeminiEmbed resp req \<longleftrightarrow> gemini_batch req \<or> length (embeddings resp) = 1"
| "embed_answer_ok ec CohereEmbed resp req \<longleftrightarrow>
     (\<forall>ts. cohere_embedding_types req = Some ts \<longrightarrow> ''float'' \<in> set ts)"
| "embed_answer_ok ec OllamaEmbed resp req \<longleftrightarrow> True"
| "embed_answer_ok ec fmt resp req \<longleftrightarrow> length (embeddings resp) \<le> 2 ^ 32 \<and>
     (embed_encoding req = Some Base64Encoding \<longrightarrow> list_all (float_bytes_ok ec) (embeddings resp))"

lemma row_read [simp]: "(\<lambda>r. case as_array r of None \<Rightarrow> [] | Some ns \<Rightarrow> vector_of ns) \<circ> jvector = id"
  by (rule ext) (simp add: jvector_def)

lemma single_vector: "length es = 1 \<Longrightarrow> \<exists>e. es = [e]"
  by (cases es) auto

text \<open>The vectors an upstream returned reach the client in every dialect, in order and unchanged, as
  numbers or as base64 if the client asked for it; the billed input tokens reach it in every dialect but
  Gemini, which has no usage in its answer.\<close>
theorem embed_answer_survives:
  assumes "embed_answer_ok ec fmt resp req"
    and "\<And>v. embed_response_value ec fmt resp req = Inr v \<Longrightarrow> text_ok (embed_json ec) v"
  shows "\<exists>b resp'. embed_emit_response ec fmt resp req = Inr b \<and> embed_parse_response ec fmt b = Inr resp' \<and>
    embeddings resp' = embeddings resp \<and>
    (fmt \<noteq> GeminiEmbed \<longrightarrow>
      embed_input_tokens (embed_response_usage resp') = embed_input_tokens (embed_response_usage resp))"
proof (cases fmt)
  case OpenaiEmbed
  with assms embed_rows_read [of "embed_encoding req = Some Base64Encoding" ec "embeddings resp"] show ?thesis
    by (simp add: embed_emit_response_def openai_embed_parse_response_def text_ok_def openai_embed_response_value_def
        embed_row_values_def wire_simps or_zero_def Let_def)
next
  case GeminiEmbed
  note defs = embed_emit_response_def gemini_embed_parse_response_def text_ok_def gemini_embed_response_value_def
    values_of_def wire_simps jvector_def
  show ?thesis
  proof (cases "gemini_batch req")
    case True
    have "collect_results (map (values_of \<circ> (\<lambda>e. JObj [(''values'', jvector e)])) es) = Inr es" for es
      by (induction es) (simp_all add: values_of_def wire_simps jvector_def)
    with GeminiEmbed True assms(2) show ?thesis by (simp add: defs)
  next
    case False
    with GeminiEmbed assms(1) obtain e where "embeddings resp = [e]"
      using single_vector [of "embeddings resp"] by auto
    with GeminiEmbed False assms(2) show ?thesis by (simp add: defs)
  qed
next
  case CohereEmbed
  with assms show ?thesis
    by (auto simp: embed_emit_response_def cohere_embed_parse_response_def text_ok_def cohere_embed_response_value_def
        wire_simps or_zero_def Let_def split: option.splits)
next
  case VoyageEmbed
  with assms embed_rows_read [of "embed_encoding req = Some Base64Encoding" ec "embeddings resp"] show ?thesis
    by (simp add: embed_emit_response_def voyage_embed_parse_response_def text_ok_def voyage_embed_response_value_def
        embed_row_values_def wire_simps or_zero_def Let_def)
next
  case OllamaEmbed
  with assms show ?thesis
    by (simp add: embed_emit_response_def ollama_embed_parse_response_def text_ok_def ollama_embed_response_value_def
        wire_simps or_zero_def)
qed

definition sample_embed_response :: embed_response where
  "sample_embed_response =
     \<lparr>embed_response_model = ''m'', embeddings = [[1, 2], [1 / 2, 0]],
      embed_response_usage = \<lparr>embed_input_tokens = 3, image_units = 0\<rparr>\<rparr>"

theorem embed_answer_survives_witness:
  "\<exists>ec b resp'. embed_emit_response ec OpenaiEmbed sample_embed_response sample_embed_request = Inr b \<and>
     embed_parse_response ec OpenaiEmbed b = Inr resp' \<and> embeddings resp' = [[1, 2], [1 / 2, 0]] \<and>
     embed_input_tokens (embed_response_usage resp') = 3"
proof -
  define v where "v = openai_embed_response_value (sample_embed_codec []) sample_embed_response sample_embed_request"
  let ?ec = "sample_embed_codec [v]"
  have f: "embed_encoding sample_embed_request = None"
    by (simp add: sample_embed_request_def plain_embed_request_def)
  have v: "embed_response_value ?ec OpenaiEmbed sample_embed_response sample_embed_request = Inr v"
    by (simp add: v_def openai_embed_response_value_def embed_row_values_def embed_row_value_def [abs_def] f)
  have "embed_answer_ok ?ec OpenaiEmbed sample_embed_response sample_embed_request"
    by (simp add: f sample_embed_response_def)
  from embed_answer_survives [OF this] v show ?thesis
    by (fastforce simp: sample_embed_codec_def text_ok_sample sample_embed_response_def)
qed

end
