(* ===== verification/Health_Check.thy ===== *)
theory Health_Check
  imports Admission
begin

text \<open>
  Health checks and the discovery of an endpoint's models: \<open>crates/yb-gateway/src/health.rs\<close> and
  \<open>Gateway::discover_models\<close> of \<open>service.rs\<close>.

  A check is one call of the upstream client under a time limit: the client's \<open>None\<close> stands here
  for a call that was not answered within the limit. The checks of several deployments run
  concurrently; their reports come in the order of the deployments, and the model makes their
  calls in that order.
\<close>

section \<open>Reports\<close>

definition CHECK_TIMEOUT_SECS :: nat where
  "CHECK_TIMEOUT_SECS = 15"

record health_report =
  rep_deployment_id :: string
  rep_model_name :: string
  rep_provider :: string
  rep_upstream_format :: string
  rep_check :: string
  rep_healthy :: bool
  rep_status :: "16 word option"
  rep_latency_ms :: int
  rep_detail :: "string option"

section \<open>Requests\<close>

definition probe_chat_request :: "string \<Rightarrow> chat_request" where
  "probe_chat_request m =
     chat_request_default\<lparr>model := m, max_tokens := Some 1,
       messages := messages chat_request_default @ [\<lparr>msg_role = UserRole, content = [Text ''ping'']\<rparr>]\<rparr>"

definition probe_embed_request :: "string \<Rightarrow> embed_request" where
  "probe_embed_request m =
     \<lparr>embed_model = m, inputs = [embed_input_text ''ping''], input_type = None, output_dimensions = None,
      truncate_input = None, embed_encoding = None, cohere_embedding_types = None,
      gemini_batch = False, openai_content = False\<rparr>"

fun listing_endpoint :: "upstream_format \<Rightarrow> (string \<times> string \<times> string) option" where
  "listing_endpoint (Chat Anthropic) = Some (''https://api.anthropic.com'', ''v1'', ''models'')"
| "listing_endpoint (Chat OpenaiChat) = Some (''https://api.openai.com'', ''v1'', ''models'')"
| "listing_endpoint (Chat OpenaiResponses) = Some (''https://api.openai.com'', ''v1'', ''models'')"
| "listing_endpoint (Embed OpenaiEmbed) = Some (''https://api.openai.com'', ''v1'', ''models'')"
| "listing_endpoint (Media _) = Some (''https://api.openai.com'', ''v1'', ''models'')"
| "listing_endpoint (Chat Gemini) =
     Some (''https://generativelanguage.googleapis.com'', ''v1beta'', ''models'')"
| "listing_endpoint (Embed GeminiEmbed) =
     Some (''https://generativelanguage.googleapis.com'', ''v1beta'', ''models'')"
| "listing_endpoint (Embed CohereEmbed) = Some (''https://api.cohere.com'', ''v1'', ''models'')"
| "listing_endpoint (Embed OllamaEmbed) = Some (''http://localhost:11434'', ''api'', ''tags'')"
| "listing_endpoint (Embed VoyageEmbed) = None"

definition models_list_url_for :: "upstream_format \<Rightarrow> string option \<Rightarrow> string + string" where
  "models_list_url_for fmt base =
     (case listing_endpoint fmt of
        None \<Rightarrow> Inl ''voyage has no model-listing endpoint; use http_ok or probe''
      | Some (default_base, version, endpoint) \<Rightarrow>
          (let base = (case base of None \<Rightarrow> default_base | Some b \<Rightarrow> b);
               base = (case strip_suffix base ''/'' of None \<Rightarrow> base | Some b \<Rightarrow> b)
           in Inr (if base = version \<or> ends_with base (''/'' @ version) then base @ ''/'' @ endpoint
                   else base @ ''/'' @ version @ ''/'' @ endpoint)))"

definition models_list_url :: "deployment \<Rightarrow> string + string" where
  "models_list_url d = models_list_url_for (upstream_format d) (api_base d)"

text \<open>Scheme, host and port of a URL: everything before the first slash after the scheme.\<close>
definition origin_of :: "string \<Rightarrow> string" where
  "origin_of u =
     (let plain = (case strip_suffix u ''/'' of None \<Rightarrow> u | Some b \<Rightarrow> b)
      in case find_str u ''://'' of
           None \<Rightarrow> plain
         | Some i \<Rightarrow>
             (case find_str (drop (i + 3) u) ''/'' of
                None \<Rightarrow> plain | Some slash \<Rightarrow> take (i + 3 + slash) u))"

fun format_auth :: "environment \<Rightarrow> upstream_format \<Rightarrow> string \<Rightarrow> header_list" where
  "format_auth env (Chat f) key = auth_headers env f key"
| "format_auth env (Embed f) key = embed_auth_headers env f key"
| "format_auth env (Media _) key = media_auth_headers env key"

definition get_request :: "string \<Rightarrow> header_list \<Rightarrow> upstream_request" where
  "get_request u hs = \<lparr>url = u, http_method = Get, req_headers = hs, req_body = [], req_stream = False\<rparr>"

text \<open>What a probe sends: the address, the body and the headers of the dialect.\<close>
definition probe_call ::
  "('c, 'd, 'e) gateway \<Rightarrow> media_ops \<Rightarrow> deployment \<Rightarrow> string + (string \<times> bytes \<times> header_list)" where
  "probe_call g x d =
     (case upstream_format d of
        Chat f \<Rightarrow>
          (case emit_request (wire g) f (probe_chat_request (upstream_model d))
              \<lparr>target_model = upstream_model d, force_reasoning_effort = None, emit_stream = False\<rparr> of
             Inl e \<Rightarrow> Inl (''probe emit: '' @ wire_error_text e)
           | Inr (body, hs) \<Rightarrow> Inr (build_url f (api_base d) (upstream_model d) False, body, hs))
      | Embed f \<Rightarrow>
          (case emit_embed_request x f (probe_embed_request (upstream_model d)) (upstream_model d) of
             Inl e \<Rightarrow> Inl (''probe emit: '' @ wire_error_text e)
           | Inr (body, hs) \<Rightarrow> Inr (build_embed_url f (api_base d) (upstream_model d), body, hs))
      | Media f \<Rightarrow>
          Inl (''a probe check is not available for '' @ media_format_as_str f @
            '' deployments; use http_ok or models_list''))"

definition http_ok_url :: "deployment \<Rightarrow> string + string" where
  "http_ok_url d =
     (let joined = (case api_base d of
            None \<Rightarrow> Inl ''http_ok needs api_base or an absolute health_path''
          | Some base \<Rightarrow> Inr (origin_of base @ (case health_path d of None \<Rightarrow> ''/'' | Some p \<Rightarrow> p)))
      in case health_path d of
           Some p \<Rightarrow> if starts_with p ''http://'' \<or> starts_with p ''https://'' then Inr p else joined
         | None \<Rightarrow> joined)"

definition build_check_request ::
  "('c, 'd, 'e) gateway \<Rightarrow> media_ops \<Rightarrow> deployment \<Rightarrow> header_list \<Rightarrow> string + upstream_request option" where
  "build_check_request g x d ex =
     (let auth = append_headers (format_auth (environ g) (upstream_format d) (own_key d)) ex
      in case health_check d of
           HealthNone \<Rightarrow> Inr None
         | HttpOk \<Rightarrow> (case http_ok_url d of Inl e \<Rightarrow> Inl e | Inr u \<Rightarrow> Inr (Some (get_request u auth)))
         | ModelsList \<Rightarrow> (case models_list_url d of Inl e \<Rightarrow> Inl e | Inr u \<Rightarrow> Inr (Some (get_request u auth)))
         | Probe \<Rightarrow>
             (case probe_call g x d of
                Inl e \<Rightarrow> Inl e
              | Inr (u, body, hs) \<Rightarrow>
                  Inr (Some \<lparr>url = u, http_method = Post, req_headers = hs @ auth, req_body = body,
                             req_stream = False\<rparr>)))"

section \<open>Checks\<close>

definition report_new :: "deployment_record \<Rightarrow> health_report" where
  "report_new d =
     \<lparr>rep_deployment_id = record_id d, rep_model_name = model_name d, rep_provider = provider d,
      rep_upstream_format = upstream_format_as_str (upstream_format d),
      rep_check = health_check_as_str (health_check d), rep_healthy = False, rep_status = None,
      rep_latency_ms = 0, rep_detail = None\<rparr>"

text \<open>How an answer of the upstream, or its absence, is reported.\<close>
definition report_answer ::
  "(duration \<Rightarrow> string) \<Rightarrow> upstream_response result option \<Rightarrow> health_report \<Rightarrow> health_report" where
  "report_answer dd res r =
     (case res of
        Some (Inr resp) \<Rightarrow>
          (let ok = is_success (resp_status resp)
           in r\<lparr>rep_status := Some (resp_status resp), rep_healthy := ok,
                rep_detail := if ok then rep_detail r
                  else Some (take_chars 300 (read_body_message (resp_body resp)))\<rparr>)
      | Some (Inl e) \<Rightarrow> r\<lparr>rep_detail := Some (''transport: '' @ error_display dd e)\<rparr>
      | None \<Rightarrow> r\<lparr>rep_detail := Some (''timed out after '' @ show_nat CHECK_TIMEOUT_SECS @ ''s'')\<rparr>)"

definition check_deployment ::
  "('c, 'd, 'e) app_config \<Rightarrow> deployment_record \<Rightarrow> 'c world \<Rightarrow> health_report \<times> 'c world" where
  "check_deployment cfg d w =
     (let g = app_gateway cfg;
          (started, w) = read_instant g w;
          r = report_new d
      in case build_check_request g (app_media cfg) (to_deployment d) (extra_headers (cf_access g) (extra d)) of
           Inr None \<Rightarrow> (r\<lparr>rep_healthy := True, rep_detail := Some ''no health check configured''\<rparr>, w)
         | Inl detail \<Rightarrow> (r\<lparr>rep_detail := Some detail\<rparr>, w)
         | Inr (Some u) \<Rightarrow>
             (let (res, w) = call_upstream g (to_deployment d) u w;
                  (ended, w) = read_instant g w
              in ((report_answer (duration_debug cfg) res r)\<lparr>rep_latency_ms := millis_between started ended\<rparr>, w)))"

definition probe_deployment ::
  "('c, 'd, 'e) app_config \<Rightarrow> deployment_record \<Rightarrow> 'c world \<Rightarrow> health_report \<times> 'c world" where
  "probe_deployment cfg d w = check_deployment cfg (d\<lparr>health_check := Probe\<rparr>) w"

fun check_deployments ::
  "('c, 'd, 'e) app_config \<Rightarrow> deployment_record list \<Rightarrow> 'c world \<Rightarrow> health_report list \<times> 'c world" where
  "check_deployments cfg [] w = ([], w)"
| "check_deployments cfg (d # ds) w =
     (let (r, w) = check_deployment cfg d w; (rs, w) = check_deployments cfg ds w in (r # rs, w))"

section \<open>Discovery\<close>

fun listing_keys :: "upstream_format \<Rightarrow> string \<times> string" where
  "listing_keys (Chat Gemini) = (''models'', ''name'')"
| "listing_keys (Embed GeminiEmbed) = (''models'', ''name'')"
| "listing_keys (Embed CohereEmbed) = (''models'', ''name'')"
| "listing_keys (Embed OllamaEmbed) = (''models'', ''name'')"
| "listing_keys _ = (''data'', ''id'')"

definition listed_id :: "string \<Rightarrow> json \<Rightarrow> string option" where
  "listed_id field item =
     (case Option.bind (jget item field) as_str of
        None \<Rightarrow> None
      | Some i \<Rightarrow> Some (case strip_prefix i ''models/'' of None \<Rightarrow> i | Some b \<Rightarrow> b))"

definition parse_models_list :: "(bytes \<Rightarrow> string + json) \<Rightarrow> upstream_format \<Rightarrow> bytes \<Rightarrow> string + string list" where
  "parse_models_list json_of fmt body =
     (case json_of body of
        Inl e \<Rightarrow> Inl (''upstream returned invalid JSON: '' @ e)
      | Inr v \<Rightarrow>
          (let (key, field) = listing_keys fmt
           in case Option.bind (jget v key) as_array of
                None \<Rightarrow> Inl (''upstream response has no `'' @ key @ ''` array'')
              | Some items \<Rightarrow> Inr (remdups_adj (sort (List.map_filter (listed_id field) items)))))"

text \<open>The call carries no deployment: the one in the log of calls stands for the endpoint.\<close>
definition endpoint_of :: "string option \<Rightarrow> string option \<Rightarrow> extra \<Rightarrow> upstream_format \<Rightarrow> string \<Rightarrow> deployment" where
  "endpoint_of base key ex fmt label =
     \<lparr>model_id = [], model_name = label, provider_id = [], provider = label, upstream_model = [],
      api_base = base, api_key = key, upstream_format = fmt, weight = 0, pricing = None,
      health_check = ModelsList, health_path = None, extra = ex\<rparr>"

definition discover_models ::
  "('c, 'd, 'e) app_config \<Rightarrow> string option \<Rightarrow> string option \<Rightarrow> extra \<Rightarrow> upstream_format \<Rightarrow> string \<Rightarrow> 'c world \<Rightarrow>
   string list result outcome \<times> 'c world" where
  "discover_models cfg base key ex fmt label w =
     (let g = app_gateway cfg
      in case models_list_url_for fmt base of
           Inl m \<Rightarrow> (Returned (Inl (BadRequest m)), w)
         | Inr u \<Rightarrow>
             (let hs = append_headers (format_auth (environ g) fmt (case key of None \<Rightarrow> [] | Some k \<Rightarrow> k))
                         (extra_headers (cf_access g) ex);
                  failed = (\<lambda>st m. Returned (Inl (Upstream label st m)));
                  (res, w) = call_upstream g (endpoint_of base key ex fmt label) (get_request u hs) w
              in case res of
                   None \<Rightarrow> (Cancelled, w)
                 | Some (Inl e) \<Rightarrow>
                     (failed 502 (''model discovery failed: '' @ error_display (duration_debug cfg) e), w)
                 | Some (Inr resp) \<Rightarrow>
                     (case resp_body resp of
                        StreamBody _ \<Rightarrow> (failed 502 ''model discovery got a streaming response'', w)
                      | FullBody body \<Rightarrow>
                          if \<not> is_success (resp_status resp)
                          then (failed (resp_status resp) (trim (take_chars 200 (from_utf8_lossy body))), w)
                          else (case parse_models_list (json_from_slice cfg) fmt body of
                                  Inl m \<Rightarrow> (failed 502 m, w)
                                | Inr ids \<Rightarrow> (Returned (Inr ids), w)))))"

section \<open>Lemmas\<close>

lemma sends_call_upstream:
  "call_upstream g d u w = (res, w') \<Longrightarrow>
     sends w' = sends w @ [(d, u)] \<and> router w' = router w \<and> res = fst (send g (client w) u)"
  by (auto simp: call_upstream_def sends_def emit_def split: prod.splits)

lemma check_deployment_cases:
  assumes "check_deployment cfg d w = (r, w')"
  obtains (idle) "build_check_request (app_gateway cfg) (app_media cfg) (to_deployment d)
        (extra_headers (cf_access (app_gateway cfg)) (extra d)) = Inr None"
      "r = (report_new d)\<lparr>rep_healthy := True, rep_detail := Some ''no health check configured''\<rparr>"
      "sends w' = sends w" "router w' = router w"
  | (misconfigured) m where "build_check_request (app_gateway cfg) (app_media cfg) (to_deployment d)
        (extra_headers (cf_access (app_gateway cfg)) (extra d)) = Inl m"
      "r = (report_new d)\<lparr>rep_detail := Some m\<rparr>" "sends w' = sends w" "router w' = router w"
  | (asked) u n where "build_check_request (app_gateway cfg) (app_media cfg) (to_deployment d)
        (extra_headers (cf_access (app_gateway cfg)) (extra d)) = Inr (Some u)"
      "r = (report_answer (duration_debug cfg) (fst (send (app_gateway cfg) (client w) u)) (report_new d))
             \<lparr>rep_latency_ms := n\<rparr>" "0 \<le> n"
      "sends w' = sends w @ [(to_deployment d, u)]" "router w' = router w"
proof -
  let ?g = "app_gateway cfg"
  let ?req = "build_check_request ?g (app_media cfg) (to_deployment d) (extra_headers (cf_access ?g) (extra d))"
  let ?w1 = "w\<lparr>tick := tick w + 1\<rparr>"
  have w1: "read_instant ?g w = (instant ?g (tick w), ?w1)" "sends ?w1 = sends w" "router ?w1 = router w"
      "client ?w1 = client w"
    by (simp_all add: read_instant_def sends_def)
  show thesis
  proof (cases ?req)
    case (Inl m)
    with assms show thesis by (intro misconfigured) (auto simp: check_deployment_def w1)
  next
    case (Inr q)
    show thesis
    proof (cases q)
      case None
      with assms Inr show thesis by (intro idle) (auto simp: check_deployment_def w1)
    next
      case (Some u)
      obtain res w2 where c: "call_upstream ?g (to_deployment d) u ?w1 = (res, w2)" by force
      have "w' = w2\<lparr>tick := tick w2 + 1\<rparr>" "\<exists>n \<ge> 0. r =
          (report_answer (duration_debug cfg) res (report_new d))\<lparr>rep_latency_ms := n\<rparr>"
        using assms Inr Some c
        by (auto simp: check_deployment_def w1 read_instant_def Let_def millis_between_def
            intro!: exI [of _ "max (instant ?g (tick w2) - instant ?g (tick w)) 0 div 1000000"])
      moreover have "sends (w2\<lparr>tick := tick w2 + 1\<rparr>) = sends w2" by (simp add: sends_def)
      ultimately show thesis using sends_call_upstream [OF c] w1 Inr Some by (auto intro: asked)
    qed
  qed
qed

lemma build_check_request_None:
  "build_check_request g x d ex = Inr None \<longleftrightarrow> health_check d = HealthNone"
  by (auto simp: build_check_request_def Let_def split: health_check.splits sum.splits)

lemma build_check_request_something:
  "build_check_request g x (to_deployment d) ex = Inl m \<Longrightarrow> health_check d \<noteq> HealthNone"
  "build_check_request g x (to_deployment d) ex = Inr (Some u) \<Longrightarrow> health_check d \<noteq> HealthNone"
  using build_check_request_None [of g x "to_deployment d" ex] by (auto simp: to_deployment_def)

lemma build_check_request_auth:
  assumes "build_check_request g x d ex = Inr (Some u)" "h \<in> set (format_auth (environ g) (upstream_format d) (own_key d))"
  shows "h \<in> set (req_headers u)"
proof -
  have "set hs \<subseteq> set (append_headers hs es)" for hs es
    by (induction hs es rule: append_headers.induct) (auto simp: Let_def)
  with assms show ?thesis
    by (fastforce simp: build_check_request_def get_request_def Let_def split: health_check.splits sum.splits)
qed

lemma check_of_to_deployment [simp]: "health_check (to_deployment d) = health_check d"
    "upstream_format (to_deployment d) = upstream_format d"
  by (simp_all add: to_deployment_def)

section \<open>Properties\<close>

text \<open>A health report says healthy exactly when no check is configured or the one call of the
  check was answered with success. A check calls nothing but its own deployment, at most once and
  with the deployment's own credential; an unhealthy report always says why; the routing table is
  left alone.\<close>
theorem health_report_exact:
  assumes "check_deployment cfg d w = (r, w')"
  shows "(rep_healthy r \<longleftrightarrow> health_check d = HealthNone \<or>
      (\<exists>u resp c. sends w' = sends w @ [(to_deployment d, u)] \<and>
         send (app_gateway cfg) (client w) u = (Some (Inr resp), c) \<and> is_success (resp_status resp) \<and>
         rep_status r = Some (resp_status resp))) \<and>
    (sends w' = sends w \<or>
      (\<exists>u. sends w' = sends w @ [(to_deployment d, u)] \<and>
         set (format_auth (environ (app_gateway cfg)) (upstream_format d) (own_key (to_deployment d)))
           \<subseteq> set (req_headers u))) \<and>
    (\<not> rep_healthy r \<longrightarrow> rep_detail r \<noteq> None) \<and>
    rep_deployment_id r = record_id d \<and> 0 \<le> rep_latency_ms r \<and> router w' = router w"
  using assms
proof (cases rule: check_deployment_cases)
  case idle
  then have "health_check d = HealthNone" by (simp add: build_check_request_None)
  with idle show ?thesis by (simp add: report_new_def)
next
  case (misconfigured m)
  with build_check_request_something(1) have "health_check d \<noteq> HealthNone" by blast
  with misconfigured show ?thesis by (simp add: report_new_def)
next
  case (asked u n)
  with build_check_request_something(2) have "health_check d \<noteq> HealthNone" by blast
  moreover have "set (format_auth (environ (app_gateway cfg)) (upstream_format d) (own_key (to_deployment d)))
      \<subseteq> set (req_headers u)"
    using build_check_request_auth [OF asked(1)] by auto
  moreover obtain res c where s: "send (app_gateway cfg) (client w) u = (res, c)" by force
  ultimately show ?thesis using asked
    by (auto simp: report_new_def report_answer_def Let_def split: option.splits sum.splits)
qed

definition sample_checked :: deployment_record where
  "sample_checked =
     \<lparr>model_id = ''m'', model_name = ''gpt'', provider_id = ''p'', provider = ''acme'', upstream_model = ''gpt'',
      api_base = Some ''http://h:80/v1'', api_key = Some ''k'', upstream_format = Chat OpenaiChat, weight = 1,
      pricing = None, health_check = ModelsList, health_path = None, extra = extra_default,
      record_id = ''d'', created_at = 0, updated_at = 0, deleted_at = None\<rparr>"

definition answering_config :: "16 word \<Rightarrow> (script, unit, unit) app_config" where
  "answering_config st =
     sample_config\<lparr>app_gateway := sample_gateway\<lparr>send :=
       (\<lambda>c u. (Some (Inr \<lparr>resp_status = st, resp_headers = [], resp_body = FullBody ''no''\<rparr>), c))\<rparr>\<rparr>"

lemma sample_check_values:
  "rep_healthy (fst (check_deployment (answering_config 204) sample_checked (sample_world sample_script)))"
  "\<not> rep_healthy (fst (check_deployment (answering_config 503) sample_checked (sample_world sample_script)))"
  by code_simp+

theorem health_report_exact_witness:
  "\<exists>u. sends (snd (check_deployment (answering_config 204) sample_checked (sample_world sample_script))) =
       sends (sample_world sample_script) @ [(to_deployment sample_checked, u)] \<and>
     rep_detail (fst (check_deployment (answering_config 503) sample_checked (sample_world sample_script))) \<noteq> None"
  using health_report_exact [of "answering_config 204" sample_checked "sample_world sample_script", OF surjective_pairing]
    health_report_exact [of "answering_config 503" sample_checked "sample_world sample_script", OF surjective_pairing]
    sample_check_values
  by (auto simp: sample_checked_def)

text \<open>What discovery reads from a listing: every id of the items that carry one, without the prefix
  of Gemini, sorted and once; a reply without the list is an error and never an empty list.\<close>
theorem discovery_reads_listing:
  assumes "parse_models_list json_of fmt body = Inr ids"
  shows "sorted ids \<and> distinct ids \<and>
    (\<exists>v items. json_of body = Inr v \<and> jget v (fst (listing_keys fmt)) = Some (JArr items) \<and>
       set ids = {i. \<exists>item \<in> set items. listed_id (snd (listing_keys fmt)) item = Some i})"
proof -
  obtain v items where v: "json_of body = Inr v" "jget v (fst (listing_keys fmt)) = Some (JArr items)"
    "ids = remdups_adj (sort (List.map_filter (listed_id (snd (listing_keys fmt))) items))"
    using assms
    by (auto simp: parse_models_list_def Let_def split: sum.splits prod.splits option.splits
        Option.bind_splits elim!: as_array.elims)
  moreover have "sorted ids" "distinct ids" using v(3)
    by (auto simp: sorted_remdups_adj sorted_distinct_remdups_adj)
  moreover have "set ids = {i. \<exists>item \<in> set items. listed_id (snd (listing_keys fmt)) item = Some i}"
    using v(3) by (auto simp: List.map_filter_def image_iff) (metis option.sel)+
  ultimately show ?thesis by blast
qed

end
