(* ===== verification/Admin_Views.thy ===== *)
theory Admin_Views
  imports Health_Check
begin

text \<open>
  What the admin API shows of the rows of the store: the JSON forms that \<open>serde\<close> derives for the
  types of \<open>crates/yb-core\<close> (\<open>model.rs\<close>, \<open>routing.rs\<close>, \<open>spend.rs\<close>, \<open>capture.rs\<close>), in field
  order, with the fields marked \<open>skip_serializing\<close> left out; a whole number that is a float is
  written as a float. The text of a time is chrono's and an argument.
\<close>

type_synonym time_text = "timestamp \<Rightarrow> string"

section \<open>Values\<close>

text \<open>An \<open>i64\<close> as a JSON number, and the reading of one (\<open>Value::as_i64\<close>).\<close>
definition jint :: "int \<Rightarrow> json" where
  "jint n = (if n < 0 then JNum (NegInt n) else JNum (PosInt (word_of_int n)))"

fun as_i64 :: "json \<Rightarrow> int option" where
  "as_i64 (JNum (PosInt n)) = (if uint n < 2 ^ 63 then Some (uint n) else None)"
| "as_i64 (JNum (NegInt n)) = Some n"
| "as_i64 _ = None"

definition jopt :: "('a \<Rightarrow> json) \<Rightarrow> 'a option \<Rightarrow> json" where
  "jopt f x = (case x of None \<Rightarrow> JNull | Some v \<Rightarrow> f v)"

definition jstrs :: "string list \<Rightarrow> json" where
  "jstrs xs = JArr (map JStr xs)"

definition jtime :: "time_text \<Rightarrow> timestamp \<Rightarrow> json" where
  "jtime tt t = JStr (tt t)"

section \<open>Rows\<close>

definition access_json :: "access_policy \<Rightarrow> json" where
  "access_json p =
     JObj [(''allowed_model_ids'', jstrs (allowed_model_ids p)),
           (''denied_model_ids'', jstrs (denied_model_ids p)),
           (''allowed_provider_ids'', jstrs (allowed_provider_ids p)),
           (''denied_provider_ids'', jstrs (denied_provider_ids p))]"

text \<open>The hash of the token is never serialized.\<close>
definition key_json :: "time_text \<Rightarrow> api_key \<Rightarrow> json" where
  "key_json tt k =
     JObj [(''id'', JStr (key_id k)), (''owner_user_id'', JStr (owner_user_id k)),
           (''team_id'', jopt JStr (team_id k)), (''key_prefix'', JStr (key_prefix k)),
           (''key_suffix'', JStr (key_suffix k)), (''name'', jopt JStr (key_name k)),
           (''scopes'', jstrs (map scope_as_str (scopes k))), (''access'', access_json (access k)),
           (''rpm_limit'', jopt jint (rpm_limit k)), (''tpm_limit'', jopt jint (tpm_limit k)),
           (''max_concurrent'', jopt jint (key_max_concurrent k)),
           (''created_at'', jtime tt (key_created_at k)),
           (''last_used_at'', jopt (jtime tt) (last_used_at k)),
           (''deleted_at'', jopt (jtime tt) (key_deleted_at k))]"

definition team_json :: "time_text \<Rightarrow> team \<Rightarrow> json" where
  "team_json tt t =
     JObj [(''id'', JStr (tm_id t)), (''name'', JStr (tm_name t)), (''access'', access_json (tm_access t)),
           (''created_at'', jtime tt (tm_created_at t)), (''updated_at'', jtime tt (tm_updated_at t)),
           (''deleted_at'', jopt (jtime tt) (tm_deleted_at t)), (''created_by'', jopt JStr (tm_created_by t))]"

definition membership_json :: "time_text \<Rightarrow> team_membership \<Rightarrow> json" where
  "membership_json tt m =
     JObj [(''id'', JStr (mb_id m)), (''team_id'', JStr (mb_team_id m)), (''user_id'', JStr (mb_user_id m)),
           (''created_at'', jtime tt (mb_created_at m))]"

definition model_json :: "time_text \<Rightarrow> model_record \<Rightarrow> json" where
  "model_json tt m =
     JObj [(''id'', JStr (md_id m)), (''name'', JStr (md_name m)),
           (''created_at'', jtime tt (md_created_at m)), (''updated_at'', jtime tt (md_updated_at m))]"

definition alias_json :: "time_text \<Rightarrow> model_alias \<Rightarrow> json" where
  "alias_json tt a =
     JObj [(''alias'', JStr (alias_name a)), (''model_id'', JStr (alias_model_id a)),
           (''target'', JStr (alias_target a)), (''created_at'', jtime tt (alias_created_at a))]"

definition price_json :: "model_price \<Rightarrow> json" where
  "price_json p =
     JObj [(''input_per_1m'', JNum (Float (input_per_1m p))), (''output_per_1m'', JNum (Float (output_per_1m p))),
           (''cache_read_multiplier'', JNum (Float (cache_read_multiplier p))),
           (''cache_write_multiplier'', JNum (Float (cache_write_multiplier p)))]"

text \<open>The unknown keys are flattened after the known ones.\<close>
definition extra_json :: "extra \<Rightarrow> json" where
  "extra_json e =
     JObj ([(''cloudflare_access'', JBool (cloudflare_access e)),
            (''headers'', JObj (map (\<lambda>(k, v). (k, JStr v)) (headers e)))] @
           (if vision e then [(''vision'', JBool True)] else []) @ extra.rest e)"

text \<open>The credential joined from the provider is never serialized.\<close>
definition deployment_json :: "time_text \<Rightarrow> deployment_record \<Rightarrow> json" where
  "deployment_json tt d =
     JObj [(''id'', JStr (record_id d)), (''model_id'', JStr (model_id d)), (''model_name'', JStr (model_name d)),
           (''provider_id'', JStr (provider_id d)), (''provider'', JStr (provider d)),
           (''upstream_model'', JStr (upstream_model d)), (''api_base'', jopt JStr (api_base d)),
           (''upstream_format'', JStr (upstream_format_as_str (upstream_format d))),
           (''weight'', ju32 (weight d)), (''pricing'', jopt price_json (pricing d)),
           (''health_check'', JStr (health_check_as_str (health_check d))),
           (''health_path'', jopt JStr (health_path d)), (''extra'', extra_json (extra d)),
           (''created_at'', jtime tt (created_at d)), (''updated_at'', jtime tt (updated_at d)),
           (''deleted_at'', jopt (jtime tt) (deleted_at d))]"

definition health_json :: "time_text \<Rightarrow> health_record \<Rightarrow> json" where
  "health_json tt h =
     JObj [(''deployment_id'', JStr (hr_deployment_id h)), (''healthy'', JBool (healthy h)),
           (''check_kind'', JStr (check_kind h)), (''status'', jopt (\<lambda>s. jint (uint s)) (hr_status h)),
           (''latency_ms'', jint (hr_latency_ms h)), (''detail'', jopt JStr (hr_detail h)),
           (''checked_at'', jtime tt (checked_at h))]"

text \<open>A report leaves an absent status or detail out.\<close>
definition report_json :: "health_report \<Rightarrow> json" where
  "report_json r =
     JObj ([(''deployment_id'', JStr (rep_deployment_id r)), (''model_name'', JStr (rep_model_name r)),
            (''provider'', JStr (rep_provider r)), (''upstream_format'', JStr (rep_upstream_format r)),
            (''check'', JStr (rep_check r)), (''healthy'', JBool (rep_healthy r))] @
           (case rep_status r of None \<Rightarrow> [] | Some s \<Rightarrow> [(''status'', jint (uint s))]) @
           [(''latency_ms'', jint (rep_latency_ms r))] @
           (case rep_detail r of None \<Rightarrow> [] | Some d \<Rightarrow> [(''detail'', JStr d)]))"

definition budget_json :: "time_text \<Rightarrow> budget \<Rightarrow> json" where
  "budget_json tt b =
     JObj [(''id'', JStr (budget_id b)), (''subject_type'', JStr (subject_type_as_str (budget_subject_type b))),
           (''subject_id'', JStr (budget_subject_id b)), (''period'', JStr (period_as_str (budget_period b))),
           (''hard_limit_micros'', jint (hard_limit_micros b)),
           (''soft_limit_micros'', jopt jint (soft_limit_micros b)),
           (''action'', JStr (case budget_action b of Block \<Rightarrow> ''block'' | Alert \<Rightarrow> ''alert'')),
           (''enabled'', JBool (enabled b)), (''created_at'', jtime tt (budget_created_at b)),
           (''updated_at'', jtime tt (budget_updated_at b)),
           (''deleted_at'', jopt (jtime tt) (budget_deleted_at b))]"

definition spend_json :: "time_text \<Rightarrow> rollup_delta \<Rightarrow> json" where
  "spend_json tt r =
     JObj [(''subject_type'', JStr (subject_type_as_str (subject_type r))), (''subject_id'', JStr (subject_id r)),
           (''period'', JStr (period_as_str (period r))), (''period_start'', jtime tt (period_start r)),
           (''spend_micros'', jint (spend_micros r)), (''request_count'', jint (request_count r)),
           (''input_tokens'', jint (input_tokens_delta r)), (''output_tokens'', jint (output_tokens_delta r))]"

definition usage_json :: "usage_row \<Rightarrow> json" where
  "usage_json u =
     JObj [(''day'', JStr (us_day u)), (''api_key_id'', jopt JStr (us_api_key_id u)),
           (''user_id'', jopt JStr (us_user_id u)), (''model'', JStr (us_model u)),
           (''surface'', JStr (us_surface u)), (''requests'', jint (us_requests u)),
           (''errors'', jint (us_errors u)), (''input_tokens'', jint (us_input_tokens u)),
           (''output_tokens'', jint (us_output_tokens u)), (''cost_micros'', jint (us_cost_micros u)),
           (''cache_read_tokens'', jint (us_cache_read_tokens u)),
           (''first_token_turns'', jint (us_first_token_turns u)),
           (''first_token_ms'', jint (us_first_token_ms u)),
           (''generated_tokens'', jint (us_generated_tokens u)),
           (''generation_ms'', jint (us_generation_ms u)), (''queued_turns'', jint (us_queued_turns u)),
           (''queue_ms'', jint (us_queue_ms u))]"

section \<open>Views the handlers build\<close>

definition user_json :: "time_text \<Rightarrow> user \<Rightarrow> json" where
  "user_json tt u =
     JObj [(''id'', JStr (user_id u)), (''username'', JStr (username u)),
           (''role'', JStr (role_as_str (user_role u))), (''created_at'', jtime tt (user_created_at u)),
           (''last_login_at'', jopt (jtime tt) (last_login_at u))]"

text \<open>A provider is shown with whether a key is set, never with the key.\<close>
definition has_api_key :: "string option \<Rightarrow> bool" where
  "has_api_key k = (case k of None \<Rightarrow> False | Some v \<Rightarrow> v \<noteq> [])"

definition provider_entries :: "time_text \<Rightarrow> provider_record \<Rightarrow> json_object" where
  "provider_entries tt p =
     [(''id'', JStr (pv_id p)), (''name'', JStr (pv_name p)), (''api_base'', jopt JStr (pv_api_base p)),
      (''has_api_key'', JBool (has_api_key (pv_api_key p))),
      (''extra'', extra_json (pv_extra p)), (''created_at'', jtime tt (pv_created_at p)),
      (''updated_at'', jtime tt (pv_updated_at p))]"

definition provider_json :: "time_text \<Rightarrow> provider_record \<Rightarrow> json" where
  "provider_json tt p = JObj (provider_entries tt p)"

definition counted_provider_json :: "time_text \<Rightarrow> deployment_record list \<Rightarrow> provider_record \<Rightarrow> json" where
  "counted_provider_json tt ds p =
     JObj (jinsert ''deployment_count''
       (jnat (length (filter (\<lambda>d. provider_id d = pv_id p) ds))) (provider_entries tt p))"

definition listed_model_json ::
  "time_text \<Rightarrow> deployment_record list \<Rightarrow> model_alias list \<Rightarrow> model_record \<Rightarrow> json" where
  "listed_model_json tt ds als m =
     JObj [(''id'', JStr (md_id m)), (''name'', JStr (md_name m)),
           (''aliases'', jstrs (sort (map alias_name (filter (\<lambda>a. alias_model_id a = md_id m) als)))),
           (''deployment_count'', jnat (length (filter (\<lambda>d. model_id d = md_id m) ds))),
           (''created_at'', jtime tt (md_created_at m)), (''updated_at'', jtime tt (md_updated_at m))]"

end
