(* ===== verification/Admin_Session.thy ===== *)
theory Admin_Session
  imports Admin_Views
begin

text \<open>
  Who calls the admin API: the login settings (\<open>crates/yb-core/src/config.rs\<close>), the client of the
  identity provider (\<open>yb-server/src/sso.rs\<close>) and the authentication half of
  \<open>yb-server/src/admin.rs\<close>: the principal behind a request, login, logout and single sign-on.

  The state is the server of the admission model. What a request reads from outside is the record
  \<open>readings\<close>: the n-th reading of the clock, the n-th fresh id and the n-th random token text, the
  password hash made for it, and the identity provider's answers to the calls it makes. Password
  verification, Unicode lower case, the text of a time and the decoding of the provider's answer
  (\<open>serde\<close>) are arguments (\<open>admin_config\<close>). A handler runs as one step.
\<close>

section \<open>Login settings\<close>

datatype auth_provider = Local | Sso | Saml

fun auth_provider_as_str :: "auth_provider \<Rightarrow> string" where
  "auth_provider_as_str Local = ''local''"
| "auth_provider_as_str Sso = ''sso''"
| "auth_provider_as_str Saml = ''saml''"

record sso_auth_config =
  sac_base_url :: string
  sac_client_id :: string
  sac_client_secret :: string
  sac_callback_base :: string
  turnstile_sitekey :: "string option"
  shared_cookie :: "string option"
  shared_cookie_domain :: "string option"

record saml_auth_config =
  idp_sso_url :: "string option"
  idp_cert :: "string option"
  sp_entity_id :: "string option"
  acs_url :: "string option"

record auth_config =
  auth_providers :: "auth_provider list"
  auth_sso :: "sso_auth_config option"
  auth_saml :: "saml_auth_config option"

definition auth_default :: auth_config where
  "auth_default = \<lparr>auth_providers = [Local], auth_sso = None, auth_saml = None\<rparr>"

definition auth_has :: "auth_config \<Rightarrow> auth_provider \<Rightarrow> bool" where
  "auth_has a p \<longleftrightarrow> p \<in> set (auth_providers a)"

section \<open>The identity provider\<close>

record sso_client =
  base_url :: string
  sso_client_id :: string
  sso_client_secret :: string
  callback_base :: string

record sso_user =
  sso_email :: string
  sso_name :: "string option"
  sso_session :: "string option"

record start_outcome =
  dev_code :: "string option"
  dev_link :: "string option"

definition from_config :: "sso_auth_config \<Rightarrow> sso_client option" where
  "from_config cfg =
     (if sac_base_url cfg = [] \<or> sac_client_id cfg = [] \<or> sac_client_secret cfg = [] then None
      else Some \<lparr>base_url = trim_end_char (CHR ''/'') (sac_base_url cfg), sso_client_id = sac_client_id cfg,
                 sso_client_secret = sac_client_secret cfg,
                 callback_base = trim_end_char (CHR ''/'') (sac_callback_base cfg)\<rparr>)"

definition sso_url :: "sso_client \<Rightarrow> string \<Rightarrow> string" where
  "sso_url c path = base_url c @ path"

text \<open>A POST of a JSON body to a URL and what comes back, or why nothing did.\<close>
type_synonym idp = "string \<Rightarrow> json \<Rightarrow> json result"

text \<open>The identity in an answer: email, name and shared session, or serde's complaint.\<close>
type_synonym user_reader = "json \<Rightarrow> string + (string \<times> string option \<times> string option)"

definition credentials :: "sso_client \<Rightarrow> json_object" where
  "credentials c = [(''client_id'', JStr (sso_client_id c)), (''client_secret'', JStr (sso_client_secret c))]"

definition idp_error :: "json \<Rightarrow> string option" where
  "idp_error v = Option.bind (jget v ''error'') as_str"

definition sso_start :: "idp \<Rightarrow> sso_client \<Rightarrow> string \<Rightarrow> string option \<Rightarrow> start_outcome result" where
  "sso_start post c email turnstile =
     (case post (sso_url c ''/api/login/start'')
         (JObj (credentials c @ [(''email'', JStr email), (''callback_base'', JStr (callback_base c))] @
           (case turnstile of None \<Rightarrow> [] | Some t \<Rightarrow> [(''turnstile_token'', JStr t)]))) of
        Inl e \<Rightarrow> Inl e
      | Inr v \<Rightarrow>
          (case idp_error v of
             Some e \<Rightarrow> Inl (Unauthorized (''sso start rejected: '' @ e))
           | None \<Rightarrow> Inr \<lparr>dev_code = Option.bind (jget v ''dev_code'') as_str,
                          dev_link = Option.bind (jget v ''dev_link'') as_str\<rparr>))"

definition sso_complete ::
  "idp \<Rightarrow> user_reader \<Rightarrow> sso_client \<Rightarrow> string \<Rightarrow> json \<Rightarrow> sso_user result" where
  "sso_complete post rd c path body =
     (case post (sso_url c path) body of
        Inl e \<Rightarrow> Inl e
      | Inr v \<Rightarrow>
          (case idp_error v of
             Some e \<Rightarrow> Inl (Unauthorized (''sso login failed: '' @ e))
           | None \<Rightarrow>
               (case rd v of
                  Inl e \<Rightarrow> Inl (Internal (''sso response shape: '' @ e))
                | Inr (email, name, ses) \<Rightarrow>
                    Inr \<lparr>sso_email = email, sso_name = name, sso_session = ses\<rparr>)))"

definition sso_code :: "idp \<Rightarrow> user_reader \<Rightarrow> sso_client \<Rightarrow> string \<Rightarrow> string \<Rightarrow> sso_user result" where
  "sso_code post rd c email c6 =
     sso_complete post rd c ''/api/login/code''
       (JObj (credentials c @ [(''email'', JStr email), (''code'', JStr c6)]))"

definition sso_verify :: "idp \<Rightarrow> user_reader \<Rightarrow> sso_client \<Rightarrow> string \<Rightarrow> sso_user result" where
  "sso_verify post rd c tk =
     sso_complete post rd c ''/api/login/verify'' (JObj (credentials c @ [(''token'', JStr tk)]))"

definition sso_introspect :: "idp \<Rightarrow> user_reader \<Rightarrow> sso_client \<Rightarrow> string \<Rightarrow> sso_user result" where
  "sso_introspect post rd c ses =
     (case post (sso_url c ''/api/session/introspect'') (JObj (credentials c @ [(''session'', JStr ses)])) of
        Inl e \<Rightarrow> Inl e
      | Inr v \<Rightarrow>
          (case idp_error v of
             Some e \<Rightarrow> Inl (Unauthorized (''sso session invalid: '' @ e))
           | None \<Rightarrow>
               (case rd v of
                  Inl e \<Rightarrow> Inl (Internal (''sso introspect shape: '' @ e))
                | Inr (email, name, _) \<Rightarrow>
                    Inr \<lparr>sso_email = email, sso_name = name, sso_session = Some ses\<rparr>)))"

definition sso_invite :: "idp \<Rightarrow> sso_client \<Rightarrow> string \<Rightarrow> string option \<Rightarrow> unit result" where
  "sso_invite post c email name =
     (case post (sso_url c ''/api/users/invite'')
         (JObj (credentials c @ [(''email'', JStr email)] @
           (case name of None \<Rightarrow> [] | Some n \<Rightarrow> [(''name'', JStr n)]))) of
        Inl e \<Rightarrow> Inl e
      | Inr v \<Rightarrow>
          (case idp_error v of
             Some e \<Rightarrow> Inl (BadRequest (''sso invite failed: '' @ e)) | None \<Rightarrow> Inr ()))"

section \<open>Configuration and readings\<close>

record ('c, 'd, 'e) admin_config =
  app :: "('c, 'd, 'e) app_config"
  auth :: auth_config
  sso :: "sso_client option"
  verify_password :: "string \<Rightarrow> string \<Rightarrow> bool"
  lowercase :: "string \<Rightarrow> string"
  debug_str :: "string \<Rightarrow> string"
  time_text :: time_text
  day_of :: "timestamp \<Rightarrow> string"
  read_user :: user_reader

record readings =
  at_now :: "nat \<Rightarrow> timestamp"
  at_id :: "nat \<Rightarrow> id"
  at_uuid :: "nat \<Rightarrow> string"
  at_hash :: "string \<Rightarrow> string result"
  at_idp :: idp

definition SESSION_COOKIE :: string where
  "SESSION_COOKIE = ''yb_session''"

definition SESSION_TTL_SECS :: int where
  "SESSION_TTL_SECS = 7 * 24 * 60 * 60"

text \<open>The end of a session that starts now; times are nanoseconds.\<close>
definition session_end :: "timestamp \<Rightarrow> timestamp" where
  "session_end t = t + SESSION_TTL_SECS * 1000000000"

section \<open>Principals\<close>

definition bearer_of :: "header_list \<Rightarrow> string option" where
  "bearer_of hs =
     Option.bind (header_str hs ''authorization'')
       (\<lambda>v. map_option (\<lambda>stripped. trim (drop (length v - length stripped) v))
          (strip_prefix (to_ascii_lowercase v) ''bearer ''))"

fun find_cookie :: "string \<Rightarrow> string list \<Rightarrow> string option" where
  "find_cookie pre [] = None"
| "find_cookie pre (c # cs) =
     (case strip_prefix (trim c) pre of Some v \<Rightarrow> Some v | None \<Rightarrow> find_cookie pre cs)"

definition cookie_value :: "header_list \<Rightarrow> string \<Rightarrow> string option" where
  "cookie_value hs name =
     Option.bind (header_str hs ''cookie'')
       (\<lambda>cookies. find_cookie (name @ ''='') (split_chars (\<lambda>c. c = CHR '';'') cookies))"

definition session_cookie :: "header_list \<Rightarrow> string option" where
  "session_cookie hs = cookie_value hs SESSION_COOKIE"

definition shared_cookie_name :: "auth_config \<Rightarrow> string" where
  "shared_cookie_name a =
     (case Option.bind (auth_sso a) shared_cookie of None \<Rightarrow> ''lzr_session'' | Some n \<Rightarrow> n)"

text \<open>A row made for a single sign-on user; its password hash verifies nothing.\<close>
definition sso_row :: "readings \<Rightarrow> string \<Rightarrow> role \<Rightarrow> user" where
  "sso_row rd email r =
     \<lparr>user_id = at_id rd 0, username = email, password_hash = ''!sso'', user_role = r,
      user_rpm_limit = None, user_tpm_limit = None, user_max_concurrent = None,
      user_created_at = at_now rd 0, last_login_at = None, user_deleted_at = None\<rparr>"

definition upsert_sso_user ::
  "('c, 'd, 'e) admin_config \<Rightarrow> readings \<Rightarrow> sso_user \<Rightarrow> sqlite_store \<Rightarrow> user result \<times> sqlite_store" where
  "upsert_sso_user cfg rd su s =
     (let email = lowercase cfg (trim (sso_email su))
      in if email = [] then (Inl (Unauthorized ''sso returned no email''), s)
         else (case get_user_by_username email s of
                 Some u \<Rightarrow> (Inr u, s)
               | None \<Rightarrow>
                   (case create_user (sso_row rd email Member) s of
                      Inl e \<Rightarrow> (Inl e, s) | Inr s' \<Rightarrow> (Inr (sso_row rd email Member), s'))))"

definition principal_of :: "user \<Rightarrow> timestamp \<Rightarrow> principal" where
  "principal_of u t =
     \<lparr>principal_user_id = user_id u, principal_username = username u, principal_role = user_role u,
      expires_at = t\<rparr>"

text \<open>The cross-app cookie, looked at when no other credential decided.\<close>
definition shared_principal ::
  "('c, 'd, 'e) admin_config \<Rightarrow> readings \<Rightarrow> header_list \<Rightarrow> sqlite_store \<Rightarrow> principal result \<times> sqlite_store" where
  "shared_principal cfg rd hs s =
     (let unauthorized = (Inl (Unauthorized ''sign in required''), s)
      in case sso cfg of
           None \<Rightarrow> unauthorized
         | Some c \<Rightarrow>
             (case cookie_value hs (shared_cookie_name (auth cfg)) of
                None \<Rightarrow> unauthorized
              | Some tk \<Rightarrow>
                  (case sso_introspect (at_idp rd) (read_user cfg) c tk of
                     Inl _ \<Rightarrow> unauthorized
                   | Inr su \<Rightarrow>
                       (case upsert_sso_user cfg rd su s of
                          (Inl e, s) \<Rightarrow> (Inl e, s)
                        | (Inr u, s) \<Rightarrow> (Inr (principal_of u (session_end (at_now rd 1))), s)))))"

definition extract_principal ::
  "('c, 'd, 'e) admin_config \<Rightarrow> readings \<Rightarrow> header_list \<Rightarrow> sqlite_store \<Rightarrow> principal result \<times> sqlite_store" where
  "extract_principal cfg rd hs s =
     (case bearer_of hs of
        Some bearer \<Rightarrow>
          (case verify_api_key (hex_sha256 (app cfg) bearer) s of
             None \<Rightarrow> (Inl (Unauthorized ''sign in required''), s)
           | Some a \<Rightarrow>
               if \<not> has_scope (auth_key a) AdminScope
               then (Inl (Forbidden ''this key is not admin-scoped''), s)
               else (Inr (principal_of (auth_user a) (session_end (at_now rd 1))),
                     mark_api_key_used (at_now rd 0) (key_id (auth_key a)) s))
      | None \<Rightarrow>
          (case Option.bind (session_cookie hs) (\<lambda>tk. get_session (at_now rd 0) tk s) of
             Some x \<Rightarrow>
               (case get_user (session_user_id x) s of
                  Some u \<Rightarrow> (Inr (principal_of u (session_expires_at x)), s)
                | None \<Rightarrow> shared_principal cfg rd hs s)
           | None \<Rightarrow> shared_principal cfg rd hs s))"

section \<open>Responses\<close>

definition refuse :: "('c, 'd, 'e) admin_config \<Rightarrow> error \<Rightarrow> ('d, 'e) server_response" where
  "refuse cfg e = error_response (app cfg) e"

definition respond :: "('c, 'd, 'e) admin_config \<Rightarrow> ('a \<Rightarrow> json) \<Rightarrow> 'a result \<Rightarrow> ('d, 'e) server_response" where
  "respond cfg view r = (case r of Inr v \<Rightarrow> ok_json (view v) | Inl e \<Rightarrow> refuse cfg e)"

definition respond_unit :: "('c, 'd, 'e) admin_config \<Rightarrow> unit result \<Rightarrow> ('d, 'e) server_response" where
  "respond_unit cfg r = (case r of Inr _ \<Rightarrow> ok_json (JObj [(''ok'', JBool True)]) | Inl e \<Rightarrow> refuse cfg e)"

definition authz ::
  "('c, 'd, 'e) admin_config \<Rightarrow> principal \<Rightarrow> action \<Rightarrow> ('d, 'e) server_response + unit" where
  "authz cfg p a = (case authorize (principal_role p) a of Inl e \<Rightarrow> Inl (refuse cfg e) | Inr u \<Rightarrow> Inr u)"

text \<open>A header is added when its value is a legal one.\<close>
fun with_header :: "string \<Rightarrow> string \<Rightarrow> ('d, 'e) server_response \<Rightarrow> ('d, 'e) server_response" where
  "with_header n v (JsonResponse s hs b) =
     JsonResponse s (if list_all visible_ascii v then hs @ [(n, v)] else hs) b"
| "with_header n v r = r"

section \<open>Login and logout\<close>

definition set_cookie :: "string \<Rightarrow> string" where
  "set_cookie tk = SESSION_COOKIE @ ''='' @ tk @ ''; HttpOnly; SameSite=Strict; Path=/; Max-Age='' @
     show_int SESSION_TTL_SECS"

definition clear_cookie :: string where
  "clear_cookie = SESSION_COOKIE @ ''=; HttpOnly; SameSite=Strict; Path=/; Max-Age=0''"

definition shared_domain :: "auth_config \<Rightarrow> string option" where
  "shared_domain a =
     Option.bind (Option.bind (auth_sso a) shared_cookie_domain) (\<lambda>d. if d = [] then None else Some d)"

text \<open>The login time is noted whether or not the session can be made.\<close>
definition mint_session_response ::
  "('c, 'd, 'e) admin_config \<Rightarrow> readings \<Rightarrow> user \<Rightarrow> sqlite_store \<Rightarrow> ('d, 'e) server_response \<times> sqlite_store" where
  "mint_session_response cfg rd u s =
     (let s = mark_user_login (at_now rd 2) (user_id u) s;
          tk = at_uuid rd 0 @ at_uuid rd 1
      in case create_session \<lparr>session_token = tk, session_user_id = user_id u,
             session_created_at = at_now rd 3, session_expires_at = session_end (at_now rd 4)\<rparr> s of
           Inl e \<Rightarrow> (refuse cfg e, s)
         | Inr s \<Rightarrow>
             (with_header ''set-cookie'' (set_cookie tk)
                (ok_json (JObj [(''username'', JStr (username u)), (''role'', JStr (role_as_str (user_role u)))])), s))"

definition auth_login ::
  "('c, 'd, 'e) admin_config \<Rightarrow> readings \<Rightarrow> string \<Rightarrow> string \<Rightarrow> sqlite_store \<Rightarrow>
   ('d, 'e) server_response \<times> sqlite_store" where
  "auth_login cfg rd name password s =
     (if \<not> auth_has (auth cfg) Local
      then (refuse cfg (Forbidden ''local password login is disabled on this server''), s)
      else (case get_user_by_username name s of
              None \<Rightarrow> (refuse cfg (Unauthorized ''invalid credentials''), s)
            | Some u \<Rightarrow>
                if \<not> verify_password cfg password (password_hash u)
                then (refuse cfg (Unauthorized ''invalid credentials''), s)
                else mint_session_response cfg rd u s))"

definition append_shared_cookie ::
  "('c, 'd, 'e) admin_config \<Rightarrow> sso_user \<Rightarrow> ('d, 'e) server_response \<Rightarrow> ('d, 'e) server_response" where
  "append_shared_cookie cfg su r =
     (case (sso_session su, shared_domain (auth cfg)) of
        (Some tk, Some domain) \<Rightarrow>
          with_header ''set-cookie'' (shared_cookie_name (auth cfg) @ ''='' @ tk @ ''; Domain='' @ domain @
            ''; Path=/; HttpOnly; Secure; SameSite=Lax; Max-Age='' @ show_int SESSION_TTL_SECS) r
      | _ \<Rightarrow> r)"

definition auth_config_response :: "('c, 'd, 'e) admin_config \<Rightarrow> ('d, 'e) server_response" where
  "auth_config_response cfg =
     ok_json (JObj [(''providers'', jstrs (map auth_provider_as_str (auth_providers (auth cfg)))),
       (''turnstile_sitekey'', jopt JStr
          (Option.bind (Option.bind (auth_sso (auth cfg)) turnstile_sitekey)
             (\<lambda>k. if k = [] then None else Some k)))])"

definition sso_or_disabled :: "('c, 'd, 'e) admin_config \<Rightarrow> sso_client option" where
  "sso_or_disabled cfg = (if \<not> auth_has (auth cfg) Sso then None else sso cfg)"

definition auth_sso_start ::
  "('c, 'd, 'e) admin_config \<Rightarrow> readings \<Rightarrow> string \<Rightarrow> string option \<Rightarrow> ('d, 'e) server_response" where
  "auth_sso_start cfg rd email turnstile =
     (case sso_or_disabled cfg of
        None \<Rightarrow> refuse cfg (Forbidden ''sso login is not enabled'')
      | Some c \<Rightarrow>
          (case sso_start (at_idp rd) c email turnstile of
             Inl e \<Rightarrow> refuse cfg e
           | Inr out \<Rightarrow>
               ok_json (JObj ([(''ok'', JBool True)] @
                 (case dev_code out of None \<Rightarrow> [] | Some v \<Rightarrow> [(''dev_code'', JStr v)]) @
                 (case dev_link out of None \<Rightarrow> [] | Some v \<Rightarrow> [(''dev_link'', JStr v)])))))"

text \<open>The rest of a completed single sign-on: the local user, the session and both cookies.\<close>
definition sso_login ::
  "('c, 'd, 'e) admin_config \<Rightarrow> readings \<Rightarrow> sso_user result \<Rightarrow>
   (('d, 'e) server_response \<Rightarrow> ('d, 'e) server_response) \<Rightarrow> sqlite_store \<Rightarrow>
   ('d, 'e) server_response \<times> sqlite_store" where
  "sso_login cfg rd res done_with s =
     (case res of
        Inl e \<Rightarrow> (refuse cfg e, s)
      | Inr su \<Rightarrow>
          (case upsert_sso_user cfg rd su s of
             (Inl e, s) \<Rightarrow> (refuse cfg e, s)
           | (Inr u, s) \<Rightarrow>
               (let (r, s) = mint_session_response cfg rd u s in (done_with (append_shared_cookie cfg su r), s))))"

definition auth_sso_code ::
  "('c, 'd, 'e) admin_config \<Rightarrow> readings \<Rightarrow> string \<Rightarrow> string \<Rightarrow> sqlite_store \<Rightarrow>
   ('d, 'e) server_response \<times> sqlite_store" where
  "auth_sso_code cfg rd email c6 s =
     (case sso_or_disabled cfg of
        None \<Rightarrow> (refuse cfg (Forbidden ''sso login is not enabled''), s)
      | Some c \<Rightarrow> sso_login cfg rd (sso_code (at_idp rd) (read_user cfg) c email c6) id s)"

fun redirect_home :: "('d, 'e) server_response \<Rightarrow> ('d, 'e) server_response" where
  "redirect_home (JsonResponse st hs b) =
     (if is_success st then with_header ''location'' ''/'' (JsonResponse 303 hs b) else JsonResponse st hs b)"
| "redirect_home r = r"

definition auth_sso_verify ::
  "('c, 'd, 'e) admin_config \<Rightarrow> readings \<Rightarrow> string \<Rightarrow> sqlite_store \<Rightarrow> ('d, 'e) server_response \<times> sqlite_store" where
  "auth_sso_verify cfg rd lt s =
     (case sso_or_disabled cfg of
        None \<Rightarrow> (refuse cfg (Forbidden ''sso login is not enabled''), s)
      | Some c \<Rightarrow> sso_login cfg rd (sso_verify (at_idp rd) (read_user cfg) c lt) redirect_home s)"

text \<open>The call that ends the shared session at the provider is made and its outcome ignored.\<close>
definition auth_logout ::
  "('c, 'd, 'e) admin_config \<Rightarrow> header_list \<Rightarrow> sqlite_store \<Rightarrow> ('d, 'e) server_response \<times> sqlite_store" where
  "auth_logout cfg hs s =
     (let s = (case session_cookie hs of None \<Rightarrow> s | Some tk \<Rightarrow> delete_session tk s);
          r = with_header ''set-cookie'' clear_cookie (ok_json (JObj [(''ok'', JBool True)]))
      in (case shared_domain (auth cfg) of
            None \<Rightarrow> r
          | Some domain \<Rightarrow>
              with_header ''set-cookie'' (shared_cookie_name (auth cfg) @ ''=; Domain='' @ domain @
                ''; Path=/; HttpOnly; Secure; SameSite=Lax; Max-Age=0'') r, s))"

definition auth_me :: "principal \<Rightarrow> ('d, 'e) server_response" where
  "auth_me p =
     ok_json (JObj [(''username'', JStr (principal_username p)), (''role'', JStr (role_as_str (principal_role p)))])"

definition change_my_password ::
  "('c, 'd, 'e) admin_config \<Rightarrow> readings \<Rightarrow> principal \<Rightarrow> string \<Rightarrow> string \<Rightarrow> sqlite_store \<Rightarrow>
   ('d, 'e) server_response \<times> sqlite_store" where
  "change_my_password cfg rd p current new s =
     (case get_user (principal_user_id p) s of
        None \<Rightarrow> (refuse cfg (Unauthorized ''sign in required''), s)
      | Some u \<Rightarrow>
          if \<not> verify_password cfg current (password_hash u)
          then (refuse cfg (Unauthorized ''current password is incorrect''), s)
          else if new = [] then (refuse cfg (BadRequest ''new password must not be empty''), s)
          else (case at_hash rd new of
                  Inl e \<Rightarrow> (refuse cfg e, s)
                | Inr h \<Rightarrow> (respond_unit cfg (Inr ()), set_user_password (user_id u) h s)))"

end
