(* ===== verification/Admin_Api.thy ===== *)
theory Admin_Api
  imports Admin_Session
begin

text \<open>
  The handlers of the admin API (\<open>crates/yb-server/src/admin.rs\<close>) and the call of each route.

  A handler on rows takes the store and returns its answer and the store; a handler that changes
  what requests are routed to takes the server, and loads the routing table again when the change
  went through. The names of the handlers are those of the code with the prefix \<open>api\<close>, as the
  store has operations of the same names.
\<close>

section \<open>Guards\<close>

definition guarded ::
  "('c, 'd, 'e) admin_config \<Rightarrow> principal \<Rightarrow> action \<Rightarrow> ('s \<Rightarrow> ('d, 'e) server_response \<times> 's) \<Rightarrow> 's \<Rightarrow>
   ('d, 'e) server_response \<times> 's" where
  "guarded cfg p a body s = (case authz cfg p a of Inl r \<Rightarrow> (r, s) | Inr _ \<Rightarrow> body s)"

text \<open>A handler that only reads.\<close>
definition shown ::
  "('c, 'd, 'e) admin_config \<Rightarrow> principal \<Rightarrow> action \<Rightarrow> ('s \<Rightarrow> ('d, 'e) server_response) \<Rightarrow> 's \<Rightarrow>
   ('d, 'e) server_response \<times> 's" where
  "shown cfg p a view s = guarded cfg p a (\<lambda>s. (view s, s)) s"

text \<open>The tail of a handler that changes the catalog: report the error, or reload and answer.\<close>
definition reloading ::
  "('c, 'd, 'e) admin_config \<Rightarrow> ('a \<Rightarrow> json) \<Rightarrow> sqlite_store \<times> 'a result \<Rightarrow> 'c server \<Rightarrow>
   ('d, 'e) server_response \<times> 'c server" where
  "reloading cfg view r sv =
     (case r of
        (s, Inl e) \<Rightarrow> (refuse cfg e, sv\<lparr>store := s\<rparr>)
      | (s, Inr x) \<Rightarrow> (ok_json (view x), reload_models (sv\<lparr>store := s\<rparr>)))"

text \<open>The refusal to take an administrator away when at most one is left.\<close>
definition guard_last_admin :: "id \<Rightarrow> bool \<Rightarrow> sqlite_store \<Rightarrow> unit result" where
  "guard_last_admin i losing_admin s =
     (if \<not> losing_admin then Inr ()
      else (case get_user i s of
              None \<Rightarrow> Inl (NotFound ''user'')
            | Some target \<Rightarrow>
                if user_role target = Admin \<and> count_admins s \<le> 1
                then Inl (Forbidden ''cannot remove the last admin user'') else Inr ()))"

definition own_key_or_admin :: "principal \<Rightarrow> id \<Rightarrow> sqlite_store \<Rightarrow> api_key result" where
  "own_key_or_admin p i s =
     (case get_api_key i s of
        None \<Rightarrow> Inl (NotFound ''key'')
      | Some k \<Rightarrow>
          if \<not> is_admin p \<and> owner_user_id k \<noteq> principal_user_id p then Inl (Forbidden ''not your key'')
          else Inr k)"

text \<open>Code points of a well-formed string: the bytes that are not continuation bytes.\<close>
definition char_count :: "string \<Rightarrow> nat" where
  "char_count s = length (filter (\<lambda>c. \<not> (0x80 \<le> byte_of c \<and> byte_of c < 0xC0)) s)"

definition validate_public_name :: "string \<Rightarrow> string result" where
  "validate_public_name s =
     (let t = trim s
      in if t = [] then Inl (BadRequest ''name is required'')
         else if char_count t > 200 then Inl (BadRequest ''name must be 200 characters or fewer'')
         else if list_ex (\<lambda>c. byte_of c < 32 \<or> byte_of c = 127) t
         then Inl (BadRequest ''name must not contain control characters'')
         else Inr t)"

section \<open>Users\<close>

definition api_list_users ::
  "('c, 'd, 'e) admin_config \<Rightarrow> principal \<Rightarrow> sqlite_store \<Rightarrow> ('d, 'e) server_response \<times> sqlite_store" where
  "api_list_users cfg p =
     shown cfg p ManageMembers (\<lambda>s. ok_json (JArr (map (user_json (time_text cfg)) (list_users s))))"

definition asked_role :: "string option \<Rightarrow> role result" where
  "asked_role r = role_parse (case r of None \<Rightarrow> ''member'' | Some t \<Rightarrow> t)"

definition api_create_user ::
  "('c, 'd, 'e) admin_config \<Rightarrow> readings \<Rightarrow> principal \<Rightarrow> string \<Rightarrow> string \<Rightarrow> string option \<Rightarrow> sqlite_store \<Rightarrow>
   ('d, 'e) server_response \<times> sqlite_store" where
  "api_create_user cfg rd p name password r =
     guarded cfg p ManageMembers (\<lambda>s.
       if \<not> auth_has (auth cfg) Local
       then (refuse cfg (BadRequest
         ''local password login is disabled; invite the user instead (POST /users/invite)''), s)
       else (case asked_role r of
               Inl e \<Rightarrow> (refuse cfg e, s)
             | Inr rl \<Rightarrow>
                 (case at_hash rd password of
                    Inl e \<Rightarrow> (refuse cfg e, s)
                  | Inr h \<Rightarrow>
                      (let u = (sso_row rd name rl)\<lparr>password_hash := h\<rparr>
                       in case create_user u s of
                            Inl e \<Rightarrow> (refuse cfg e, s)
                          | Inr s' \<Rightarrow>
                              (ok_json (JObj [(''id'', JStr (user_id u)), (''username'', JStr (username u)),
                                 (''role'', JStr (role_as_str rl))]), s')))))"

text \<open>An existing account has its role set, a new one is made with it.\<close>
definition api_invite_user ::
  "('c, 'd, 'e) admin_config \<Rightarrow> readings \<Rightarrow> principal \<Rightarrow> string \<Rightarrow> string option \<Rightarrow> sqlite_store \<Rightarrow>
   ('d, 'e) server_response \<times> sqlite_store" where
  "api_invite_user cfg rd p address r =
     guarded cfg p ManageMembers (\<lambda>s.
       case sso_or_disabled cfg of
         None \<Rightarrow> (refuse cfg (BadRequest ''invite requires the sso provider to be enabled''), s)
       | Some c \<Rightarrow>
           (case asked_role r of
              Inl e \<Rightarrow> (refuse cfg e, s)
            | Inr rl \<Rightarrow>
                (let email = lowercase cfg (trim address);
                     answer = ok_json (JObj [(''username'', JStr email), (''role'', JStr (role_as_str rl))])
                 in if email = [] \<or> CHR ''@'' \<notin> set email
                    then (refuse cfg (BadRequest ''a valid email is required''), s)
                    else (case sso_invite (at_idp rd) c email None of
                            Inl e \<Rightarrow> (refuse cfg e, s)
                          | Inr _ \<Rightarrow>
                              (case get_user_by_username email s of
                                 Some u \<Rightarrow> (answer, set_user_role (user_id u) rl s)
                               | None \<Rightarrow>
                                   (case create_user (sso_row rd email rl) s of
                                      Inl e \<Rightarrow> (refuse cfg e, s) | Inr s' \<Rightarrow> (answer, s')))))))"

definition api_set_user_role ::
  "('c, 'd, 'e) admin_config \<Rightarrow> principal \<Rightarrow> id \<Rightarrow> string \<Rightarrow> sqlite_store \<Rightarrow>
   ('d, 'e) server_response \<times> sqlite_store" where
  "api_set_user_role cfg p i r =
     guarded cfg p ManageMembers (\<lambda>s.
       case role_parse r of
         Inl e \<Rightarrow> (refuse cfg e, s)
       | Inr rl \<Rightarrow>
           (case guard_last_admin i (rl \<noteq> Admin) s of
              Inl e \<Rightarrow> (refuse cfg e, s)
            | Inr _ \<Rightarrow> (respond_unit cfg (Inr ()), set_user_role i rl s)))"

definition api_set_user_password ::
  "('c, 'd, 'e) admin_config \<Rightarrow> readings \<Rightarrow> principal \<Rightarrow> id \<Rightarrow> string \<Rightarrow> sqlite_store \<Rightarrow>
   ('d, 'e) server_response \<times> sqlite_store" where
  "api_set_user_password cfg rd p i password =
     guarded cfg p ManageMembers (\<lambda>s.
       case at_hash rd password of
         Inl e \<Rightarrow> (refuse cfg e, s)
       | Inr h \<Rightarrow> (respond_unit cfg (Inr ()), set_user_password i h s))"

definition api_delete_user ::
  "('c, 'd, 'e) admin_config \<Rightarrow> readings \<Rightarrow> principal \<Rightarrow> id \<Rightarrow> sqlite_store \<Rightarrow>
   ('d, 'e) server_response \<times> sqlite_store" where
  "api_delete_user cfg rd p i =
     guarded cfg p ManageMembers (\<lambda>s.
       case guard_last_admin i True s of
         Inl e \<Rightarrow> (refuse cfg e, s)
       | Inr _ \<Rightarrow> (respond_unit cfg (Inr ()), delete_user (at_now rd 0) i s))"

section \<open>Providers\<close>

record provider_body =
  pb_name :: string
  pb_api_base :: "string option"
  pb_api_key :: "string option"
  pb_extra :: extra

definition api_list_providers ::
  "('c, 'd, 'e) admin_config \<Rightarrow> principal \<Rightarrow> sqlite_store \<Rightarrow> ('d, 'e) server_response \<times> sqlite_store" where
  "api_list_providers cfg p =
     shown cfg p ReadCatalog (\<lambda>s.
       ok_json (JArr (map (counted_provider_json (time_text cfg) (list_deployments s)) (list_providers s))))"

definition api_create_provider ::
  "('c, 'd, 'e) admin_config \<Rightarrow> readings \<Rightarrow> principal \<Rightarrow> provider_body \<Rightarrow> 'c server \<Rightarrow>
   ('d, 'e) server_response \<times> 'c server" where
  "api_create_provider cfg rd p b =
     guarded cfg p EditConfig (\<lambda>sv.
       case validate_public_name (pb_name b) of
         Inl e \<Rightarrow> (refuse cfg e, sv)
       | Inr name \<Rightarrow>
           if get_provider_by_name name (store sv) \<noteq> None
           then (refuse cfg (Conflict (''provider \"'' @ name @ ''\" already exists'')), sv)
           else reloading cfg (provider_json (time_text cfg))
             (then_run (ensure_provider (at_now rd 0) (at_id rd 0) name (store sv)) (\<lambda>created s.
                update_provider (at_now rd 1) (pv_id created) name (pb_api_base b) (pb_api_key b) (pb_extra b) s))
             sv)"

definition api_update_provider ::
  "('c, 'd, 'e) admin_config \<Rightarrow> readings \<Rightarrow> principal \<Rightarrow> id \<Rightarrow> provider_body \<Rightarrow> 'c server \<Rightarrow>
   ('d, 'e) server_response \<times> 'c server" where
  "api_update_provider cfg rd p i b =
     guarded cfg p EditConfig (\<lambda>sv.
       case validate_public_name (pb_name b) of
         Inl e \<Rightarrow> (refuse cfg e, sv)
       | Inr name \<Rightarrow>
           if get_provider i (store sv) = None then (refuse cfg (NotFound ''provider''), sv)
           else reloading cfg (provider_json (time_text cfg))
             (update_provider (at_now rd 0) i name (pb_api_base b)
                (Option.bind (pb_api_key b) (\<lambda>k. if k = [] then None else Some k)) (pb_extra b) (store sv))
             sv)"

definition api_delete_provider ::
  "('c, 'd, 'e) admin_config \<Rightarrow> principal \<Rightarrow> id \<Rightarrow> 'c server \<Rightarrow> ('d, 'e) server_response \<times> 'c server" where
  "api_delete_provider cfg p i =
     guarded cfg p EditConfig (\<lambda>sv.
       reloading cfg (\<lambda>_. JObj [(''deleted'', JStr i)]) (keep_on_error (store sv) (delete_provider i (store sv))) sv)"

definition discovered_json :: "deployment_record list \<Rightarrow> id \<Rightarrow> upstream_format \<Rightarrow> string \<Rightarrow> json" where
  "discovered_json existing pid fmt m =
     JObj [(''upstream_model'', JStr m),
           (''deployed'', JBool (list_ex (\<lambda>d. provider_id d = pid \<and> upstream_model d = m \<and>
              upstream_format d = fmt) existing))]"

definition api_discover_provider_models ::
  "('c, 'd, 'e) admin_config \<Rightarrow> principal \<Rightarrow> id \<Rightarrow> upstream_format \<Rightarrow> 'c server \<Rightarrow>
   ('d, 'e) server_response outcome \<times> 'c server" where
  "api_discover_provider_models cfg p i fmt sv =
     (case authz cfg p EditConfig of
        Inl r \<Rightarrow> (Returned r, sv)
      | Inr _ \<Rightarrow>
          (case get_provider i (store sv) of
             None \<Rightarrow> (Returned (refuse cfg (NotFound ''provider'')), sv)
           | Some pr \<Rightarrow>
               (let (res, w) = discover_models (app cfg) (pv_api_base pr) (pv_api_key pr) (pv_extra pr) fmt
                      (pv_name pr) (gw_world sv);
                    sv = sv\<lparr>gw_world := w\<rparr>
                in case res of
                     Cancelled \<Rightarrow> (Cancelled, sv)
                   | Returned (Inl e) \<Rightarrow> (Returned (refuse cfg e), sv)
                   | Returned (Inr found) \<Rightarrow>
                       (Returned (ok_json (JObj [(''provider'', JStr (pv_name pr)),
                          (''models'', JArr (map (discovered_json (list_deployments (store sv)) (pv_id pr) fmt)
                             found))])), sv))))"

section \<open>Deployments and models\<close>

record create_model_body =
  cm_model_name :: string
  cm_provider :: string
  cm_upstream_model :: string
  cm_upstream_format :: upstream_format
  cm_weight :: "32 word option"
  cm_pricing :: "model_price option"
  cm_health_check :: health_check
  cm_health_path :: "string option"

record bulk_entry =
  be_upstream_model :: string
  be_model_name :: string

definition bulk_deployment :: "string \<Rightarrow> upstream_format \<Rightarrow> string \<Rightarrow> bulk_entry \<Rightarrow> new_deployment" where
  "bulk_deployment provider_name fmt name e =
     \<lparr>nd_model_name = name, nd_provider_name = provider_name, nd_upstream_model = be_upstream_model e,
      nd_upstream_format = fmt, nd_weight = 1, nd_pricing = None, nd_health_check = HealthNone,
      nd_health_path = None\<rparr>"

definition bulk_error :: "bulk_entry \<Rightarrow> string \<Rightarrow> json" where
  "bulk_error e m = JObj [(''upstream_model'', JStr (be_upstream_model e)), (''error'', JStr m)]"

text \<open>The loop over the entries; the k-th draws five ids of its own. Failures are collected.\<close>
fun bulk_loop ::
  "('c, 'd, 'e) admin_config \<Rightarrow> readings \<Rightarrow> string \<Rightarrow> upstream_format \<Rightarrow> nat \<Rightarrow> bulk_entry list \<Rightarrow>
   nat \<times> nat \<times> json list \<Rightarrow> sqlite_store \<Rightarrow> (nat \<times> nat \<times> json list) \<times> sqlite_store" where
  "bulk_loop cfg rd pn fmt k [] acc s = (acc, s)"
| "bulk_loop cfg rd pn fmt k (e # es) (created, skipped, errors) s =
     (case validate_public_name (be_model_name e) of
        Inl _ \<Rightarrow> bulk_loop cfg rd pn fmt (Suc k) es (created, skipped, errors @ [bulk_error e ''invalid model name'']) s
      | Inr name \<Rightarrow>
          (case seed_deployment (at_now rd k) (at_id rd (5 * k), at_id rd (5 * k + 1))
              (at_id rd (5 * k + 2), at_id rd (5 * k + 3), at_id rd (5 * k + 4))
              (bulk_deployment pn fmt name e) s of
             (s', Inr True) \<Rightarrow> bulk_loop cfg rd pn fmt (Suc k) es (created + 1, skipped, errors) s'
           | (s', Inr False) \<Rightarrow> bulk_loop cfg rd pn fmt (Suc k) es (created, skipped + 1, errors) s'
           | (s', Inl er) \<Rightarrow>
               bulk_loop cfg rd pn fmt (Suc k) es
                 (created, skipped, errors @ [bulk_error e (error_display (duration_debug (app cfg)) er)]) s'))"

definition api_create_deployments_bulk ::
  "('c, 'd, 'e) admin_config \<Rightarrow> readings \<Rightarrow> principal \<Rightarrow> string \<Rightarrow> upstream_format \<Rightarrow> bulk_entry list \<Rightarrow>
   'c server \<Rightarrow> ('d, 'e) server_response \<times> 'c server" where
  "api_create_deployments_bulk cfg rd p prov fmt es =
     guarded cfg p EditConfig (\<lambda>sv.
       case validate_public_name prov of
         Inl e \<Rightarrow> (refuse cfg e, sv)
       | Inr pn \<Rightarrow>
           (let ((created, skipped, errors), s) = bulk_loop cfg rd pn fmt 0 es (0, 0, []) (store sv)
            in (ok_json (JObj [(''created'', jnat created), (''skipped'', jnat skipped), (''errors'', JArr errors)]),
                reload_models (sv\<lparr>store := s\<rparr>))))"

definition api_list_deployments ::
  "('c, 'd, 'e) admin_config \<Rightarrow> principal \<Rightarrow> sqlite_store \<Rightarrow> ('d, 'e) server_response \<times> sqlite_store" where
  "api_list_deployments cfg p =
     shown cfg p ReadCatalog (\<lambda>s. ok_json (JArr (map (deployment_json (time_text cfg)) (list_deployments s))))"

definition api_list_models ::
  "('c, 'd, 'e) admin_config \<Rightarrow> principal \<Rightarrow> sqlite_store \<Rightarrow> ('d, 'e) server_response \<times> sqlite_store" where
  "api_list_models cfg p =
     shown cfg p ReadCatalog (\<lambda>s.
       ok_json (JArr (map (listed_model_json (time_text cfg) (list_deployments s) (list_aliases s)) (list_models s))))"

definition api_rename_model ::
  "('c, 'd, 'e) admin_config \<Rightarrow> readings \<Rightarrow> principal \<Rightarrow> id \<Rightarrow> string \<Rightarrow> 'c server \<Rightarrow>
   ('d, 'e) server_response \<times> 'c server" where
  "api_rename_model cfg rd p i new =
     guarded cfg p EditConfig (\<lambda>sv.
       case validate_public_name new of
         Inl e \<Rightarrow> (refuse cfg e, sv)
       | Inr name \<Rightarrow> reloading cfg (model_json (time_text cfg)) (rename_model (at_now rd 0) i name (store sv)) sv)"

definition api_create_model ::
  "('c, 'd, 'e) admin_config \<Rightarrow> readings \<Rightarrow> principal \<Rightarrow> string \<Rightarrow> 'c server \<Rightarrow>
   ('d, 'e) server_response \<times> 'c server" where
  "api_create_model cfg rd p new =
     guarded cfg p EditConfig (\<lambda>sv.
       case validate_public_name new of
         Inl e \<Rightarrow> (refuse cfg e, sv)
       | Inr name \<Rightarrow>
           reloading cfg (model_json (time_text cfg)) (ensure_model (at_now rd 0) (at_id rd 0) name (store sv)) sv)"

definition api_create_deployment ::
  "('c, 'd, 'e) admin_config \<Rightarrow> readings \<Rightarrow> principal \<Rightarrow> create_model_body \<Rightarrow> 'c server \<Rightarrow>
   ('d, 'e) server_response \<times> 'c server" where
  "api_create_deployment cfg rd p b =
     guarded cfg p EditConfig (\<lambda>sv.
       case validate_public_name (cm_model_name b) of
         Inl e \<Rightarrow> (refuse cfg e, sv)
       | Inr mn \<Rightarrow>
           (case validate_public_name (cm_provider b) of
              Inl e \<Rightarrow> (refuse cfg e, sv)
            | Inr pn \<Rightarrow>
                reloading cfg (deployment_json (time_text cfg))
                  (create_deployment (at_now rd 0) (at_id rd 0, at_id rd 1, at_id rd 2)
                     \<lparr>nd_model_name = mn, nd_provider_name = pn, nd_upstream_model = cm_upstream_model b,
                      nd_upstream_format = cm_upstream_format b,
                      nd_weight = (case cm_weight b of None \<Rightarrow> 1 | Some n \<Rightarrow> n),
                      nd_pricing = cm_pricing b, nd_health_check = cm_health_check b,
                      nd_health_path = cm_health_path b\<rparr> (store sv))
                  sv))"

definition api_delete_deployment ::
  "('c, 'd, 'e) admin_config \<Rightarrow> readings \<Rightarrow> principal \<Rightarrow> id \<Rightarrow> 'c server \<Rightarrow>
   ('d, 'e) server_response \<times> 'c server" where
  "api_delete_deployment cfg rd p i =
     guarded cfg p EditConfig (\<lambda>sv.
       reloading cfg (\<lambda>_. JObj [(''deleted'', JStr i)])
         (delete_deployment (at_now rd 0) i (store sv), Inr ()) sv)"

section \<open>Health\<close>

definition health_record_of :: "health_report \<Rightarrow> timestamp \<Rightarrow> health_record" where
  "health_record_of r t =
     \<lparr>hr_deployment_id = rep_deployment_id r, healthy = rep_healthy r, check_kind = rep_check r,
      hr_status = rep_status r, hr_latency_ms = rep_latency_ms r, hr_detail = rep_detail r, checked_at = t\<rparr>"

text \<open>The result of a check is kept for the console; a failure to keep it is only logged.\<close>
definition remember :: "health_report \<Rightarrow> timestamp \<Rightarrow> sqlite_store \<Rightarrow> sqlite_store" where
  "remember r t s = (case record_health (health_record_of r t) s of Inl _ \<Rightarrow> s | Inr s' \<Rightarrow> s')"

definition api_health_all_models ::
  "('c, 'd, 'e) admin_config \<Rightarrow> principal \<Rightarrow> 'c server \<Rightarrow> ('d, 'e) server_response \<times> 'c server" where
  "api_health_all_models cfg p =
     guarded cfg p ReadCatalog (\<lambda>sv.
       let (rs, w) = check_deployments (app cfg) (list_deployments (store sv)) (gw_world sv)
       in (ok_json (JArr (map report_json rs)), sv\<lparr>gw_world := w\<rparr>))"

definition api_health_one_model ::
  "('c, 'd, 'e) admin_config \<Rightarrow> readings \<Rightarrow> principal \<Rightarrow> id \<Rightarrow> 'c server \<Rightarrow>
   ('d, 'e) server_response \<times> 'c server" where
  "api_health_one_model cfg rd p i =
     guarded cfg p ReadCatalog (\<lambda>sv.
       case get_deployment i (store sv) of
         None \<Rightarrow> (refuse cfg (NotFound ''deployment''), sv)
       | Some d \<Rightarrow>
           (let (r, w) = probe_deployment (app cfg) d (gw_world sv)
            in (ok_json (report_json r), sv\<lparr>gw_world := w, store := remember r (at_now rd 0) (store sv)\<rparr>)))"

definition api_last_health ::
  "('c, 'd, 'e) admin_config \<Rightarrow> principal \<Rightarrow> sqlite_store \<Rightarrow> ('d, 'e) server_response \<times> sqlite_store" where
  "api_last_health cfg p =
     shown cfg p ReadCatalog (\<lambda>s. ok_json (JArr (map (health_json (time_text cfg)) (list_health s))))"

text \<open>The deployments of a model are probed one after the other.\<close>
fun probe_each ::
  "('c, 'd, 'e) admin_config \<Rightarrow> readings \<Rightarrow> nat \<Rightarrow> deployment_record list \<Rightarrow> health_report list \<Rightarrow> 'c server \<Rightarrow>
   health_report list \<times> 'c server" where
  "probe_each cfg rd k [] out sv = (out, sv)"
| "probe_each cfg rd k (d # ds) out sv =
     (let (r, w) = probe_deployment (app cfg) d (gw_world sv)
      in probe_each cfg rd (Suc k) ds (out @ [r])
           (sv\<lparr>gw_world := w, store := remember r (at_now rd k) (store sv)\<rparr>))"

definition api_health_model ::
  "('c, 'd, 'e) admin_config \<Rightarrow> readings \<Rightarrow> principal \<Rightarrow> id \<Rightarrow> 'c server \<Rightarrow>
   ('d, 'e) server_response \<times> 'c server" where
  "api_health_model cfg rd p i =
     guarded cfg p ReadCatalog (\<lambda>sv.
       let mine = filter (\<lambda>d. model_id d = i) (list_deployments (store sv))
       in if mine = [] then (refuse cfg (NotFound ''model has no deployments''), sv)
          else (let (rs, sv) = probe_each cfg rd 0 mine [] sv in (ok_json (JArr (map report_json rs)), sv)))"

section \<open>Aliases\<close>

definition api_list_aliases ::
  "('c, 'd, 'e) admin_config \<Rightarrow> principal \<Rightarrow> sqlite_store \<Rightarrow> ('d, 'e) server_response \<times> sqlite_store" where
  "api_list_aliases cfg p =
     shown cfg p ReadCatalog (\<lambda>s. ok_json (JArr (map (alias_json (time_text cfg)) (list_aliases s))))"

definition api_create_alias ::
  "('c, 'd, 'e) admin_config \<Rightarrow> readings \<Rightarrow> principal \<Rightarrow> string \<Rightarrow> string \<Rightarrow> 'c server \<Rightarrow>
   ('d, 'e) server_response \<times> 'c server" where
  "api_create_alias cfg rd p new target =
     guarded cfg p EditConfig (\<lambda>sv.
       if new = [] \<or> target = [] then (refuse cfg (BadRequest ''alias and target are required''), sv)
       else if new = target then (refuse cfg (BadRequest ''an alias cannot point to itself''), sv)
       else (case validate_public_name new of
               Inl e \<Rightarrow> (refuse cfg e, sv)
             | Inr name \<Rightarrow>
                 (case get_model_by_name target (store sv) of
                    None \<Rightarrow> (refuse cfg (NotFound (''model \"'' @ target @ ''\"'')), sv)
                  | Some m \<Rightarrow>
                      if get_model_by_name name (store sv) \<noteq> None
                      then (refuse cfg (Conflict (''\"'' @ name @ ''\" is already a model name'')), sv)
                      else reloading cfg (alias_json (time_text cfg))
                        (upsert_alias (at_now rd 0) name (md_id m) (store sv)) sv)))"

definition api_delete_alias ::
  "('c, 'd, 'e) admin_config \<Rightarrow> principal \<Rightarrow> string \<Rightarrow> 'c server \<Rightarrow> ('d, 'e) server_response \<times> 'c server" where
  "api_delete_alias cfg p n =
     guarded cfg p EditConfig (\<lambda>sv.
       reloading cfg (\<lambda>_. JObj [(''deleted'', JStr n)]) (delete_alias n (store sv), Inr ()) sv)"

section \<open>Typeahead completion\<close>

definition ALIAS_HINT_MAX :: nat where
  "ALIAS_HINT_MAX = 3"

record suggestion =
  sg_value :: string
  sg_label :: string
  sg_hint :: string

definition suggestion_json :: "suggestion \<Rightarrow> json" where
  "suggestion_json g =
     JObj [(''value'', JStr (sg_value g)), (''label'', JStr (sg_label g)), (''hint'', JStr (sg_hint g))]"

definition rank :: "(string \<Rightarrow> string) \<Rightarrow> string \<Rightarrow> string \<Rightarrow> nat option" where
  "rank lower hay needle =
     (if needle = [] then Some 3
      else let h = lower hay
           in if h = needle then Some 0
              else if starts_with h needle then Some 1
              else if contains_str h needle then Some 2
              else None)"

text \<open>A middle dot between spaces.\<close>
definition dot :: string where
  "dot = [CHR '' '', CHR 0xC2, CHR 0xB7, CHR '' '']"

definition provider_suggestion :: "deployment_record list \<Rightarrow> provider_record \<Rightarrow> suggestion" where
  "provider_suggestion ds p =
     (let n = length (filter (\<lambda>d. provider_id d = pv_id p) ds)
      in \<lparr>sg_value = pv_id p, sg_label = pv_name p,
          sg_hint = show_nat n @ '' deployment'' @ (if n = 1 then [] else ''s'') @
            (case pv_api_base p of None \<Rightarrow> [] | Some b \<Rightarrow> dot @ b)\<rparr>)"

definition model_suggestion :: "deployment_record list \<Rightarrow> string list \<Rightarrow> model_record \<Rightarrow> suggestion" where
  "model_suggestion ds names m =
     (let names = sort names;
          providers = remdups_adj (sort (map provider (filter (\<lambda>d. model_id d = md_id m) ds)));
          n = min (length names) ALIAS_HINT_MAX
      in \<lparr>sg_value = md_id m, sg_label = md_name m,
          sg_hint = join '', '' providers @
            (if names = [] then []
             else dot @ ''aka '' @ join '', '' (take n names) @
               (if length names > n then '' +'' @ show_nat (length names - n) @ '' more'' else []))\<rparr>)"

definition aliases_of :: "model_alias list \<Rightarrow> model_record \<Rightarrow> string list" where
  "aliases_of als m = map alias_name (filter (\<lambda>a. alias_model_id a = md_id m) als)"

text \<open>A model is found by its name, else by the best of its aliases.\<close>
definition model_rank :: "(string \<Rightarrow> string) \<Rightarrow> string \<Rightarrow> string list \<Rightarrow> model_record \<Rightarrow> nat option" where
  "model_rank lower needle names m =
     (case rank lower (md_name m) needle of
        Some r \<Rightarrow> Some r
      | None \<Rightarrow>
          (let rs = List.map_filter (\<lambda>a. rank lower a needle) names
           in if rs = [] then None else Some (Min (set rs))))"

definition ranked :: "('a \<Rightarrow> nat option) \<Rightarrow> ('a \<Rightarrow> suggestion) \<Rightarrow> 'a list \<Rightarrow> (nat \<times> suggestion) list" where
  "ranked rk f xs = List.map_filter (\<lambda>x. map_option (\<lambda>r. (r, f x)) (rk x)) xs"

definition model_hits :: "(string \<Rightarrow> string) \<Rightarrow> string \<Rightarrow> sqlite_store \<Rightarrow> (nat \<times> suggestion) list" where
  "model_hits lower needle s =
     ranked (\<lambda>m. model_rank lower needle (aliases_of (list_aliases s) m) m)
       (\<lambda>m. model_suggestion (list_deployments s) (aliases_of (list_aliases s) m) m)
       (sort_key md_id (dedup_key md_id {} (list_models s)))"

definition provider_hits :: "(string \<Rightarrow> string) \<Rightarrow> string \<Rightarrow> sqlite_store \<Rightarrow> (nat \<times> suggestion) list" where
  "provider_hits lower needle s =
     ranked (\<lambda>p. rank lower (pv_name p) needle) (provider_suggestion (list_deployments s)) (list_providers s)"

definition user_hits :: "(string \<Rightarrow> string) \<Rightarrow> string \<Rightarrow> sqlite_store \<Rightarrow> (nat \<times> suggestion) list" where
  "user_hits lower needle s =
     ranked (\<lambda>u. rank lower (username u) needle)
       (\<lambda>u. \<lparr>sg_value = user_id u, sg_label = username u, sg_hint = role_as_str (user_role u)\<rparr>) (list_users s)"

definition best_hits :: "nat option \<Rightarrow> (nat \<times> suggestion) list \<Rightarrow> suggestion list" where
  "best_hits limit hits =
     map snd (take (min (max (case limit of None \<Rightarrow> 20 | Some n \<Rightarrow> n) 1) 100)
       (sort_key (\<lambda>h. (fst h, sg_label (snd h))) hits))"

definition api_complete ::
  "('c, 'd, 'e) admin_config \<Rightarrow> principal \<Rightarrow> string \<Rightarrow> string \<Rightarrow> nat option \<Rightarrow> sqlite_store \<Rightarrow>
   ('d, 'e) server_response \<times> sqlite_store" where
  "api_complete cfg p kind q limit s =
     (let needle = lowercase cfg (trim q);
          answer = (\<lambda>hits. ok_json (JArr (map suggestion_json (best_hits limit hits))))
      in if kind = ''provider'' then shown cfg p ReadCatalog (\<lambda>s. answer (provider_hits (lowercase cfg) needle s)) s
         else if kind = ''model'' then shown cfg p ReadCatalog (\<lambda>s. answer (model_hits (lowercase cfg) needle s)) s
         else if kind = ''user'' then shown cfg p ManageMembers (\<lambda>s. answer (user_hits (lowercase cfg) needle s)) s
         else (refuse cfg (BadRequest (''unknown completion kind '' @ debug_str cfg kind @
                '' (expected model, provider, or user)'')), s))"

section \<open>Keys\<close>

record create_key_body =
  ck_name :: "string option"
  ck_owner :: "id option"
  ck_team :: "id option"
  ck_scopes :: "string list option"
  ck_access :: access_policy
  ck_rpm_limit :: "int option"
  ck_tpm_limit :: "int option"
  ck_max_concurrent :: "int option"

definition api_list_keys ::
  "('c, 'd, 'e) admin_config \<Rightarrow> principal \<Rightarrow> sqlite_store \<Rightarrow> ('d, 'e) server_response \<times> sqlite_store" where
  "api_list_keys cfg p s =
     (ok_json (JArr (map (key_json (time_text cfg))
        (if is_admin p then list_api_keys s else list_api_keys_for_user (principal_user_id p) s))), s)"

definition new_api_key ::
  "('c, 'd, 'e) admin_config \<Rightarrow> readings \<Rightarrow> id \<Rightarrow> key_scope list \<Rightarrow> create_key_body \<Rightarrow> string \<times> api_key" where
  "new_api_key cfg rd owner scs b =
     (let entropy = at_uuid rd 0 @ at_uuid rd 1;
          tk = ''yb_'' @ entropy
      in (tk, \<lparr>key_id = at_id rd 0, owner_user_id = owner, team_id = ck_team b, hash = hex_sha256 (app cfg) tk,
               key_prefix = ''yb_'' @ take 8 entropy, key_suffix = drop (length entropy - 4) entropy,
               key_name = ck_name b, scopes = scs, access = ck_access b, rpm_limit = ck_rpm_limit b,
               tpm_limit = ck_tpm_limit b, key_max_concurrent = ck_max_concurrent b,
               key_created_at = at_now rd 0, last_used_at = None, key_deleted_at = None\<rparr>))"

definition api_create_key ::
  "('c, 'd, 'e) admin_config \<Rightarrow> readings \<Rightarrow> principal \<Rightarrow> create_key_body \<Rightarrow> sqlite_store \<Rightarrow>
   ('d, 'e) server_response \<times> sqlite_store" where
  "api_create_key cfg rd p b s =
     (let owner = (if is_admin p then (case ck_owner b of None \<Rightarrow> principal_user_id p | Some u \<Rightarrow> u)
                   else principal_user_id p)
      in case parse_set (case ck_scopes b of None \<Rightarrow> ''inference'' | Some l \<Rightarrow> join '' '' l) of
           Inl e \<Rightarrow> (refuse cfg e, s)
         | Inr scs \<Rightarrow>
             if AdminScope \<in> set scs \<and> \<not> is_admin p
             then (refuse cfg (Forbidden ''only admins may create admin-scope keys''), s)
             else (let (tk, k) = new_api_key cfg rd owner scs b
                   in case create_api_key k s of
                        Inl e \<Rightarrow> (refuse cfg e, s)
                      | Inr s' \<Rightarrow>
                          (ok_json (JObj [(''token'', JStr tk), (''key'', key_json (time_text cfg) k)]), s')))"

definition api_delete_key ::
  "('c, 'd, 'e) admin_config \<Rightarrow> readings \<Rightarrow> principal \<Rightarrow> id \<Rightarrow> sqlite_store \<Rightarrow>
   ('d, 'e) server_response \<times> sqlite_store" where
  "api_delete_key cfg rd p i s =
     (case own_key_or_admin p i s of
        Inl e \<Rightarrow> (refuse cfg e, s)
      | Inr _ \<Rightarrow> (respond_unit cfg (Inr ()), delete_api_key (at_now rd 0) i s))"

definition api_get_key ::
  "('c, 'd, 'e) admin_config \<Rightarrow> principal \<Rightarrow> id \<Rightarrow> sqlite_store \<Rightarrow> ('d, 'e) server_response \<times> sqlite_store" where
  "api_get_key cfg p i s = (respond cfg (key_json (time_text cfg)) (own_key_or_admin p i s), s)"

text \<open>A field left out keeps the limit, \<open>null\<close> clears it.\<close>
definition key_limit :: "json_object \<Rightarrow> string \<Rightarrow> int option \<Rightarrow> int option result" where
  "key_limit b field current =
     (let bad = Inl (BadRequest (field @ '' must be a non-negative integer or null''))
      in case jget_obj b field of
           None \<Rightarrow> Inr current
         | Some v \<Rightarrow>
             if v = JNull then Inr None
             else (case as_i64 v of Some n \<Rightarrow> if n \<ge> 0 then Inr (Some n) else bad | None \<Rightarrow> bad))"

definition key_limits :: "json_object \<Rightarrow> api_key \<Rightarrow> limit_columns result" where
  "key_limits b k =
     (case (key_limit b ''rpm_limit'' (rpm_limit k), key_limit b ''tpm_limit'' (tpm_limit k),
            key_limit b ''max_concurrent'' (key_max_concurrent k)) of
        (Inr r, Inr t, Inr c) \<Rightarrow> Inr \<lparr>lc_rpm = r, lc_tpm = t, lc_max_concurrent = c\<rparr>
      | (Inl e, _, _) \<Rightarrow> Inl e | (_, Inl e, _) \<Rightarrow> Inl e | (_, _, Inl e) \<Rightarrow> Inl e)"

definition new_key_name :: "json_object \<Rightarrow> string option option result" where
  "new_key_name b =
     (case jget_obj b ''name'' of
        None \<Rightarrow> Inr None
      | Some JNull \<Rightarrow> Inr (Some None)
      | Some (JStr n) \<Rightarrow> Inr (Some (Some n))
      | Some _ \<Rightarrow> Inl (BadRequest ''name must be a string or null''))"

definition api_update_key ::
  "('c, 'd, 'e) admin_config \<Rightarrow> principal \<Rightarrow> id \<Rightarrow> json_object \<Rightarrow> sqlite_store \<Rightarrow>
   ('d, 'e) server_response \<times> sqlite_store" where
  "api_update_key cfg p i b s =
     (case own_key_or_admin p i s of
        Inl e \<Rightarrow> (refuse cfg e, s)
      | Inr k \<Rightarrow>
          (case key_limits b k of
             Inl e \<Rightarrow> (refuse cfg e, s)
           | Inr lims \<Rightarrow>
               (case new_key_name b of
                  Inl e \<Rightarrow> (refuse cfg e, s)
                | Inr name \<Rightarrow>
                    (let s1 = (case name of None \<Rightarrow> s | Some n \<Rightarrow> rename_api_key i n s);
                         s2 = update_api_key_limits i lims s1
                     in (ok_json (jopt (key_json (time_text cfg)) (get_api_key i s2)), s2)))))"

definition api_key_access ::
  "('c, 'd, 'e) admin_config \<Rightarrow> principal \<Rightarrow> id \<Rightarrow> access_policy \<Rightarrow> sqlite_store \<Rightarrow>
   ('d, 'e) server_response \<times> sqlite_store" where
  "api_key_access cfg p i acc s =
     (case own_key_or_admin p i s of
        Inl e \<Rightarrow> (refuse cfg e, s)
      | Inr _ \<Rightarrow> (respond_unit cfg (Inr ()), update_api_key_access i acc s))"

section \<open>Teams\<close>

definition api_list_teams ::
  "('c, 'd, 'e) admin_config \<Rightarrow> principal \<Rightarrow> sqlite_store \<Rightarrow> ('d, 'e) server_response \<times> sqlite_store" where
  "api_list_teams cfg p =
     shown cfg p ManageMembers (\<lambda>s. ok_json (JArr (map (team_json (time_text cfg)) (list_teams s))))"

definition api_create_team ::
  "('c, 'd, 'e) admin_config \<Rightarrow> readings \<Rightarrow> principal \<Rightarrow> string \<Rightarrow> access_policy \<Rightarrow> sqlite_store \<Rightarrow>
   ('d, 'e) server_response \<times> sqlite_store" where
  "api_create_team cfg rd p name acc =
     guarded cfg p ManageMembers (\<lambda>s.
       let t = \<lparr>tm_id = at_id rd 0, tm_name = name, tm_access = acc, tm_created_at = at_now rd 0,
                tm_updated_at = at_now rd 1, tm_deleted_at = None, tm_created_by = Some (principal_username p)\<rparr>
       in case create_team t s of
            Inl e \<Rightarrow> (refuse cfg e, s) | Inr s' \<Rightarrow> (ok_json (team_json (time_text cfg) t), s'))"

definition api_delete_team ::
  "('c, 'd, 'e) admin_config \<Rightarrow> readings \<Rightarrow> principal \<Rightarrow> id \<Rightarrow> sqlite_store \<Rightarrow>
   ('d, 'e) server_response \<times> sqlite_store" where
  "api_delete_team cfg rd p i =
     guarded cfg p ManageMembers (\<lambda>s. (respond_unit cfg (Inr ()), delete_team (at_now rd 0) i s))"

definition api_team_access ::
  "('c, 'd, 'e) admin_config \<Rightarrow> readings \<Rightarrow> principal \<Rightarrow> id \<Rightarrow> access_policy \<Rightarrow> sqlite_store \<Rightarrow>
   ('d, 'e) server_response \<times> sqlite_store" where
  "api_team_access cfg rd p i acc =
     guarded cfg p ManageMembers (\<lambda>s. (respond_unit cfg (Inr ()), update_team_access (at_now rd 0) i acc s))"

definition api_add_member ::
  "('c, 'd, 'e) admin_config \<Rightarrow> readings \<Rightarrow> principal \<Rightarrow> id \<Rightarrow> id \<Rightarrow> sqlite_store \<Rightarrow>
   ('d, 'e) server_response \<times> sqlite_store" where
  "api_add_member cfg rd p team member =
     guarded cfg p ManageMembers (\<lambda>s.
       let m = \<lparr>mb_id = at_id rd 0, mb_team_id = team, mb_user_id = member, mb_created_at = at_now rd 0\<rparr>
       in case upsert_membership m s of
            Inl e \<Rightarrow> (refuse cfg e, s) | Inr s' \<Rightarrow> (ok_json (membership_json (time_text cfg) m), s'))"

definition api_list_members ::
  "('c, 'd, 'e) admin_config \<Rightarrow> principal \<Rightarrow> id \<Rightarrow> sqlite_store \<Rightarrow> ('d, 'e) server_response \<times> sqlite_store" where
  "api_list_members cfg p team =
     shown cfg p ManageMembers (\<lambda>s. ok_json (JArr (map (membership_json (time_text cfg)) (list_team_members team s))))"

definition api_remove_member ::
  "('c, 'd, 'e) admin_config \<Rightarrow> principal \<Rightarrow> id \<Rightarrow> id \<Rightarrow> sqlite_store \<Rightarrow>
   ('d, 'e) server_response \<times> sqlite_store" where
  "api_remove_member cfg p team member =
     guarded cfg p ManageMembers (\<lambda>s. (respond_unit cfg (Inr ()), delete_membership team member s))"

section \<open>Budgets, spend and usage\<close>

definition api_list_budgets ::
  "('c, 'd, 'e) admin_config \<Rightarrow> principal \<Rightarrow> string \<Rightarrow> string \<Rightarrow> sqlite_store \<Rightarrow>
   ('d, 'e) server_response \<times> sqlite_store" where
  "api_list_budgets cfg p st sid =
     shown cfg p ViewSpend (\<lambda>s. respond cfg (\<lambda>bs. JArr (map (budget_json (time_text cfg)) bs))
       (case subject_type_parse st of Inl e \<Rightarrow> Inl e | Inr t \<Rightarrow> Inr (list_budgets t sid s)))"

definition api_put_budget ::
  "('c, 'd, 'e) admin_config \<Rightarrow> principal \<Rightarrow> budget \<Rightarrow> sqlite_store \<Rightarrow> ('d, 'e) server_response \<times> sqlite_store" where
  "api_put_budget cfg p b = guarded cfg p EditConfig (\<lambda>s. (respond_unit cfg (Inr ()), upsert_budget b s))"

definition api_delete_budget ::
  "('c, 'd, 'e) admin_config \<Rightarrow> readings \<Rightarrow> principal \<Rightarrow> id \<Rightarrow> sqlite_store \<Rightarrow>
   ('d, 'e) server_response \<times> sqlite_store" where
  "api_delete_budget cfg rd p i =
     guarded cfg p EditConfig (\<lambda>s. (respond_unit cfg (Inr ()), delete_budget (at_now rd 0) i s))"

definition api_spend ::
  "('c, 'd, 'e) admin_config \<Rightarrow> principal \<Rightarrow> sqlite_store \<Rightarrow> ('d, 'e) server_response \<times> sqlite_store" where
  "api_spend cfg p = shown cfg p ViewSpend (\<lambda>s. ok_json (JArr (map (spend_json (time_text cfg)) (spend_rows s))))"

text \<open>A day is its number since the epoch.\<close>
definition midnight :: "int \<Rightarrow> timestamp" where
  "midnight d = d * day_nanos"

definition api_usage ::
  "('c, 'd, 'e) admin_config \<Rightarrow> principal \<Rightarrow> int \<Rightarrow> int \<Rightarrow> sqlite_store \<Rightarrow> ('d, 'e) server_response \<times> sqlite_store" where
  "api_usage cfg p first final s =
     ((if \<not> is_admin p then refuse cfg (Forbidden ''usage is for administrators'')
       else if final < first then refuse cfg (BadRequest ''to is before from'')
       else ok_json (JArr (map usage_json
              (usage_report (day_of cfg) (midnight first) (midnight final + day_nanos) s)))), s)"

section \<open>Calls\<close>

text \<open>The routes that need a principal, one constructor each, with what their extractors read.\<close>
datatype admin_call =
    Me | ChangePassword string string
  | ListUsers | CreateUser string string "string option" | InviteUser string "string option"
  | DeleteUser id | SetUserRole id string | SetUserPassword id string
  | ListModels | CreateModel string | RenameModelTo id string
  | ListDeployments | CreateDeployment create_model_body | HealthAll | DeleteDeployment id
  | HealthDeployment id | HealthModel id | LastHealth
  | ListProviders | CreateProvider provider_body | UpdateProvider id provider_body | DeleteProvider id
  | DiscoverModels id upstream_format | BulkDeployments string upstream_format "bulk_entry list"
  | ListAliases | CreateAlias string string | DeleteAlias string
  | ListKeys | CreateKey create_key_body | GetKey id | UpdateKey id json_object | DeleteKey id
  | KeyAccess id access_policy
  | ListTeams | CreateTeam string access_policy | DeleteTeam id | TeamAccess id access_policy
  | AddMember id id | ListMembers id | RemoveMember id id
  | ListBudgets string string | PutBudget budget | DeleteBudget id
  | Complete string string "nat option" | Spend | Usage int int

definition on_store ::
  "(sqlite_store \<Rightarrow> ('d, 'e) server_response \<times> sqlite_store) \<Rightarrow> 'c server \<Rightarrow>
   ('d, 'e) server_response outcome \<times> 'c server" where
  "on_store f sv = (let (r, s) = f (store sv) in (Returned r, sv\<lparr>store := s\<rparr>))"

definition on_server ::
  "('c server \<Rightarrow> ('d, 'e) server_response \<times> 'c server) \<Rightarrow> 'c server \<Rightarrow>
   ('d, 'e) server_response outcome \<times> 'c server" where
  "on_server f sv = (let (r, sv) = f sv in (Returned r, sv))"

fun admin_step ::
  "('c, 'd, 'e) admin_config \<Rightarrow> readings \<Rightarrow> principal \<Rightarrow> admin_call \<Rightarrow> 'c server \<Rightarrow>
   ('d, 'e) server_response outcome \<times> 'c server" where
  "admin_step cfg rd p Me = on_store (\<lambda>s. (auth_me p, s))"
| "admin_step cfg rd p (ChangePassword old new) = on_store (change_my_password cfg rd p old new)"
| "admin_step cfg rd p ListUsers = on_store (api_list_users cfg p)"
| "admin_step cfg rd p (CreateUser n pw r) = on_store (api_create_user cfg rd p n pw r)"
| "admin_step cfg rd p (InviteUser e r) = on_store (api_invite_user cfg rd p e r)"
| "admin_step cfg rd p (DeleteUser i) = on_store (api_delete_user cfg rd p i)"
| "admin_step cfg rd p (SetUserRole i r) = on_store (api_set_user_role cfg p i r)"
| "admin_step cfg rd p (SetUserPassword i pw) = on_store (api_set_user_password cfg rd p i pw)"
| "admin_step cfg rd p ListModels = on_store (api_list_models cfg p)"
| "admin_step cfg rd p (CreateModel n) = on_server (api_create_model cfg rd p n)"
| "admin_step cfg rd p (RenameModelTo i n) = on_server (api_rename_model cfg rd p i n)"
| "admin_step cfg rd p ListDeployments = on_store (api_list_deployments cfg p)"
| "admin_step cfg rd p (CreateDeployment b) = on_server (api_create_deployment cfg rd p b)"
| "admin_step cfg rd p HealthAll = on_server (api_health_all_models cfg p)"
| "admin_step cfg rd p (DeleteDeployment i) = on_server (api_delete_deployment cfg rd p i)"
| "admin_step cfg rd p (HealthDeployment i) = on_server (api_health_one_model cfg rd p i)"
| "admin_step cfg rd p (HealthModel i) = on_server (api_health_model cfg rd p i)"
| "admin_step cfg rd p LastHealth = on_store (api_last_health cfg p)"
| "admin_step cfg rd p ListProviders = on_store (api_list_providers cfg p)"
| "admin_step cfg rd p (CreateProvider b) = on_server (api_create_provider cfg rd p b)"
| "admin_step cfg rd p (UpdateProvider i b) = on_server (api_update_provider cfg rd p i b)"
| "admin_step cfg rd p (DeleteProvider i) = on_server (api_delete_provider cfg p i)"
| "admin_step cfg rd p (DiscoverModels i fmt) = api_discover_provider_models cfg p i fmt"
| "admin_step cfg rd p (BulkDeployments pn fmt es) = on_server (api_create_deployments_bulk cfg rd p pn fmt es)"
| "admin_step cfg rd p ListAliases = on_store (api_list_aliases cfg p)"
| "admin_step cfg rd p (CreateAlias n t) = on_server (api_create_alias cfg rd p n t)"
| "admin_step cfg rd p (DeleteAlias n) = on_server (api_delete_alias cfg p n)"
| "admin_step cfg rd p ListKeys = on_store (api_list_keys cfg p)"
| "admin_step cfg rd p (CreateKey b) = on_store (api_create_key cfg rd p b)"
| "admin_step cfg rd p (GetKey i) = on_store (api_get_key cfg p i)"
| "admin_step cfg rd p (UpdateKey i b) = on_store (api_update_key cfg p i b)"
| "admin_step cfg rd p (DeleteKey i) = on_store (api_delete_key cfg rd p i)"
| "admin_step cfg rd p (KeyAccess i acc) = on_store (api_key_access cfg p i acc)"
| "admin_step cfg rd p ListTeams = on_store (api_list_teams cfg p)"
| "admin_step cfg rd p (CreateTeam n acc) = on_store (api_create_team cfg rd p n acc)"
| "admin_step cfg rd p (DeleteTeam i) = on_store (api_delete_team cfg rd p i)"
| "admin_step cfg rd p (TeamAccess i acc) = on_store (api_team_access cfg rd p i acc)"
| "admin_step cfg rd p (AddMember t u) = on_store (api_add_member cfg rd p t u)"
| "admin_step cfg rd p (ListMembers t) = on_store (api_list_members cfg p t)"
| "admin_step cfg rd p (RemoveMember t u) = on_store (api_remove_member cfg p t u)"
| "admin_step cfg rd p (ListBudgets st sid) = on_store (api_list_budgets cfg p st sid)"
| "admin_step cfg rd p (PutBudget b) = on_store (api_put_budget cfg p b)"
| "admin_step cfg rd p (DeleteBudget i) = on_store (api_delete_budget cfg rd p i)"
| "admin_step cfg rd p (Complete k q l) = on_store (api_complete cfg p k q l)"
| "admin_step cfg rd p Spend = on_store (api_spend cfg p)"
| "admin_step cfg rd p (Usage f l) = on_store (api_usage cfg p f l)"

text \<open>A request of a route that needs a principal: who calls, then the handler with readings of its own.\<close>
definition serve_admin ::
  "('c, 'd, 'e) admin_config \<Rightarrow> readings \<Rightarrow> readings \<Rightarrow> header_list \<Rightarrow> admin_call \<Rightarrow> 'c server \<Rightarrow>
   ('d, 'e) server_response outcome \<times> 'c server" where
  "serve_admin cfg rd0 rd hs c sv =
     (case extract_principal cfg rd0 hs (store sv) of
        (Inl e, s) \<Rightarrow> (Returned (refuse cfg e), sv\<lparr>store := s\<rparr>)
      | (Inr p, s) \<Rightarrow> admin_step cfg rd p c (sv\<lparr>store := s\<rparr>))"

end
