(* ===== verification/Admin_Laws.thy ===== *)
theory Admin_Laws
  imports Admin_Api
begin

text \<open>
  What holds of the store and the routing table under the calls of the admin API: every call is a
  sequence of statements of the store, so the schema's invariant holds throughout; a public name
  stays a model's or an alias's and never both; and the routing table always agrees with the tables.
\<close>

named_theorems api_defs \<open>the handlers on rows\<close>

lemmas store_handler_defs [api_defs] =
  api_list_users_def api_create_user_def api_invite_user_def api_set_user_role_def
  api_set_user_password_def api_delete_user_def api_list_providers_def api_list_deployments_def
  api_list_models_def api_last_health_def api_list_aliases_def api_complete_def api_list_keys_def
  api_create_key_def api_delete_key_def api_get_key_def api_update_key_def api_key_access_def
  api_list_teams_def api_create_team_def api_delete_team_def api_team_access_def api_add_member_def
  api_list_members_def api_remove_member_def api_list_budgets_def api_put_budget_def
  api_delete_budget_def api_spend_def api_usage_def

section \<open>Handlers are sequences of statements\<close>

abbreviation store_steps :: "sqlite_store \<Rightarrow> sqlite_store \<Rightarrow> bool" where
  "store_steps \<equiv> store_step\<^sup>*\<^sup>*"

lemma store_steps_ok: "store_steps s s' \<Longrightarrow> store_ok s \<Longrightarrow> store_ok s'"
  by (induction rule: rtranclp_induct) (auto intro: store_step_ok)

lemma guarded_rel:
  assumes "\<And>s. R s (snd (body s))" "\<And>s. R s s" shows "R s (snd (guarded cfg p a body s))"
  using assms by (simp add: guarded_def split: sum.split)

lemma shown_same [simp]: "snd (shown cfg p a view s) = s"
  by (simp add: shown_def guarded_def split: sum.split)

lemmas one_step = r_into_rtranclp [where r = store_step]

lemma users_api_steps:
  "store_steps s (snd (api_create_user cfg rd p n pw r s))"
  "store_steps s (snd (api_invite_user cfg rd p n r s))"
  "store_steps s (snd (api_set_user_role cfg p i rn s))"
  "store_steps s (snd (api_set_user_password cfg rd p i pw s))"
  "store_steps s (snd (api_delete_user cfg rd p i s))"
  "store_steps s (snd (change_my_password cfg rd p old new s))"
  by (auto simp: api_defs change_my_password_def guarded_def Let_def split: sum.split option.split
      intro: one_step store_step.intros)

lemma keys_api_steps:
  "store_steps s (snd (api_create_key cfg rd p b s))"
  "store_steps s (snd (api_delete_key cfg rd p i s))"
  "store_steps s (snd (api_key_access cfg p i acc s))"
  by (auto simp: api_defs Let_def split: sum.split option.split prod.split
      intro: one_step store_step.intros)

lemma update_key_steps: "store_steps s (snd (api_update_key cfg p i b s))"
proof -
  have "store_steps s (update_api_key_limits i l (rename_api_key i n s))" for l n
    by (rule converse_rtranclp_into_rtranclp, rule store_step.intros(14), rule one_step, rule store_step.intros(13))
  moreover have "store_steps s (update_api_key_limits i l s)" for l
    by (rule one_step, rule store_step.intros(13))
  ultimately show ?thesis by (simp add: api_update_key_def Let_def split: sum.split option.split)
qed

lemma teams_api_steps:
  "store_steps s (snd (api_create_team cfg rd p n acc s))"
  "store_steps s (snd (api_delete_team cfg rd p i s))"
  "store_steps s (snd (api_team_access cfg rd p i acc s))"
  "store_steps s (snd (api_add_member cfg rd p i j s))"
  "store_steps s (snd (api_remove_member cfg p i j s))"
  "store_steps s (snd (api_put_budget cfg p bu s))"
  "store_steps s (snd (api_delete_budget cfg rd p i s))"
  by (auto simp: api_defs guarded_def Let_def split: sum.split option.split
      intro: one_step store_step.intros)

lemma reads_api_same [simp]:
  "snd (api_list_users cfg p s) = s" "snd (api_list_models cfg p s) = s"
  "snd (api_list_deployments cfg p s) = s" "snd (api_last_health cfg p s) = s"
  "snd (api_list_providers cfg p s) = s" "snd (api_list_aliases cfg p s) = s"
  "snd (api_list_keys cfg p s) = s" "snd (api_get_key cfg p i s) = s" "snd (api_list_teams cfg p s) = s"
  "snd (api_list_members cfg p i s) = s" "snd (api_list_budgets cfg p st i s) = s"
  "snd (api_complete cfg p k q l s) = s" "snd (api_spend cfg p s) = s" "snd (api_usage cfg p f u s) = s"
  by (simp_all add: api_defs Let_def)

lemma remember_steps: "store_steps s (remember r t s)"
  by (auto simp: remember_def split: sum.split intro: one_step store_step.intros)

lemma probe_each_steps: "store_steps (store sv) (store (snd (probe_each cfg rd k ds out sv)))"
proof (induction cfg rd k ds out sv rule: probe_each.induct)
  case (2 cfg rd k d ds out sv)
  obtain r w where p: "probe_deployment (app cfg) d (gw_world sv) = (r, w)" by force
  have "store_steps (store sv) (remember r (at_now rd k) (store sv))" by (rule remember_steps)
  with 2 [OF p [symmetric]] p show ?case by simp
qed simp

lemma bulk_loop_steps: "store_steps s (snd (bulk_loop cfg rd pn fmt k es acc s))"
proof (induction cfg rd pn fmt k es acc s rule: bulk_loop.induct)
  case (2 cfg rd pn fmt k e es created skipped errors s)
  show ?case
  proof (cases "validate_public_name (be_model_name e)")
    case (Inl x)
    with 2(1) show ?thesis by simp
  next
    case (Inr name)
    obtain s' res where r: "seed_deployment (at_now rd k) (at_id rd (5 * k), at_id rd (5 * k + 1))
              (at_id rd (5 * k + 2), at_id rd (5 * k + 3), at_id rd (5 * k + 4))
              (bulk_deployment pn fmt name e) s = (s', res)" by force
    have "store_step s s'" using store_step.intros(36) r by (metis fst_conv)
    then have "store_steps s' t \<Longrightarrow> store_steps s t" for t by (rule converse_rtranclp_into_rtranclp)
    then show ?thesis using 2(2-4) Inr r
      by (auto split: sum.split bool.split)
  qed
qed simp

lemma reload_models_store [simp]: "store (reload_models sv) = store sv"
  by (simp add: reload_models_def Let_def)

lemma reloading_store [simp]: "store (snd (reloading cfg view r sv)) = fst r"
  by (simp add: reloading_def split: prod.split sum.split)

lemma then_run_steps:
  assumes "store_step s (fst r)" "\<And>x s1. store_step s1 (fst (k x s1))"
  shows "store_steps s (fst (then_run r k))"
  using assms(1) one_step [OF assms(2)]
  by (auto simp: then_run_def split: prod.split sum.split intro: converse_rtranclp_into_rtranclp)

lemma catalog_api_steps:
  "store_steps (store sv) (store (snd (api_create_provider cfg rd p pb sv)))"
  "store_steps (store sv) (store (snd (api_update_provider cfg rd p i pb sv)))"
  "store_steps (store sv) (store (snd (api_delete_provider cfg p i sv)))"
  "store_steps (store sv) (store (snd (api_create_deployments_bulk cfg rd p pn fmt es sv)))"
  "store_steps (store sv) (store (snd (api_rename_model cfg rd p i n sv)))"
  "store_steps (store sv) (store (snd (api_create_model cfg rd p n sv)))"
  "store_steps (store sv) (store (snd (api_create_deployment cfg rd p cb sv)))"
  "store_steps (store sv) (store (snd (api_delete_deployment cfg rd p i sv)))"
  "store_steps (store sv) (store (snd (api_create_alias cfg rd p n t sv)))"
  "store_steps (store sv) (store (snd (api_delete_alias cfg p n sv)))"
proof -
  let ?R = "\<lambda>sv sv'. store_steps (store sv) (store sv')"
  have g: "?R sv (snd (guarded cfg p EditConfig body sv))" if "\<And>sv. ?R sv (snd (body sv))" for body
    by (rule guarded_rel [of ?R]) (use that in auto)
  have del: "store_steps s (fst (keep_on_error s (delete_provider i s)))" for s
    by (auto simp: keep_on_error_def split: sum.split intro: one_step store_step.intros)
  show "?R sv (snd (api_create_provider cfg rd p pb sv))"
    unfolding api_create_provider_def
    by (rule g) (auto split: sum.split intro!: then_run_steps store_step.intros)
  show "?R sv (snd (api_update_provider cfg rd p i pb sv))"
    unfolding api_update_provider_def
    by (rule g) (auto split: sum.split intro: one_step store_step.intros)
  show "?R sv (snd (api_delete_provider cfg p i sv))"
    unfolding api_delete_provider_def by (rule g) (simp add: del)
  show "?R sv (snd (api_create_deployments_bulk cfg rd p pn fmt es sv))"
  proof -
    have "store_steps s t" if "bulk_loop cfg rd q fmt 0 es a s = (x, t)" for s t q a x
      using bulk_loop_steps [of s cfg rd q fmt 0 es a] that by simp
    then show ?thesis unfolding api_create_deployments_bulk_def
      by (intro g) (auto split: sum.split prod.split simp: Let_def)
  qed
  show "?R sv (snd (api_rename_model cfg rd p i n sv))"
    unfolding api_rename_model_def by (rule g) (auto split: sum.split intro: one_step store_step.intros)
  show "?R sv (snd (api_create_model cfg rd p n sv))"
    unfolding api_create_model_def by (rule g) (auto split: sum.split intro: one_step store_step.intros)
  show "?R sv (snd (api_create_deployment cfg rd p cb sv))"
    unfolding api_create_deployment_def by (rule g) (auto split: sum.split intro: one_step store_step.intros)
  show "?R sv (snd (api_delete_deployment cfg rd p i sv))"
    unfolding api_delete_deployment_def by (rule g) (auto intro: one_step store_step.intros)
  show "?R sv (snd (api_create_alias cfg rd p n t sv))"
    unfolding api_create_alias_def by (rule g) (auto split: sum.split option.split intro: one_step store_step.intros)
  show "?R sv (snd (api_delete_alias cfg p n sv))"
    unfolding api_delete_alias_def by (rule g) (auto intro: one_step store_step.intros)
qed

lemma health_api_steps:
  "store_steps (store sv) (store (snd (api_health_all_models cfg p sv)))"
  "store_steps (store sv) (store (snd (api_health_one_model cfg rd p i sv)))"
  "store_steps (store sv) (store (snd (api_health_model cfg rd p i sv)))"
proof -
  have probe: "store_steps (store sv) (store sv')" if "probe_each cfg rd k ds out sv = (rs, sv')" for k ds out rs sv sv'
    using probe_each_steps [of sv cfg rd k ds out] that by simp
  show "store_steps (store sv) (store (snd (api_health_all_models cfg p sv)))"
    "store_steps (store sv) (store (snd (api_health_one_model cfg rd p i sv)))"
    by (auto simp: api_health_all_models_def api_health_one_model_def guarded_def remember_steps
        split: sum.split prod.split option.split)
  show "store_steps (store sv) (store (snd (api_health_model cfg rd p i sv)))"
    by (auto simp: api_health_model_def guarded_def Let_def dest: probe split: sum.split prod.split)
qed

lemma discover_store [simp]: "store (snd (api_discover_provider_models cfg p i fmt sv)) = store sv"
  by (auto simp: api_discover_provider_models_def Let_def split: sum.split option.split prod.split outcome.split)

lemma on_store_store [simp]: "store (snd (on_store f sv)) = snd (f (store sv))"
  by (simp add: on_store_def split: prod.split)

lemma on_server_snd [simp]: "snd (on_server f sv) = snd (f sv)"
  by (simp add: on_server_def split: prod.split)

lemma admin_step_steps: "store_steps (store sv) (store (snd (admin_step cfg rd p c sv)))"
  by (cases c) (simp_all add: users_api_steps keys_api_steps update_key_steps teams_api_steps
      catalog_api_steps health_api_steps)

section \<open>What routing is loaded from\<close>

text \<open>The tables the routing table is loaded from, and what is loaded.\<close>
definition catalog ::
  "sqlite_store \<Rightarrow> model_record list \<times> provider_record list \<times> deployment_row list \<times> alias_row list" where
  "catalog s = (model_rows s, provider_rows s, deployment_rows s, alias_rows s)"

definition served :: "sqlite_store \<Rightarrow> deployment_record list \<times> model_alias list" where
  "served s = (list_deployments s, list_aliases s)"

lemma catalog_reads:
  assumes "catalog s = catalog s'"
  shows "served s = served s'" "names_disjoint s = names_disjoint s'" "directory s = directory s'"
proof -
  have rows: "model_rows s = model_rows s'" "provider_rows s = provider_rows s'"
    "deployment_rows s = deployment_rows s'" "alias_rows s = alias_rows s'"
    using assms by (simp_all add: catalog_def)
  then have "get_model i s = get_model i s'" "get_provider i s = get_provider i s'" for i
    by (simp_all add: get_model_def get_provider_def)
  then have "join_deployment s = join_deployment s'" "join_alias s = join_alias s'"
    by (auto simp: fun_eq_iff join_deployment_def join_alias_def)
  with rows show "served s = served s'" by (simp add: served_def list_deployments_def list_aliases_def)
  show "names_disjoint s = names_disjoint s'" "directory s = directory s'"
    using rows by (auto simp: names_disjoint_def directory_def get_model_by_name_def alias_owner_def fun_eq_iff
        split: option.split)
qed

lemma statement_catalogs [simp]:
  "create_user u s = Inr s' \<Longrightarrow> catalog s' = catalog s"
  "catalog (set_user_password i h s) = catalog s" "catalog (set_user_role i r s) = catalog s"
  "catalog (mark_user_login t i s) = catalog s" "catalog (Sqlite_Store.delete_user t i s) = catalog s"
  "create_api_key k s = Inr s' \<Longrightarrow> catalog s' = catalog s"
  "catalog (mark_api_key_used t i s) = catalog s" "catalog (delete_api_key t i s) = catalog s"
  "catalog (update_api_key_access i acc s) = catalog s" "catalog (update_api_key_limits i l s) = catalog s"
  "catalog (rename_api_key i n s) = catalog s"
  "create_team tm s = Inr s' \<Longrightarrow> catalog s' = catalog s"
  "catalog (delete_team now i s) = catalog s" "catalog (update_team_access now i acc s) = catalog s"
  "upsert_membership m s = Inr s' \<Longrightarrow> catalog s' = catalog s"
  "catalog (delete_membership i j s) = catalog s" "catalog (upsert_budget b s) = catalog s"
  "catalog (delete_budget now i s) = catalog s" "catalog (remember rp t s) = catalog s"
  by (auto simp: catalog_def create_user_def set_user_password_def set_user_role_def mark_user_login_def
      Sqlite_Store.delete_user_def create_api_key_def mark_api_key_used_def delete_api_key_def
      update_api_key_access_def update_api_key_limits_def rename_api_key_def create_team_def
      delete_team_def update_team_access_def upsert_membership_def delete_membership_def
      upsert_budget_def delete_budget_def remember_def record_health_def split: if_splits sum.splits)

lemma guarded_catalog:
  "(\<And>s. catalog (snd (body s)) = catalog s) \<Longrightarrow> catalog (snd (guarded cfg p a body s)) = catalog s"
  by (simp add: guarded_def split: sum.split)

lemma row_handlers_catalog [simp]:
  "catalog (snd (api_create_user cfg rd p n pw r s)) = catalog s"
  "catalog (snd (api_invite_user cfg rd p n r s)) = catalog s"
  "catalog (snd (api_set_user_role cfg p i rn s)) = catalog s"
  "catalog (snd (api_set_user_password cfg rd p i pw s)) = catalog s"
  "catalog (snd (api_delete_user cfg rd p i s)) = catalog s"
  "catalog (snd (change_my_password cfg rd p old new s)) = catalog s"
  "catalog (snd (api_create_key cfg rd p b s)) = catalog s"
  "catalog (snd (api_delete_key cfg rd p i s)) = catalog s"
  "catalog (snd (api_key_access cfg p i acc s)) = catalog s"
  "catalog (snd (api_update_key cfg p i jb s)) = catalog s"
  "catalog (snd (api_create_team cfg rd p n acc s)) = catalog s"
  "catalog (snd (api_delete_team cfg rd p i s)) = catalog s"
  "catalog (snd (api_team_access cfg rd p i acc s)) = catalog s"
  "catalog (snd (api_add_member cfg rd p i j s)) = catalog s"
  "catalog (snd (api_remove_member cfg p i j s)) = catalog s"
  "catalog (snd (api_put_budget cfg p bu s)) = catalog s"
  "catalog (snd (api_delete_budget cfg rd p i s)) = catalog s"
  by (auto simp: api_defs change_my_password_def guarded_def Let_def split: sum.split option.split prod.split)

text \<open>The names and deployments a snapshot holds, without the counters that routing moves.\<close>
definition routes_of :: "snapshot \<Rightarrow> (string \<times> deployment list) list \<times> (string \<rightharpoonup> string)" where
  "routes_of snap = (map (\<lambda>(n, e). (n, entry_deployments e)) (models snap), aliases snap)"

definition loaded_routes ::
  "deployment_record list \<times> model_alias list \<Rightarrow> (string \<times> deployment list) list \<times> (string \<rightharpoonup> string)" where
  "loaded_routes sd =
     routes_of (build (map to_deployment (fst sd)) Map.empty
       (map_of (rev (map (\<lambda>a. (alias_name a, alias_target a)) (snd sd)))) Simple)"

text \<open>The routing table agrees with the database.\<close>
definition router_synced :: "'c server \<Rightarrow> bool" where
  "router_synced sv \<longleftrightarrow> routes_of (snapshot (router (gw_world sv))) = loaded_routes (served (store sv))"

lemma synced_reload [simp]: "router_synced (reload_models sv)"
  by (simp add: router_synced_def reload_models_def Let_def reload_def routes_of_def loaded_routes_def
      served_def build_def)

lemma synced_frame:
  "router_synced sv \<Longrightarrow> router (gw_world sv') = router (gw_world sv) \<Longrightarrow>
   served (store sv') = served (store sv) \<Longrightarrow> router_synced sv'"
  by (simp add: router_synced_def)

lemma synced_on_store:
  assumes "router_synced sv" "catalog (snd (f (store sv))) = catalog (store sv)"
  shows "router_synced (snd (on_store f sv))"
proof (rule synced_frame [OF assms(1)])
  show "served (store (snd (on_store f sv))) = served (store sv)"
    using catalog_reads(1) [OF assms(2)] by simp
qed (simp add: on_store_def split: prod.split)

lemma synced_reloading:
  assumes "router_synced sv" "\<And>s e. r = (s, Inl e) \<Longrightarrow> served s = served (store sv)"
  shows "router_synced (snd (reloading cfg view r sv))"
  using assms synced_frame [of sv "sv\<lparr>store := fst r\<rparr>"]
  by (auto simp: reloading_def split: prod.split sum.split)

text \<open>A model or a provider without deployments and aliases serves nothing.\<close>
lemma find_snoc_known: "x \<in> key ` set rows \<Longrightarrow> find (\<lambda>r. key r = x) (rows @ [r]) = find (\<lambda>r. key r = x) rows"
  by (induction rows) auto

lemma served_new_row:
  assumes ok: "store_ok s"
    and ms: "model_rows s' = model_rows s @ [m] \<or> model_rows s' = model_rows s"
    and ps: "provider_rows s' = provider_rows s @ [v] \<or> provider_rows s' = provider_rows s"
    and rows: "deployment_rows s' = deployment_rows s" "alias_rows s' = alias_rows s"
  shows "served s' = served s"
proof -
  have m: "get_model i s' = get_model i s" if "i \<in> md_id ` set (model_rows s)" for i
    using ms find_snoc_known [OF that] by (auto simp: get_model_def)
  have v: "get_provider i s' = get_provider i s" if "i \<in> pv_id ` set (provider_rows s)" for i
    using ps find_snoc_known [OF that] by (auto simp: get_provider_def)
  have "join_deployment s' d = join_deployment s d" if "d \<in> set (deployment_rows s)" for d
    using ok that m [of "dp_model_id d"] v [of "dp_provider_id d"]
    by (simp add: join_deployment_def store_ok_def references_ok_def)
  moreover have "join_alias s' a = join_alias s a" if "a \<in> set (alias_rows s)" for a
    using ok that m [of "al_model_id a"] by (simp add: join_alias_def store_ok_def references_ok_def)
  ultimately have "List.map_filter (join_deployment s') (filter q (deployment_rows s)) =
      List.map_filter (join_deployment s) (filter q (deployment_rows s))"
    "List.map_filter (join_alias s') (alias_rows s) = List.map_filter (join_alias s) (alias_rows s)" for q
    by (auto simp: List.map_filter_def cong: map_cong filter_cong)
  then show ?thesis by (simp add: served_def list_deployments_def list_aliases_def rows)
qed

lemma served_ensure:
  assumes "store_ok s"
  shows "ensure_model now i n s = (s', res) \<Longrightarrow> served s' = served s"
    "ensure_provider now i n s = (s', pres) \<Longrightarrow> served s' = served s"
proof -
  show "served s' = served s" if "ensure_model now i n s = (s', res)"
    using that
  proof (cases rule: ensure_model_cases)
    case (fresh r)
    then show ?thesis by (intro served_new_row [OF assms, of _ r]) auto
  qed simp_all
  show "served s' = served s" if "ensure_provider now i n s = (s', pres)"
    using that served_new_row [OF assms, of s']
    by (fastforce simp: ensure_provider_def Let_def split: option.splits if_splits)
qed

section \<open>A refused change of the catalog serves what was served\<close>

lemma rename_refused_serves:
  assumes "rename_model now i n s = (s', Inl e)" shows "served s' = served s"
  using assms
proof (cases rule: rename_model_cases)
  case (renamed cur)
  have "get_model i s' \<noteq> None"
    using get_model_Some [OF renamed(1)] by (auto simp: get_model_None renamed(5))
  with renamed(6) show ?thesis by (auto simp: ok_or_def)
qed simp_all

lemma update_provider_refused:
  assumes "update_provider now i n b k x s = (s', Inl e)" shows "s' = s"
proof (cases "list_ex (\<lambda>r. pv_name r = n \<and> pv_id r \<noteq> i) (provider_rows s)")
  case False
  let ?f = "\<lambda>r. r\<lparr>pv_name := n, pv_api_base := b,
     pv_api_key := (case k of Some k \<Rightarrow> Some k | None \<Rightarrow> pv_api_key r), pv_extra := x, pv_updated_at := now\<rparr>"
  have s': "s' = s\<lparr>provider_rows := update_where (\<lambda>r. pv_id r = i) ?f (provider_rows s)\<rparr>"
    and none: "get_provider i s' = None"
    using assms False by (auto simp: update_provider_def Let_def ok_or_def split: option.splits)
  have "i \<notin> pv_id ` set (provider_rows s')" using none by (simp add: get_provider_def find_key_None)
  then have "i \<notin> pv_id ` set (provider_rows s)" by (simp add: s' image_update_where)
  then have "update_where (\<lambda>r. pv_id r = i) ?f (provider_rows s) = provider_rows s"
    by (auto simp: update_where_def intro!: map_idI)
  then show ?thesis by (simp add: s')
qed (use assms in \<open>simp add: update_provider_def\<close>)

lemma create_provider_refused_serves:
  assumes "store_ok s"
    "then_run (ensure_provider now i n s) (\<lambda>c s1. update_provider now' (pv_id c) n b k x s1) = (s', Inl e)"
  shows "served s' = served s"
proof -
  obtain s1 res where 1: "ensure_provider now i n s = (s1, res)" by force
  have s1: "served s1 = served s" by (rule served_ensure(2) [OF assms(1) 1])
  show ?thesis
  proof (cases res)
    case (Inr c)
    then have "update_provider now' (pv_id c) n b k x s1 = (s', Inl e)"
      using assms(2) 1 by (simp add: then_run_def)
    then have "s' = s1" by (rule update_provider_refused)
    with s1 show ?thesis by simp
  qed (use assms(2) 1 s1 in \<open>simp add: then_run_def\<close>)
qed

lemma get_deployment_inserted:
  assumes "insert_deployment now i nd mo pr s = Inr s'"
  shows "get_deployment i s' \<noteq> None"
proof -
  let ?d = "\<lparr>dp_id = i, dp_model_id = md_id mo, dp_provider_id = pv_id pr,
               dp_upstream_model = nd_upstream_model nd, dp_upstream_format = nd_upstream_format nd,
               dp_weight = nd_weight nd, dp_pricing = nd_pricing nd, dp_health_check = nd_health_check nd,
               dp_health_path = nd_health_path nd, dp_created_at = now, dp_updated_at = now,
               dp_deleted_at = None\<rparr>"
  have new: "i \<notin> dp_id ` set (deployment_rows s)" "md_id mo \<in> md_id ` set (model_rows s)"
    "pv_id pr \<in> pv_id ` set (provider_rows s)" "s' = s\<lparr>deployment_rows := deployment_rows s @ [?d]\<rparr>"
    using assms by (auto simp: insert_deployment_def Let_def split: if_splits)
  have "find (\<lambda>d. dp_id d = i \<and> dp_deleted_at d = None) (rows @ [?d]) = Some ?d"
    if "i \<notin> dp_id ` set rows" for rows using that by (induction rows) auto
  then have "find (\<lambda>d. dp_id d = i \<and> dp_deleted_at d = None) (deployment_rows s') = Some ?d"
    using new by simp
  moreover have "get_model (md_id mo) s' \<noteq> None" "get_provider (pv_id pr) s' \<noteq> None"
    using new by (simp_all add: get_model_None get_provider_def find_key_None)
  ultimately show ?thesis by (auto simp: get_deployment_def join_deployment_def split: option.split)
qed

lemma create_deployment_refused_serves:
  assumes "store_ok s" "create_deployment now ids nd s = (s', Inl e)" shows "served s' = served s"
proof -
  obtain im ip i where ids: "ids = (im, ip, i)" by (cases ids) auto
  obtain s1 mo where 1: "ensure_model now im (nd_model_name nd) s = (s1, mo)" by force
  have s1: "served s1 = served s" by (rule served_ensure(1) [OF assms(1) 1])
  have ok1: "store_ok s1" using ensure_model_ok [OF assms(1)] 1 by (metis fst_conv)
  show ?thesis
  proof (cases mo)
    case mo: (Inr m)
    obtain s2 pr where 2: "ensure_provider now ip (nd_provider_name nd) s1 = (s2, pr)" by force
    have s2: "served s2 = served s" using served_ensure(2) [OF ok1 2] s1 by simp
    show ?thesis
    proof (cases pr)
      case (Inr p)
      then show ?thesis using assms(2) 1 2 mo s2 get_deployment_inserted [of now i nd m p s2]
        by (auto simp: create_deployment_def ids then_run_def keep_on_error_def ok_or_def
            split: sum.splits option.splits)
    qed (use assms(2) 1 2 mo s2 in \<open>simp add: create_deployment_def ids then_run_def\<close>)
  qed (use assms(2) 1 s1 in \<open>simp add: create_deployment_def ids then_run_def\<close>)
qed

lemma put_alias_model:
  assumes "a \<in> set (put_alias now n i rows)" "al_alias a = n" shows "al_model_id a = i"
proof (cases "n \<in> al_alias ` set rows")
  case True
  then have "a \<in> (\<lambda>r. if al_alias r = n then r\<lparr>al_model_id := i\<rparr> else r) ` set rows"
    using assms(1) by (simp add: put_alias_def set_upsert_by)
  then obtain r where r: "a = (if al_alias r = n then r\<lparr>al_model_id := i\<rparr> else r)" by (rule imageE)
  show ?thesis
  proof (cases "al_alias r = n")
    case True
    then show ?thesis by (simp add: r)
  next
    case False
    with r assms(2) show ?thesis by simp
  qed
next
  case False
  then have "a = \<lparr>al_alias = n, al_model_id = i, al_created_at = now\<rparr> \<or> a \<in> set rows"
    using assms(1) by (simp add: put_alias_def set_upsert_by)
  moreover have "a \<notin> set rows" using False assms(2) by auto
  ultimately show ?thesis by simp
qed

lemma upsert_alias_refused:
  assumes "upsert_alias now n i s = (s', Inl e)" shows "s' = s"
proof (cases "i \<in> md_id ` set (model_rows s)")
  case True
  let ?s = "s\<lparr>alias_rows := put_alias now n i (alias_rows s)\<rparr>"
  have "n \<in> al_alias ` set (put_alias now n i (alias_rows s))"
    by (simp add: put_alias_def image_upsert_by)
  then have "\<exists>a \<in> set (put_alias now n i (alias_rows s)). al_alias a = n" by auto
  then obtain a where a: "find (\<lambda>a. al_alias a = n) (put_alias now n i (alias_rows s)) = Some a"
    by (meson find_None_iff not_None_eq)
  then have "a \<in> set (put_alias now n i (alias_rows s))" "al_alias a = n"
    by (auto simp: find_Some_iff)
  then have "al_model_id a = i" by (rule put_alias_model)
  then have "join_alias ?s a \<noteq> None"
    using True by (simp add: join_alias_def get_model_None)
  then have "ok_or (Option.bind (Some a) (join_alias ?s)) er \<noteq> Inl e" for er
    by (auto simp: ok_or_def)
  then show ?thesis using assms True a by (simp add: upsert_alias_def Let_def)
qed (use assms in \<open>simp add: upsert_alias_def\<close>)

section \<open>Names\<close>

lemma names_other_rows:
  "model_rows s' = model_rows s \<Longrightarrow> alias_rows s' = alias_rows s \<Longrightarrow>
   names_disjoint s' = names_disjoint s \<and> directory s' = directory s"
  by (auto simp: names_disjoint_def directory_def get_model_by_name_def alias_owner_def fun_eq_iff
      split: option.split)

lemma provider_rows_only:
  "ensure_provider now i n s = (s', pres) \<Longrightarrow> model_rows s' = model_rows s \<and> alias_rows s' = alias_rows s"
  by (auto simp: ensure_provider_def Let_def split: option.splits if_splits)

lemma update_rows_only:
  "update_provider now i n b k x s = (s', pres) \<Longrightarrow> model_rows s' = model_rows s \<and> alias_rows s' = alias_rows s"
  unfolding update_provider_def Let_def by (cases "list_ex (\<lambda>r. pv_name r = n \<and> pv_id r \<noteq> i) (provider_rows s)") auto

lemma delete_rows_only:
  "delete_provider i s = Inr s' \<Longrightarrow> model_rows s' = model_rows s \<and> alias_rows s' = alias_rows s"
  by (auto simp: delete_provider_def Let_def split: if_splits)

lemma insert_rows_only:
  "insert_deployment now i nd mo pr s = Inr s' \<Longrightarrow> model_rows s' = model_rows s \<and> alias_rows s' = alias_rows s"
  by (clarsimp simp: insert_deployment_def Let_def split: if_splits)

lemma undeploy_rows_only:
  "model_rows (delete_deployment now i s) = model_rows s \<and> alias_rows (delete_deployment now i s) = alias_rows s"
  by (simp add: delete_deployment_def)

text \<open>A name once in the directory keeps its meaning.\<close>
definition names_kept :: "sqlite_store \<Rightarrow> sqlite_store \<Rightarrow> bool" where
  "names_kept s s' \<longleftrightarrow> names_ok s' \<and> directory s \<subseteq>\<^sub>m directory s'"

lemma names_kept_trans: "names_kept s s1 \<Longrightarrow> names_kept s1 s2 \<Longrightarrow> names_kept s s2"
  unfolding names_kept_def using map_le_trans by blast

lemma names_kept_refl: "names_ok s \<Longrightarrow> names_kept s s"
  by (simp add: names_kept_def)

lemma names_kept_other:
  "names_ok s \<Longrightarrow> store_ok s' \<Longrightarrow> model_rows s' = model_rows s \<and> alias_rows s' = alias_rows s \<Longrightarrow> names_kept s s'"
  using names_other_rows [of s' s] by (simp add: names_kept_def names_ok_def)

lemma names_kept_ensure: "names_ok s \<Longrightarrow> names_kept s (fst (ensure_model now i n s))"
  using sqlite_names.create_extends [of s now i n] ensure_model_directory [of s now i n]
  by (cases "ensure_model now i n s") (auto simp: names_kept_def)

lemma names_kept_rename: "names_ok s \<Longrightarrow> names_kept s (fst (rename_model now i n s))"
  using sqlite_names.rename_extends [of s now i n] rename_model_directory [of s now i n]
  by (cases "rename_model now i n s") (auto simp: names_kept_def)

lemma names_kept_then_run:
  assumes "names_kept s (fst r)" "\<And>x s1. names_ok s1 \<Longrightarrow> names_kept s1 (fst (k x s1))"
  shows "names_kept s (fst (then_run r k))"
proof (cases r)
  case (Pair s1 res)
  with assms(1) have "names_ok s1" "names_kept s s1" by (auto simp: names_kept_def)
  with Pair assms(2) show ?thesis
    by (cases res) (auto simp: then_run_def intro: names_kept_trans)
qed

lemma names_kept_providers:
  assumes "names_ok s"
  shows "names_kept s (fst (ensure_provider now i n s))"
    "names_kept s (fst (update_provider now i n b k x s))"
    "names_kept s (fst (keep_on_error s (delete_provider i s)))"
    "names_kept s (fst (keep_on_error s (insert_deployment now i nd mo pr s)))"
    "names_kept s (delete_deployment now i s)"
proof -
  have ok: "store_ok s" using assms by (simp add: names_ok_def)
  note other = names_kept_other [OF assms]
  show "names_kept s (fst (ensure_provider now i n s))"
    using other [OF ensure_provider_ok [OF ok]] provider_rows_only by (metis prod.collapse)
  show "names_kept s (fst (update_provider now i n b k x s))"
    using other [OF provider_statements_ok(1) [OF ok]] update_rows_only by (metis prod.collapse)
  show "names_kept s (fst (keep_on_error s (delete_provider i s)))"
    using other [OF provider_statements_ok(2) [OF ok] delete_rows_only] names_kept_refl [OF assms]
    by (simp add: keep_on_error_def split: sum.split)
  show "names_kept s (fst (keep_on_error s (insert_deployment now i nd mo pr s)))"
    using other [OF insert_deployment_ok [OF ok] insert_rows_only] names_kept_refl [OF assms]
    by (simp add: keep_on_error_def split: sum.split)
  show "names_kept s (delete_deployment now i s)"
    by (rule other [OF deployment_statements_ok(1) [OF ok] undeploy_rows_only])
qed

lemma names_kept_create_deployment: "names_ok s \<Longrightarrow> names_kept s (fst (create_deployment now ids nd s))"
  unfolding create_deployment_def
  by (cases ids, simp only: prod.case)
     (intro names_kept_then_run names_kept_ensure names_kept_providers;
      simp add: names_kept_refl)

lemma names_kept_seed: "names_ok s \<Longrightarrow> names_kept s (fst (seed_deployment now ids ids' nd s))"
  unfolding seed_deployment_def
  by (intro names_kept_then_run names_kept_ensure names_kept_providers)
     (auto intro!: names_kept_then_run names_kept_create_deployment intro: names_kept_refl)

lemma names_kept_bulk: "names_ok s \<Longrightarrow> names_kept s (snd (bulk_loop cfg rd pn fmt k es acc s))"
proof (induction cfg rd pn fmt k es acc s rule: bulk_loop.induct)
  case (2 cfg rd pn fmt k e es created skipped errors s)
  show ?case
  proof (cases "validate_public_name (be_model_name e)")
    case (Inl x)
    with 2(1,5) show ?thesis by simp
  next
    case (Inr name)
    obtain s' res where r: "seed_deployment (at_now rd k) (at_id rd (5 * k), at_id rd (5 * k + 1))
              (at_id rd (5 * k + 2), at_id rd (5 * k + 3), at_id rd (5 * k + 4))
              (bulk_deployment pn fmt name e) s = (s', res)" by force
    have kept: "names_kept s s'" using names_kept_seed [OF 2(5)] r by (metis fst_conv)
    then have "names_ok s'" by (simp add: names_kept_def)
    then show ?thesis using 2(2-4) Inr r kept
      by (auto split: sum.split bool.split intro: names_kept_trans)
  qed
qed (simp add: names_kept_refl)

section \<open>The routing table and the directory\<close>

lemma to_deployment_names [simp]:
  "model_name (to_deployment d) = model_name d" "model_id (to_deployment d) = model_id d"
  by (simp_all add: to_deployment_def)

text \<open>A deployment read from the tables: its row is live and its model exists.\<close>
lemma list_deployments_mem:
  assumes "store_ok s" "d \<in> set (list_deployments s)"
  shows "\<exists>r \<in> set (model_rows s). md_id r = model_id d \<and> md_name r = model_name d"
proof -
  obtain row where "join_deployment s row = Some d"
    using assms(2) by (auto simp: list_deployments_def List.map_filter_def)
  then obtain r where "get_model (dp_model_id row) s = Some r" "model_id d = dp_model_id row" "model_name d = md_name r"
    by (auto simp: join_deployment_def split: option.splits)
  with get_model_Some show ?thesis by fastforce
qed

lemma list_aliases_mem:
  assumes "store_ok s"
  shows "a \<in> set (list_aliases s) \<Longrightarrow> \<exists>x \<in> set (alias_rows s). \<exists>r \<in> set (model_rows s).
      al_alias x = alias_name a \<and> al_model_id x = alias_model_id a \<and> md_id r = alias_model_id a \<and> md_name r = alias_target a"
    "x \<in> set (alias_rows s) \<Longrightarrow> \<exists>a \<in> set (list_aliases s). alias_name a = al_alias x"
proof -
  show "a \<in> set (list_aliases s) \<Longrightarrow> \<exists>x \<in> set (alias_rows s). \<exists>r \<in> set (model_rows s).
      al_alias x = alias_name a \<and> al_model_id x = alias_model_id a \<and> md_id r = alias_model_id a \<and> md_name r = alias_target a"
    by (fastforce simp: list_aliases_def List.map_filter_def join_alias_def dest: get_model_Some)
  assume x: "x \<in> set (alias_rows s)"
  then have "get_model (al_model_id x) s \<noteq> None"
    using assms by (simp add: get_model_None store_ok_def references_ok_def)
  then obtain r where "join_alias s x = Some r" "alias_name r = al_alias x"
    by (auto simp: join_alias_def)
  then show "\<exists>a \<in> set (list_aliases s). alias_name a = al_alias x"
    using x by (force simp: list_aliases_def List.map_filter_def)
qed

lemma alias_map:
  assumes "names_ok s"
  shows "map_of (rev (map (\<lambda>a. (alias_name a, alias_target a)) (list_aliases s))) n = Some t \<longleftrightarrow>
    (\<exists>i. alias_owner n s = Some i \<and> (\<exists>r. get_model i s = Some r \<and> md_name r = t))"
proof -
  have ok: "store_ok s" using assms by (simp add: names_ok_def)
  let ?m = "map_of (rev (map (\<lambda>a. (alias_name a, alias_target a)) (list_aliases s)))"
  have target: "\<exists>i. alias_owner n s = Some i \<and> (\<exists>r. get_model i s = Some r \<and> md_name r = t)"
    if m: "?m n = Some t" for t
  proof -
    obtain a where "a \<in> set (list_aliases s)" "alias_name a = n" "alias_target a = t"
      using map_of_SomeD [OF m] by auto
    with list_aliases_mem(1) [OF ok this(1)] show ?thesis
      by (metis alias_owner_iff [OF ok] get_model_iff [OF ok])
  qed
  moreover have "?m n \<noteq> None" if owner: "alias_owner n s = Some i" for i
  proof -
    obtain x where "x \<in> set (alias_rows s)" "al_alias x = n" using owner by (auto simp: alias_owner_iff [OF ok])
    then obtain a where "a \<in> set (list_aliases s)" "alias_name a = n" using list_aliases_mem(2) [OF ok] by blast
    then have "n \<in> fst ` set (rev (map (\<lambda>a. (alias_name a, alias_target a)) (list_aliases s)))" by force
    then show ?thesis by (simp only: map_of_eq_None_iff) simp
  qed
  ultimately show ?thesis by fastforce
qed

definition routed_to :: "snapshot \<Rightarrow> string \<Rightarrow> deployment list" where
  "routed_to snap n = deployments_of snap (canonical snap n)"

lemma routes_lookup:
  "map_of (fst (routes_of snap)) n = map_option entry_deployments (map_of (models snap) n)"
  by (simp add: routes_of_def map_of_map)

lemma synced_lookup:
  assumes "router_synced sv" "names_ok (store sv)" "snap = snapshot (router (gw_world sv))"
  shows "deployments_of snap n = filter (\<lambda>d. model_name d = n) (map to_deployment (list_deployments (store sv)))"
    "map_of (models snap) n = None \<longleftrightarrow> deployments_of snap n = []"
    "aliases snap n = Some t \<longleftrightarrow> (\<exists>i r. alias_owner n (store sv) = Some i \<and> get_model i (store sv) = Some r \<and> md_name r = t)"
proof -
  let ?b = "build (map to_deployment (list_deployments (store sv))) Map.empty
    (map_of (rev (map (\<lambda>a. (alias_name a, alias_target a)) (list_aliases (store sv))))) Simple"
  have eq: "routes_of snap = routes_of ?b"
    using assms(1,3) by (simp add: router_synced_def loaded_routes_def served_def)
  then have table: "map_option entry_deployments (map_of (models snap) n) = map_option entry_deployments (map_of (models ?b) n)" for n
    by (simp flip: routes_lookup)
  have dep: "deployments_of snap n = deployments_of ?b n" for n
    using table [of n] by (auto simp: deployments_of_def split: option.splits)
  then show *: "deployments_of snap n = filter (\<lambda>d. model_name d = n) (map to_deployment (list_deployments (store sv)))"
    by (simp add: build_deployments_of)
  have "map_of (models ?b) n = None \<longleftrightarrow> n \<notin> model_name ` set (list_deployments (store sv))"
    using build_models_keys [of "[]" "map to_deployment (list_deployments (store sv))"]
    by (simp add: build_def map_of_eq_None_iff image_image)
  moreover have "map_of (models snap) n = None \<longleftrightarrow> map_of (models ?b) n = None"
    using table [of n] by auto
  ultimately show "map_of (models snap) n = None \<longleftrightarrow> deployments_of snap n = []"
    by (auto simp: * filter_empty_conv image_image image_iff)
  have "aliases snap = aliases ?b" using eq by (simp add: routes_of_def)
  then show "aliases snap n = Some t \<longleftrightarrow> (\<exists>i r. alias_owner n (store sv) = Some i \<and> get_model i (store sv) = Some r \<and> md_name r = t)"
    using alias_map [OF assms(2), of n t] by (simp add: build_def)
qed

lemma canonical_walk_one: "map_of (models snap) n = None \<Longrightarrow>
    canonical snap n = (case aliases snap n of None \<Rightarrow> n | Some t \<Rightarrow> canonical_walk snap 7 t)"
  using canonical_walk.simps(2) [of snap 7 n] by (simp add: canonical_def)

lemma canonical_walk_stop: "aliases snap n = None \<Longrightarrow> canonical_walk snap k n = n"
  by (cases k) simp_all

text \<open>A request's model name is resolved by the routing table as the directory resolves it.\<close>
lemma canonical_directory:
  assumes "router_synced sv" "names_ok (store sv)" "snap = snapshot (router (gw_world sv))"
  shows "canonical snap n = (case directory (store sv) n of None \<Rightarrow> n
    | Some i \<Rightarrow> (case get_model i (store sv) of None \<Rightarrow> n | Some r \<Rightarrow> md_name r))"
proof -
  let ?s = "store sv"
  have ok: "store_ok ?s" and disj: "names_disjoint ?s" using assms(2) by (simp_all add: names_ok_def)
  note look = synced_lookup [OF assms]
  have model_no_alias: "aliases snap (md_name r) = None" if "r \<in> set (model_rows ?s)" for r
  proof -
    have "alias_owner (md_name r) ?s = None"
      using that disj by (auto simp: names_disjoint_def alias_owner_None)
    then show ?thesis using look(3) [of "md_name r"] by (cases "aliases snap (md_name r)") auto
  qed
  show ?thesis
  proof (cases "get_model_by_name n ?s")
    case (Some r)
    then have r: "r \<in> set (model_rows ?s)" "md_name r = n" by (simp_all add: get_model_by_name_iff [OF ok])
    then have "get_model (md_id r) ?s = Some r" by (simp add: get_model_iff [OF ok])
    moreover have "canonical snap n = n"
      unfolding canonical_def using model_no_alias [OF r(1)] r(2) canonical_walk_stop by simp
    ultimately show ?thesis using Some r by (simp add: directory_def)
  next
    case None
    have "filter (\<lambda>d. model_name d = n) (map to_deployment (list_deployments ?s)) = []"
      using None list_deployments_mem [OF ok]
      by (force simp: filter_empty_conv to_deployment_def get_model_by_name_None)
    then have out: "map_of (models snap) n = None" by (simp add: look)
    show ?thesis
    proof (cases "alias_owner n ?s")
      case owner: None
      then have "aliases snap n = None" using look(3) [of n] by (cases "aliases snap n") auto
      with None owner out show ?thesis by (simp add: canonical_walk_one directory_def)
    next
      case owner: (Some i)
      then have "get_model i ?s \<noteq> None"
        using ok by (auto simp: alias_owner_iff [OF ok] get_model_None store_ok_def references_ok_def)
      then obtain r where r: "get_model i ?s = Some r" by auto
      then have "aliases snap n = Some (md_name r)" using owner look(3) by blast
      moreover have "aliases snap (md_name r) = None" using model_no_alias get_model_Some [OF r] by blast
      ultimately show ?thesis using None owner out r canonical_walk_stop
        by (simp add: canonical_walk_one directory_def)
    qed
  qed
qed

lemma routed_directory:
  assumes "router_synced sv" "names_ok (store sv)" "snap = snapshot (router (gw_world sv))"
  shows "routed_to snap n = (case directory (store sv) n of None \<Rightarrow> []
    | Some i \<Rightarrow> map to_deployment (filter (\<lambda>d. model_id d = i) (list_deployments (store sv))))"
proof -
  let ?s = "store sv" and ?ds = "map to_deployment (list_deployments (store sv))"
  have ok: "store_ok ?s" using assms(2) by (simp add: names_ok_def)
  note look = synced_lookup(1) [OF assms] and canon = canonical_directory [OF assms, of n]
  show ?thesis
  proof (cases "directory ?s n")
    case None
    then have "n \<notin> md_name ` set (model_rows ?s)"
      by (auto simp: directory_def get_model_by_name_None [symmetric] split: option.splits)
    then have "filter (\<lambda>d. model_name d = n) ?ds = []"
      using list_deployments_mem [OF ok] by (force simp: filter_empty_conv to_deployment_def)
    with None canon look show ?thesis by (simp add: routed_to_def)
  next
    case (Some i)
    have "\<exists>r. get_model i ?s = Some r"
    proof -
      have "i \<in> md_id ` set (model_rows ?s)"
        using Some ok by (auto simp: directory_iff [OF assms(2)] store_ok_def references_ok_def)
      then have "get_model i ?s \<noteq> None" by (simp add: get_model_None)
      then show ?thesis by auto
    qed
    then obtain r where r: "get_model i ?s = Some r" "r \<in> set (model_rows ?s)" "md_id r = i"
      using get_model_Some by blast
    have same: "model_name d = md_name r \<longleftrightarrow> model_id d = i" if d: "d \<in> set (list_deployments ?s)" for d
    proof -
      obtain q where q: "q \<in> set (model_rows ?s)" "md_id q = model_id d" "md_name q = model_name d"
        using list_deployments_mem [OF ok d] by blast
      have "md_id q = md_id r \<longleftrightarrow> q = r" "md_name q = md_name r \<longleftrightarrow> q = r"
        using ok q(1) r(2) by (auto simp: store_ok_def models_ok_def distinct_map inj_on_def)
      with q r(3) show ?thesis by auto
    qed
    have "routed_to snap n = filter (\<lambda>d. model_name d = md_name r) ?ds"
      using Some r(1) canon look by (simp add: routed_to_def)
    also have "\<dots> = map to_deployment (filter (\<lambda>d. model_id d = i) (list_deployments ?s))"
      by (simp add: filter_map comp_def to_deployment_def) (rule arg_cong [where f = "map _"], rule filter_cong [OF refl same])
    finally show ?thesis using Some by simp
  qed
qed

section \<open>Every call keeps the catalog and the routing table in step\<close>

definition in_step :: "'c server \<Rightarrow> bool" where
  "in_step sv \<longleftrightarrow> names_ok (store sv) \<and> router_synced sv"

text \<open>The relation a call leaves between the server before and after: in step, and no name lost.\<close>
definition keeps_step :: "'c server \<Rightarrow> 'c server \<Rightarrow> bool" where
  "keeps_step sv sv' \<longleftrightarrow> in_step sv \<longrightarrow> in_step sv' \<and> directory (store sv) \<subseteq>\<^sub>m directory (store sv')"

lemma keeps_step_refl [simp]: "keeps_step sv sv"
  by (simp add: keeps_step_def)

lemma keeps_step_guarded:
  "(\<And>sv. keeps_step sv (snd (body sv))) \<Longrightarrow> keeps_step sv (snd (guarded cfg p a body sv))"
  by (rule guarded_rel [of keeps_step]) auto

lemma keeps_step_reloading:
  assumes "names_ok (store sv) \<Longrightarrow> names_kept (store sv) (fst r)"
    "\<And>s e. names_ok (store sv) \<Longrightarrow> r = (s, Inl e) \<Longrightarrow> served s = served (store sv)"
  shows "keeps_step sv (snd (reloading cfg view r sv))"
  using assms synced_reloading [of sv r cfg view]
  by (auto simp: keeps_step_def in_step_def names_kept_def)

lemma keeps_step_on_store:
  assumes "catalog (snd (f (store sv))) = catalog (store sv)" "store_steps (store sv) (snd (f (store sv)))"
  shows "keeps_step sv (snd (on_store f sv))"
  using synced_on_store [of sv f, OF _ assms(1)] catalog_reads [OF assms(1)] store_steps_ok [OF assms(2)]
  by (auto simp: keeps_step_def in_step_def names_ok_def)

lemma keeps_step_router:
  assumes "router (gw_world sv') = router (gw_world sv)" "catalog (store sv') = catalog (store sv)"
    "store_steps (store sv) (store sv')"
  shows "keeps_step sv sv'"
  using synced_frame [OF _ assms(1)] catalog_reads [OF assms(2)] store_steps_ok [OF assms(3)]
  by (auto simp: keeps_step_def in_step_def names_ok_def)

lemma check_deployment_router: "check_deployment cfg d w = (r, w') \<Longrightarrow> router w' = router w"
  by (cases rule: check_deployment_cases) auto

lemma check_deployments_router: "router (snd (check_deployments cfg ds w)) = router w"
proof (induction cfg ds w rule: check_deployments.induct)
  case (2 cfg d ds w)
  obtain r w1 where c: "check_deployment cfg d w = (r, w1)" by force
  from 2 [OF c [symmetric]] have "router (snd (check_deployments cfg ds w1)) = router w1" by simp
  with c check_deployment_router [OF c] show ?case by (simp add: split_beta)
qed simp

lemma probe_each_frame:
  "router (gw_world (snd (probe_each cfg rd k ds out sv))) = router (gw_world sv) \<and>
   catalog (store (snd (probe_each cfg rd k ds out sv))) = catalog (store sv)"
proof (induction cfg rd k ds out sv rule: probe_each.induct)
  case (2 cfg rd k d ds out sv)
  obtain r w where p: "probe_deployment (app cfg) d (gw_world sv) = (r, w)" by force
  have "router w = router (gw_world sv)" using p by (auto simp: probe_deployment_def dest: check_deployment_router)
  with 2 [OF p [symmetric]] p show ?case by simp
qed simp

lemma health_keeps_step:
  "keeps_step sv (snd (api_health_all_models cfg p sv))"
  "keeps_step sv (snd (api_health_one_model cfg rd p i sv))"
  "keeps_step sv (snd (api_health_model cfg rd p i sv))"
proof -
  have one: "probe_deployment c d w = (r, w') \<Longrightarrow> router w' = router w" for c d w r w'
    by (auto simp: probe_deployment_def dest: check_deployment_router)
  have all: "check_deployments c ds w = (rs, w') \<Longrightarrow> router w' = router w" for c ds w rs w'
    using check_deployments_router [of c ds w] by simp
  have each: "probe_each cfg rd k ds out sv = (rs, sv') \<Longrightarrow> router (gw_world sv') = router (gw_world sv) \<and>
      catalog (store sv') = catalog (store sv)" for k ds out sv rs sv'
    using probe_each_frame [of cfg rd k ds out sv] by simp
  show "keeps_step sv (snd (api_health_all_models cfg p sv))"
    unfolding api_health_all_models_def
    by (rule keeps_step_guarded, rule keeps_step_router) (auto simp: all split: prod.split)
  show "keeps_step sv (snd (api_health_one_model cfg rd p i sv))"
    unfolding api_health_one_model_def
    by (rule keeps_step_guarded, rule keeps_step_router)
      (auto simp: one remember_steps split: prod.split option.split)
  have "keeps_step sv sv'" if "probe_each cfg rd 0 ds [] sv = (rs, sv')" for ds sv rs sv'
    using each [OF that] probe_each_steps [of sv cfg rd 0 ds "[]"] that by (intro keeps_step_router) auto
  then show "keeps_step sv (snd (api_health_model cfg rd p i sv))"
    unfolding api_health_model_def
    by (intro keeps_step_guarded) (auto simp: Let_def split: prod.split)
qed

lemma discover_keeps_step: "keeps_step sv (snd (api_discover_provider_models cfg p i fmt sv))"
proof -
  have "router w' = router w" if "discover_models c b k x f l w = (r, w')" for c b k x f l w r w'
    using that
    by (auto simp: discover_models_def call_upstream_def emit_def Let_def
        split: sum.splits option.splits prod.splits response_body.splits if_splits)
  then have "router (gw_world (snd (api_discover_provider_models cfg p i fmt sv))) = router (gw_world sv)"
    by (auto simp: api_discover_provider_models_def Let_def split: sum.split option.split prod.split outcome.split)
  then show ?thesis by (rule keeps_step_router) simp_all
qed

lemma catalog_keeps_step:
  "keeps_step sv (snd (api_create_provider cfg rd p pb sv))"
  "keeps_step sv (snd (api_update_provider cfg rd p i pb sv))"
  "keeps_step sv (snd (api_delete_provider cfg p i sv))"
  "keeps_step sv (snd (api_rename_model cfg rd p i n sv))"
  "keeps_step sv (snd (api_create_model cfg rd p n sv))"
  "keeps_step sv (snd (api_create_deployment cfg rd p cb sv))"
  "keeps_step sv (snd (api_delete_deployment cfg rd p i sv))"
proof -
  note guard = keeps_step_guarded
  have ok: "names_ok s \<Longrightarrow> store_ok s" for s by (simp add: names_ok_def)
  show "keeps_step sv (snd (api_create_provider cfg rd p pb sv))"
    unfolding api_create_provider_def
    by (rule guard) (auto split: sum.split intro!: keeps_step_reloading names_kept_then_run names_kept_providers
        elim: create_provider_refused_serves [OF ok])
  show "keeps_step sv (snd (api_update_provider cfg rd p i pb sv))"
    unfolding api_update_provider_def
    by (rule guard) (auto split: sum.split intro!: keeps_step_reloading names_kept_providers dest: update_provider_refused)
  show "keeps_step sv (snd (api_delete_provider cfg p i sv))"
    unfolding api_delete_provider_def
    by (rule guard, rule keeps_step_reloading, erule names_kept_providers) (auto simp: keep_on_error_def split: sum.splits)
  show "keeps_step sv (snd (api_rename_model cfg rd p i n sv))"
    unfolding api_rename_model_def
    by (rule guard) (auto split: sum.split intro!: keeps_step_reloading names_kept_rename dest: rename_refused_serves)
  show "keeps_step sv (snd (api_create_model cfg rd p n sv))"
    unfolding api_create_model_def
    by (rule guard) (auto split: sum.split intro!: keeps_step_reloading names_kept_ensure dest: ensure_model_refused)
  show "keeps_step sv (snd (api_create_deployment cfg rd p cb sv))"
    unfolding api_create_deployment_def
    by (rule guard) (auto split: sum.split intro!: keeps_step_reloading names_kept_create_deployment
        elim: create_deployment_refused_serves [OF ok])
  show "keeps_step sv (snd (api_delete_deployment cfg rd p i sv))"
    unfolding api_delete_deployment_def
    by (rule guard, rule keeps_step_reloading) (auto intro: names_kept_providers)
qed

lemma bulk_keeps_step: "keeps_step sv (snd (api_create_deployments_bulk cfg rd p pn fmt es sv))"
proof -
  have "keeps_step sv (reload_models (sv\<lparr>store := s\<rparr>))" if "bulk_loop cfg rd q fmt 0 es a (store sv) = (x, s)" for q a x s sv
    using names_kept_bulk [of "store sv" cfg rd q fmt 0 es a] that
    by (auto simp: keeps_step_def in_step_def names_kept_def)
  then show ?thesis unfolding api_create_deployments_bulk_def
    by (intro keeps_step_guarded) (auto split: sum.split prod.split simp: Let_def)
qed

text \<open>The two calls that edit an alias keep the tables in step, and may change what that alias means.\<close>
lemma alias_in_step:
  fixes cfg :: "('c, 'd, 'e) admin_config" and sv :: "'c server"
  assumes "in_step sv"
  shows "in_step (snd (api_create_alias cfg rd p n t sv))" "in_step (snd (api_delete_alias cfg p n sv))"
proof -
  have *: "in_step (snd (guarded cfg p EditConfig body sv))" if "in_step (snd (body sv))"
    for body :: "'c server \<Rightarrow> ('d, 'e) server_response \<times> 'c server"
    using that assms by (simp add: guarded_def split: sum.split)
  have reload: "in_step (snd (reloading cfg view r sv))"
    if "names_ok (fst r)" "\<And>s e. r = (s, Inl e) \<Longrightarrow> s = store sv"
    for view and r :: "sqlite_store \<times> 'z result"
    using that assms synced_reloading [of sv r cfg view] by (auto simp: in_step_def)
  have ok: "store_ok (store sv)" "names_disjoint (store sv)" using assms by (simp_all add: in_step_def names_ok_def)
  have put: "names_ok (fst (upsert_alias now x i (store sv)))" if "get_model_by_name x (store sv) = None" for now x i
    using that ok alias_statements_ok(2) [OF ok(1)]
    by (auto simp: names_ok_def names_disjoint_def upsert_alias_def Let_def get_model_by_name_None put_alias_def image_upsert_by)
  show "in_step (snd (api_create_alias cfg rd p n t sv))"
    unfolding api_create_alias_def
    by (rule *) (auto simp: assms split: sum.split option.split intro!: reload put dest: upsert_alias_refused)
  have "names_ok (delete_alias n (store sv))"
    using ok alias_statements_ok(1) [OF ok(1)] by (auto simp: names_ok_def names_disjoint_def delete_alias_def)
  then show "in_step (snd (api_delete_alias cfg p n sv))"
    unfolding api_delete_alias_def by (intro * reload) auto
qed

definition edits_alias :: "admin_call \<Rightarrow> bool" where
  "edits_alias c \<longleftrightarrow> (\<exists>n t. c = CreateAlias n t) \<or> (\<exists>n. c = DeleteAlias n)"

lemma admin_step_keeps_step: "\<not> edits_alias c \<Longrightarrow> keeps_step sv (snd (admin_step cfg rd p c sv))"
  by (cases c)
     (auto simp: edits_alias_def intro!: keeps_step_on_store catalog_keeps_step health_keeps_step bulk_keeps_step
       discover_keeps_step users_api_steps keys_api_steps update_key_steps teams_api_steps)

lemma admin_step_in_step: "in_step sv \<Longrightarrow> in_step (snd (admin_step cfg rd p c sv))"
proof (cases "edits_alias c")
  case True
  then show "in_step sv \<Longrightarrow> in_step (snd (admin_step cfg rd p c sv))"
    by (auto simp: edits_alias_def intro: alias_in_step)
next
  case False
  then show "in_step sv \<Longrightarrow> in_step (snd (admin_step cfg rd p c sv))"
    using admin_step_keeps_step [OF False, of sv cfg rd p] by (simp add: keeps_step_def)
qed

section \<open>Properties\<close>

text \<open>The admin calls made on a server, each with its readings and its caller.\<close>
fun run_calls ::
  "('c, 'd, 'e) admin_config \<Rightarrow> (readings \<times> principal \<times> admin_call) list \<Rightarrow> 'c server \<Rightarrow> 'c server" where
  "run_calls cfg [] sv = sv"
| "run_calls cfg ((rd, p, c) # cs) sv = run_calls cfg cs (snd (admin_step cfg rd p c sv))"

lemma run_calls_in_step: "in_step sv \<Longrightarrow> in_step (run_calls cfg cs sv)"
  by (induction cfg cs sv rule: run_calls.induct) (simp_all add: admin_step_in_step)

lemma run_calls_keep_names:
  "in_step sv \<Longrightarrow> \<forall>(rd, p, c) \<in> set cs. \<not> edits_alias c \<Longrightarrow>
   directory (store sv) \<subseteq>\<^sub>m directory (store (run_calls cfg cs sv))"
proof (induction cfg cs sv rule: run_calls.induct)
  case (2 cfg rd p c cs sv)
  then have "keeps_step sv (snd (admin_step cfg rd p c sv))" by (intro admin_step_keeps_step) simp
  with 2 show ?case by (auto simp: keeps_step_def intro: map_le_trans)
qed simp

text \<open>C5: Whatever the admin API is asked to do, requests are routed as the database says: after any
  calls, by any callers, on a server whose table was loaded from a consistent store, the table sends
  a model name to exactly the live deployments of the model that the directory of names and aliases
  gives for it, and to none when there is no such model. A name that meant a model keeps meaning it
  through every call that does not edit an alias: creating, renaming and deleting never cut it off.\<close>
theorem routing_follows_directory:
  assumes "names_ok (store sv)" "sv' = run_calls cfg cs (reload_models sv)"
  shows "routed_to (snapshot (router (gw_world sv'))) n = (case directory (store sv') n of None \<Rightarrow> []
      | Some i \<Rightarrow> map to_deployment (filter (\<lambda>d. model_id d = i) (list_deployments (store sv')))) \<and>
    ((\<forall>(rd, p, c) \<in> set cs. \<not> edits_alias c) \<longrightarrow> directory (store sv) \<subseteq>\<^sub>m directory (store sv'))"
proof -
  have start: "in_step (reload_models sv)" using assms(1) by (simp add: in_step_def)
  then have "in_step sv'" unfolding assms(2) by (rule run_calls_in_step)
  then have "routed_to (snapshot (router (gw_world sv'))) n = (case directory (store sv') n of None \<Rightarrow> []
      | Some i \<Rightarrow> map to_deployment (filter (\<lambda>d. model_id d = i) (list_deployments (store sv'))))"
    by (intro routed_directory) (auto simp: in_step_def)
  with run_calls_keep_names [OF start, of cs cfg] show ?thesis by (simp add: assms(2))
qed

definition sample_admin_config :: "(script, unit, unit) admin_config" where
  "sample_admin_config =
     \<lparr>app = sample_config, auth = auth_default\<lparr>auth_providers := [Local, Sso]\<rparr>,
      sso = Some \<lparr>base_url = ''https://idp'', sso_client_id = ''c'', sso_client_secret = ''x'', callback_base = []\<rparr>,
      verify_password = (=), lowercase = to_ascii_lowercase, debug_str = id,
      time_text = (\<lambda>t. ''t''), day_of = (\<lambda>t. ''d''), read_user = (\<lambda>j. Inr (''a@b'', None, None))\<rparr>"

definition sample_readings :: readings where
  "sample_readings =
     \<lparr>at_now = (\<lambda>n. 5), at_id = (\<lambda>n. replicate n (CHR ''i'')), at_uuid = (\<lambda>n. ''0123456789''),
      at_hash = Inr, at_idp = (\<lambda>u b. Inr (JObj []))\<rparr>"

definition sample_principal :: "role \<Rightarrow> principal" where
  "sample_principal r = \<lparr>principal_user_id = ''u1'', principal_username = ''control'', principal_role = r, expires_at = 9\<rparr>"

definition sample_calls :: "(readings \<times> principal \<times> admin_call) list" where
  "sample_calls =
     [(sample_readings, sample_principal Admin, CreateDeployment
        \<lparr>cm_model_name = ''gpt'', cm_provider = ''acme'', cm_upstream_model = ''g'',
         cm_upstream_format = Chat OpenaiChat, cm_weight = None, cm_pricing = None,
         cm_health_check = HealthNone, cm_health_path = None\<rparr>),
      (sample_readings, sample_principal Admin, RenameModelTo [] ''new''),
      (sample_readings, sample_principal Member, RenameModelTo [] ''other'')]"

lemma sample_calls_values:
  "directory (store (run_calls sample_admin_config sample_calls
     (reload_models (sample_server\<lparr>store := empty_store\<rparr>)))) ''gpt'' = Some []"
  "length (filter (\<lambda>d. model_id d = []) (list_deployments (store (run_calls sample_admin_config sample_calls
     (reload_models (sample_server\<lparr>store := empty_store\<rparr>)))))) = 1"
  by code_simp+

theorem routing_follows_directory_witness:
  "length (routed_to (snapshot (router (gw_world (run_calls sample_admin_config sample_calls
     (reload_models (sample_server\<lparr>store := empty_store\<rparr>)))))) ''gpt'') = 1"
  using routing_follows_directory [of "sample_server\<lparr>store := empty_store\<rparr>" _ sample_admin_config sample_calls "''gpt''", OF _ refl]
    sample_calls_values
  by (simp add: names_ok_empty)

end
