(* ===== verification/Admin_Guards.thy ===== *)
theory Admin_Guards
  imports Admin_Laws
begin

text \<open>
  What the admin API lets whom do: an administrator is always left but for the invitation path, a
  member reaches only what is his own, nothing that is read discloses a secret, a caller is who the
  store says, and a key with limits of its own escapes those of its user.
\<close>

section \<open>Frames\<close>

text \<open>The tables of people and their keys; no call on the catalog or on health writes them.\<close>
definition people :: "sqlite_store \<Rightarrow> user list \<times> session list \<times> api_key list" where
  "people s = (users s, sessions s, api_keys s)"

lemma people_users: "people s' = people s \<Longrightarrow> users s' = users s"
  by (simp add: people_def)

lemma people_other_tables [simp]:
  "people (s\<lparr>model_rows := mr\<rparr>) = people s" "people (s\<lparr>provider_rows := pr\<rparr>) = people s"
  "people (s\<lparr>deployment_rows := dr\<rparr>) = people s" "people (s\<lparr>health_rows := hr\<rparr>) = people s"
  "people (s\<lparr>alias_rows := ar\<rparr>) = people s" "people (s\<lparr>teams := tr\<rparr>) = people s"
  "people (s\<lparr>team_memberships := ms\<rparr>) = people s" "people (s\<lparr>budgets := bs\<rparr>) = people s"
  by (simp_all add: people_def)

lemma ensure_model_people [simp]: "people (fst (ensure_model now i n s)) = people s"
proof (cases "ensure_model now i n s")
  case (Pair s' res)
  from this show ?thesis by (cases rule: ensure_model_cases) (simp_all add: Pair)
qed

lemma rename_model_people [simp]: "people (fst (rename_model now i n s)) = people s"
proof (cases "rename_model now i n s")
  case (Pair s' res)
  from this show ?thesis by (cases rule: rename_model_cases) (simp_all add: Pair)
qed

lemma ensure_provider_people [simp]: "people (fst (ensure_provider now i n s)) = people s"
  by (simp add: ensure_provider_def Let_def split: option.split)

lemma update_provider_people [simp]: "people (fst (update_provider now i n b k x s)) = people s"
  by (simp add: update_provider_def Let_def split: option.split)

lemma insert_deployment_people: "insert_deployment now i nd mo pr s = Inr s' \<Longrightarrow> people s' = people s"
  by (auto simp: insert_deployment_def Let_def split: if_splits)

lemma delete_rows_people [simp]:
  "people (fst (keep_on_error s (delete_provider i s))) = people s"
  "people (delete_deployment now i s) = people s" "people (delete_alias n s) = people s"
  by (simp_all add: delete_provider_def keep_on_error_def delete_deployment_def delete_alias_def Let_def)

lemma upsert_alias_people [simp]: "people (fst (upsert_alias now n i s)) = people s"
  by (simp add: upsert_alias_def Let_def split: option.split)

lemma remember_people [simp]: "people (remember r now s) = people s"
  by (simp add: remember_def record_health_def split: sum.split)

lemma then_run_people:
  assumes "people (fst r) = people s" "\<And>x s1. people (fst (k x s1)) = people s1"
  shows "people (fst (then_run r k)) = people s"
  using assms by (auto simp: then_run_def split: prod.split sum.split)

lemma create_deployment_people [simp]: "people (fst (create_deployment now ids nd s)) = people s"
proof -
  have "people (fst (keep_on_error s2 (insert_deployment now i nd mo pr s2))) = people s2" for i mo pr s2
    by (auto simp: keep_on_error_def dest: insert_deployment_people split: sum.split)
  then show ?thesis
    by (auto simp: create_deployment_def intro!: then_run_people split: prod.split)
qed

lemma seed_deployment_people [simp]: "people (fst (seed_deployment now ids ids' nd s)) = people s"
  by (auto simp: seed_deployment_def intro!: then_run_people)

lemma bulk_loop_people: "people (snd (bulk_loop cfg rd pn fmt k es acc s)) = people s"
proof (induction cfg rd pn fmt k es acc s rule: bulk_loop.induct)
  case (2 cfg rd pn fmt k e es created skipped errors s)
  show ?case
  proof (cases "validate_public_name (be_model_name e)")
    case (Inl x)
    with 2(1) show ?thesis by simp
  next
    case (Inr name)
    obtain s' res where r: "seed_deployment (at_now rd k) (at_id rd (5 * k), at_id rd (5 * k + 1))
              (at_id rd (5 * k + 2), at_id rd (5 * k + 3), at_id rd (5 * k + 4))
              (bulk_deployment pn fmt name e) s = (s', res)" by force
    have "people s' = people s" using seed_deployment_people r by (metis fst_conv)
    then show ?thesis using 2(2-4) Inr r
      by (auto split: sum.split bool.split)
  qed
qed simp

lemma probe_each_people: "people (store (snd (probe_each cfg rd k ds out sv))) = people (store sv)"
proof (induction cfg rd k ds out sv rule: probe_each.induct)
  case (2 cfg rd k d ds out sv)
  obtain r w where p: "probe_deployment (app cfg) d (gw_world sv) = (r, w)" by force
  with 2 [OF p [symmetric]] show ?case by simp
qed simp

lemma guarded_people:
  "(\<And>sv. people (store (snd (body sv))) = people (store sv)) \<Longrightarrow>
   people (store (snd (guarded cfg p a body sv))) = people (store sv)"
  by (simp add: guarded_def split: sum.split)

lemma catalog_api_people [simp]:
  "people (store (snd (api_create_provider cfg rd p pb sv))) = people (store sv)"
  "people (store (snd (api_update_provider cfg rd p i pb sv))) = people (store sv)"
  "people (store (snd (api_delete_provider cfg p i sv))) = people (store sv)"
  "people (store (snd (api_rename_model cfg rd p i n sv))) = people (store sv)"
  "people (store (snd (api_create_model cfg rd p n sv))) = people (store sv)"
  "people (store (snd (api_create_deployment cfg rd p cb sv))) = people (store sv)"
  "people (store (snd (api_delete_deployment cfg rd p i sv))) = people (store sv)"
  "people (store (snd (api_create_alias cfg rd p n t sv))) = people (store sv)"
  "people (store (snd (api_delete_alias cfg p n sv))) = people (store sv)"
  unfolding api_create_provider_def api_update_provider_def api_delete_provider_def api_rename_model_def
    api_create_model_def api_create_deployment_def api_delete_deployment_def api_create_alias_def
    api_delete_alias_def
  by (auto intro!: guarded_people then_run_people split: sum.split option.split)

lemma bulk_api_people [simp]:
  "people (store (snd (api_create_deployments_bulk cfg rd p pn fmt es sv))) = people (store sv)"
proof -
  have "people s = people t" if "bulk_loop cfg rd q fmt 0 es a t = (x, s)" for q a x s t
    using bulk_loop_people [of cfg rd q fmt 0 es a t] that by simp
  then show ?thesis unfolding api_create_deployments_bulk_def
    by (auto intro!: guarded_people split: sum.split prod.split simp: Let_def)
qed

lemma health_api_people [simp]:
  "people (store (snd (api_health_all_models cfg p sv))) = people (store sv)"
  "people (store (snd (api_health_one_model cfg rd p i sv))) = people (store sv)"
  "people (store (snd (api_health_model cfg rd p i sv))) = people (store sv)"
proof -
  have probe: "people (store sv') = people (store sv)" if "probe_each cfg rd k ds out sv = (rs, sv')" for k ds out rs sv sv'
    using probe_each_people [of cfg rd k ds out sv] that by simp
  show "people (store (snd (api_health_all_models cfg p sv))) = people (store sv)"
    "people (store (snd (api_health_one_model cfg rd p i sv))) = people (store sv)"
    unfolding api_health_all_models_def api_health_one_model_def
    by (auto intro!: guarded_people split: prod.split option.split)
  show "people (store (snd (api_health_model cfg rd p i sv))) = people (store sv)"
    unfolding api_health_model_def
    by (auto intro!: guarded_people dest: probe simp: Let_def split: prod.split)
qed

lemmas catalog_api_users [simp] = catalog_api_people [THEN people_users] bulk_api_people [THEN people_users]
  health_api_people [THEN people_users]

section \<open>Administrators\<close>

abbreviation live_admin :: "user \<Rightarrow> bool" where
  "live_admin u \<equiv> user_role u = Admin \<and> user_deleted_at u = None"

definition some_admin :: "user list \<Rightarrow> bool" where
  "some_admin us \<longleftrightarrow> (\<exists>u \<in> set us. live_admin u)"

lemma count_admins_pos: "1 \<le> count_admins s \<longleftrightarrow> some_admin (users s)"
  by (cases "filter live_admin (users s)") (auto simp: count_admins_def some_admin_def filter_empty_conv filter_eq_Cons_iff)

lemma other_admin:
  assumes "store_ok s" "\<not> count_admins s \<le> 1"
  shows "\<exists>u \<in> set (users s). live_admin u \<and> user_id u \<noteq> i"
proof (rule ccontr)
  let ?as = "filter live_admin (users s)"
  assume "\<not> ?thesis"
  then have "set (map user_id ?as) \<subseteq> {i}" by auto
  then have "card (set (map user_id ?as)) \<le> card {i}" by (rule card_mono [rotated]) simp
  moreover have "distinct (map user_id ?as)"
    using assms(1) by (simp add: store_ok_def users_ok_def distinct_map_filter)
  ultimately have "length ?as \<le> 1" using distinct_card [of "map user_id ?as"] by simp
  with assms(2) show False by (simp add: count_admins_def)
qed

lemma some_admin_update:
  assumes "u \<in> set us" "live_admin u" "q u \<Longrightarrow> live_admin (f u)"
  shows "some_admin (update_where q f us)"
  using assms by (cases "q u") (auto simp: some_admin_def set_update_where)

lemma get_user_Some: "get_user i s = Some t \<Longrightarrow> t \<in> set (users s) \<and> user_id t = i \<and> user_deleted_at t = None"
  by (auto simp: get_user_def find_Some_iff)

text \<open>The guard lets through only what leaves an administrator.\<close>
lemma guarded_keeps_admin:
  assumes "store_ok s" "some_admin (users s)" "guard_last_admin i losing s = Inr ()"
    and "\<And>u. \<not> losing \<Longrightarrow> live_admin u \<Longrightarrow> live_admin (f u)"
  shows "some_admin (update_where (live_user i) f (users s))"
proof (cases losing)
  case False
  with assms(2,4) show ?thesis by (auto simp: some_admin_def [of "users s"] intro: some_admin_update)
next
  case True
  then obtain t where t: "t \<in> set (users s)" "user_id t = i" "user_role t = Admin \<Longrightarrow> \<not> count_admins s \<le> 1"
    using assms(3) by (auto simp: guard_last_admin_def dest: get_user_Some split: option.splits if_splits)
  have "\<exists>u \<in> set (users s). live_admin u \<and> user_id u \<noteq> i"
  proof (cases "user_role t = Admin")
    case True
    with other_admin [OF assms(1)] t(3) show ?thesis by blast
  next
    case False
    moreover have "u = t" if "u \<in> set (users s)" "user_id u = i" for u
      using assms(1) t that by (auto simp: store_ok_def users_ok_def distinct_map inj_on_def)
    ultimately show ?thesis using assms(2) by (auto simp: some_admin_def)
  qed
  then show ?thesis by (auto simp: live_user_def intro: some_admin_update)
qed

definition keeps_admin :: "sqlite_store \<Rightarrow> sqlite_store \<Rightarrow> bool" where
  "keeps_admin s s' \<longleftrightarrow> (store_ok s \<longrightarrow> some_admin (users s) \<longrightarrow> some_admin (users s'))"

lemma keeps_admin_same [simp]: "users s' = users s \<Longrightarrow> keeps_admin s s'"
  by (simp add: keeps_admin_def)

lemma users_frames [simp]:
  "users (update_api_key_access i acc s) = users s" "users (update_api_key_limits i l s) = users s"
  "users (rename_api_key i n s) = users s" "users (delete_api_key now i s) = users s"
  "users (delete_team now i s) = users s" "users (update_team_access now i acc s) = users s"
  "users (delete_membership i j s) = users s" "users (upsert_budget b s) = users s"
  "users (delete_budget now i s) = users s"
  by (simp_all add: update_api_key_access_def update_api_key_limits_def rename_api_key_def delete_api_key_def
      delete_team_def update_team_access_def delete_membership_def upsert_budget_def delete_budget_def)

lemma users_inserts:
  "create_api_key k s = Inr s' \<Longrightarrow> users s' = users s" "create_team tm s = Inr s' \<Longrightarrow> users s' = users s"
  "upsert_membership m s = Inr s' \<Longrightarrow> users s' = users s"
  "create_user u s = Inr s' \<Longrightarrow> users s' = users s @ [u]"
  by (auto simp: create_api_key_def create_team_def upsert_membership_def create_user_def split: if_splits)

lemma keeps_admin_guarded:
  "(\<And>s. keeps_admin s (snd (body s))) \<Longrightarrow> keeps_admin s (snd (guarded cfg p a body s))"
  by (rule guarded_rel [where R = keeps_admin]) simp_all

lemma create_user_keeps_admin: "create_user u s = Inr s' \<Longrightarrow> keeps_admin s s'"
  by (drule users_inserts(4)) (auto simp: keeps_admin_def some_admin_def)

lemma set_password_keeps_admin: "keeps_admin s (set_user_password i h s)"
proof -
  have "some_admin (users (set_user_password i h s))" if "some_admin (users s)"
    using that by (auto simp: some_admin_def [of "users s"] set_user_password_def intro: some_admin_update)
  then show ?thesis by (simp add: keeps_admin_def)
qed

lemma guarded_statements_keep_admin:
  "guard_last_admin i (r \<noteq> Admin) s = Inr () \<Longrightarrow> keeps_admin s (set_user_role i r s)"
  "guard_last_admin i True s = Inr () \<Longrightarrow> keeps_admin s (Sqlite_Store.delete_user now i s)"
  using guarded_keeps_admin [of s i "r \<noteq> Admin" "\<lambda>u. u\<lparr>user_role := r\<rparr>"]
    guarded_keeps_admin [of s i True "\<lambda>u. u\<lparr>user_deleted_at := Some now\<rparr>"]
  by (simp_all add: keeps_admin_def set_user_role_def Sqlite_Store.delete_user_def)

lemma row_handlers_keep_admin:
  "keeps_admin s (snd (api_create_user cfg rd p n pw r s))"
  "keeps_admin s (snd (api_set_user_role cfg p i rn s))"
  "keeps_admin s (snd (api_set_user_password cfg rd p i pw s))"
  "keeps_admin s (snd (api_delete_user cfg rd p i s))"
  "keeps_admin s (snd (change_my_password cfg rd p old new s))"
proof -
  show "keeps_admin s (snd (api_create_user cfg rd p n pw r s))"
    unfolding api_create_user_def
    by (rule keeps_admin_guarded) (simp add: Let_def create_user_keeps_admin split: sum.split)
  show "keeps_admin s (snd (api_set_user_role cfg p i rn s))"
    unfolding api_set_user_role_def
    by (rule keeps_admin_guarded) (simp add: guarded_statements_keep_admin split: sum.split)
  show "keeps_admin s (snd (api_set_user_password cfg rd p i pw s))"
    unfolding api_set_user_password_def
    by (rule keeps_admin_guarded) (simp add: set_password_keeps_admin split: sum.split)
  show "keeps_admin s (snd (api_delete_user cfg rd p i s))"
    unfolding api_delete_user_def
    by (rule keeps_admin_guarded) (simp add: guarded_statements_keep_admin split: sum.split)
  show "keeps_admin s (snd (change_my_password cfg rd p old new s))"
    by (simp add: change_my_password_def set_password_keeps_admin split: sum.split option.split)
qed

lemma key_handlers_users [simp]:
  "users (snd (api_create_key cfg rd p b s)) = users s" "users (snd (api_delete_key cfg rd p i s)) = users s"
  "users (snd (api_key_access cfg p i acc s)) = users s" "users (snd (api_update_key cfg p i jb s)) = users s"
  by (auto simp: api_create_key_def api_delete_key_def api_key_access_def api_update_key_def Let_def
      users_inserts split: sum.split option.split prod.split)

lemma team_handlers_users [simp]:
  "users (snd (api_create_team cfg rd p n acc s)) = users s" "users (snd (api_delete_team cfg rd p i s)) = users s"
  "users (snd (api_team_access cfg rd p i acc s)) = users s" "users (snd (api_add_member cfg rd p i j s)) = users s"
  "users (snd (api_remove_member cfg p i j s)) = users s" "users (snd (api_put_budget cfg p bu s)) = users s"
  "users (snd (api_delete_budget cfg rd p i s)) = users s"
  by (auto simp: api_create_team_def api_delete_team_def api_team_access_def api_add_member_def
      api_remove_member_def api_put_budget_def api_delete_budget_def guarded_def Let_def users_inserts split: sum.split)

definition invites :: "admin_call \<Rightarrow> bool" where
  "invites c \<longleftrightarrow> (\<exists>a r. c = InviteUser a r)"

lemma admin_step_keeps_admin:
  "\<not> invites c \<Longrightarrow> keeps_admin (store sv) (store (snd (admin_step cfg rd p c sv)))"
  by (cases c) (simp_all add: invites_def row_handlers_keep_admin)

lemma run_calls_keep_admin:
  "store_ok (store sv) \<Longrightarrow> some_admin (users (store sv)) \<Longrightarrow> \<forall>(rd, p, c) \<in> set cs. \<not> invites c \<Longrightarrow>
   some_admin (users (store (run_calls cfg cs sv)))"
proof (induction cfg cs sv rule: run_calls.induct)
  case (2 cfg rd p c cs sv)
  then have "store_ok (store (snd (admin_step cfg rd p c sv)))"
    using admin_step_steps store_steps_ok by blast
  with 2 admin_step_keeps_admin [of c sv cfg rd p] show ?case by (auto simp: keeps_admin_def)
qed simp


definition sample_user :: "id \<Rightarrow> role \<Rightarrow> user" where
  "sample_user i r =
     \<lparr>user_id = i, username = i @ ''@x'', password_hash = ''!sso'', user_role = r, user_rpm_limit = Some 10,
      user_tpm_limit = None, user_max_concurrent = Some 1, user_created_at = 0, last_login_at = None,
      user_deleted_at = None\<rparr>"

definition staffed_store :: sqlite_store where
  "staffed_store = empty_store\<lparr>users := [sample_user ''a'' Admin, sample_user ''m'' Member]\<rparr>"

lemma staffed_store_ok: "store_ok staffed_store"
  by (simp add: staffed_store_def empty_store_def store_ok_def users_ok_def unique_among_def keys_ok_def
      external_ok_def memberships_ok_def models_ok_def providers_ok_def deployments_ok_def references_ok_def
      sample_user_def)

definition removing_calls :: "(readings \<times> principal \<times> admin_call) list" where
  "removing_calls =
     [(sample_readings, sample_principal Admin, DeleteUser ''a''),
      (sample_readings, sample_principal Admin, SetUserRole ''a'' ''member'')]"


text \<open>Inviting the only administrator by the address he already has takes the role away: the call
  answers with success and leaves nobody who may manage users, as the invitation sets the role that
  was asked for, member when none was, without the guard of the role change.\<close>
theorem invite_removes_last_admin:
  assumes "get_user_by_username (lowercase cfg (trim a)) s = Some u" "user_role u = Admin" "count_admins s = 1"
    and "store_ok s" "is_admin p" "sso_or_disabled cfg = Some c" "CHR ''@'' \<in> set (lowercase cfg (trim a))"
    and "sso_invite (at_idp rd) c (lowercase cfg (trim a)) None = Inr ()"
  shows "api_invite_user cfg rd p a None s =
      (ok_json (JObj [(''username'', JStr (lowercase cfg (trim a))), (''role'', JStr ''member'')]),
       set_user_role (user_id u) Member s) \<and>
    count_admins (set_user_role (user_id u) Member s) = 0"
proof -
  have u: "u \<in> set (users s)" "user_deleted_at u = None"
    using assms(1) by (auto simp: get_user_by_username_def find_Some_iff)
  have "\<not> some_admin (update_where (live_user (user_id u)) (\<lambda>u. u\<lparr>user_role := Member\<rparr>) (users s))"
  proof
    assume "some_admin (update_where (live_user (user_id u)) (\<lambda>u. u\<lparr>user_role := Member\<rparr>) (users s))"
    then obtain v where v: "v \<in> set (users s)" "live_admin v" "user_id v \<noteq> user_id u"
      by (auto simp: some_admin_def set_update_where live_user_def split: if_splits)
    have "{u, v} \<subseteq> set (filter live_admin (users s))" using u v assms(2) by auto
    then have "card {u, v} \<le> length (filter live_admin (users s))"
      using card_mono [OF finite_set, of "{u, v}" "filter live_admin (users s)"] card_length [of "filter live_admin (users s)"] by simp
    moreover have "u \<noteq> v" using v(3) by auto
    ultimately show False using assms(3) by (simp add: count_admins_def)
  qed
  then have none: "\<not> 1 \<le> count_admins (set_user_role (user_id u) Member s)"
    unfolding count_admins_pos by (simp add: set_user_role_def)
  moreover have "0 \<le> count_admins (set_user_role (user_id u) Member s)" by (simp add: count_admins_def)
  ultimately show ?thesis using assms
    by (auto simp: api_invite_user_def guarded_def authz_def authorize_def at_least_def is_admin_def asked_role_def role_parse_def Let_def)
qed

lemma staffed_invitation:
  "get_user_by_username (lowercase sample_admin_config (trim ''a@x'')) staffed_store = Some (sample_user ''a'' Admin)"
  "count_admins staffed_store = 1" "is_admin (sample_principal Admin)"
  "sso_or_disabled sample_admin_config = sso sample_admin_config" "lowercase sample_admin_config (trim ''a@x'') = ''a@x''"
  "\<exists>c. sso sample_admin_config = Some c" "sso_invite (at_idp sample_readings) c ''a@x'' None = Inr ()"
  by (simp_all add: is_admin_def sample_principal_def sso_or_disabled_def auth_has_def sample_admin_config_def auth_default_def
      sso_invite_def sample_readings_def idp_error_def) code_simp+

theorem invite_removes_last_admin_witness:
  "count_admins (snd (api_invite_user sample_admin_config sample_readings (sample_principal Admin) ''a@x'' None staffed_store)) = 0"
proof -
  obtain c where c: "sso sample_admin_config = Some c" using staffed_invitation(6) by blast
  show ?thesis
    using invite_removes_last_admin [of sample_admin_config "''a@x''" staffed_store "sample_user ''a'' Admin"
        "sample_principal Admin" c sample_readings] c staffed_invitation staffed_store_ok
    by (simp add: sample_user_def)
qed

section \<open>Members\<close>

text \<open>The rows of a table seen one by one: each is the same, or one that \<open>p\<close> allows changed as \<open>c\<close> allows.\<close>
definition only_changed :: "('r \<Rightarrow> 'r \<Rightarrow> bool) \<Rightarrow> 'r list \<Rightarrow> 'r list \<Rightarrow> bool" where
  "only_changed c = list_all2 (\<lambda>r r'. r' = r \<or> c r r')"

text \<open>
  What a member may do to the store: his own password, his own keys, and the results of the last
  checks; no table but these three is written, no row of another user, and no key that administers
  comes into being.
\<close>
definition confined_to :: "id \<Rightarrow> sqlite_store \<Rightarrow> sqlite_store \<Rightarrow> bool" where
  "confined_to u s s' \<longleftrightarrow>
     s' = s\<lparr>users := users s', api_keys := api_keys s', health_rows := health_rows s'\<rparr> \<and>
     only_changed (\<lambda>r r'. live_user u r \<and> r' = r\<lparr>password_hash := password_hash r'\<rparr>) (users s) (users s') \<and>
     filter (\<lambda>k. owner_user_id k \<noteq> u) (api_keys s') = filter (\<lambda>k. owner_user_id k \<noteq> u) (api_keys s) \<and>
     (\<forall>k \<in> set (api_keys s'). AdminScope \<in> set (scopes k) \<longrightarrow>
        (\<exists>k0 \<in> set (api_keys s). key_id k0 = key_id k \<and> hash k0 = hash k \<and> AdminScope \<in> set (scopes k0)))"

lemma only_changed_refl [simp]: "only_changed c rs rs"
  by (simp add: only_changed_def list_all2_refl)

lemma only_changed_trans:
  "only_changed c as bs \<Longrightarrow> only_changed c bs ds \<Longrightarrow>
   (\<And>a b d. c a b \<Longrightarrow> c b d \<Longrightarrow> c a d) \<Longrightarrow> only_changed c as ds"
  by (auto simp: only_changed_def list_all2_conv_all_nth) metis

lemma confined_refl [simp]: "confined_to u s s"
  by (auto simp: confined_to_def)

lemma confined_trans:
  assumes "confined_to u s s1" "confined_to u s1 s2" shows "confined_to u s s2"
proof -
  let ?c = "\<lambda>r r'. live_user u r \<and> r' = r\<lparr>password_hash := password_hash r'\<rparr>"
  have frame: "s1 = s\<lparr>users := users s1, api_keys := api_keys s1, health_rows := health_rows s1\<rparr>"
    "s2 = s1\<lparr>users := users s2, api_keys := api_keys s2, health_rows := health_rows s2\<rparr>"
    using assms unfolding confined_to_def by blast+
  have "s2 = s\<lparr>users := users s2, api_keys := api_keys s2, health_rows := health_rows s2\<rparr>"
    by (subst frame(2), subst frame(1)) simp
  moreover have "only_changed ?c (users s) (users s2)"
  proof (rule only_changed_trans)
    show "only_changed ?c (users s) (users s1)" "only_changed ?c (users s1) (users s2)"
      using assms unfolding confined_to_def by blast+
    show "?c a d" if "?c a b" "?c b d" for a b d
      using that by (metis (no_types, lifting) user.fold_congs(3) user.surjective user.update_convs(3))
  qed
  moreover have "filter (\<lambda>k. owner_user_id k \<noteq> u) (api_keys s2) = filter (\<lambda>k. owner_user_id k \<noteq> u) (api_keys s)"
    using assms unfolding confined_to_def by metis
  moreover have "\<forall>k \<in> set (api_keys s2). AdminScope \<in> set (scopes k) \<longrightarrow>
      (\<exists>k0 \<in> set (api_keys s). key_id k0 = key_id k \<and> hash k0 = hash k \<and> AdminScope \<in> set (scopes k0))"
    using assms unfolding confined_to_def by metis
  ultimately show ?thesis unfolding confined_to_def by blast
qed

lemma confined_health [simp]: "confined_to u s (s\<lparr>health_rows := hs\<rparr>)"
  by (auto simp: confined_to_def)

lemma confined_remember [simp]: "confined_to u s (remember r now s)"
  by (simp add: remember_def record_health_def split: sum.split)

lemma confined_password: "confined_to u s (set_user_password u h s)"
  by (auto simp: confined_to_def set_user_password_def only_changed_def update_where_def list_all2_conv_all_nth)

lemma stored_scopes_unprivileged: "AdminScope \<notin> set ss \<Longrightarrow> parse_set (render_set ss) = Inr [InferenceScope]"
proof (cases ss rule: scope_set_cases)
  case 2
  then have "render_set ss = render_set [InferenceScope]" by (intro render_set_cong) simp
  then show ?thesis by (simp add: render_set_values parse_set_values)
qed (simp_all add: render_set_values parse_set_values)

lemma confined_new_key:
  assumes "create_api_key k s = Inr s'" "owner_user_id k = u" "AdminScope \<notin> set (scopes k)"
  shows "confined_to u s s'"
proof -
  have "s' = s\<lparr>api_keys := api_keys s @ [k\<lparr>scopes := [InferenceScope]\<rparr>]\<rparr>"
    using assms by (simp add: create_api_key_def stored_key_def stored_scopes_unprivileged split: if_splits)
  with assms(2) show ?thesis by (auto simp: confined_to_def)
qed

text \<open>An update of the caller's own key that leaves its id, hash, owner and scopes alone.\<close>
lemma confined_update_key:
  assumes "store_ok s" "get_api_key i s = Some k" "owner_user_id k = u"
    and "\<And>r. key_id (f r) = key_id r \<and> hash (f r) = hash r \<and> owner_user_id (f r) = owner_user_id r \<and> scopes (f r) = scopes r"
  shows "confined_to u s (s\<lparr>api_keys := update_where (\<lambda>r. key_id r = i \<and> q r) f (api_keys s)\<rparr>)"
proof -
  have own: "owner_user_id r = u" if "r \<in> set (api_keys s)" "key_id r = i" for r
    using that assms(1-3)
    by (auto simp: store_ok_def keys_ok_def distinct_map inj_on_def get_api_key_def find_Some_iff)
  have "filter (\<lambda>k. owner_user_id k \<noteq> u) (update_where (\<lambda>r. key_id r = i \<and> q r) f rs) =
      filter (\<lambda>k. owner_user_id k \<noteq> u) rs" if "set rs \<subseteq> set (api_keys s)" for rs
    using that own assms(4) by (induction rs) (auto simp: update_where_def)
  then show ?thesis using assms(4)
    by (auto simp: confined_to_def set_update_where)
qed

lemma refused_member: "principal_role p = Member \<Longrightarrow> min_role a = Admin \<Longrightarrow> snd (guarded cfg p a body s) = s"
  by (simp add: guarded_def authz_def authorize_def at_least_def less_eq_role_def)

lemma own_key_of_member:
  "own_key_or_admin p i s = Inr k \<Longrightarrow> principal_role p = Member \<Longrightarrow>
   get_api_key i s = Some k \<and> owner_user_id k = principal_user_id p"
  by (auto simp: own_key_or_admin_def is_admin_def split: option.splits if_splits)

lemma member_key_statements:
  assumes "store_ok s" "get_api_key i s = Some k" "owner_user_id k = u"
  shows "confined_to u s (delete_api_key now i s)" "confined_to u s (update_api_key_access i acc s)"
    "confined_to u s (update_api_key_limits i l s)" "confined_to u s (rename_api_key i n s)"
proof -
  show "confined_to u s (delete_api_key now i s)"
    unfolding delete_api_key_def by (rule confined_update_key [OF assms]) simp
  note all = confined_update_key [OF assms, where q = "\<lambda>_. True", simplified]
  show "confined_to u s (update_api_key_access i acc s)" "confined_to u s (update_api_key_limits i l s)"
    "confined_to u s (rename_api_key i n s)"
    by (simp_all add: update_api_key_access_def update_api_key_limits_def rename_api_key_def all)
qed

lemma member_update_key:
  assumes "store_ok s" "principal_role p = Member"
  shows "confined_to (principal_user_id p) s (snd (api_update_key cfg p i b s))"
proof -
  have step: "confined_to (principal_user_id p) s (update_api_key_limits i l (rename_api_key i n s))"
    if k: "get_api_key i s = Some k" "owner_user_id k = principal_user_id p" for k l n
  proof (rule confined_trans)
    show "confined_to (principal_user_id p) s (rename_api_key i n s)"
      using member_key_statements(4) [OF assms(1) k] .
    have "get_api_key i (rename_api_key i n s) = Some (k\<lparr>key_name := n\<rparr>)"
      using k(1) by (auto simp: get_api_key_def rename_api_key_def update_where_def find_map_list find_Some_iff)
    moreover have "store_ok (rename_api_key i n s)" using assms(1) by (intro store_step_ok [OF store_step.intros(14)])
    ultimately show "confined_to (principal_user_id p) (rename_api_key i n s) (update_api_key_limits i l (rename_api_key i n s))"
      using k(2) by (intro member_key_statements(3) [where k = "k\<lparr>key_name := n\<rparr>"]) simp_all
  qed
  show ?thesis
    using assms by (auto simp: api_update_key_def Let_def dest!: own_key_of_member
        intro: step member_key_statements(3) split: sum.split option.split)
qed

lemma member_keys:
  assumes "store_ok s" "principal_role p = Member"
  shows "confined_to (principal_user_id p) s (snd (api_create_key cfg rd p b s))"
    "confined_to (principal_user_id p) s (snd (api_delete_key cfg rd p i s))"
    "confined_to (principal_user_id p) s (snd (api_key_access cfg p i acc s))"
proof -
  have "owner_user_id (snd (new_api_key cfg rd u scs b)) = u" "scopes (snd (new_api_key cfg rd u scs b)) = scs" for u scs
    by (simp_all add: new_api_key_def Let_def)
  then have "owner_user_id k = u \<and> scopes k = scs" if "new_api_key cfg rd u scs b = (tk, k)" for u scs tk k
    using that by (metis snd_conv)
  then show "confined_to (principal_user_id p) s (snd (api_create_key cfg rd p b s))"
    using assms(2) by (auto simp: api_create_key_def is_admin_def Let_def intro: confined_new_key split: sum.split prod.split)
  show "confined_to (principal_user_id p) s (snd (api_delete_key cfg rd p i s))"
    "confined_to (principal_user_id p) s (snd (api_key_access cfg p i acc s))"
    using assms by (auto simp: api_delete_key_def api_key_access_def dest!: own_key_of_member
        intro: member_key_statements split: sum.split)
qed

lemma member_password: "confined_to (principal_user_id p) s (snd (change_my_password cfg rd p old new s))"
  by (auto simp: change_my_password_def dest!: get_user_Some intro: confined_password split: sum.split option.split)

lemma member_probes:
  "confined_to u (store sv) (store (snd (probe_each cfg rd k ds out sv)))"
proof (induction cfg rd k ds out sv rule: probe_each.induct)
  case (2 cfg rd k d ds out sv)
  obtain r w where p: "probe_deployment (app cfg) d (gw_world sv) = (r, w)" by force
  with 2 [OF p [symmetric]] show ?case by (simp add: confined_trans [OF confined_remember])
qed simp

lemma member_health:
  "confined_to u (store sv) (store (snd (api_health_all_models cfg p sv)))"
  "confined_to u (store sv) (store (snd (api_health_one_model cfg rd p i sv)))"
  "confined_to u (store sv) (store (snd (api_health_model cfg rd p i sv)))"
proof -
  let ?R = "\<lambda>sv sv'. confined_to u (store sv) (store sv')"
  show "?R sv (snd (api_health_all_models cfg p sv))" "?R sv (snd (api_health_one_model cfg rd p i sv))"
    unfolding api_health_all_models_def api_health_one_model_def
    by (auto intro!: guarded_rel [of ?R] split: prod.split option.split)
  have "?R sv sv'" if "probe_each cfg rd k ds out sv = (rs, sv')" for k ds out rs sv sv'
    using member_probes [of u sv cfg rd k ds out] that by simp
  then show "?R sv (snd (api_health_model cfg rd p i sv))"
    unfolding api_health_model_def
    by (auto intro!: guarded_rel [of ?R] simp: Let_def split: prod.split)
qed

lemma member_refused:
  assumes "principal_role p = Member"
  shows "snd (api_create_user cfg rd p n pw r s) = s" "snd (api_invite_user cfg rd p n r s) = s"
    "snd (api_set_user_role cfg p i rn s) = s" "snd (api_set_user_password cfg rd p i pw s) = s"
    "snd (api_delete_user cfg rd p i s) = s" "snd (api_create_team cfg rd p n acc s) = s"
    "snd (api_delete_team cfg rd p i s) = s" "snd (api_team_access cfg rd p i acc s) = s"
    "snd (api_add_member cfg rd p i j s) = s" "snd (api_remove_member cfg p i j s) = s"
    "snd (api_put_budget cfg p bu s) = s" "snd (api_delete_budget cfg rd p i s) = s"
  unfolding api_create_user_def api_invite_user_def api_set_user_role_def api_set_user_password_def
    api_delete_user_def api_create_team_def api_delete_team_def api_team_access_def api_add_member_def
    api_remove_member_def api_put_budget_def api_delete_budget_def
  by (simp_all add: refused_member assms)

lemma member_refused_server:
  assumes "principal_role p = Member"
  shows "snd (api_create_provider cfg rd p pb sv) = sv" "snd (api_update_provider cfg rd p i pb sv) = sv"
    "snd (api_delete_provider cfg p i sv) = sv" "snd (api_create_deployments_bulk cfg rd p pn fmt es sv) = sv"
    "snd (api_rename_model cfg rd p i n sv) = sv" "snd (api_create_model cfg rd p n sv) = sv"
    "snd (api_create_deployment cfg rd p cb sv) = sv" "snd (api_delete_deployment cfg rd p i sv) = sv"
    "snd (api_create_alias cfg rd p n t sv) = sv" "snd (api_delete_alias cfg p n sv) = sv"
    "snd (api_discover_provider_models cfg p i fmt sv) = sv"
  unfolding api_create_provider_def api_update_provider_def api_delete_provider_def api_create_deployments_bulk_def
    api_rename_model_def api_create_model_def api_create_deployment_def api_delete_deployment_def
    api_create_alias_def api_delete_alias_def api_discover_provider_models_def
  by (simp_all add: refused_member authz_def authorize_def at_least_def less_eq_role_def assms)

lemma member_step_confined:
  "store_ok (store sv) \<Longrightarrow> principal_role p = Member \<Longrightarrow>
   confined_to (principal_user_id p) (store sv) (store (snd (admin_step cfg rd p c sv)))"
  by (cases c) (simp_all add: member_refused member_refused_server member_keys member_update_key member_password member_health)

lemma guarded_router:
  "(\<And>sv. router (gw_world (snd (body sv))) = router (gw_world sv)) \<Longrightarrow>
   router (gw_world (snd (guarded cfg p a body sv))) = router (gw_world sv)"
  by (simp add: guarded_def split: sum.split)

lemma health_router [simp]:
  "router (gw_world (snd (api_health_all_models cfg p sv))) = router (gw_world sv)"
  "router (gw_world (snd (api_health_one_model cfg rd p i sv))) = router (gw_world sv)"
  "router (gw_world (snd (api_health_model cfg rd p i sv))) = router (gw_world sv)"
proof -
  have one: "probe_deployment c d w = (r, w') \<Longrightarrow> router w' = router w" for c d w r w'
    by (auto simp: probe_deployment_def dest: check_deployment_router)
  have all: "check_deployments c ds w = (rs, w') \<Longrightarrow> router w' = router w" for c ds w rs w'
    using check_deployments_router [of c ds w] by simp
  have each: "probe_each cfg rd k ds out sv = (rs, sv') \<Longrightarrow> router (gw_world sv') = router (gw_world sv)"
    for k ds out sv rs sv'
    using probe_each_frame [of cfg rd k ds out sv] by simp
  show "router (gw_world (snd (api_health_all_models cfg p sv))) = router (gw_world sv)"
    "router (gw_world (snd (api_health_one_model cfg rd p i sv))) = router (gw_world sv)"
    "router (gw_world (snd (api_health_model cfg rd p i sv))) = router (gw_world sv)"
    unfolding api_health_all_models_def api_health_one_model_def api_health_model_def
    by (auto intro!: guarded_router dest: one all each simp: Let_def split: prod.split option.split)
qed

lemma on_store_world [simp]: "gw_world (snd (on_store f sv)) = gw_world sv"
  by (simp add: on_store_def split: prod.split)

lemma member_step_router:
  "principal_role p = Member \<Longrightarrow> router (gw_world (snd (admin_step cfg rd p c sv))) = router (gw_world sv)"
  by (cases c) (simp_all add: member_refused_server)

text \<open>C7: A member reaches only what is his own. Whatever call of the admin API he makes, the routing
  table is left alone and the store changes at most in three places: the hash of his own password,
  rows of keys that he owns, and the results of the last health checks. No other table is written, no
  row of another user or of another user's key, and no key gains the scope that administers.\<close>
theorem member_confined:
  assumes "store_ok (store sv)" "principal_role p = Member" "sv' = snd (admin_step cfg rd p c sv)"
  shows "confined_to (principal_user_id p) (store sv) (store sv') \<and> router (gw_world sv') = router (gw_world sv)"
  unfolding assms(3) by (intro conjI member_step_confined member_step_router assms)

definition member_key :: "readings \<Rightarrow> create_key_body \<Rightarrow> sqlite_store" where
  "member_key rd b = store (snd (admin_step sample_admin_config rd
     (sample_principal Member\<lparr>principal_user_id := ''m''\<rparr>) (CreateKey b) (sample_server\<lparr>store := staffed_store\<rparr>)))"

definition unlimited_body :: create_key_body where
  "unlimited_body =
     \<lparr>ck_name = None, ck_owner = Some ''a'', ck_team = None, ck_scopes = None, ck_access = policy_default,
      ck_rpm_limit = Some 0, ck_tpm_limit = Some 0, ck_max_concurrent = Some 0\<rparr>"

theorem member_confined_witness:
  "confined_to ''m'' staffed_store (member_key sample_readings unlimited_body) \<and>
   map owner_user_id (api_keys (member_key sample_readings unlimited_body)) = [''m'']"
proof -
  have "map owner_user_id (api_keys (member_key sample_readings unlimited_body)) = [''m'']" by code_simp
  with member_confined [of "sample_server\<lparr>store := staffed_store\<rparr>" "sample_principal Member\<lparr>principal_user_id := ''m''\<rparr>"
      _ sample_admin_config sample_readings "CreateKey unlimited_body", OF _ _ refl]
  show ?thesis by (simp add: staffed_store_ok sample_principal_def member_key_def)
qed

section \<open>Limits a member gives himself\<close>

text \<open>A member escapes the limits of his account. He issues himself a key whose own limits are 0;
  the limits of a key come before those of its user and 0 means unlimited, so the key serves inference
  without any limit, whatever limits the account has.\<close>
theorem member_lifts_own_limits:
  assumes "get_user (principal_user_id p) s = Some u" "principal_role p = Member"
    and "ck_scopes b = None" "ck_rpm_limit b = Some 0" "ck_tpm_limit b = Some 0" "ck_max_concurrent b = Some 0"
    and "new_api_key cfg rd (principal_user_id p) [InferenceScope] b = (tk, k)"
    and "key_id k \<notin> key_id ` set (api_keys s)" "hash k \<notin> hash ` set (api_keys s)"
  shows "\<exists>s' a. api_create_key cfg rd p b s =
        (ok_json (JObj [(''token'', JStr tk), (''key'', key_json (time_text cfg) k)]), s') \<and>
      verify_api_key (hex_sha256 (app cfg) tk) s' = Some a \<and> auth_user a = u \<and>
      has_scope (auth_key a) InferenceScope \<and> is_unlimited (resolve_limits a)"
proof -
  have k: "hash k = hex_sha256 (app cfg) tk" "owner_user_id k = principal_user_id p" "scopes k = [InferenceScope]"
    "rpm_limit k = Some 0" "tpm_limit k = Some 0" "key_max_concurrent k = Some 0" "key_deleted_at k = None"
    using assms(4-7) by (auto simp: new_api_key_def Let_def)
  then have stored: "stored_key k = k"
    by (simp add: stored_key_def stored_scopes_unprivileged)
  define s' where "s' = s\<lparr>api_keys := api_keys s @ [k]\<rparr>"
  have created: "create_api_key k s = Inr s'"
    using assms(8,9) stored by (simp add: create_api_key_def s'_def)
  have "find (\<lambda>r. hash r = hash k \<and> key_deleted_at r = None) (api_keys s) = None"
    using assms(9) by (auto simp: find_None_iff) (metis image_eqI)
  then have "find (\<lambda>r. hash r = hash k \<and> key_deleted_at r = None) (api_keys s @ [k]) = Some k"
    using k(7) by (simp add: find_snoc)
  moreover have "get_user (owner_user_id k) s' = Some u" using assms(1) k(2) by (simp add: get_user_def s'_def)
  ultimately have "verify_api_key (hex_sha256 (app cfg) tk) s' = Some \<lparr>auth_user = u, auth_key = k\<rparr>"
    by (simp add: verify_api_key_def s'_def k(1))
  moreover have "is_unlimited (resolve_limits \<lparr>auth_user = u, auth_key = k\<rparr>)"
    using k by (simp add: resolve_limits_def is_unlimited_def Let_def)
  moreover have "parse_set ''inference'' = Inr [InferenceScope]" by (rule parse_set_values)
  ultimately show ?thesis
    using assms(2,3,7) created k by (simp add: api_create_key_def is_admin_def has_scope_def Let_def)
qed

lemma unlimited_key_sample:
  "get_user ''m'' staffed_store = Some (sample_user ''m'' Member)" "api_keys staffed_store = []"
  by (simp_all add: staffed_store_def sample_user_def get_user_def empty_store_def)

theorem member_lifts_own_limits_witness:
  "\<exists>s' a. snd (api_create_key sample_admin_config sample_readings (sample_principal Member\<lparr>principal_user_id := ''m''\<rparr>)
        unlimited_body staffed_store) = s' \<and>
     verify_api_key (hex_sha256 (app sample_admin_config)
       (fst (new_api_key sample_admin_config sample_readings ''m'' [InferenceScope] unlimited_body))) s' = Some a \<and>
     user_rpm_limit (auth_user a) = Some 10 \<and> is_unlimited (resolve_limits a)"
proof -
  obtain tk k where k: "new_api_key sample_admin_config sample_readings ''m'' [InferenceScope] unlimited_body = (tk, k)" by force
  show ?thesis
    using member_lifts_own_limits [of "sample_principal Member\<lparr>principal_user_id := ''m''\<rparr>" staffed_store
        "sample_user ''m'' Member" unlimited_body sample_admin_config sample_readings tk k] k unlimited_key_sample
    by (auto simp: sample_principal_def unlimited_body_def sample_user_def)
qed

section \<open>Callers\<close>

lemma get_user_iff:
  assumes "store_ok s"
  shows "get_user i s = Some u \<longleftrightarrow> u \<in> set (users s) \<and> user_id u = i \<and> user_deleted_at u = None"
proof -
  have "unique_among (\<lambda>u. user_deleted_at u = None) user_id (users s)"
    using assms by (simp add: store_ok_def users_ok_def unique_among_def distinct_map_filter)
  then show ?thesis unfolding get_user_def by (rule find_live_iff)
qed

lemma get_user_by_username_Some:
  "get_user_by_username n s = Some u \<Longrightarrow> u \<in> set (users s) \<and> username u = n \<and> user_deleted_at u = None"
  by (auto simp: get_user_by_username_def find_Some_iff)

lemma get_session_Some:
  "get_session now tk s = Some x \<Longrightarrow> x \<in> set (sessions s) \<and> session_token x = tk \<and> now < session_expires_at x"
  by (auto simp: get_session_def find_Some_iff)

lemma upsert_sso_user_Some:
  assumes "upsert_sso_user cfg rd su s = (Inr u, s')" "store_ok s"
  shows "get_user (user_id u) s' = Some u \<and> username u = lowercase cfg (trim (sso_email su)) \<and>
    (u \<in> set (users s) \<or> user_role u = Member)"
proof (cases "get_user_by_username (lowercase cfg (trim (sso_email su))) s")
  case (Some v)
  with assms(1) have "u = v" "s' = s" by (auto simp: upsert_sso_user_def Let_def split: if_splits)
  with get_user_by_username_Some [OF Some] show ?thesis by (simp add: get_user_iff [OF assms(2)])
next
  case None
  with assms(1) have new: "u = sso_row rd (lowercase cfg (trim (sso_email su))) Member" "create_user u s = Inr s'"
    by (auto simp: upsert_sso_user_def Let_def split: if_splits sum.splits)
  then have "store_ok s'" "users s' = users s @ [u]"
    using user_statements_ok(1) [OF assms(2)] users_inserts(4) by blast+
  with new(1) show ?thesis by (simp add: get_user_iff sso_row_def)
qed

text \<open>C6: A caller of the admin API is who the store says. A principal always names a live user of the
  store with the role that user has now, and rests on a credential that is good now: the token of a
  live key that has the admin scope and that the user owns, or, when no bearer token is sent, a
  session of his that has not ended, or a session the identity provider confirms for his address. An
  account that this creates is a member.\<close>
theorem principal_is_live_user:
  assumes "extract_principal cfg rd hs s = (Inr p, s')" "store_ok s"
  shows "\<exists>u. get_user (principal_user_id p) s' = Some u \<and> principal_username p = username u \<and>
    principal_role p = user_role u \<and>
    (case bearer_of hs of
       Some tk \<Rightarrow> \<exists>k \<in> set (api_keys s). hash k = hex_sha256 (app cfg) tk \<and> key_deleted_at k = None \<and>
           AdminScope \<in> set (scopes k) \<and> owner_user_id k = user_id u
     | None \<Rightarrow> (\<exists>x \<in> set (sessions s). session_cookie hs = Some (session_token x) \<and>
           at_now rd 0 < session_expires_at x \<and> session_user_id x = user_id u) \<or>
         (\<exists>c tk su. sso cfg = Some c \<and> cookie_value hs (shared_cookie_name (auth cfg)) = Some tk \<and>
           sso_introspect (at_idp rd) (read_user cfg) c tk = Inr su \<and>
           username u = lowercase cfg (trim (sso_email su)) \<and> (u \<in> set (users s) \<or> user_role u = Member)))"
proof (cases "bearer_of hs")
  case (Some tk)
  then obtain a where a: "verify_api_key (hex_sha256 (app cfg) tk) s = Some a" "has_scope (auth_key a) AdminScope"
    "p = principal_of (auth_user a) (session_end (at_now rd 1))" "s' = mark_api_key_used (at_now rd 0) (key_id (auth_key a)) s"
    using assms(1) by (auto simp: extract_principal_def split: option.splits if_splits)
  have "store_ok s'" unfolding a(4) by (rule key_statements_ok(2) [OF assms(2)])
  then have "get_user (user_id (auth_user a)) s' = Some (auth_user a)"
    using a(1,4) by (simp add: get_user_iff verify_api_key_iff [OF assms(2)] mark_api_key_used_def)
  with a Some show ?thesis
    by (auto simp: verify_api_key_iff [OF assms(2)] principal_of_def has_scope_def intro!: exI [of _ "auth_user a"])
next
  case None
  have shared: ?thesis if sh: "shared_principal cfg rd hs s = (Inr p, s')"
  proof -
    obtain c tk su u where sso: "sso cfg = Some c" "cookie_value hs (shared_cookie_name (auth cfg)) = Some tk"
      "sso_introspect (at_idp rd) (read_user cfg) c tk = Inr su" "upsert_sso_user cfg rd su s = (Inr u, s')"
      "p = principal_of u (session_end (at_now rd 1))"
      using sh by (auto simp: shared_principal_def Let_def split: option.splits sum.splits prod.splits)
    from upsert_sso_user_Some [OF sso(4) assms(2)] sso None show ?thesis
      by (auto simp: principal_of_def intro!: exI [of _ u])
  qed
  define found where "found = Option.bind (session_cookie hs) (\<lambda>tk. get_session (at_now rd 0) tk s)"
  have who: "(case found of
      Some x \<Rightarrow> (case get_user (session_user_id x) s of
                  Some u \<Rightarrow> (Inr (principal_of u (session_expires_at x)), s) | None \<Rightarrow> shared_principal cfg rd hs s)
    | None \<Rightarrow> shared_principal cfg rd hs s) = (Inr p, s')"
    using assms(1) None by (simp add: extract_principal_def found_def)
  show ?thesis
  proof (cases "shared_principal cfg rd hs s = (Inr p, s')")
    case False
    with who obtain x where x: "found = Some x" by (auto split: option.splits)
    with False who obtain u where own: "get_user (session_user_id x) s = Some u"
      "p = principal_of u (session_expires_at x)" "s' = s"
      by (auto split: option.splits)
    from x obtain tk where loc: "session_cookie hs = Some tk" "get_session (at_now rd 0) tk s = Some x"
      by (auto simp: found_def bind_eq_Some_conv)
    have "x \<in> set (sessions s)" "session_token x = tk" "at_now rd 0 < session_expires_at x" "user_id u = session_user_id x"
      using get_session_Some [OF loc(2)] get_user_Some [OF own(1)] by simp_all
    then have "\<exists>x \<in> set (sessions s). session_cookie hs = Some (session_token x) \<and>
        at_now rd 0 < session_expires_at x \<and> session_user_id x = user_id u"
      using loc(1) by (intro bexI [of _ x]) simp_all
    moreover have "get_user (principal_user_id p) s' = Some u" "principal_username p = username u"
      "principal_role p = user_role u"
      using own \<open>user_id u = session_user_id x\<close> by (simp_all add: principal_of_def)
    ultimately show ?thesis unfolding None by auto
  qed (rule shared)
qed

definition session_store :: sqlite_store where
  "session_store = staffed_store\<lparr>sessions := [\<lparr>session_token = ''t'', session_user_id = ''a'',
     session_created_at = 0, session_expires_at = 9\<rparr>]\<rparr>"

lemma session_store_ok: "store_ok session_store"
  using staffed_store_ok by (simp add: session_store_def store_ok_def)

lemma session_caller:
  "extract_principal sample_admin_config sample_readings [(''cookie'', ''x=y; yb_session=t'')] session_store =
     (Inr (principal_of (sample_user ''a'' Admin) 9), session_store)"
  by code_simp

theorem principal_is_live_user_witness:
  "\<exists>u. get_user ''a'' session_store = Some u \<and> user_role u = Admin"
  using principal_is_live_user [OF session_caller session_store_ok]
  by (auto simp: principal_of_def sample_user_def)

end
