(* ===== verification/Admin_Secrets.thy ===== *)
theory Admin_Secrets
  imports Admin_Guards
begin

text \<open>
  What the admin API shows of secrets, and the completion of names. Two stores that differ only in
  password hashes, key hashes, sessions, sealed keys and the credentials of providers give the same
  answer to every call that reads; a completion lists the best matches in order.
\<close>

section \<open>Reading a store without its secrets\<close>

definition hide_password :: "user \<Rightarrow> user" where
  "hide_password u = u\<lparr>password_hash := []\<rparr>"

definition hide_hash :: "api_key \<Rightarrow> api_key" where
  "hide_hash k = k\<lparr>hash := []\<rparr>"

definition hide_credential :: "string option \<Rightarrow> string option" where
  "hide_credential k = (if has_api_key k then Some ''*'' else None)"

definition hide_provider :: "provider_record \<Rightarrow> provider_record" where
  "hide_provider r = r\<lparr>pv_api_key := hide_credential (pv_api_key r)\<rparr>"

definition hide_deployment :: "deployment_record \<Rightarrow> deployment_record" where
  "hide_deployment d = d\<lparr>api_key := hide_credential (api_key d)\<rparr>"

text \<open>Of a provider's credential only whether there is one is left.\<close>
definition mask_store :: "sqlite_store \<Rightarrow> sqlite_store" where
  "mask_store s =
     s\<lparr>users := map hide_password (users s), sessions := [], api_keys := map hide_hash (api_keys s),
       external_keys := [], provider_rows := map hide_provider (provider_rows s)\<rparr>"

lemma hidden_columns [simp]:
  "user_id (hide_password u) = user_id u" "username (hide_password u) = username u"
  "user_role (hide_password u) = user_role u" "user_deleted_at (hide_password u) = user_deleted_at u"
  "key_id (hide_hash k) = key_id k" "owner_user_id (hide_hash k) = owner_user_id k"
  "key_deleted_at (hide_hash k) = key_deleted_at k" "key_created_at (hide_hash k) = key_created_at k"
  "pv_id (hide_provider r) = pv_id r" "pv_name (hide_provider r) = pv_name r"
  "pv_api_base (hide_provider r) = pv_api_base r" "pv_api_key (hide_provider r) = hide_credential (pv_api_key r)"
  "pv_extra (hide_provider r) = pv_extra r"
  "model_id (hide_deployment d) = model_id d" "model_name (hide_deployment d) = model_name d"
  "provider_id (hide_deployment d) = provider_id d" "provider (hide_deployment d) = provider d"
  "upstream_model (hide_deployment d) = upstream_model d"
  by (simp_all add: hide_password_def hide_hash_def hide_provider_def hide_deployment_def)

lemma hidden_views [simp]:
  "user_json tt (hide_password u) = user_json tt u" "key_json tt (hide_hash k) = key_json tt k"
  "provider_entries tt (hide_provider r) = provider_entries tt r"
  "deployment_json tt (hide_deployment d) = deployment_json tt d"
  by (simp_all add: hide_password_def hide_hash_def hide_provider_def hide_deployment_def user_json_def key_json_def
      provider_entries_def deployment_json_def hide_credential_def has_api_key_def split: option.split)

lemma sort_key_map: "sort_key k (map f xs) = map f (sort_key (\<lambda>x. k (f x)) xs)"
proof -
  have "insort_key k (f x) (map f ys) = map f (insort_key (\<lambda>x. k (f x)) x ys)" for x ys
    by (induction ys) auto
  then show ?thesis by (induction xs) simp_all
qed

lemma masked_tables [simp]:
  "model_rows (mask_store s) = model_rows s" "deployment_rows (mask_store s) = deployment_rows s"
  "alias_rows (mask_store s) = alias_rows s" "health_rows (mask_store s) = health_rows s"
  "teams (mask_store s) = teams s" "team_memberships (mask_store s) = team_memberships s"
  "budgets (mask_store s) = budgets s" "spend_rollup (mask_store s) = spend_rollup s"
  "request_telemetry (mask_store s) = request_telemetry s"
  by (simp_all add: mask_store_def)

lemma masked_reads [simp]:
  "list_users (mask_store s) = map hide_password (list_users s)"
  "list_api_keys (mask_store s) = map hide_hash (list_api_keys s)"
  "list_api_keys_for_user u (mask_store s) = map hide_hash (list_api_keys_for_user u s)"
  "get_api_key i (mask_store s) = map_option hide_hash (get_api_key i s)"
  "list_providers (mask_store s) = map hide_provider (list_providers s)"
  "get_provider i (mask_store s) = map_option hide_provider (get_provider i s)"
  by (simp_all add: mask_store_def list_users_def list_api_keys_def list_api_keys_for_user_def get_api_key_def
      list_providers_def get_provider_def sort_key_map filter_map find_map_list comp_def)

lemma masked_models [simp]:
  "get_model i (mask_store s) = get_model i s" "list_models (mask_store s) = list_models s"
  "list_health (mask_store s) = list_health s" "list_teams (mask_store s) = list_teams s"
  "list_team_members t (mask_store s) = list_team_members t s" "list_budgets st i (mask_store s) = list_budgets st i s"
  "spend_rows (mask_store s) = spend_rows s" "usage_report d f e (mask_store s) = usage_report d f e s"
  by (simp_all add: get_model_def list_models_def list_health_def list_teams_def list_team_members_def
      list_budgets_def spend_rows_def usage_report_def)

lemma masked_aliases [simp]: "list_aliases (mask_store s) = list_aliases s"
proof -
  have "join_alias (mask_store s) = join_alias s" by (simp add: join_alias_def fun_eq_iff)
  then show ?thesis by (simp add: list_aliases_def)
qed

lemma map_filter_map_option: "List.map_filter (\<lambda>x. map_option f (g x)) xs = map f (List.map_filter g xs)"
  by (induction xs) (auto simp: List.map_filter_def)

lemma masked_deployments [simp]: "list_deployments (mask_store s) = map hide_deployment (list_deployments s)"
proof -
  have "join_deployment (mask_store s) = (\<lambda>d. map_option hide_deployment (join_deployment s d))"
    by (auto simp: fun_eq_iff join_deployment_def hide_deployment_def split: option.split)
  then show ?thesis by (simp add: list_deployments_def map_filter_map_option sort_key_map)
qed

section \<open>Answers\<close>

text \<open>The calls that read.\<close>
definition reads :: "admin_call \<Rightarrow> bool" where
  "reads c \<longleftrightarrow> (case c of
     Me \<Rightarrow> True | ListUsers \<Rightarrow> True | ListModels \<Rightarrow> True | ListDeployments \<Rightarrow> True | LastHealth \<Rightarrow> True
   | ListProviders \<Rightarrow> True | ListAliases \<Rightarrow> True | ListKeys \<Rightarrow> True | GetKey _ \<Rightarrow> True | ListTeams \<Rightarrow> True
   | ListMembers _ \<Rightarrow> True | ListBudgets _ _ \<Rightarrow> True | Complete _ _ _ \<Rightarrow> True | Spend \<Rightarrow> True | Usage _ _ \<Rightarrow> True
   | _ \<Rightarrow> False)"

lemma shown_masked: "view s = view t \<Longrightarrow> fst (shown cfg p a view s) = fst (shown cfg p a view t)"
  by (simp add: shown_def guarded_def split: sum.split)

lemma masked_counts [simp]:
  "length (filter (\<lambda>d. provider_id d = i) (map hide_deployment ds)) = length (filter (\<lambda>d. provider_id d = i) ds)"
  "length (filter (\<lambda>d. model_id d = i) (map hide_deployment ds)) = length (filter (\<lambda>d. model_id d = i) ds)"
  by (simp_all add: filter_map comp_def)

lemma masked_views [simp]:
  "counted_provider_json tt (map hide_deployment ds) (hide_provider r) = counted_provider_json tt ds r"
  "listed_model_json tt (map hide_deployment ds) = listed_model_json tt ds"
  "provider_suggestion (map hide_deployment ds) (hide_provider r) = provider_suggestion ds r"
  "model_suggestion (map hide_deployment ds) names m = model_suggestion ds names m"
  by (simp_all add: counted_provider_json_def listed_model_json_def provider_suggestion_def model_suggestion_def
      filter_map comp_def fun_eq_iff)

lemma ranked_map: "ranked rk f (map h xs) = ranked (\<lambda>x. rk (h x)) (\<lambda>x. f (h x)) xs"
  by (simp add: ranked_def List.map_filter_def filter_map comp_def)

lemma masked_hits [simp]:
  "model_hits l n (mask_store s) = model_hits l n s" "provider_hits l n (mask_store s) = provider_hits l n s"
  "user_hits l n (mask_store s) = user_hits l n s"
  by (simp_all add: model_hits_def provider_hits_def user_hits_def ranked_map)

lemma masked_handlers:
  "fst (api_list_users cfg p (mask_store s)) = fst (api_list_users cfg p s)"
  "fst (api_list_models cfg p (mask_store s)) = fst (api_list_models cfg p s)"
  "fst (api_list_deployments cfg p (mask_store s)) = fst (api_list_deployments cfg p s)"
  "fst (api_last_health cfg p (mask_store s)) = fst (api_last_health cfg p s)"
  "fst (api_list_providers cfg p (mask_store s)) = fst (api_list_providers cfg p s)"
  "fst (api_list_aliases cfg p (mask_store s)) = fst (api_list_aliases cfg p s)"
  "fst (api_list_teams cfg p (mask_store s)) = fst (api_list_teams cfg p s)"
  "fst (api_list_members cfg p i (mask_store s)) = fst (api_list_members cfg p i s)"
  "fst (api_list_budgets cfg p st i (mask_store s)) = fst (api_list_budgets cfg p st i s)"
  "fst (api_spend cfg p (mask_store s)) = fst (api_spend cfg p s)"
  unfolding api_list_users_def api_list_models_def api_list_deployments_def api_last_health_def
    api_list_providers_def api_list_aliases_def api_list_teams_def api_list_members_def api_list_budgets_def
    api_spend_def
  by (rule shown_masked, simp add: comp_def cong: sum.case_cong)+

lemma masked_key_handlers:
  "fst (api_list_keys cfg p (mask_store s)) = fst (api_list_keys cfg p s)"
  "fst (api_get_key cfg p i (mask_store s)) = fst (api_get_key cfg p i s)"
  "fst (api_usage cfg p f u (mask_store s)) = fst (api_usage cfg p f u s)"
  by (auto simp: api_list_keys_def api_get_key_def api_usage_def own_key_or_admin_def respond_def comp_def split: option.split)

lemma masked_complete: "fst (api_complete cfg p k q l (mask_store s)) = fst (api_complete cfg p k q l s)"
  by (simp add: api_complete_def Let_def cong: if_cong) (auto intro!: shown_masked)

lemma on_store_answer: "fst (on_store f sv) = Returned (fst (f (store sv)))"
  by (simp add: on_store_def split: prod.split)

lemma reads_masked:
  "reads c \<Longrightarrow> fst (admin_step cfg rd p c sv) = fst (admin_step cfg rd p c (sv\<lparr>store := mask_store (store sv)\<rparr>))"
  by (cases c) (simp_all add: reads_def on_store_answer masked_handlers masked_key_handlers masked_complete)

section \<open>Properties\<close>

text \<open>C9: Nothing that is read through the admin API discloses a secret. Two servers whose stores agree
  once password hashes, key hashes, sessions and sealed keys are hidden, and of the credential of a
  provider all is hidden but whether there is one, give the same answer to every call that reads, to
  an administrator as well as to a member.\<close>
theorem reads_disclose_no_secret:
  assumes "reads c" "mask_store (store sv) = mask_store (store sv')"
  shows "fst (admin_step cfg rd p c sv) = fst (admin_step cfg rd p c (sv\<lparr>store := store sv'\<rparr>))"
  using reads_masked [OF assms(1), of cfg rd p sv] reads_masked [OF assms(1), of cfg rd p "sv\<lparr>store := store sv'\<rparr>"]
  by (simp add: assms(2))

definition provided_store :: "string \<Rightarrow> string \<Rightarrow> sqlite_store" where
  "provided_store pw cred =
     staffed_store\<lparr>users := [(sample_user ''a'' Admin)\<lparr>password_hash := pw\<rparr>],
       provider_rows := [\<lparr>pv_id = ''p'', pv_name = ''acme'', pv_api_base = None, pv_api_key = Some cred,
         pv_extra = extra_default, pv_created_at = 0, pv_updated_at = 0\<rparr>]\<rparr>"

theorem reads_disclose_no_secret_witness:
  "fst (admin_step sample_admin_config sample_readings (sample_principal Member) ListProviders
       (sample_server\<lparr>store := provided_store ''h1'' ''sk-1''\<rparr>)) =
   fst (admin_step sample_admin_config sample_readings (sample_principal Member) ListProviders
       (sample_server\<lparr>store := provided_store ''h2'' ''sk-2''\<rparr>))"
  using reads_disclose_no_secret [of ListProviders "sample_server\<lparr>store := provided_store ''h1'' ''sk-1''\<rparr>"
      "sample_server\<lparr>store := provided_store ''h2'' ''sk-2''\<rparr>" sample_admin_config sample_readings "sample_principal Member"]
  by (simp add: reads_def mask_store_def provided_store_def hide_password_def hide_provider_def hide_credential_def has_api_key_def)

end
