(* ===== verification/Redaction.thy ===== *)
theory Redaction
  imports Wire_Text Media_Wire "HOL-Library.Product_Lexorder"
begin

text \<open>
  Personal data taken out of captured text (\<open>crates/yb-redact/src/lib.rs\<close>): the rules and their
  markers, the search for payment cards in a run of digit groups, and the redaction of bodies.

  The regular expressions belong to another package: where a pattern matches a text is an argument.
  Texts are bytes; a span is a pair of byte positions, and the spans used lie at ASCII characters or
  at the ends of a match, which are character boundaries.
\<close>

section \<open>Patterns\<close>

type_synonym span = "nat \<times> nat"

datatype pattern =
    PrivateKey | ApiToken | WebToken | BearerToken | Email | DashedId | DigitRun | InsuranceNumber | Phone

record regexes =
  find_iter :: "pattern \<Rightarrow> string \<Rightarrow> span list"
  find_at :: "pattern \<Rightarrow> string \<Rightarrow> nat \<Rightarrow> span option"

definition str_slice :: "string \<Rightarrow> nat \<Rightarrow> nat \<Rightarrow> string" where
  "str_slice s from to = take (to - from) (drop from s)"

section \<open>Payment cards\<close>

text \<open>The runs of digits of a text, each as where it begins and ends.\<close>
fun digit_groups :: "nat \<Rightarrow> nat option \<Rightarrow> string \<Rightarrow> span list" where
  "digit_groups i None [] = []"
| "digit_groups i (Some from) [] = [(from, i)]"
| "digit_groups i start (c # cs) =
     (case (is_digit c, start) of
        (True, None) \<Rightarrow> digit_groups (Suc i) (Some i) cs
      | (False, Some from) \<Rightarrow> (from, i) # digit_groups (Suc i) None cs
      | _ \<Rightarrow> digit_groups (Suc i) start cs)"

definition luhn_digit :: "nat \<Rightarrow> nat \<Rightarrow> nat" where
  "luhn_digit i d = (if i mod 2 = 1 then (let doubled = d * 2 in if doubled > 9 then doubled - 9 else doubled) else d)"

definition luhn :: "string \<Rightarrow> bool" where
  "luhn candidate =
     (let digits = map (\<lambda>c. byte_of c - 48) (filter is_digit candidate)
      in 13 \<le> length digits \<and> length digits \<le> 19 \<and>
         sum_list (map (\<lambda>(i, d). luhn_digit i d) (enumerate 0 (rev digits))) mod 10 = 0)"

fun card_shape :: "nat list \<Rightarrow> bool" where
  "card_shape [one] = (13 \<le> one \<and> one \<le> 19)"
| "card_shape [a, b, c] = (a = 4 \<and> b = 6 \<and> (c = 4 \<or> c = 5))"
| "card_shape [a, b, c, final] = (a = 4 \<and> b = 4 \<and> c = 4 \<and> 1 \<le> final \<and> final \<le> 4)"
| "card_shape [a, b, c, d, final] = (a = 4 \<and> b = 4 \<and> c = 4 \<and> d = 4 \<and> 1 \<le> final \<and> final \<le> 4)"
| "card_shape _ = False"

text \<open>A window is joined to the last span when it begins within it.\<close>
definition push_span :: "span \<Rightarrow> span list \<Rightarrow> span list" where
  "push_span w spans =
     (if spans \<noteq> [] \<and> fst w \<le> snd (last spans)
      then butlast spans @ [(fst (last spans), max (snd (last spans)) (snd w))]
      else spans @ [w])"

text \<open>The windows that begin at \<open>from\<close>, by the group they end with.\<close>
fun card_windows :: "string \<Rightarrow> nat \<Rightarrow> nat \<Rightarrow> nat list \<Rightarrow> span list \<Rightarrow> span list \<Rightarrow> span list" where
  "card_windows s from digits lengths [] spans = spans"
| "card_windows s from digits lengths ((a, b) # gs) spans =
     (let digits = digits + (b - a); lengths = lengths @ [b - a]
      in if digits > 19 then spans
         else card_windows s from digits lengths gs
           (if card_shape lengths \<and> digits \<ge> 13 \<and> luhn (str_slice s from b) then push_span (from, b) spans else spans))"

fun card_starts :: "string \<Rightarrow> span list \<Rightarrow> span list \<Rightarrow> span list" where
  "card_starts s [] spans = spans"
| "card_starts s (g # gs) spans = card_starts s gs (card_windows s (fst g) 0 [] (g # gs) spans)"

text \<open>The phone numbers that begin inside a span, each read afresh, go with it.\<close>
fun stretch_end :: "regexes \<Rightarrow> string \<Rightarrow> span list \<Rightarrow> span \<Rightarrow> span" where
  "stretch_end rx s [] sp = sp"
| "stretch_end rx s ((g, e) # gs) sp =
     stretch_end rx s gs
       (if fst sp < g \<and> g < snd sp
        then (case find_at rx Phone s g of
                Some m \<Rightarrow> if fst m = g then (fst sp, max (snd sp) (snd m)) else sp
              | None \<Rightarrow> sp)
        else sp)"

text \<open>And one before the card whose last group a window took.\<close>
fun stretch_start :: "span list \<Rightarrow> span \<Rightarrow> span" where
  "stretch_start [] sp = sp"
| "stretch_start (m # ms) sp =
     stretch_start ms (if fst m < fst sp \<and> fst sp < snd m then (fst m, snd sp) else sp)"

fun join_spans :: "span list \<Rightarrow> span list" where
  "join_spans (a # b # rest) =
     (if fst b \<le> snd a then join_spans ((fst a, max (snd a) (snd b)) # rest) else a # join_spans (b # rest))"
| "join_spans spans = spans"

definition card_spans :: "regexes \<Rightarrow> string \<Rightarrow> span list" where
  "card_spans rx found =
     (let groups = digit_groups 0 None found;
          spans = card_starts found groups []
      in join_spans (sort (map (\<lambda>sp. stretch_start (find_iter rx Phone found) (stretch_end rx found groups sp)) spans)))"

section \<open>Rules\<close>

definition always :: "string \<Rightarrow> span list" where
  "always found = [(0, length found)]"

record rule =
  marker :: string
  shape :: pattern
  accept :: "string \<Rightarrow> span list"

definition rules :: "regexes \<Rightarrow> rule list" where
  "rules rx = map (\<lambda>(m, p, a). \<lparr>marker = m, shape = p, accept = a\<rparr>)
     [(''[PRIVATE_KEY]'', PrivateKey, always), (''[SECRET]'', ApiToken, always), (''[SECRET]'', WebToken, always),
      (''[SECRET]'', BearerToken, always), (''[EMAIL]'', Email, always), (''[NATIONAL_ID]'', DashedId, always),
      (''[CARD]'', DigitRun, card_spans rx), (''[NATIONAL_ID]'', InsuranceNumber, always), (''[PHONE]'', Phone, always)]"

text \<open>The text from \<open>kept\<close> on, with the text of each span put in its place.\<close>
fun splice :: "string \<Rightarrow> nat \<Rightarrow> (span \<times> string) list \<Rightarrow> string" where
  "splice s kept [] = drop kept s"
| "splice s kept (((from, to), r) # rs) = str_slice s kept from @ r @ splice s to rs"

definition redact_match :: "rule \<Rightarrow> string \<Rightarrow> string" where
  "redact_match r found = splice found 0 (map (\<lambda>sp. (sp, marker r)) (accept r found))"

definition apply_rule :: "regexes \<Rightarrow> rule \<Rightarrow> string \<Rightarrow> string" where
  "apply_rule rx r s = splice s 0 (map (\<lambda>m. (m, redact_match r (str_slice s (fst m) (snd m)))) (find_iter rx (shape r) s))"

definition pattern_redact :: "regexes \<Rightarrow> string \<Rightarrow> string" where
  "pattern_redact rx s = foldl (\<lambda>out r. apply_rule rx r out) s (rules rx)"

section \<open>Bodies\<close>

text \<open>
  Reading JSON text as the events a visitor sees, a repeated key included, and writing a value; the
  text of a float never has the shape of a card, for it holds a point or an exponent.
\<close>
record body_codec =
  read_events :: "bytes \<Rightarrow> json option"
  write_value :: "json \<Rightarrow> bytes"

text \<open>A \<open>Value\<close> made of the events: a repeated key keeps its place and takes the last value.\<close>
fun collapse :: "json \<Rightarrow> json" where
  "collapse (JArr vs) = JArr (map collapse vs)"
| "collapse (JObj m) = JObj (foldl (\<lambda>acc (k, v). jinsert k v acc) [] (map (\<lambda>(k, v). (k, collapse v)) m))"
| "collapse v = v"

fun unique_keys :: "json \<Rightarrow> bool" where
  "unique_keys (JArr vs) = list_all unique_keys vs"
| "unique_keys (JObj m) = (distinct (map fst m) \<and> list_all unique_keys (map snd m))"
| "unique_keys v = True"

fun number_digits :: "number \<Rightarrow> string option" where
  "number_digits (PosInt n) = Some (show_nat (unat n))"
| "number_digits (NegInt n) = Some (CHR ''-'' # show_nat (nat (- n)))"
| "number_digits (Float q) = None"

definition card_shaped :: "number \<Rightarrow> bool" where
  "card_shaped n =
     (case number_digits n of
        None \<Rightarrow> False
      | Some text \<Rightarrow>
          (let digits = (case strip_prefix text ''-'' of Some d \<Rightarrow> d | None \<Rightarrow> text)
           in 13 \<le> length digits \<and> length digits \<le> 19 \<and> list_all is_digit digits \<and>
              CHR ''2'' \<le> hd digits \<and> hd digits \<le> CHR ''6''))"

fun redact_value :: "(string \<Rightarrow> string) \<Rightarrow> json \<Rightarrow> json \<times> bool" where
  "redact_value rd (JStr t) = (let r = rd t in (JStr r, r \<noteq> t))"
| "redact_value rd (JNum n) =
     (if card_shaped n
      then (let digits = the (number_digits n); r = rd digits
            in if r \<noteq> digits then (JStr r, True) else (JNum n, False))
      else (JNum n, False))"
| "redact_value rd (JArr vs) =
     (let rs = map (redact_value rd) vs in (JArr (map fst rs), list_ex snd rs))"
| "redact_value rd (JObj m) =
     (let rs = map (\<lambda>(k, v). (k, redact_value rd v)) m
      in (JObj (foldl (\<lambda>acc (k, v). jinsert (rd k) (fst v) acc) [] rs),
          list_ex (\<lambda>(k, v). snd v \<or> rd k \<noteq> k) rs))"
| "redact_value rd v = (v, False)"

text \<open>None when the body is not a JSON object or array; Some None when it holds nothing to redact.\<close>
definition redact_json :: "body_codec \<Rightarrow> (string \<Rightarrow> string) \<Rightarrow> bytes \<Rightarrow> bytes option option" where
  "redact_json bc rd body =
     (case read_events bc body of
        None \<Rightarrow> None
      | Some events \<Rightarrow>
          (let v = collapse events; (v', changed) = redact_value rd v
           in if as_object v = None \<and> as_array v = None then None
              else if \<not> changed \<and> unique_keys events then Some None
              else Some (Some (write_value bc v'))))"

definition redact_line :: "body_codec \<Rightarrow> (string \<Rightarrow> string) \<Rightarrow> string \<Rightarrow> string \<times> bool" where
  "redact_line bc rd line =
     (let (line, carriage) = (case strip_suffix line [CHR 0x0D] of Some l \<Rightarrow> (l, [CHR 0x0D]) | None \<Rightarrow> (line, []));
          (pre, rst) = (case strip_prefix line ''data:'' of Some r \<Rightarrow> (''data:'', r) | None \<Rightarrow> ([], line));
          body = trim_start rst;
          leading = take (length rst - length body) rst;
          redacted = (case redact_json bc rd body of
              Some (Some json) \<Rightarrow> leading @ from_utf8_lossy json
            | Some None \<Rightarrow> rst
            | None \<Rightarrow> rd rst)
      in (pre @ redacted @ carriage, redacted \<noteq> rst))"

definition redact_body :: "body_codec \<Rightarrow> (string \<Rightarrow> string) \<Rightarrow> bytes \<Rightarrow> bytes" where
  "redact_body bc rd body =
     (case redact_json bc rd body of
        Some (Some json) \<Rightarrow> json
      | Some None \<Rightarrow> body
      | None \<Rightarrow>
          (case from_utf8 body of
             None \<Rightarrow> []
           | Some text \<Rightarrow>
               (let lines = map (redact_line bc rd) (split_chars (\<lambda>c. c = CHR 0x0A) text)
                in if list_ex snd lines then join [CHR 0x0A] (map fst lines) else body)))"

section \<open>Spans\<close>

text \<open>Spans in order, apart or touching, between two positions.\<close>
fun spans_ok :: "nat \<Rightarrow> nat \<Rightarrow> span list \<Rightarrow> bool" where
  "spans_ok lo hi [] = (lo \<le> hi)"
| "spans_ok lo hi ((a, b) # sps) = (lo \<le> a \<and> a \<le> b \<and> spans_ok b hi sps)"

definition covered :: "span list \<Rightarrow> nat set" where
  "covered sps = (\<Union>(a, b) \<in> set sps. {a..<b})"

text \<open>What the matches of a regular expression are: in order, apart, and within the text.\<close>
definition regexes_ok :: "regexes \<Rightarrow> bool" where
  "regexes_ok rx \<longleftrightarrow>
     (\<forall>p s. spans_ok 0 (length s) (find_iter rx p s)) \<and>
     (\<forall>p s i a b. find_at rx p s i = Some (a, b) \<longrightarrow> i \<le> a \<and> a \<le> b \<and> b \<le> length s)"

abbreviation inside :: "span \<Rightarrow> span \<Rightarrow> bool" where
  "inside w sp \<equiv> fst sp \<le> fst w \<and> snd w \<le> snd sp"

definition held :: "span \<Rightarrow> span list \<Rightarrow> bool" where
  "held w sps \<longleftrightarrow> (\<exists>sp \<in> set sps. inside w sp)"

lemma spans_ok_bounds: "spans_ok lo hi sps \<Longrightarrow> lo \<le> hi"
  by (induction lo hi sps rule: spans_ok.induct) auto

lemma spans_ok_member: "spans_ok lo hi sps \<Longrightarrow> (a, b) \<in> set sps \<Longrightarrow> lo \<le> a \<and> a \<le> b \<and> b \<le> hi"
  by (induction lo hi sps rule: spans_ok.induct) (fastforce dest: spans_ok_bounds)+

lemma spans_ok_weaken: "spans_ok lo hi sps \<Longrightarrow> lo' \<le> lo \<Longrightarrow> spans_ok lo' hi sps"
  by (cases "(lo, hi, sps)" rule: spans_ok.cases) auto

lemma spans_ok_covered: "spans_ok lo hi sps \<Longrightarrow> covered sps \<subseteq> {lo..<hi}"
  by (fastforce simp: covered_def dest: spans_ok_member)

text \<open>Every window pushed is held, and none that was held is let go.\<close>
definition start_by :: "nat \<Rightarrow> span list \<Rightarrow> bool" where
  "start_by from sps \<longleftrightarrow> (\<forall>sp \<in> set sps. fst sp \<le> from)"

lemma push_span_starts: "start_by from sps \<Longrightarrow> start_by from (push_span (from, to) sps)"
  by (auto simp: start_by_def push_span_def dest: in_set_butlastD)

lemma push_span_held_new: "start_by from sps \<Longrightarrow> held (from, to) (push_span (from, to) sps)"
  by (auto simp: start_by_def push_span_def held_def)

lemma push_span_held_old: "held w sps \<Longrightarrow> held w (push_span v sps)"
  by (cases sps rule: rev_cases) (auto simp: push_span_def held_def)

lemma card_windows_starts:
  "start_by from sps \<Longrightarrow> start_by from (card_windows s from digits lengths gs sps)"
  by (induction s "from" digits lengths gs sps rule: card_windows.induct) (auto simp: Let_def push_span_starts)

lemma card_windows_held: "held w sps \<Longrightarrow> held w (card_windows s from digits lengths gs sps)"
  by (induction s "from" digits lengths gs sps rule: card_windows.induct) (auto simp: Let_def push_span_held_old)

lemma card_starts_held: "held w sps \<Longrightarrow> held w (card_starts s gs sps)"
  by (induction s gs sps rule: card_starts.induct) (auto simp: card_windows_held)

definition group_length :: "span \<Rightarrow> nat" where
  "group_length g = snd g - fst g"

text \<open>A window of groups is a card: its shape, its number of digits and its check digit.\<close>
definition is_card :: "string \<Rightarrow> span list \<Rightarrow> bool" where
  "is_card s gs \<longleftrightarrow> gs \<noteq> [] \<and> card_shape (map group_length gs) \<and>
     13 \<le> sum_list (map group_length gs) \<and> sum_list (map group_length gs) \<le> 19 \<and>
     luhn (str_slice s (fst (hd gs)) (snd (last gs)))"

lemma card_windows_new:
  assumes "start_by from sps"
    and "card_shape (lengths @ map group_length (ws @ [(a, b)]))"
    and "digits + sum_list (map group_length (ws @ [(a, b)])) \<le> 19"
    and "13 \<le> digits + sum_list (map group_length (ws @ [(a, b)]))" "luhn (str_slice s from b)"
  shows "held (from, b) (card_windows s from digits lengths (ws @ (a, b) # gs) sps)"
  using assms
proof (induction ws arbitrary: digits lengths sps)
  case Nil
  then show ?case by (auto simp: group_length_def intro: card_windows_held push_span_held_new)
next
  case (Cons w ws)
  obtain c d where w: "w = (c, d)" by (cases w)
  let ?sps = "if card_shape (lengths @ [d - c]) \<and> digits + (d - c) \<ge> 13 \<and> luhn (str_slice s from d)
    then push_span (from, d) sps else sps"
  have "start_by from ?sps" using Cons.prems(1) push_span_starts by simp
  then have "held (from, b) (card_windows s from (digits + (d - c)) (lengths @ [d - c]) (ws @ (a, b) # gs) ?sps)"
    by (rule Cons.IH) (use Cons.prems in \<open>simp_all add: w group_length_def add.assoc\<close>)
  moreover have "digits + (d - c) \<le> 19" using Cons.prems(3) by (simp add: w group_length_def)
  ultimately show ?case by (simp add: w Let_def)
qed

lemma card_starts_new:
  assumes "gs = pre @ ws @ post" "is_card s ws" "spans_ok lo hi gs" "start_by lo sps"
  shows "held (fst (hd ws), snd (last ws)) (card_starts s gs sps)"
  using assms
proof (induction s gs sps arbitrary: pre lo rule: card_starts.induct)
  case (1 s spans)
  then show ?case by (simp add: is_card_def)
next
  case (2 s g gs spans)
  obtain a b where g: "g = (a, b)" by (cases g)
  have starts: "start_by a spans" using 2(4,5) g by (auto simp: start_by_def)
  show ?case
  proof (cases pre)
    case Nil
    with 2(2,3) obtain us c d where ws: "ws = us @ [(c, d)]" by (cases ws rule: rev_cases) (auto simp: is_card_def)
    have "g # gs = us @ (c, d) # post" using 2(2) Nil ws by simp
    moreover have "fst (hd ws) = a"
      using 2(2,3) Nil g by (cases ws) (auto simp: is_card_def)
    ultimately have "held (fst (hd ws), snd (last ws)) (card_windows s a 0 [] (g # gs) spans)"
      using card_windows_new [OF starts, of "[]" us c d 0 s post] 2(3) ws by (simp add: is_card_def)
    then show ?thesis by (simp add: g card_starts_held)
  next
    case (Cons p pre')
    have "a \<le> b" using 2(4) g by simp
    then have later: "start_by b (card_windows s a 0 [] (g # gs) spans)"
      using card_windows_starts [OF starts, of s 0 "[]" "g # gs"] by (auto simp: start_by_def)
    have "spans_ok b hi gs" "gs = pre' @ ws @ post" using 2(2,4) Cons unfolding g by auto
    from 2(1) [OF this(2) 2(3) this(1)] later show ?thesis
      by (simp add: g del: card_windows.simps)
  qed
qed

text \<open>Stretching keeps what is held, and stays within the text.\<close>
lemma stretch_end_inside: "inside sp (stretch_end rx s gs sp)"
  by (induction rx s gs sp rule: stretch_end.induct) (auto split: option.split)

lemma stretch_end_fst: "fst (stretch_end rx s gs sp) = fst sp"
  by (induction rx s gs sp rule: stretch_end.induct) (auto split: option.split)

lemma stretch_end_bound:
  "regexes_ok rx \<Longrightarrow> snd sp \<le> length s \<Longrightarrow> snd (stretch_end rx s gs sp) \<le> length s"
  by (induction rx s gs sp rule: stretch_end.induct) (fastforce simp: regexes_ok_def split: option.split)+

lemma stretch_start_inside: "inside sp (stretch_start ms sp)"
proof (induction ms sp rule: stretch_start.induct)
  case (2 m ms sp)
  then show ?case by (auto split: if_splits)
qed simp

lemma stretch_start_snd: "snd (stretch_start ms sp) = snd sp"
  by (induction ms sp rule: stretch_start.induct) auto

text \<open>Joining sorted spans holds all of them, in order and apart.\<close>
lemma join_spans_held:
  "w \<in> set sps \<Longrightarrow> sorted (map fst sps) \<Longrightarrow> held w (join_spans sps)"
proof (induction sps arbitrary: w rule: join_spans.induct)
  case (1 a b sps)
  show ?case
  proof (cases "fst b \<le> snd a")
    case True
    have srt: "sorted (map fst ((fst a, max (snd a) (snd b)) # sps))" using 1(4) by auto
    consider "w = a \<or> w = b" | "w \<in> set sps" using 1(3) by auto
    then show ?thesis
    proof cases
      case 1
      have "held (fst a, max (snd a) (snd b)) (join_spans ((fst a, max (snd a) (snd b)) # sps))"
        by (rule "1.IH"(1) [OF True _ srt]) simp
      then obtain sp where "sp \<in> set (join_spans ((fst a, max (snd a) (snd b)) # sps))"
        "inside (fst a, max (snd a) (snd b)) sp" unfolding held_def ..
      with 1 True "1.prems"(2) show ?thesis by (auto simp: held_def intro!: bexI [of _ sp])
    next
      case 2
      with "1.IH"(1) [OF True _ srt, of w] True show ?thesis by simp
    qed
  next
    case False
    then show ?thesis using 1 by (auto simp: held_def)
  qed
qed (auto simp: held_def)

lemma join_spans_ok:
  "sorted (map fst sps) \<Longrightarrow> \<forall>sp \<in> set sps. fst sp \<le> snd sp \<and> snd sp \<le> hi \<Longrightarrow> sps \<noteq> [] \<Longrightarrow>
   spans_ok (fst (hd sps)) hi (join_spans sps)"
proof (induction sps rule: join_spans.induct)
  case (1 a b sps)
  show ?case
  proof (cases "fst b \<le> snd a")
    case True
    with 1 show ?thesis by (auto simp: split_beta max_def)
  next
    case False
    then have "spans_ok (fst b) hi (join_spans (b # sps))" using 1 by auto
    with False 1(3-4) show ?thesis
      by (cases a) (auto intro: spans_ok_weaken)
  qed
qed auto

text \<open>Every span stays within the text.\<close>
definition fits :: "nat \<Rightarrow> span list \<Rightarrow> bool" where
  "fits hi sps \<longleftrightarrow> (\<forall>sp \<in> set sps. fst sp \<le> snd sp \<and> snd sp \<le> hi)"

lemma push_span_within: "fits hi sps \<Longrightarrow> a \<le> b \<Longrightarrow> b \<le> hi \<Longrightarrow> fits hi (push_span (a, b) sps)"
  by (cases sps rule: rev_cases) (auto simp: fits_def push_span_def max_def)

lemma card_windows_within:
  "fits hi sps \<Longrightarrow> spans_ok lo hi gs \<Longrightarrow> from \<le> lo \<Longrightarrow>
   fits hi (card_windows s from digits lengths gs sps)"
proof (induction s "from" digits lengths gs sps arbitrary: lo rule: card_windows.induct)
  case (2 s "from" digits lengths a b gs spans)
  have ab: "from \<le> b" "b \<le> hi" "spans_ok b hi gs" using 2(3,4) spans_ok_bounds by fastforce+
  then show ?case
    using "2.IH" [OF refl refl _ _ ab(3) ab(1)] push_span_within [OF 2(2) ab(1,2)] 2(2) by (auto simp: Let_def)
qed simp

lemma card_starts_within:
  "fits hi sps \<Longrightarrow> spans_ok lo hi gs \<Longrightarrow> fits hi (card_starts s gs sps)"
proof (induction s gs sps arbitrary: lo rule: card_starts.induct)
  case (2 s g gs spans)
  have "spans_ok (snd g) hi gs" using 2(3) by (cases g) simp
  moreover have "spans_ok (fst g) hi (g # gs)" using 2(3) by (cases g) simp
  ultimately show ?case using 2(1) card_windows_within [OF 2(2)] by simp
qed simp

lemma digit_groups_ok:
  "(case start of None \<Rightarrow> lo \<le> i | Some from \<Rightarrow> lo \<le> from \<and> from \<le> i) \<Longrightarrow>
   spans_ok lo (i + length s) (digit_groups i start s)"
proof (induction i start s arbitrary: lo rule: digit_groups.induct)
  case (3 i start c cs)
  show ?case
  proof (cases start)
    case None
    with 3 show ?thesis by (cases "is_digit c") fastforce+
  next
    case (Some "from")
    with 3 show ?thesis by (cases "is_digit c") fastforce+
  qed
qed auto

lemma stretch_start_bound: "fst sp \<le> snd sp \<Longrightarrow> fst (stretch_start ms sp) \<le> snd sp"
  using stretch_start_inside [of ms sp] by linarith

lemma sort_fst: "sorted (map fst (sort (sps :: span list)))"
  unfolding sorted_map by (rule sorted_wrt_mono_rel [OF _ sorted_sort]) (auto simp: less_eq_prod_def)

text \<open>Replaced with nothing, spans leave the positions they do not hold.\<close>
lemma slice_nth: "b \<le> length s \<Longrightarrow> str_slice s a b = map ((!) s) [a..<b]"
  by (rule nth_equalityI) (auto simp: str_slice_def)

lemma splice_positions:
  "spans_ok k (length s) sps \<Longrightarrow>
   splice s k (map (\<lambda>sp. (sp, [])) sps) = map ((!) s) (filter (\<lambda>i. i \<notin> covered sps) [k..<length s])"
proof (induction k "length s" sps rule: spans_ok.induct)
  case (1 lo)
  then show ?case using slice_nth [of "length s" s lo] by (simp add: covered_def str_slice_def)
next
  case (2 lo a b sps)
  have ab: "lo \<le> a" "a \<le> b" "b \<le> length s" "spans_ok b (length s) sps"
    using 2 spans_ok_bounds by auto
  have cov: "covered ((a, b) # sps) = {a..<b} \<union> covered sps" by (simp add: covered_def)
  have up: "[lo..<length s] = [lo..<a] @ [a..<b] @ [b..<length s]"
    using upt_add_eq_append [of lo a "length s - a"] upt_add_eq_append [of a b "length s - b"] ab by simp
  have sub: "covered sps \<subseteq> {b..<length s}" by (rule spans_ok_covered [OF ab(4)])
  have "filter (\<lambda>i. i \<notin> covered ((a, b) # sps)) [lo..<a] = [lo..<a]"
    using sub ab by (intro filter_True) (auto simp: cov)
  moreover have "filter (\<lambda>i. i \<notin> covered ((a, b) # sps)) [a..<b] = []" by (simp add: cov filter_empty_conv)
  moreover have "filter (\<lambda>i. i \<notin> covered ((a, b) # sps)) [b..<length s]
      = filter (\<lambda>i. i \<notin> covered sps) [b..<length s]"
    by (rule filter_cong [OF refl]) (auto simp: cov)
  ultimately show ?case using 2(1) [OF ab(4)] ab slice_nth [of a s lo] by (simp add: up)
qed

lemma card_ok: "regexes_ok rx \<Longrightarrow> spans_ok 0 (length found) (card_spans rx found)"
proof -
  assume rx: "regexes_ok rx"
  let ?gs = "digit_groups 0 None found"
  let ?stretch = "\<lambda>sp. stretch_start (find_iter rx Phone found) (stretch_end rx found ?gs sp)"
  let ?sps = "sort (map ?stretch (card_starts found ?gs []))"
  have "fits (length found) (card_starts found ?gs [])"
    by (rule card_starts_within [of _ _ 0]) (use digit_groups_ok [of 0 0 None found] in \<open>simp_all add: fits_def\<close>)
  then have "fst (?stretch sp) \<le> snd (?stretch sp) \<and> snd (?stretch sp) \<le> length found"
    if "sp \<in> set (card_starts found ?gs [])" for sp
    using that stretch_end_bound [OF rx, of sp found ?gs] stretch_end_inside [of rx found ?gs sp]
      stretch_start_bound [of "stretch_end rx found ?gs sp" "find_iter rx Phone found"]
    by (fastforce simp: fits_def stretch_start_snd stretch_end_fst)
  then have "\<forall>sp \<in> set ?sps. fst sp \<le> snd sp \<and> snd sp \<le> length found" by simp
  then have "spans_ok 0 (length found) (join_spans ?sps)" if "?sps \<noteq> []"
    using join_spans_ok [OF sort_fst _ that] spans_ok_weaken by blast
  then show ?thesis by (cases "?sps = []") (auto simp: card_spans_def Let_def)
qed

lemma held_covered: "held w sps \<Longrightarrow> {fst w..<snd w} \<subseteq> covered sps"
  by (auto simp: held_def covered_def intro: order_trans less_le_trans split_beta intro!: bexI)

lemma held_trans: "held w sps \<Longrightarrow> \<forall>sp \<in> set sps. \<exists>sp' \<in> set sps'. inside sp sp' \<Longrightarrow> held w sps'"
  unfolding held_def by (meson le_trans)

lemma card_held:
  assumes "digit_groups 0 None found = pre @ ws @ post" "is_card found ws"
  shows "held (fst (hd ws), snd (last ws)) (card_spans rx found)"
proof -
  let ?gs = "digit_groups 0 None found"
  let ?stretch = "\<lambda>sp. stretch_start (find_iter rx Phone found) (stretch_end rx found ?gs sp)"
  have "held (fst (hd ws), snd (last ws)) (card_starts found ?gs [])"
    by (rule card_starts_new [OF assms digit_groups_ok [of 0 0 None]]) (simp_all add: start_by_def)
  moreover have "\<exists>sp' \<in> set (card_spans rx found). inside sp sp'" if "sp \<in> set (card_starts found ?gs [])" for sp
  proof -
    have "held (?stretch sp) (card_spans rx found)"
      unfolding card_spans_def Let_def by (rule join_spans_held [OF _ sort_fst]) (use that in auto)
    then show ?thesis
      using stretch_end_inside [of rx found ?gs sp]
        stretch_start_inside [of "find_iter rx Phone found" "stretch_end rx found ?gs sp"]
      unfolding held_def by (meson le_trans)
  qed
  ultimately show ?thesis by (blast intro: held_trans)
qed

text \<open>C30: Every card in a run of digit groups is taken out whole. For each window of consecutive groups
  with a card's shape, its number of digits and its check digit, none of its positions is kept; the spans
  replaced are in order, apart and within the text, so that no str_slice of the text panics, and what stays of
  the text is every position the spans do not hold.\<close>
theorem card_numbers_covered:
  assumes "regexes_ok rx" "digit_groups 0 None found = pre @ ws @ post" "is_card found ws"
    and "accept r = card_spans rx"
  shows "spans_ok 0 (length found) (card_spans rx found) \<and>
    {fst (hd ws)..<snd (last ws)} \<subseteq> covered (card_spans rx found) \<and>
    redact_match (r\<lparr>marker := []\<rparr>) found =
      map ((!) found) (filter (\<lambda>i. i \<notin> covered (card_spans rx found)) [0..<length found])"
proof (intro conjI)
  show ok: "spans_ok 0 (length found) (card_spans rx found)" by (rule card_ok [OF assms(1)])
  show "{fst (hd ws)..<snd (last ws)} \<subseteq> covered (card_spans rx found)"
    using held_covered [OF card_held [OF assms(2,3), of rx]] by simp
  show "redact_match (r\<lparr>marker := []\<rparr>) found =
      map ((!) found) (filter (\<lambda>i. i \<notin> covered (card_spans rx found)) [0..<length found])"
    using splice_positions [OF ok] by (simp add: redact_match_def assms(4))
qed

definition no_regexes :: regexes where
  "no_regexes = \<lparr>find_iter = \<lambda>p s. [], find_at = \<lambda>p s i. None\<rparr>"

text \<open>A card number between an order number and a security code.\<close>
lemma card_numbers_covered_witness:
  "{3..<22} \<subseteq> covered (card_spans no_regexes ''12 4242-4242-4242-4242 123'') \<and>
   redact_match (rules no_regexes ! 6) ''12 4242-4242-4242-4242 123'' = ''12 [CARD] 123''"
proof -
  let ?t = "''12 4242-4242-4242-4242 123''"
  have gs: "digit_groups 0 None ?t = [(0, 2)] @ [(3, 7), (8, 12), (13, 17), (18, 22)] @ [(23, 26)]"
    by code_simp
  have card: "is_card ?t [(3, 7), (8, 12), (13, 17), (18, 22)]" by code_simp
  have rx: "regexes_ok no_regexes" by (simp add: regexes_ok_def no_regexes_def)
  have "redact_match (rules no_regexes ! 6) ?t = ''12 [CARD] 123''" by code_simp
  with card_numbers_covered [OF rx gs card, of "rules no_regexes ! 6"] show ?thesis
    by (simp add: rules_def)
qed

section \<open>Redacted bodies\<close>

text \<open>The texts of a value that redaction is about: strings, keys, and the digits of numbers shaped
  like a card.\<close>
fun json_texts :: "json \<Rightarrow> string list" where
  "json_texts (JStr t) = [t]"
| "json_texts (JNum n) = (if card_shaped n then [the (number_digits n)] else [])"
| "json_texts (JArr vs) = concat (map json_texts vs)"
| "json_texts (JObj m) = concat (map (\<lambda>(k, v). k # json_texts v) m)"
| "json_texts v = []"

lemma jinsert_set: "set (jinsert k v m) \<subseteq> insert (k, v) (set m)"
  by (induction k v m rule: jinsert.induct) auto

lemma jinsert_new: "k \<notin> fst ` set m \<Longrightarrow> jinsert k v m = m @ [(k, v)]"
  by (induction k v m rule: jinsert.induct) auto

text \<open>Fields put in one after the other: keys are distinct, and nothing but the fields is there.\<close>
definition insert_all :: "(string \<times> json) list \<Rightarrow> json_object \<Rightarrow> json_object" where
  "insert_all kvs acc = foldl (\<lambda>acc kv. jinsert (fst kv) (snd kv) acc) acc kvs"

lemma insert_all_simps [simp]:
  "insert_all [] acc = acc"
  "insert_all (kv # kvs) acc = insert_all kvs (jinsert (fst kv) (snd kv) acc)"
  by (simp_all add: insert_all_def)

lemma insert_all_distinct: "distinct (map fst acc) \<Longrightarrow> distinct (map fst (insert_all kvs acc))"
  by (induction kvs arbitrary: acc) (simp_all add: jinsert_distinct)

lemma insert_all_set: "set (insert_all kvs acc) \<subseteq> set kvs \<union> set acc"
proof (induction kvs arbitrary: acc)
  case (Cons kv kvs)
  then show ?case using jinsert_set [of "fst kv" "snd kv" acc] Cons [of "jinsert (fst kv) (snd kv) acc"] by auto
qed simp

lemma insert_all_append: "distinct (map fst (acc @ kvs)) \<Longrightarrow> insert_all kvs acc = acc @ kvs"
proof (induction kvs arbitrary: acc)
  case (Cons kv kvs)
  then have "jinsert (fst kv) (snd kv) acc = acc @ [kv]" by (auto intro: jinsert_new [THEN trans])
  then show ?case using Cons by auto
qed simp

lemma collapse_obj: "collapse (JObj m) = JObj (insert_all (map (\<lambda>(k, v). (k, collapse v)) m) [])"
  by (simp add: insert_all_def case_prod_unfold)

lemma redact_obj:
  "redact_value rd (JObj m) =
     (JObj (insert_all (map (\<lambda>(k, v). (rd k, fst (redact_value rd v))) m) []),
      list_ex (\<lambda>(k, v). snd (redact_value rd v) \<or> rd k \<noteq> k) m)"
  by (simp add: insert_all_def Let_def foldl_map case_prod_unfold list_ex_iff)

lemma unique_json_induct [case_names str num arr obj null bool]:
  assumes "\<And>t. P (JStr t)" "\<And>n. P (JNum n)" "\<And>vs. (\<And>v. v \<in> set vs \<Longrightarrow> P v) \<Longrightarrow> P (JArr vs)"
    "\<And>m. (\<And>k v. (k, v) \<in> set m \<Longrightarrow> P v) \<Longrightarrow> P (JObj m)" "P JNull" "\<And>b. P (JBool b)"
  shows "P (v :: json)"
  using assms by (induction v rule: json_texts.induct) auto

lemma collapse_unique: "unique_keys v \<Longrightarrow> collapse v = v"
proof (induction v rule: unique_json_induct)
  case (arr vs)
  then show ?case by (auto simp: list_all_iff intro: map_idI)
next
  case (obj m)
  then have "map (\<lambda>(k, v). (k, collapse v)) m = m" by (force simp: list_all_iff intro!: map_idI)
  with obj show ?case using insert_all_append [of "[]" m] by (simp add: collapse_obj del: collapse.simps)
qed simp_all

text \<open>What comes out of redaction holds only redacted texts, under distinct keys.\<close>
lemma insert_all_unique:
  "(\<And>k v. (k, v) \<in> set kvs \<Longrightarrow> unique_keys v) \<Longrightarrow> unique_keys (JObj (insert_all kvs []))"
  using insert_all_distinct [of "[]" kvs] insert_all_set [of kvs "[]"] by (fastforce simp: list_all_iff)

lemma redact_unique: "unique_keys (fst (redact_value rd v))"
proof (induction v rule: unique_json_induct)
  case (obj m)
  then have "unique_keys (JObj (insert_all (map (\<lambda>(k, v). (rd k, fst (redact_value rd v))) m) []))"
    by (intro insert_all_unique) auto
  then show ?case by (simp only: redact_obj fst_conv)
qed (auto simp: Let_def list_all_iff)

lemma redact_texts: "set (json_texts (fst (redact_value rd v))) \<subseteq> range rd"
proof (induction v rule: unique_json_induct)
  case (obj m)
  let ?kvs = "map (\<lambda>(k, v). (rd k, fst (redact_value rd v))) m"
  have "k \<in> range rd \<and> set (json_texts v) \<subseteq> range rd" if "(k, v) \<in> set (insert_all ?kvs [])" for k v
    using that insert_all_set [of ?kvs "[]"] obj by fastforce
  then show ?case by (fastforce simp: redact_obj simp del: redact_value.simps)
qed (auto simp: Let_def intro: range_eqI [OF sym])

lemma redact_unchanged: "\<not> snd (redact_value rd v) \<Longrightarrow> set (json_texts v) \<subseteq> range rd"
proof (induction v rule: unique_json_induct)
  case (obj m)
  then have "rd k = k \<and> set (json_texts v) \<subseteq> range rd" if "(k, v) \<in> set m" for k v
    using that by (fastforce simp: redact_obj list_ex_iff simp del: redact_value.simps)
  then show ?case by (fastforce intro: range_eqI [OF sym])
qed (auto simp: Let_def list_ex_iff split: if_splits intro: range_eqI [OF sym])

lemma collapse_container:
  "as_object (collapse v) = None \<and> as_array (collapse v) = None \<longleftrightarrow> as_object v = None \<and> as_array v = None"
  by (cases v) simp_all

text \<open>C31: A JSON body is stored with every string, key and card-shaped number redacted. Whatever the
  redactor, a body that reads as an object or an array is stored as one that reads back with unique keys
  and only texts the redactor gave; and a body in which it changes nothing, and no key is repeated, is
  stored byte for byte as it came.\<close>
theorem stored_body_redacted:
  assumes "read_events bc body = Some ev" "as_object ev \<noteq> None \<or> as_array ev \<noteq> None"
    and "read_events bc (write_value bc (fst (redact_value rd (collapse ev)))) = Some (fst (redact_value rd (collapse ev)))"
  shows "(\<exists>w. read_events bc (redact_body bc rd body) = Some w \<and> unique_keys w \<and> set (json_texts w) \<subseteq> range rd) \<and>
    (snd (redact_value rd ev) \<or> \<not> unique_keys ev \<or> redact_body bc rd body = body)"
proof (cases "snd (redact_value rd (collapse ev)) \<or> \<not> unique_keys ev")
  case True
  then have "redact_body bc rd body = write_value bc (fst (redact_value rd (collapse ev)))"
    using assms(1,2) collapse_container [of ev]
    by (auto simp: redact_body_def redact_json_def split_beta Let_def)
  moreover have "snd (redact_value rd ev) \<or> \<not> unique_keys ev" using True collapse_unique [of ev] by auto
  ultimately show ?thesis using assms(3) redact_unique redact_texts by fastforce
next
  case False
  then have "redact_body bc rd body = body"
    using assms(1,2) collapse_container [of ev]
    by (auto simp: redact_body_def redact_json_def split_beta Let_def)
  with False collapse_unique [of ev] redact_unchanged [of rd ev] assms(1) show ?thesis by auto
qed

text \<open>A body that is not JSON is redacted line by line: a secret written over several lines, as a private key
  is, goes unredacted when no line of it holds one.\<close>
lemma secret_over_lines_kept:
  assumes "\<And>l. l \<in> set (split_chars (\<lambda>c. c = CHR 0x0A) body) \<Longrightarrow> redact_line bc rd l = (l, False)"
    and "read_events bc body = None" "from_utf8 body = Some body"
  shows "redact_body bc rd body = body"
  using assms by (auto simp: redact_body_def redact_json_def Let_def list_ex_iff)

lemma redact_line_plain:
  assumes "read_events bc (trim_start line) = None" "rd line = line" "strip_suffix line [CHR 0x0D] = None"
    and "strip_prefix line ''data:'' = None"
  shows "redact_line bc rd line = (line, False)"
  using assms by (simp add: redact_line_def redact_json_def Let_def)

definition mark_all :: "string \<Rightarrow> string" where
  "mark_all t = (if CHR ''@'' \<in> set t then ''[EMAIL]'' else t)"

definition contacts :: json where
  "contacts = JObj [(''ada@ex.org'', JStr ''hello''), (''bob@ex.org'', JStr ''bob@ex.org'')]"

definition contacts_codec :: body_codec where
  "contacts_codec =
     \<lparr>read_events = \<lambda>b. if b = [] then Some contacts else Some (fst (redact_value mark_all contacts)),
      write_value = \<lambda>_. ''{}''\<rparr>"

lemma stored_body_redacted_witness:
  "\<exists>w. read_events contacts_codec (redact_body contacts_codec mark_all []) = Some w \<and>
     unique_keys w \<and> set (json_texts w) \<subseteq> range mark_all"
proof -
  have "collapse contacts = contacts" by code_simp
  then show ?thesis
    using stored_body_redacted [of contacts_codec "[]" contacts mark_all]
    by (simp add: contacts_codec_def contacts_def)
qed

text \<open>Fields whose keys redact to the same marker are lost: an object of two fields, say one for
  each of two email addresses, is stored with one, holding the last value.\<close>
lemma redacted_keys_collide:
  "rd a = rd b \<Longrightarrow>
   fst (redact_value rd (JObj [(a, v), (b, w)])) = JObj [(rd a, fst (redact_value rd w))]"
  by (simp add: Let_def)

lemma redacted_keys_collide_witness:
  "fst (redact_value mark_all contacts) = JObj [(''[EMAIL]'', JStr ''[EMAIL]'')]"
  using redacted_keys_collide [of mark_all "''ada@ex.org''" "''bob@ex.org''"] by (simp add: contacts_def mark_all_def Let_def)

end
