(* ===== verification/Request_Log.thy ===== *)
theory Request_Log
  imports Redaction Sqlite_Store
begin

text \<open>
  The captured turns (\<open>crates/yb-reqlog/src/lib.rs\<close> and the contract in
  \<open>crates/yb-core/src/reqlog.rs\<close>): a policy and a bounded queue on the side of the requests; on the
  side of the worker a buffer, the table of turns, the sealed shards and the files left half written;
  and the flush, the rotation, the pruning, the erasure and the export over them.

  The database and the file system belong to other packages. A table is a list of rows, a shard a
  name, the time it was sealed and its rows; whether a call on them succeeds, the clocks and the size of
  the write-ahead file are the environment of each operation. A name is written without its directory.
\<close>

section \<open>Turns\<close>

record capture_filter =
  f_from :: "timestamp option"
  f_to :: "timestamp option"
  f_models :: "string list"
  f_keys :: "string list"
  f_tags :: "(string \<times> string) list"
  f_redaction :: "string option"

record captured_turn =
  ct_ts :: timestamp
  ct_request_id :: string
  ct_surface :: string
  ct_requested_model :: string
  ct_api_key_id :: "string option"
  ct_user_id :: "string option"
  ct_tags :: "string option"
  ct_redaction :: string
  ct_request_body :: bytes
  ct_response_body :: bytes

text \<open>A row of \<open>turns\<close>; the time is in microseconds. A row of an older log has no redaction.\<close>
record turn_row =
  row_id :: "64 word"
  row_ts :: int
  row_date :: int
  row_request_id :: string
  row_trace_id :: "string option"
  row_installation_id :: string
  row_surface :: string
  row_requested_model :: string
  row_decision_model :: string
  row_decision_provider :: string
  row_upstream_status :: int
  row_is_error :: bool
  row_request_bytes :: int
  row_response_bytes :: int
  row_response_truncated :: bool
  row_request_body :: bytes
  row_response_body :: bytes
  row_api_key_id :: "string option"
  row_user_id :: "string option"
  row_tags :: "string option"
  row_redaction :: "string option"

text \<open>A sealed shard; one written before turns carried their key has no such column.\<close>
record shard =
  shard_name :: string
  sealed_at :: timestamp
  keyed :: bool
  shard_rows :: "turn_row list"

record reqlog_config =
  queue_size :: nat
  shard_max_bytes :: nat
  rotate_interval :: int
  initial_retention :: "32 word"
  max_body_bytes :: nat

definition reqlog_default :: reqlog_config where
  "reqlog_default =
     \<lparr>queue_size = 4096, shard_max_bytes = 256 * 1024 * 1024, rotate_interval = 3600 * 1000000000,
      initial_retention = 30, max_body_bytes = 256 * 1024\<rparr>"

section \<open>The logger and its surroundings\<close>

record duck_log =
  lg_policy :: capture_policy
  lg_retention :: "32 word"
  lg_queue :: "request_log_record list"
  lg_dropped :: "64 word"
  lg_running :: bool
  lg_buf :: "request_log_record list"
  lg_next_id :: "64 word"
  lg_last_rotate :: int
  lg_last_date :: int
  lg_turns :: "turn_row list"
  lg_shards :: "shard list"
  lg_partials :: "(string \<times> turn_row list) list"

text \<open>
  What the clocks, the database and the file system do during one operation: \<open>refuses\<close> is whether the
  database refuses the insert of the row at a place of the batch, \<open>written\<close> how many rows a copy that
  fails has written; the last five are about the file of a name.
\<close>
record log_env =
  wall :: timestamp
  instant :: int
  wal_bytes :: nat
  detail :: string
  begins :: bool
  prepares :: bool
  refuses :: "nat \<Rightarrow> bool"
  commits :: bool
  counts :: bool
  copies :: bool
  written :: nat
  renames :: bool
  deletes :: bool
  checkpoints :: bool
  reads_dir :: bool
  stamp :: "timestamp \<Rightarrow> string"
  listed :: "string \<Rightarrow> bool"
  stat_ok :: "string \<Rightarrow> bool"
  removes :: "string \<Rightarrow> bool"
  queries :: "string \<Rightarrow> bool"
  rewritable :: "string \<Rightarrow> bool"

abbreviation storage_error :: "log_env \<Rightarrow> error" where
  "storage_error env \<equiv> Storage (''reqlog: '' @ detail env)"

section \<open>Logging a turn\<close>

text \<open>The policy's redaction, applied to both bodies before a record is queued.\<close>
definition redact_record :: "body_codec \<Rightarrow> (string \<Rightarrow> string) \<Rightarrow> redaction \<Rightarrow> request_log_record \<Rightarrow> request_log_record" where
  "redact_record bc rd rdn rec =
     (let rec = rec\<lparr>log_redaction := redaction_as_str rdn\<rparr>
      in case rdn of
           NoRedaction \<Rightarrow> rec
         | MetadataOnly \<Rightarrow> rec\<lparr>log_request_body := [], log_response_body := []\<rparr>
         | Patterns \<Rightarrow> rec\<lparr>log_request_body := redact_body bc rd (log_request_body rec),
                          log_response_body := redact_body bc rd (log_response_body rec)\<rparr>)"

definition log_turn :: "reqlog_config \<Rightarrow> body_codec \<Rightarrow> (string \<Rightarrow> string) \<Rightarrow> request_log_record \<Rightarrow> duck_log \<Rightarrow> duck_log" where
  "log_turn cfg bc rd rec l =
     (if \<not> cap_enabled (lg_policy l) then l
      else (let rec = redact_record bc rd (cap_redaction (lg_policy l)) rec
            in if lg_running l \<and> length (lg_queue l) < max (queue_size cfg) 1
               then l\<lparr>lg_queue := lg_queue l @ [rec]\<rparr>
               else l\<lparr>lg_dropped := lg_dropped l + 1\<rparr>))"

definition apply_policy :: "capture_policy \<Rightarrow> duck_log \<Rightarrow> duck_log" where
  "apply_policy p l = l\<lparr>lg_policy := p, lg_retention := retention_days p\<rparr>"

section \<open>The worker\<close>

definition truncate_body :: "bytes \<Rightarrow> nat \<Rightarrow> bytes" where
  "truncate_body body mx = (if mx > 0 \<and> length body > mx then take mx body else body)"

definition row_of :: "reqlog_config \<Rightarrow> 64 word \<Rightarrow> request_log_record \<Rightarrow> turn_row" where
  "row_of cfg i rec =
     (let mx = max_body_bytes cfg
      in \<lparr>row_id = i, row_ts = log_ts rec div 1000, row_date = log_ts rec div day_nanos,
          row_request_id = log_request_id rec, row_trace_id = log_trace_id rec,
          row_installation_id = log_installation_id rec, row_surface = log_surface rec,
          row_requested_model = log_requested_model rec, row_decision_model = log_decision_model rec,
          row_decision_provider = log_decision_provider rec, row_upstream_status = log_upstream_status rec,
          row_is_error = log_is_error rec, row_request_bytes = log_request_bytes rec,
          row_response_bytes = log_response_bytes rec,
          row_response_truncated = (log_response_truncated rec \<or> mx > 0 \<and> length (log_response_body rec) > mx),
          row_request_body = truncate_body (log_request_body rec) mx,
          row_response_body = truncate_body (log_response_body rec) mx,
          row_api_key_id = log_api_key_id rec, row_user_id = log_user_id rec, row_tags = log_tags rec,
          row_redaction = Some (log_redaction rec)\<rparr>)"

text \<open>A count of bytes is cast to a 32-bit column; one out of its range is an error of the insert.\<close>
definition fits_integer :: "int \<Rightarrow> bool" where
  "fits_integer n \<longleftrightarrow> - (2 ^ 31) \<le> n \<and> n < 2 ^ 31"

definition row_fits :: "request_log_record \<Rightarrow> bool" where
  "row_fits rec \<longleftrightarrow> fits_integer (log_request_bytes rec) \<and> fits_integer (log_response_bytes rec)"

text \<open>The rows of a batch and the next id; no rows when the database refuses one.\<close>
fun insert_rows :: "reqlog_config \<Rightarrow> (nat \<Rightarrow> bool) \<Rightarrow> nat \<Rightarrow> 64 word \<Rightarrow> request_log_record list \<Rightarrow>
    turn_row list option \<times> 64 word" where
  "insert_rows cfg no i nid [] = (Some [], nid)"
| "insert_rows cfg no i nid (rec # recs) =
     (if no i \<or> \<not> row_fits rec then (None, nid + 1)
      else (case insert_rows cfg no (Suc i) (nid + 1) recs of
              (rows, nid') \<Rightarrow> (map_option ((#) (row_of cfg nid rec)) rows, nid')))"

definition flush :: "reqlog_config \<Rightarrow> log_env \<Rightarrow> duck_log \<Rightarrow> unit result \<times> duck_log" where
  "flush cfg env l =
     (if lg_buf l = [] then (Inr (), l)
      else (let recs = lg_buf l; l = l\<lparr>lg_buf := []\<rparr>
            in if \<not> begins env \<or> \<not> prepares env then (Inl (storage_error env), l)
               else (case insert_rows cfg (refuses env) 0 (lg_next_id l) recs of
                       (None, nid) \<Rightarrow> (Inl (storage_error env), l\<lparr>lg_next_id := nid\<rparr>)
                     | (Some rows, nid) \<Rightarrow>
                         if commits env then (Inr (), l\<lparr>lg_next_id := nid, lg_turns := lg_turns l @ rows\<rparr>)
                         else (Inl (storage_error env), l\<lparr>lg_next_id := nid\<rparr>))))"

definition count_turns :: "log_env \<Rightarrow> duck_log \<Rightarrow> nat result" where
  "count_turns env l = (if counts env then Inr (length (lg_turns l)) else Inl (storage_error env))"

definition remove_partial_shards :: "log_env \<Rightarrow> duck_log \<Rightarrow> duck_log" where
  "remove_partial_shards env l =
     (if reads_dir env
      then l\<lparr>lg_partials := filter (\<lambda>p. \<not> (listed env (fst p) \<and> removes env (fst p))) (lg_partials l)\<rparr>
      else l)"

text \<open>Shards sealed before the window go, when their entry, time and removal can be had.\<close>
definition expired :: "log_env \<Rightarrow> 32 word \<Rightarrow> shard \<Rightarrow> bool" where
  "expired env days s \<longleftrightarrow>
     days \<noteq> 0 \<and> reads_dir env \<and> listed env (shard_name s) \<and> stat_ok env (shard_name s) \<and>
     sealed_at s < wall env - uint days * day_nanos \<and> removes env (shard_name s)"

definition prune :: "log_env \<Rightarrow> duck_log \<Rightarrow> duck_log" where
  "prune env l =
     (let l = remove_partial_shards env l
      in l\<lparr>lg_shards := filter (\<lambda>s. \<not> expired env (lg_retention l) s) (lg_shards l)\<rparr>)"

text \<open>A shard renamed into place takes the place of one of its name.\<close>
definition put_shard :: "shard \<Rightarrow> shard list \<Rightarrow> shard list" where
  "put_shard s shs = filter (\<lambda>s'. shard_name s' \<noteq> shard_name s) shs @ [s]"

text \<open>The second component is the shard the roll hook is run on.\<close>
definition rotate_log :: "reqlog_config \<Rightarrow> log_env \<Rightarrow> duck_log \<Rightarrow> (unit result \<times> string option) \<times> duck_log" where
  "rotate_log cfg env l =
     (case flush cfg env l of
        (Inl e, l) \<Rightarrow> ((Inl e, None), l)
      | (Inr _, l) \<Rightarrow>
          (case count_turns env l of
             Inl e \<Rightarrow> ((Inl e, None), l)
           | Inr n \<Rightarrow>
               (let name = stamp env (wall env); failed = 0 < n \<and> \<not> (copies env \<and> renames env);
                    rows = (if copies env then lg_turns l else take (written env) (lg_turns l))
                in if failed
                   then ((Inl (storage_error env), None),
                         remove_partial_shards env (l\<lparr>lg_partials := (name, rows) # lg_partials l\<rparr>))
                   else (let sealed = (if 0 < n then Some name else None);
                             l = (if 0 < n
                                  then l\<lparr>lg_shards := put_shard \<lparr>shard_name = name, sealed_at = wall env,
                                         keyed = True, shard_rows = lg_turns l\<rparr> (lg_shards l)\<rparr>
                                  else l)
                         in if \<not> deletes env then ((Inl (storage_error env), None), l)
                            else (let l = l\<lparr>lg_turns := []\<rparr>
                                  in if \<not> checkpoints env then ((Inl (storage_error env), None), l)
                                     else ((Inr (), sealed),
                                           (prune env l)\<lparr>lg_last_rotate := instant env,
                                             lg_last_date := wall env div day_nanos\<rparr>))))))"

definition maybe_rotate :: "reqlog_config \<Rightarrow> log_env \<Rightarrow> duck_log \<Rightarrow> duck_log" where
  "maybe_rotate cfg env l =
     (if instant env - lg_last_rotate l \<ge> rotate_interval cfg \<or> wall env div day_nanos \<noteq> lg_last_date l \<or>
         wal_bytes env > shard_max_bytes cfg
      then snd (rotate_log cfg env l) else l)"

definition BATCH_FLUSH :: nat where "BATCH_FLUSH = 256"

text \<open>A record taken from the queue, and the waking with nothing in it.\<close>
definition take_record :: "reqlog_config \<Rightarrow> log_env \<Rightarrow> duck_log \<Rightarrow> duck_log" where
  "take_record cfg env l =
     (case lg_queue l of
        [] \<Rightarrow> maybe_rotate cfg env (snd (flush cfg env l))
      | rec # recs \<Rightarrow>
          (let l = l\<lparr>lg_queue := recs, lg_buf := lg_buf l @ [rec]\<rparr>
           in if length (lg_buf l) \<ge> BATCH_FLUSH then maybe_rotate cfg env (snd (flush cfg env l)) else l))"

section \<open>Erasure\<close>

abbreviation made_with :: "string list \<Rightarrow> turn_row \<Rightarrow> bool" where
  "made_with keys r \<equiv> (case row_api_key_id r of Some k \<Rightarrow> k \<in> set keys | None \<Rightarrow> False)"

text \<open>The shards in the order the directory gives them, rewritten up to the first failure.\<close>
fun forget_shards :: "log_env \<Rightarrow> string list \<Rightarrow> shard list \<Rightarrow> nat \<Rightarrow> nat result \<times> shard list" where
  "forget_shards env keys [] n = (Inr n, [])"
| "forget_shards env keys (s # shs) n =
     (let name = shard_name s; held = length (filter (made_with keys) (shard_rows s))
      in if \<not> listed env name then apsnd ((#) s) (forget_shards env keys shs n)
         else if \<not> queries env name then (Inl (storage_error env), s # shs)
         else if \<not> keyed s \<or> held = 0 then apsnd ((#) s) (forget_shards env keys shs n)
         else if \<not> rewritable env name then (Inl (storage_error env), s # shs)
         else apsnd ((#) (s\<lparr>shard_rows := filter (\<lambda>r. \<not> made_with keys r) (shard_rows s),
                            sealed_at := if stat_ok env name then sealed_at s else wall env\<rparr>))
                (forget_shards env keys shs (n + held)))"

definition forget_rows :: "log_env \<Rightarrow> string list \<Rightarrow> duck_log \<Rightarrow> nat result \<times> duck_log" where
  "forget_rows env keys l =
     (if \<not> deletes env then (Inl (storage_error env), l)
      else (let forgotten = length (filter (made_with keys) (lg_turns l));
                l = l\<lparr>lg_turns := filter (\<lambda>r. \<not> made_with keys r) (lg_turns l)\<rparr>
            in if \<not> reads_dir env then (Inr forgotten, l)
               else (case forget_shards env keys (lg_shards l) forgotten of
                       (Inl e, shs) \<Rightarrow> (Inl e, remove_partial_shards env (l\<lparr>lg_shards := shs\<rparr>))
                     | (Inr n, shs) \<Rightarrow>
                         (if checkpoints env then Inr n else Inl (storage_error env), l\<lparr>lg_shards := shs\<rparr>))))"

text \<open>The call, once the records queued before it have been taken.\<close>
definition forget :: "reqlog_config \<Rightarrow> log_env \<Rightarrow> string list \<Rightarrow> duck_log \<Rightarrow> nat result \<times> duck_log" where
  "forget cfg env keys l =
     (if keys = [] then (Inr 0, l)
      else if \<not> lg_running l then (Inl (Internal ''reqlog: worker is gone''), l)
      else (case flush cfg env l of
              (Inl e, l) \<Rightarrow> (Inl e, l)
            | (Inr _, l) \<Rightarrow> forget_rows env keys l))"

section \<open>Export\<close>

definition tags_match :: "(string \<Rightarrow> json option) \<Rightarrow> string option \<Rightarrow> (string \<times> string) list \<Rightarrow> bool" where
  "tags_match parse tags wanted \<longleftrightarrow>
     wanted = [] \<or>
     (case Option.bind tags parse of
        None \<Rightarrow> False
      | Some v \<Rightarrow> list_all (\<lambda>(k, x). Option.bind (jget v k) as_str = Some x) wanted)"

text \<open>The conditions of the query; a comparison with a column that is null does not hold.\<close>
definition takes :: "capture_filter \<Rightarrow> turn_row \<Rightarrow> bool" where
  "takes f r \<longleftrightarrow>
     \<not> row_is_error r \<and>
     (case f_from f of Some t \<Rightarrow> t div 1000 \<le> row_ts r | None \<Rightarrow> True) \<and>
     (case f_to f of Some t \<Rightarrow> row_ts r < t div 1000 | None \<Rightarrow> True) \<and>
     (f_models f = [] \<or> row_requested_model r \<in> set (f_models f)) \<and>
     (f_keys f = [] \<or> made_with (f_keys f) r) \<and>
     (case f_redaction f of Some rdn \<Rightarrow> row_redaction r = Some rdn | None \<Rightarrow> True)"

definition captured :: "turn_row \<Rightarrow> captured_turn" where
  "captured r =
     \<lparr>ct_ts = row_ts r * 1000, ct_request_id = row_request_id r, ct_surface = row_surface r,
      ct_requested_model = row_requested_model r, ct_api_key_id = row_api_key_id r,
      ct_user_id = row_user_id r, ct_tags = row_tags r,
      ct_redaction = (case row_redaction r of Some rdn \<Rightarrow> rdn | None \<Rightarrow> ''none''),
      ct_request_body = row_request_body r, ct_response_body = row_response_body r\<rparr>"

definition identity :: "turn_row \<Rightarrow> 64 word \<times> int \<times> string" where
  "identity r = (row_id r, row_ts r, row_request_id r)"

definition stored_rows :: "duck_log \<Rightarrow> turn_row list" where
  "stored_rows l = lg_turns l @ concat (map shard_rows (lg_shards l))"

definition has_shards :: "log_env \<Rightarrow> duck_log \<Rightarrow> bool" where
  "has_shards env l \<longleftrightarrow> reads_dir env \<and> list_ex (\<lambda>s. listed env (shard_name s)) (lg_shards l)"

text \<open>
  The rows of a query that reads the shards or does not: each turn once, the oldest first. Reading the
  shards when there is none is an error.
\<close>
definition exported_rows :: "bool \<Rightarrow> capture_filter \<Rightarrow> duck_log \<Rightarrow> turn_row list" where
  "exported_rows shards f l =
     sort_key row_ts (dedup_key identity {} (filter (takes f) (if shards then stored_rows l else lg_turns l)))"

text \<open>
  The export reads through a connection of its own while the worker goes on: whether there are shards is
  seen in one state, and the query runs in a later one.
\<close>
definition export_turns :: "(string \<Rightarrow> json option) \<Rightarrow> log_env \<Rightarrow> capture_filter \<Rightarrow> duck_log \<Rightarrow> duck_log \<Rightarrow>
    captured_turn list result" where
  "export_turns parse env f seen l =
     (let shards = has_shards env seen
      in if \<not> queries env ''turns'' \<or> shards \<and> lg_shards l = [] then Inl (storage_error env)
         else Inr (filter (\<lambda>t. tags_match parse (ct_tags t) (f_tags f)) (map captured (exported_rows shards f l))))"

text \<open>The call, flushed; a first attempt that fails is made again, in the states after it.\<close>
definition export_capture :: "(string \<Rightarrow> json option) \<Rightarrow> reqlog_config \<Rightarrow> log_env \<Rightarrow> capture_filter \<Rightarrow> duck_log \<Rightarrow>
    (duck_log \<Rightarrow> duck_log) \<Rightarrow> (log_env \<times> (duck_log \<Rightarrow> duck_log)) \<Rightarrow> captured_turn list result \<times> duck_log" where
  "export_capture parse cfg env f l later again =
     (if \<not> lg_running l then (Inl (Internal ''reqlog: worker is gone''), l)
      else (case flush cfg env l of
              (Inl e, l) \<Rightarrow> (Inl e, l)
            | (Inr _, l) \<Rightarrow>
                (case export_turns parse env f l (later l) of
                   Inr ts \<Rightarrow> (Inr ts, l)
                 | Inl _ \<Rightarrow> (export_turns parse (fst again) f (later l) (snd again (later l)), l))))"

section \<open>Opening and closing\<close>

definition open_log :: "reqlog_config \<Rightarrow> log_env \<Rightarrow> duck_log \<Rightarrow> duck_log" where
  "open_log cfg env l =
     l\<lparr>lg_policy := capture_default\<lparr>cap_enabled := False, retention_days := initial_retention cfg\<rparr>,
       lg_retention := initial_retention cfg, lg_queue := [], lg_dropped := 0, lg_running := True, lg_buf := [],
       lg_next_id := fold max (map row_id (lg_turns l)) 0 + 1,
       lg_last_rotate := instant env, lg_last_date := wall env div day_nanos\<rparr>"

definition shutdown :: "reqlog_config \<Rightarrow> log_env \<Rightarrow> duck_log \<Rightarrow> unit result \<times> duck_log" where
  "shutdown cfg env l =
     (if \<not> lg_running l then (Inr (), l)
      else apsnd (\<lambda>l. l\<lparr>lg_running := False\<rparr>) (flush cfg env l))"

section \<open>What the operations do\<close>

named_theorems log_frames \<open>what an operation leaves alone\<close>

lemma insert_rows_ok:
  "insert_rows cfg no i nid recs = (Some rows, nid') \<Longrightarrow>
   list_all2 (\<lambda>row rec. \<exists>j. row = row_of cfg j rec) rows recs \<and> list_all row_fits recs"
  by (induction cfg no i nid recs arbitrary: rows rule: insert_rows.induct)
    (auto split: if_splits prod.splits)

lemma insert_rows_refused:
  "rec \<in> set recs \<Longrightarrow> \<not> row_fits rec \<Longrightarrow> fst (insert_rows cfg no i nid recs) = None"
  by (induction cfg no i nid recs rule: insert_rows.induct) (auto split: prod.splits)

text \<open>A flush empties the buffer and, when it answers well, adds a row for each record of it.\<close>
lemma flush_adds:
  assumes "flush cfg env l = (r, l')"
  shows "\<exists>nid rows. l' = l\<lparr>lg_buf := [], lg_next_id := nid, lg_turns := lg_turns l @ rows\<rparr> \<and>
    (if r = Inr () then list_all2 (\<lambda>row rec. \<exists>j. row = row_of cfg j rec) rows (lg_buf l) else rows = [])"
proof (cases "lg_buf l = []")
  case True
  then have "r = Inr ()" "l' = l\<lparr>lg_buf := [], lg_next_id := lg_next_id l, lg_turns := lg_turns l @ []\<rparr>"
    using assms by (auto simp: flush_def)
  with True show ?thesis by fastforce
next
  case False
  obtain rs nid where rows: "insert_rows cfg (refuses env) 0 (lg_next_id l) (lg_buf l) = (rs, nid)"
    by (cases "insert_rows cfg (refuses env) 0 (lg_next_id l) (lg_buf l)")
  show ?thesis
  proof (cases "\<not> begins env \<or> \<not> prepares env \<or> rs = None \<or> \<not> commits env")
    case True
    have "r \<noteq> Inr () \<and> (\<exists>nid. l' = l\<lparr>lg_buf := [], lg_next_id := nid, lg_turns := lg_turns l @ []\<rparr>)"
      using assms False rows True
      by (auto simp: flush_def Let_def split: if_splits option.splits intro: exI [of _ "lg_next_id l"])
    then show ?thesis by auto
  next
    case ok: False
    then obtain rws where rs: "rs = Some rws" by auto
    have "r = Inr () \<and> l' = l\<lparr>lg_buf := [], lg_next_id := nid, lg_turns := lg_turns l @ rws\<rparr>"
      using assms False rows ok by (auto simp: flush_def Let_def rs)
    then show ?thesis using insert_rows_ok [of cfg "refuses env" 0 _ _ rws nid] rows rs by auto
  qed
qed

lemma flush_frame [log_frames]:
  "lg_buf (snd (flush cfg env l)) = []" "lg_shards (snd (flush cfg env l)) = lg_shards l"
  "lg_queue (snd (flush cfg env l)) = lg_queue l" "lg_partials (snd (flush cfg env l)) = lg_partials l"
  "lg_retention (snd (flush cfg env l)) = lg_retention l" "lg_policy (snd (flush cfg env l)) = lg_policy l"
  "lg_running (snd (flush cfg env l)) = lg_running l"
proof -
  obtain r l' where "flush cfg env l = (r, l')" by (cases "flush cfg env l")
  with flush_adds [OF this] show "lg_buf (snd (flush cfg env l)) = []" "lg_shards (snd (flush cfg env l)) = lg_shards l"
    "lg_queue (snd (flush cfg env l)) = lg_queue l" "lg_partials (snd (flush cfg env l)) = lg_partials l"
    "lg_retention (snd (flush cfg env l)) = lg_retention l" "lg_policy (snd (flush cfg env l)) = lg_policy l"
    "lg_running (snd (flush cfg env l)) = lg_running l" by auto
qed

lemma remove_partial_frame [log_frames]:
  "lg_turns (remove_partial_shards env l) = lg_turns l" "lg_shards (remove_partial_shards env l) = lg_shards l"
  "lg_queue (remove_partial_shards env l) = lg_queue l" "lg_buf (remove_partial_shards env l) = lg_buf l"
  "lg_retention (remove_partial_shards env l) = lg_retention l"
  "set (lg_partials (remove_partial_shards env l)) \<subseteq> set (lg_partials l)"
  by (auto simp: remove_partial_shards_def)

text \<open>One record the database refuses costs the batch it is in. When the count of bytes of a buffered
  turn does not fit the 32-bit column, the flush answers with an error, the buffer is empty and nothing was
  stored: every other turn of the batch, up to 256 of them, is lost with it.\<close>
theorem failed_flush_loses_batch:
  assumes "rec \<in> set (lg_buf l)" "\<not> row_fits rec"
  shows "(\<exists>e. fst (flush cfg env l) = Inl e) \<and> lg_buf (snd (flush cfg env l)) = [] \<and>
    lg_turns (snd (flush cfg env l)) = lg_turns l"
proof -
  have "fst (insert_rows cfg (refuses env) 0 (lg_next_id l) (lg_buf l)) = None"
    by (rule insert_rows_refused [OF assms])
  then obtain nid where "insert_rows cfg (refuses env) 0 (lg_next_id l) (lg_buf l) = (None, nid)"
    by (cases "insert_rows cfg (refuses env) 0 (lg_next_id l) (lg_buf l)") simp
  then show ?thesis using assms(1) by (auto simp: flush_def Let_def)
qed

section \<open>Rotation\<close>

text \<open>The state after a rotation, by what it came to.\<close>
lemma rotate_cases:
  fixes l cfg env
  defines "l1 \<equiv> snd (flush cfg env l)"
  defines "sealed \<equiv> \<lparr>shard_name = stamp env (wall env), sealed_at = wall env, keyed = True, shard_rows = lg_turns l1\<rparr>"
  defines "shs \<equiv> if lg_turns l1 = [] then lg_shards l else put_shard sealed (lg_shards l)"
  shows "(lg_turns (snd (rotate_log cfg env l)), lg_shards (snd (rotate_log cfg env l))) \<in>
    {(lg_turns l1, lg_shards l), (lg_turns l1, shs), ([], shs),
     ([], filter (\<lambda>s. \<not> expired env (lg_retention l) s) shs)}"
proof -
  obtain r where f: "flush cfg env l = (r, l1)" by (cases "flush cfg env l") (simp add: l1_def)
  have fr: "lg_shards l1 = lg_shards l" "lg_retention l1 = lg_retention l" by (simp_all add: l1_def log_frames)
  show ?thesis
  proof (cases r)
    case (Inl e)
    then show ?thesis by (simp add: rotate_log_def f fr)
  next
    case (Inr u)
    show ?thesis
    proof (cases "counts env")
      case False
      then show ?thesis by (simp add: rotate_log_def f Inr count_turns_def fr)
    next
      case True
      then show ?thesis
        by (simp add: rotate_log_def f Inr count_turns_def Let_def log_frames fr shs_def sealed_def prune_def)
    qed
  qed
qed

lemma put_shard_fresh: "shard_name s \<notin> shard_name ` set shs \<Longrightarrow> put_shard s shs = shs @ [s]"
  by (simp add: put_shard_def filter_id_conv) (metis image_eqI)

lemma dedup_key_inj: "inj_on f (set xs) \<Longrightarrow> set (dedup_key f {} xs) = set xs"
proof (rule antisym [OF dedup_key_set subsetI])
  fix x assume inj: "inj_on f (set xs)" and x: "x \<in> set xs"
  then obtain y where "y \<in> set (dedup_key f {} xs)" "f x = f y" using dedup_key_covers [OF x, of f "{}"] by auto
  with inj x dedup_key_set [of f "{}" xs] show "x \<in> set (dedup_key f {} xs)" by (metis inj_onD subsetD)
qed

lemma exported_set:
  assumes "inj_on identity (set (stored_rows l))"
  shows "mset (exported_rows True f l) = mset_set {r \<in> set (stored_rows l). takes f r}"
proof -
  let ?xs = "filter (takes f) (stored_rows l)"
  have "set (dedup_key identity {} ?xs) = set ?xs"
    by (rule dedup_key_inj) (use assms in \<open>auto intro: inj_on_subset\<close>)
  moreover have "distinct (dedup_key identity {} ?xs)"
    using dedup_key_distinct [of identity "{}" ?xs] by (simp add: distinct_map)
  ultimately show ?thesis by (simp add: exported_rows_def mset_set_set [symmetric])
qed

text \<open>C34: No turn is lost by a rotation. Whatever fails on the way, when the shard's name is not taken, what
  is stored after it was stored before it, and a row that is no longer stored was in a shard past the retention
  window; so while no shard is past it, and copies of a turn agree, an export takes the same turns after a
  rotation, complete or broken off anywhere, as before it.\<close>
theorem rotation_keeps_turns:
  fixes cfg env l
  assumes "stamp env (wall env) \<notin> shard_name ` set (lg_shards l)"
  defines "before \<equiv> snd (flush cfg env l)" and "after \<equiv> snd (rotate_log cfg env l)"
  shows "set (stored_rows after) \<subseteq> set (stored_rows before) \<and>
    set (stored_rows before) - set (stored_rows after) \<subseteq>
      (\<Union>s \<in> {s \<in> set (lg_shards l). expired env (lg_retention l) s}. set (shard_rows s)) \<and>
    ((\<forall>s \<in> set (lg_shards l). \<not> expired env (lg_retention l) s) \<and> inj_on identity (set (stored_rows before)) \<longrightarrow>
     mset (exported_rows True f after) = mset (exported_rows True f before))"
proof -
  let ?s = "\<lparr>shard_name = stamp env (wall env), sealed_at = wall env, keyed = True, shard_rows = lg_turns before\<rparr>"
  have fresh: "put_shard ?s (lg_shards l) = lg_shards l @ [?s]" by (rule put_shard_fresh) (simp add: assms(1))
  have new: "\<not> expired env (lg_retention l) ?s" by (simp add: expired_def not_less)
  have shards: "lg_shards before = lg_shards l" by (simp add: before_def log_frames)
  note cases = rotate_cases [of cfg env l, folded before_def after_def, unfolded fresh]
  have sub: "set (stored_rows after) \<subseteq> set (stored_rows before)"
    using cases by (auto simp: stored_rows_def shards split: if_splits)
  have lost: "set (stored_rows before) - set (stored_rows after) \<subseteq>
      (\<Union>s \<in> {s \<in> set (lg_shards l). expired env (lg_retention l) s}. set (shard_rows s))"
    using cases new by (auto simp: stored_rows_def shards split: if_splits) blast+
  have "mset (exported_rows True f after) = mset (exported_rows True f before)"
    if "\<forall>s \<in> set (lg_shards l). \<not> expired env (lg_retention l) s" "inj_on identity (set (stored_rows before))"
  proof -
    have same: "set (stored_rows after) = set (stored_rows before)" using sub lost that(1) by auto
    show ?thesis using exported_set [of after f] exported_set [of before f] that(2) same by simp
  qed
  with sub lost show ?thesis by blast
qed

section \<open>Erasure\<close>

lemma forget_shards_ok:
  "forget_shards env keys shs n = (Inr m, shs') \<Longrightarrow>
   \<forall>s \<in> set shs. listed env (shard_name s) \<and> (keyed s \<or> (\<forall>r \<in> set (shard_rows s). row_api_key_id r = None)) \<Longrightarrow>
   concat (map shard_rows shs') = filter (\<lambda>r. \<not> made_with keys r) (concat (map shard_rows shs)) \<and>
   m = n + length (filter (made_with keys) (concat (map shard_rows shs))) \<and>
   map shard_name shs' = map shard_name shs \<and>
   ((\<forall>s \<in> set shs. stat_ok env (shard_name s)) \<longrightarrow> map sealed_at shs' = map sealed_at shs)"
proof (induction shs arbitrary: n m shs')
  case (Cons s shs)
  have lst: "listed env (shard_name s)" and rest: "\<forall>s \<in> set shs. listed env (shard_name s) \<and>
      (keyed s \<or> (\<forall>r \<in> set (shard_rows s). row_api_key_id r = None))" using Cons.prems(2) by auto
  let ?held = "filter (made_with keys) (shard_rows s)"
  let ?left = "filter (\<lambda>r. \<not> made_with keys r) (shard_rows s)"
  have ok: "queries env (shard_name s)" using Cons.prems(1) lst by (simp add: Let_def split: if_splits)
  show ?case
  proof (cases "?held = []")
    case True
    then have "?left = shard_rows s" by (simp add: filter_id_conv filter_empty_conv)
    moreover obtain shs2 where "forget_shards env keys shs n = (Inr m, shs2)" "shs' = s # shs2"
      using Cons.prems(1) lst ok True by (auto simp: apsnd_def map_prod_def split: prod.splits)
    ultimately show ?thesis using Cons.IH [of n m shs2] rest True by simp
  next
    case False
    then have k: "keyed s" using Cons.prems(2) by (auto simp: filter_empty_conv split: option.splits)
    have "rewritable env (shard_name s)"
      using Cons.prems(1) lst ok k False by (simp add: Let_def split: if_splits)
    then obtain shs2 where "forget_shards env keys shs (n + length ?held) = (Inr m, shs2)"
      "shs' = s\<lparr>shard_rows := ?left, sealed_at := if stat_ok env (shard_name s) then sealed_at s else wall env\<rparr> # shs2"
      using Cons.prems(1) lst ok k False by (auto simp: Let_def apsnd_def map_prod_def split: prod.splits)
    then show ?thesis using Cons.IH [of "n + length ?held" m shs2] rest by simp
  qed
qed simp


text \<open>A directory that cannot be read is no error: the answer counts the table alone, and every shard keeps the
  turns of the keys.\<close>
lemma forget_unread_directory:
  assumes "\<not> reads_dir env" "deletes env" "flush cfg env l = (Inr (), l1)" "lg_running l" "keys \<noteq> []"
  shows "\<exists>n. fst (forget cfg env keys l) = Inr n \<and> lg_shards (snd (forget cfg env keys l)) = lg_shards l"
  using assms log_frames(2) [of cfg env l] by (simp add: forget_def forget_rows_def Let_def)

text \<open>An export can miss the first shard. Whether there are shards is read before the query; when the
  first rotation falls between the two, the query reads an empty table and no shard, and the export answers
  well with none of the turns that were stored before it began and are stored after it.\<close>
theorem export_misses_first_shard:
  assumes "lg_shards l = []" "lg_buf l = []" "fst (rotate_log cfg env l) = (Inr (), Some name)" "queries env' ''turns''"
  shows "export_turns parse env' f l (snd (rotate_log cfg env l)) = Inr [] \<and>
    stored_rows (snd (rotate_log cfg env l)) = stored_rows l \<and> lg_turns l \<noteq> []"
proof -
  let ?s = "\<lparr>shard_name = stamp env (wall env), sealed_at = wall env, keyed = True, shard_rows = lg_turns l\<rparr>"
  have "\<not> expired env (lg_retention l) ?s" by (simp add: expired_def not_less)
  then have r: "lg_turns (snd (rotate_log cfg env l)) = []" "lg_shards (snd (rotate_log cfg env l)) = [?s]" "lg_turns l \<noteq> []"
    using assms(1-3) by (auto simp: rotate_log_def flush_def count_turns_def Let_def prune_def log_frames put_shard_def split: if_splits)
  then have "stored_rows (snd (rotate_log cfg env l)) = stored_rows l" by (simp add: stored_rows_def assms(1))
  then show ?thesis
    using assms(1,4) r by (simp add: export_turns_def has_shards_def exported_rows_def)
qed

section \<open>What is kept of a turn\<close>

text \<open>Bodies under the label of a redaction: none for metadata only, and for patterns what the redactor made
  of some body, or the beginning of it.\<close>
definition kept_redacted :: "body_codec \<Rightarrow> (string \<Rightarrow> string) \<Rightarrow> string \<Rightarrow> bytes \<Rightarrow> bytes \<Rightarrow> bool" where
  "kept_redacted bc rd label req resp \<longleftrightarrow>
     (\<exists>rdn. label = redaction_as_str rdn) \<and>
     (label = ''metadata_only'' \<longrightarrow> req = [] \<and> resp = []) \<and>
     (label = ''patterns'' \<longrightarrow> (\<exists>b. prefix req (redact_body bc rd b)) \<and> (\<exists>b. prefix resp (redact_body bc rd b)))"

definition record_kept :: "body_codec \<Rightarrow> (string \<Rightarrow> string) \<Rightarrow> request_log_record \<Rightarrow> bool" where
  "record_kept bc rd rec = kept_redacted bc rd (log_redaction rec) (log_request_body rec) (log_response_body rec)"

definition row_kept :: "body_codec \<Rightarrow> (string \<Rightarrow> string) \<Rightarrow> turn_row \<Rightarrow> bool" where
  "row_kept bc rd r \<longleftrightarrow>
     (\<exists>label. row_redaction r = Some label \<and> kept_redacted bc rd label (row_request_body r) (row_response_body r))"

definition disk_rows :: "duck_log \<Rightarrow> turn_row set" where
  "disk_rows l = set (stored_rows l) \<union> (\<Union>p \<in> set (lg_partials l). set (snd p))"

definition log_ok :: "reqlog_config \<Rightarrow> body_codec \<Rightarrow> (string \<Rightarrow> string) \<Rightarrow> duck_log \<Rightarrow> bool" where
  "log_ok cfg bc rd l \<longleftrightarrow>
     length (lg_queue l) \<le> max (queue_size cfg) 1 \<and>
     (\<forall>rec \<in> set (lg_queue l) \<union> set (lg_buf l). record_kept bc rd rec) \<and> (\<forall>r \<in> disk_rows l. row_kept bc rd r)"

text \<open>Everything that can happen to a log that began empty. A call waits for the records queued before it.\<close>
inductive captures :: "reqlog_config \<Rightarrow> body_codec \<Rightarrow> (string \<Rightarrow> string) \<Rightarrow> duck_log \<Rightarrow> bool"
  for cfg :: reqlog_config and bc :: body_codec and rd :: "string \<Rightarrow> string" where
  opened: "lg_turns l = [] \<Longrightarrow> lg_shards l = [] \<Longrightarrow> lg_partials l = [] \<Longrightarrow> captures cfg bc rd (open_log cfg env l)"
| logged: "captures cfg bc rd l \<Longrightarrow> captures cfg bc rd (log_turn cfg bc rd rec l)"
| changed: "captures cfg bc rd l \<Longrightarrow> captures cfg bc rd (apply_policy p l)"
| taken: "captures cfg bc rd l \<Longrightarrow> captures cfg bc rd (take_record cfg env l)"
| flushed: "captures cfg bc rd l \<Longrightarrow> lg_queue l = [] \<Longrightarrow> captures cfg bc rd (snd (flush cfg env l))"
| rotated: "captures cfg bc rd l \<Longrightarrow> lg_queue l = [] \<Longrightarrow> captures cfg bc rd (snd (rotate_log cfg env l))"
| forgotten: "captures cfg bc rd l \<Longrightarrow> lg_queue l = [] \<Longrightarrow> captures cfg bc rd (snd (forget cfg env keys l))"
| closed: "captures cfg bc rd l \<Longrightarrow> lg_queue l = [] \<Longrightarrow> captures cfg bc rd (snd (shutdown cfg env l))"
| reopened: "captures cfg bc rd l \<Longrightarrow> captures cfg bc rd (open_log cfg env l)"

lemma truncate_prefix: "prefix (truncate_body b mx) b"
  by (simp add: truncate_body_def take_is_prefix)

lemma row_of_kept: "record_kept bc rd rec \<Longrightarrow> row_kept bc rd (row_of cfg i rec)"
proof -
  assume kept: "record_kept bc rd rec"
  have pre: "prefix (truncate_body b mx) (redact_body bc rd c)" if "prefix b (redact_body bc rd c)" for b c mx
    using truncate_prefix that by (rule prefix_order.trans)
  have nil: "truncate_body [] mx = []" for mx by (simp add: truncate_body_def)
  from kept show ?thesis
    using pre by (simp add: row_kept_def record_kept_def row_of_def Let_def kept_redacted_def nil) blast
qed

lemma redact_record_kept: "record_kept bc rd (redact_record bc rd rdn rec)"
proof -
  let ?rec = "redact_record bc rd rdn rec"
  have label: "log_redaction ?rec = redaction_as_str rdn" by (cases rdn) (simp_all add: redact_record_def Let_def)
  have "log_request_body ?rec = [] \<and> log_response_body ?rec = []" if "rdn = MetadataOnly"
    by (simp add: that redact_record_def Let_def)
  moreover have "(\<exists>b. prefix (log_request_body ?rec) (redact_body bc rd b)) \<and>
      (\<exists>b. prefix (log_response_body ?rec) (redact_body bc rd b))" if "rdn = Patterns"
    by (simp add: that redact_record_def Let_def) blast
  moreover have "\<exists>rdn'. redaction_as_str rdn = redaction_as_str rdn'" by blast
  ultimately show ?thesis unfolding record_kept_def kept_redacted_def label by (cases rdn) simp_all
qed

lemma flush_kept: "log_ok cfg bc rd l \<Longrightarrow> log_ok cfg bc rd (snd (flush cfg env l))"
proof -
  assume ok: "log_ok cfg bc rd l"
  obtain r l' where f: "flush cfg env l = (r, l')" by (cases "flush cfg env l")
  obtain nid rows where l': "l' = l\<lparr>lg_buf := [], lg_next_id := nid, lg_turns := lg_turns l @ rows\<rparr>"
    and rows: "if r = Inr () then list_all2 (\<lambda>row rec. \<exists>j. row = row_of cfg j rec) rows (lg_buf l) else rows = []"
    using flush_adds [OF f] by blast
  have "row_kept bc rd row" if "row \<in> set rows" for row
  proof -
    have all: "list_all2 (\<lambda>row rec. \<exists>j. row = row_of cfg j rec) rows (lg_buf l)"
      using rows that by (auto split: if_splits)
    from that obtain i where i: "i < length rows" "row = rows ! i" by (auto simp: in_set_conv_nth)
    then obtain j where "row = row_of cfg j (lg_buf l ! i)" "lg_buf l ! i \<in> set (lg_buf l)"
      using list_all2_nthD [OF all i(1)] list_all2_lengthD [OF all] by auto
    with ok show ?thesis by (auto simp: log_ok_def intro: row_of_kept)
  qed
  with ok show ?thesis by (auto simp: f l' log_ok_def disk_rows_def stored_rows_def)
qed

text \<open>What a rotation leaves in the queue, the buffer and the half-written files.\<close>
lemma rotate_frame:
  "lg_queue (snd (rotate_log cfg env l)) = lg_queue l" "lg_buf (snd (rotate_log cfg env l)) = []"
  "set (lg_partials (snd (rotate_log cfg env l))) \<subseteq>
     set (lg_partials l) \<union> {p. set (snd p) \<subseteq> set (lg_turns (snd (flush cfg env l)))}"
proof -
  obtain r l1 where f: "flush cfg env l = (r, l1)" by (cases "flush cfg env l")
  have fr: "lg_queue l1 = lg_queue l" "lg_buf l1 = []" "lg_partials l1 = lg_partials l"
    using log_frames(1,3,4) [of cfg env l] by (simp_all add: f)
  have "lg_queue (snd (rotate_log cfg env l)) = lg_queue l \<and> lg_buf (snd (rotate_log cfg env l)) = [] \<and>
    set (lg_partials (snd (rotate_log cfg env l))) \<subseteq> set (lg_partials l) \<union> {p. set (snd p) \<subseteq> set (lg_turns l1)}"
    by (cases r; cases "counts env")
      (auto simp: rotate_log_def f count_turns_def Let_def fr prune_def log_frames remove_partial_shards_def dest: in_set_takeD)
  then show "lg_queue (snd (rotate_log cfg env l)) = lg_queue l" "lg_buf (snd (rotate_log cfg env l)) = []"
    "set (lg_partials (snd (rotate_log cfg env l))) \<subseteq>
     set (lg_partials l) \<union> {p. set (snd p) \<subseteq> set (lg_turns (snd (flush cfg env l)))}" by (simp_all add: f)
qed

lemma rotate_disk: "disk_rows (snd (rotate_log cfg env l)) \<subseteq> disk_rows (snd (flush cfg env l))"
proof -
  have shs: "lg_shards (snd (flush cfg env l)) = lg_shards l" "lg_partials (snd (flush cfg env l)) = lg_partials l"
    by (simp_all add: log_frames)
  have "set (stored_rows (snd (rotate_log cfg env l))) \<subseteq> set (stored_rows (snd (flush cfg env l)))"
    using rotate_cases [of cfg env l] by (auto simp: stored_rows_def shs put_shard_def split: if_splits)
  moreover have "set (snd p) \<subseteq> disk_rows (snd (flush cfg env l))" if "p \<in> set (lg_partials (snd (rotate_log cfg env l)))" for p
    using that rotate_frame(3) [of cfg env l] by (fastforce simp: disk_rows_def stored_rows_def shs)
  ultimately show ?thesis unfolding disk_rows_def by blast
qed

lemma rotate_kept: "log_ok cfg bc rd l \<Longrightarrow> log_ok cfg bc rd (snd (rotate_log cfg env l))"
  using flush_kept [of cfg bc rd l env] rotate_disk [of cfg env l] rotate_frame(1,2) [of cfg env l]
  by (auto simp: log_ok_def log_frames)

lemma take_kept: "log_ok cfg bc rd l \<Longrightarrow> log_ok cfg bc rd (take_record cfg env l)"
proof -
  assume ok: "log_ok cfg bc rd l"
  have drained: "log_ok cfg bc rd (maybe_rotate cfg env (snd (flush cfg env l')))" if "log_ok cfg bc rd l'" for l'
    using that by (simp add: maybe_rotate_def flush_kept rotate_kept)
  have "log_ok cfg bc rd (l\<lparr>lg_queue := recs, lg_buf := lg_buf l @ [rec]\<rparr>)" if "lg_queue l = rec # recs" for rec recs
    using ok that by (auto simp: log_ok_def disk_rows_def stored_rows_def)
  then show ?thesis using ok drained by (auto simp: take_record_def Let_def split: list.split)
qed

lemma forget_shards_sub:
  "forget_shards env keys shs n = (r, shs') \<Longrightarrow>
   set (concat (map shard_rows shs')) \<subseteq> set (concat (map shard_rows shs))"
proof (induction env keys shs n arbitrary: shs' rule: forget_shards.induct)
  case (2 env keys s shs n)
  then show ?case
    by (simp add: Let_def apsnd_def map_prod_def split: if_splits prod.splits) fastforce+
qed simp

lemma forget_kept: "log_ok cfg bc rd l \<Longrightarrow> log_ok cfg bc rd (snd (forget cfg env keys l))"
proof -
  assume ok: "log_ok cfg bc rd l"
  have "log_ok cfg bc rd (snd (forget_rows env keys l1))" if "log_ok cfg bc rd l1" for l1
  proof -
    obtain r shs where f: "forget_shards env keys (lg_shards l1) (length (filter (made_with keys) (lg_turns l1))) = (r, shs)"
      by (cases "forget_shards env keys (lg_shards l1) (length (filter (made_with keys) (lg_turns l1)))")
    have "disk_rows (snd (forget_rows env keys l1)) \<subseteq> disk_rows l1"
      using forget_shards_sub [OF f]
      by (auto simp: forget_rows_def Let_def f disk_rows_def stored_rows_def remove_partial_shards_def split: sum.splits)
    moreover have "lg_queue (snd (forget_rows env keys l1)) = lg_queue l1 \<and> lg_buf (snd (forget_rows env keys l1)) = lg_buf l1"
      by (simp add: forget_rows_def Let_def f log_frames split: sum.split)
    ultimately show ?thesis using that by (auto simp: log_ok_def)
  qed
  then show ?thesis
    using ok flush_kept [OF ok, of env] by (auto simp: forget_def split: prod.splits sum.splits)
qed

lemma captures_ok:
  assumes "captures cfg bc rd l"
  shows "log_ok cfg bc rd l"
  using assms
proof induction
  case (opened l env)
  then show ?case by (simp add: log_ok_def open_log_def disk_rows_def stored_rows_def)
next
  case (logged l rec)
  then show ?case
    using redact_record_kept [of bc rd "cap_redaction (lg_policy l)" rec]
    by (auto simp: log_turn_def Let_def log_ok_def disk_rows_def stored_rows_def)
next
  case (changed l p)
  then show ?case by (simp add: log_ok_def apply_policy_def disk_rows_def stored_rows_def)
next
  case (closed l env)
  then show ?case using flush_kept [OF closed.IH, of env]
    by (simp add: shutdown_def log_ok_def disk_rows_def stored_rows_def)
next
  case (reopened l env)
  then show ?case by (simp add: log_ok_def open_log_def disk_rows_def stored_rows_def)
qed (rule take_kept flush_kept rotate_kept forget_kept, assumption)+

text \<open>C32: Whatever happens to a log, under any changes of policy and any failures, every turn in it, queued,
  buffered, in the table, in a shard or in a half-written file, carries the label of a redaction and is redacted
  accordingly: no body under metadata only, and under patterns only bodies the redactor made, or their
  beginning; and the queue stays within its size.\<close>
theorem captured_turns_redacted:
  "captures cfg bc rd l \<Longrightarrow> log_ok cfg bc rd l"
  by (rule captures_ok)

section \<open>A sample log\<close>

definition sample_env :: log_env where
  "sample_env =
     \<lparr>wall = 5 * day_nanos, instant = 0, wal_bytes = 0, detail = ''disk'', begins = True, prepares = True,
      refuses = (\<lambda>_. False), commits = True, counts = True, copies = True, written = 0, renames = True,
      deletes = True, checkpoints = True, reads_dir = True, stamp = (\<lambda>_. ''b''), listed = (\<lambda>_. True),
      stat_ok = (\<lambda>_. True), removes = (\<lambda>_. True), queries = (\<lambda>_. True), rewritable = (\<lambda>_. True)\<rparr>"

definition sample_turn :: "string \<Rightarrow> string \<Rightarrow> int \<Rightarrow> request_log_record" where
  "sample_turn name key n =
     \<lparr>log_ts = 4 * day_nanos, log_request_id = name, log_trace_id = None, log_installation_id = [],
      log_surface = ''openai_chat'', log_requested_model = ''m'', log_decision_model = ''m'',
      log_decision_provider = ''p'', log_upstream_status = 200, log_is_error = False, log_request_bytes = n,
      log_response_bytes = 2, log_response_truncated = False, log_request_body = ''{}'', log_response_body = ''{}'',
      log_api_key_id = Some key, log_user_id = None, log_tags = None, log_redaction = ''none''\<rparr>"

definition sample_log :: "request_log_record list \<Rightarrow> turn_row list \<Rightarrow> shard list \<Rightarrow> duck_log" where
  "sample_log buf ts shs =
     \<lparr>lg_policy = capture_default\<lparr>cap_enabled := True\<rparr>, lg_retention = 30, lg_queue = [], lg_dropped = 0,
      lg_running = True, lg_buf = buf, lg_next_id = 7, lg_last_rotate = 0, lg_last_date = 0, lg_turns = ts,
      lg_shards = shs, lg_partials = []\<rparr>"

definition sample_shard :: shard where
  "sample_shard =
     \<lparr>shard_name = ''a'', sealed_at = 4 * day_nanos, keyed = True,
      shard_rows = [row_of reqlog_default 1 (sample_turn ''r1'' ''k1'' 2), row_of reqlog_default 2 (sample_turn ''r2'' ''k2'' 2)]\<rparr>"

lemmas sample_simps = flush_def sample_env_def sample_log_def sample_shard_def sample_turn_def row_of_def
  reqlog_default_def Let_def row_fits_def fits_integer_def stored_rows_def truncate_body_def

lemma failed_flush_loses_batch_witness:
  "lg_turns (snd (flush reqlog_default sample_env
     (sample_log [sample_turn ''r1'' ''k'' 2, sample_turn ''r2'' ''k'' (2 ^ 31)] [] []))) = []"
  using failed_flush_loses_batch [of "sample_turn ''r2'' ''k'' (2 ^ 31)"
      "sample_log [sample_turn ''r1'' ''k'' 2, sample_turn ''r2'' ''k'' (2 ^ 31)] [] []" reqlog_default sample_env]
  by (simp add: sample_log_def row_fits_def fits_integer_def sample_turn_def)

lemma rotation_keeps_turns_witness:
  "\<forall>f. mset (exported_rows True f (snd (rotate_log reqlog_default (sample_env\<lparr>deletes := False\<rparr>)
      (sample_log [sample_turn ''r3'' ''k'' 2] [] [sample_shard])))) =
   mset (exported_rows True f (snd (flush reqlog_default (sample_env\<lparr>deletes := False\<rparr>)
      (sample_log [sample_turn ''r3'' ''k'' 2] [] [sample_shard]))))"
proof -
  let ?env = "sample_env\<lparr>deletes := False\<rparr>" and ?l = "sample_log [sample_turn ''r3'' ''k'' 2] [] [sample_shard]"
  have "stamp ?env (wall ?env) \<notin> shard_name ` set (lg_shards ?l)" by (simp add: sample_simps)
  moreover have "\<forall>s \<in> set (lg_shards ?l). \<not> expired ?env (lg_retention ?l) s"
    by (simp add: expired_def sample_simps)
  moreover have "map row_request_id (stored_rows (snd (flush reqlog_default ?env ?l))) = [''r3'', ''r1'', ''r2'']"
    by (simp add: sample_simps)
  then have "distinct (map row_request_id (stored_rows (snd (flush reqlog_default ?env ?l))))" by simp
  then have "inj_on identity (set (stored_rows (snd (flush reqlog_default ?env ?l))))"
    by (auto simp: distinct_map inj_on_def identity_def)
  ultimately show ?thesis using rotation_keeps_turns [of ?env ?l reqlog_default] by blast
qed


lemma export_misses_first_shard_witness:
  "export_turns (\<lambda>_. None) sample_env
     \<lparr>f_from = None, f_to = None, f_models = [], f_keys = [], f_tags = [], f_redaction = None\<rparr>
     (sample_log [] [row_of reqlog_default 1 (sample_turn ''r1'' ''k1'' 2)] [])
     (snd (rotate_log reqlog_default sample_env (sample_log [] [row_of reqlog_default 1 (sample_turn ''r1'' ''k1'' 2)] []))) = Inr []"
proof -
  let ?l = "sample_log [] [row_of reqlog_default 1 (sample_turn ''r1'' ''k1'' 2)] []"
  have "fst (rotate_log reqlog_default sample_env ?l) = (Inr (), Some ''b'')"
    by (simp add: rotate_log_def count_turns_def flush_def sample_env_def sample_log_def Let_def)
  then show ?thesis
    using export_misses_first_shard [of ?l reqlog_default sample_env "''b''" sample_env "\<lambda>_. None"]
    by (simp add: sample_log_def sample_env_def)
qed

lemma captured_turns_redacted_witness:
  "lg_queue (log_turn reqlog_default contacts_codec mark_all (sample_turn ''r1'' ''k1'' 2)
      (apply_policy \<lparr>cap_enabled = True, cap_redaction = MetadataOnly, retention_days = 30\<rparr>
        (open_log reqlog_default sample_env (sample_log [] [] [])))) \<noteq> [] \<and>
   log_ok reqlog_default contacts_codec mark_all (log_turn reqlog_default contacts_codec mark_all (sample_turn ''r1'' ''k1'' 2)
      (apply_policy \<lparr>cap_enabled = True, cap_redaction = MetadataOnly, retention_days = 30\<rparr>
        (open_log reqlog_default sample_env (sample_log [] [] []))))"
proof -
  have "captures reqlog_default contacts_codec mark_all (open_log reqlog_default sample_env (sample_log [] [] []))"
    by (rule opened) (simp_all add: sample_log_def)
  then have "captures reqlog_default contacts_codec mark_all (log_turn reqlog_default contacts_codec mark_all (sample_turn ''r1'' ''k1'' 2)
      (apply_policy \<lparr>cap_enabled = True, cap_redaction = MetadataOnly, retention_days = 30\<rparr>
        (open_log reqlog_default sample_env (sample_log [] [] []))))" by (intro logged changed)
  from captured_turns_redacted [OF this] show ?thesis
    by (simp add: log_turn_def Let_def apply_policy_def open_log_def reqlog_default_def)
qed

end
