(* ===== verification/Capture_Api.thy ===== *)
theory Capture_Api
  imports Request_Log Admin_Api Wire_Dispatch
begin

text \<open>
  The calls about capture and logging (\<open>yb-server/src/capture.rs\<close>, \<open>logging.rs\<close>): the policy that is kept
  and applied, the export of captured conversations as training examples, erasure, and the log level.

  The state is the store, the request log (none when capture is not configured) and the log level the process
  runs with (none while the environment's filter applies). A call runs as one step; whether the store keeps a
  setting and whether the process takes a level are arguments, as are the text of a time and the reading of
  the normalized answer of a turn. An error is answered as every error of the server is.
\<close>

record settings =
  st_store :: sqlite_store
  st_log :: "duck_log option"
  st_level :: "log_level option"

section \<open>The policy\<close>

definition refused :: "string \<Rightarrow> principal \<Rightarrow> error option" where
  "refused what p = (if is_admin p then None else Some (Forbidden (what @ '' for administrators'')))"

definition logger_policy :: "duck_log option \<Rightarrow> capture_policy" where
  "logger_policy l = (case l of Some d \<Rightarrow> lg_policy d | None \<Rightarrow> capture_default\<lparr>cap_enabled := False\<rparr>)"

definition policy_entries :: "capture_policy \<Rightarrow> json_object" where
  "policy_entries p =
     [(''enabled'', JBool (cap_enabled p)), (''redaction'', JStr (redaction_as_str (cap_redaction p))),
      (''retention_days'', ju32 (retention_days p))]"

definition get_policy :: "principal \<Rightarrow> settings \<Rightarrow> json result" where
  "get_policy p st =
     (case refused ''request capture is'' p of
        Some e \<Rightarrow> Inl e
      | None \<Rightarrow> Inr (JObj (policy_entries (logger_policy (st_log st)) @ [(''available'', JBool (st_log st \<noteq> None))])))"

text \<open>Kept, then applied; a policy that could not be kept is not applied.\<close>
definition put_policy :: "unit result \<Rightarrow> principal \<Rightarrow> capture_policy \<Rightarrow> settings \<Rightarrow> json result \<times> settings" where
  "put_policy kept p policy st =
     (case refused ''request capture is'' p of
        Some e \<Rightarrow> (Inl e, st)
      | None \<Rightarrow>
          if cap_enabled policy \<and> st_log st = None
          then (Inl (Conflict ''capture needs the request log: set [reqlog] enabled = true''), st)
          else (case kept of
                  Inl e \<Rightarrow> (Inl e, st)
                | Inr _ \<Rightarrow> (Inr (JObj (policy_entries policy)),
                    st\<lparr>st_store := set_capture_policy policy (st_store st),
                       st_log := map_option (apply_policy policy) (st_log st)\<rparr>)))"

section \<open>Training examples\<close>

fun answer_text :: "content_block list \<Rightarrow> string" where
  "answer_text [] = []"
| "answer_text (Text t # bs) = t @ answer_text bs"
| "answer_text (_ # bs) = answer_text bs"

fun answer_calls :: "json_codec \<Rightarrow> content_block list \<Rightarrow> json list" where
  "answer_calls jc [] = []"
| "answer_calls jc (ToolUse i n input # bs) =
     JObj [(''id'', JStr i), (''type'', JStr ''function''),
       (''function'', JObj [(''name'', JStr n), (''arguments'', JStr (to_string jc input))])] # answer_calls jc bs"
| "answer_calls jc (_ # bs) = answer_calls jc bs"

definition answer :: "json_codec \<Rightarrow> chat_response \<Rightarrow> json" where
  "answer jc resp =
     (let calls = answer_calls jc (response_content resp)
      in JObj ([(''role'', JStr ''assistant''), (''content'', JStr (answer_text (response_content resp)))] @
               (if calls = [] then [] else [(''tool_calls'', JArr calls)])))"

definition surface_format :: "string \<Rightarrow> wire_format option" where
  "surface_format s =
     (if s = ''openai_chat'' then Some OpenaiChat else if s = ''openai_responses'' then Some OpenaiResponses
      else if s = ''anthropic'' then Some Anthropic else if s = ''gemini'' then Some Gemini else None)"

text \<open>The chat request a captured body was, in the chat dialect, as JSON.\<close>
definition sent_chat :: "json_codec \<Rightarrow> wire_format \<Rightarrow> captured_turn \<Rightarrow> json option" where
  "sent_chat jc fmt t =
     (case wire_parse_request jc fmt (ct_request_body t) of
        Inl _ \<Rightarrow> None
      | Inr req \<Rightarrow>
          (case wire_emit_request jc OpenaiChat req
             \<lparr>target_model = ct_requested_model t, force_reasoning_effort = None, emit_stream = False\<rparr> of
             Inl _ \<Rightarrow> None
           | Inr (sent, _) \<Rightarrow> (case from_slice jc sent of Inl _ \<Rightarrow> None | Inr v \<Rightarrow> Some v)))"

definition example_metadata :: "json_codec \<Rightarrow> time_text \<Rightarrow> captured_turn \<Rightarrow> json" where
  "example_metadata jc tt t =
     JObj [(''request_id'', JStr (ct_request_id t)), (''captured_at'', JStr (tt (ct_ts t))),
           (''model'', JStr (ct_requested_model t)), (''key'', jopt JStr (ct_api_key_id t)),
           (''redaction'', JStr (ct_redaction t)),
           (''tags'', (case Option.bind (ct_tags t) (from_str jc) of None \<Rightarrow> JNull | Some v \<Rightarrow> v))]"

definition training_example ::
  "json_codec \<Rightarrow> (bytes \<Rightarrow> chat_response option) \<Rightarrow> time_text \<Rightarrow> captured_turn \<Rightarrow> json option" where
  "training_example jc read_ir tt t =
     (case surface_format (ct_surface t) of
        None \<Rightarrow> None
      | Some fmt \<Rightarrow>
          if ct_request_body t = [] \<or> ct_response_body t = [] then None
          else (case sent_chat jc fmt t of
                  None \<Rightarrow> None
                | Some sent \<Rightarrow>
                    (case (read_ir (ct_response_body t), Option.bind (jget sent ''messages'') as_array) of
                       (Some resp, Some msgs) \<Rightarrow>
                         Some (JObj ([(''messages'', JArr (msgs @ [answer jc resp])), (''metadata'', example_metadata jc tt t)] @
                           (case jget sent ''tools'' of None \<Rightarrow> [] | Some ts \<Rightarrow> [(''tools'', ts)])))
                     | _ \<Rightarrow> None)))"

section \<open>Export and erasure\<close>

record export_query =
  q_from :: "int option"
  q_to :: "int option"
  q_model :: "string option"
  q_key :: "string option"
  q_tag :: "string option"
  q_redaction :: "string option"

text \<open>Comma-separated words, trimmed, the empty ones left out.\<close>
definition listed_words :: "string option \<Rightarrow> string list" where
  "listed_words v =
     filter (\<lambda>w. w \<noteq> []) (map trim (split_chars (\<lambda>c. c = CHR '','') (case v of None \<Rightarrow> [] | Some s \<Rightarrow> s)))"

fun wanted_tags :: "string list \<Rightarrow> (string \<times> string) list result" where
  "wanted_tags [] = Inr []"
| "wanted_tags (pair # pairs) =
     (case split_once pair '':'' of
        None \<Rightarrow> Inl (BadRequest (''a tag is name:value, not '' @ pair))
      | Some nv \<Rightarrow> (case wanted_tags pairs of Inl e \<Rightarrow> Inl e | Inr nvs \<Rightarrow> Inr (nv # nvs)))"

text \<open>Days are UTC, both included.\<close>
definition filter_of :: "export_query \<Rightarrow> (string \<times> string) list \<Rightarrow> capture_filter" where
  "filter_of q tags =
     \<lparr>f_from = map_option midnight (q_from q), f_to = map_option (\<lambda>d. midnight d + day_nanos) (q_to q),
      f_models = listed_words (q_model q), f_keys = listed_words (q_key q), f_tags = tags,
      f_redaction = q_redaction q\<rparr>"

definition example_lines ::
  "json_codec \<Rightarrow> (bytes \<Rightarrow> chat_response option) \<Rightarrow> time_text \<Rightarrow> captured_turn list \<Rightarrow> string" where
  "example_lines jc read_ir tt ts =
     concat (map (\<lambda>e. to_string jc e @ [CHR 0x0A]) (List.map_filter (training_example jc read_ir tt) ts))"

definition export_log ::
  "json_codec \<Rightarrow> reqlog_config \<Rightarrow> log_env \<Rightarrow> (duck_log \<Rightarrow> duck_log) \<Rightarrow> log_env \<times> (duck_log \<Rightarrow> duck_log) \<Rightarrow>
   capture_filter \<Rightarrow> settings \<Rightarrow> captured_turn list result \<times> settings" where
  "export_log jc cfg env later again f st =
     (case st_log st of
        None \<Rightarrow> (Inr [], st)
      | Some l \<Rightarrow> (case export_capture (from_str jc) cfg env f l later again of (r, l) \<Rightarrow> (r, st\<lparr>st_log := Some l\<rparr>)))"

definition export_examples ::
  "json_codec \<Rightarrow> (bytes \<Rightarrow> chat_response option) \<Rightarrow> time_text \<Rightarrow> reqlog_config \<Rightarrow> log_env \<Rightarrow>
   (duck_log \<Rightarrow> duck_log) \<Rightarrow> log_env \<times> (duck_log \<Rightarrow> duck_log) \<Rightarrow> principal \<Rightarrow> export_query \<Rightarrow> settings \<Rightarrow>
   string result \<times> settings" where
  "export_examples jc read_ir tt cfg env later again p q st =
     (case refused ''request capture is'' p of
        Some e \<Rightarrow> (Inl e, st)
      | None \<Rightarrow>
          (case wanted_tags (listed_words (q_tag q)) of
             Inl e \<Rightarrow> (Inl e, st)
           | Inr tags \<Rightarrow>
               (case export_log jc cfg env later again (filter_of q tags) st of
                  (Inl e, st) \<Rightarrow> (Inl e, st)
                | (Inr ts, st) \<Rightarrow> (Inr (example_lines jc read_ir tt ts), st))))"

definition forget_log :: "reqlog_config \<Rightarrow> log_env \<Rightarrow> string list \<Rightarrow> settings \<Rightarrow> nat result \<times> settings" where
  "forget_log cfg env keys st =
     (case st_log st of
        None \<Rightarrow> (Inr 0, st)
      | Some l \<Rightarrow> (case forget cfg env keys l of (r, l) \<Rightarrow> (r, st\<lparr>st_log := Some l\<rparr>)))"

definition forget_keys :: "reqlog_config \<Rightarrow> log_env \<Rightarrow> principal \<Rightarrow> string list \<Rightarrow> settings \<Rightarrow> json result \<times> settings" where
  "forget_keys cfg env p keys st =
     (case refused ''request capture is'' p of
        Some e \<Rightarrow> (Inl e, st)
      | None \<Rightarrow>
          if keys = [] \<or> length keys > 1000 \<or> list_ex (\<lambda>k. k = [] \<or> length k > 200) keys
          then (Inl (BadRequest ''name 1 to 1000 keys''), st)
          else (case forget_log cfg env keys st of
                  (Inl e, st) \<Rightarrow> (Inl e, st)
                | (Inr n, st) \<Rightarrow> (Inr (JObj [(''forgotten'', jnat n)]), st)))"

section \<open>The log level\<close>

definition get_level :: "principal \<Rightarrow> settings \<Rightarrow> json result" where
  "get_level p st =
     (case refused ''the log level is'' p of
        Some e \<Rightarrow> Inl e
      | None \<Rightarrow> Inr (JObj [(''level'', jopt (\<lambda>l. JStr (log_level_as_str l)) (get_log_level (st_store st)))]))"

text \<open>Applied, then kept; a level that could not be kept is taken back, when that works.\<close>
definition put_level ::
  "(log_level \<Rightarrow> unit result) \<Rightarrow> unit result \<Rightarrow> unit result \<Rightarrow> principal \<Rightarrow> log_level \<Rightarrow> settings \<Rightarrow>
   json result \<times> settings" where
  "put_level applies resets kept p level st =
     (case refused ''the log level is'' p of
        Some e \<Rightarrow> (Inl e, st)
      | None \<Rightarrow>
          (let before = get_log_level (st_store st)
           in case applies level of
                Inl e \<Rightarrow> (Inl e, st)
              | Inr _ \<Rightarrow>
                  (case kept of
                     Inr _ \<Rightarrow> (Inr (JObj [(''level'', JStr (log_level_as_str level))]),
                       st\<lparr>st_store := set_log_level level (st_store st), st_level := Some level\<rparr>)
                   | Inl e \<Rightarrow>
                       (let undone = (case before of Some b \<Rightarrow> applies b | None \<Rightarrow> resets)
                        in (Inl e, st\<lparr>st_level := (case undone of Inr _ \<Rightarrow> before | Inl _ \<Rightarrow> Some level)\<rparr>)))))"

text \<open>What a start of the process takes over from the store.\<close>
definition boot_settings :: "(log_level \<Rightarrow> unit result) \<Rightarrow> settings \<Rightarrow> settings" where
  "boot_settings applies st =
     st\<lparr>st_log := (case get_capture_policy (st_store st) of
          Some p \<Rightarrow> map_option (apply_policy p) (st_log st) | None \<Rightarrow> st_log st),
        st_level := (case get_log_level (st_store st) of
          Some l \<Rightarrow> (case applies l of Inr _ \<Rightarrow> Some l | Inl _ \<Rightarrow> st_level st) | None \<Rightarrow> st_level st)\<rparr>"

section \<open>What a setting comes to\<close>

text \<open>The process runs with what the store keeps.\<close>
definition settings_agree :: "settings \<Rightarrow> bool" where
  "settings_agree st \<longleftrightarrow>
     (case get_capture_policy (st_store st) of None \<Rightarrow> True | Some p \<Rightarrow> st_log st = None \<or> logger_policy (st_log st) = p) \<and>
     st_level st = get_log_level (st_store st)"

lemma put_policy_agrees:
  assumes "settings_agree st" "0 \<le> sint (retention_days policy)"
  shows "settings_agree (snd (put_policy kept p policy st))"
  using assms
  by (cases "st_log st")
    (auto simp: put_policy_def settings_agree_def set_capture_policy_def get_capture_policy_def get_log_level_def
       logger_policy_def apply_policy_def split: option.splits sum.splits)

lemma put_level_agrees:
  assumes "settings_agree st"
    and "case get_log_level (st_store st) of Some b \<Rightarrow> applies b = Inr () | None \<Rightarrow> resets = Inr ()"
  shows "settings_agree (snd (put_level applies resets kept p level st))"
  using assms
  by (auto simp: put_level_def settings_agree_def set_log_level_def get_capture_policy_def get_log_level_def Let_def
       split: option.splits sum.splits)

text \<open>A change of the capture policy or of the log level leaves the process running what the database keeps,
  whatever fails: the store refusing either, the process refusing the level. Two things are needed: a retention that
  fits the column, and that a level once taken can be taken again, or reset, when it has to be undone.\<close>
theorem settings_changes_agree:
  assumes "settings_agree st" "0 \<le> sint (retention_days policy)"
    and "case get_log_level (st_store st) of Some b \<Rightarrow> applies b = Inr () | None \<Rightarrow> resets = Inr ()"
  shows "settings_agree (snd (put_policy kept p policy st)) \<and>
    settings_agree (snd (put_level applies resets kept' p' level st))"
  using put_policy_agrees [OF assms(1,2)] put_level_agrees [OF assms(1,3)] by blast

lemma settings_changes_agree_witness:
  "settings_agree (snd (put_level (\<lambda>l. if l = LogDebug then Inr () else Inl (Internal ''filter'')) (Inr ()) (Inl (Storage ''disk''))
     \<lparr>principal_user_id = ''u'', principal_username = ''u'', principal_role = Admin, expires_at = 0\<rparr> LogDebug
     \<lparr>st_store = empty_store, st_log = None, st_level = None\<rparr>))"
  by (rule settings_changes_agree [THEN conjunct2, of _ capture_default])
    (simp_all add: settings_agree_def get_capture_policy_def get_log_level_def empty_store_def capture_default_def)

text \<open>A retention past the range of the column is in force until the next start, which keeps everything.\<close>
lemma retention_lost_at_restart:
  assumes "sint (retention_days policy) < 0" "st_log st = Some l" "is_admin p"
  shows "lg_retention (the (st_log (snd (put_policy (Inr ()) p policy st)))) = retention_days policy \<and>
    lg_retention (the (st_log (boot_settings applies (snd (put_policy (Inr ()) p policy st))))) = 0"
  using assms by (simp add: put_policy_def refused_def boot_settings_def set_capture_policy_def get_capture_policy_def
      apply_policy_def)

section \<open>What leaves the log\<close>

lemma export_turns_rows:
  assumes "export_turns parse env f seen l = Inr ts" "t \<in> set ts"
  shows "\<exists>r \<in> set (stored_rows l). takes f r \<and> t = captured r"
proof -
  let ?rows = "if has_shards env seen then stored_rows l else lg_turns l"
  have "t \<in> captured ` set (exported_rows (has_shards env seen) f l)"
    using assms by (auto simp: export_turns_def Let_def split: if_splits)
  then obtain r where r: "t = captured r" "r \<in> set (exported_rows (has_shards env seen) f l)" by blast
  then have "r \<in> set (filter (takes f) ?rows)"
    using dedup_key_set [of identity "{}" "filter (takes f) ?rows"] by (auto simp: exported_rows_def)
  with r(1) show ?thesis by (auto simp: stored_rows_def split: if_splits)
qed

lemma metadata_has_no_example:
  assumes "row_kept bc rd r" "training_example jc read_ir tt (captured r) = Some e"
  shows "row_redaction r \<noteq> Some ''metadata_only''"
proof
  assume "row_redaction r = Some ''metadata_only''"
  then have "ct_request_body (captured r) = []" using assms(1) by (simp add: row_kept_def kept_redacted_def captured_def)
  with assms(2) show False by (simp add: training_example_def split: option.splits)
qed


section \<open>A sample export\<close>

definition captured_request :: json where
  "captured_request =
     JObj [(''model'', JStr ''m''), (''messages'', JArr [JObj [(''role'', JStr ''user''), (''content'', JStr ''hi'')]])]"

definition sample_codec :: json_codec where
  "sample_codec = \<lparr>from_slice = \<lambda>_. Inr captured_request, from_str = \<lambda>_. None, to_string = \<lambda>_. ''{}''\<rparr>"

definition sample_ir :: chat_response where
  "sample_ir = \<lparr>response_id = ''r'', response_model = ''m'', response_content = [Text ''hello''],
     response_stop = EndTurn, response_usage = usage_default, response_cache_key = None, response_cache_retention = None\<rparr>"

definition logged_sample :: duck_log where
  "logged_sample = take_record reqlog_default sample_env (log_turn reqlog_default contacts_codec mark_all (sample_turn ''r1'' ''k1'' 2)
     (apply_policy \<lparr>cap_enabled = True, cap_redaction = NoRedaction, retention_days = 30\<rparr>
       (open_log reqlog_default sample_env (sample_log [] [] []))))"

lemma logged_sample_captures: "captures reqlog_default contacts_codec mark_all logged_sample"
  unfolding logged_sample_def
  by (intro captures.taken captures.logged captures.changed captures.opened) (simp_all add: sample_log_def)

definition sample_admin :: principal where
  "sample_admin = \<lparr>principal_user_id = ''u'', principal_username = ''u'', principal_role = Admin, expires_at = 0\<rparr>"

definition sample_query :: export_query where
  "sample_query = \<lparr>q_from = None, q_to = None, q_model = None, q_key = None, q_tag = None, q_redaction = None\<rparr>"

definition sample_settings :: settings where
  "sample_settings = \<lparr>st_store = empty_store, st_log = Some logged_sample, st_level = None\<rparr>"

lemma sample_turn_captured:
  "captured (row_of reqlog_default 1 (sample_turn ''r1'' ''k1'' 2)) =
     \<lparr>ct_ts = 345600000000000, ct_request_id = ''r1'', ct_surface = ''openai_chat'', ct_requested_model = ''m'',
      ct_api_key_id = Some ''k1'', ct_user_id = None, ct_tags = None, ct_redaction = ''none'',
      ct_request_body = ''{}'', ct_response_body = ''{}''\<rparr>"
  by (simp add: captured_def sample_simps)

lemma sample_example:
  "training_example sample_codec (\<lambda>_. Some sample_ir) (\<lambda>_. ''t'') (captured (row_of reqlog_default 1 (sample_turn ''r1'' ''k1'' 2))) \<noteq> None"
  unfolding sample_turn_captured by code_simp

lemma sample_exported:
  "export_capture (from_str sample_codec) reqlog_default sample_env (filter_of sample_query []) logged_sample id (sample_env, id) =
     (Inr [captured (row_of reqlog_default 1 (sample_turn ''r1'' ''k1'' 2))], snd (flush reqlog_default sample_env logged_sample))"
proof -
  have "listed_words None = []" by code_simp
  then show ?thesis
    by (simp add: sample_query_def export_capture_def export_turns_def logged_sample_def take_record_def log_turn_def
        apply_policy_def open_log_def sample_simps BATCH_FLUSH_def redact_record_def has_shards_def exported_rows_def
        takes_def filter_of_def tags_match_def)
qed


end
