(* ===== verification/Telemetry.thy ===== *)
theory Telemetry
  imports Admission
begin

text \<open>
  The metrics of the gateway (\<open>crates/yb-otel\<close>): the registry of series with its histograms and its
  Prometheus text (\<open>registry.rs\<close>), the OTLP JSON of metrics, events and spans (\<open>otlp.rs\<close>), and the sink
  that keeps both and what it pushes in a round (\<open>lib.rs\<close>).

  The map of series is a list of entries in the order they were first met; the order a hash map gives is
  one of the list's permutations. An \<open>f64\<close> is an exact rational, and its text an argument, as are fresh
  identifiers. A push is the list of URLs and bodies of a round.
\<close>

section \<open>Series\<close>

definition LATENCY_BUCKETS_MS :: "rat list" where
  "LATENCY_BUCKETS_MS = [25, 50, 100, 250, 500, 1000, 2500, 5000, 10000, 30000, 60000, 120000]"

definition FIRST_TOKEN_BUCKETS_MS :: "rat list" where
  "FIRST_TOKEN_BUCKETS_MS = [50, 100, 250, 500, 1000, 2500, 5000, 10000, 30000, 60000, 120000, 300000]"

definition OUTPUT_RATE_BUCKETS :: "rat list" where
  "OUTPUT_RATE_BUCKETS = [5, 10, 20, 30, 40, 60, 80, 100, 150, 200, 300]"

record histogram =
  bounds :: "rat list"
  bucket_counts :: "64 word list"
  h_sum :: rat
  h_count :: "64 word"

definition histogram_new :: "rat list \<Rightarrow> histogram" where
  "histogram_new bs = \<lparr>bounds = bs, bucket_counts = replicate (length bs) 0, h_sum = 0, h_count = 0\<rparr>"

definition bump :: "rat \<Rightarrow> rat list \<Rightarrow> 64 word list \<Rightarrow> 64 word list" where
  "bump v bs cs = map (\<lambda>(b, c). if v \<le> b then c + 1 else c) (zip bs cs)"

definition observe :: "histogram \<Rightarrow> rat \<Rightarrow> histogram" where
  "observe h v =
     h\<lparr>bucket_counts := bump v (bounds h) (bucket_counts h), h_sum := h_sum h + v, h_count := h_count h + 1\<rparr>"

record labels =
  l_surface :: string
  l_model :: string
  l_provider :: string
  l_status :: "16 word"

record series =
  requests :: "64 word"
  errors :: "64 word"
  s_input_tokens :: "64 word"
  s_output_tokens :: "64 word"
  s_cache_read_tokens :: "64 word"
  s_cache_write_tokens :: "64 word"
  s_cost_micros :: "64 word"
  latency_bucket_counts :: "64 word list"
  latency_sum_ms :: rat
  latency_count :: "64 word"
  first_token :: histogram
  queue_wait :: histogram
  output_rates :: histogram

definition series_default :: series where
  "series_default =
     \<lparr>requests = 0, errors = 0, s_input_tokens = 0, s_output_tokens = 0, s_cache_read_tokens = 0,
      s_cache_write_tokens = 0, s_cost_micros = 0,
      latency_bucket_counts = replicate (length LATENCY_BUCKETS_MS) 0, latency_sum_ms = 0, latency_count = 0,
      first_token = histogram_new FIRST_TOKEN_BUCKETS_MS, queue_wait = histogram_new FIRST_TOKEN_BUCKETS_MS,
      output_rates = histogram_new OUTPUT_RATE_BUCKETS\<rparr>"

text \<open>An \<open>i64\<close> that counts something, negative ones as 0.\<close>
definition counted :: "int \<Rightarrow> 64 word" where
  "counted n = word_of_int (max n 0)"

definition output_rate :: "telemetry_record \<Rightarrow> rat option" where
  "output_rate r =
     (case t_generation_ms r of
        None \<Rightarrow> None
      | Some ms \<Rightarrow>
          if ms > 0 \<and> t_output_tokens r > 0 then Some (of_int (t_output_tokens r) * 1000 / of_int ms) else None)"

definition labels_of :: "telemetry_record \<Rightarrow> labels" where
  "labels_of r =
     \<lparr>l_surface = t_surface r, l_model = t_decision_model r, l_provider = t_decision_provider r,
      l_status = word_of_int (t_status r)\<rparr>"

definition observe_opt :: "rat option \<Rightarrow> histogram \<Rightarrow> histogram" where
  "observe_opt v h = (case v of None \<Rightarrow> h | Some x \<Rightarrow> observe h x)"

definition fold_turn :: "telemetry_record \<Rightarrow> series \<Rightarrow> series" where
  "fold_turn r s =
     (let ms = of_int (max (t_latency_ms r) 0)
      in s\<lparr>requests := requests s + 1, errors := (if t_is_error r then errors s + 1 else errors s),
           s_input_tokens := s_input_tokens s + counted (t_input_tokens r),
           s_output_tokens := s_output_tokens s + counted (t_output_tokens r),
           s_cache_read_tokens := s_cache_read_tokens s + counted (t_cache_read_tokens r),
           s_cache_write_tokens := s_cache_write_tokens s + counted (t_cache_write_tokens r),
           s_cost_micros := s_cost_micros s + counted (t_cost_micros r),
           latency_bucket_counts := bump ms LATENCY_BUCKETS_MS (latency_bucket_counts s),
           latency_sum_ms := latency_sum_ms s + ms, latency_count := latency_count s + 1,
           first_token := observe_opt (map_option (\<lambda>n. of_int (max n 0)) (t_first_token_ms r)) (first_token s),
           queue_wait := observe_opt (map_option (\<lambda>n. of_int (max n 0)) (t_queue_ms r)) (queue_wait s),
           output_rates := observe_opt (output_rate r) (output_rates s)\<rparr>)"

type_synonym registry = "(labels \<times> series) list"

text \<open>The entry of a label set, made when there is none.\<close>
fun record_series :: "telemetry_record \<Rightarrow> registry \<Rightarrow> registry" where
  "record_series r [] = [(labels_of r, fold_turn r series_default)]"
| "record_series r ((l, s) # reg) =
     (if l = labels_of r then (l, fold_turn r s) # reg else (l, s) # record_series r reg)"

section \<open>Prometheus text\<close>

definition replace_char :: "char \<Rightarrow> string \<Rightarrow> string \<Rightarrow> string" where
  "replace_char c r s = concat (map (\<lambda>x. if x = c then r else [x]) s)"

definition escape_label :: "string \<Rightarrow> string" where
  "escape_label s =
     replace_char (CHR 0x0A) [CHR 0x5C, CHR ''n'']
       (replace_char (CHR 0x22) [CHR 0x5C, CHR 0x22] (replace_char (CHR 0x5C) [CHR 0x5C, CHR 0x5C] s))"

abbreviation quoted :: "string \<Rightarrow> string" where
  "quoted s \<equiv> [CHR 0x22] @ s @ [CHR 0x22]"

abbreviation newline :: string where
  "newline \<equiv> [CHR 0x0A]"

definition label_str :: "labels \<Rightarrow> string" where
  "label_str l =
     ''surface='' @ quoted (escape_label (l_surface l)) @ '',model='' @ quoted (escape_label (l_model l)) @
     '',provider='' @ quoted (escape_label (l_provider l)) @ '',status='' @ quoted (show_nat (unat (l_status l)))"

text \<open>One sample: the name, the labels with one more when there is one, and the value.\<close>
definition sample :: "string \<Rightarrow> string \<Rightarrow> (string \<times> string) option \<Rightarrow> string \<Rightarrow> string" where
  "sample name ls tag value =
     name @ ''{'' @ ls @ (case tag of None \<Rightarrow> [] | Some (k, v) \<Rightarrow> '','' @ k @ ''='' @ quoted v) @ ''} '' @ value @ newline"

definition show_u64 :: "64 word \<Rightarrow> string" where
  "show_u64 n = show_nat (unat n)"

definition type_line :: "string \<Rightarrow> string \<Rightarrow> string" where
  "type_line name kind = ''# TYPE '' @ name @ '' '' @ kind @ newline"

definition counter_text :: "string \<Rightarrow> registry \<Rightarrow> (series \<Rightarrow> 64 word) \<Rightarrow> string" where
  "counter_text name snap value =
     type_line name ''counter'' @
     concat (map (\<lambda>(l, s). sample name (label_str l) None (show_u64 (value s))) snap)"

definition tokens_text :: "registry \<Rightarrow> string" where
  "tokens_text snap =
     type_line ''gateway_tokens_total'' ''counter'' @
     concat (map (\<lambda>(l, s). concat (map (\<lambda>(dir, v).
         sample ''gateway_tokens_total'' (label_str l) (Some (''direction'', dir)) (show_u64 v))
       [(''input'', s_input_tokens s), (''output'', s_output_tokens s), (''cache_read'', s_cache_read_tokens s),
        (''cache_write'', s_cache_write_tokens s)])) snap)"

text \<open>The buckets, the overflow bucket, the sum and the count of one histogram.\<close>
definition buckets_text ::
  "(rat \<Rightarrow> string) \<Rightarrow> string \<Rightarrow> string \<Rightarrow> rat list \<Rightarrow> 64 word list \<Rightarrow> rat \<Rightarrow> 64 word \<Rightarrow> string" where
  "buckets_text show_f64 name ls bs cs tot n =
     concat (map (\<lambda>(b, c). sample (name @ ''_bucket'') ls (Some (''le'', show_f64 b)) (show_u64 c)) (zip bs cs)) @
     sample (name @ ''_bucket'') ls (Some (''le'', ''+Inf'')) (show_u64 n) @
     sample (name @ ''_sum'') ls None (show_f64 tot) @ sample (name @ ''_count'') ls None (show_u64 n)"

definition render_histogram :: "(rat \<Rightarrow> string) \<Rightarrow> string \<Rightarrow> registry \<Rightarrow> (series \<Rightarrow> histogram) \<Rightarrow> string" where
  "render_histogram show_f64 name snap h =
     type_line name ''histogram'' @
     concat (map (\<lambda>(l, s). buckets_text show_f64 name (label_str l) (bounds (h s)) (bucket_counts (h s))
       (h_sum (h s)) (h_count (h s))) snap)"

definition render_prometheus :: "(rat \<Rightarrow> string) \<Rightarrow> registry \<Rightarrow> string" where
  "render_prometheus show_f64 reg =
     (let snap = sort_key (\<lambda>(l, s). (l_surface l, l_model l, l_provider l, uint (l_status l))) reg
      in counter_text ''gateway_requests_total'' snap requests @
         counter_text ''gateway_errors_total'' snap errors @ tokens_text snap @
         counter_text ''gateway_cost_micros_total'' snap s_cost_micros @
         type_line ''gateway_request_duration_ms'' ''histogram'' @
         concat (map (\<lambda>(l, s). buckets_text show_f64 ''gateway_request_duration_ms'' (label_str l) LATENCY_BUCKETS_MS
           (latency_bucket_counts s) (latency_sum_ms s) (latency_count s)) snap) @
         render_histogram show_f64 ''gateway_time_to_first_token_ms'' snap first_token @
         render_histogram show_f64 ''gateway_queue_wait_ms'' snap queue_wait @
         render_histogram show_f64 ''gateway_output_tokens_per_second'' snap output_rates)"

section \<open>OTLP\<close>

definition resource :: "string \<Rightarrow> json" where
  "resource service =
     JObj [(''attributes'', JArr [JObj [(''key'', JStr ''service.name''),
        (''value'', JObj [(''stringValue'', JStr service)])]])]"

definition kv_value :: "string \<Rightarrow> string \<Rightarrow> json \<Rightarrow> json" where
  "kv_value key ty v = JObj [(''key'', JStr key), (''value'', JObj [(ty, v)])]"

definition kv_str :: "string \<Rightarrow> string \<Rightarrow> json" where
  "kv_str key v = kv_value key ''stringValue'' (JStr v)"

definition kv_int :: "string \<Rightarrow> int \<Rightarrow> json" where
  "kv_int key v = kv_value key ''intValue'' (JStr (show_int v))"

definition label_attrs :: "labels \<Rightarrow> json list" where
  "label_attrs l =
     [kv_str ''surface'' (l_surface l), kv_str ''model'' (l_model l), kv_str ''provider'' (l_provider l),
      kv_int ''status'' (uint (l_status l))]"

text \<open>Nanoseconds since the epoch, or 0 out of the range of an \<open>i64\<close>.\<close>
definition nanos_opt :: "timestamp \<Rightarrow> int" where
  "nanos_opt t = (if - (2 ^ 63) \<le> t \<and> t < 2 ^ 63 then t else 0)"

definition point :: "string \<Rightarrow> string \<Rightarrow> json list \<Rightarrow> 64 word \<Rightarrow> json" where
  "point start_ns now_ns attrs v =
     JObj [(''attributes'', JArr attrs), (''startTimeUnixNano'', JStr start_ns), (''timeUnixNano'', JStr now_ns),
           (''asInt'', JStr (show_u64 v))]"

definition sum_metric :: "string \<Rightarrow> string \<Rightarrow> json list \<Rightarrow> json" where
  "sum_metric name unit points =
     JObj [(''name'', JStr name), (''unit'', JStr unit),
           (''sum'', JObj [(''dataPoints'', JArr points), (''aggregationTemporality'', jnat 2), (''isMonotonic'', JBool True)])]"

text \<open>Each bucket on its own, from counts that are cumulative: the last is what is past every bound.\<close>
fun bucket_differences :: "64 word \<Rightarrow> 64 word list \<Rightarrow> 64 word \<Rightarrow> 64 word list" where
  "bucket_differences prev [] n = [n - prev]"
| "bucket_differences prev (c # cs) n = (c - prev) # bucket_differences c cs n"

definition bucket_point ::
  "json list \<Rightarrow> rat list \<Rightarrow> 64 word list \<Rightarrow> rat \<Rightarrow> 64 word \<Rightarrow> string \<Rightarrow> string \<Rightarrow> json" where
  "bucket_point attrs bs cs tot n start_ns now_ns =
     JObj [(''attributes'', JArr attrs), (''startTimeUnixNano'', JStr start_ns), (''timeUnixNano'', JStr now_ns),
           (''count'', JStr (show_u64 n)), (''sum'', JNum (Float tot)),
           (''bucketCounts'', JArr (map (\<lambda>c. JStr (show_u64 c)) (bucket_differences 0 cs n))),
           (''explicitBounds'', JArr (map (\<lambda>b. JNum (Float b)) bs))]"

definition histogram_point :: "json list \<Rightarrow> histogram \<Rightarrow> string \<Rightarrow> string \<Rightarrow> json" where
  "histogram_point attrs h start_ns now_ns =
     bucket_point attrs (bounds h) (bucket_counts h) (h_sum h) (h_count h) start_ns now_ns"

definition histogram_metric :: "string \<Rightarrow> string \<Rightarrow> json list \<Rightarrow> json" where
  "histogram_metric name unit points =
     JObj [(''name'', JStr name), (''unit'', JStr unit),
           (''histogram'', JObj [(''dataPoints'', JArr points), (''aggregationTemporality'', jnat 2)])]"

definition metrics_payload :: "string \<Rightarrow> registry \<Rightarrow> string \<Rightarrow> string \<Rightarrow> json" where
  "metrics_payload service snap start_ns now_ns =
     (let points = (\<lambda>value. map (\<lambda>(l, s). point start_ns now_ns (label_attrs l) (value s)) snap);
          tokens = concat (map (\<lambda>(l, s). map (\<lambda>(dir, v).
              point start_ns now_ns (label_attrs l @ [kv_str ''direction'' dir]) v)
            [(''input'', s_input_tokens s), (''output'', s_output_tokens s), (''cache_read'', s_cache_read_tokens s),
             (''cache_write'', s_cache_write_tokens s)]) snap);
          latency = map (\<lambda>(l, s). bucket_point (label_attrs l) LATENCY_BUCKETS_MS (latency_bucket_counts s)
            (latency_sum_ms s) (latency_count s) start_ns now_ns) snap;
          histograms = (\<lambda>h. map (\<lambda>(l, s). histogram_point (label_attrs l) (h s) start_ns now_ns) snap)
      in JObj [(''resourceMetrics'', JArr [JObj [(''resource'', resource service),
           (''scopeMetrics'', JArr [JObj [(''scope'', JObj [(''name'', JStr ''gateway'')]),
             (''metrics'', JArr
               [sum_metric ''gateway.requests'' ''1'' (points requests), sum_metric ''gateway.errors'' ''1'' (points errors),
                sum_metric ''gateway.tokens'' ''1'' tokens, sum_metric ''gateway.cost'' ''us$1e-6'' (points s_cost_micros),
                histogram_metric ''gateway.request.duration'' ''ms'' latency,
                histogram_metric ''gateway.time_to_first_token'' ''ms'' (histograms first_token),
                histogram_metric ''gateway.queue.wait'' ''ms'' (histograms queue_wait),
                histogram_metric ''gateway.output.rate'' ''{token}/s'' (histograms output_rates)])]])]])])"

definition turn_attrs :: "telemetry_record \<Rightarrow> json list" where
  "turn_attrs r =
     [kv_str ''request_id'' (t_request_id r), kv_str ''surface'' (t_surface r),
      kv_str ''requested_model'' (t_requested_model r), kv_str ''model'' (t_decision_model r),
      kv_str ''provider'' (t_decision_provider r), kv_int ''status'' (t_status r),
      kv_int ''input_tokens'' (t_input_tokens r), kv_int ''output_tokens'' (t_output_tokens r),
      kv_int ''cache_read_tokens'' (t_cache_read_tokens r), kv_int ''cache_write_tokens'' (t_cache_write_tokens r),
      kv_int ''cost_micros'' (t_cost_micros r), kv_int ''latency_ms'' (t_latency_ms r),
      kv_value ''error'' ''boolValue'' (JBool (t_is_error r))] @
     concat (map (\<lambda>(key, v). case v of None \<Rightarrow> [] | Some n \<Rightarrow> [kv_int key n])
       [(''time_to_first_token_ms'', t_first_token_ms r), (''generation_ms'', t_generation_ms r),
        (''queue_wait_ms'', t_queue_ms r)]) @
     (case output_rate r of None \<Rightarrow> []
      | Some q \<Rightarrow> [kv_value ''output_tokens_per_second'' ''doubleValue'' (JNum (Float q))]) @
     concat (map (\<lambda>(key, v). case v of None \<Rightarrow> [] | Some i \<Rightarrow> [kv_str key i])
       [(''api_key_id'', t_api_key_id r), (''user_id'', t_user_id r), (''team_id'', t_team_id r)])"

definition logs_payload :: "string \<Rightarrow> telemetry_record list \<Rightarrow> json" where
  "logs_payload service recs =
     (let record_of = (\<lambda>r. JObj
            [(''timeUnixNano'', JStr (show_int (nanos_opt (t_created_at r)))),
             (''severityNumber'', jnat (if t_is_error r then 13 else 9)),
             (''severityText'', JStr (if t_is_error r then ''WARN'' else ''INFO'')),
             (''body'', JObj [(''stringValue'', JStr ''gateway.turn'')]),
             (''attributes'', JArr (turn_attrs r @ [kv_str ''event.name'' ''gateway.turn'']))])
      in JObj [(''resourceLogs'', JArr [JObj [(''resource'', resource service),
           (''scopeLogs'', JArr [JObj [(''scope'', JObj [(''name'', JStr ''gateway'')]),
             (''logRecords'', JArr (map record_of recs))]])]])])"

definition is_hex :: "char \<Rightarrow> bool" where
  "is_hex c \<longleftrightarrow> is_digit c \<or> (97 \<le> byte_of c \<and> byte_of c \<le> 102) \<or> (65 \<le> byte_of c \<and> byte_of c \<le> 70)"

text \<open>The trace of a caller, in lower case, or a fresh one; \<open>fresh\<close> gives two identifiers for each turn.\<close>
definition trace_id_of :: "string \<Rightarrow> telemetry_record \<Rightarrow> string" where
  "trace_id_of fresh r =
     (case t_trace_id r of
        Some t \<Rightarrow> if length t = 32 \<and> list_all is_hex t then to_ascii_lowercase t else fresh
      | None \<Rightarrow> fresh)"

definition span_of :: "string \<Rightarrow> string \<Rightarrow> telemetry_record \<Rightarrow> json" where
  "span_of fresh_trace fresh_span r =
     (let start = nanos_opt (t_created_at r)
      in JObj
           ([(''traceId'', JStr (trace_id_of fresh_trace r)), (''spanId'', JStr (take 16 fresh_span)),
             (''name'', JStr ''gateway.turn''), (''kind'', jnat 2), (''startTimeUnixNano'', JStr (show_int start)),
             (''endTimeUnixNano'', JStr (show_int (start + max (t_latency_ms r) 0 * 1000000))),
             (''attributes'', JArr (turn_attrs r)),
             (''status'', JObj [(''code'', jnat (if t_is_error r then 2 else 1))])] @
            (case t_parent_span_id r of None \<Rightarrow> [] | Some p \<Rightarrow> [(''parentSpanId'', JStr p)])))"

definition traces_payload :: "(nat \<Rightarrow> string) \<Rightarrow> string \<Rightarrow> telemetry_record list \<Rightarrow> json" where
  "traces_payload fresh service recs =
     JObj [(''resourceSpans'', JArr [JObj [(''resource'', resource service),
       (''scopeSpans'', JArr [JObj [(''scope'', JObj [(''name'', JStr ''gateway'')]),
         (''spans'', JArr (map (\<lambda>(i, r). span_of (fresh (2 * i)) (fresh (2 * i + 1)) r) (enumerate 0 recs)))]])]])]"

section \<open>The sink\<close>

definition EVENT_QUEUE_CAP :: nat where "EVENT_QUEUE_CAP = 8192"

record otel_sink =
  sink_registry :: registry
  sink_events :: "telemetry_record list"
  serves_prometheus :: bool
  sink_dropped :: "64 word"

definition sink_start :: "bool \<Rightarrow> otel_sink" where
  "sink_start prom = \<lparr>sink_registry = [], sink_events = [], serves_prometheus = prom, sink_dropped = 0\<rparr>"

definition sink_turn :: "telemetry_record \<Rightarrow> otel_sink \<Rightarrow> otel_sink" where
  "sink_turn r k =
     (let full = length (sink_events k) \<ge> EVENT_QUEUE_CAP
      in k\<lparr>sink_registry := record_series r (sink_registry k),
           sink_events := (if full then tl (sink_events k) else sink_events k) @ [r],
           sink_dropped := (if full then sink_dropped k + 1 else sink_dropped k)\<rparr>)"

definition prometheus :: "(rat \<Rightarrow> string) \<Rightarrow> otel_sink \<Rightarrow> string option" where
  "prometheus show_f64 k = (if serves_prometheus k then Some (render_prometheus show_f64 (sink_registry k)) else None)"

text \<open>One round of the worker: what it posts, and the sink after it. A post that fails is not made again.\<close>
definition push_round :: "(nat \<Rightarrow> string) \<Rightarrow> string \<Rightarrow> string \<Rightarrow> timestamp \<Rightarrow> timestamp \<Rightarrow> otel_sink \<Rightarrow>
    (string \<times> json) list \<times> otel_sink" where
  "push_round fresh endpoint service start now k =
     (let endpoint = trim_end_char (CHR ''/'') endpoint;
          snap = sink_registry k; events = sink_events k
      in ((if snap = [] then [] else [(endpoint @ ''/v1/metrics'',
              metrics_payload service snap (show_int (nanos_opt start)) (show_int (nanos_opt now)))]) @
          (if events = [] then [] else [(endpoint @ ''/v1/logs'', logs_payload service events),
              (endpoint @ ''/v1/traces'', traces_payload fresh service events)]),
          k\<lparr>sink_events := [], sink_dropped := 0\<rparr>))"

section \<open>What the registry holds\<close>

text \<open>The series of the turns of one label set, counted afresh.\<close>
definition histogram_of :: "rat list \<Rightarrow> rat list \<Rightarrow> histogram" where
  "histogram_of bs vs =
     \<lparr>bounds = bs, bucket_counts = map (\<lambda>b. of_nat (length (filter (\<lambda>v. v \<le> b) vs))) bs,
      h_sum = sum_list vs, h_count = of_nat (length vs)\<rparr>"

definition millis :: "int \<Rightarrow> rat" where
  "millis n = of_int (max n 0)"

definition series_of :: "telemetry_record list \<Rightarrow> series" where
  "series_of ts =
     (let latencies = histogram_of LATENCY_BUCKETS_MS (map (millis \<circ> t_latency_ms) ts);
          tot = (\<lambda>f. sum_list (map (counted \<circ> f) ts))
      in \<lparr>requests = of_nat (length ts), errors = of_nat (length (filter t_is_error ts)),
          s_input_tokens = tot t_input_tokens, s_output_tokens = tot t_output_tokens,
          s_cache_read_tokens = tot t_cache_read_tokens, s_cache_write_tokens = tot t_cache_write_tokens,
          s_cost_micros = tot t_cost_micros, latency_bucket_counts = bucket_counts latencies,
          latency_sum_ms = h_sum latencies, latency_count = h_count latencies,
          first_token = histogram_of FIRST_TOKEN_BUCKETS_MS (map millis (List.map_filter t_first_token_ms ts)),
          queue_wait = histogram_of FIRST_TOKEN_BUCKETS_MS (map millis (List.map_filter t_queue_ms ts)),
          output_rates = histogram_of OUTPUT_RATE_BUCKETS (List.map_filter output_rate ts)\<rparr>)"

lemma bump_map: "bump v bs (map f bs) = map (\<lambda>b. if v \<le> b then f b + 1 else f b) bs"
  by (induction bs) (auto simp: bump_def)

lemma observe_histogram_of: "observe (histogram_of bs vs) v = histogram_of bs (vs @ [v])"
  by (simp add: observe_def histogram_of_def bump_map)

lemma observe_opt_histogram_of: "observe_opt x (histogram_of bs vs) = histogram_of bs (vs @ (case x of None \<Rightarrow> [] | Some v \<Rightarrow> [v]))"
  by (simp add: observe_opt_def observe_histogram_of split: option.split)

lemma histogram_new_of: "histogram_new bs = histogram_of bs []"
  by (simp add: histogram_new_def histogram_of_def map_replicate_const)

lemma series_default_of: "series_default = series_of []"
  by (simp add: series_default_def series_of_def histogram_new_of Let_def)
    (simp add: histogram_of_def map_replicate_const)

lemma map_filter_snoc: "List.map_filter f (xs @ [x]) = List.map_filter f xs @ (case f x of None \<Rightarrow> [] | Some y \<Rightarrow> [y])"
  by (simp add: List.map_filter_def split: option.split)

lemma map_case_option: "map g (case x of None \<Rightarrow> [] | Some y \<Rightarrow> [y]) = (case map_option g x of None \<Rightarrow> [] | Some y \<Rightarrow> [y])"
  by (cases x) simp_all

lemma fold_turn_series_of: "fold_turn r (series_of ts) = series_of (ts @ [r])"
  by (simp add: fold_turn_def series_of_def Let_def observe_opt_histogram_of map_filter_snoc map_case_option
      millis_def [abs_def]) (simp add: histogram_of_def bump_map)

lemma map_of_record_series:
  "map_of (record_series r reg) = (map_of reg)(labels_of r \<mapsto> fold_turn r (case map_of reg (labels_of r) of None \<Rightarrow> series_default | Some s \<Rightarrow> s))"
  by (induction r reg rule: record_series.induct) (auto simp: fun_eq_iff)

text \<open>C36: The registry is what a count of the turns from scratch gives. After any turns, in any order, a label set has
  a series exactly when one of them carries it, and every figure of it, the totals modulo \<open>2^64\<close> and the cumulative
  buckets of the four histograms, is that of the turns that carry it.\<close>
theorem registry_counts_turns:
  "map_of (foldl (\<lambda>reg r. record_series r reg) [] ts) l =
     (let own = filter (\<lambda>r. labels_of r = l) ts in if own = [] then None else Some (series_of own))"
proof (induction ts rule: rev_induct)
  case (snoc r ts)
  show ?case
  proof (cases "l = labels_of r")
    case True
    have reg: "(case map_of (foldl (\<lambda>reg r. record_series r reg) [] ts) l of None \<Rightarrow> series_default | Some s \<Rightarrow> s)
        = series_of (filter (\<lambda>r. labels_of r = l) ts)"
      unfolding snoc by (simp add: Let_def series_default_of)
    show ?thesis using reg by (simp add: map_of_record_series True fold_turn_series_of)
  next
    case False
    then show ?thesis using snoc by (simp add: map_of_record_series)
  qed
qed simp

section \<open>Labels and buckets\<close>

text \<open>A label value as a reader of the text format takes it: up to the first quote that is not escaped.\<close>
fun read_label :: "string \<Rightarrow> (string \<times> string) option" where
  "read_label [] = None"
| "read_label (c # cs) =
     (if c = CHR 0x22 then Some ([], cs)
      else if c = CHR 0x5C
      then (case cs of
              [] \<Rightarrow> None
            | d # ds \<Rightarrow> map_option (apfst ((#) (if d = CHR ''n'' then CHR 0x0A else d))) (read_label ds))
      else map_option (apfst ((#) c)) (read_label cs))"

definition escape_char :: "char \<Rightarrow> string" where
  "escape_char c =
     (if c = CHR 0x5C then [CHR 0x5C, CHR 0x5C] else if c = CHR 0x22 then [CHR 0x5C, CHR 0x22]
      else if c = CHR 0x0A then [CHR 0x5C, CHR ''n''] else [c])"

lemma escape_label_chars: "escape_label s = concat (map escape_char s)"
  by (induction s) (auto simp: escape_label_def replace_char_def escape_char_def)

text \<open>No name of a model, provider or surface can break out of its label: its text has no line end, and a
  reader of the label takes back the name itself and goes on right after the closing quote.\<close>
theorem label_value_confined:
  "read_label (escape_label s @ [CHR 0x22] @ after) = Some (s, after) \<and> CHR 0x0A \<notin> set (escape_label s)"
  unfolding escape_label_chars by (induction s) (auto simp: escape_char_def)

text \<open>How many observations are in each interval between the bounds, and past the last.\<close>
fun interval_sizes :: "rat list \<Rightarrow> rat list \<Rightarrow> nat list" where
  "interval_sizes [] vs = [length vs]"
| "interval_sizes (b # bs) vs = length (filter (\<lambda>v. v \<le> b) vs) # interval_sizes bs (filter (\<lambda>v. b < v) vs)"

lemma interval_sizes_sum: "sum_list (interval_sizes bs vs) = length vs"
proof (induction bs vs rule: interval_sizes.induct)
  case (2 b bs vs)
  then show ?case using sum_length_filter_compl [of "\<lambda>v. v \<le> b" vs] by (simp add: not_le)
qed simp

lemma observe_all: "foldl observe (histogram_of bs us) vs = histogram_of bs (us @ vs)"
  by (induction vs arbitrary: us) (simp_all add: observe_histogram_of)

lemma unat_u64: "n < 2 ^ 64 \<Longrightarrow> unat (of_nat n :: 64 word) = n"
  by (simp add: unat_of_nat)

lemma unat_u64_diff: "m \<le> n \<Longrightarrow> n < 2 ^ 64 \<Longrightarrow> unat (of_nat n - of_nat m :: 64 word) = n - m"
  using unat_u64 [of "n - m"] by (simp add: of_nat_diff)

lemma unat_count: "length (vs :: rat list) < 2 ^ 64 \<Longrightarrow> unat (of_nat (length (filter P vs)) :: 64 word) = length (filter P vs)"
  by (intro unat_u64) (rule le_less_trans [OF length_filter_le])

text \<open>The differences from a bound on are the intervals of the observations above it.\<close>
lemma bucket_differences_intervals:
  assumes "length vs < 2 ^ 64" "sorted (p # bs)"
  shows "map unat (bucket_differences (of_nat (length (filter (\<lambda>v. v \<le> p) vs)))
      (map (\<lambda>b. of_nat (length (filter (\<lambda>v. v \<le> b) vs))) bs) (of_nat (length vs))) =
    interval_sizes bs (filter (\<lambda>v. p < v) vs)"
  using assms(2)
proof (induction bs arbitrary: p)
  case Nil
  have "length (filter (\<lambda>v. v \<le> p) vs) + length (filter (\<lambda>v. p < v) vs) = length vs"
    using sum_length_filter_compl [of "\<lambda>v. v \<le> p" vs] by (simp add: not_le)
  then show ?case using unat_u64_diff [OF _ assms(1), of "length (filter (\<lambda>v. v \<le> p) vs)"] by simp
next
  case (Cons b bs)
  let ?n = "\<lambda>b. length (filter (\<lambda>v. v \<le> b) vs)"
  have "filter (\<lambda>v. v \<le> b) (filter (\<lambda>v. p < v) vs) = filter (\<lambda>v. \<not> v \<le> p) (filter (\<lambda>v. v \<le> b) vs)"
    by (simp add: conj_commute not_le cong: filter_cong)
  moreover have "filter (\<lambda>v. v \<le> p) (filter (\<lambda>v. v \<le> b) vs) = filter (\<lambda>v. v \<le> p) vs"
    using Cons.prems by (auto intro!: filter_cong)
  ultimately have n: "?n b = ?n p + length (filter (\<lambda>v. v \<le> b) (filter (\<lambda>v. p < v) vs))"
    using sum_length_filter_compl [of "\<lambda>v. v \<le> p" "filter (\<lambda>v. v \<le> b) vs"] by simp
  have "filter (\<lambda>v. b < v) (filter (\<lambda>v. p < v) vs) = filter (\<lambda>v. b < v) vs"
    using Cons.prems by (auto intro!: filter_cong)
  moreover have "unat (of_nat (?n b) - of_nat (?n p) :: 64 word) = ?n b - ?n p"
  proof (rule unat_u64_diff)
    show "?n p \<le> ?n b" using n by linarith
    show "?n b < 2 ^ 64" by (rule le_less_trans [OF length_filter_le assms(1)])
  qed
  then have "unat (of_nat (?n b) - of_nat (?n p) :: 64 word) = length (filter (\<lambda>v. v \<le> b) (filter (\<lambda>v. p < v) vs))"
    using n by simp
  moreover have "sorted (b # bs)" using Cons.prems by simp
  note Cons.IH [OF this]
  ultimately show ?case by (simp only: list.map bucket_differences.simps interval_sizes.simps)
qed

text \<open>A histogram is pushed as what it means in OTLP. From the cumulative counts of any observations, fewer than
  \<open>2^64\<close>, against rising bounds, the count of each bucket is that of the observations above one bound and at most
  the next, the last that of those past every bound; no difference wraps, and the buckets add up to the count.\<close>
theorem otlp_buckets_partition:
  assumes "length vs < 2 ^ 64" "sorted bs"
  defines "h \<equiv> foldl observe (histogram_new bs) vs"
  shows "map unat (bucket_differences 0 (bucket_counts h) (h_count h)) = interval_sizes bs vs \<and>
    sum_list (map unat (bucket_differences 0 (bucket_counts h) (h_count h))) = unat (h_count h)"
proof -
  have h: "h = histogram_of bs vs" by (simp add: h_def histogram_new_of observe_all)
  define p where "p = Min (insert 0 (set (vs @ bs))) - 1"
  have low: "p < x" if "x \<in> set (vs @ bs)" for x
  proof -
    have "Min (insert 0 (set (vs @ bs))) \<le> x" using that by (intro Min_le) auto
    then show ?thesis unfolding p_def by linarith
  qed
  then have none: "filter (\<lambda>v. v \<le> p) vs = []" and all: "filter (\<lambda>v. p < v) vs = vs"
    by (auto simp: filter_empty_conv filter_id_conv not_le)
  have "sorted (p # bs)" using assms(2) low by (auto intro: less_imp_le)
  from bucket_differences_intervals [OF assms(1) this]
  have "map unat (bucket_differences 0 (bucket_counts h) (h_count h)) = interval_sizes bs vs"
    by (simp add: none all h histogram_of_def)
  then show ?thesis using assms(1) by (simp add: interval_sizes_sum h histogram_of_def unat_u64)
qed

lemma otlp_buckets_partition_witness:
  "map unat (bucket_differences 0 (bucket_counts (foldl observe (histogram_new OUTPUT_RATE_BUCKETS) [5, 7, 1000]))
     (h_count (foldl observe (histogram_new OUTPUT_RATE_BUCKETS) [5, 7, 1000]))) = [1, 1, 0, 0, 0, 0, 0, 0, 0, 0, 0, 1]"
  using otlp_buckets_partition [of "[5, 7, 1000]" OUTPUT_RATE_BUCKETS] by (simp add: OUTPUT_RATE_BUCKETS_def)

text \<open>The queue of events keeps the latest, and counts the ones it let go.\<close>
lemma sink_keeps_latest:
  "sink_events (foldl (\<lambda>k r. sink_turn r k) (sink_start prom) rs) = drop (length rs - EVENT_QUEUE_CAP) rs \<and>
   sink_dropped (foldl (\<lambda>k r. sink_turn r k) (sink_start prom) rs) = of_nat (length rs - EVENT_QUEUE_CAP) \<and>
   sink_registry (foldl (\<lambda>k r. sink_turn r k) (sink_start prom) rs) = foldl (\<lambda>reg r. record_series r reg) [] rs"
proof (induction rs rule: rev_induct)
  case Nil
  then show ?case by (simp add: sink_start_def)
next
  case (snoc r rs)
  have cap: "0 < EVENT_QUEUE_CAP" by (simp add: EVENT_QUEUE_CAP_def)
  show ?case
  proof (cases "length rs < EVENT_QUEUE_CAP")
    case True
    then show ?thesis using snoc by (simp add: sink_turn_def Let_def)
  next
    case False
    then have "Suc (length rs) - EVENT_QUEUE_CAP = Suc (length rs - EVENT_QUEUE_CAP)" by simp
    then show ?thesis using snoc False cap by (simp add: sink_turn_def Let_def tl_drop drop_Suc)
  qed
qed

end
