(* ===== verification/Postgres_Store.thy ===== *)
theory Postgres_Store
  imports Store_Laws
begin

text \<open>
  The PostgreSQL store (\<open>crates/yb-store/src/postgres.rs\<close>): the statements of the \<open>Store\<close> trait in its
  dialect, over the tables of \<open>Sqlite_Store\<close> and with the same conventions.

  What differs is kept: a \<open>TIMESTAMPTZ\<close> column holds whole microseconds, so a time is cut when it is bound
  (times are after 2000); a weight is bound as an \<open>i32\<close> and read back with negative values as 0; text is
  ordered by the collation of the database, a sort key that is an argument; null sorts last. The text of a
  refused insert stands for any such text.
\<close>

section \<open>Columns\<close>

definition micro :: "timestamp \<Rightarrow> timestamp" where
  "micro t = t - t mod 1000"

abbreviation micro_opt :: "timestamp option \<Rightarrow> timestamp option" where
  "micro_opt \<equiv> map_option micro"

type_synonym collation = "string \<Rightarrow> string"

definition pg_weight :: "32 word \<Rightarrow> 32 word" where
  "pg_weight w = (if sint w < 0 then 0 else w)"

section \<open>Users and sessions\<close>

definition pg_create_user :: "user \<Rightarrow> sqlite_store \<Rightarrow> sqlite_store result" where
  "pg_create_user u s =
     (let row = u\<lparr>user_created_at := micro (user_created_at u), last_login_at := micro_opt (last_login_at u),
                  user_deleted_at := micro_opt (user_deleted_at u)\<rparr>
      in if list_ex (\<lambda>r. user_id r = user_id row) (users s) \<or>
            (user_deleted_at row = None \<and>
             list_ex (\<lambda>r. username r = username row \<and> user_deleted_at r = None) (users s))
         then Inl constraint_failed else Inr (s\<lparr>users := users s @ [row]\<rparr>))"

definition pg_get_user :: "id \<Rightarrow> sqlite_store \<Rightarrow> user option" where
  "pg_get_user i s = find (\<lambda>u. user_id u = i \<and> user_deleted_at u = None) (users s)"

definition pg_get_user_by_username :: "string \<Rightarrow> sqlite_store \<Rightarrow> user option" where
  "pg_get_user_by_username n s = find (\<lambda>u. username u = n \<and> user_deleted_at u = None) (users s)"

definition pg_list_users :: "collation \<Rightarrow> sqlite_store \<Rightarrow> user list" where
  "pg_list_users coll s = sort_key (coll \<circ> username) (filter (\<lambda>u. user_deleted_at u = None) (users s))"

definition pg_set_user_password :: "id \<Rightarrow> string \<Rightarrow> sqlite_store \<Rightarrow> sqlite_store" where
  "pg_set_user_password i h s =
     s\<lparr>users := map (\<lambda>u. if user_id u = i \<and> user_deleted_at u = None then u\<lparr>password_hash := h\<rparr> else u) (users s)\<rparr>"

definition pg_set_user_role :: "id \<Rightarrow> role \<Rightarrow> sqlite_store \<Rightarrow> sqlite_store" where
  "pg_set_user_role i r s =
     s\<lparr>users := map (\<lambda>u. if user_id u = i \<and> user_deleted_at u = None then u\<lparr>user_role := r\<rparr> else u) (users s)\<rparr>"

definition pg_set_user_limits :: "id \<Rightarrow> limit_columns \<Rightarrow> sqlite_store \<Rightarrow> sqlite_store" where
  "pg_set_user_limits i l s =
     s\<lparr>users := map (\<lambda>u. if user_id u = i \<and> user_deleted_at u = None
         then u\<lparr>user_rpm_limit := lc_rpm l, user_tpm_limit := lc_tpm l, user_max_concurrent := lc_max_concurrent l\<rparr>
         else u) (users s)\<rparr>"

definition pg_mark_user_login :: "timestamp \<Rightarrow> id \<Rightarrow> sqlite_store \<Rightarrow> sqlite_store" where
  "pg_mark_user_login now i s =
     s\<lparr>users := map (\<lambda>u. if user_id u = i then u\<lparr>last_login_at := Some (micro now)\<rparr> else u) (users s)\<rparr>"

definition pg_delete_user :: "timestamp \<Rightarrow> id \<Rightarrow> sqlite_store \<Rightarrow> sqlite_store" where
  "pg_delete_user now i s =
     s\<lparr>users := map (\<lambda>u. if user_id u = i \<and> user_deleted_at u = None
         then u\<lparr>user_deleted_at := Some (micro now)\<rparr> else u) (users s)\<rparr>"

definition pg_count_users :: "sqlite_store \<Rightarrow> int" where
  "pg_count_users s = int (length (filter (\<lambda>u. user_deleted_at u = None) (users s)))"

definition pg_count_admins :: "sqlite_store \<Rightarrow> int" where
  "pg_count_admins s = int (length (filter (\<lambda>u. user_role u = Admin \<and> user_deleted_at u = None) (users s)))"

definition pg_create_session :: "session \<Rightarrow> sqlite_store \<Rightarrow> sqlite_store result" where
  "pg_create_session x s =
     (let row = x\<lparr>session_created_at := micro (session_created_at x), session_expires_at := micro (session_expires_at x)\<rparr>
      in if list_ex (\<lambda>r. session_token r = session_token row) (sessions s) then Inl constraint_failed
         else Inr (s\<lparr>sessions := sessions s @ [row]\<rparr>))"

definition pg_get_session :: "timestamp \<Rightarrow> string \<Rightarrow> sqlite_store \<Rightarrow> session option" where
  "pg_get_session now tk s = find (\<lambda>x. session_token x = tk \<and> micro now < session_expires_at x) (sessions s)"

definition pg_delete_session :: "string \<Rightarrow> sqlite_store \<Rightarrow> sqlite_store" where
  "pg_delete_session tk s = s\<lparr>sessions := filter (\<lambda>x. session_token x \<noteq> tk) (sessions s)\<rparr>"

section \<open>Keys\<close>

text \<open>A key as its row reads back.\<close>
definition pg_key_row :: "api_key \<Rightarrow> api_key" where
  "pg_key_row k =
     k\<lparr>scopes := (case parse_set (render_set (scopes k)) of Inl _ \<Rightarrow> [] | Inr ss \<Rightarrow> ss),
       key_created_at := micro (key_created_at k), last_used_at := micro_opt (last_used_at k),
       key_deleted_at := micro_opt (key_deleted_at k)\<rparr>"

definition pg_create_api_key :: "api_key \<Rightarrow> sqlite_store \<Rightarrow> sqlite_store result" where
  "pg_create_api_key k s =
     (if list_ex (\<lambda>r. key_id r = key_id k \<or> hash r = hash k) (api_keys s) then Inl constraint_failed
      else Inr (s\<lparr>api_keys := api_keys s @ [pg_key_row k]\<rparr>))"

definition pg_verify_api_key :: "string \<Rightarrow> sqlite_store \<Rightarrow> key_auth option" where
  "pg_verify_api_key h s =
     Option.bind (find (\<lambda>k. hash k = h \<and> key_deleted_at k = None) (api_keys s)) (\<lambda>k.
       map_option (\<lambda>u. \<lparr>auth_user = u, auth_key = k\<rparr>) (pg_get_user (owner_user_id k) s))"

definition pg_get_api_key :: "id \<Rightarrow> sqlite_store \<Rightarrow> api_key option" where
  "pg_get_api_key i s = find (\<lambda>k. key_id k = i) (api_keys s)"

definition pg_list_api_keys :: "sqlite_store \<Rightarrow> api_key list" where
  "pg_list_api_keys s = sort_key key_created_at (filter (\<lambda>k. key_deleted_at k = None) (api_keys s))"

definition pg_list_api_keys_for_user :: "id \<Rightarrow> sqlite_store \<Rightarrow> api_key list" where
  "pg_list_api_keys_for_user u s =
     sort_key key_created_at (filter (\<lambda>k. owner_user_id k = u \<and> key_deleted_at k = None) (api_keys s))"

definition pg_mark_api_key_used :: "timestamp \<Rightarrow> id \<Rightarrow> sqlite_store \<Rightarrow> sqlite_store" where
  "pg_mark_api_key_used now i s =
     s\<lparr>api_keys := map (\<lambda>k. if key_id k = i then k\<lparr>last_used_at := Some (micro now)\<rparr> else k) (api_keys s)\<rparr>"

definition pg_delete_api_key :: "timestamp \<Rightarrow> id \<Rightarrow> sqlite_store \<Rightarrow> sqlite_store" where
  "pg_delete_api_key now i s =
     s\<lparr>api_keys := map (\<lambda>k. if key_id k = i \<and> key_deleted_at k = None
         then k\<lparr>key_deleted_at := Some (micro now)\<rparr> else k) (api_keys s)\<rparr>"

definition pg_update_api_key_access :: "id \<Rightarrow> access_policy \<Rightarrow> sqlite_store \<Rightarrow> sqlite_store" where
  "pg_update_api_key_access i p s =
     s\<lparr>api_keys := map (\<lambda>k. if key_id k = i then k\<lparr>access := p\<rparr> else k) (api_keys s)\<rparr>"

definition pg_update_api_key_limits :: "id \<Rightarrow> limit_columns \<Rightarrow> sqlite_store \<Rightarrow> sqlite_store" where
  "pg_update_api_key_limits i l s =
     s\<lparr>api_keys := map (\<lambda>k. if key_id k = i
         then k\<lparr>rpm_limit := lc_rpm l, tpm_limit := lc_tpm l, key_max_concurrent := lc_max_concurrent l\<rparr>
         else k) (api_keys s)\<rparr>"

definition pg_rename_api_key :: "id \<Rightarrow> string option \<Rightarrow> sqlite_store \<Rightarrow> sqlite_store" where
  "pg_rename_api_key i n s =
     s\<lparr>api_keys := map (\<lambda>k. if key_id k = i then k\<lparr>key_name := n\<rparr> else k) (api_keys s)\<rparr>"

text \<open>The conflict on user and provider updates the secret; any other use of an id is refused.\<close>
definition pg_upsert_external_key :: "external_key \<Rightarrow> sqlite_store \<Rightarrow> sqlite_store result" where
  "pg_upsert_external_key k s =
     (let same = (\<lambda>r. ext_user_id r = ext_user_id k \<and> ext_provider r = ext_provider k);
          row = k\<lparr>ext_created_at := micro (ext_created_at k), ext_last_used_at := micro_opt (ext_last_used_at k)\<rparr>
      in if list_ex same (external_keys s)
         then Inr (s\<lparr>external_keys := map (\<lambda>r. if same r
                then r\<lparr>ciphertext := ciphertext k, ext_prefix := ext_prefix k, ext_suffix := ext_suffix k\<rparr> else r)
                (external_keys s)\<rparr>)
         else if list_ex (\<lambda>r. ext_id r = ext_id k) (external_keys s) then Inl constraint_failed
         else Inr (s\<lparr>external_keys := external_keys s @ [row]\<rparr>))"

definition pg_list_external_keys :: "collation \<Rightarrow> id \<Rightarrow> sqlite_store \<Rightarrow> external_key list" where
  "pg_list_external_keys coll u s = sort_key (coll \<circ> ext_provider) (filter (\<lambda>k. ext_user_id k = u) (external_keys s))"

definition pg_delete_external_key :: "id \<Rightarrow> string \<Rightarrow> sqlite_store \<Rightarrow> sqlite_store" where
  "pg_delete_external_key u p s =
     s\<lparr>external_keys := filter (\<lambda>k. \<not> (ext_user_id k = u \<and> ext_provider k = p)) (external_keys s)\<rparr>"

section \<open>Teams\<close>

definition pg_create_team :: "team \<Rightarrow> sqlite_store \<Rightarrow> sqlite_store result" where
  "pg_create_team t s =
     (let row = t\<lparr>tm_created_at := micro (tm_created_at t), tm_updated_at := micro (tm_updated_at t),
                  tm_deleted_at := micro_opt (tm_deleted_at t)\<rparr>
      in if list_ex (\<lambda>r. tm_id r = tm_id row) (teams s) then Inl constraint_failed
         else Inr (s\<lparr>teams := teams s @ [row]\<rparr>))"

definition pg_get_team :: "id \<Rightarrow> sqlite_store \<Rightarrow> team option" where
  "pg_get_team i s = find (\<lambda>t. tm_id t = i) (teams s)"

definition pg_list_teams :: "sqlite_store \<Rightarrow> team list" where
  "pg_list_teams s = sort_key tm_created_at (filter (\<lambda>t. tm_deleted_at t = None) (teams s))"

definition pg_delete_team :: "timestamp \<Rightarrow> id \<Rightarrow> sqlite_store \<Rightarrow> sqlite_store" where
  "pg_delete_team now i s =
     s\<lparr>teams := map (\<lambda>t. if tm_id t = i \<and> tm_deleted_at t = None
         then t\<lparr>tm_deleted_at := Some (micro now)\<rparr> else t) (teams s)\<rparr>"

definition pg_update_team_access :: "timestamp \<Rightarrow> id \<Rightarrow> access_policy \<Rightarrow> sqlite_store \<Rightarrow> sqlite_store" where
  "pg_update_team_access now i p s =
     s\<lparr>teams := map (\<lambda>t. if tm_id t = i then t\<lparr>tm_access := p, tm_updated_at := micro now\<rparr> else t) (teams s)\<rparr>"

definition pg_upsert_membership :: "team_membership \<Rightarrow> sqlite_store \<Rightarrow> sqlite_store result" where
  "pg_upsert_membership x s =
     (if list_ex (\<lambda>r. mb_team_id r = mb_team_id x \<and> mb_user_id r = mb_user_id x) (team_memberships s) then Inr s
      else if list_ex (\<lambda>r. mb_id r = mb_id x) (team_memberships s) then Inl constraint_failed
      else Inr (s\<lparr>team_memberships := team_memberships s @ [x\<lparr>mb_created_at := micro (mb_created_at x)\<rparr>]\<rparr>))"

definition pg_list_memberships_for_user :: "id \<Rightarrow> sqlite_store \<Rightarrow> team_membership list" where
  "pg_list_memberships_for_user u s = sort_key mb_created_at (filter (\<lambda>r. mb_user_id r = u) (team_memberships s))"

definition pg_list_team_members :: "id \<Rightarrow> sqlite_store \<Rightarrow> team_membership list" where
  "pg_list_team_members t s = sort_key mb_created_at (filter (\<lambda>r. mb_team_id r = t) (team_memberships s))"

definition pg_delete_membership :: "id \<Rightarrow> id \<Rightarrow> sqlite_store \<Rightarrow> sqlite_store" where
  "pg_delete_membership t u s =
     s\<lparr>team_memberships := filter (\<lambda>r. \<not> (mb_team_id r = t \<and> mb_user_id r = u)) (team_memberships s)\<rparr>"

section \<open>Telemetry, spend and budgets\<close>

definition pg_insert_telemetry :: "telemetry_record \<Rightarrow> sqlite_store \<Rightarrow> sqlite_store result" where
  "pg_insert_telemetry r s =
     (if list_ex (\<lambda>x. t_id x = t_id r) (request_telemetry s) then Inl constraint_failed
      else Inr (s\<lparr>request_telemetry := request_telemetry s @
        [r\<lparr>t_parent_span_id := None, t_created_at := micro (t_created_at r)\<rparr>]\<rparr>))"

definition pg_upsert_rollup :: "rollup_delta \<Rightarrow> sqlite_store \<Rightarrow> sqlite_store" where
  "pg_upsert_rollup d s =
     (let n = d\<lparr>period_start := micro (period_start d)\<rparr>;
          same = (\<lambda>r. subject_type r = subject_type n \<and> subject_id r = subject_id n \<and>
                      period r = period n \<and> period_start r = period_start n)
      in if list_ex same (spend_rollup s)
         then s\<lparr>spend_rollup := map (\<lambda>r. if same r
                then r\<lparr>spend_micros := spend_micros r + spend_micros n,
                       request_count := request_count r + request_count n,
                       input_tokens_delta := input_tokens_delta r + input_tokens_delta n,
                       output_tokens_delta := output_tokens_delta r + output_tokens_delta n\<rparr> else r)
                (spend_rollup s)\<rparr>
         else s\<lparr>spend_rollup := spend_rollup s @ [n]\<rparr>)"

definition pg_period_spend ::
  "calendar \<Rightarrow> subject_type \<Rightarrow> string \<Rightarrow> period \<Rightarrow> timestamp \<Rightarrow> sqlite_store \<Rightarrow> micros option" where
  "pg_period_spend cal st sid p t s =
     map_option (\<lambda>start. sum_list (map spend_micros (filter (\<lambda>r. subject_type r = st \<and> subject_id r = sid \<and>
         period r = Day \<and> micro start \<le> period_start r) (spend_rollup s))))
       (bucket_start cal p t)"

definition pg_list_budgets :: "subject_type \<Rightarrow> string \<Rightarrow> sqlite_store \<Rightarrow> budget list" where
  "pg_list_budgets st sid s =
     sort_key budget_created_at (filter (\<lambda>b. budget_subject_type b = st \<and> budget_subject_id b = sid \<and>
         budget_deleted_at b = None) (budgets s))"

definition pg_list_all_budgets :: "collation \<Rightarrow> sqlite_store \<Rightarrow> budget list" where
  "pg_list_all_budgets coll s =
     sort_key (\<lambda>b. (coll (subject_type_as_str (budget_subject_type b)), coll (budget_subject_id b),
         budget_created_at b)) (filter (\<lambda>b. budget_deleted_at b = None) (budgets s))"

text \<open>The conflict writes every column but the id and the creation time.\<close>
definition pg_upsert_budget :: "budget \<Rightarrow> sqlite_store \<Rightarrow> sqlite_store" where
  "pg_upsert_budget b s =
     (let n = b\<lparr>budget_created_at := micro (budget_created_at b), budget_updated_at := micro (budget_updated_at b),
                budget_deleted_at := micro_opt (budget_deleted_at b)\<rparr>
      in if list_ex (\<lambda>r. budget_id r = budget_id b) (budgets s)
         then s\<lparr>budgets := map (\<lambda>r. if budget_id r = budget_id b
                then n\<lparr>budget_id := budget_id r, budget_created_at := budget_created_at r\<rparr> else r) (budgets s)\<rparr>
         else s\<lparr>budgets := budgets s @ [n]\<rparr>)"

definition pg_delete_budget :: "timestamp \<Rightarrow> id \<Rightarrow> sqlite_store \<Rightarrow> sqlite_store" where
  "pg_delete_budget now i s =
     s\<lparr>budgets := map (\<lambda>b. if budget_id b = i \<and> budget_deleted_at b = None
         then b\<lparr>budget_deleted_at := Some (micro now)\<rparr> else b) (budgets s)\<rparr>"

definition pg_spend_rows :: "collation \<Rightarrow> sqlite_store \<Rightarrow> rollup_delta list" where
  "pg_spend_rows coll s =
     sort_key (\<lambda>r. (- period_start r, coll (subject_type_as_str (subject_type r)), coll (subject_id r)))
       (spend_rollup s)"

text \<open>The groups of the report are those of \<open>Sqlite_Store\<close>; a null key id sorts after every other.\<close>
definition pg_usage_report ::
  "collation \<Rightarrow> (timestamp \<Rightarrow> string) \<Rightarrow> timestamp \<Rightarrow> timestamp \<Rightarrow> sqlite_store \<Rightarrow> usage_row list" where
  "pg_usage_report coll day_of from to s =
     (let rs = filter (\<lambda>r. micro from \<le> t_created_at r \<and> t_created_at r < micro to) (request_telemetry s);
          groups = sort (remdups (map (usage_key day_of) rs))
      in map (\<lambda>g. usage_group g (filter (\<lambda>r. usage_key day_of r = g) rs))
           (sort_key (\<lambda>(d, k, u, m, srf). (coll d, k = None, map_option coll k, coll m)) groups))"

section \<open>Settings and counters\<close>

text \<open>The days are bound as an \<open>i32\<close> and read back with negative values as 0.\<close>
definition pg_set_capture_policy :: "capture_policy \<Rightarrow> sqlite_store \<Rightarrow> sqlite_store" where
  "pg_set_capture_policy p s =
     s\<lparr>capture_row := Some (p\<lparr>retention_days :=
         if sint (retention_days p) < 0 then 0 else retention_days p\<rparr>)\<rparr>"

definition pg_get_capture_policy :: "sqlite_store \<Rightarrow> capture_policy option" where
  "pg_get_capture_policy s = capture_row s"

definition pg_set_log_level :: "log_level \<Rightarrow> sqlite_store \<Rightarrow> sqlite_store" where
  "pg_set_log_level l s = s\<lparr>level_row := Some l\<rparr>"

definition pg_get_log_level :: "sqlite_store \<Rightarrow> log_level option" where
  "pg_get_log_level s = level_row s"

definition pg_incr_rate_counter ::
  "string \<Rightarrow> string \<Rightarrow> timestamp \<Rightarrow> int \<Rightarrow> sqlite_store \<Rightarrow> sqlite_store \<times> int" where
  "pg_incr_rate_counter sc dimn w n s =
     (let k = (sc, dimn, micro w)
      in case map_of (rate_counters s) k of
           Some c \<Rightarrow> (s\<lparr>rate_counters := map (\<lambda>r. if fst r = k then (k, snd r + n) else r) (rate_counters s)\<rparr>, c + n)
         | None \<Rightarrow> (s\<lparr>rate_counters := rate_counters s @ [(k, n)]\<rparr>, n))"

section \<open>Models\<close>

definition pg_list_models :: "collation \<Rightarrow> sqlite_store \<Rightarrow> model_record list" where
  "pg_list_models coll s = sort_key (coll \<circ> md_name) (model_rows s)"

definition pg_get_model :: "id \<Rightarrow> sqlite_store \<Rightarrow> model_record option" where
  "pg_get_model i s = find (\<lambda>r. md_id r = i) (model_rows s)"

definition pg_get_model_by_name :: "string \<Rightarrow> sqlite_store \<Rightarrow> model_record option" where
  "pg_get_model_by_name n s = find (\<lambda>r. md_name r = n) (model_rows s)"

text \<open>The insert returns the row that has the name, its own or the one it met.\<close>
definition pg_ensure_model ::
  "timestamp \<Rightarrow> id \<Rightarrow> string \<Rightarrow> sqlite_store \<Rightarrow> sqlite_store \<times> model_record result" where
  "pg_ensure_model now fresh name s =
     (case find (\<lambda>a. al_alias a = name) (alias_rows s) of
        Some a \<Rightarrow>
          (let owner = al_model_id a;
               target = (case pg_get_model owner s of Some m \<Rightarrow> md_name m | None \<Rightarrow> owner)
           in (s, Inl (Conflict (''\"'' @ name @ ''\" is an alias of model \"'' @ target @
                ''\"; rename it there or drop the alias''))))
      | None \<Rightarrow>
          (let r = \<lparr>md_id = fresh, md_name = name, md_created_at = micro now, md_updated_at = micro now\<rparr>
           in case pg_get_model_by_name name s of
                Some met \<Rightarrow> (s, Inr met)
              | None \<Rightarrow> if list_ex (\<lambda>m. md_id m = fresh) (model_rows s) then (s, Inl constraint_failed)
                        else (s\<lparr>model_rows := model_rows s @ [r]\<rparr>, Inr r)))"

text \<open>\<open>INSERT INTO model_aliases \<dots> ON CONFLICT(alias)\<close>, of the rename and of the upsert.\<close>
definition pg_put_alias :: "timestamp \<Rightarrow> string \<Rightarrow> id \<Rightarrow> alias_row list \<Rightarrow> alias_row list" where
  "pg_put_alias now n i rows =
     (if list_ex (\<lambda>a. al_alias a = n) rows
      then map (\<lambda>a. if al_alias a = n then a\<lparr>al_model_id := i\<rparr> else a) rows
      else rows @ [\<lparr>al_alias = n, al_model_id = i, al_created_at = micro now\<rparr>])"

definition pg_delete_alias :: "string \<Rightarrow> sqlite_store \<Rightarrow> sqlite_store" where
  "pg_delete_alias n s = s\<lparr>alias_rows := filter (\<lambda>a. al_alias a \<noteq> n) (alias_rows s)\<rparr>"

text \<open>An early return drops the transaction, which undoes it.\<close>
definition pg_rename_model ::
  "timestamp \<Rightarrow> id \<Rightarrow> string \<Rightarrow> sqlite_store \<Rightarrow> sqlite_store \<times> model_record result" where
  "pg_rename_model now i new_name s =
     (case pg_get_model i s of
        None \<Rightarrow> (s, Inl (NotFound ''model''))
      | Some current \<Rightarrow>
          if md_name current = new_name then (s, Inr current)
          else if list_ex (\<lambda>r. md_name r = new_name \<and> md_id r \<noteq> i) (model_rows s)
          then (s, Inl (Conflict (''model \"'' @ new_name @ ''\" already exists'')))
          else
            (let owner = map_option al_model_id (find (\<lambda>a. al_alias a = new_name) (alias_rows s))
             in if owner \<noteq> None \<and> owner \<noteq> Some i
                then (s, Inl (Conflict (''\"'' @ new_name @ ''\" is already an alias of another model'')))
                else
                  (let t1 = (if owner = None then s else pg_delete_alias new_name s);
                       t2 = t1\<lparr>model_rows := map (\<lambda>r. if md_id r = i
                              then r\<lparr>md_name := new_name, md_updated_at := micro now\<rparr> else r) (model_rows t1)\<rparr>;
                       t3 = t2\<lparr>alias_rows := pg_put_alias now (md_name current) i (alias_rows t2)\<rparr>
                   in (t3, ok_or (pg_get_model i t3) (NotFound ''model'')))))"

section \<open>Providers\<close>

definition pg_list_providers :: "collation \<Rightarrow> sqlite_store \<Rightarrow> provider_record list" where
  "pg_list_providers coll s = sort_key (coll \<circ> pv_name) (provider_rows s)"

definition pg_get_provider :: "id \<Rightarrow> sqlite_store \<Rightarrow> provider_record option" where
  "pg_get_provider i s = find (\<lambda>r. pv_id r = i) (provider_rows s)"

definition pg_get_provider_by_name :: "string \<Rightarrow> sqlite_store \<Rightarrow> provider_record option" where
  "pg_get_provider_by_name n s = find (\<lambda>r. pv_name r = n) (provider_rows s)"

definition pg_ensure_provider ::
  "timestamp \<Rightarrow> id \<Rightarrow> string \<Rightarrow> sqlite_store \<Rightarrow> sqlite_store \<times> provider_record result" where
  "pg_ensure_provider now fresh name s =
     (let r = \<lparr>pv_id = fresh, pv_name = name, pv_api_base = None, pv_api_key = None,
               pv_extra = extra_default, pv_created_at = micro now, pv_updated_at = micro now\<rparr>
      in case pg_get_provider_by_name name s of
           Some met \<Rightarrow> (s, Inr met)
         | None \<Rightarrow> if list_ex (\<lambda>p. pv_id p = fresh) (provider_rows s) then (s, Inl constraint_failed)
                   else (s\<lparr>provider_rows := provider_rows s @ [r]\<rparr>, Inr r))"

text \<open>\<open>COALESCE\<close> keeps the stored key where none is given.\<close>
definition pg_update_provider ::
  "timestamp \<Rightarrow> id \<Rightarrow> string \<Rightarrow> string option \<Rightarrow> string option \<Rightarrow> extra \<Rightarrow> sqlite_store \<Rightarrow>
    sqlite_store \<times> provider_record result" where
  "pg_update_provider now i name base key ex s =
     (if list_ex (\<lambda>r. pv_name r = name \<and> pv_id r \<noteq> i) (provider_rows s)
      then (s, Inl (Conflict (''provider \"'' @ name @ ''\" already exists'')))
      else
        (let t = s\<lparr>provider_rows := map (\<lambda>r. if pv_id r = i
               then r\<lparr>pv_name := name, pv_api_base := base,
                  pv_api_key := (if key = None then pv_api_key r else key),
                  pv_extra := ex, pv_updated_at := micro now\<rparr> else r) (provider_rows s)\<rparr>
         in (t, ok_or (pg_get_provider i t) (NotFound ''provider''))))"

text \<open>The references cascade the deletion to deployments, all of them tombstones, and to their health.\<close>
definition pg_delete_provider :: "id \<Rightarrow> sqlite_store \<Rightarrow> sqlite_store result" where
  "pg_delete_provider i s =
     (if list_ex (\<lambda>d. dp_provider_id d = i \<and> dp_deleted_at d = None) (deployment_rows s)
      then Inl (Conflict ''provider still has deployments; delete them first'')
      else
        (let reaped = map dp_id (filter (\<lambda>d. dp_provider_id d = i) (deployment_rows s))
         in Inr (s\<lparr>provider_rows := filter (\<lambda>r. pv_id r \<noteq> i) (provider_rows s),
               deployment_rows := filter (\<lambda>d. dp_provider_id d \<noteq> i) (deployment_rows s),
               health_rows := filter (\<lambda>h. \<not> List.member reaped (hr_deployment_id h)) (health_rows s)\<rparr>)))"

section \<open>Deployments\<close>

definition pg_join_deployment :: "sqlite_store \<Rightarrow> deployment_row \<Rightarrow> deployment_record option" where
  "pg_join_deployment s d =
     Option.bind (pg_get_model (dp_model_id d) s) (\<lambda>m.
     Option.bind (pg_get_provider (dp_provider_id d) s) (\<lambda>p.
       Some \<lparr>model_id = dp_model_id d, model_name = md_name m, provider_id = dp_provider_id d,
             provider = pv_name p, upstream_model = dp_upstream_model d, api_base = pv_api_base p,
             api_key = pv_api_key p, upstream_format = dp_upstream_format d, weight = dp_weight d,
             pricing = dp_pricing d, health_check = dp_health_check d, health_path = dp_health_path d,
             extra = pv_extra p, record_id = dp_id d, created_at = dp_created_at d,
             updated_at = dp_updated_at d, deleted_at = dp_deleted_at d\<rparr>))"

definition pg_list_deployments :: "collation \<Rightarrow> sqlite_store \<Rightarrow> deployment_record list" where
  "pg_list_deployments coll s =
     sort_key (\<lambda>r. (coll (model_name r), coll (provider r), coll (upstream_model r)))
       (List.map_filter (pg_join_deployment s) (filter (\<lambda>d. dp_deleted_at d = None) (deployment_rows s)))"

definition pg_get_deployment :: "id \<Rightarrow> sqlite_store \<Rightarrow> deployment_record option" where
  "pg_get_deployment i s =
     Option.bind (find (\<lambda>d. dp_id d = i \<and> dp_deleted_at d = None) (deployment_rows s)) (pg_join_deployment s)"

text \<open>The row of a new deployment, as it reads back.\<close>
definition pg_deployment_row ::
  "timestamp \<Rightarrow> id \<Rightarrow> new_deployment \<Rightarrow> id \<Rightarrow> id \<Rightarrow> deployment_row" where
  "pg_deployment_row now i nd m p =
     \<lparr>dp_id = i, dp_model_id = m, dp_provider_id = p, dp_upstream_model = nd_upstream_model nd,
      dp_upstream_format = nd_upstream_format nd, dp_weight = pg_weight (nd_weight nd),
      dp_pricing = nd_pricing nd, dp_health_check = nd_health_check nd, dp_health_path = nd_health_path nd,
      dp_created_at = micro now, dp_updated_at = micro now, dp_deleted_at = None\<rparr>"

text \<open>A live deployment of that model, provider and upstream model.\<close>
definition pg_has_deployment :: "id \<Rightarrow> id \<Rightarrow> string \<Rightarrow> sqlite_store \<Rightarrow> bool" where
  "pg_has_deployment m p up s \<longleftrightarrow>
     list_ex (\<lambda>d. dp_model_id d = m \<and> dp_provider_id d = p \<and> dp_upstream_model d = up \<and>
       dp_deleted_at d = None) (deployment_rows s)"

definition pg_create_deployment ::
  "timestamp \<Rightarrow> fresh_ids \<Rightarrow> new_deployment \<Rightarrow> sqlite_store \<Rightarrow> sqlite_store \<times> deployment_record result" where
  "pg_create_deployment now ids nd s =
     (case ids of (im, ip, i) \<Rightarrow>
        then_run (pg_ensure_model now im (nd_model_name nd) s) (\<lambda>m s1.
        then_run (pg_ensure_provider now ip (nd_provider_name nd) s1) (\<lambda>p s2.
          if list_ex (\<lambda>d. dp_id d = i) (deployment_rows s2) \<or>
             pg_has_deployment (md_id m) (pv_id p) (nd_upstream_model nd) s2
          then (s2, Inl constraint_failed)
          else if \<not> list_ex (\<lambda>r. md_id r = md_id m) (model_rows s2) \<or>
                  \<not> list_ex (\<lambda>r. pv_id r = pv_id p) (provider_rows s2)
          then (s2, Inl foreign_key_failed)
          else
            (let s3 = s2\<lparr>deployment_rows := deployment_rows s2 @ [pg_deployment_row now i nd (md_id m) (pv_id p)]\<rparr>
             in (s3, ok_or (pg_get_deployment i s3) (NotFound ''deployment''))))))"

definition pg_delete_deployment :: "timestamp \<Rightarrow> id \<Rightarrow> sqlite_store \<Rightarrow> sqlite_store" where
  "pg_delete_deployment now i s =
     s\<lparr>deployment_rows := map (\<lambda>d. if dp_id d = i \<and> dp_deleted_at d = None
         then d\<lparr>dp_deleted_at := Some (micro now)\<rparr> else d) (deployment_rows s)\<rparr>"

definition pg_seed_deployment ::
  "timestamp \<Rightarrow> id \<times> id \<Rightarrow> fresh_ids \<Rightarrow> new_deployment \<Rightarrow> sqlite_store \<Rightarrow> sqlite_store \<times> bool result" where
  "pg_seed_deployment now ids ids2 nd s =
     then_run (pg_ensure_model now (fst ids) (nd_model_name nd) s) (\<lambda>m s1.
     then_run (pg_ensure_provider now (snd ids) (nd_provider_name nd) s1) (\<lambda>p s2.
       if pg_has_deployment (md_id m) (pv_id p) (nd_upstream_model nd) s2 then (s2, Inr False)
       else then_run (pg_create_deployment now ids2 nd s2) (\<lambda>_ s3. (s3, Inr True))))"

section \<open>Health\<close>

definition pg_list_health :: "sqlite_store \<Rightarrow> health_record list" where
  "pg_list_health s = health_rows s"

text \<open>A latency that does not fit the \<open>i64\<close> it is bound as is negative there, and read back as 0.\<close>
definition pg_record_health :: "health_record \<Rightarrow> sqlite_store \<Rightarrow> sqlite_store result" where
  "pg_record_health h s =
     (let n = h\<lparr>hr_latency_ms := if hr_latency_ms h < 2 ^ 63 then hr_latency_ms h else 0,
                checked_at := micro (checked_at h)\<rparr>
      in if \<not> list_ex (\<lambda>d. dp_id d = hr_deployment_id h) (deployment_rows s) then Inl foreign_key_failed
         else if list_ex (\<lambda>r. hr_deployment_id r = hr_deployment_id h) (health_rows s)
         then Inr (s\<lparr>health_rows := map (\<lambda>r. if hr_deployment_id r = hr_deployment_id h then n else r)
                (health_rows s)\<rparr>)
         else Inr (s\<lparr>health_rows := health_rows s @ [n]\<rparr>))"

section \<open>Aliases\<close>

definition pg_join_alias :: "sqlite_store \<Rightarrow> alias_row \<Rightarrow> model_alias option" where
  "pg_join_alias s a =
     map_option (\<lambda>m. \<lparr>alias_name = al_alias a, alias_model_id = al_model_id a, alias_target = md_name m,
         alias_created_at = al_created_at a\<rparr>) (pg_get_model (al_model_id a) s)"

definition pg_list_aliases :: "collation \<Rightarrow> sqlite_store \<Rightarrow> model_alias list" where
  "pg_list_aliases coll s = sort_key (coll \<circ> alias_name) (List.map_filter (pg_join_alias s) (alias_rows s))"

definition pg_upsert_alias ::
  "timestamp \<Rightarrow> string \<Rightarrow> id \<Rightarrow> sqlite_store \<Rightarrow> sqlite_store \<times> model_alias result" where
  "pg_upsert_alias now n i s =
     (if \<not> list_ex (\<lambda>r. md_id r = i) (model_rows s) then (s, Inl foreign_key_failed)
      else
        (let t = s\<lparr>alias_rows := pg_put_alias now n i (alias_rows s)\<rparr>
         in (t, ok_or (Option.bind (find (\<lambda>a. al_alias a = n) (alias_rows t)) (pg_join_alias t))
                (Storage ''no rows returned by a query that expected to return at least one row''))))"

section \<open>The two dialects\<close>

text \<open>
  A statement of this store is the statement of the SQLite store on the arguments its columns can hold.
\<close>

named_theorems dialect \<open>a statement in the terms of the SQLite store\<close>

lemma list_ex_key: "list_ex (\<lambda>r. key r = k) rows \<longleftrightarrow> k \<in> key ` set rows"
  by (auto simp: list_ex_iff)

lemma list_ex_key2: "list_ex (\<lambda>r. f r = a \<and> g r = b) rows \<longleftrightarrow> (a, b) \<in> (\<lambda>r. (f r, g r)) ` set rows"
  by (auto simp: list_ex_iff)

lemma list_ex_key_or: "list_ex (\<lambda>r. f r = a \<or> g r = b) rows \<longleftrightarrow> a \<in> f ` set rows \<or> b \<in> g ` set rows"
  by (auto simp: list_ex_iff)

abbreviation cut_user :: "user \<Rightarrow> user" where
  "cut_user u \<equiv> u\<lparr>user_created_at := micro (user_created_at u), last_login_at := micro_opt (last_login_at u),
     user_deleted_at := micro_opt (user_deleted_at u)\<rparr>"

abbreviation cut_session :: "session \<Rightarrow> session" where
  "cut_session x \<equiv> x\<lparr>session_created_at := micro (session_created_at x),
     session_expires_at := micro (session_expires_at x)\<rparr>"

lemma user_dialect [dialect]:
  "pg_create_user u = create_user (cut_user u)"
  "pg_set_user_password i h = set_user_password i h" "pg_set_user_role i r = set_user_role i r"
  "pg_set_user_limits i l = set_user_limits i l" "pg_mark_user_login now i = mark_user_login (micro now) i"
  "pg_delete_user now i = delete_user (micro now) i"
  "pg_get_user = get_user" "pg_get_user_by_username = get_user_by_username"
  "pg_count_users = count_users" "pg_count_admins = count_admins"
  by (simp_all add: fun_eq_iff pg_create_user_def create_user_def list_ex_key image_iff list_ex_iff Bex_def
      pg_set_user_password_def set_user_password_def pg_set_user_role_def set_user_role_def
      pg_set_user_limits_def set_user_limits_def pg_mark_user_login_def mark_user_login_def
      pg_delete_user_def delete_user_def update_where_def live_user_def pg_get_user_def get_user_def
      pg_get_user_by_username_def get_user_by_username_def pg_count_users_def count_users_def
      pg_count_admins_def count_admins_def)

lemma session_dialect [dialect]:
  "pg_create_session x = create_session (cut_session x)"
  "pg_get_session now tk = get_session (micro now) tk" "pg_delete_session tk = delete_session tk"
  by (simp_all add: fun_eq_iff pg_create_session_def create_session_def list_ex_key pg_get_session_def get_session_def
      pg_delete_session_def delete_session_def)

abbreviation cut_key :: "api_key \<Rightarrow> api_key" where
  "cut_key k \<equiv> k\<lparr>key_created_at := micro (key_created_at k), last_used_at := micro_opt (last_used_at k),
     key_deleted_at := micro_opt (key_deleted_at k)\<rparr>"

abbreviation cut_external :: "external_key \<Rightarrow> external_key" where
  "cut_external k \<equiv> k\<lparr>ext_created_at := micro (ext_created_at k), ext_last_used_at := micro_opt (ext_last_used_at k)\<rparr>"

lemma pg_key_row_stored: "pg_key_row k = stored_key (cut_key k)"
  by (simp add: pg_key_row_def stored_key_def)

lemma key_dialect [dialect]:
  "pg_create_api_key k = create_api_key (cut_key k)"
  "pg_verify_api_key h = verify_api_key h" "pg_get_api_key = get_api_key"
  "pg_list_api_keys = list_api_keys" "pg_list_api_keys_for_user = list_api_keys_for_user"
  "pg_mark_api_key_used now i = mark_api_key_used (micro now) i"
  "pg_delete_api_key now i = delete_api_key (micro now) i"
  "pg_update_api_key_access i pol = update_api_key_access i pol"
  "pg_update_api_key_limits i l = update_api_key_limits i l" "pg_rename_api_key i n = rename_api_key i n"
  by (auto simp: fun_eq_iff pg_create_api_key_def create_api_key_def list_ex_key_or pg_key_row_stored
      pg_verify_api_key_def verify_api_key_def user_dialect pg_get_api_key_def get_api_key_def pg_list_api_keys_def
      list_api_keys_def pg_list_api_keys_for_user_def list_api_keys_for_user_def update_where_def
      pg_mark_api_key_used_def mark_api_key_used_def pg_delete_api_key_def delete_api_key_def
      pg_update_api_key_access_def update_api_key_access_def pg_update_api_key_limits_def
      update_api_key_limits_def pg_rename_api_key_def rename_api_key_def split: option.split)

lemma external_key_dialect [dialect]:
  "pg_upsert_external_key e = upsert_external_key (cut_external e)"
  "pg_delete_external_key u pr = delete_external_key u pr"
  by (auto simp: fun_eq_iff pg_upsert_external_key_def upsert_external_key_def upsert_by_def list_ex_key2
      list_ex_key update_where_def Let_def pg_delete_external_key_def delete_external_key_def)

abbreviation cut_team :: "team \<Rightarrow> team" where
  "cut_team t \<equiv> t\<lparr>tm_created_at := micro (tm_created_at t), tm_updated_at := micro (tm_updated_at t),
     tm_deleted_at := micro_opt (tm_deleted_at t)\<rparr>"

lemma team_dialect [dialect]:
  "pg_create_team t = create_team (cut_team t)" "pg_get_team = get_team" "pg_list_teams = list_teams"
  "pg_delete_team now i = delete_team (micro now) i"
  "pg_update_team_access now i pol = update_team_access (micro now) i pol"
  "pg_upsert_membership x = upsert_membership (x\<lparr>mb_created_at := micro (mb_created_at x)\<rparr>)"
  "pg_list_memberships_for_user = list_memberships_for_user" "pg_list_team_members = list_team_members"
  "pg_delete_membership i j = delete_membership i j"
  by (auto simp: fun_eq_iff pg_create_team_def create_team_def list_ex_key pg_get_team_def get_team_def
      pg_list_teams_def list_teams_def pg_delete_team_def delete_team_def pg_update_team_access_def
      update_team_access_def update_where_def pg_upsert_membership_def upsert_membership_def list_ex_key2
      pg_list_memberships_for_user_def list_memberships_for_user_def pg_list_team_members_def
      list_team_members_def pg_delete_membership_def delete_membership_def)

abbreviation cut_telemetry :: "telemetry_record \<Rightarrow> telemetry_record" where
  "cut_telemetry r \<equiv> r\<lparr>t_created_at := micro (t_created_at r)\<rparr>"

abbreviation cut_budget :: "budget \<Rightarrow> budget" where
  "cut_budget b \<equiv> b\<lparr>budget_created_at := micro (budget_created_at b), budget_updated_at := micro (budget_updated_at b),
     budget_deleted_at := micro_opt (budget_deleted_at b)\<rparr>"

text \<open>Where the primary key holds, adding to the first row of a key is adding to the row of that key.\<close>
lemma upsert_rollup_map:
  "distinct (map row_key rows) \<Longrightarrow> upsert_rollup rows d =
     (if row_key d \<in> row_key ` set rows then map (\<lambda>r. if row_key r = row_key d then add_row r d else r) rows
      else rows @ [d])"
proof (induction rows d rule: upsert_rollup.induct)
  case (2 row rows d)
  then show ?case by (auto simp: same_key_row_key image_iff intro!: map_idI [symmetric])
qed simp

lemma rollup_dialect:
  assumes "distinct (map row_key (spend_rollup s))"
  shows "pg_upsert_rollup d s = store_upsert_rollup (d\<lparr>period_start := micro (period_start d)\<rparr>) s"
proof -
  let ?n = "d\<lparr>period_start := micro (period_start d)\<rparr>"
  have same: "subject_type r = subject_type ?n \<and> subject_id r = subject_id ?n \<and> period r = period ?n \<and>
      period_start r = period_start ?n \<longleftrightarrow> row_key r = row_key ?n" for r :: rollup_delta
    by (simp add: row_key_def)
  show ?thesis
    unfolding pg_upsert_rollup_def store_upsert_rollup_def Let_def same list_ex_key upsert_rollup_map [OF assms]
    by (simp add: add_row_def cong: if_cong)
qed

lemma ledger_dialect [dialect]:
  "pg_insert_telemetry r = insert_telemetry (cut_telemetry r)"
  "pg_list_budgets = list_budgets"
  "pg_upsert_budget b = upsert_budget (cut_budget b)" "pg_delete_budget now i = delete_budget (micro now) i"
  "pg_set_capture_policy cp = set_capture_policy cp" "pg_get_capture_policy = get_capture_policy"
  "pg_set_log_level lv = set_log_level lv" "pg_get_log_level = get_log_level"
  by (auto simp: fun_eq_iff pg_insert_telemetry_def insert_telemetry_def list_ex_key pg_list_budgets_def
      list_budgets_def pg_upsert_budget_def upsert_budget_def upsert_by_def update_where_def Let_def
      pg_delete_budget_def delete_budget_def pg_set_capture_policy_def set_capture_policy_def
      pg_get_capture_policy_def get_capture_policy_def pg_set_log_level_def set_log_level_def
      pg_get_log_level_def get_log_level_def)

lemma counter_dialect:
  assumes "distinct (map fst (rate_counters s))"
  shows "pg_incr_rate_counter sc dm w n s = incr_rate_counter sc dm (micro w) n s"
proof -
  let ?k = "(sc, dm, micro w)"
  let ?rows = "rate_counters s"
  show ?thesis
  proof (cases "map_of ?rows ?k")
    case None
    then have "?k \<notin> fst ` set ?rows" by (simp add: map_of_eq_None_iff)
    with None show ?thesis
      by (simp add: pg_incr_rate_counter_def incr_rate_counter_def upsert_by_def Let_def map_add_def)
  next
    case (Some c)
    then have in_rows: "?k \<in> fst ` set ?rows" by (metis domI dom_map_of_conv_image_fst)
    have "map_of (map (\<lambda>r. if fst r = ?k then (?k, snd r + n) else r) rows) ?k =
        map_option (\<lambda>c. c + n) (map_of rows ?k)" for rows
      by (induction rows) auto
    with Some in_rows show ?thesis
      by (simp add: pg_incr_rate_counter_def incr_rate_counter_def upsert_by_def update_where_def Let_def
          cong: if_cong)
  qed
qed

lemma put_alias_dialect [dialect]: "pg_put_alias now n i = put_alias (micro now) n i"
  by (auto simp: fun_eq_iff pg_put_alias_def put_alias_def upsert_by_def update_where_def list_ex_key)

lemma model_dialect [dialect]:
  "pg_get_model = get_model" "pg_get_model_by_name = get_model_by_name"
  "pg_ensure_model now fresh n = ensure_model (micro now) fresh n" "pg_delete_alias n = delete_alias n"
  by (auto simp: fun_eq_iff pg_get_model_def get_model_def pg_get_model_by_name_def get_model_by_name_def
      pg_ensure_model_def ensure_model_def alias_owner_def list_ex_key Let_def pg_delete_alias_def delete_alias_def
      split: option.split)

lemma rename_dialect [dialect]: "pg_rename_model now i n = rename_model (micro now) i n"
  by (auto simp: fun_eq_iff pg_rename_model_def rename_model_def model_dialect put_alias_dialect alias_owner_def
      update_where_def Let_def delete_alias_def split: option.split)

lemma provider_dialect [dialect]:
  "pg_get_provider = get_provider" "pg_get_provider_by_name = get_provider_by_name"
  "pg_ensure_provider now fresh n = ensure_provider (micro now) fresh n"
  "pg_update_provider now i n b k x = update_provider (micro now) i n b k x"
  "pg_delete_provider i = delete_provider i"
proof -
  have coalesce: "(if k = None then d else k) = (case k of Some y \<Rightarrow> Some y | None \<Rightarrow> d)" for d :: "string option"
    by (cases k) auto
  show "pg_get_provider = get_provider" "pg_get_provider_by_name = get_provider_by_name"
    "pg_ensure_provider now fresh n = ensure_provider (micro now) fresh n"
    by (auto simp: fun_eq_iff pg_get_provider_def get_provider_def pg_get_provider_by_name_def
        get_provider_by_name_def pg_ensure_provider_def ensure_provider_def list_ex_key Let_def split: option.split)
  then show "pg_update_provider now i n b k x = update_provider (micro now) i n b k x"
    by (simp add: fun_eq_iff pg_update_provider_def update_provider_def update_where_def Let_def coalesce cong: if_cong)
  show "pg_delete_provider i = delete_provider i"
    by (auto simp: fun_eq_iff pg_delete_provider_def delete_provider_def Let_def)
qed

abbreviation cut_new :: "new_deployment \<Rightarrow> new_deployment" where
  "cut_new nd \<equiv> nd\<lparr>nd_weight := pg_weight (nd_weight nd)\<rparr>"

lemma join_dialect [dialect]: "pg_join_deployment = join_deployment" "pg_get_deployment = get_deployment"
  "pg_join_alias = join_alias"
  by (auto simp: fun_eq_iff pg_join_deployment_def join_deployment_def model_dialect provider_dialect
      pg_get_deployment_def get_deployment_def pg_join_alias_def join_alias_def split: option.split)

lemma pg_has_deployment_identity:
  "pg_has_deployment m p up s \<longleftrightarrow>
     list_ex (\<lambda>d. deployment_identity d = (m, p, up) \<and> dp_deleted_at d = None) (deployment_rows s)"
  by (simp add: pg_has_deployment_def deployment_identity_def)

lemma deployment_dialect [dialect]:
  "pg_create_deployment now ids nd = create_deployment (micro now) ids (cut_new nd)"
  "pg_seed_deployment now ids2 ids nd = seed_deployment (micro now) ids2 ids (cut_new nd)"
  "pg_delete_deployment now i = delete_deployment (micro now) i"
proof -
  have create: "pg_create_deployment now ids nd = create_deployment (micro now) ids (cut_new nd)" for ids
    by (auto simp: fun_eq_iff pg_create_deployment_def create_deployment_def model_dialect provider_dialect join_dialect
        insert_deployment_def pg_deployment_row_def pg_has_deployment_identity list_ex_key keep_on_error_def
        then_run_def deployment_identity_def Let_def split: prod.split sum.split)
  then show "pg_create_deployment now ids nd = create_deployment (micro now) ids (cut_new nd)" .
  show "pg_seed_deployment now ids2 ids nd = seed_deployment (micro now) ids2 ids (cut_new nd)"
    by (rule ext) (simp add: pg_seed_deployment_def seed_deployment_def model_dialect provider_dialect
        pg_has_deployment_identity create cong: if_cong)
  show "pg_delete_deployment now i = delete_deployment (micro now) i"
    by (simp add: fun_eq_iff pg_delete_deployment_def delete_deployment_def update_where_def)
qed

abbreviation cut_health :: "health_record \<Rightarrow> health_record" where
  "cut_health h \<equiv> h\<lparr>checked_at := micro (checked_at h)\<rparr>"

lemma health_dialect [dialect]:
  "pg_list_health = list_health" "pg_record_health h = record_health (cut_health h)"
  "pg_upsert_alias now n i = upsert_alias (micro now) n i"
  by (auto simp: fun_eq_iff pg_list_health_def list_health_def pg_record_health_def record_health_def
      upsert_by_def update_where_def list_ex_key Let_def pg_upsert_alias_def upsert_alias_def
      put_alias_dialect join_dialect)

text \<open>The directory of names is that of \<open>Store_Laws\<close>, run by the statements of this dialect.\<close>
interpretation postgres_names: name_directory names_ok directory pg_ensure_model pg_rename_model
proof
  fix now i n s s' res r
  assume ok: "names_ok s"
  show "pg_ensure_model now i n s = (s', res) \<Longrightarrow>
      names_ok s' \<and> (case res of Inl e \<Rightarrow> directory s' = directory s | Inr r \<Rightarrow> directory s' = (directory s)(n \<mapsto> md_id r))"
    using sqlite_names.create_ok [OF ok] by (simp add: dialect)
  show "pg_ensure_model now i n s = (s', Inr r) \<Longrightarrow> directory s n \<in> {None, Some (md_id r)}"
    using sqlite_names.create_grows [OF ok] by (simp add: dialect)
  show "pg_rename_model now i n s = (s', res) \<Longrightarrow>
      names_ok s' \<and> (case res of Inl e \<Rightarrow> directory s' = directory s | Inr r \<Rightarrow> md_id r = i \<and> directory s' = (directory s)(n \<mapsto> i))"
    using sqlite_names.rename_ok [OF ok] by (simp add: dialect)
  show "pg_rename_model now i n s = (s', Inr r) \<Longrightarrow> directory s n \<in> {None, Some i}"
    using sqlite_names.rename_grows [OF ok] by (simp add: dialect)
qed

section \<open>Steps\<close>

inductive pg_step :: "sqlite_store \<Rightarrow> sqlite_store \<Rightarrow> bool" where
  "pg_create_user u s = Inr s' \<Longrightarrow> pg_step s s'"
| "pg_step s (pg_set_user_password i h s)"
| "pg_step s (pg_set_user_role i r s)"
| "pg_step s (pg_set_user_limits i l s)"
| "pg_step s (pg_mark_user_login now i s)"
| "pg_step s (pg_delete_user now i s)"
| "pg_create_session x s = Inr s' \<Longrightarrow> pg_step s s'"
| "pg_step s (pg_delete_session tk s)"
| "pg_create_api_key k s = Inr s' \<Longrightarrow> pg_step s s'"
| "pg_step s (pg_mark_api_key_used now i s)"
| "pg_step s (pg_delete_api_key now i s)"
| "pg_step s (pg_update_api_key_access i pol s)"
| "pg_step s (pg_update_api_key_limits i l s)"
| "pg_step s (pg_rename_api_key i n s)"
| "pg_upsert_external_key e s = Inr s' \<Longrightarrow> pg_step s s'"
| "pg_step s (pg_delete_external_key u pr s)"
| "pg_create_team t s = Inr s' \<Longrightarrow> pg_step s s'"
| "pg_step s (pg_delete_team now i s)"
| "pg_step s (pg_update_team_access now i pol s)"
| "pg_upsert_membership x s = Inr s' \<Longrightarrow> pg_step s s'"
| "pg_step s (pg_delete_membership i j s)"
| "pg_insert_telemetry r s = Inr s' \<Longrightarrow> pg_step s s'"
| "pg_step s (pg_upsert_rollup d s)"
| "pg_step s (pg_upsert_budget b s)"
| "pg_step s (pg_delete_budget now i s)"
| "pg_step s (pg_set_capture_policy cp s)"
| "pg_step s (pg_set_log_level lv s)"
| "pg_step s (fst (pg_incr_rate_counter sc dm w c s))"
| "pg_step s (fst (pg_ensure_model now fresh n s))"
| "pg_step s (fst (pg_rename_model now i n s))"
| "pg_step s (fst (pg_ensure_provider now fresh n s))"
| "pg_step s (fst (pg_update_provider now i n b k x s))"
| "pg_delete_provider i s = Inr s' \<Longrightarrow> pg_step s s'"
| "pg_step s (fst (pg_create_deployment now ids nd s))"
| "pg_step s (pg_delete_deployment now i s)"
| "pg_step s (fst (pg_seed_deployment now ids2 ids nd s))"
| "pg_record_health h s = Inr s' \<Longrightarrow> pg_step s s'"
| "pg_step s (fst (pg_upsert_alias now n i s))"
| "pg_step s (pg_delete_alias n s)"

text \<open>Every step is a step of the SQLite store, where the tables keep their keys.\<close>
lemma pg_step_store_step: "pg_step s s' \<Longrightarrow> store_ok s \<Longrightarrow> store_step s s'"
  by (induction rule: pg_step.induct)
     (auto simp: dialect rollup_dialect counter_dialect store_ok_def intro: store_step.intros)

lemma pg_steps_store_steps: "pg_step\<^sup>*\<^sup>* s s' \<Longrightarrow> store_ok s \<Longrightarrow> store_step\<^sup>*\<^sup>* s s' \<and> store_ok s'"
  by (induction rule: rtranclp_induct) (auto intro: rtranclp.rtrancl_into_rtrancl pg_step_store_step store_step_ok)

lemma pg_reachable: "pg_step\<^sup>*\<^sup>* empty_store s \<Longrightarrow> store_step\<^sup>*\<^sup>* empty_store s"
  using pg_steps_store_steps store_ok_empty by blast

section \<open>What a PostgreSQL store answers\<close>

lemma micro_le: "micro t \<le> t" "t < micro t + 1000"
  by (simp_all add: micro_def)

lemma micro_mono: "t \<le> u \<Longrightarrow> micro t \<le> micro u"
  by (simp add: micro_def minus_mod_eq_div_mult zdiv_mono1)

lemma micro_whole: "1000 dvd t \<Longrightarrow> micro t = t"
  by (simp add: micro_def)

text \<open>A period begins at a midnight, which a column holds as it is.\<close>
lemma bucket_start_whole:
  assumes "0 \<le> t" "bucket_start gregorian p t = Some x"
  shows "micro x = x"
proof (rule micro_whole)
  have nanos: "1000 dvd day_nanos" "1000 dvd c * day_nanos" "1000 dvd (t - t mod day_nanos)" for c
    using dvd_trans [of 1000 day_nanos "t - t mod day_nanos"] by (auto simp: dvd_minus_mod)
  show "1000 dvd x"
  proof (cases p)
    case Day
    then show ?thesis using assms nanos(3) by (simp add: utc.day_start del: bucket_start.simps)
  next
    case Week
    then show ?thesis using assms nanos
      by (auto simp: utc.week_start simp del: bucket_start.simps intro!: dvd_diff)
  next
    case Month
    then show ?thesis using assms nanos
      by (auto simp: utc.month_start simp del: bucket_start.simps intro!: dvd_diff)
  qed (use assms in simp)
qed

lemma period_spend_dialect:
  assumes "0 \<le> t"
  shows "pg_period_spend gregorian st sid p t s = store_period_spend gregorian st sid p t s"
  using bucket_start_whole [OF assms]
  by (cases "bucket_start gregorian p t") (auto simp: pg_period_spend_def store_period_spend_def period_spend_def)

text \<open>Each list has the rows of its SQLite list, in an order of its own.\<close>
lemma list_dialect:
  "mset (pg_list_users coll s) = mset (list_users s)"
  "mset (pg_list_external_keys coll u s) = mset (list_external_keys u s)"
  "mset (pg_list_all_budgets coll s) = mset (list_all_budgets s)"
  "mset (pg_spend_rows coll s) = mset (spend_rows s)"
  "mset (pg_list_models coll s) = mset (list_models s)"
  "mset (pg_list_providers coll s) = mset (list_providers s)"
  "mset (pg_list_deployments coll s) = mset (list_deployments s)"
  "mset (pg_list_aliases coll s) = mset (list_aliases s)"
  "mset (pg_usage_report coll day_of from to s) = mset (usage_report day_of (micro from) (micro to) s)"
  by (simp_all add: pg_list_users_def list_users_def pg_list_external_keys_def list_external_keys_def
      pg_list_all_budgets_def list_all_budgets_def pg_spend_rows_def spend_rows_def pg_list_models_def
      list_models_def pg_list_providers_def list_providers_def pg_list_deployments_def list_deployments_def
      join_dialect pg_list_aliases_def list_aliases_def pg_usage_report_def usage_report_def Let_def)

text \<open>C21: Every state a PostgreSQL store reaches is one the SQLite store reaches, by the same
  statements on the arguments the columns can hold, so it keeps the invariant of the tables; in it
  a token authenticates as it would there, a key that is deleted stops doing so, the lists and the
  usage report hold the same rows, and the spend of a period that budgets are held against is the
  same.\<close>
theorem postgres_refines_sqlite:
  assumes "pg_step\<^sup>*\<^sup>* empty_store s" "0 \<le> t"
  shows "store_step\<^sup>*\<^sup>* empty_store s \<and> store_ok s \<and>
    pg_verify_api_key h s = verify_api_key h s \<and>
    pg_verify_api_key h (pg_delete_api_key now i s) =
      (case verify_api_key h s of
         Some a \<Rightarrow> if key_id (auth_key a) = i then None else Some a | None \<Rightarrow> None) \<and>
    mset (pg_list_deployments coll s) = mset (list_deployments s) \<and>
    mset (pg_list_aliases coll s) = mset (list_aliases s) \<and>
    mset (pg_usage_report coll day_of from to s) = mset (usage_report day_of (micro from) (micro to) s) \<and>
    pg_period_spend gregorian st sid p t s = store_period_spend gregorian st sid p t s"
proof (intro conjI)
  show reach: "store_step\<^sup>*\<^sup>* empty_store s" using assms(1) by (rule pg_reachable)
  then show ok: "store_ok s" by (rule reachable_ok)
  show "pg_verify_api_key h s = verify_api_key h s" by (simp add: dialect)
  show "pg_verify_api_key h (pg_delete_api_key now i s) =
      (case verify_api_key h s of
         Some a \<Rightarrow> if key_id (auth_key a) = i then None else Some a | None \<Rightarrow> None)"
    unfolding dialect by (rule verify_after_delete_key [OF ok])
qed (rule list_dialect period_spend_dialect [OF assms(2)])+

lemma sample_store_pg_reachable: "pg_step\<^sup>*\<^sup>* empty_store sample_store"
proof -
  let ?s1 = "empty_store\<lparr>users := [control_user 0 ''u1'']\<rparr>"
  have "pg_step empty_store ?s1"
    by (rule pg_step.intros(1) [of "control_user 0 ''u1''"])
       (simp add: pg_create_user_def empty_store_def micro_def control_user_def)
  moreover have "pg_step ?s1 sample_store"
    by (rule pg_step.intros(9) [of "control_key id 0 ''k1'' ''u1'' ''a''"])
       (simp add: dialect create_api_key_def sample_store_def empty_store_def micro_def control_key_def)
  ultimately show ?thesis by auto
qed

theorem postgres_refines_sqlite_witness:
  "store_ok sample_store \<and> pg_verify_api_key (to_hex ''a'') sample_store \<noteq> None \<and>
   pg_verify_api_key (to_hex ''a'') (pg_delete_api_key 5 ''k1'' sample_store) = None"
proof -
  have "verify_api_key (to_hex ''a'') sample_store = Some \<lparr>auth_user = control_user 0 ''u1'',
     auth_key = stored_key (control_key id 0 ''k1'' ''u1'' ''a'')\<rparr>"
    by (simp add: sample_store_def empty_store_def verify_api_key_def control_key_def hash_token_def stored_key_def
        get_user_def control_user_def)
  then show ?thesis
    using postgres_refines_sqlite [OF sample_store_pg_reachable, of 0 "to_hex ''a''" 5 "''k1''"]
    by (simp add: control_key_def stored_key_def)
qed

text \<open>A session is served until its expiry and never after: cutting times loses it at most the last
  microsecond.\<close>
theorem pg_session_expiry:
  assumes "pg_create_session x s = Inr s'"
  shows "pg_get_session now (session_token x) s' \<noteq> None \<Longrightarrow> now < session_expires_at x"
    and "now + 1000 \<le> session_expires_at x \<Longrightarrow>
      pg_get_session now (session_token x) s' = Some (cut_session x)"
proof -
  have fresh: "session_token x \<notin> session_token ` set (sessions s)" and s': "sessions s' = sessions s @ [cut_session x]"
    using assms by (auto simp: dialect create_session_def split: if_splits)
  have "find (\<lambda>y. session_token y = session_token x \<and> micro now < session_expires_at y) (sessions s) = None"
    unfolding find_None_iff using fresh by (metis image_eqI)
  then have get: "pg_get_session now (session_token x) s' =
      (if micro now < micro (session_expires_at x) then Some (cut_session x) else None)"
    by (simp add: pg_get_session_def s' find_snoc)
  show "pg_get_session now (session_token x) s' \<noteq> None \<Longrightarrow> now < session_expires_at x"
    using micro_mono [of "session_expires_at x" now] by (simp add: get split: if_splits) (meson not_le)
  show "now + 1000 \<le> session_expires_at x \<Longrightarrow> pg_get_session now (session_token x) s' = Some (cut_session x)"
    using micro_le(1) [of now] micro_le(2) [of "session_expires_at x"] by (simp add: get)
qed

text \<open>
  The weight of a deployment is not kept: the column is an \<open>INTEGER\<close>, and from 2^31 on, which the
  SQLite store keeps, it comes back as 0.
\<close>
lemma create_deployment_weight:
  assumes "create_deployment now ids nd s = (s', Inr r)"
  shows "weight r = nd_weight nd"
proof -
  obtain im ip i where ids: "ids = (im, ip, i)" by (cases ids) auto
  from assms obtain s2 mo pr s3 where
    ins: "insert_deployment now i nd mo pr s2 = Inr s3" and get: "get_deployment i s3 = Some r"
    unfolding create_deployment_def ids prod.case
    by (auto elim!: then_run_Inr simp: keep_on_error_def ok_or_def split: sum.splits option.splits)
  from ins obtain d where d: "deployment_rows s3 = deployment_rows s2 @ [d]" "dp_id d = i" "dp_weight d = nd_weight nd"
    "i \<notin> dp_id ` set (deployment_rows s2)"
    by (auto simp: insert_deployment_def Let_def split: if_splits)
  have "find (\<lambda>d. dp_id d = i \<and> dp_deleted_at d = None) (deployment_rows s2) = None"
    using d(4) by (auto simp: find_None_iff)
  with get d show ?thesis
    by (auto simp: get_deployment_def find_snoc join_deployment_def split: option.splits if_splits)
qed

theorem pg_weight_lost:
  assumes "pg_create_deployment now ids nd s = (s', Inr r)"
  shows "weight r = (if 2 ^ 31 \<le> uint (nd_weight nd) then 0 else nd_weight nd)"
proof -
  have "sint w < 0 \<longleftrightarrow> 2 ^ 31 \<le> uint w" for w :: "32 word"
  proof -
    have w: "sint w = signed_take_bit 31 (uint w)" "0 \<le> uint w" "uint w < 2 ^ 32"
      using uint_lt2p [of w] by (simp_all add: sint_uint)
    show ?thesis
    proof (cases "2 ^ 31 \<le> uint w")
      case True
      then have "sint w \<le> uint w - 2 ^ Suc 31" unfolding w(1) by (rule signed_take_bit_int_less_eq)
      with w(3) have "sint w < 0" by simp
      with True show ?thesis by blast
    next
      case False
      moreover have "- (2 ^ 31) \<le> uint w" by (rule order_trans [OF _ w(2)]) simp
      ultimately have "sint w = uint w" unfolding w(1) by (intro signed_take_bit_int_eq_self) simp_all
      with False w show ?thesis by simp
    qed
  qed
  then show ?thesis using create_deployment_weight [of "micro now" ids "cut_new nd" s s' r] assms
    by (simp add: dialect pg_weight_def)
qed

end
