(* ===== verification/Commands.thy ===== *)
theory Commands
  imports Admin_Laws Request_Log "HOL-Library.AList"
begin

text \<open>
  The commands of the process (\<open>crates/yb-bin/src/main.rs\<close>): setup, the role of a user, the import of a
  models file, what a start assembles and the log filter, with the configuration they read (\<open>yb-core/src/config.rs\<close>) and
  the encryption of secrets (\<open>yb-store/src/crypto.rs\<close>).

  Arguments of the model: the text of files and its TOML, the environment, the Argon2 hash, base64 and
  the AES-GCM cipher, the clock and fresh ids. The store a command runs on is the state; statements are
  those of \<open>Sqlite_Store\<close>, to which the other store is refined. What a command prints is left out, but for
  the warnings of the import. A command runs as one step.
\<close>

section \<open>Configuration\<close>

datatype deployment_mode = Selfhosted | Managed
datatype db_backend = SqliteBackend | PostgresBackend
datatype upstream_mode = HttpUpstream | MockUpstream

record server_config =
  sv_bind :: string
  sv_mode :: deployment_mode

definition server_config_default :: server_config where
  "server_config_default = \<lparr>sv_bind = ''0.0.0.0:8080'', sv_mode = Selfhosted\<rparr>"

record database_config =
  db_backend :: db_backend
  db_path :: string
  db_dsn :: "string option"
  db_dsn_env :: "string option"

definition database_config_default :: database_config where
  "database_config_default = \<lparr>db_backend = SqliteBackend, db_path = ''./gateway.db'', db_dsn = None, db_dsn_env = None\<rparr>"

record security_config =
  byok_key :: "string option"
  control_key_env :: "string option"

record reqlog_settings =
  rs_enabled :: bool
  rs_dir :: string
  rs_queue_size :: nat
  rs_shard_max_bytes :: nat
  rs_rotate_secs :: nat
  rs_retention_days :: "32 word"
  rs_max_body_bytes :: nat
  rs_on_roll :: "string option"

definition reqlog_settings_default :: reqlog_settings where
  "reqlog_settings_default =
     \<lparr>rs_enabled = False, rs_dir = ''./reqlog'', rs_queue_size = 4096, rs_shard_max_bytes = 256 * 1024 * 1024,
      rs_rotate_secs = 3600, rs_retention_days = 30, rs_max_body_bytes = 256 * 1024, rs_on_roll = None\<rparr>"

record telemetry_config =
  tc_enabled :: bool
  tc_otlp_endpoint :: "string option"
  tc_push_interval_secs :: nat
  tc_prometheus :: bool
  tc_service_name :: string

definition telemetry_config_default :: telemetry_config where
  "telemetry_config_default =
     \<lparr>tc_enabled = False, tc_otlp_endpoint = None, tc_push_interval_secs = 15, tc_prometheus = True,
      tc_service_name = ''gateway''\<rparr>"

record features_config =
  fc_budgets_enabled :: bool
  fc_ratelimit_enabled :: bool
  fc_ratelimit_window_secs :: nat

definition features_config_default :: features_config where
  "features_config_default =
     \<lparr>fc_budgets_enabled = False, fc_ratelimit_enabled = False, fc_ratelimit_window_secs = 60\<rparr>"

record upstream_config =
  uc_mode :: upstream_mode
  uc_cloudflare_access :: "cloudflare_access_config option"

record routing_config =
  rc_strategy :: strategy
  rc_fallbacks :: "string \<rightharpoonup> string list"

record config =
  cf_server :: server_config
  cf_database :: database_config
  cf_security :: security_config
  cf_auth :: auth_config
  cf_reqlog :: reqlog_settings
  cf_telemetry :: telemetry_config
  cf_features :: features_config
  cf_upstream :: upstream_config
  cf_routing :: routing_config

definition config_default :: config where
  "config_default =
     \<lparr>cf_server = server_config_default, cf_database = database_config_default,
      cf_security = \<lparr>byok_key = None, control_key_env = None\<rparr>, cf_auth = auth_default,
      cf_reqlog = reqlog_settings_default, cf_telemetry = telemetry_config_default,
      cf_features = features_config_default,
      cf_upstream = \<lparr>uc_mode = HttpUpstream, uc_cloudflare_access = None\<rparr>,
      cf_routing = \<lparr>rc_strategy = Simple, rc_fallbacks = Map.empty\<rparr>\<rparr>"

record provider_config =
  pc_name :: string
  pc_api_base :: "string option"
  pc_api_key :: "string option"
  pc_extra :: extra

record models_file =
  mf_providers :: "provider_config list"
  mf_models :: "model_config list"
  mf_aliases :: "string \<rightharpoonup> string"

text \<open>Why a command fails: a text of its own, or an error of the library.\<close>
datatype failure = Told string | Because error

datatype file_text = Missing | Unreadable string | Contents string

definition load_config :: "(string \<Rightarrow> string + config) \<Rightarrow> string \<Rightarrow> file_text \<Rightarrow> failure + config" where
  "load_config toml path f =
     (case f of
        Contents t \<Rightarrow> (case toml t of Inl e \<Rightarrow> Inl (Told (''parsing '' @ path @ '': '' @ e)) | Inr c \<Rightarrow> Inr c)
      | Missing \<Rightarrow> Inr config_default
      | Unreadable e \<Rightarrow> Inl (Told (''reading '' @ path @ '': '' @ e)))"

definition load_models_file :: "(string \<Rightarrow> string + models_file) \<Rightarrow> string \<Rightarrow> file_text \<Rightarrow> failure + models_file" where
  "load_models_file toml path f =
     (case f of
        Contents t \<Rightarrow> (case toml t of Inl e \<Rightarrow> Inl (Told (''parsing '' @ path @ '': '' @ e)) | Inr m \<Rightarrow> Inr m)
      | Missing \<Rightarrow> Inl (Told (''reading '' @ path @ '': not found''))
      | Unreadable e \<Rightarrow> Inl (Told (''reading '' @ path @ '': '' @ e)))"

text \<open>The environment, as far as it holds text.\<close>
type_synonym environment = "string \<Rightarrow> string option"

datatype target = SqliteAt string | PostgresAt string

definition build_store :: "environment \<Rightarrow> database_config \<Rightarrow> failure + target" where
  "build_store env db =
     (case db_backend db of
        SqliteBackend \<Rightarrow> Inr (SqliteAt (db_path db))
      | PostgresBackend \<Rightarrow>
          (case (db_dsn db, db_dsn_env db) of
             (Some dsn, _) \<Rightarrow> Inr (PostgresAt dsn)
           | (None, Some v) \<Rightarrow>
               (case env v of
                  Some dsn \<Rightarrow> Inr (PostgresAt dsn)
                | None \<Rightarrow> Inl (Told (''database.dsn_env names '' @ v @ '', which is not set'')))
           | (None, None) \<Rightarrow>
               Inl (Told (''database.backend = \"postgres\" requires database.dsn or database.dsn_env''))))"

text \<open>What a command finds around it; \<open>connects\<close> opens and migrates a store.\<close>
record surroundings =
  file_of :: "string \<Rightarrow> file_text"
  toml_config :: "string \<Rightarrow> string + config"
  toml_models :: "string \<Rightarrow> string + models_file"
  env :: environment
  connects :: "target \<Rightarrow> error option"
  argon_hash :: "string \<Rightarrow> string result"
  unicode_lower :: "string \<Rightarrow> string"
  clock :: timestamp
  nth_id :: "nat \<Rightarrow> id"

definition configuration :: "surroundings \<Rightarrow> string \<Rightarrow> failure + config" where
  "configuration w path = load_config (toml_config w) path (file_of w path)"

definition open_store :: "surroundings \<Rightarrow> database_config \<Rightarrow> failure option" where
  "open_store w db =
     (case build_store (env w) db of
        Inl e \<Rightarrow> Some e
      | Inr t \<Rightarrow> map_option Because (connects w t))"

section \<open>The command line\<close>

text \<open>The arguments, the name of the program first.\<close>
definition arg :: "string list \<Rightarrow> nat \<Rightarrow> string option" where
  "arg as i = (if i < length as then Some (as ! i) else None)"

definition DEFAULT_CONFIG :: string where
  "DEFAULT_CONFIG = ''gateway.toml''"

definition arg_or_default :: "string list \<Rightarrow> nat \<Rightarrow> string" where
  "arg_or_default as i = (case arg as i of Some a \<Rightarrow> a | None \<Rightarrow> DEFAULT_CONFIG)"

datatype command = Setup | SetRole | Import | Serve string

definition command_of :: "string list \<Rightarrow> command" where
  "command_of as =
     (case arg as 1 of
        None \<Rightarrow> Serve DEFAULT_CONFIG
      | Some a \<Rightarrow>
          if a = ''setup'' then Setup else if a = ''set-role'' then SetRole
          else if a = ''import'' then Import
          else if a = ''serve'' then Serve (arg_or_default as 2)
          else if \<not> starts_with a ''-'' then Serve a else Serve DEFAULT_CONFIG)"

record setup_options =
  so_config :: string
  so_username :: string
  so_password :: string

text \<open>The loop over the arguments after the command; a flag takes the one after it, when there is one.\<close>
fun setup_loop :: "string list \<Rightarrow> setup_options \<Rightarrow> failure + setup_options" where
  "setup_loop [] opts = Inr opts"
| "setup_loop (a # as) opts =
     (if a = ''--user'' \<or> a = ''-u'' then
        (case as of [] \<Rightarrow> Inr opts | v # vs \<Rightarrow> setup_loop vs (opts\<lparr>so_username := v\<rparr>))
      else if a = ''--password'' \<or> a = ''-p'' then
        (case as of [] \<Rightarrow> Inr opts | v # vs \<Rightarrow> setup_loop vs (opts\<lparr>so_password := v\<rparr>))
      else if \<not> starts_with a ''-'' then setup_loop as (opts\<lparr>so_config := a\<rparr>)
      else Inl (Told (''unknown setup flag: '' @ a)))"

definition parse_setup :: "string list \<Rightarrow> failure + setup_options" where
  "parse_setup as =
     setup_loop (drop 2 as) \<lparr>so_config = DEFAULT_CONFIG, so_username = ''admin'', so_password = ''admin''\<rparr>"

section \<open>Accounts\<close>

text \<open>\<open>hash\<close> is the Argon2 hash, with the salt it draws.\<close>
definition upsert_admin ::
  "(string \<Rightarrow> string result) \<Rightarrow> timestamp \<Rightarrow> id \<Rightarrow> string \<Rightarrow> string \<Rightarrow> sqlite_store \<Rightarrow>
    sqlite_store \<times> bool result" where
  "upsert_admin argon now fresh name pw s =
     (case argon pw of
        Inl e \<Rightarrow> (s, Inl e)
      | Inr h \<Rightarrow>
          (case get_user_by_username name s of
             Some u \<Rightarrow> (set_user_role (user_id u) Admin (set_user_password (user_id u) h s), Inr False)
           | None \<Rightarrow>
               then_run (keep_on_error s (create_user
                 \<lparr>user_id = fresh, username = name, password_hash = h, user_role = Admin,
                  user_rpm_limit = None, user_tpm_limit = None, user_max_concurrent = None,
                  user_created_at = now, last_login_at = None, user_deleted_at = None\<rparr> s))
                 (\<lambda>_ s1. (s1, Inr True))))"

definition fail_with :: "'a result \<Rightarrow> failure + 'a" where
  "fail_with r = (case r of Inl e \<Rightarrow> Inl (Because e) | Inr x \<Rightarrow> Inr x)"

text \<open>The store of a command is the one its configuration names.\<close>
definition run_setup ::
  "surroundings \<Rightarrow> string list \<Rightarrow> sqlite_store \<Rightarrow> sqlite_store \<times> (failure + bool)" where
  "run_setup w as s =
     (case parse_setup as of
        Inl e \<Rightarrow> (s, Inl e)
      | Inr opts \<Rightarrow>
          (case configuration w (so_config opts) of
             Inl e \<Rightarrow> (s, Inl e)
           | Inr cfg \<Rightarrow>
               (case open_store w (cf_database cfg) of
                  Some e \<Rightarrow> (s, Inl e)
                | None \<Rightarrow>
                    (let (s1, r) = upsert_admin (argon_hash w) (clock w) (nth_id w 0)
                           (so_username opts) (so_password opts) s
                     in (s1, fail_with r)))))"

definition set_role_usage :: string where
  "set_role_usage = ''usage: gateway set-role <user> <admin|member> [config]''"

definition provisioned_row ::
  "timestamp \<Rightarrow> id \<Rightarrow> string \<Rightarrow> role \<Rightarrow> user" where
  "provisioned_row now fresh name r =
     \<lparr>user_id = fresh, username = name, password_hash = ''!sso'', user_role = r,
      user_rpm_limit = None, user_tpm_limit = None, user_max_concurrent = None,
      user_created_at = now, last_login_at = None, user_deleted_at = None\<rparr>"

definition assign_role :: "surroundings \<Rightarrow> string \<Rightarrow> role \<Rightarrow> sqlite_store \<Rightarrow> sqlite_store \<times> unit result" where
  "assign_role w who r s =
     (let name = unicode_lower w (trim who)
      in case get_user_by_username name s of
           Some u \<Rightarrow> (set_user_role (user_id u) r s, Inr ())
         | None \<Rightarrow> keep_on_error s (create_user (provisioned_row (clock w) (nth_id w 0) name r) s))"

definition run_set_role ::
  "surroundings \<Rightarrow> string list \<Rightarrow> sqlite_store \<Rightarrow> sqlite_store \<times> (failure + unit)" where
  "run_set_role w as s =
     (case (arg as 2, arg as 3) of
        (Some who, Some rn) \<Rightarrow>
          (case role_parse rn of
             Inl e \<Rightarrow> (s, Inl (Because e))
           | Inr r \<Rightarrow>
               (case configuration w (arg_or_default as 4) of
                  Inl e \<Rightarrow> (s, Inl e)
                | Inr cfg \<Rightarrow>
                    (case open_store w (cf_database cfg) of
                       Some e \<Rightarrow> (s, Inl e)
                     | None \<Rightarrow> (let (s1, x) = assign_role w who r s in (s1, fail_with x)))))
      | _ \<Rightarrow> (s, Inl (Told set_role_usage)))"

section \<open>Import\<close>

text \<open>The ids are drawn from a supply, each statement from places of its own.\<close>
type_synonym id_supply = "nat \<Rightarrow> id"

fun seed_providers ::
  "timestamp \<Rightarrow> id_supply \<Rightarrow> nat \<Rightarrow> provider_config list \<Rightarrow> sqlite_store \<Rightarrow> sqlite_store \<times> (failure + unit)" where
  "seed_providers now ids k [] s = (s, Inr ())"
| "seed_providers now ids k (pc # pcs) s =
     (if trim (pc_name pc) = [] then (s, Inl (Told ''a [[provider]] block is missing its name''))
      else
        (case then_run (ensure_provider now (ids k) (pc_name pc) s) (\<lambda>p s1.
                update_provider now (pv_id p) (pc_name pc) (pc_api_base pc) (pc_api_key pc) (pc_extra pc) s1) of
           (s1, Inl e) \<Rightarrow> (s1, Inl (Because e))
         | (s1, Inr _) \<Rightarrow> seed_providers now ids (Suc k) pcs s1))"

text \<open>
  What was hoisted, by provider, and the providers warned of. The deployments are those of all models in
  the order of the file.
\<close>
type_synonym donations = "(string \<times> string option \<times> string option) list"

fun hoist_loop ::
  "timestamp \<Rightarrow> id_supply \<Rightarrow> nat \<Rightarrow> deployment_config list \<Rightarrow> donations \<Rightarrow> string list \<Rightarrow> sqlite_store \<Rightarrow>
    sqlite_store \<times> (failure + donations \<times> string list)" where
  "hoist_loop now ids k [] don warned s = (s, Inr (don, warned))"
| "hoist_loop now ids k (dc # dcs) don warned s =
     (if dc_api_base dc = None \<and> dc_api_key dc = None \<and> extra_is_empty (dc_extra dc)
      then hoist_loop now ids (Suc k) dcs don warned s
      else
        (case ensure_provider now (ids k) (dc_provider dc) s of
           (s1, Inl e) \<Rightarrow> (s1, Inl (Because e))
         | (s1, Inr p) \<Rightarrow>
             if pv_api_base p \<noteq> None \<or> pv_api_key p \<noteq> None
             then
               (let disagree = (case map_of don (dc_provider dc) of
                      Some (base, key) \<Rightarrow> base \<noteq> dc_api_base dc \<or> key \<noteq> dc_api_key dc
                    | None \<Rightarrow> False)
                in hoist_loop now ids (Suc k) dcs don (if disagree then warned @ [dc_provider dc] else warned) s1)
             else
               (case update_provider now (pv_id p) (dc_provider dc) (dc_api_base dc) (dc_api_key dc)
                       (dc_extra dc) s1 of
                  (s2, Inl e) \<Rightarrow> (s2, Inl (Because e))
                | (s2, Inr _) \<Rightarrow>
                    hoist_loop now ids (Suc k) dcs
                      (AList.update (dc_provider dc) (dc_api_base dc, dc_api_key dc) don) warned s2)))"

definition new_of :: "string \<Rightarrow> deployment_config \<Rightarrow> new_deployment" where
  "new_of name dc =
     \<lparr>nd_model_name = name, nd_provider_name = dc_provider dc, nd_upstream_model = dc_upstream_model dc,
      nd_upstream_format = dc_upstream_format dc, nd_weight = dc_weight dc, nd_pricing = dc_pricing dc,
      nd_health_check = dc_health_check dc, nd_health_path = dc_health_path dc\<rparr>"

text \<open>Five ids for a deployment: two for the rows it is looked up by, three for its creation.\<close>
fun seed_deployments ::
  "timestamp \<Rightarrow> id_supply \<Rightarrow> nat \<Rightarrow> string \<Rightarrow> deployment_config list \<Rightarrow> nat \<Rightarrow> sqlite_store \<Rightarrow>
    sqlite_store \<times> nat result" where
  "seed_deployments now ids k name [] n s = (s, Inr n)"
| "seed_deployments now ids k name (dc # dcs) n s =
     then_run (seed_deployment now (ids k, ids (k + 1)) (ids (k + 2), ids (k + 3), ids (k + 4)) (new_of name dc) s)
       (\<lambda>fresh s1. seed_deployments now ids (k + 5) name dcs (if fresh then Suc n else n) s1)"

fun seed_models ::
  "timestamp \<Rightarrow> id_supply \<Rightarrow> nat \<Rightarrow> model_config list \<Rightarrow> nat \<Rightarrow> sqlite_store \<Rightarrow> sqlite_store \<times> nat result" where
  "seed_models now ids k [] n s = (s, Inr n)"
| "seed_models now ids k (mc # mcs) n s =
     then_run (ensure_model now (ids k) (mc_model_name mc) s) (\<lambda>_ s1.
     then_run (seed_deployments now ids (Suc k) (mc_model_name mc) (mc_deployments mc) n s1) (\<lambda>n2 s2.
       seed_models now ids (Suc k + 5 * length (mc_deployments mc)) mcs n2 s2))"

fun seed_alias_list ::
  "timestamp \<Rightarrow> id \<Rightarrow> string list \<Rightarrow> nat \<Rightarrow> sqlite_store \<Rightarrow> sqlite_store \<times> nat result" where
  "seed_alias_list now i [] n s = (s, Inr n)"
| "seed_alias_list now i (a # als) n s =
     then_run (upsert_alias now a i s) (\<lambda>_ s1. seed_alias_list now i als (Suc n) s1)"

fun seed_aliases ::
  "timestamp \<Rightarrow> id_supply \<Rightarrow> nat \<Rightarrow> model_config list \<Rightarrow> nat \<Rightarrow> sqlite_store \<Rightarrow> sqlite_store \<times> nat result" where
  "seed_aliases now ids k [] n s = (s, Inr n)"
| "seed_aliases now ids k (mc # mcs) n s =
     (if mc_aliases mc = [] then seed_aliases now ids (Suc k) mcs n s
      else then_run (ensure_model now (ids k) (mc_model_name mc) s) (\<lambda>m s1.
           then_run (seed_alias_list now (md_id m) (mc_aliases mc) n s1) (\<lambda>n2 s2.
             seed_aliases now ids (Suc k) mcs n2 s2)))"

record import_report =
  ir_inserted :: nat
  ir_providers :: nat
  ir_hoisted :: nat
  ir_aliases :: nat
  ir_warned :: "string list"

definition file_deployments :: "models_file \<Rightarrow> deployment_config list" where
  "file_deployments mf = concat (map mc_deployments (mf_models mf))"

text \<open>The four passes; a file that names no deployment is left alone.\<close>
definition import_file ::
  "timestamp \<Rightarrow> id_supply \<Rightarrow> models_file \<Rightarrow> sqlite_store \<Rightarrow> sqlite_store \<times> (failure + import_report option)" where
  "import_file now ids mf s =
     (if file_deployments mf = [] then (s, Inr None)
      else
        (case seed_providers now ids 0 (mf_providers mf) s of
           (s1, Inl e) \<Rightarrow> (s1, Inl e)
         | (s1, Inr _) \<Rightarrow>
        (case hoist_loop now ids (length (mf_providers mf)) (file_deployments mf) [] [] s1 of
           (s2, Inl e) \<Rightarrow> (s2, Inl e)
         | (s2, Inr (don, warned)) \<Rightarrow>
             (let k = length (mf_providers mf) + length (file_deployments mf);
                  (s4, r) = then_run (seed_models now ids k (mf_models mf) 0 s2) (\<lambda>inserted s3.
                    then_run (seed_aliases now ids (k + length (mf_models mf) + 5 * length (file_deployments mf))
                        (mf_models mf) 0 s3) (\<lambda>als s4.
                      (s4, Inr \<lparr>ir_inserted = inserted, ir_providers = length (mf_providers mf),
                         ir_hoisted = length don, ir_aliases = als, ir_warned = warned\<rparr>)))
              in (s4, map_sum Because Some r)))))"

definition run_import ::
  "surroundings \<Rightarrow> string list \<Rightarrow> sqlite_store \<Rightarrow> sqlite_store \<times> (failure + import_report option)" where
  "run_import w as s =
     (case arg as 2 of
        None \<Rightarrow> (s, Inl (Told ''usage: gateway import <models-file> [config]  (the models file holds [[model]] entries)''))
      | Some path \<Rightarrow>
          (case configuration w (arg_or_default as 3) of
             Inl e \<Rightarrow> (s, Inl e)
           | Inr cfg \<Rightarrow>
               (case load_models_file (toml_models w) path (file_of w path) of
                  Inl e \<Rightarrow> (s, Inl e)
                | Inr mf \<Rightarrow>
                    (case open_store w (cf_database cfg) of
                       Some e \<Rightarrow> (s, Inl e)
                     | None \<Rightarrow> import_file (clock w) (nth_id w) mf s))))"

section \<open>Secrets at rest\<close>

datatype encryptor = AesGcm bytes | NoopEncryptor

definition NONCE_LEN :: nat where
  "NONCE_LEN = 12"

text \<open>The cipher: key, nonce, text and associated data.\<close>
record aead =
  seal :: "bytes \<Rightarrow> bytes \<Rightarrow> bytes \<Rightarrow> bytes \<Rightarrow> string + bytes"
  unseal :: "bytes \<Rightarrow> bytes \<Rightarrow> bytes \<Rightarrow> bytes \<Rightarrow> string + bytes"

definition from_key_slice :: "bytes \<Rightarrow> encryptor result" where
  "from_key_slice k =
     (if length k \<noteq> 32 then Inl (Crypto (''AES-256-GCM key must be 32 bytes, got '' @ show_nat (length k)))
      else Inr (AesGcm k))"

text \<open>The nonce is drawn for each call.\<close>
fun encrypt :: "aead \<Rightarrow> bytes \<Rightarrow> encryptor \<Rightarrow> bytes \<Rightarrow> bytes \<Rightarrow> bytes result" where
  "encrypt ae nonce (AesGcm k) plain aad =
     (case seal ae k nonce plain aad of
        Inl e \<Rightarrow> Inl (Crypto (''encrypt failed: '' @ e)) | Inr ct \<Rightarrow> Inr (nonce @ ct))"
| "encrypt ae nonce NoopEncryptor plain aad = Inr plain"

fun decrypt :: "aead \<Rightarrow> encryptor \<Rightarrow> bytes \<Rightarrow> bytes \<Rightarrow> bytes result" where
  "decrypt ae (AesGcm k) ct aad =
     (if length ct < NONCE_LEN then Inl (Crypto ''ciphertext shorter than nonce'')
      else (case unseal ae k (take NONCE_LEN ct) (drop NONCE_LEN ct) aad of
              Inl e \<Rightarrow> Inl (Crypto (''decrypt failed: '' @ e)) | Inr plain \<Rightarrow> Inr plain))"
| "decrypt ae NoopEncryptor ct aad = Inr ct"

definition hex_nibble :: "char \<Rightarrow> nat option" where
  "hex_nibble c =
     (let n = of_char c in
      if 48 \<le> n \<and> n \<le> 57 then Some (n - 48)
      else if 97 \<le> n \<and> n \<le> 102 then Some (n - 97 + 10)
      else if 65 \<le> n \<and> n \<le> 70 then Some (n - 65 + 10) else None)"

fun hex_pairs :: "string \<Rightarrow> bytes option" where
  "hex_pairs [] = Some []"
| "hex_pairs (h # l # cs) =
     (case (hex_nibble h, hex_nibble l) of
        (Some a, Some b) \<Rightarrow> map_option ((#) (char_of (a * 16 + b))) (hex_pairs cs)
      | _ \<Rightarrow> None)"
| "hex_pairs [c] = Some []"

definition decode_hex :: "string \<Rightarrow> bytes option" where
  "decode_hex s = (if s = [] \<or> odd (length s) then None else hex_pairs s)"

text \<open>\<open>b64\<close> is the decoder of standard base64.\<close>
definition decode_key :: "(string \<Rightarrow> bytes option) \<Rightarrow> string \<Rightarrow> bytes option" where
  "decode_key b64 raw =
     (let s = trim raw in case b64 s of Some bs \<Rightarrow> Some bs | None \<Rightarrow> decode_hex s)"

definition build_encryptor :: "(string \<Rightarrow> bytes option) \<Rightarrow> string option \<Rightarrow> encryptor" where
  "build_encryptor b64 key =
     (case key of
        None \<Rightarrow> NoopEncryptor
      | Some raw \<Rightarrow>
          if raw = [] then NoopEncryptor
          else (case decode_key b64 raw of
                  Some bs \<Rightarrow> if length bs = 32 then AesGcm bs else NoopEncryptor
                | None \<Rightarrow> NoopEncryptor))"

section \<open>Logging of the process\<close>

text \<open>
  The filter in force and the one the process began with. \<open>parses\<close> and \<open>reloads\<close> give the error of
  \<open>tracing_subscriber\<close> for a filter text: its parser's, and that of the handle that puts it in force.
\<close>
record reloadable_logging =
  rl_initial :: string
  rl_filter :: string

definition level_directives :: "log_level \<Rightarrow> string" where
  "level_directives l =
     (if l = LogDebug
      then ''info,gateway=debug,yb_core=debug,yb_gateway=debug,yb_otel=debug,yb_providers=debug,'' @
        ''yb_redact=debug,yb_reqlog=debug,yb_server=debug,yb_store=debug,yb_wire=debug''
      else log_level_as_str l)"

definition init_tracing :: "environment \<Rightarrow> (string \<Rightarrow> string option) \<Rightarrow> reloadable_logging" where
  "init_tracing ev parses =
     (let initial = (case ev ''RUST_LOG'' of
          Some d \<Rightarrow> if parses d = None then d else ''info''
        | None \<Rightarrow> ''info'')
      in \<lparr>rl_initial = initial, rl_filter = initial\<rparr>)"

definition load_filter ::
  "(string \<Rightarrow> string option) \<Rightarrow> (string \<Rightarrow> string option) \<Rightarrow> string \<Rightarrow> reloadable_logging \<Rightarrow>
    reloadable_logging \<times> unit result" where
  "load_filter parses reloads d rl =
     (case parses d of
        Some e \<Rightarrow> (rl, Inl (Internal e))
      | None \<Rightarrow> (case reloads d of
            Some e \<Rightarrow> (rl, Inl (Internal e))
          | None \<Rightarrow> (rl\<lparr>rl_filter := d\<rparr>, Inr ())))"

definition apply_level ::
  "(string \<Rightarrow> string option) \<Rightarrow> (string \<Rightarrow> string option) \<Rightarrow> log_level \<Rightarrow> reloadable_logging \<Rightarrow>
    reloadable_logging \<times> unit result" where
  "apply_level parses reloads l rl = load_filter parses reloads (level_directives l) rl"

definition reset_level ::
  "(string \<Rightarrow> string option) \<Rightarrow> (string \<Rightarrow> string option) \<Rightarrow> reloadable_logging \<Rightarrow>
    reloadable_logging \<times> unit result" where
  "reset_level parses reloads rl = load_filter parses reloads (rl_initial rl) rl"

section \<open>The start of the server\<close>

text \<open>The control key, or the default administrator of a store without users; a failure to make that one
  is only logged.\<close>
definition ensure_operator ::
  "surroundings \<Rightarrow> (bytes \<Rightarrow> bytes) \<Rightarrow> security_config \<Rightarrow> sqlite_store \<Rightarrow> sqlite_store \<times> (failure + unit)" where
  "ensure_operator w sha sec s =
     (case control_key_env sec of
        Some v \<Rightarrow>
          (case env w v of
             None \<Rightarrow> (s, Inl (Told (''security.control_key_env names '' @ v @ '', which is not set'')))
           | Some tk \<Rightarrow>
               if trim tk = [] then (s, Inl (Told (v @ '' is empty; the control key needs a value'')))
               else (case ensure_control_key sha (clock w) (nth_id w 0, nth_id w 1) (trim tk) s of
                       (s1, Inl e) \<Rightarrow> (s1, Inl (Because e)) | (s1, Inr _) \<Rightarrow> (s1, Inr ())))
      | None \<Rightarrow>
          if count_users s = 0
          then (fst (upsert_admin (argon_hash w) (clock w) (nth_id w 0) ''admin'' ''admin'' s), Inr ())
          else (s, Inr ()))"

definition boot_router :: "timestamp \<Rightarrow> routing_config \<Rightarrow> sqlite_store \<Rightarrow> deployment_router" where
  "boot_router now rc s =
     from_deployments now (list_deployments s) (rc_strategy rc) (rc_fallbacks rc)
       (map_of (rev (map (\<lambda>a. (alias_name a, alias_target a)) (list_aliases s))))"

text \<open>The request log of the settings: its directory, limits and hook.\<close>
definition build_reqlog :: "reqlog_settings \<Rightarrow> (string \<times> reqlog_config \<times> string option) option" where
  "build_reqlog r =
     (if \<not> rs_enabled r then None
      else Some (rs_dir r,
        \<lparr>queue_size = rs_queue_size r, shard_max_bytes = rs_shard_max_bytes r,
         rotate_interval = int (max 1 (rs_rotate_secs r)) * 1000000000,
         initial_retention = rs_retention_days r, max_body_bytes = rs_max_body_bytes r\<rparr>, rs_on_roll r))"

definition boot_limiter :: "features_config \<Rightarrow> limiter" where
  "boot_limiter f = limiter_new (of_nat (max 1 (fc_ratelimit_window_secs f)))"

definition boot_sso :: "auth_config \<Rightarrow> sso_client option" where
  "boot_sso a = Option.bind (auth_sso a) (\<lambda>c. if auth_has a Sso then from_config c else None)"

record app_state =
  as_router :: deployment_router
  as_reqlog :: "(string \<times> reqlog_config \<times> string option) option"
  as_cloudflare :: "cloudflare_access_config option"
  as_limiter :: limiter
  as_encryptor :: encryptor
  as_mode :: deployment_mode
  as_auth :: auth_config
  as_sso :: "sso_client option"
  as_budgets_enabled :: bool
  as_ratelimit_enabled :: bool

definition assemble :: "(string \<Rightarrow> bytes option) \<Rightarrow> timestamp \<Rightarrow> config \<Rightarrow> sqlite_store \<Rightarrow> app_state" where
  "assemble b64 now cfg s =
     \<lparr>as_router = boot_router now (cf_routing cfg) s, as_reqlog = build_reqlog (cf_reqlog cfg),
      as_cloudflare = with_cloudflare_access (uc_cloudflare_access (cf_upstream cfg)),
      as_limiter = boot_limiter (cf_features cfg),
      as_encryptor = build_encryptor b64 (byok_key (cf_security cfg)),
      as_mode = sv_mode (cf_server cfg), as_auth = cf_auth cfg, as_sso = boot_sso (cf_auth cfg),
      as_budgets_enabled = fc_budgets_enabled (cf_features cfg),
      as_ratelimit_enabled = fc_ratelimit_enabled (cf_features cfg)\<rparr>"

text \<open>Up to the state the server is built from; \<open>sha\<close> hashes tokens, \<open>b64\<close> decodes the key.\<close>
definition run_serve ::
  "surroundings \<Rightarrow> (bytes \<Rightarrow> bytes) \<Rightarrow> (string \<Rightarrow> bytes option) \<Rightarrow> string \<Rightarrow> sqlite_store \<Rightarrow>
    sqlite_store \<times> (failure + app_state)" where
  "run_serve w sha b64 path s =
     (case configuration w path of
        Inl e \<Rightarrow> (s, Inl e)
      | Inr cfg \<Rightarrow>
          (case open_store w (cf_database cfg) of
             Some e \<Rightarrow> (s, Inl e)
           | None \<Rightarrow>
               (case ensure_operator w sha (cf_security cfg) s of
                  (s1, Inl e) \<Rightarrow> (s1, Inl e)
                | (s1, Inr _) \<Rightarrow> (s1, Inr (assemble b64 (clock w) cfg s1)))))"

section \<open>Keys of the encryptor\<close>

text \<open>What is sealed opens again under the same key and associated data, where the cipher opens what it
  seals.\<close>
lemma decrypt_encrypt:
  assumes "encrypt ae nonce x plain aad = Inr ct" "length nonce = NONCE_LEN"
    and "\<And>k n t a c. seal ae k n t a = Inr c \<Longrightarrow> unseal ae k n c a = Inr t"
  shows "decrypt ae x ct aad = Inr plain"
  using assms by (cases x) (auto split: sum.splits)

definition base64_char :: "char \<Rightarrow> bool" where
  "base64_char c \<longleftrightarrow>
     (let n = (of_char c :: nat) in 48 \<le> n \<and> n \<le> 57 \<or> 65 \<le> n \<and> n \<le> 90 \<or> 97 \<le> n \<and> n \<le> 122 \<or> n = 43 \<or> n = 47)"

lemma hex_is_base64: "hex_nibble c \<noteq> None \<Longrightarrow> base64_char c"
  by (auto simp: hex_nibble_def base64_char_def Let_def split: if_splits)

lemma hex_pairs_length:
  "even (length s) \<Longrightarrow> \<forall>c \<in> set s. hex_nibble c \<noteq> None \<Longrightarrow> \<exists>k. hex_pairs s = Some k \<and> length k = length s div 2"
proof (induction s rule: hex_pairs.induct)
  case (2 h l cs)
  then obtain a b where ab: "hex_nibble h = Some a" "hex_nibble l = Some b" by auto
  with 2 have "\<exists>k. hex_pairs cs = Some k \<and> length k = length cs div 2" by simp
  then obtain k where "hex_pairs cs = Some k" "length k = length cs div 2" by blast
  with ab show ?case by simp
qed auto

text \<open>C40: A key of 32 bytes written in hex turns encryption off: its 64 digits are base64 of 48 bytes too,
  that reading comes first, and a key that is not of 32 bytes leaves external keys unencrypted. Every
  hex key there is meets this.\<close>
theorem hex_key_disables_encryption:
  assumes "length (trim raw) = 64" "\<forall>c \<in> set (trim raw). hex_nibble c \<noteq> None"
    and "\<And>t. length t mod 4 = 0 \<Longrightarrow> \<forall>c \<in> set t. base64_char c \<Longrightarrow>
      \<exists>bs. b64 t = Some bs \<and> length bs = length t div 4 * 3"
  shows "(\<exists>k. decode_hex (trim raw) = Some k \<and> length k = 32) \<and> build_encryptor b64 (Some raw) = NoopEncryptor"
proof -
  obtain bs where "b64 (trim raw) = Some bs" "length bs = 48"
    using assms(3) [of "trim raw"] assms(1,2) hex_is_base64 by auto
  then show ?thesis
    using hex_pairs_length [of "trim raw"] assms(1,2)
    by (auto simp: build_encryptor_def decode_key_def decode_hex_def)
qed

text \<open>Base64 without padding, four characters to three bytes.\<close>
definition sextet :: "char \<Rightarrow> nat" where
  "sextet c =
     (let n = of_char c in
      if 65 \<le> n \<and> n \<le> 90 then n - 65 else if 97 \<le> n \<and> n \<le> 122 then n - 71
      else if 48 \<le> n \<and> n \<le> 57 then n + 4 else if n = 43 then 62 else 63)"

fun base64_quads :: "string \<Rightarrow> bytes option" where
  "base64_quads [] = Some []"
| "base64_quads (a # b # c # d # cs) =
     (if list_all base64_char [a, b, c, d]
      then map_option (\<lambda>bs. char_of (sextet a * 4 + sextet b div 16) #
             char_of (sextet b mod 16 * 16 + sextet c div 4) # char_of (sextet c mod 4 * 64 + sextet d) # bs)
             (base64_quads cs)
      else None)"
| "base64_quads _ = None"

lemma base64_quads_length:
  "length t mod 4 = 0 \<Longrightarrow> \<forall>c \<in> set t. base64_char c \<Longrightarrow>
     \<exists>bs. base64_quads t = Some bs \<and> length bs = length t div 4 * 3"
proof (induction t rule: base64_quads.induct)
  case (2 a b c d cs)
  then have "length cs mod 4 = 0" by (simp add: mod_Suc split: if_splits)
  with 2 show ?case by auto
qed auto

definition sample_hex_key :: string where
  "sample_hex_key = concat (replicate 8 ''0123456f'')"

theorem hex_key_disables_encryption_witness:
  "build_encryptor base64_quads (Some sample_hex_key) = NoopEncryptor"
proof -
  have "length (trim sample_hex_key) = 64" "\<forall>c \<in> set (trim sample_hex_key). hex_nibble c \<noteq> None" by code_simp+
  then show ?thesis using hex_key_disables_encryption base64_quads_length by blast
qed

section \<open>The filter of the log\<close>

text \<open>Two levels never share a filter, so the filter in force tells the level.\<close>
lemma level_directives_inj: "level_directives l = level_directives m \<longleftrightarrow> l = m"
  by (cases l; cases m) (simp_all add: level_directives_def)

text \<open>A filter that is refused leaves the one in force, and nothing but a start sets the initial one.\<close>
lemma load_filter_spec:
  assumes "load_filter parses reloads d rl = (rl', r)"
  shows "rl_initial rl' = rl_initial rl" "rl_filter rl' = (if r = Inr () then d else rl_filter rl)"
    and "r \<noteq> Inr () \<Longrightarrow> rl' = rl"
  using assms by (auto simp: load_filter_def split: option.splits)

text \<open>Whatever levels were taken or refused since the start, a reset is never refused for its text and, when
  the handle takes it, the filter is the one the process began with.\<close>
lemma reset_after_levels:
  assumes "parses ''info'' = None" "reloads (rl_initial (init_tracing ev parses)) = None"
  shows "reset_level parses reloads (fold (\<lambda>l rl. fst (apply_level parses reloads l rl)) ls (init_tracing ev parses))
    = (init_tracing ev parses, Inr ())"
proof -
  have valid: "parses (rl_initial (init_tracing ev parses)) = None"
    using assms(1) by (simp add: init_tracing_def Let_def split: option.splits)
  have same: "rl_initial (fold (\<lambda>l rl. fst (apply_level parses reloads l rl)) ls c) = rl_initial c" for c
    by (induction ls arbitrary: c)
      (simp_all add: apply_level_def load_filter_def split: option.splits)
  have start: "rl_filter (init_tracing ev parses) = rl_initial (init_tracing ev parses)"
    by (simp add: init_tracing_def Let_def)
  have "c\<lparr>rl_filter := rl_initial (init_tracing ev parses)\<rparr> = init_tracing ev parses"
    if "rl_initial c = rl_initial (init_tracing ev parses)" for c
    by (rule reloadable_logging.equality) (simp_all add: that start)
  then show ?thesis using valid assms(2) by (simp add: reset_level_def load_filter_def same)
qed

section \<open>Roles\<close>

text \<open>The name is put in lower case before it is looked up, but local accounts keep the case they were
  made with: such an account keeps its role, and another is made.\<close>
theorem set_role_misses_account:
  assumes "u \<in> set (users s)" "unicode_lower w (trim (username u)) \<noteq> username u"
    and "get_user_by_username (unicode_lower w (trim (username u))) s = None"
    and "nth_id w 0 \<notin> user_id ` set (users s)"
  shows "\<exists>s'. assign_role w (username u) r s = (s', Inr ()) \<and> u \<in> set (users s') \<and>
    length (users s') = Suc (length (users s))"
proof -
  have "\<not> list_ex (\<lambda>x. username x = unicode_lower w (trim (username u)) \<and> user_deleted_at x = None) (users s)"
    using assms(3) by (auto simp: get_user_by_username_def find_None_iff list_ex_iff)
  then show ?thesis
    using assms by (simp add: assign_role_def keep_on_error_def create_user_def provisioned_row_def)
qed

section \<open>What a start comes to\<close>

lemma fold_delete_catalog: "catalog (fold (\<lambda>k. delete_api_key now (key_id k)) ks s) = catalog s"
  by (induction ks arbitrary: s) simp_all

lemma fold_delete_usernames:
  "users (fold (\<lambda>k. delete_api_key now (key_id k)) ks s) = users s"
  by (induction ks arbitrary: s) simp_all

lemma role_usernames: "username ` set (users (set_user_role i r s)) = username ` set (users s)"
  unfolding set_user_role_def by (simp add: image_update_where)

lemma control_owner_rest:
  assumes "control_owner now f s = (s', Inr u)"
  shows "catalog s' = catalog s"
    and "username ` set (users s') \<subseteq> insert CONTROL_USERNAME (username ` set (users s))"
  using assms
  by (auto simp: control_owner_def then_run_def keep_on_error_def control_user_def create_user_def catalog_def
      set_user_role_def set_update_where split: option.splits sum.splits if_splits)

lemma ensure_control_key_rest:
  assumes "store_ok s" "ensure_control_key sha now f tk s = (s', Inr k)"
  shows "store_ok s'" "catalog s' = catalog s"
    "username ` set (users s') \<subseteq> insert CONTROL_USERNAME (username ` set (users s))"
proof -
  from assms(2) obtain u s1 s2 where 1: "control_owner now (fst f) s = (s1, Inr u)"
    and s2: "s2 = fold (\<lambda>k. delete_api_key now (key_id k))
       (filter (stale_control (hash_token sha tk)) (list_api_keys_for_user (user_id u) s1)) s1"
    and c: "(s' = s2 \<and> k \<in> set (list_api_keys_for_user (user_id u) s1) \<and> current_control (hash_token sha tk) k) \<or>
     (k = control_key sha now (snd f) (user_id u) tk \<and> create_api_key k s2 = Inr s')"
    by (rule ensure_control_key_cases)
  have ok: "store_ok s2" unfolding s2 by (intro fold_delete_ok) (use control_owner_spec [OF assms(1) 1] in simp)
  with c show "store_ok s'" using key_statements_ok(1) by blast
  have "catalog s2 = catalog s" "users s2 = users s1"
    using control_owner_rest(1) [OF 1] by (simp_all add: s2 fold_delete_catalog fold_delete_usernames)
  moreover have "catalog s' = catalog s2 \<and> users s' = users s2"
    using c by (auto simp: create_api_key_def split: if_splits) (simp add: catalog_def)
  ultimately show "catalog s' = catalog s"
    "username ` set (users s') \<subseteq> insert CONTROL_USERNAME (username ` set (users s))"
    using control_owner_rest(2) [OF 1] by simp_all
qed

lemma upsert_admin_rest:
  "store_ok s \<Longrightarrow> store_ok (fst (upsert_admin argon now i n pw s))"
  "catalog (fst (upsert_admin argon now i n pw s)) = catalog s"
  by (auto simp: upsert_admin_def then_run_def keep_on_error_def split: sum.split option.split
      intro: user_statements_ok)

text \<open>An account that setup made or took over is an administrator with the password given.\<close>
lemma upsert_admin_spec:
  assumes "store_ok s" "argon pw = Inr h" "upsert_admin argon now i n pw s = (s', Inr fresh)"
  shows "\<exists>u. get_user_by_username n s' = Some u \<and> user_role u = Admin \<and> password_hash u = h"
    and "fresh \<longleftrightarrow> get_user_by_username n s = None"
proof -
  show "fresh \<longleftrightarrow> get_user_by_username n s = None"
    using assms(2,3) by (auto simp: upsert_admin_def then_run_def split: option.splits prod.splits sum.splits)
  show "\<exists>u. get_user_by_username n s' = Some u \<and> user_role u = Admin \<and> password_hash u = h"
  proof (cases "get_user_by_username n s")
    case None
    with assms(2,3) have "users s' = users s @
        [\<lparr>user_id = i, username = n, password_hash = h, user_role = Admin, user_rpm_limit = None,
          user_tpm_limit = None, user_max_concurrent = None, user_created_at = now, last_login_at = None,
          user_deleted_at = None\<rparr>]"
      by (auto simp: upsert_admin_def then_run_def keep_on_error_def create_user_def split: if_splits)
    with None show ?thesis by (simp add: get_user_by_username_def find_snoc)
  next
    case (Some u)
    with assms(2,3) have s': "s' = set_user_role (user_id u) Admin (set_user_password (user_id u) h s)"
      by (simp add: upsert_admin_def)
    let ?u = "u\<lparr>password_hash := h, user_role := Admin\<rparr>"
    have u: "u \<in> set (users s)" "username u = n" "user_deleted_at u = None"
      using Some by (auto simp: get_user_by_username_def find_Some_iff)
    then have "?u \<in> set (users s')"
      by (auto simp: s' set_user_role_def set_user_password_def set_update_where live_user_def image_image
          intro!: image_eqI [where x = u])
    moreover have "unique_among (\<lambda>u. user_deleted_at u = None) username (users s')"
      using user_statements_ok(2,3) assms(1) by (auto simp: s' store_ok_def users_ok_def)
    ultimately have "get_user_by_username n s' = Some ?u"
      unfolding get_user_by_username_def using u by (simp add: find_live_iff)
    then show ?thesis by simp
  qed
qed

lemma ensure_operator_rest:
  assumes "store_ok s" "ensure_operator w sha sec s = (s', Inr x)"
  shows "store_ok s'" "catalog s' = catalog s"
  using assms
  by (auto simp: ensure_operator_def upsert_admin_rest ensure_control_key_rest
      split: option.splits if_splits prod.splits sum.splits)

lemma boot_router_routes:
  "routes_of (snapshot (boot_router now rc s)) = loaded_routes (served s)"
  by (simp add: boot_router_def from_deployments_def with_snapshot_def build_def routes_of_def loaded_routes_def
      served_def)

lemma boot_routes:
  assumes "names_ok s"
  shows "routed_to (snapshot (boot_router now rc s)) n = (case directory s n of None \<Rightarrow> []
    | Some i \<Rightarrow> map to_deployment (filter (\<lambda>d. model_id d = i) (list_deployments s)))"
proof -
  let ?sv = "sample_server\<lparr>store := s, gw_world := (gw_world sample_server)\<lparr>router := boot_router now rc s\<rparr>\<rparr>"
  have "router_synced ?sv" by (simp add: router_synced_def boot_router_routes)
  from routed_directory [OF this _ refl] assms show ?thesis by (simp cong: option.case_cong)
qed

lemma run_serve_Inr:
  assumes "configuration w path = Inr cfg" "run_serve w sha b64 path s = (s', Inr b)"
  shows "ensure_operator w sha (cf_security cfg) s = (s', Inr ())" "b = assemble b64 (clock w) cfg s'"
proof -
  obtain s1 r where op: "ensure_operator w sha (cf_security cfg) s = (s1, r)" by force
  have "r = Inr () \<and> s1 = s' \<and> b = assemble b64 (clock w) cfg s'"
    using assms op
    by (cases "open_store w (cf_database cfg)"; cases r) (simp_all add: run_serve_def)
  with op show "ensure_operator w sha (cf_security cfg) s = (s', Inr ())" "b = assemble b64 (clock w) cfg s'"
    by simp_all
qed

text \<open>C37: A server that starts is ready: its routing table sends every model name to the live deployments
  the directory of names and aliases in the store gives for it; with a control key configured the
  token in the environment authenticates as an administrator and no account of the default name
  appears; without one, a store with no users has the default administrator, when his password can
  be hashed and his id is new.  So a start with the control key's variable unset does not succeed.\<close>
theorem serve_starts_ready:
  assumes "store_step\<^sup>*\<^sup>* empty_store s" "names_disjoint s"
    and "configuration w path = Inr cfg" "run_serve w sha b64 path s = (s', Inr b)"
  shows "routed_to (snapshot (as_router b)) n = (case directory s' n of None \<Rightarrow> []
      | Some i \<Rightarrow> map to_deployment (filter (\<lambda>d. model_id d = i) (list_deployments s'))) \<and>
    (case control_key_env (cf_security cfg) of
        Some v \<Rightarrow> (\<exists>tk a. env w v = Some tk \<and> verify_api_key (hash_token sha (trim tk)) s' = Some a \<and>
          user_role (auth_user a) = Admin) \<and>
          (''admin'' \<in> username ` set (users s') \<longrightarrow> ''admin'' \<in> username ` set (users s))
      | None \<Rightarrow> argon_hash w ''admin'' = Inr h \<and> nth_id w 0 \<notin> user_id ` set (users s) \<and> count_users s = 0 \<longrightarrow>
          (\<exists>u. get_user_by_username ''admin'' s' = Some u \<and> user_role u = Admin \<and> password_hash u = h))"
proof -
  have ok: "store_ok s" by (rule reachable_ok [OF assms(1)])
  note op = run_serve_Inr(1) [OF assms(3,4)] and b = run_serve_Inr(2) [OF assms(3,4)]
  have names: "names_ok s'"
    using ensure_operator_rest(1) [OF ok op] catalog_reads(2) [OF ensure_operator_rest(2) [OF ok op]] assms(2)
    by (simp add: names_ok_def)
  then have routes: "routed_to (snapshot (as_router b)) n = (case directory s' n of None \<Rightarrow> []
      | Some i \<Rightarrow> map to_deployment (filter (\<lambda>d. model_id d = i) (list_deployments s')))"
    by (simp add: b assemble_def boot_routes)
  have "case control_key_env (cf_security cfg) of
        Some v \<Rightarrow> (\<exists>tk a. env w v = Some tk \<and> verify_api_key (hash_token sha (trim tk)) s' = Some a \<and>
          user_role (auth_user a) = Admin) \<and>
          (''admin'' \<in> username ` set (users s') \<longrightarrow> ''admin'' \<in> username ` set (users s))
      | None \<Rightarrow> argon_hash w ''admin'' = Inr h \<and> nth_id w 0 \<notin> user_id ` set (users s) \<and> count_users s = 0 \<longrightarrow>
          (\<exists>u. get_user_by_username ''admin'' s' = Some u \<and> user_role u = Admin \<and> password_hash u = h)"
  proof (cases "control_key_env (cf_security cfg)")
    case (Some v)
    with op obtain tk k where key: "env w v = Some tk"
        "ensure_control_key sha (clock w) (nth_id w 0, nth_id w 1) (trim tk) s = (s', Inr k)"
      by (auto simp: ensure_operator_def split: option.splits if_splits prod.splits sum.splits)
    from ensure_control_key_rotates [OF assms(1) key(2)] ensure_control_key_rest(3) [OF ok key(2)] key(1) Some
    show ?thesis by (auto simp: CONTROL_USERNAME_def)
  next
    case None
    have "\<exists>u. get_user_by_username ''admin'' s' = Some u \<and> user_role u = Admin \<and> password_hash u = h"
      if "argon_hash w ''admin'' = Inr h" "nth_id w 0 \<notin> user_id ` set (users s)" "count_users s = 0"
    proof -
      obtain s1 r where run: "upsert_admin (argon_hash w) (clock w) (nth_id w 0) ''admin'' ''admin'' s = (s1, r)"
        by force
      have none: "filter (\<lambda>u. user_deleted_at u = None) (users s) = []"
        using that(3) by (simp add: count_users_def)
      then have live: "get_user_by_username ''admin'' s = None"
          "\<not> list_ex (\<lambda>u. username u = ''admin'' \<and> user_deleted_at u = None) (users s)"
        by (auto simp: get_user_by_username_def find_None_iff list_ex_iff filter_empty_conv)
      then have "r = Inr True"
        using run that(1,2) by (simp add: upsert_admin_def then_run_def keep_on_error_def create_user_def)
      moreover have "s' = s1" using op None that(3) run by (simp add: ensure_operator_def)
      ultimately show ?thesis using upsert_admin_spec(1) [of s "argon_hash w" "''admin''" h] ok that(1) run by blast
    qed
    with None show ?thesis by simp
  qed
  with routes show ?thesis by blast
qed

definition sample_surroundings :: surroundings where
  "sample_surroundings =
     \<lparr>file_of = (\<lambda>_. Missing), toml_config = Inl, toml_models = Inl, env = (\<lambda>_. None), connects = (\<lambda>_. None),
      argon_hash = (\<lambda>pw. Inr (''argon:'' @ pw)), unicode_lower = to_ascii_lowercase, clock = 5,
      nth_id = (\<lambda>n. replicate n (CHR ''i''))\<rparr>"

lemma sample_boot:
  "configuration sample_surroundings ''c'' = Inr config_default"
  "control_key_env (cf_security config_default) = None"
  "\<exists>s' b. run_serve sample_surroundings id base64_quads ''c'' empty_store = (s', Inr b)"
  by (simp_all add: configuration_def sample_surroundings_def load_config_def config_default_def run_serve_def
      open_store_def build_store_def database_config_default_def ensure_operator_def count_users_def empty_store_def)

theorem serve_starts_ready_witness:
  "\<exists>s' b u. run_serve sample_surroundings id base64_quads ''c'' empty_store = (s', Inr b) \<and>
     get_user_by_username ''admin'' s' = Some u \<and> user_role u = Admin \<and> password_hash u = ''argon:admin''"
proof -
  obtain s' b where run: "run_serve sample_surroundings id base64_quads ''c'' empty_store = (s', Inr b)"
    using sample_boot(3) by blast
  have "names_disjoint empty_store" using names_ok_empty by (simp add: names_ok_def)
  from serve_starts_ready [OF _ this sample_boot(1) run, of _ "''argon:admin''"] run sample_boot(2)
  show ?thesis by (simp add: sample_surroundings_def count_users_def empty_store_def)
qed

lemma bob_lower: "to_ascii_lowercase (trim ''Bob'') = ''bob''"
  by code_simp

theorem set_role_misses_account_witness:
  "\<exists>s'. assign_role sample_surroundings ''Bob'' Member
     (empty_store\<lparr>users := [(provisioned_row 0 ''u1'' ''Bob'' Admin)]\<rparr>) = (s', Inr ()) \<and>
     provisioned_row 0 ''u1'' ''Bob'' Admin \<in> set (users s') \<and> length (users s') = 2"
  using set_role_misses_account [of "provisioned_row 0 ''u1'' ''Bob'' Admin"
      "empty_store\<lparr>users := [(provisioned_row 0 ''u1'' ''Bob'' Admin)]\<rparr>" sample_surroundings Member]
  by (simp add: sample_surroundings_def provisioned_row_def get_user_by_username_def bob_lower
      numeral_2_eq_2)

section \<open>What an import comes to\<close>

text \<open>The rows of a store as an import sees them: ids by name, live deployments, owners of aliases.\<close>
definition model_id_of :: "sqlite_store \<Rightarrow> string \<rightharpoonup> id" where
  "model_id_of s n = map_option md_id (get_model_by_name n s)"

definition provider_id_of :: "sqlite_store \<Rightarrow> string \<rightharpoonup> id" where
  "provider_id_of s n = map_option pv_id (get_provider_by_name n s)"

definition live_identities :: "sqlite_store \<Rightarrow> (id \<times> id \<times> string) set" where
  "live_identities s = deployment_identity ` {d \<in> set (deployment_rows s). dp_deleted_at d = None}"

definition owner_of :: "sqlite_store \<Rightarrow> string \<rightharpoonup> id" where
  "owner_of s n = alias_owner n s"

text \<open>Nothing is taken away, and aliases are added at most.\<close>
definition extends :: "sqlite_store \<Rightarrow> sqlite_store \<Rightarrow> bool" where
  "extends s s' \<longleftrightarrow> model_id_of s \<subseteq>\<^sub>m model_id_of s' \<and> provider_id_of s \<subseteq>\<^sub>m provider_id_of s' \<and>
     live_identities s \<subseteq> live_identities s' \<and> dom (owner_of s) \<subseteq> dom (owner_of s')"

text \<open>The same, with the aliases as they were.\<close>
definition extends_rows :: "sqlite_store \<Rightarrow> sqlite_store \<Rightarrow> bool" where
  "extends_rows s s' \<longleftrightarrow> extends s s' \<and> owner_of s' = owner_of s"

lemma extends_refl [simp]: "extends s s" "extends_rows s s"
  by (simp_all add: extends_def extends_rows_def)

lemma extends_trans: "extends s t \<Longrightarrow> extends t u \<Longrightarrow> extends s u"
  unfolding extends_def by (meson map_le_trans subset_trans)

lemma extends_rows_trans: "extends_rows s t \<Longrightarrow> extends_rows t u \<Longrightarrow> extends_rows s u"
  unfolding extends_rows_def by (metis extends_trans)

lemma then_run_rows:
  assumes "extends_rows s (fst r)" "\<And>x t. extends_rows t (fst (k x t))"
  shows "extends_rows s (fst (then_run r k))"
  using assms extends_rows_trans [of s "fst r"]
  by (cases r; cases "snd r") (auto simp: then_run_def)

lemma ensure_model_view:
  assumes "ensure_model now i n s = (s', Inr r)"
  shows "model_id_of s' = (model_id_of s)(n \<mapsto> md_id r)" "model_id_of s n \<in> {None, Some (md_id r)}"
    "provider_id_of s' = provider_id_of s" "live_identities s' = live_identities s" "owner_of s' = owner_of s"
    "owner_of s n = None"
proof -
  have "model_id_of s' = (model_id_of s)(n \<mapsto> md_id r) \<and> model_id_of s n \<in> {None, Some (md_id r)} \<and>
    provider_id_of s' = provider_id_of s \<and> live_identities s' = live_identities s \<and> owner_of s' = owner_of s"
    using assms
  proof (cases rule: ensure_model_cases)
    case (known r')
    then show ?thesis by (auto simp: model_id_of_def fun_eq_iff)
  next
    case (fresh r')
    have none: "get_model_by_name n s = None" using fresh(2) by (simp add: get_model_by_name_None)
    have "model_id_of s' m = ((model_id_of s)(n \<mapsto> md_id r)) m" for m
      using fresh none by (auto simp: model_id_of_def get_model_by_name_def find_snoc split: option.splits)
    with none fresh show ?thesis
      by (auto simp: fun_eq_iff model_id_of_def provider_id_of_def get_provider_by_name_def live_identities_def
          owner_of_def alias_owner_def)
  qed simp
  then show "model_id_of s' = (model_id_of s)(n \<mapsto> md_id r)" "model_id_of s n \<in> {None, Some (md_id r)}"
    "provider_id_of s' = provider_id_of s" "live_identities s' = live_identities s" "owner_of s' = owner_of s"
    by auto
  show "owner_of s n = None"
    using assms by (cases "alias_owner n s") (auto simp: owner_of_def ensure_model_def Let_def)
qed

lemma ensure_model_rows: "extends_rows s (fst (ensure_model now i n s))"
proof (cases "ensure_model now i n s")
  case (Pair s' res)
  then show ?thesis
    using ensure_model_refused [of now i n s] ensure_model_view [of now i n s]
    by (cases res) (auto simp: extends_rows_def extends_def map_le_def)
qed

lemma ensure_provider_view:
  assumes "ensure_provider now i n s = (s', Inr r)"
  shows "provider_id_of s' = (provider_id_of s)(n \<mapsto> pv_id r)" "provider_id_of s n \<in> {None, Some (pv_id r)}"
    "model_id_of s' = model_id_of s" "live_identities s' = live_identities s" "owner_of s' = owner_of s"
proof -
  have "provider_id_of s' m = ((provider_id_of s)(n \<mapsto> pv_id r)) m" for m
    using assms
    by (auto simp: ensure_provider_def provider_id_of_def get_provider_by_name_def Let_def find_snoc
        split: option.splits if_splits)
  then show "provider_id_of s' = (provider_id_of s)(n \<mapsto> pv_id r)" by (rule ext)
  show "provider_id_of s n \<in> {None, Some (pv_id r)}"
    "model_id_of s' = model_id_of s" "live_identities s' = live_identities s" "owner_of s' = owner_of s"
    using assms
    by (auto simp: ensure_provider_def provider_id_of_def model_id_of_def get_model_by_name_def Let_def fun_eq_iff
        live_identities_def owner_of_def alias_owner_def split: option.splits if_splits)
qed

lemma ensure_provider_refused: "ensure_provider now i n s = (s', Inl e) \<Longrightarrow> s' = s"
  by (auto simp: ensure_provider_def Let_def split: option.splits if_splits)

lemma ensure_provider_rows: "extends_rows s (fst (ensure_provider now i n s))"
proof (cases "ensure_provider now i n s")
  case (Pair s' res)
  then show ?thesis
    using ensure_provider_refused [of now i n s] ensure_provider_view [of now i n s]
    by (cases res) (auto simp: extends_rows_def extends_def map_le_def)
qed

lemma insert_deployment_view:
  assumes "insert_deployment now i nd mo pr s = Inr s'"
  shows "model_id_of s' = model_id_of s" "provider_id_of s' = provider_id_of s"
    "live_identities s' = insert (md_id mo, pv_id pr, nd_upstream_model nd) (live_identities s)"
    "owner_of s' = owner_of s" "length (deployment_rows s') = Suc (length (deployment_rows s))"
proof -
  obtain d where d: "s' = s\<lparr>deployment_rows := deployment_rows s @ [d]\<rparr>" "dp_deleted_at d = None"
    "deployment_identity d = (md_id mo, pv_id pr, nd_upstream_model nd)"
    using assms by (auto simp: insert_deployment_def Let_def deployment_identity_def split: if_splits)
  have "{x \<in> set (deployment_rows s'). dp_deleted_at x = None} =
      insert d {x \<in> set (deployment_rows s). dp_deleted_at x = None}"
    using d(1,2) by auto
  then show "live_identities s' = insert (md_id mo, pv_id pr, nd_upstream_model nd) (live_identities s)"
    by (simp add: live_identities_def d(3))
qed (use assms in \<open>auto simp: insert_deployment_def Let_def model_id_of_def get_model_by_name_def provider_id_of_def
      get_provider_by_name_def owner_of_def alias_owner_def fun_eq_iff split: if_splits\<close>)

lemma create_deployment_rows: "extends_rows s (fst (create_deployment now ids nd s))"
proof -
  have "extends_rows s (fst (keep_on_error s (insert_deployment now i nd mo pr s)))" for i mo pr s
    using insert_deployment_view [of now i nd mo pr s]
    by (auto simp: keep_on_error_def extends_rows_def extends_def split: sum.split)
  then show ?thesis
    by (auto simp: create_deployment_def split: prod.split
        intro!: then_run_rows ensure_model_rows ensure_provider_rows)
qed

lemma seed_deployment_rows: "extends_rows s (fst (seed_deployment now ids ids2 nd s))"
  by (auto simp: seed_deployment_def intro!: then_run_rows ensure_model_rows ensure_provider_rows create_deployment_rows)

lemma seed_deployments_rows: "extends_rows s (fst (seed_deployments now ids k name dcs n s))"
  by (induction dcs arbitrary: k n s) (auto intro!: then_run_rows seed_deployment_rows)

lemma seed_models_rows: "extends_rows s (fst (seed_models now ids k mcs n s))"
  by (induction mcs arbitrary: k n s) (auto intro!: then_run_rows ensure_model_rows seed_deployments_rows)

text \<open>A deployment of a file is in place: its model, its provider and a live row of the two.\<close>
definition placed :: "new_deployment \<Rightarrow> sqlite_store \<Rightarrow> bool" where
  "placed nd s \<longleftrightarrow> (\<exists>i p. model_id_of s (nd_model_name nd) = Some i \<and> provider_id_of s (nd_provider_name nd) = Some p \<and>
     (i, p, nd_upstream_model nd) \<in> live_identities s)"

lemma placed_extends: "placed nd s \<Longrightarrow> extends s s' \<Longrightarrow> placed nd s'"
  unfolding placed_def extends_def map_le_def by (metis (no_types, lifting) domI subsetD)

lemma seeded_placed: "seeded nd s \<longleftrightarrow> placed nd s \<and> owner_of s (nd_model_name nd) = None"
  by (auto simp: seeded_def placed_def owner_of_def model_id_of_def provider_id_of_def live_identities_def list_ex_iff
      image_iff) (metis fst_conv snd_conv)+

lemma create_deployment_count:
  assumes "create_deployment now ids nd s = (s', Inr r)"
  shows "length (deployment_rows s') = Suc (length (deployment_rows s))"
proof -
  obtain im ip i where ids: "ids = (im, ip, i)" by (cases ids) auto
  from assms obtain s1 mo s2 pr where 1: "ensure_model now im (nd_model_name nd) s = (s1, Inr mo)"
    and 2: "ensure_provider now ip (nd_provider_name nd) s1 = (s2, Inr pr)"
    and 3: "insert_deployment now i nd mo pr s2 = Inr s'"
    unfolding create_deployment_def ids prod.case
    by (auto elim!: then_run_Inr simp: keep_on_error_def ok_or_def split: sum.splits option.splits)
  show ?thesis
    using insert_deployment_view(5) [OF 3] ensure_model_after(4) [OF 1] ensure_provider_after(4) [OF 2] by simp
qed

text \<open>A seeding that succeeds puts the deployment in place, and tells whether it added the row.\<close>
lemma seed_deployment_view:
  assumes "seed_deployment now ids ids2 nd s = (s', Inr b)"
  shows "seeded nd s'" "length (deployment_rows s') = length (deployment_rows s) + (if b then 1 else 0)"
proof -
  from assms obtain s1 mo s2 pr where
    1: "ensure_model now (fst ids) (nd_model_name nd) s = (s1, Inr mo)" and
    2: "ensure_provider now (snd ids) (nd_provider_name nd) s1 = (s2, Inr pr)" and
    3: "(if list_ex (\<lambda>d. deployment_identity d = (md_id mo, pv_id pr, nd_upstream_model nd) \<and>
            dp_deleted_at d = None) (deployment_rows s2)
       then (s2, Inr False)
       else then_run (create_deployment now ids2 nd s2) (\<lambda>_ s3. (s3, Inr True))) = (s', Inr b)"
    unfolding seed_deployment_def by (elim then_run_Inr) blast
  have rows: "alias_owner (nd_model_name nd) s2 = None" "get_model_by_name (nd_model_name nd) s2 = Some mo"
    "get_provider_by_name (nd_provider_name nd) s2 = Some pr" "deployment_rows s2 = deployment_rows s"
    using ensure_model_after [OF 1] ensure_provider_after [OF 2]
    by (simp_all add: alias_owner_def get_model_by_name_def)
  have "seeded nd s' \<and> length (deployment_rows s') = length (deployment_rows s) + (if b then 1 else 0)"
  proof (cases "list_ex (\<lambda>d. deployment_identity d = (md_id mo, pv_id pr, nd_upstream_model nd) \<and>
            dp_deleted_at d = None) (deployment_rows s2)")
    case True
    then show ?thesis using 3 rows by (auto simp: seeded_def)
  next
    case False
    then obtain r where "create_deployment now ids2 nd s2 = (s', Inr r)" "b"
      using 3 by (auto elim!: then_run_Inr)
    with create_deployment_seeded [OF this(1)] create_deployment_count [OF this(1)] rows(4) show ?thesis by simp
  qed
  then show "seeded nd s'" "length (deployment_rows s') = length (deployment_rows s) + (if b then 1 else 0)"
    by simp_all
qed

lemma seed_deployments_view:
  assumes "seed_deployments now ids k name dcs n s = (s', Inr m)"
  shows "\<forall>dc \<in> set dcs. seeded (new_of name dc) s'" "length (deployment_rows s') + n = length (deployment_rows s) + m"
proof -
  have "(\<forall>dc \<in> set dcs. seeded (new_of name dc) s') \<and> length (deployment_rows s') + n = length (deployment_rows s) + m"
    using assms
  proof (induction dcs arbitrary: k n s)
    case (Cons dc dcs)
    then obtain s1 b where 1: "seed_deployment now (ids k, ids (k + 1)) (ids (k + 2), ids (k + 3), ids (k + 4))
          (new_of name dc) s = (s1, Inr b)"
      and 2: "seed_deployments now ids (k + 5) name dcs (if b then Suc n else n) s1 = (s', Inr m)"
      by (auto elim!: then_run_Inr)
    have "extends_rows s1 s'" using seed_deployments_rows [of s1 now ids "k + 5" name dcs "if b then Suc n else n"] 2 by simp
    then have "seeded (new_of name dc) s'"
      using seed_deployment_view(1) [OF 1] placed_extends by (auto simp: seeded_placed extends_rows_def)
    with Cons.IH [OF 2] seed_deployment_view(2) [OF 1] show ?case by (auto split: if_splits)
  qed simp
  then show "\<forall>dc \<in> set dcs. seeded (new_of name dc) s'" "length (deployment_rows s') + n = length (deployment_rows s) + m"
    by simp_all
qed

text \<open>The models of a file that are in the store under their own names, with their deployments.\<close>
definition models_in :: "model_config list \<Rightarrow> sqlite_store \<Rightarrow> bool" where
  "models_in mcs s \<longleftrightarrow> (\<forall>mc \<in> set mcs. mc_model_name mc \<in> dom (model_id_of s) \<and>
     (\<forall>dc \<in> set (mc_deployments mc). placed (new_of (mc_model_name mc) dc) s))"

lemma models_in_extends: "models_in mcs s \<Longrightarrow> extends s s' \<Longrightarrow> models_in mcs s'"
  using placed_extends unfolding models_in_def by (metis (full_types) extends_def map_le_implies_dom_le subsetD)

lemma seed_models_view:
  assumes "seed_models now ids k mcs n s = (s', Inr m)"
  shows "models_in mcs s'" "\<forall>mc \<in> set mcs. owner_of s' (mc_model_name mc) = None"
    "length (deployment_rows s') + n = length (deployment_rows s) + m"
proof -
  have "models_in mcs s' \<and> (\<forall>mc \<in> set mcs. owner_of s' (mc_model_name mc) = None) \<and>
    length (deployment_rows s') + n = length (deployment_rows s) + m"
    using assms
  proof (induction mcs arbitrary: k n s)
    case (Cons mc mcs)
    then obtain s1 mo s2 n2 where 1: "ensure_model now (ids k) (mc_model_name mc) s = (s1, Inr mo)"
      and 2: "seed_deployments now ids (Suc k) (mc_model_name mc) (mc_deployments mc) n s1 = (s2, Inr n2)"
      and 3: "seed_models now ids (Suc k + 5 * length (mc_deployments mc)) mcs n2 s2 = (s', Inr m)"
      by (auto elim!: then_run_Inr)
    have 4: "extends_rows s1 s2" "extends_rows s2 s'"
      using seed_deployments_rows [of s1 now ids "Suc k" "mc_model_name mc" "mc_deployments mc" n] 2
        seed_models_rows [of s2 now ids "Suc k + 5 * length (mc_deployments mc)" mcs n2] 3 by simp_all
    have "model_id_of s1 (mc_model_name mc) = Some (md_id mo)" "owner_of s' (mc_model_name mc) = None"
      using ensure_model_view(1,5,6) [OF 1] 4 by (simp_all add: extends_rows_def)
    moreover have "mc_model_name mc \<in> dom (model_id_of s')"
      using calculation(1) 4 by (auto simp: extends_rows_def extends_def map_le_def dom_def)
    moreover have "\<forall>dc \<in> set (mc_deployments mc). placed (new_of (mc_model_name mc) dc) s'"
      using seed_deployments_view(1) [OF 2] 4(2) placed_extends by (auto simp: seeded_placed extends_rows_def)
    ultimately show ?case
      using Cons.IH [OF 3] seed_deployments_view(2) [OF 2] ensure_model_after(4) [OF 1] by (auto simp: models_in_def)
  qed (simp add: models_in_def)
  then show "models_in mcs s'" "\<forall>mc \<in> set mcs. owner_of s' (mc_model_name mc) = None"
    "length (deployment_rows s') + n = length (deployment_rows s) + m" by simp_all
qed

text \<open>The passes over providers leave the other tables alone.\<close>
definition other_rows :: "sqlite_store \<Rightarrow> model_record list \<times> deployment_row list \<times> alias_row list" where
  "other_rows s = (model_rows s, deployment_rows s, alias_rows s)"

lemma provider_statements_others [simp]:
  "other_rows (fst (ensure_provider now i n s)) = other_rows s"
  "other_rows (fst (update_provider now i n b k x s)) = other_rows s"
  by (auto simp: other_rows_def ensure_provider_def update_provider_def Let_def split: option.split)

lemma seed_providers_others: "other_rows (fst (seed_providers now ids k pcs s)) = other_rows s"
proof (induction now ids k pcs s rule: seed_providers.induct)
  case (2 now ids k pc pcs s)
  let ?r = "then_run (ensure_provider now (ids k) (pc_name pc) s) (\<lambda>p s1.
    update_provider now (pv_id p) (pc_name pc) (pc_api_base pc) (pc_api_key pc) (pc_extra pc) s1)"
  have "other_rows (fst ?r) = other_rows s"
    using provider_statements_others(1) [of now "ids k" "pc_name pc" s]
    by (cases "ensure_provider now (ids k) (pc_name pc) s"; cases "snd (ensure_provider now (ids k) (pc_name pc) s)")
       (simp_all add: then_run_def)
  with 2 show ?case by (cases ?r; cases "snd ?r") auto
qed simp

lemma hoist_others: "other_rows (fst (hoist_loop now ids k dcs don warned s)) = other_rows s"
proof (induction now ids k dcs don warned s rule: hoist_loop.induct)
  case (2 now ids k dc dcs don warned s)
  obtain s1 r where e: "ensure_provider now (ids k) (dc_provider dc) s = (s1, r)" by force
  then have s1: "other_rows s1 = other_rows s"
    using provider_statements_others(1) [of now "ids k" "dc_provider dc" s] by simp
  show ?case
  proof (cases r)
    case (Inr p)
    obtain s2 q where u: "update_provider now (pv_id p) (dc_provider dc) (dc_api_base dc) (dc_api_key dc)
        (dc_extra dc) s1 = (s2, q)" by force
    then have "other_rows s2 = other_rows s"
      using provider_statements_others(2) [of now "pv_id p" "dc_provider dc" "dc_api_base dc" "dc_api_key dc"
          "dc_extra dc" s1] s1 by simp
    with 2 e u s1 Inr show ?thesis by (cases q) (auto simp: Let_def)
  qed (use 2 e s1 in auto)
qed simp

lemma owner_of_others: "other_rows s = other_rows s' \<Longrightarrow> owner_of s = owner_of s' \<and> model_id_of s = model_id_of s' \<and>
    live_identities s = live_identities s'"
  by (simp add: other_rows_def owner_of_def alias_owner_def model_id_of_def get_model_by_name_def
      live_identities_def fun_eq_iff)

lemma owner_of_map: "owner_of s n = map_of (map (\<lambda>a. (al_alias a, al_model_id a)) (alias_rows s)) n"
proof -
  have "map_option al_model_id (find (\<lambda>a. al_alias a = n) rows) = map_of (map (\<lambda>a. (al_alias a, al_model_id a)) rows) n"
    for rows by (induction rows) auto
  then show ?thesis by (simp add: owner_of_def alias_owner_def)
qed

lemma map_of_put_alias:
  "map_of (map (\<lambda>a. (al_alias a, al_model_id a)) (put_alias now n i rows)) m =
     (if m = n then Some i else map_of (map (\<lambda>a. (al_alias a, al_model_id a)) rows) m)"
proof -
  let ?m = "\<lambda>rows. map_of (map (\<lambda>a. (al_alias a, al_model_id a)) rows)"
  have "?m (update_where (\<lambda>r. al_alias r = n) (\<lambda>r. r\<lparr>al_model_id := i\<rparr>) rows) m =
    (if m = n \<and> n \<in> al_alias ` set rows then Some i else ?m rows m)"
    by (induction rows) (auto simp: update_where_def)
  moreover have "?m rows n = None" if "n \<notin> al_alias ` set rows"
    using that by (auto simp: map_of_eq_None_iff)
  ultimately show ?thesis by (auto simp: put_alias_def upsert_by_def map_add_def split: option.split)
qed

lemma upsert_alias_view:
  assumes "upsert_alias now a i s = (s', Inr r)"
  shows "owner_of s' = (owner_of s)(a \<mapsto> i)" "model_id_of s' = model_id_of s" "provider_id_of s' = provider_id_of s"
    "live_identities s' = live_identities s" "length (deployment_rows s') = length (deployment_rows s)"
proof -
  have s': "s' = s\<lparr>alias_rows := put_alias now a i (alias_rows s)\<rparr>"
    using assms by (auto simp: upsert_alias_def Let_def split: if_splits)
  show "owner_of s' = (owner_of s)(a \<mapsto> i)" "model_id_of s' = model_id_of s" "provider_id_of s' = provider_id_of s"
    "live_identities s' = live_identities s" "length (deployment_rows s') = length (deployment_rows s)"
    by (simp_all add: fun_eq_iff s' owner_of_map map_of_put_alias model_id_of_def
        get_model_by_name_def provider_id_of_def get_provider_by_name_def live_identities_def)
qed

lemma seed_alias_list_view:
  assumes "seed_alias_list now i als n s = (s', Inr m)"
  shows "owner_of s' b = (if b \<in> set als then Some i else owner_of s b)" "model_id_of s' = model_id_of s"
    "extends s s'" "length (deployment_rows s') = length (deployment_rows s)"
proof -
  have "(\<forall>b. owner_of s' b = (if b \<in> set als then Some i else owner_of s b)) \<and> model_id_of s' = model_id_of s \<and>
    provider_id_of s' = provider_id_of s \<and> live_identities s' = live_identities s \<and>
    length (deployment_rows s') = length (deployment_rows s)"
    using assms
  proof (induction als arbitrary: n s)
    case (Cons a als)
    then obtain s1 r where 1: "upsert_alias now a i s = (s1, Inr r)"
      and 2: "seed_alias_list now i als (Suc n) s1 = (s', Inr m)"
      by (auto elim!: then_run_Inr)
    from Cons.IH [OF 2] upsert_alias_view [OF 1] show ?case by simp
  qed simp
  then show "owner_of s' b = (if b \<in> set als then Some i else owner_of s b)" "model_id_of s' = model_id_of s"
    "extends s s'" "length (deployment_rows s') = length (deployment_rows s)"
    by (auto simp: extends_def split: if_splits)
qed

definition file_aliases :: "model_config list \<Rightarrow> string list" where
  "file_aliases mcs = concat (map mc_aliases mcs)"

lemma seed_aliases_view:
  assumes "seed_aliases now ids k mcs n s = (s', Inr m)"
  shows "extends s s'" "length (deployment_rows s') = length (deployment_rows s)"
    "\<forall>b. b \<notin> set (file_aliases mcs) \<longrightarrow> owner_of s' b = owner_of s b"
    "set (file_aliases mcs) \<subseteq> dom (owner_of s')"
    "distinct (file_aliases mcs) \<Longrightarrow> \<forall>mc \<in> set mcs. \<forall>a \<in> set (mc_aliases mc). owner_of s' a = model_id_of s' (mc_model_name mc)"
proof -
  have "extends s s' \<and> length (deployment_rows s') = length (deployment_rows s) \<and>
    (\<forall>b. b \<notin> set (file_aliases mcs) \<longrightarrow> owner_of s' b = owner_of s b) \<and>
    set (file_aliases mcs) \<subseteq> dom (owner_of s') \<and>
    (distinct (file_aliases mcs) \<longrightarrow>
      (\<forall>mc \<in> set mcs. \<forall>a \<in> set (mc_aliases mc). owner_of s' a = model_id_of s' (mc_model_name mc)))"
    using assms
  proof (induction mcs arbitrary: k n s)
    case (Cons mc mcs)
    show ?case
    proof (cases "mc_aliases mc = []")
      case True
      with Cons show ?thesis by (auto simp: file_aliases_def)
    next
      case False
      with Cons.prems obtain s1 mo s2 n2 where 1: "ensure_model now (ids k) (mc_model_name mc) s = (s1, Inr mo)"
        and 2: "seed_alias_list now (md_id mo) (mc_aliases mc) n s1 = (s2, Inr n2)"
        and 3: "seed_aliases now ids (Suc k) mcs n2 s2 = (s', Inr m)"
        by (auto elim!: then_run_Inr)
      note ih = Cons.IH [OF 3]
      have "extends_rows s s1" using ensure_model_rows [of s now "ids k" "mc_model_name mc"] 1 by simp
      then have ext: "extends s s'" "owner_of s1 = owner_of s"
        using seed_alias_list_view(3) [OF 2] ih extends_trans unfolding extends_rows_def by blast+
      have own: "owner_of s2 b = (if b \<in> set (mc_aliases mc) then Some (md_id mo) else owner_of s b)" for b
        using seed_alias_list_view(1) [OF 2] ext(2) by simp
      have "model_id_of s2 (mc_model_name mc) = Some (md_id mo)"
        using ensure_model_view(1) [OF 1] seed_alias_list_view(2) [OF 2] by simp
      then have id': "model_id_of s' (mc_model_name mc) = Some (md_id mo)"
        using ih unfolding extends_def map_le_def by (metis domI)
      have doms: "set (mc_aliases mc) \<subseteq> dom (owner_of s')"
        using ih own unfolding extends_def by (metis domI subsetD subsetI)
      have "length (deployment_rows s') = length (deployment_rows s)"
        using ih seed_alias_list_view(4) [OF 2] ensure_model_after(4) [OF 1] by simp
      moreover have "owner_of s' b = owner_of s b" if "b \<notin> set (file_aliases (mc # mcs))" for b
        using that ih own by (simp add: file_aliases_def)
      moreover have "owner_of s' a = Some (md_id mo)"
        if "distinct (file_aliases (mc # mcs))" "a \<in> set (mc_aliases mc)" for a
      proof -
        have "a \<notin> set (file_aliases mcs)" using that by (auto simp: file_aliases_def)
        then show ?thesis using that(2) ih own by simp
      qed
      ultimately show ?thesis using ext(1) doms ih id' by (auto simp: file_aliases_def)
    qed
  qed (simp add: file_aliases_def)
  then show "extends s s'" "length (deployment_rows s') = length (deployment_rows s)"
    "\<forall>b. b \<notin> set (file_aliases mcs) \<longrightarrow> owner_of s' b = owner_of s b"
    "set (file_aliases mcs) \<subseteq> dom (owner_of s')"
    "distinct (file_aliases mcs) \<Longrightarrow> \<forall>mc \<in> set mcs. \<forall>a \<in> set (mc_aliases mc). owner_of s' a = model_id_of s' (mc_model_name mc)"
    by blast+
qed

lemma map_sum_Inr: "map_sum f g x = Inr y \<longleftrightarrow> (\<exists>z. x = Inr z \<and> y = g z)"
  by (cases x) auto

lemma import_file_passes:
  assumes "import_file now ids mf s = (s', Inr (Some rep))"
  obtains s1 s2 u k s3 j where "seed_providers now ids 0 (mf_providers mf) s = (s1, Inr ())"
    "hoist_loop now ids (length (mf_providers mf)) (file_deployments mf) [] [] s1 = (s2, Inr u)"
    "other_rows s2 = other_rows s" "seed_models now ids k (mf_models mf) 0 s2 = (s3, Inr (ir_inserted rep))"
    "seed_aliases now ids j (mf_models mf) 0 s3 = (s', Inr (ir_aliases rep))"
proof -
  let ?k = "length (mf_providers mf) + length (file_deployments mf)"
  obtain s1 r1 where 1: "seed_providers now ids 0 (mf_providers mf) s = (s1, r1)" by force
  obtain s2 r2 where 2: "hoist_loop now ids (length (mf_providers mf)) (file_deployments mf) [] [] s1 = (s2, r2)" by force
  have nonempty: "file_deployments mf \<noteq> []" using assms by (auto simp: import_file_def)
  obtain u where r1: "r1 = Inr u" using assms nonempty 1 by (cases r1) (simp_all add: import_file_def)
  obtain q where r2: "r2 = Inr q" using assms nonempty 1 2 r1 by (cases r2) (simp_all add: import_file_def)
  obtain don warned where q: "q = (don, warned)" by force
  have run: "then_run (seed_models now ids ?k (mf_models mf) 0 s2) (\<lambda>inserted s3.
      then_run (seed_aliases now ids (?k + length (mf_models mf) + 5 * length (file_deployments mf)) (mf_models mf) 0 s3)
        (\<lambda>als s4. (s4, Inr \<lparr>ir_inserted = inserted, ir_providers = length (mf_providers mf),
           ir_hoisted = length don, ir_aliases = als, ir_warned = warned\<rparr>))) = (s', Inr rep)"
    (is "?run = _")
    using assms nonempty 1 2 r1 r2 q by (cases ?run; cases "snd ?run") (simp_all add: import_file_def)
  have "other_rows s2 = other_rows s"
    using seed_providers_others [of now ids 0 "mf_providers mf" s] 1
      hoist_others [of now ids "length (mf_providers mf)" "file_deployments mf" "[]" "[]" s1] 2 by simp
  then show thesis using run by (elim then_run_Inr) (rule that [of s1 s2 q], use 1 2 r1 r2 in auto)
qed

text \<open>What an import that succeeds leaves in the tables.\<close>
lemma import_file_view:
  assumes "import_file now ids mf s = (s', Inr (Some rep))"
  shows "models_in (mf_models mf) s'"
    and "length (deployment_rows s') = length (deployment_rows s) + ir_inserted rep"
    and "model_id_of s \<subseteq>\<^sub>m model_id_of s'" "live_identities s \<subseteq> live_identities s'"
    and "set (file_aliases (mf_models mf)) \<subseteq> dom (owner_of s')"
    and "distinct (file_aliases (mf_models mf)) \<Longrightarrow>
      \<forall>mc \<in> set (mf_models mf). \<forall>a \<in> set (mc_aliases mc). owner_of s' a = model_id_of s' (mc_model_name mc)"
proof -
  obtain s2 k s3 j where s2: "other_rows s2 = other_rows s"
    and m: "seed_models now ids k (mf_models mf) 0 s2 = (s3, Inr (ir_inserted rep))"
    and a: "seed_aliases now ids j (mf_models mf) 0 s3 = (s', Inr (ir_aliases rep))"
    by (rule import_file_passes [OF assms])
  note same = owner_of_others [OF s2]
  have "extends_rows s2 s3" using seed_models_rows [of s2 now ids k "mf_models mf" 0] m by simp
  then have ext: "extends s2 s'" using seed_aliases_view(1) [OF a] extends_trans by (auto simp: extends_rows_def)
  then show "model_id_of s \<subseteq>\<^sub>m model_id_of s'" "live_identities s \<subseteq> live_identities s'"
    using same by (simp_all add: extends_def)
  show "models_in (mf_models mf) s'"
    using seed_models_view(1) [OF m] seed_aliases_view(1) [OF a] by (rule models_in_extends)
  show "length (deployment_rows s') = length (deployment_rows s) + ir_inserted rep"
    using seed_models_view(3) [OF m] seed_aliases_view(2) [OF a] s2 by (simp add: other_rows_def)
  show "set (file_aliases (mf_models mf)) \<subseteq> dom (owner_of s')" using seed_aliases_view(4) [OF a] by simp
  show "\<forall>mc \<in> set (mf_models mf). \<forall>a \<in> set (mc_aliases mc). owner_of s' a = model_id_of s' (mc_model_name mc)"
    if "distinct (file_aliases (mf_models mf))" using that seed_aliases_view(5) [OF a] by simp
qed



section \<open>Importing again\<close>

lemma provider_id_of_map: "provider_id_of s n = map_of (map (\<lambda>r. (pv_name r, pv_id r)) (provider_rows s)) n"
proof -
  have "map_option pv_id (find (\<lambda>r. pv_name r = n) rows) = map_of (map (\<lambda>r. (pv_name r, pv_id r)) rows) n"
    for rows by (induction rows) auto
  then show ?thesis by (simp add: provider_id_of_def get_provider_by_name_def)
qed

text \<open>The update of a provider under its own name does what it is asked to and moves no name.\<close>
lemma update_provider_known:
  assumes "store_ok s" "get_provider_by_name n s = Some p"
  obtains s' q where "update_provider now (pv_id p) n b k x s = (s', Inr q)" "store_ok s'"
    "provider_id_of s' = provider_id_of s" "other_rows s' = other_rows s"
    "get_provider_by_name n s' = Some q" "pv_api_base q = b" "pv_extra q = x"
proof -
  have p: "p \<in> set (provider_rows s)" "pv_name p = n"
    using assms(2) by (auto simp: get_provider_by_name_def find_Some_iff)
  have inj: "r = p" if "r \<in> set (provider_rows s)" "pv_name r = n \<or> pv_id r = pv_id p" for r
    using that p assms(1) by (auto simp: store_ok_def providers_ok_def distinct_map inj_on_def)
  let ?q = "p\<lparr>pv_api_base := b, pv_api_key := (case k of Some k \<Rightarrow> Some k | None \<Rightarrow> pv_api_key p),
     pv_extra := x, pv_updated_at := now\<rparr>"
  let ?s = "s\<lparr>provider_rows := update_where (\<lambda>r. pv_id r = pv_id p)
     (\<lambda>r. r\<lparr>pv_name := n, pv_api_base := b, pv_api_key := (case k of Some k \<Rightarrow> Some k | None \<Rightarrow> pv_api_key r),
        pv_extra := x, pv_updated_at := now\<rparr>) (provider_rows s)\<rparr>"
  have free: "\<not> list_ex (\<lambda>r. pv_name r = n \<and> pv_id r \<noteq> pv_id p) (provider_rows s)"
    using inj by (auto simp: list_ex_iff)
  then have run: "update_provider now (pv_id p) n b k x s = (?s, ok_or (get_provider (pv_id p) ?s) (NotFound ''provider''))"
    unfolding update_provider_def Let_def by (rule if_not_P)
  have ok: "store_ok ?s"
    using provider_statements_ok(1) [OF assms(1), of now "pv_id p" n b k x] unfolding run fst_conv .
  have "?q \<in> set (provider_rows ?s)" using p by (auto simp: set_update_where intro!: image_eqI [where x = p])
  with ok have "get_provider (pv_id p) ?s = Some ?q" "get_provider_by_name n ?s = Some ?q"
    using p(2) unfolding get_provider_def get_provider_by_name_def
    by (simp_all add: find_key_iff store_ok_def providers_ok_def)
  moreover have "map (\<lambda>r. (pv_name r, pv_id r)) (provider_rows ?s) = map (\<lambda>r. (pv_name r, pv_id r)) (provider_rows s)"
    using inj p(2) by (auto simp: update_where_def)
  then have "provider_id_of ?s = provider_id_of s" by (intro ext) (simp only: provider_id_of_map)
  ultimately show thesis using that [OF _ ok, of ?q] run by (simp add: ok_or_def other_rows_def)
qed

lemma ensure_provider_known_id:
  assumes "n \<in> dom (provider_id_of s)"
  obtains p where "get_provider_by_name n s = Some p" "ensure_provider now i n s = (s, Inr p)"
  using assms that by (auto simp: provider_id_of_def dom_def ensure_provider_known)

text \<open>The passes over providers that are all there succeed and leave what the later passes read.\<close>
definition same_view :: "sqlite_store \<Rightarrow> sqlite_store \<Rightarrow> bool" where
  "same_view s s' \<longleftrightarrow> store_ok s' \<and> provider_id_of s' = provider_id_of s \<and> other_rows s' = other_rows s"

lemma seed_providers_again:
  "store_ok s \<Longrightarrow> \<forall>pc \<in> set pcs. trim (pc_name pc) \<noteq> [] \<and> pc_name pc \<in> dom (provider_id_of s) \<Longrightarrow>
     \<exists>s'. seed_providers now ids k pcs s = (s', Inr ()) \<and> same_view s s'"
proof (induction pcs arbitrary: k s)
  case (Cons pc pcs)
  then have "pc_name pc \<in> dom (provider_id_of s)" by simp
  then obtain p where p: "get_provider_by_name (pc_name pc) s = Some p"
      "ensure_provider now (ids k) (pc_name pc) s = (s, Inr p)"
    by (rule ensure_provider_known_id)
  obtain s1 q where u: "update_provider now (pv_id p) (pc_name pc) (pc_api_base pc) (pc_api_key pc) (pc_extra pc) s = (s1, Inr q)"
    "store_ok s1" "provider_id_of s1 = provider_id_of s" "other_rows s1 = other_rows s"
    by (rule update_provider_known [OF Cons.prems(1) p(1)])
  then obtain s' where "seed_providers now ids (Suc k) pcs s1 = (s', Inr ())" "same_view s1 s'"
    using Cons.IH [of s1 "Suc k"] Cons.prems(2) by auto
  with Cons.prems(2) p u show ?case by (simp add: then_run_def same_view_def)
qed (simp add: same_view_def)

lemma hoist_again:
  "store_ok s \<Longrightarrow> \<forall>dc \<in> set dcs. dc_provider dc \<in> dom (provider_id_of s) \<Longrightarrow>
     \<exists>s' don' warned'. hoist_loop now ids k dcs don warned s = (s', Inr (don', warned')) \<and> same_view s s'"
proof (induction dcs arbitrary: k don warned s)
  case (Cons dc dcs)
  then have "dc_provider dc \<in> dom (provider_id_of s)" by simp
  then obtain p where p: "get_provider_by_name (dc_provider dc) s = Some p"
      "ensure_provider now (ids k) (dc_provider dc) s = (s, Inr p)"
    by (rule ensure_provider_known_id)
  obtain s1 q where u: "update_provider now (pv_id p) (dc_provider dc) (dc_api_base dc) (dc_api_key dc) (dc_extra dc) s = (s1, Inr q)"
    "store_ok s1" "provider_id_of s1 = provider_id_of s" "other_rows s1 = other_rows s"
    by (rule update_provider_known [OF Cons.prems(1) p(1)])
  have later: "\<exists>s' don' warned'. hoist_loop now ids (Suc k) dcs d w t = (s', Inr (don', warned')) \<and> same_view s s'"
    if "t = s \<or> t = s1" for d w t
    using Cons.IH [of t "Suc k" d w] Cons.prems u that by (auto simp: same_view_def)
  show ?case using p u(1) later by (simp add: Let_def)
qed (simp add: same_view_def)

text \<open>What the passes over models and aliases need to change nothing but owners.\<close>
definition in_place :: "model_config list \<Rightarrow> sqlite_store \<Rightarrow> bool" where
  "in_place mcs s \<longleftrightarrow> models_in mcs s \<and> (\<forall>mc \<in> set mcs. owner_of s (mc_model_name mc) = None)"

lemma in_place_model:
  assumes "in_place mcs s" "mc \<in> set mcs"
  obtains m where "get_model_by_name (mc_model_name mc) s = Some m" "ensure_model now i (mc_model_name mc) s = (s, Inr m)"
  using assms that
  by (auto simp: in_place_def models_in_def model_id_of_def dom_def owner_of_def ensure_model_known)

lemma seed_deployments_again:
  "\<forall>dc \<in> set dcs. seeded (new_of name dc) s \<Longrightarrow> seed_deployments now ids k name dcs n s = (s, Inr n)"
  by (induction dcs arbitrary: k) (simp_all add: seed_seeded then_run_def)

lemma seed_models_again: "in_place mcs s \<Longrightarrow> seed_models now ids k mcs n s = (s, Inr n)"
proof (induction mcs arbitrary: k)
  case (Cons mc mcs)
  obtain m where "ensure_model now (ids k) (mc_model_name mc) s = (s, Inr m)"
    by (rule in_place_model [OF Cons.prems, of mc]) simp
  moreover have "\<forall>dc \<in> set (mc_deployments mc). seeded (new_of (mc_model_name mc) dc) s"
    using Cons.prems by (auto simp: in_place_def models_in_def seeded_placed new_of_def)
  moreover have "in_place mcs s" using Cons.prems by (simp add: in_place_def models_in_def)
  ultimately show ?case using Cons.IH by (simp add: then_run_def seed_deployments_again)
qed simp

lemma seed_alias_list_again:
  "i \<in> md_id ` set (model_rows s) \<Longrightarrow>
     \<exists>s' m. seed_alias_list now i als n s = (s', Inr m) \<and> model_rows s' = model_rows s \<and>
       deployment_rows s' = deployment_rows s"
proof (induction als arbitrary: n s)
  case (Cons a als)
  let ?s = "s\<lparr>alias_rows := put_alias now a i (alias_rows s)\<rparr>"
  have "owner_of ?s a = Some i" by (simp add: owner_of_map map_of_put_alias)
  then obtain r where "find (\<lambda>x. al_alias x = a) (alias_rows ?s) = Some r" "al_model_id r = i"
    by (auto simp: owner_of_def alias_owner_def)
  moreover have "get_model i ?s \<noteq> None" using Cons.prems by (auto simp: get_model_None)
  ultimately obtain x where "upsert_alias now a i s = (?s, Inr x)"
    using Cons.prems by (auto simp: upsert_alias_def Let_def join_alias_def ok_or_def)
  with Cons.IH [of ?s "Suc n"] Cons.prems show ?case by (simp add: then_run_def)
qed simp

lemma seed_aliases_again:
  "in_place mcs s \<Longrightarrow> \<forall>mc \<in> set mcs. mc_model_name mc \<notin> set (file_aliases mcs) \<Longrightarrow>
     \<exists>s' m. seed_aliases now ids k mcs n s = (s', Inr m) \<and> model_rows s' = model_rows s \<and>
       deployment_rows s' = deployment_rows s"
proof (induction mcs arbitrary: k n s)
  case (Cons mc mcs)
  have rest: "\<forall>mc \<in> set mcs. mc_model_name mc \<notin> set (file_aliases mcs)" "in_place mcs s"
    using Cons.prems by (auto simp: file_aliases_def in_place_def models_in_def)
  show ?case
  proof (cases "mc_aliases mc = []")
    case True
    with Cons.IH [OF rest(2,1)] show ?thesis by simp
  next
    case False
    obtain m where m: "get_model_by_name (mc_model_name mc) s = Some m"
        "ensure_model now (ids k) (mc_model_name mc) s = (s, Inr m)"
      by (rule in_place_model [OF Cons.prems(1), of mc]) simp
    then have "md_id m \<in> md_id ` set (model_rows s)" by (auto simp: get_model_by_name_def find_Some_iff)
    then obtain s1 n2 where 1: "seed_alias_list now (md_id m) (mc_aliases mc) n s = (s1, Inr n2)"
        "model_rows s1 = model_rows s" "deployment_rows s1 = deployment_rows s"
      using seed_alias_list_again by blast
    have "owner_of s1 (mc_model_name x) = owner_of s (mc_model_name x)" if "x \<in> set mcs" for x
      using seed_alias_list_view(1) [OF 1(1)] Cons.prems(2) that by (auto simp: file_aliases_def)
    then have "in_place mcs s1"
      using rest(2) models_in_extends [OF _ seed_alias_list_view(3) [OF 1(1)]] by (simp add: in_place_def)
    from Cons.IH [OF this rest(1), of "Suc k" n2] m(2) 1 False show ?thesis by (auto simp: then_run_def)
  qed
qed simp

text \<open>The store stays in order through every pass, and providers that are there stay there.\<close>
lemma seed_passes_ok:
  "store_ok s \<Longrightarrow> store_ok (fst (seed_deployments now ids k name dcs n s))"
  "store_ok s \<Longrightarrow> store_ok (fst (seed_models now ids k mcs n s))"
  "store_ok s \<Longrightarrow> store_ok (fst (seed_alias_list now i als n s))"
  "store_ok s \<Longrightarrow> store_ok (fst (seed_aliases now ids k mcs n s))"
proof -
  show 1: "store_ok s \<Longrightarrow> store_ok (fst (seed_deployments now ids k name dcs n s))" for k name dcs n s
    by (induction dcs arbitrary: k n s) (auto intro!: store_ok_then_run deployment_statements_ok(2))
  show "store_ok s \<Longrightarrow> store_ok (fst (seed_models now ids k mcs n s))"
    by (induction mcs arbitrary: k n s) (auto intro!: store_ok_then_run ensure_model_ok 1)
  show 2: "store_ok s \<Longrightarrow> store_ok (fst (seed_alias_list now i als n s))" for i als n s
    by (induction als arbitrary: n s) (auto intro!: store_ok_then_run alias_statements_ok(2))
  show "store_ok s \<Longrightarrow> store_ok (fst (seed_aliases now ids k mcs n s))"
    by (induction mcs arbitrary: k n s) (auto intro!: store_ok_then_run ensure_model_ok 2)
qed

lemma seed_providers_first:
  "store_ok s \<Longrightarrow> seed_providers now ids k pcs s = (s', Inr u) \<Longrightarrow>
     store_ok s' \<and> dom (provider_id_of s) \<subseteq> dom (provider_id_of s') \<and>
     (\<forall>pc \<in> set pcs. trim (pc_name pc) \<noteq> [] \<and> pc_name pc \<in> dom (provider_id_of s'))"
proof (induction pcs arbitrary: k s)
  case (Cons pc pcs)
  from Cons.prems(2) obtain s1 p s2 q where 1: "ensure_provider now (ids k) (pc_name pc) s = (s1, Inr p)"
    and 2: "update_provider now (pv_id p) (pc_name pc) (pc_api_base pc) (pc_api_key pc) (pc_extra pc) s1 = (s2, Inr q)"
    and 3: "seed_providers now ids (Suc k) pcs s2 = (s', Inr u)" "trim (pc_name pc) \<noteq> []"
    by (auto split: if_splits prod.splits sum.splits elim!: then_run_Inr)
  have ok: "store_ok s1" using ensure_provider_ok [OF Cons.prems(1), of now "ids k" "pc_name pc"] 1 by simp
  have view: "provider_id_of s1 = (provider_id_of s)(pc_name pc \<mapsto> pv_id p)" by (rule ensure_provider_view(1) [OF 1])
  have "get_provider_by_name (pc_name pc) s1 = Some p" by (rule ensure_provider_after(1) [OF 1])
  from update_provider_known [OF ok this, of now "pc_api_base pc" "pc_api_key pc" "pc_extra pc"] 2
  have s2: "store_ok s2" "provider_id_of s2 = provider_id_of s1" by auto
  then have "dom (provider_id_of s2) = insert (pc_name pc) (dom (provider_id_of s))"
    using view by (simp del: fun_upd_apply)
  with Cons.IH [OF s2(1) 3(1)] 3(2) show ?case by simp
qed simp

lemma hoist_first:
  "store_ok s \<Longrightarrow> hoist_loop now ids k dcs don warned s = (s', Inr u) \<Longrightarrow>
     store_ok s' \<and> dom (provider_id_of s) \<subseteq> dom (provider_id_of s')"
proof (induction dcs arbitrary: k don warned s)
  case (Cons dc dcs)
  show ?case
  proof (cases "dc_api_base dc = None \<and> dc_api_key dc = None \<and> extra_is_empty (dc_extra dc)")
    case True
    with Cons show ?thesis by simp
  next
    case False
    with Cons.prems(2) obtain s1 p where 1: "ensure_provider now (ids k) (dc_provider dc) s = (s1, Inr p)"
      by (cases "ensure_provider now (ids k) (dc_provider dc) s"; cases "snd (ensure_provider now (ids k) (dc_provider dc) s)")
         auto
    have ok: "store_ok s1" using ensure_provider_ok [OF Cons.prems(1), of now "ids k" "dc_provider dc"] 1 by simp
    have view: "dom (provider_id_of s) \<subseteq> dom (provider_id_of s1)"
      using ensure_provider_view(1) [OF 1] by auto
    obtain s2 q where 2: "update_provider now (pv_id p) (dc_provider dc) (dc_api_base dc) (dc_api_key dc) (dc_extra dc) s1
        = (s2, Inr q)" "store_ok s2" "provider_id_of s2 = provider_id_of s1"
      by (rule update_provider_known [OF ok ensure_provider_after(1) [OF 1]])
    have "store_ok s' \<and> dom (provider_id_of t) \<subseteq> dom (provider_id_of s')"
      if "hoist_loop now ids (Suc k) dcs d w t = (s', Inr u)" "t = s1 \<or> t = s2" for d w t
      using Cons.IH [OF _ that(1)] that(2) ok 2(2) by blast
    with Cons.prems(2) False 1 2 view show ?thesis by (fastforce simp: Let_def split: if_splits)
  qed
qed simp

text \<open>A file that names none of its models as an alias is imported again without an error, whatever ids and
  time the second run draws: it adds no deployment and no model, and reports none.\<close>
theorem import_again:
  assumes "store_ok s0" "import_file now ids mf s0 = (s, Inr (Some rep))"
    and "\<forall>mc \<in> set (mf_models mf). mc_model_name mc \<notin> set (file_aliases (mf_models mf))"
  shows "\<exists>s' rep'. import_file now2 ids2 mf s = (s', Inr (Some rep')) \<and> ir_inserted rep' = 0 \<and>
    model_rows s' = model_rows s \<and> deployment_rows s' = deployment_rows s"
proof -
  let ?ms = "mf_models mf" and ?p = "length (mf_providers mf)" and ?dcs = "file_deployments mf"
  have nonempty: "?dcs \<noteq> []" using assms(2) by (auto simp: import_file_def)
  obtain s1 s2 u k s3 j where 1: "seed_providers now ids 0 (mf_providers mf) s0 = (s1, Inr ())"
    and 2: "hoist_loop now ids ?p ?dcs [] [] s1 = (s2, Inr u)"
    and 3: "seed_models now ids k ?ms 0 s2 = (s3, Inr (ir_inserted rep))"
    and 4: "seed_aliases now ids j ?ms 0 s3 = (s, Inr (ir_aliases rep))"
    by (rule import_file_passes [OF assms(2)])
  note first = seed_providers_first [OF assms(1) 1]
  then have hoisted: "store_ok s2" "dom (provider_id_of s1) \<subseteq> dom (provider_id_of s2)"
    using hoist_first [OF _ 2] by blast+
  have ok: "store_ok s"
    using seed_passes_ok(4) [of s3 now ids j ?ms 0] seed_passes_ok(2) [OF hoisted(1), of now ids k ?ms 0] 3 4 by simp
  have ext: "extends s2 s"
    using seed_models_rows [of s2 now ids k ?ms 0] 3 seed_aliases_view(1) [OF 4] extends_trans
    by (auto simp: extends_rows_def)
  have place: "in_place ?ms s"
    using import_file_view(1,6) [OF assms(2)] seed_models_view(2) [OF 3] seed_aliases_view(3) [OF 4] assms(3)
    by (simp add: in_place_def)
  have known: "\<forall>pc \<in> set (mf_providers mf). trim (pc_name pc) \<noteq> [] \<and> pc_name pc \<in> dom (provider_id_of s)"
    using first hoisted(2) ext unfolding extends_def by (meson map_le_implies_dom_le subsetD)
  have "\<forall>dc \<in> set ?dcs. dc_provider dc \<in> dom (provider_id_of s)"
    using place by (fastforce simp: in_place_def models_in_def file_deployments_def placed_def new_of_def)
  obtain t1 where t1: "seed_providers now2 ids2 0 (mf_providers mf) s = (t1, Inr ())" "same_view s t1"
    using seed_providers_again [OF ok known] by blast
  obtain t2 don warned where t2: "hoist_loop now2 ids2 ?p ?dcs [] [] t1 = (t2, Inr (don, warned))" "same_view t1 t2"
    using hoist_again [of t1 ?dcs now2 ids2 ?p "[]" "[]"] t1(2) \<open>\<forall>dc \<in> set ?dcs. _ dc\<close>
    by (auto simp: same_view_def)
  have view: "other_rows t2 = other_rows s" "provider_id_of t2 = provider_id_of s"
    using t1(2) t2(2) by (simp_all add: same_view_def)
  have "in_place ?ms t2"
    using place owner_of_others [OF view(1)] view(2) by (simp add: in_place_def models_in_def placed_def)
  note place2 = this
  obtain t3 m where "seed_aliases now2 ids2 (?p + length ?dcs + length ?ms + 5 * length ?dcs) ?ms 0 t2 = (t3, Inr m)"
      "model_rows t3 = model_rows t2" "deployment_rows t3 = deployment_rows t2"
    using seed_aliases_again [OF place2 assms(3)] by blast
  with t1(1) t2(1) seed_models_again [OF place2] nonempty view(1) show ?thesis
    by (simp add: import_file_def then_run_def other_rows_def)
qed

text \<open>A provider that its block gave extras and no address or key counts as not configured: the first
  deployment that carries extras of its own replaces those of the block.\<close>
theorem hoist_replaces_extra:
  assumes "store_ok s" "get_provider_by_name (dc_provider dc) s = Some p" "pv_api_base p = None" "pv_api_key p = None"
    and "\<not> extra_is_empty (dc_extra dc)"
  shows "\<exists>s' q. fst (hoist_loop now ids k [dc] [] [] s) = s' \<and> get_provider_by_name (dc_provider dc) s' = Some q \<and>
    pv_extra q = dc_extra dc"
proof -
  obtain s' q where "update_provider now (pv_id p) (dc_provider dc) (dc_api_base dc) (dc_api_key dc) (dc_extra dc) s
      = (s', Inr q)" "get_provider_by_name (dc_provider dc) s' = Some q" "pv_extra q = dc_extra dc"
    by (rule update_provider_known [OF assms(1,2)])
  with assms show ?thesis by (simp add: ensure_provider_known)
qed

text \<open>The aliases at the top of a file are never read, and a file without deployments is not either.\<close>
lemma import_reads_no_top_aliases: "import_file now ids (mf\<lparr>mf_aliases := als\<rparr>) s = import_file now ids mf s"
  by (simp add: import_file_def file_deployments_def)

lemma import_needs_deployments:
  "\<forall>mc \<in> set (mf_models mf). mc_deployments mc = [] \<Longrightarrow> import_file now ids mf s = (s, Inr None)"
  by (simp add: import_file_def file_deployments_def)

definition sample_dc :: "string \<Rightarrow> deployment_config" where
  "sample_dc up =
     \<lparr>dc_provider = ''acme'', dc_upstream_model = up, dc_api_base = None, dc_api_key = None,
      dc_upstream_format = Chat OpenaiChat, dc_weight = 1, dc_pricing = None, dc_health_check = HealthNone,
      dc_health_path = None, dc_extra = extra_default\<rparr>"

text \<open>Two models; the second has the alias given.\<close>
definition sample_file :: "string \<Rightarrow> models_file" where
  "sample_file a =
     \<lparr>mf_providers = [\<lparr>pc_name = ''acme'', pc_api_base = None, pc_api_key = None, pc_extra = extra_default\<rparr>],
      mf_models = [\<lparr>mc_model_name = ''gpt'', mc_deployments = [sample_dc ''g''], mc_aliases = []\<rparr>,
        \<lparr>mc_model_name = ''big'', mc_deployments = [sample_dc ''b''], mc_aliases = [a]\<rparr>],
      mf_aliases = Map.empty\<rparr>"

abbreviation sample_import :: "string \<Rightarrow> sqlite_store \<times> (failure + import_report option)" where
  "sample_import a \<equiv> import_file 1 (\<lambda>n. replicate n (CHR ''i'')) (sample_file a) empty_store"

lemma sample_import_values:
  "case snd (sample_import ''gpt'') of Inr (Some r) \<Rightarrow> ir_inserted r = 2 | _ \<Rightarrow> False"
  "case snd (sample_import ''old'') of Inr (Some r) \<Rightarrow> ir_inserted r = 2 | _ \<Rightarrow> False"
  by code_simp+

lemma sample_import_runs:
  assumes "case snd (sample_import a) of Inr (Some r) \<Rightarrow> ir_inserted r = 2 | _ \<Rightarrow> False"
  obtains s r where "sample_import a = (s, Inr (Some r))" "ir_inserted r = 2"
  using assms by (cases "sample_import a") (auto split: sum.splits option.splits)



theorem import_again_witness:
  "\<exists>s r s' r'. sample_import ''old'' = (s, Inr (Some r)) \<and>
     import_file 2 (\<lambda>n. replicate n (CHR ''j'')) (sample_file ''old'') s = (s', Inr (Some r')) \<and> ir_inserted r' = 0"
proof -
  obtain s r where run: "sample_import ''old'' = (s, Inr (Some r))" "ir_inserted r = 2"
    by (rule sample_import_runs [OF sample_import_values(2)])
  from import_again [OF store_ok_empty run(1)] have
    "\<exists>s' r'. import_file 2 (\<lambda>n. replicate n (CHR ''j'')) (sample_file ''old'') s = (s', Inr (Some r')) \<and> ir_inserted r' = 0"
    by (fastforce simp: sample_file_def file_aliases_def)
  with run(1) show ?thesis by blast
qed

end
