(* ===== verification/Spec2Isabelle.thy ===== *)
theory Spec2Isabelle
  imports Access_Control Rate_Limiter Billing Deployment_Router Upstream_Route Chat_IR Admission
    Whole_Answers Embed_Wire Admin_Secrets Capture_Api Telemetry Postgres_Store Commands
begin

text \<open>
  A verification library for the gateway: a server that takes inference requests in the dialects
  of several model vendors, authenticates and limits the caller, picks an upstream deployment for
  the named model, forwards the request in the dialect of that deployment, fails over, translates
  the answer back (streamed or whole), and records every turn for billing.

  \<^bold>\<open>Parts and how they interact.\<close>  An HTTP request enters at \<open>run_inference\<close>
  (crates/yb-server/src/lib.rs), which authenticates a key against the store
  (crates/yb-store), asks the rate limiter (crates/yb-core/src/ratelimit.rs), checks the budgets,
  and hands a request context to the gateway (crates/yb-gateway/src/service.rs, embed.rs, media.rs).
  The gateway asks the deployment router (crates/yb-gateway/src/router.rs) for candidates, filters
  them by the access policy (crates/yb-core/src/model.rs), builds the upstream call
  (crates/yb-providers/src/route.rs) and translates bodies between dialects through a common
  representation (crates/yb-wire/src/ir.rs, aggregate.rs).  Each turn ends in a record: telemetry,
  a log row, spend rollups (crates/yb-core/src/spend.rs) and a charge to the token bucket.

  \<^bold>\<open>Theories.\<close>
  \<^item> \<open>Prelude\<close>: generic lemmas and collections.  \<open>Json_Value\<close>: the \<open>serde_json::Value\<close> type and the
    accessors of crates/yb-wire/src/common.rs.
  \<^item> \<open>Core_Domain\<close>: errors, formats, deployments, routing requests (crates/yb-core/src/error.rs,
    routing.rs, catalog.rs, config.rs).
  \<^item> \<open>Access_Control\<close>: \<open>AccessPolicy\<close> and its merge, scopes, roles, principals.
  \<^item> \<open>Rate_Limiter\<close>: token buckets, \<open>Limiter\<close>, \<open>ConcurrencyGuard\<close>; its runs are an inductive
    step relation over checks, charges and drops.
  \<^item> \<open>Billing\<close>: cost, budget periods and the rollup table.
  \<^item> \<open>Deployment_Router\<close>: snapshot, aliases, the three strategies, \<open>resolve\<close> and \<open>serving\<close>.
  \<^item> \<open>Upstream_Route\<close>: URLs, credentials, headers, and the status classifiers.
  \<^item> \<open>Chat_IR\<close>: requests, responses, events, usage, and the aggregator.
  \<^item> \<open>Wire_Text\<close>: JSON text as a parameter, the lines of an event stream, and the order in which a turn
    emits events; its locale \<open>encoder_simulation\<close> lifts a one-event simulation between a stream encoder and
    a reader to whole streams.  \<open>Anthropic_Wire\<close>, \<open>Openai_Chat_Wire\<close>, \<open>Openai_Responses_Wire\<close> and
    \<open>Gemini_Wire\<close>: the four chat dialects, request and answer parsers and emitters and the streaming
    decoders and encoders of crates/yb-wire/src/anthropic.rs, openai_chat.rs, openai_responses.rs and
    gemini.rs.  An encoder gives frames, which one function renders as text.
  \<^item> \<open>Gateway_Core\<close>: telemetry rows, turn guard, record context and \<open>finish\<close>;
    \<open>Gateway_Turn\<close>: \<open>Gateway::handle\<close> with failover, the four answer paths and the translated
    stream as a state that is polled and may be dropped at any moment.
  \<^item> \<open>Wire_Dispatch\<close>: the dispatch over dialects of crates/yb-gateway/src/wire.rs, which makes the turns
    and the dialects one program; the locale \<open>batched_encoder\<close> and the streams that do not depend on how
    the network cuts a body.  \<open>Whole_Answers\<close>: what a whole answer keeps in every dialect.
  \<^item> \<open>Media_Wire\<close>: multipart forms, media and embedding requests; \<open>Gateway_Media\<close>: the embedding,
    media and video turns.  \<open>Embed_Wire\<close>: the five embedding dialects of crates/yb-wire/src/embed.
  \<^item> \<open>Sqlite_Store\<close>: every statement of the SQLite store and the issue of keys;
    \<open>Store_Laws\<close>: the schema invariant over all mutating statements and the directory of names.
  \<^item> \<open>Admission\<close>: the inference and discovery surface of the server.
  \<^item> \<open>Health_Check\<close>: the checks of a deployment and the listing of an upstream (crates/yb-gateway/src/health.rs
    and \<open>discover_models\<close>).  \<open>Admin_Views\<close>: the JSON the admin API shows of rows.  \<open>Admin_Session\<close>: who a
    request speaks for, login and single sign-on (crates/yb-server/src/sso.rs and the first half of admin.rs).
    \<open>Admin_Api\<close>: every other handler of crates/yb-server/src/admin.rs, the routes as one datatype of calls
    and \<open>admin_step\<close>, which serves one.  \<open>Admin_Laws\<close>: each call is a sequence of store statements, and the
    routing table agrees with the tables after it.  \<open>Admin_Guards\<close>: administrators, members and callers.
    \<open>Admin_Secrets\<close>: what the answers show.
  \<^item> \<open>Redaction\<close>: personal data taken out of captured text (crates/yb-redact).  \<open>Request_Log\<close>: the request log
    (crates/yb-reqlog): policy, queue, worker, rotation, erasure and export; everything that can happen to it is
    the inductive \<open>captures\<close>.  \<open>Capture_Api\<close>: the calls on capture and on the log level (crates/yb-server/src/capture.rs,
    logging.rs).
  \<^item> \<open>Postgres_Store\<close>: the same statements in the dialect of PostgreSQL, over the same tables, and their
    refinement to the SQLite store (crates/yb-store/src/postgres.rs).
  \<^item> \<open>Telemetry\<close>: series, histograms, Prometheus text and OTLP JSON (crates/yb-otel).
  \<^item> \<open>Commands\<close>: the configuration (crates/yb-core/src/config.rs), the commands setup, set-role, import and
    serve of the process (crates/yb-bin/src/main.rs) and the encryption of secrets (crates/yb-store/src/crypto.rs).

  \<^bold>\<open>State and operations.\<close>  A struct is a record with its fields, an enum a datatype, an
  operation a function from the old state to the result and the new state.  Effects of the gateway
  on the store, the observer, the log and the meter are a list of events in the order the code
  issues them; the server settles them against its own state when the handler returns.  Errors are
  the left side of a sum with the constructors of \<open>yb_core::Error\<close>.  Tables of the store are lists
  of rows in insertion order; an insert that breaks a unique or foreign key of the schema is an error.

  \<^bold>\<open>Idealisations.\<close>  Floating point numbers are exact rationals (weights, token buckets, prices); counters that the
  code keeps at a machine width are words or are bounded explicitly.  Clocks and fresh ids are
  arguments or counters.  Concurrency is at the level of whole calls: each method that takes a lock
  or runs one statement is one step.  A panic is the absence of an answer.

  \<^bold>\<open>Parameters.\<close>  Code of other packages is an argument: JSON text (serde_json), base64, SHA-256,
  random bytes, the HTTP transport, the calendar of chrono, the process environment.  The dialects
  are arguments of the turns, so that what is proved of a turn holds for every dialect.  What a theorem needs of them is a premise and
  a witness instantiates it.

  \<^bold>\<open>What the lemmas show.\<close>  A turn reaches only permitted deployments, in candidate order, each
  once, with its own credential; every answered turn is recorded exactly once however its stream is
  read or dropped; routing is sound and complete with respect to the policy; limits and slots stay
  within their bounds over all runs of the limiter; costs and periods are computed exactly; the
  store keeps its schema, on PostgreSQL as on SQLite, revocation is exact, and the name tables refine a map from names to
  models; nothing passes admission without a live key, room in the limits and budget.  The streams
  written for clients follow the protocol of their dialect and read back as the events that went in;
  same-dialect relays keep what the client sent.  Over any run of admin calls a public name stays a model's
  or an alias's and requests are routed as the tables say; a member reaches only what is his, a reading
  call discloses no secret, and an administrator is left unless one is invited away.  A captured turn is
  redacted as its label says wherever it is, card numbers go whole, an erasure reaches every stored turn of its keys and
  a rotation loses none; the metrics are what a count of the turns gives.  A server that starts routes as its
  store says and can be operated; an import puts its file in place and loses nothing.  Lemmas of kind
  error state deviations proved of the code: they are listed with the findings.

  \<^bold>\<open>Bounds and fuel.\<close>  The walk along aliases stops after the bound the code has.  The multipart
  scan recurses on the distance to the end of the body and is total.  A streamed body is a finite list
  of items; the stall timeout is an item of its own.

  \<^bold>\<open>Not modelled.\<close>  The text codecs of columns, connection and migration of the stores, the TOML parser, the
  HTTP transport and its mock, the listener and the printing of the process, and the user interface are
  input and output through other packages.  The regular expressions of redaction, DuckDB and the file system
  under the request log, and the posts of telemetry are arguments of their models.
\<close>

end
